(* ===== verification/Prelude.thy ===== *)
theory Prelude
  imports Main "HOL-Library.Word"
begin

unbundle bit_operations_syntax

text \<open>
  Shared ground of the development: the machine types of the C sources (\<open>uint8_t\<close>,
  \<open>__u16\<close>, \<open>__u32\<close>, \<open>unsigned long\<close> on an LP64 host), the two byte orders of
  a host and the conversions \<open>cpu_to_be32\<close> and \<open>be32_to_cpu\<close> the sources use,
  memory images of integers, the error numbers, and the list lemmas (slices, overwriting,
  unlinking) that the component proofs rest on.
\<close>

section \<open>Machine types\<close>

type_synonym byte = "8 word"
type_synonym u8 = "8 word"
type_synonym u16 = "16 word"
type_synonym u32 = "32 word"
type_synonym s32 = "32 word"
type_synonym u64 = "64 word"
type_synonym addr = nat

named_theorems wire_simps \<open>memory images and byte order\<close>
named_theorems slice_simps \<open>take, drop and overwrite on buffers\<close>

abbreviation s32_neg :: "s32 \<Rightarrow> bool" where
  "s32_neg x \<equiv> sint x < 0"

section \<open>Error numbers\<close>

text \<open>Values of \<^verbatim>\<open>asm-generic/errno.h\<close>; a function that fails with \<open>-E\<close> returns \<open>- E\<close>.\<close>

definition ENOENT :: s32 where "ENOENT = 2"
definition EAGAIN :: s32 where "EAGAIN = 11"
definition ENOMEM :: s32 where "ENOMEM = 12"
definition EBUSY :: s32 where "EBUSY = 16"
definition ENODEV :: s32 where "ENODEV = 19"
definition EINVAL :: s32 where "EINVAL = 22"
definition EPIPE :: s32 where "EPIPE = 32"
definition ECONNRESET :: s32 where "ECONNRESET = 104"
definition ESHUTDOWN :: s32 where "ESHUTDOWN = 108"
definition ETIMEDOUT :: s32 where "ETIMEDOUT = 110"
definition EINPROGRESS :: s32 where "EINPROGRESS = 115"
definition ERESTARTSYS :: s32 where "ERESTARTSYS = 512"

lemmas errno_defs = ENOENT_def EAGAIN_def ENOMEM_def EBUSY_def ENODEV_def EINVAL_def EPIPE_def
  ECONNRESET_def ESHUTDOWN_def ETIMEDOUT_def EINPROGRESS_def ERESTARTSYS_def

text \<open>The signed value of a word below half its range.\<close>

lemma sint_of_nat_small: "n < 2 ^ 31 \<Longrightarrow> sint (of_nat n :: s32) = int n"
proof -
  assume n: "n < 2 ^ 31"
  have "sint (word_of_int (int n) :: s32) = signed_take_bit 31 (int n)"
    by transfer simp
  also have "\<dots> = int n" using n by (intro signed_take_bit_int_eq_self) auto
  finally show ?thesis by simp
qed

lemma sint_unat_small: "unat (x :: u32) < 2 ^ 31 \<Longrightarrow> sint x = int (unat x)"
  using sint_of_nat_small [of "unat x"] by simp

section \<open>Byte order\<close>

datatype endian = Little | Big

definition bytes_le32 :: "u32 \<Rightarrow> byte list" where
  "bytes_le32 w = [ucast w, ucast (drop_bit 8 w), ucast (drop_bit 16 w), ucast (drop_bit 24 w)]"

definition bytes_be32 :: "u32 \<Rightarrow> byte list" where
  "bytes_be32 w = rev (bytes_le32 w)"

definition bytes_le16 :: "u16 \<Rightarrow> byte list" where
  "bytes_le16 w = [ucast w, ucast (drop_bit 8 w)]"

definition bytes_be16 :: "u16 \<Rightarrow> byte list" where
  "bytes_be16 w = rev (bytes_le16 w)"

fun word_le32 :: "byte list \<Rightarrow> u32" where
  "word_le32 [a, b, c, d] =
     ucast a OR push_bit 8 (ucast b) OR push_bit 16 (ucast c) OR push_bit 24 (ucast d)"
| "word_le32 _ = 0"

fun word_le16 :: "byte list \<Rightarrow> u16" where
  "word_le16 [a, b] = ucast a OR push_bit 8 (ucast b)"
| "word_le16 _ = 0"

text \<open>The image of a 32-bit and a 16-bit object in the host's memory, and the load from it.\<close>

definition mem32 :: "endian \<Rightarrow> u32 \<Rightarrow> byte list" where
  "mem32 h w = (case h of Little \<Rightarrow> bytes_le32 w | Big \<Rightarrow> bytes_be32 w)"

definition ld32 :: "endian \<Rightarrow> byte list \<Rightarrow> u32" where
  "ld32 h bs = (case h of Little \<Rightarrow> word_le32 bs | Big \<Rightarrow> word_le32 (rev bs))"

definition mem16 :: "endian \<Rightarrow> u16 \<Rightarrow> byte list" where
  "mem16 h w = (case h of Little \<Rightarrow> bytes_le16 w | Big \<Rightarrow> bytes_be16 w)"

definition ld16 :: "endian \<Rightarrow> byte list \<Rightarrow> u16" where
  "ld16 h bs = (case h of Little \<Rightarrow> word_le16 bs | Big \<Rightarrow> word_le16 (rev bs))"

definition bswap32 :: "u32 \<Rightarrow> u32" where
  "bswap32 w = word_le32 (rev (bytes_le32 w))"

definition bswap16 :: "u16 \<Rightarrow> u16" where
  "bswap16 w = word_le16 (rev (bytes_le16 w))"

text \<open>\<open>cpu_to_be32\<close>, \<open>be32_to_cpu\<close>, \<open>htonl\<close>, \<open>ntohl\<close> and their 16-bit and
  little-endian versions on a host of byte order \<open>h\<close>.\<close>

definition cpu_to_be32 :: "endian \<Rightarrow> u32 \<Rightarrow> u32" where
  "cpu_to_be32 h w = (case h of Little \<Rightarrow> bswap32 w | Big \<Rightarrow> w)"

definition be32_to_cpu :: "endian \<Rightarrow> u32 \<Rightarrow> u32" where
  "be32_to_cpu h w = (case h of Little \<Rightarrow> bswap32 w | Big \<Rightarrow> w)"

definition cpu_to_be16 :: "endian \<Rightarrow> u16 \<Rightarrow> u16" where
  "cpu_to_be16 h w = (case h of Little \<Rightarrow> bswap16 w | Big \<Rightarrow> w)"

definition be16_to_cpu :: "endian \<Rightarrow> u16 \<Rightarrow> u16" where
  "be16_to_cpu h w = (case h of Little \<Rightarrow> bswap16 w | Big \<Rightarrow> w)"

definition le16_to_cpu :: "endian \<Rightarrow> u16 \<Rightarrow> u16" where
  "le16_to_cpu h w = (case h of Little \<Rightarrow> w | Big \<Rightarrow> bswap16 w)"

definition le32_to_cpu :: "endian \<Rightarrow> u32 \<Rightarrow> u32" where
  "le32_to_cpu h w = (case h of Little \<Rightarrow> w | Big \<Rightarrow> bswap32 w)"

lemma length_bytes [simp, wire_simps]:
  "length (bytes_le32 w) = 4" "length (bytes_be32 w) = 4"
  "length (bytes_le16 v) = 2" "length (bytes_be16 v) = 2"
  by (simp_all add: bytes_le32_def bytes_be32_def bytes_le16_def bytes_be16_def)

lemma byte_bit_beyond [simp]: "8 \<le> n \<Longrightarrow> \<not> bit (b :: byte) n"
  by (auto dest: bit_imp_le_length)

lemma word_bytes_le32 [simp, wire_simps]: "word_le32 (bytes_le32 w) = w"
proof (rule bit_word_eqI)
  fix n :: nat
  assume n: "n < LENGTH(32)"
  then consider "n < 8" | "8 \<le> n" "n < 16" | "16 \<le> n" "n < 24" | "24 \<le> n" by linarith
  then show "bit (word_le32 (bytes_le32 w)) n = bit w n"
    using n by cases (auto simp: bytes_le32_def bit_simps)
qed

lemma word_bytes_le16 [simp, wire_simps]: "word_le16 (bytes_le16 w) = w"
  by (rule bit_word_eqI) (auto simp: bytes_le16_def bit_simps)

lemma bytes_word_le32:
  assumes "length bs = 4"
  shows "bytes_le32 (word_le32 bs) = bs"
proof -
  obtain a b c d where bs: "bs = [a, b, c, d]"
    using assms by (auto simp: eval_nat_numeral length_Suc_conv)
  show ?thesis
    by (auto simp: bs bytes_le32_def bit_simps intro!: bit_word_eqI)
qed

lemma bytes_word_le16:
  assumes "length bs = 2"
  shows "bytes_le16 (word_le16 bs) = bs"
proof -
  obtain a b where bs: "bs = [a, b]"
    using assms by (auto simp: eval_nat_numeral length_Suc_conv)
  show ?thesis
    by (auto simp: bs bytes_le16_def bit_simps intro!: bit_word_eqI)
qed

lemma length_mem [simp, wire_simps]: "length (mem32 h w) = 4" "length (mem16 h v) = 2"
  by (simp_all add: mem32_def mem16_def split: endian.split)

lemma ld32_mem32 [simp, wire_simps]: "ld32 h (mem32 h w) = w"
  by (cases h) (simp_all add: ld32_def mem32_def bytes_be32_def)

lemma ld16_mem16 [simp, wire_simps]: "ld16 h (mem16 h w) = w"
  by (cases h) (simp_all add: ld16_def mem16_def bytes_be16_def)

lemma mem32_ld32 [wire_simps]: "length bs = 4 \<Longrightarrow> mem32 h (ld32 h bs) = bs"
  by (cases h) (simp_all add: ld32_def mem32_def bytes_be32_def bytes_word_le32)

lemma mem16_ld16 [wire_simps]: "length bs = 2 \<Longrightarrow> mem16 h (ld16 h bs) = bs"
  by (cases h) (simp_all add: ld16_def mem16_def bytes_be16_def bytes_word_le16)

lemma bswap32_bswap32 [simp]: "bswap32 (bswap32 w) = w"
  by (simp add: bswap32_def bytes_word_le32)

lemma bswap16_bswap16 [simp]: "bswap16 (bswap16 w) = w"
  by (simp add: bswap16_def bytes_word_le16)

lemma be32_cpu_roundtrip [simp, wire_simps]: "be32_to_cpu h (cpu_to_be32 h w) = w"
  by (cases h) (simp_all add: be32_to_cpu_def cpu_to_be32_def)

lemma be16_cpu_roundtrip [simp, wire_simps]: "be16_to_cpu h (cpu_to_be16 h w) = w"
  by (cases h) (simp_all add: be16_to_cpu_def cpu_to_be16_def)

text \<open>What a converted integer looks like in memory does not depend on the host: it is the
  big-endian byte string, and converting a loaded big-endian string gives the integer back on
  any host.\<close>

lemma mem32_cpu_to_be32 [wire_simps]: "mem32 h (cpu_to_be32 h w) = bytes_be32 w"
  by (cases h) (simp_all add: mem32_def cpu_to_be32_def bytes_be32_def bswap32_def bytes_word_le32)

lemma mem16_cpu_to_be16 [wire_simps]: "mem16 h (cpu_to_be16 h w) = bytes_be16 w"
  by (cases h) (simp_all add: mem16_def cpu_to_be16_def bytes_be16_def bswap16_def bytes_word_le16)

lemma be32_to_cpu_ld32 [wire_simps]: "be32_to_cpu h (ld32 h (bytes_be32 w)) = w"
  by (cases h) (simp_all add: be32_to_cpu_def ld32_def bytes_be32_def bswap32_def bytes_word_le32)

lemma be16_to_cpu_ld16 [wire_simps]: "be16_to_cpu h (ld16 h (bytes_be16 w)) = w"
  by (cases h) (simp_all add: be16_to_cpu_def ld16_def bytes_be16_def bswap16_def bytes_word_le16)

section \<open>Buffers\<close>

text \<open>\<open>memcpy\<close>/\<open>memmove\<close> of \<open>src\<close> into \<open>buf\<close> at offset \<open>off\<close>.\<close>

definition overwrite :: "nat \<Rightarrow> 'a list \<Rightarrow> 'a list \<Rightarrow> 'a list" where
  "overwrite off src buf = take off buf @ src @ drop (off + length src) buf"

definition slice :: "nat \<Rightarrow> nat \<Rightarrow> 'a list \<Rightarrow> 'a list" where
  "slice off n buf = take n (drop off buf)"

lemma length_overwrite [simp, slice_simps]:
  "off + length src \<le> length buf \<Longrightarrow> length (overwrite off src buf) = length buf"
  by (simp add: overwrite_def)

lemma length_slice [simp, slice_simps]:
  "off + n \<le> length buf \<Longrightarrow> length (slice off n buf) = n"
  by (simp add: slice_def)

lemma slice_overwrite_same [simp, slice_simps]:
  "off + length src \<le> length buf \<Longrightarrow> n = length src \<Longrightarrow> slice off n (overwrite off src buf) = src"
  by (simp add: slice_def overwrite_def)

lemma slice_overwrite_other [slice_simps]:
  assumes "off + length src \<le> length buf" and "i + n \<le> off \<or> off + length src \<le> i"
  shows "slice i n (overwrite off src buf) = slice i n buf"
  using assms
  by (auto simp: slice_def overwrite_def drop_take min_def)

lemma slice_append_left [simp, slice_simps]: "length a = n \<Longrightarrow> slice 0 n (a @ b) = a"
  by (simp add: slice_def)

lemma slice_append_right [simp, slice_simps]:
  "length a \<le> i \<Longrightarrow> slice i n (a @ b) = slice (i - length a) n b"
  by (simp add: slice_def)

lemma slice_whole [simp, slice_simps]: "length a = n \<Longrightarrow> slice 0 n a = a"
  by (simp add: slice_def)

lemma overwrite_all [simp, slice_simps]: "length src = length buf \<Longrightarrow> overwrite 0 src buf = src"
  by (simp add: overwrite_def)

section \<open>Lists\<close>

text \<open>The kernel walks a list for the first entry with a property and unlinks it:
  \<open>list_for_each_entry_safe\<close> with \<open>list_del\<close>.\<close>

fun unlink_first :: "('a \<Rightarrow> bool) \<Rightarrow> 'a list \<Rightarrow> 'a option \<times> 'a list" where
  "unlink_first P [] = (None, [])"
| "unlink_first P (x # xs) =
     (if P x then (Some x, xs) else (case unlink_first P xs of (r, ys) \<Rightarrow> (r, x # ys)))"

lemma unlink_first_None: "unlink_first P xs = (None, ys) \<Longrightarrow> ys = xs \<and> (\<forall>x\<in>set xs. \<not> P x)"
  by (induction xs arbitrary: ys) (auto split: if_splits prod.splits)

lemma unlink_first_Some:
  "unlink_first P xs = (Some x, ys) \<Longrightarrow> \<exists>us vs. xs = us @ x # vs \<and> ys = us @ vs \<and> P x \<and> (\<forall>u\<in>set us. \<not> P u)"
proof (induction xs arbitrary: ys)
  case Nil
  then show ?case by simp
next
  case (Cons a xs)
  show ?case
  proof (cases "P a")
    case True
    with Cons.prems have "a # xs = [] @ x # xs" "ys = [] @ xs" "P x" by auto
    then show ?thesis by fastforce
  next
    case False
    with Cons.prems obtain zs where z: "unlink_first P xs = (Some x, zs)" "ys = a # zs"
      by (auto split: prod.splits)
    from Cons.IH [OF z(1)] obtain us vs
      where "xs = us @ x # vs" "zs = us @ vs" "P x" "\<forall>u\<in>set us. \<not> P u" by blast
    with False z(2) have "a # xs = (a # us) @ x # vs" "ys = (a # us) @ vs" "P x"
      "\<forall>u\<in>set (a # us). \<not> P u" by auto
    then show ?thesis by blast
  qed
qed

lemma unlink_first_exists:
  assumes "x \<in> set xs" and "P x"
  obtains y ys where "unlink_first P xs = (Some y, ys)" "y \<in> set xs" "P y"
proof (cases "unlink_first P xs")
  case (Pair r ys)
  show thesis
  proof (cases r)
    case None
    with Pair unlink_first_None [of P xs ys] assms show thesis by auto
  next
    case (Some y)
    with Pair unlink_first_Some [of P xs y ys] that [of y ys] show thesis by auto
  qed
qed

lemma distinct_map_unlink:
  "distinct (map f xs) \<Longrightarrow> unlink_first P xs = (Some x, ys) \<Longrightarrow>
   distinct (map f ys) \<and> f x \<notin> set (map f ys) \<and> set (map f xs) = insert (f x) (set (map f ys))"
  by (drule unlink_first_Some) auto

end
