(* ===== verification/Wire.thy ===== *)
theory Wire
  imports Prelude
begin

text \<open>
  The packets of the USB/IP transfer phase: the packed structures of \<^verbatim>\<open>usbip_struct.h\<close>, their
  image in a host's memory, and the byte-order conversions of \<^verbatim>\<open>usbip_common.c\<close>. The union
  of \<open>struct usbip_header\<close> is kept as the raw 28 bytes it occupies, with one pair of
  load and store functions per member, so that converting one member leaves the bytes of the
  others as the C code does. Lemmas: the memory image after conversion is big-endian on every
  host, and a header sent by one host is read back unchanged by another.
\<close>

section \<open>Packet structures\<close>

definition USBIP_CMD_SUBMIT :: u32 where "USBIP_CMD_SUBMIT = 1"
definition USBIP_CMD_UNLINK :: u32 where "USBIP_CMD_UNLINK = 2"
definition USBIP_RET_SUBMIT :: u32 where "USBIP_RET_SUBMIT = 3"
definition USBIP_RET_UNLINK :: u32 where "USBIP_RET_UNLINK = 4"
definition USBIP_DIR_OUT :: u32 where "USBIP_DIR_OUT = 0"
definition USBIP_DIR_IN :: u32 where "USBIP_DIR_IN = 1"

lemmas command_defs = USBIP_CMD_SUBMIT_def USBIP_CMD_UNLINK_def USBIP_RET_SUBMIT_def
  USBIP_RET_UNLINK_def

record usbip_iso_packet_descriptor =
  iso_offset :: u32
  iso_length :: u32
  iso_actual_length :: u32
  iso_status :: u32

record usbip_header_basic =
  command :: u32
  seqnum :: u32
  devid :: u32
  direction :: u32
  ep :: u32

record usbip_header_cmd_submit =
  cs_transfer_flags :: u32
  cs_transfer_buffer_length :: s32
  cs_start_frame :: s32
  cs_number_of_packets :: s32
  cs_interval :: s32
  cs_setup :: "byte list"

record usbip_header_ret_submit =
  rs_status :: s32
  rs_actual_length :: s32
  rs_start_frame :: s32
  rs_number_of_packets :: s32
  rs_error_count :: s32

record usbip_header_cmd_unlink =
  cu_seqnum :: u32

record usbip_header_ret_unlink =
  ru_status :: s32

text \<open>\<open>hu\<close> is the union: the 28 bytes of its largest member \<open>cmd_submit\<close>.\<close>

record usbip_header =
  base :: usbip_header_basic
  hu :: "byte list"

definition sizeof_union :: nat where "sizeof_union = 28"
definition sizeof_header :: nat where "sizeof_header = 48"
definition sizeof_iso :: nat where "sizeof_iso = 16"

definition wf_header :: "usbip_header \<Rightarrow> bool" where
  "wf_header p \<longleftrightarrow> length (hu p) = sizeof_union"

section \<open>Members of the union\<close>

definition mem_cmd_submit :: "endian \<Rightarrow> usbip_header_cmd_submit \<Rightarrow> byte list" where
  "mem_cmd_submit h s =
     mem32 h (cs_transfer_flags s) @ mem32 h (cs_transfer_buffer_length s) @
     mem32 h (cs_start_frame s) @ mem32 h (cs_number_of_packets s) @
     mem32 h (cs_interval s) @ cs_setup s"

definition get_cmd_submit :: "endian \<Rightarrow> usbip_header \<Rightarrow> usbip_header_cmd_submit" where
  "get_cmd_submit h p =
     \<lparr>cs_transfer_flags = ld32 h (slice 0 4 (hu p)),
      cs_transfer_buffer_length = ld32 h (slice 4 4 (hu p)),
      cs_start_frame = ld32 h (slice 8 4 (hu p)),
      cs_number_of_packets = ld32 h (slice 12 4 (hu p)),
      cs_interval = ld32 h (slice 16 4 (hu p)),
      cs_setup = slice 20 8 (hu p)\<rparr>"

definition put_cmd_submit :: "endian \<Rightarrow> usbip_header_cmd_submit \<Rightarrow> usbip_header \<Rightarrow> usbip_header" where
  "put_cmd_submit h s p = p\<lparr>hu := overwrite 0 (mem_cmd_submit h s) (hu p)\<rparr>"

definition mem_ret_submit :: "endian \<Rightarrow> usbip_header_ret_submit \<Rightarrow> byte list" where
  "mem_ret_submit h s =
     mem32 h (rs_status s) @ mem32 h (rs_actual_length s) @ mem32 h (rs_start_frame s) @
     mem32 h (rs_number_of_packets s) @ mem32 h (rs_error_count s)"

definition get_ret_submit :: "endian \<Rightarrow> usbip_header \<Rightarrow> usbip_header_ret_submit" where
  "get_ret_submit h p =
     \<lparr>rs_status = ld32 h (slice 0 4 (hu p)),
      rs_actual_length = ld32 h (slice 4 4 (hu p)),
      rs_start_frame = ld32 h (slice 8 4 (hu p)),
      rs_number_of_packets = ld32 h (slice 12 4 (hu p)),
      rs_error_count = ld32 h (slice 16 4 (hu p))\<rparr>"

definition put_ret_submit :: "endian \<Rightarrow> usbip_header_ret_submit \<Rightarrow> usbip_header \<Rightarrow> usbip_header" where
  "put_ret_submit h s p = p\<lparr>hu := overwrite 0 (mem_ret_submit h s) (hu p)\<rparr>"

definition get_cmd_unlink :: "endian \<Rightarrow> usbip_header \<Rightarrow> usbip_header_cmd_unlink" where
  "get_cmd_unlink h p = \<lparr>cu_seqnum = ld32 h (slice 0 4 (hu p))\<rparr>"

definition put_cmd_unlink :: "endian \<Rightarrow> usbip_header_cmd_unlink \<Rightarrow> usbip_header \<Rightarrow> usbip_header" where
  "put_cmd_unlink h s p = p\<lparr>hu := overwrite 0 (mem32 h (cu_seqnum s)) (hu p)\<rparr>"

definition get_ret_unlink :: "endian \<Rightarrow> usbip_header \<Rightarrow> usbip_header_ret_unlink" where
  "get_ret_unlink h p = \<lparr>ru_status = ld32 h (slice 0 4 (hu p))\<rparr>"

definition put_ret_unlink :: "endian \<Rightarrow> usbip_header_ret_unlink \<Rightarrow> usbip_header \<Rightarrow> usbip_header" where
  "put_ret_unlink h s p = p\<lparr>hu := overwrite 0 (mem32 h (ru_status s)) (hu p)\<rparr>"

section \<open>Images in memory\<close>

definition mem_basic :: "endian \<Rightarrow> usbip_header_basic \<Rightarrow> byte list" where
  "mem_basic h b =
     mem32 h (command b) @ mem32 h (seqnum b) @ mem32 h (devid b) @ mem32 h (direction b) @
     mem32 h (ep b)"

definition ld_basic :: "endian \<Rightarrow> byte list \<Rightarrow> usbip_header_basic" where
  "ld_basic h bs =
     \<lparr>command = ld32 h (slice 0 4 bs), seqnum = ld32 h (slice 4 4 bs),
      devid = ld32 h (slice 8 4 bs), direction = ld32 h (slice 12 4 bs),
      ep = ld32 h (slice 16 4 bs)\<rparr>"

definition mem_header :: "endian \<Rightarrow> usbip_header \<Rightarrow> byte list" where
  "mem_header h p = mem_basic h (base p) @ hu p"

definition ld_header :: "endian \<Rightarrow> byte list \<Rightarrow> usbip_header" where
  "ld_header h bs = \<lparr>base = ld_basic h bs, hu = slice 20 28 bs\<rparr>"

definition mem_iso :: "endian \<Rightarrow> usbip_iso_packet_descriptor \<Rightarrow> byte list" where
  "mem_iso h d =
     mem32 h (iso_offset d) @ mem32 h (iso_length d) @ mem32 h (iso_actual_length d) @
     mem32 h (iso_status d)"

definition ld_iso :: "endian \<Rightarrow> byte list \<Rightarrow> usbip_iso_packet_descriptor" where
  "ld_iso h bs =
     \<lparr>iso_offset = ld32 h (slice 0 4 bs), iso_length = ld32 h (slice 4 4 bs),
      iso_actual_length = ld32 h (slice 8 4 bs), iso_status = ld32 h (slice 12 4 bs)\<rparr>"

text \<open>The header the receiving and sending functions start from: \<open>memset(&pdu, 0, sizeof(pdu))\<close>.\<close>

definition zero_basic :: usbip_header_basic where
  "zero_basic = \<lparr>command = 0, seqnum = 0, devid = 0, direction = 0, ep = 0\<rparr>"

definition zero_header :: usbip_header where
  "zero_header = \<lparr>base = zero_basic, hu = replicate sizeof_union 0\<rparr>"

section \<open>Byte order of a packet\<close>

definition correct_endian_basic :: "endian \<Rightarrow> usbip_header_basic \<Rightarrow> bool \<Rightarrow> usbip_header_basic" where
  "correct_endian_basic h b send =
     (if send then
        \<lparr>command = cpu_to_be32 h (command b), seqnum = cpu_to_be32 h (seqnum b),
         devid = cpu_to_be32 h (devid b), direction = cpu_to_be32 h (direction b),
         ep = cpu_to_be32 h (ep b)\<rparr>
      else
        \<lparr>command = be32_to_cpu h (command b), seqnum = be32_to_cpu h (seqnum b),
         devid = be32_to_cpu h (devid b), direction = be32_to_cpu h (direction b),
         ep = be32_to_cpu h (ep b)\<rparr>)"

definition correct_endian_cmd_submit ::
  "endian \<Rightarrow> usbip_header_cmd_submit \<Rightarrow> bool \<Rightarrow> usbip_header_cmd_submit" where
  "correct_endian_cmd_submit h s send =
     (let cv = (if send then cpu_to_be32 h else be32_to_cpu h) in
      s\<lparr>cs_transfer_flags := cv (cs_transfer_flags s),
        cs_transfer_buffer_length := cv (cs_transfer_buffer_length s),
        cs_start_frame := cv (cs_start_frame s),
        cs_number_of_packets := cv (cs_number_of_packets s),
        cs_interval := cv (cs_interval s)\<rparr>)"

definition correct_endian_ret_submit ::
  "endian \<Rightarrow> usbip_header_ret_submit \<Rightarrow> bool \<Rightarrow> usbip_header_ret_submit" where
  "correct_endian_ret_submit h s send =
     (let cv = (if send then cpu_to_be32 h else be32_to_cpu h) in
      \<lparr>rs_status = cv (rs_status s), rs_actual_length = cv (rs_actual_length s),
       rs_start_frame = cv (rs_start_frame s), rs_number_of_packets = cv (rs_number_of_packets s),
       rs_error_count = cv (rs_error_count s)\<rparr>)"

definition correct_endian_cmd_unlink ::
  "endian \<Rightarrow> usbip_header_cmd_unlink \<Rightarrow> bool \<Rightarrow> usbip_header_cmd_unlink" where
  "correct_endian_cmd_unlink h s send =
     (if send then s\<lparr>cu_seqnum := cpu_to_be32 h (cu_seqnum s)\<rparr>
      else s\<lparr>cu_seqnum := be32_to_cpu h (cu_seqnum s)\<rparr>)"

definition correct_endian_ret_unlink ::
  "endian \<Rightarrow> usbip_header_ret_unlink \<Rightarrow> bool \<Rightarrow> usbip_header_ret_unlink" where
  "correct_endian_ret_unlink h s send =
     (if send then s\<lparr>ru_status := cpu_to_be32 h (ru_status s)\<rparr>
      else s\<lparr>ru_status := be32_to_cpu h (ru_status s)\<rparr>)"

definition usbip_header_correct_endian :: "endian \<Rightarrow> usbip_header \<Rightarrow> bool \<Rightarrow> usbip_header" where
  "usbip_header_correct_endian h p send =
     (let cmd0 = (if send then command (base p) else 0);
          p1 = p\<lparr>base := correct_endian_basic h (base p) send\<rparr>;
          cmd = (if \<not> send then command (base p1) else cmd0)
      in if cmd = USBIP_CMD_SUBMIT then
           put_cmd_submit h (correct_endian_cmd_submit h (get_cmd_submit h p1) send) p1
         else if cmd = USBIP_RET_SUBMIT then
           put_ret_submit h (correct_endian_ret_submit h (get_ret_submit h p1) send) p1
         else if cmd = USBIP_CMD_UNLINK then
           put_cmd_unlink h (correct_endian_cmd_unlink h (get_cmd_unlink h p1) send) p1
         else if cmd = USBIP_RET_UNLINK then
           put_ret_unlink h (correct_endian_ret_unlink h (get_ret_unlink h p1) send) p1
         else p1)"

definition usbip_iso_packet_correct_endian ::
  "endian \<Rightarrow> usbip_iso_packet_descriptor \<Rightarrow> bool \<Rightarrow> usbip_iso_packet_descriptor" where
  "usbip_iso_packet_correct_endian h d send =
     (if send then
        \<lparr>iso_offset = cpu_to_be32 h (iso_offset d), iso_length = cpu_to_be32 h (iso_length d),
         iso_actual_length = cpu_to_be32 h (iso_actual_length d),
         iso_status = cpu_to_be32 h (iso_status d)\<rparr>
      else
        \<lparr>iso_offset = be32_to_cpu h (iso_offset d), iso_length = be32_to_cpu h (iso_length d),
         iso_actual_length = be32_to_cpu h (iso_actual_length d),
         iso_status = be32_to_cpu h (iso_status d)\<rparr>)"

section \<open>Layout lemmas\<close>

lemma length_mem_basic [simp, wire_simps]: "length (mem_basic h b) = 20"
  by (simp add: mem_basic_def)

lemma length_mem_ret_submit [simp, wire_simps]: "length (mem_ret_submit h s) = 20"
  by (simp add: mem_ret_submit_def)

lemma length_mem_cmd_submit [simp, wire_simps]:
  "length (cs_setup s) = 8 \<Longrightarrow> length (mem_cmd_submit h s) = 28"
  by (simp add: mem_cmd_submit_def)

lemma length_mem_iso [simp, wire_simps]: "length (mem_iso h d) = sizeof_iso"
  by (simp add: mem_iso_def sizeof_iso_def)

lemma length_mem_header [wire_simps]: "wf_header p \<Longrightarrow> length (mem_header h p) = sizeof_header"
  by (simp add: mem_header_def wf_header_def sizeof_union_def sizeof_header_def)

lemma ld_basic_mem [wire_simps]: "ld_basic h (mem_basic h b @ rest) = b"
  by (simp add: ld_basic_def mem_basic_def)

lemma ld_header_mem [wire_simps]: "wf_header p \<Longrightarrow> ld_header h (mem_header h p) = p"
  by (simp add: ld_header_def mem_header_def ld_basic_mem wf_header_def sizeof_union_def)

lemma ld_iso_mem [wire_simps]: "ld_iso h (mem_iso h d) = d"
  by (simp add: ld_iso_def mem_iso_def)

lemma wf_zero_header [simp]: "wf_header zero_header"
  by (simp add: wf_header_def zero_header_def)

lemma setup_get_cmd_submit [simp]:
  "wf_header p \<Longrightarrow> length (cs_setup (get_cmd_submit h p)) = 8"
  by (simp add: get_cmd_submit_def wf_header_def sizeof_union_def)

lemma wf_header_base [simp]: "wf_header (p\<lparr>base := b\<rparr>) = wf_header p"
  by (simp add: wf_header_def)

lemma get_base [simp]:
  "get_cmd_submit h (p\<lparr>base := b\<rparr>) = get_cmd_submit h p"
  "get_ret_submit h (p\<lparr>base := b\<rparr>) = get_ret_submit h p"
  "get_cmd_unlink h (p\<lparr>base := b\<rparr>) = get_cmd_unlink h p"
  "get_ret_unlink h (p\<lparr>base := b\<rparr>) = get_ret_unlink h p"
  by (simp_all add: get_cmd_submit_def get_ret_submit_def get_cmd_unlink_def get_ret_unlink_def)

lemma base_put [simp]:
  "base (put_cmd_submit h s p) = base p" "base (put_ret_submit h t p) = base p"
  "base (put_cmd_unlink h v p) = base p" "base (put_ret_unlink h w p) = base p"
  by (simp_all add: put_cmd_submit_def put_ret_submit_def put_cmd_unlink_def put_ret_unlink_def)

lemma wf_put [simp]:
  "wf_header p \<Longrightarrow> length (cs_setup s) = 8 \<Longrightarrow> wf_header (put_cmd_submit h s p)"
  "wf_header p \<Longrightarrow> wf_header (put_ret_submit h t p)"
  "wf_header p \<Longrightarrow> wf_header (put_cmd_unlink h v p)"
  "wf_header p \<Longrightarrow> wf_header (put_ret_unlink h w p)"
  by (simp_all add: wf_header_def sizeof_union_def put_cmd_submit_def put_ret_submit_def
      put_cmd_unlink_def put_ret_unlink_def)

lemma get_put_cmd_submit [wire_simps]:
  "wf_header p \<Longrightarrow> length (cs_setup s) = 8 \<Longrightarrow> get_cmd_submit h (put_cmd_submit h s p) = s"
  by (simp add: get_cmd_submit_def put_cmd_submit_def wf_header_def sizeof_union_def)
    (simp add: mem_cmd_submit_def)

lemma get_put_ret_submit [wire_simps]:
  "wf_header p \<Longrightarrow> get_ret_submit h (put_ret_submit h s p) = s"
  by (simp add: get_ret_submit_def put_ret_submit_def wf_header_def sizeof_union_def
      overwrite_def mem_ret_submit_def)

lemma get_put_unlink [wire_simps]:
  "wf_header p \<Longrightarrow> get_cmd_unlink h (put_cmd_unlink h v p) = v"
  "wf_header p \<Longrightarrow> get_ret_unlink h (put_ret_unlink h w p) = w"
  by (simp_all add: get_cmd_unlink_def put_cmd_unlink_def get_ret_unlink_def put_ret_unlink_def
      wf_header_def sizeof_union_def overwrite_def)

section \<open>Byte order lemmas\<close>

text \<open>The bytes of a header on the network, as the protocol document lays them out: every
  32-bit field most significant byte first, the setup packet as it is.\<close>

definition wire_basic :: "usbip_header_basic \<Rightarrow> byte list" where
  "wire_basic b = bytes_be32 (command b) @ bytes_be32 (seqnum b) @ bytes_be32 (devid b) @
     bytes_be32 (direction b) @ bytes_be32 (ep b)"

definition wire_union :: "endian \<Rightarrow> usbip_header \<Rightarrow> byte list" where
  "wire_union h p =
     (if command (base p) = USBIP_CMD_SUBMIT then
        (let s = get_cmd_submit h p in
         bytes_be32 (cs_transfer_flags s) @ bytes_be32 (cs_transfer_buffer_length s) @
         bytes_be32 (cs_start_frame s) @ bytes_be32 (cs_number_of_packets s) @
         bytes_be32 (cs_interval s) @ cs_setup s)
      else if command (base p) = USBIP_RET_SUBMIT then
        (let s = get_ret_submit h p in
         bytes_be32 (rs_status s) @ bytes_be32 (rs_actual_length s) @
         bytes_be32 (rs_start_frame s) @ bytes_be32 (rs_number_of_packets s) @
         bytes_be32 (rs_error_count s) @ drop 20 (hu p))
      else if command (base p) = USBIP_CMD_UNLINK then
        bytes_be32 (cu_seqnum (get_cmd_unlink h p)) @ drop 4 (hu p)
      else if command (base p) = USBIP_RET_UNLINK then
        bytes_be32 (ru_status (get_ret_unlink h p)) @ drop 4 (hu p)
      else hu p)"

lemma mem_correct_endian_basic [wire_simps]:
  "mem_basic h (correct_endian_basic h b True) = wire_basic b"
  by (simp add: mem_basic_def correct_endian_basic_def wire_basic_def mem32_cpu_to_be32)

lemma correct_endian_basic_recv [wire_simps]:
  "correct_endian_basic h (ld_basic h (wire_basic b @ rest)) False = b"
  by (simp add: correct_endian_basic_def ld_basic_def wire_basic_def be32_to_cpu_ld32)

lemma wf_correct_endian [simp]:
  "wf_header p \<Longrightarrow> wf_header (usbip_header_correct_endian h p send)"
  by (auto simp: usbip_header_correct_endian_def Let_def correct_endian_cmd_submit_def)

lemma mem_header_send:
  assumes "wf_header p"
  shows "mem_header h (usbip_header_correct_endian h p True) = wire_basic (base p) @ wire_union h p"
  using assms
  by (auto simp: usbip_header_correct_endian_def mem_header_def wire_union_def wire_simps
      put_cmd_submit_def put_ret_submit_def put_cmd_unlink_def put_ret_unlink_def
      correct_endian_cmd_submit_def correct_endian_ret_submit_def correct_endian_cmd_unlink_def
      correct_endian_ret_unlink_def Let_def wf_header_def sizeof_union_def
      mem_cmd_submit_def mem_ret_submit_def overwrite_def get_cmd_submit_def)
text \<open>What a header says to the code that reads it on a host of byte order \<open>h\<close>: the base and
  the member of the union its command selects.\<close>

datatype pdu_body =
    Cmd_Submit usbip_header_cmd_submit
  | Ret_Submit usbip_header_ret_submit
  | Cmd_Unlink usbip_header_cmd_unlink
  | Ret_Unlink usbip_header_ret_unlink
  | Other_Body "byte list"

definition header_view :: "endian \<Rightarrow> usbip_header \<Rightarrow> usbip_header_basic \<times> pdu_body" where
  "header_view h p =
     (base p,
      if command (base p) = USBIP_CMD_SUBMIT then Cmd_Submit (get_cmd_submit h p)
      else if command (base p) = USBIP_RET_SUBMIT then Ret_Submit (get_ret_submit h p)
      else if command (base p) = USBIP_CMD_UNLINK then Cmd_Unlink (get_cmd_unlink h p)
      else if command (base p) = USBIP_RET_UNLINK then Ret_Unlink (get_ret_unlink h p)
      else Other_Body (hu p))"

text \<open>A header and an isochronous descriptor as one host writes and another reads them.\<close>

definition send_header :: "endian \<Rightarrow> usbip_header \<Rightarrow> byte list" where
  "send_header h p = mem_header h (usbip_header_correct_endian h p True)"

definition recv_header :: "endian \<Rightarrow> byte list \<Rightarrow> usbip_header" where
  "recv_header g bs = usbip_header_correct_endian g (ld_header g bs) False"

definition send_iso :: "endian \<Rightarrow> usbip_iso_packet_descriptor \<Rightarrow> byte list" where
  "send_iso h d = mem_iso h (usbip_iso_packet_correct_endian h d True)"

definition recv_iso :: "endian \<Rightarrow> byte list \<Rightarrow> usbip_iso_packet_descriptor" where
  "recv_iso g bs = usbip_iso_packet_correct_endian g (ld_iso g bs) False"

lemma send_iso_wire [wire_simps]:
  "send_iso h d = bytes_be32 (iso_offset d) @ bytes_be32 (iso_length d) @
     bytes_be32 (iso_actual_length d) @ bytes_be32 (iso_status d)"
  by (simp add: send_iso_def mem_iso_def usbip_iso_packet_correct_endian_def mem32_cpu_to_be32)

lemma length_wire_basic [simp]: "length (wire_basic b) = 20"
  by (simp add: wire_basic_def)

lemma length_send_header [simp, wire_simps]: "wf_header p \<Longrightarrow> length (send_header h p) = sizeof_header"
  by (simp add: send_header_def length_mem_header)

lemma wire_union_length [simp]: "wf_header p \<Longrightarrow> length (wire_union h p) = 28"
  using length_send_header [of p h] mem_header_send [of p h]
  by (simp add: send_header_def sizeof_header_def)

lemma base_recv_header: "base (recv_header g (wire_basic b @ u)) = b"
  by (simp add: recv_header_def usbip_header_correct_endian_def ld_header_def wire_simps Let_def)

lemma view_recv_header:
  assumes "length u = 28"
  shows "header_view g (recv_header g (wire_basic b @ u)) =
    (b, if command b = USBIP_CMD_SUBMIT then
          Cmd_Submit (correct_endian_cmd_submit g (get_cmd_submit g \<lparr>base = b, hu = u\<rparr>) False)
        else if command b = USBIP_RET_SUBMIT then
          Ret_Submit (correct_endian_ret_submit g (get_ret_submit g \<lparr>base = b, hu = u\<rparr>) False)
        else if command b = USBIP_CMD_UNLINK then
          Cmd_Unlink (correct_endian_cmd_unlink g (get_cmd_unlink g \<lparr>base = b, hu = u\<rparr>) False)
        else if command b = USBIP_RET_UNLINK then
          Ret_Unlink (correct_endian_ret_unlink g (get_ret_unlink g \<lparr>base = b, hu = u\<rparr>) False)
        else Other_Body u)"
proof -
  have wf: "wf_header \<lparr>base = b, hu = u\<rparr>" and s: "slice 0 28 u = u"
    using assms by (simp_all add: wf_header_def sizeof_union_def)
  have su: "length (cs_setup (correct_endian_cmd_submit g (get_cmd_submit g \<lparr>base = b, hu = u\<rparr>) False)) = 8"
    using setup_get_cmd_submit [OF wf, of g] by (simp add: correct_endian_cmd_submit_def Let_def)
  show ?thesis
    using wf su
    by (simp add: header_view_def recv_header_def usbip_header_correct_endian_def ld_header_def
        wire_simps s command_defs Let_def)
qed

lemma members_of_wire [wire_simps]:
  assumes "wf_header p"
  shows "command (base p) = USBIP_CMD_SUBMIT \<Longrightarrow>
      correct_endian_cmd_submit g (get_cmd_submit g \<lparr>base = b, hu = wire_union h p\<rparr>) False =
      get_cmd_submit h p"
    and "command (base p) = USBIP_RET_SUBMIT \<Longrightarrow>
      correct_endian_ret_submit g (get_ret_submit g \<lparr>base = b, hu = wire_union h p\<rparr>) False =
      get_ret_submit h p"
    and "command (base p) = USBIP_CMD_UNLINK \<Longrightarrow>
      correct_endian_cmd_unlink g (get_cmd_unlink g \<lparr>base = b, hu = wire_union h p\<rparr>) False =
      get_cmd_unlink h p"
    and "command (base p) = USBIP_RET_UNLINK \<Longrightarrow>
      correct_endian_ret_unlink g (get_ret_unlink g \<lparr>base = b, hu = wire_union h p\<rparr>) False =
      get_ret_unlink h p"
  using setup_get_cmd_submit [OF assms, of h] assms
  by (simp_all add: wire_union_def command_defs Let_def correct_endian_cmd_submit_def
      correct_endian_ret_submit_def correct_endian_cmd_unlink_def correct_endian_ret_unlink_def
      get_cmd_submit_def [of g] get_ret_submit_def [of g] get_cmd_unlink_def [of g]
      get_ret_unlink_def [of g] be32_to_cpu_ld32)

lemma view_header_roundtrip:
  assumes "wf_header p"
  shows "header_view g (recv_header g (send_header h p)) = header_view h p"
  unfolding send_header_def mem_header_send [OF assms]
    view_recv_header [OF wire_union_length [OF assms]]
  using assms by (auto simp: header_view_def members_of_wire) (simp_all add: wire_union_def)

section \<open>Codecs\<close>

text \<open>The contract of a packet format: fixed length, and what host \<open>g\<close> sees after decoding is
  what host \<open>h\<close> meant. Clients decode arrays of packets one by one from a contiguous buffer.\<close>

definition frames :: "nat \<Rightarrow> nat \<Rightarrow> 'a list \<Rightarrow> 'a list list" where
  "frames n np buf = map (\<lambda>i. slice (i * n) n buf) [0..<np]"

locale codec =
  fixes enc :: "endian \<Rightarrow> 'm \<Rightarrow> byte list"
    and dec :: "endian \<Rightarrow> byte list \<Rightarrow> 'm"
    and view :: "endian \<Rightarrow> 'm \<Rightarrow> 'v"
    and ok :: "'m \<Rightarrow> bool"
    and n :: nat
  assumes enc_length: "ok m \<Longrightarrow> length (enc h m) = n"
    and dec_enc: "ok m \<Longrightarrow> view g (dec g (enc h m)) = view h m"
begin

lemma length_stream: "\<forall>m\<in>set ms. ok m \<Longrightarrow> length (concat (map (enc h) ms)) = length ms * n"
  by (induction ms) (auto simp: enc_length)

lemma frame_stream:
  assumes "\<forall>m\<in>set ms. ok m" and "i < length ms"
  shows "slice (i * n) n (concat (map (enc h) ms)) = enc h (ms ! i)"
  using assms
proof (induction ms arbitrary: i)
  case Nil
  then show ?case by simp
next
  case (Cons m ms)
  then show ?case
    by (cases i) (auto simp: enc_length slice_def)
qed

lemma decode_stream:
  assumes "\<forall>m\<in>set ms. ok m"
  shows "map (\<lambda>f. view g (dec g f)) (frames n (length ms) (concat (map (enc h) ms))) =
         map (view h) ms"
  using assms by (auto simp: frames_def frame_stream dec_enc intro!: nth_equalityI)

end

interpretation header_codec: codec send_header recv_header header_view wf_header sizeof_header
  by unfold_locales (simp_all add: view_header_roundtrip wire_simps)

interpretation iso_codec: codec send_iso recv_iso "\<lambda>_ d. d" "\<lambda>_. True" sizeof_iso
  by unfold_locales
    (simp_all add: send_iso_wire recv_iso_def usbip_iso_packet_correct_endian_def ld_iso_def
      be32_to_cpu_ld32 sizeof_iso_def)

section \<open>Properties\<close>

text \<open>A header converted for sending occupies 48 bytes that do not depend on the sender's byte
  order beyond the values it carries: the five fields of the base, then the fields of the member
  that the command selects, each most significant byte first.\<close>

theorem header_wire_image:
  assumes "wf_header p"
  shows "length (mem_header h (usbip_header_correct_endian h p True)) = sizeof_header \<and>
    mem_header h (usbip_header_correct_endian h p True) = wire_basic (base p) @ wire_union h p"
  using length_mem_header [OF wf_correct_endian [OF assms]] mem_header_send [OF assms] by blast

theorem header_wire_image_witness:
  "length (mem_header Little (usbip_header_correct_endian Little zero_header True)) = sizeof_header"
  using header_wire_image [OF wf_zero_header, of Little] by blast

text \<open>C7. A header converted and sent by a host of either byte order, and received and converted by
  a host of either byte order, has the same base and the same selected union member.\<close>

theorem header_roundtrip:
  assumes "wf_header p"
  shows "header_view g (usbip_header_correct_endian g
           (ld_header g (mem_header h (usbip_header_correct_endian h p True))) False) =
         header_view h p"
  using header_codec.dec_enc [OF assms, of g h] by (simp add: send_header_def recv_header_def)

theorem header_roundtrip_witness:
  "header_view Big (usbip_header_correct_endian Big
     (ld_header Big (mem_header Little (usbip_header_correct_endian Little zero_header True))) False) =
   header_view Little zero_header"
  using header_roundtrip [of zero_header Big Little] by simp

end
