(* ===== verification/Kernel.thy ===== *)
theory Kernel
  imports Wire
begin

text \<open>
  What the kernel modules share: the urb with the fields the sources touch, pipes and endpoints
  as \<^verbatim>\<open>linux/usb.h\<close> encodes them, \<open>struct usbip_device\<close> of \<^verbatim>\<open>usbip_common.h\<close>, and
  the interface of the kernel. Functions of the kernel itself (sockets, memory, threads, the USB
  core) are not under the repository: they are the fields of the record \<open>kapi\<close>, an argument of
  every definition that calls them, and thread an unknown world of type \<open>'w\<close>. Every theorem
  holds for every such environment, unless it names what it needs of it.
\<close>

section \<open>Pipes and endpoints\<close>

type_synonym pipe = u32

definition PIPE_ISOCHRONOUS :: u32 where "PIPE_ISOCHRONOUS = 0"
definition PIPE_INTERRUPT :: u32 where "PIPE_INTERRUPT = 1"
definition PIPE_CONTROL :: u32 where "PIPE_CONTROL = 2"
definition PIPE_BULK :: u32 where "PIPE_BULK = 3"

lemmas pipe_type_defs = PIPE_ISOCHRONOUS_def PIPE_INTERRUPT_def PIPE_CONTROL_def PIPE_BULK_def

definition usb_pipein :: "pipe \<Rightarrow> bool" where "usb_pipein p \<longleftrightarrow> bit p 7"
definition usb_pipeout :: "pipe \<Rightarrow> bool" where "usb_pipeout p \<longleftrightarrow> \<not> usb_pipein p"
definition usb_pipedevice :: "pipe \<Rightarrow> u32" where "usb_pipedevice p = drop_bit 8 p AND 0x7f"
definition usb_pipeendpoint :: "pipe \<Rightarrow> u32" where "usb_pipeendpoint p = drop_bit 15 p AND 0xf"
definition usb_pipetype :: "pipe \<Rightarrow> u32" where "usb_pipetype p = drop_bit 30 p AND 3"
definition usb_pipeisoc :: "pipe \<Rightarrow> bool" where "usb_pipeisoc p \<longleftrightarrow> usb_pipetype p = PIPE_ISOCHRONOUS"

text \<open>\<open>usb_sndctrlpipe\<close>, \<open>usb_rcvctrlpipe\<close> and their siblings: type, device number, endpoint
  number and, for a receiving pipe, \<open>USB_DIR_IN\<close>.\<close>

definition usb_sndpipe :: "u32 \<Rightarrow> u32 \<Rightarrow> u32 \<Rightarrow> pipe" where
  "usb_sndpipe ty devnum epnum = push_bit 30 ty OR (push_bit 8 devnum OR push_bit 15 epnum)"

definition usb_rcvpipe :: "u32 \<Rightarrow> u32 \<Rightarrow> u32 \<Rightarrow> pipe" where
  "usb_rcvpipe ty devnum epnum = push_bit 30 ty OR (push_bit 8 devnum OR push_bit 15 epnum) OR 0x80"

definition USB_ENDPOINT_XFER_CONTROL :: u8 where "USB_ENDPOINT_XFER_CONTROL = 0"
definition USB_ENDPOINT_XFER_ISOC :: u8 where "USB_ENDPOINT_XFER_ISOC = 1"
definition USB_ENDPOINT_XFER_BULK :: u8 where "USB_ENDPOINT_XFER_BULK = 2"
definition USB_ENDPOINT_XFER_INT :: u8 where "USB_ENDPOINT_XFER_INT = 3"

lemmas xfer_defs = USB_ENDPOINT_XFER_CONTROL_def USB_ENDPOINT_XFER_ISOC_def
  USB_ENDPOINT_XFER_BULK_def USB_ENDPOINT_XFER_INT_def

record usb_host_endpoint =
  bEndpointAddress :: u8
  bmAttributes :: u8
  wMaxPacketSize :: u16

definition usb_endpoint_type :: "usb_host_endpoint \<Rightarrow> u8" where
  "usb_endpoint_type e = bmAttributes e AND 3"

definition usb_endpoint_dir_out :: "usb_host_endpoint \<Rightarrow> bool" where
  "usb_endpoint_dir_out e \<longleftrightarrow> \<not> bit (bEndpointAddress e) 7"

text \<open>\<open>struct usb_device\<close>: the two arrays of sixteen endpoints, some of them missing.\<close>

record usb_device =
  devnum :: u32
  busnum :: u32
  bus_name :: string
  bDeviceClass :: u8
  authenticated :: bool
  ep_in :: "usb_host_endpoint option list"
  ep_out :: "usb_host_endpoint option list"

section \<open>Urbs\<close>

definition URB_SHORT_NOT_OK :: u32 where "URB_SHORT_NOT_OK = 1"
definition URB_ISO_ASAP :: u32 where "URB_ISO_ASAP = 2"
definition URB_NO_TRANSFER_DMA_MAP :: u32 where "URB_NO_TRANSFER_DMA_MAP = 4"
definition URB_NO_FSBR :: u32 where "URB_NO_FSBR = 0x20"
definition URB_ZERO_PACKET :: u32 where "URB_ZERO_PACKET = 0x40"
definition URB_NO_INTERRUPT :: u32 where "URB_NO_INTERRUPT = 0x80"
definition URB_FREE_BUFFER :: u32 where "URB_FREE_BUFFER = 0x100"
definition URB_DIR_MASK :: u32 where "URB_DIR_MASK = 0x200"

lemmas urb_flag_defs = URB_SHORT_NOT_OK_def URB_ISO_ASAP_def URB_NO_TRANSFER_DMA_MAP_def
  URB_NO_FSBR_def URB_ZERO_PACKET_def URB_NO_INTERRUPT_def URB_FREE_BUFFER_def URB_DIR_MASK_def

record usb_iso_packet_descriptor =
  ui_offset :: u32
  ui_length :: u32
  ui_actual_length :: u32
  ui_status :: s32

text \<open>\<open>transfer_buffer\<close> holds the bytes of the buffer object, so its list length is the size of
  the allocation; \<open>iso_frame_desc\<close> holds the descriptors the urb was allocated with.
  \<open>u_fault\<close> is no field of the C structure: it becomes true when the code reads or writes
  outside one of these two objects, which C leaves undefined.\<close>

record urb =
  u_pipe :: pipe
  u_transfer_flags :: u32
  transfer_buffer :: "byte list option"
  transfer_buffer_length :: u32
  actual_length :: u32
  start_frame :: s32
  number_of_packets :: s32
  u_interval :: s32
  error_count :: s32
  u_status :: s32
  setup_packet :: "byte list option"
  iso_frame_desc :: "usb_iso_packet_descriptor list"
  u_fault :: bool

definition zero_uiso :: usb_iso_packet_descriptor where
  "zero_uiso = \<lparr>ui_offset = 0, ui_length = 0, ui_actual_length = 0, ui_status = 0\<rparr>"

text \<open>\<open>usb_alloc_urb\<close> clears the structure and reserves \<open>np\<close> descriptors.\<close>

definition new_urb :: "nat \<Rightarrow> urb" where
  "new_urb np =
     \<lparr>u_pipe = 0, u_transfer_flags = 0, transfer_buffer = None, transfer_buffer_length = 0,
      actual_length = 0, start_frame = 0, number_of_packets = 0, u_interval = 0, error_count = 0,
      u_status = 0, setup_packet = None, iso_frame_desc = replicate np zero_uiso,
      u_fault = False\<rparr>"

text \<open>Reading \<open>n\<close> bytes at \<open>off\<close> of a buffer, and writing there; both say whether the access is
  inside the object.\<close>

definition buf_ok :: "nat \<Rightarrow> nat \<Rightarrow> byte list option \<Rightarrow> bool" where
  "buf_ok off n b \<longleftrightarrow> (case b of None \<Rightarrow> n = 0 | Some bs \<Rightarrow> off + n \<le> length bs)"

definition buf_read :: "nat \<Rightarrow> nat \<Rightarrow> byte list option \<Rightarrow> byte list" where
  "buf_read off n b = (case b of None \<Rightarrow> [] | Some bs \<Rightarrow> slice off n bs)"

definition urb_write :: "nat \<Rightarrow> byte list \<Rightarrow> urb \<Rightarrow> urb" where
  "urb_write off d u =
     (if buf_ok off (length d) (transfer_buffer u)
      then u\<lparr>transfer_buffer := map_option (overwrite off d) (transfer_buffer u)\<rparr>
      else u\<lparr>u_fault := True\<rparr>)"

section \<open>The device both sides share\<close>

datatype usbip_side = USBIP_VHCI | USBIP_STUB

datatype usbip_status =
    SDEV_ST_AVAILABLE | SDEV_ST_USED | SDEV_ST_ERROR
  | VDEV_ST_NULL | VDEV_ST_NOTASSIGNED | VDEV_ST_USED | VDEV_ST_ERROR

primrec status_num :: "usbip_status \<Rightarrow> nat" where
  "status_num SDEV_ST_AVAILABLE = 1"
| "status_num SDEV_ST_USED = 2"
| "status_num SDEV_ST_ERROR = 3"
| "status_num VDEV_ST_NULL = 4"
| "status_num VDEV_ST_NOTASSIGNED = 5"
| "status_num VDEV_ST_USED = 6"
| "status_num VDEV_ST_ERROR = 7"

type_synonym sock = nat

text \<open>A task pointer as \<open>kthread_run\<close> returns it: \<open>Inl\<close> an encoded error, \<open>Inr\<close> a thread.\<close>

type_synonym thread = "s32 + nat"

text \<open>An attached filter: the driver it belongs to and the private value its probe returned.\<close>

record usbip_filter =
  fl_drv :: nat
  fl_priv :: nat

record usbip_device =
  ud_side :: usbip_side
  ud_status :: usbip_status
  tcp_socket :: "sock option"
  tcp_rx :: "thread option"
  tcp_tx :: "thread option"
  ud_event :: u64
  ud_eh :: "thread option"
  ud_filters :: "usbip_filter list"

section \<open>The kernel\<close>

text \<open>A socket call returns the C result, and for a receive also the bytes stored in the caller's
  buffer. An allocation returns whether it succeeded; the code never looks at addresses.\<close>

record 'w kapi =
  kernel_recvmsg :: "sock \<Rightarrow> int \<Rightarrow> 'w \<Rightarrow> int \<times> byte list \<times> 'w"
  kernel_sendmsg :: "sock \<Rightarrow> byte list \<Rightarrow> 'w \<Rightarrow> int \<times> 'w"
  kernel_sock_shutdown :: "sock \<Rightarrow> 'w \<Rightarrow> 'w"
  fput_socket :: "sock \<Rightarrow> 'w \<Rightarrow> 'w"
  fget_file :: "u32 \<Rightarrow> 'w \<Rightarrow> nat option \<times> 'w"
  file_is_sock :: "nat \<Rightarrow> bool"
  fput_file :: "nat \<Rightarrow> 'w \<Rightarrow> 'w"
  file_socket :: "nat \<Rightarrow> sock"
  kzalloc :: "u64 \<Rightarrow> 'w \<Rightarrow> bool \<times> 'w"
  usb_alloc_urb :: "s32 \<Rightarrow> 'w \<Rightarrow> bool \<times> 'w"
  kthread_run :: "'w \<Rightarrow> thread \<times> 'w"
  kthread_stop :: "thread \<Rightarrow> 'w \<Rightarrow> 'w"
  usb_submit_urb :: "addr \<Rightarrow> urb \<Rightarrow> 'w \<Rightarrow> s32 \<times> 'w"
  usb_unlink_urb :: "addr \<Rightarrow> 'w \<Rightarrow> s32 \<times> 'w"
  usb_kill_urb :: "addr \<Rightarrow> 'w \<Rightarrow> 'w"
  usb_clear_halt :: "pipe \<Rightarrow> 'w \<Rightarrow> s32 \<times> 'w"
  usb_set_interface :: "u16 \<Rightarrow> u16 \<Rightarrow> 'w \<Rightarrow> s32 \<times> 'w"
  usb_lock_device_for_reset :: "'w \<Rightarrow> s32 \<times> 'w"
  usb_reset_device :: "'w \<Rightarrow> s32 \<times> 'w"
  usb_unlock_device :: "'w \<Rightarrow> 'w"
  device_create_file :: "nat \<Rightarrow> 'w \<Rightarrow> s32 \<times> 'w"
  device_remove_file :: "nat \<Rightarrow> 'w \<Rightarrow> 'w"
  drv_has_probe :: "nat \<Rightarrow> bool"
  drv_probe :: "nat \<Rightarrow> 'w \<Rightarrow> nat option \<times> 'w"
  drv_has_remove :: "nat \<Rightarrow> bool"
  drv_remove :: "nat \<Rightarrow> usbip_filter \<Rightarrow> 'w \<Rightarrow> 'w"
  drv_has_on_rx :: "nat \<Rightarrow> bool"
  drv_on_rx :: "usbip_filter \<Rightarrow> usbip_header \<Rightarrow> urb \<Rightarrow> 'w \<Rightarrow> s32 \<times> urb \<times> 'w"
  drv_has_on_tx :: "nat \<Rightarrow> bool"
  drv_on_tx :: "usbip_filter \<Rightarrow> urb \<Rightarrow> 'w \<Rightarrow> s32 \<times> urb \<times> 'w"

section \<open>Lemmas\<close>

lemma transfer_buffer_length_write [simp]:
  "map_option length (transfer_buffer (urb_write off d u)) = map_option length (transfer_buffer u)"
  by (cases "transfer_buffer u") (auto simp: urb_write_def buf_ok_def)

lemma urb_write_None [simp]: "transfer_buffer u = None \<Longrightarrow> transfer_buffer (urb_write off d u) = None"
  by (simp add: urb_write_def)

lemma urb_write_fields [simp]:
  "u_pipe (urb_write off d u) = u_pipe u"
  "u_transfer_flags (urb_write off d u) = u_transfer_flags u"
  "transfer_buffer_length (urb_write off d u) = transfer_buffer_length u"
  "actual_length (urb_write off d u) = actual_length u"
  "number_of_packets (urb_write off d u) = number_of_packets u"
  "iso_frame_desc (urb_write off d u) = iso_frame_desc u"
  "setup_packet (urb_write off d u) = setup_packet u"
  "u_status (urb_write off d u) = u_status u"
  by (simp_all add: urb_write_def)

lemma small_word_bit:
  fixes w :: "'a::len word"
  assumes "bit w i" and "w < 2 ^ n"
  shows "i < n"
  using assms less_mask_eq [OF assms(2)] by (metis bit_and_iff bit_mask_iff)

lemma and_masks:
  "(x :: u32) AND 0x7f = take_bit 7 x" "(x :: u32) AND 0xf = take_bit 4 x" "(x :: u32) AND 3 = take_bit 2 x"
  by (simp_all add: take_bit_eq_mask mask_eq_exp_minus_1)

lemma bit_0x80: "bit (0x80::u32) i \<longleftrightarrow> i = 7"
proof -
  have "(0x80::u32) = push_bit 7 1" by simp
  then show ?thesis by (auto simp only: bit_push_bit_iff bit_1_iff possible_bit_word) simp
qed

lemma pipe_decode_snd [simp]:
  assumes ty: "ty < 4" and dn: "dn < 128" and e: "e < 16"
  shows "usb_pipetype (usb_sndpipe ty dn e) = ty" and "usb_pipedevice (usb_sndpipe ty dn e) = dn"
    and "usb_pipeendpoint (usb_sndpipe ty dn e) = e" and "\<not> usb_pipein (usb_sndpipe ty dn e)"
proof -
  have t: "\<And>j. bit ty j \<Longrightarrow> j < 2" and d: "\<And>j. bit dn j \<Longrightarrow> j < 7" and e: "\<And>j. bit e j \<Longrightarrow> j < 4"
    using small_word_bit [of ty _ 2] small_word_bit [of dn _ 7] small_word_bit [of e _ 4] assms by simp_all
  show "usb_pipetype (usb_sndpipe ty dn e) = ty" 
    by (rule bit_word_eqI) (auto simp: usb_pipetype_def and_masks usb_sndpipe_def bit_simps dest: t d e)
  show "usb_pipedevice (usb_sndpipe ty dn e) = dn" 
    by (rule bit_word_eqI) (auto simp: usb_pipedevice_def and_masks usb_sndpipe_def bit_simps dest: t d e)
  show "usb_pipeendpoint (usb_sndpipe ty dn e) = e" 
    by (rule bit_word_eqI) (auto simp: usb_pipeendpoint_def and_masks usb_sndpipe_def bit_simps dest: t d e)
  show "\<not> usb_pipein (usb_sndpipe ty dn e)"
    by (auto simp: usb_pipein_def usb_sndpipe_def bit_simps dest: t d e)
qed

lemma rcvpipe_snd [simp]:
   "usb_pipetype (usb_rcvpipe ty dn e) = usb_pipetype (usb_sndpipe ty dn e)"
   "usb_pipedevice (usb_rcvpipe ty dn e) = usb_pipedevice (usb_sndpipe ty dn e)"
   "usb_pipeendpoint (usb_rcvpipe ty dn e) = usb_pipeendpoint (usb_sndpipe ty dn e)"
   "usb_pipein (usb_rcvpipe ty dn e)"
   by (auto simp: usb_pipetype_def usb_pipedevice_def usb_pipeendpoint_def usb_pipein_def and_masks usb_sndpipe_def usb_rcvpipe_def bit_simps bit_0x80
      intro!: bit_word_eqI)

end
