(* ===== verification/Event.thy ===== *)
theory Event
  imports Kernel
begin

text \<open>
  The event handler of \<^verbatim>\<open>usbip_event.c\<close>: pending events are bits of \<open>ud->event\<close>, and one
  thread per device runs the three callbacks of \<open>eh_ops\<close> for them. The loop is a partial
  function, since nothing in it forces \<open>ud->event\<close> to become zero; the contract that the
  callbacks of the stub and of the virtual host controller keep (locale \<open>eh_contract\<close>) makes
  it return after one round.
\<close>

section \<open>Events\<close>

definition USBIP_EH_SHUTDOWN :: u64 where "USBIP_EH_SHUTDOWN = 1"
definition USBIP_EH_BYE :: u64 where "USBIP_EH_BYE = 2"
definition USBIP_EH_RESET :: u64 where "USBIP_EH_RESET = 4"
definition USBIP_EH_UNUSABLE :: u64 where "USBIP_EH_UNUSABLE = 8"

definition SDEV_EVENT_REMOVED :: u64 where
  "SDEV_EVENT_REMOVED = USBIP_EH_SHUTDOWN OR USBIP_EH_RESET OR USBIP_EH_BYE"
definition SDEV_EVENT_DOWN :: u64 where "SDEV_EVENT_DOWN = USBIP_EH_SHUTDOWN OR USBIP_EH_RESET"
definition SDEV_EVENT_ERROR_TCP :: u64 where
  "SDEV_EVENT_ERROR_TCP = USBIP_EH_SHUTDOWN OR USBIP_EH_RESET"
definition SDEV_EVENT_ERROR_SUBMIT :: u64 where
  "SDEV_EVENT_ERROR_SUBMIT = USBIP_EH_SHUTDOWN OR USBIP_EH_RESET"
definition SDEV_EVENT_ERROR_MALLOC :: u64 where
  "SDEV_EVENT_ERROR_MALLOC = USBIP_EH_SHUTDOWN OR USBIP_EH_UNUSABLE"
definition VDEV_EVENT_REMOVED :: u64 where "VDEV_EVENT_REMOVED = USBIP_EH_SHUTDOWN OR USBIP_EH_BYE"
definition VDEV_EVENT_DOWN :: u64 where "VDEV_EVENT_DOWN = USBIP_EH_SHUTDOWN OR USBIP_EH_RESET"
definition VDEV_EVENT_ERROR_TCP :: u64 where
  "VDEV_EVENT_ERROR_TCP = USBIP_EH_SHUTDOWN OR USBIP_EH_RESET"
definition VDEV_EVENT_ERROR_MALLOC :: u64 where
  "VDEV_EVENT_ERROR_MALLOC = USBIP_EH_SHUTDOWN OR USBIP_EH_UNUSABLE"

lemmas eh_bit_defs = USBIP_EH_SHUTDOWN_def USBIP_EH_BYE_def USBIP_EH_RESET_def USBIP_EH_UNUSABLE_def

lemmas event_defs = eh_bit_defs SDEV_EVENT_REMOVED_def SDEV_EVENT_DOWN_def
  SDEV_EVENT_ERROR_TCP_def SDEV_EVENT_ERROR_SUBMIT_def SDEV_EVENT_ERROR_MALLOC_def
  VDEV_EVENT_REMOVED_def VDEV_EVENT_DOWN_def VDEV_EVENT_ERROR_TCP_def VDEV_EVENT_ERROR_MALLOC_def

definition usbip_event_add :: "u64 \<Rightarrow> 'a usbip_device_scheme \<Rightarrow> 'a usbip_device_scheme" where
  "usbip_event_add ev ud = ud\<lparr>ud_event := ud_event ud OR ev\<rparr>"

definition usbip_event_happened :: "'a usbip_device_scheme \<Rightarrow> bool" where
  "usbip_event_happened ud \<longleftrightarrow> ud_event ud \<noteq> 0"

definition event_clear :: "u64 \<Rightarrow> 'a usbip_device_scheme \<Rightarrow> 'a usbip_device_scheme" where
  "event_clear ev ud = ud\<lparr>ud_event := ud_event ud AND NOT ev\<rparr>"

section \<open>The handler\<close>

record ('d, 'w) eh_ops =
  eh_shutdown :: "'d \<Rightarrow> 'w \<Rightarrow> 'd \<times> 'w"
  eh_reset :: "'d \<Rightarrow> 'w \<Rightarrow> 'd \<times> 'w"
  eh_unusable :: "'d \<Rightarrow> 'w \<Rightarrow> 'd \<times> 'w"

text \<open>One \<open>if (ud->event & ev) { op(ud); ud->event &= ~ev; }\<close> of the loop body.\<close>

definition event_phase ::
  "u64 \<Rightarrow> ('a usbip_device_scheme \<Rightarrow> 'w \<Rightarrow> 'a usbip_device_scheme \<times> 'w) \<Rightarrow>
   'a usbip_device_scheme \<times> 'w \<Rightarrow> 'a usbip_device_scheme \<times> 'w" where
  "event_phase ev op dw =
     (case dw of (d, w) \<Rightarrow>
        if ud_event d AND ev \<noteq> 0
        then (case op d w of (d', w') \<Rightarrow> (event_clear ev d', w'))
        else (d, w))"

definition event_round ::
  "('a usbip_device_scheme, 'w) eh_ops \<Rightarrow> 'a usbip_device_scheme \<Rightarrow> 'w \<Rightarrow>
   'a usbip_device_scheme \<times> 'w" where
  "event_round ops d w =
     event_phase USBIP_EH_UNUSABLE (eh_unusable ops)
       (event_phase USBIP_EH_RESET (eh_reset ops)
         (event_phase USBIP_EH_SHUTDOWN (eh_shutdown ops) (d, w)))"

partial_function (option) event_handler ::
  "('a usbip_device_scheme, 'w) eh_ops \<Rightarrow> 'a usbip_device_scheme \<Rightarrow> 'w \<Rightarrow>
   (int \<times> 'a usbip_device_scheme \<times> 'w) option" where
  "event_handler ops d w =
     (if \<not> usbip_event_happened d then Some (0, d, w)
      else (case event_round ops d w of (d', w') \<Rightarrow>
              if ud_event d' AND USBIP_EH_BYE \<noteq> 0 then Some (- 1, d', w')
              else event_handler ops d' w'))"

text \<open>The handler thread: each element of the list is the set of events other threads have added
  when it wakes up, and the thread is asked to stop when the list is used up.\<close>

fun event_handler_loop ::
  "('a usbip_device_scheme, 'w) eh_ops \<Rightarrow> u64 list \<Rightarrow> 'a usbip_device_scheme \<Rightarrow> 'w \<Rightarrow>
   ('a usbip_device_scheme \<times> 'w) option" where
  "event_handler_loop ops [] d w = Some (d, w)"
| "event_handler_loop ops (ev # evs) d w =
     (case event_handler ops (usbip_event_add ev d) w of
        None \<Rightarrow> None
      | Some (r, d', w') \<Rightarrow> if r < 0 then Some (d', w') else event_handler_loop ops evs d' w')"

definition usbip_start_eh ::
  "'w kapi \<Rightarrow> 'a usbip_device_scheme \<Rightarrow> 'w \<Rightarrow> s32 \<times> 'a usbip_device_scheme \<times> 'w" where
  "usbip_start_eh k ud w =
     (case kthread_run k w of (t, w') \<Rightarrow>
        (case t of Inl e \<Rightarrow> e | Inr _ \<Rightarrow> 0, ud\<lparr>ud_event := 0, ud_eh := Some t\<rparr>, w'))"

definition usbip_stop_eh ::
  "'w kapi \<Rightarrow> thread \<Rightarrow> 'a usbip_device_scheme \<Rightarrow> 'w \<Rightarrow> 'w" where
  "usbip_stop_eh k current ud w =
     (if ud_eh ud = Some current then w
      else (case ud_eh ud of None \<Rightarrow> w | Some t \<Rightarrow> kthread_stop k t w))"

section \<open>The contract of the callbacks\<close>

lemma and_not_zero: "(x :: 'a::len word) AND NOT m = 0 \<Longrightarrow> x AND m = x"
  by (metis bit.conj_disj_distrib bit.conj_one_right bit.disj_cancel_right or.right_neutral)

lemma and_not_zero_absorb: "(x :: 'a::len word) AND m = 0 \<Longrightarrow> x AND NOT m = x"
  using and_not_zero [of x "NOT m"] by simp

lemma event_clear_event [simp]: "ud_event (event_clear ev d) = ud_event d AND NOT ev"
  by (simp add: event_clear_def)

lemma event_add_event [simp]: "ud_event (usbip_event_add ev d) = ud_event d OR ev"
  by (simp add: usbip_event_add_def)

lemma event_add_other [simp]:
  "ud_side (usbip_event_add ev d) = ud_side d" "ud_status (usbip_event_add ev d) = ud_status d"
  "tcp_socket (usbip_event_add ev d) = tcp_socket d" "tcp_rx (usbip_event_add ev d) = tcp_rx d"
  "tcp_tx (usbip_event_add ev d) = tcp_tx d" "ud_eh (usbip_event_add ev d) = ud_eh d"
  "ud_filters (usbip_event_add ev d) = ud_filters d" "usbip_device.more (usbip_event_add ev d) = usbip_device.more d"
  by (simp_all add: usbip_event_add_def)

text \<open>Two devices that differ in their pending events at most.\<close>

definition ev_only :: "'a usbip_device_scheme \<Rightarrow> 'a usbip_device_scheme \<Rightarrow> bool" where
  "ev_only d d' \<longleftrightarrow> (\<exists>e. d' = d\<lparr>ud_event := e\<rparr>)"

lemma ev_only_intros [simp, intro]:
  "ev_only d d" "ev_only d (usbip_event_add e d)"
proof -
  show "ev_only d d" unfolding ev_only_def by (rule exI [of _ "ud_event d"]) simp
  show "ev_only d (usbip_event_add e d)" unfolding ev_only_def usbip_event_add_def by blast
qed

lemma ev_only_trans: "ev_only a b \<Longrightarrow> ev_only b c \<Longrightarrow> ev_only a c"
  by (auto simp: ev_only_def)

text \<open>Neither callback touches \<open>ud->event\<close>: only \<open>usbip_event_add\<close> and the handler do.\<close>

locale eh_contract =
  fixes ops :: "('a usbip_device_scheme, 'w) eh_ops"
  assumes shutdown_event: "ud_event (fst (eh_shutdown ops d w)) = ud_event d"
    and reset_event: "ud_event (fst (eh_reset ops d w)) = ud_event d"
    and unusable_event: "ud_event (fst (eh_unusable ops d w)) = ud_event d"
begin

lemma phase_event_clear:
  assumes "\<And>d w. ud_event (fst (op d w)) = ud_event d"
  shows "ud_event (fst (event_phase ev op dw)) = ud_event (fst dw) AND NOT ev"
proof (cases "op (fst dw) (snd dw)")
  case (Pair d' w')
  with assms [of "fst dw" "snd dw"] have "ud_event d' = ud_event (fst dw)" by simp
  with Pair show ?thesis
    by (cases dw) (simp add: event_phase_def and_not_zero_absorb)
qed

lemma round_event:
  "ud_event (fst (event_round ops d w)) =
   ud_event d AND NOT USBIP_EH_SHUTDOWN AND NOT USBIP_EH_RESET AND NOT USBIP_EH_UNUSABLE"
  by (simp add: event_round_def phase_event_clear shutdown_event reset_event unusable_event
      and.assoc)

text \<open>With only the four events of the header pending, one round is enough: the handler returns,
  minus one when it was told goodbye, and leaves only that bit behind.\<close>

lemma handler_returns:
  assumes ev: "ud_event d AND NOT 15 = 0"
  shows "event_handler ops d w =
    (if ud_event d = 0 then Some (0, d, w)
     else if ud_event d AND USBIP_EH_BYE \<noteq> 0
     then Some (- 1, event_round ops d w) else Some (0, event_round ops d w))"
proof -
  obtain d' w' where r: "event_round ops d w = (d', w')" by fastforce
  have "ud_event d' = (ud_event d AND 15) AND NOT USBIP_EH_SHUTDOWN AND NOT USBIP_EH_RESET
      AND NOT USBIP_EH_UNUSABLE"
    using round_event [of d w] r and_not_zero [OF ev] by simp
  then have e: "ud_event d' = ud_event d AND USBIP_EH_BYE"
    by (simp add: eh_bit_defs and.assoc)
  show ?thesis
    by (subst event_handler.simps, subst event_handler.simps)
      (auto simp: usbip_event_happened_def r e and.assoc)
qed

end

end
