(* ===== verification/Sim.thy ===== *)
theory Sim
  imports Kernel
begin

text \<open>
  A concrete environment in which the model can be run: the peer's bytes arrive in the chunks of
  \<open>sim_in\<close>, what is sent is appended to \<open>sim_out\<close>, and every other call of the kernel succeeds.
  Witnesses evaluate the definitions in it; no general lemma depends on it.
\<close>

record sim =
  sim_in :: "byte list list"
  sim_out :: "byte list"
  sim_killed :: "addr list"

definition sim_recvmsg :: "sock \<Rightarrow> int \<Rightarrow> sim \<Rightarrow> int \<times> byte list \<times> sim" where
  "sim_recvmsg s n w =
     (case dropWhile (\<lambda>c. c = []) (sim_in w) of
        [] \<Rightarrow> (0, [], w)
      | c # cs \<Rightarrow>
          (int (length (take (nat n) c)), take (nat n) c,
           w\<lparr>sim_in := (if drop (nat n) c = [] then cs else drop (nat n) c # cs)\<rparr>))"

definition sim_k :: "sim kapi" where
  "sim_k =
     \<lparr>kernel_recvmsg = sim_recvmsg,
      kernel_sendmsg = (\<lambda>s d w. (int (length d), w\<lparr>sim_out := sim_out w @ d\<rparr>)),
      kernel_sock_shutdown = (\<lambda>s w. w), fput_socket = (\<lambda>s w. w),
      fget_file = (\<lambda>fd w. (Some (unat fd), w)), file_is_sock = (\<lambda>f. f \<noteq> 0),
      fput_file = (\<lambda>f w. w), file_socket = (\<lambda>f. f),
      kzalloc = (\<lambda>n w. (True, w)), usb_alloc_urb = (\<lambda>n w. (True, w)),
      kthread_run = (\<lambda>w. (Inr 1, w)), kthread_stop = (\<lambda>t w. w),
      usb_submit_urb = (\<lambda>a u w. (0, w)), usb_unlink_urb = (\<lambda>a w. (- EINPROGRESS, w)),
      usb_kill_urb = (\<lambda>a w. w\<lparr>sim_killed := sim_killed w @ [a]\<rparr>),
      usb_clear_halt = (\<lambda>p w. (0, w)), usb_set_interface = (\<lambda>i a w. (0, w)),
      usb_lock_device_for_reset = (\<lambda>w. (0, w)), usb_reset_device = (\<lambda>w. (0, w)),
      usb_unlock_device = (\<lambda>w. w),
      device_create_file = (\<lambda>f w. (0, w)), device_remove_file = (\<lambda>f w. w),
      drv_has_probe = (\<lambda>d. True), drv_probe = (\<lambda>d w. (Some (d + 100), w)),
      drv_has_remove = (\<lambda>d. False), drv_remove = (\<lambda>d f w. w),
      drv_has_on_rx = (\<lambda>d. False), drv_on_rx = (\<lambda>f p u w. (0, u, w)),
      drv_has_on_tx = (\<lambda>d. False), drv_on_tx = (\<lambda>f u w. (0, u, w))\<rparr>"

definition sim0 :: sim where
  "sim0 = \<lparr>sim_in = [], sim_out = [], sim_killed = []\<rparr>"

lemma sim_k_fields [simp]:
  "kernel_recvmsg sim_k = sim_recvmsg"
  "kernel_sendmsg sim_k = (\<lambda>s d w. (int (length d), w\<lparr>sim_out := sim_out w @ d\<rparr>))"
  "kernel_sock_shutdown sim_k = (\<lambda>s w. w)"
  "fput_socket sim_k = (\<lambda>s w. w)"
  "fget_file sim_k = (\<lambda>fd w. (Some (unat fd), w))"
  "file_is_sock sim_k = (\<lambda>f. f \<noteq> 0)"
  "fput_file sim_k = (\<lambda>f w. w)"
  "file_socket sim_k = (\<lambda>f. f)"
  "kzalloc sim_k = (\<lambda>n w. (True, w))"
  "usb_alloc_urb sim_k = (\<lambda>n w. (True, w))"
  "kthread_run sim_k = (\<lambda>w. (Inr 1, w))"
  "kthread_stop sim_k = (\<lambda>t w. w)"
  "usb_submit_urb sim_k = (\<lambda>a u w. (0, w))"
  "usb_unlink_urb sim_k = (\<lambda>a w. (- EINPROGRESS, w))"
  "usb_kill_urb sim_k = (\<lambda>a w. w\<lparr>sim_killed := sim_killed w @ [a]\<rparr>)"
  "usb_clear_halt sim_k = (\<lambda>p w. (0, w))"
  "usb_set_interface sim_k = (\<lambda>i a w. (0, w))"
  "usb_lock_device_for_reset sim_k = (\<lambda>w. (0, w))"
  "usb_reset_device sim_k = (\<lambda>w. (0, w))"
  "usb_unlock_device sim_k = (\<lambda>w. w)"
  "device_create_file sim_k = (\<lambda>f w. (0, w))"
  "device_remove_file sim_k = (\<lambda>f w. w)"
  "drv_has_probe sim_k = (\<lambda>d. True)"
  "drv_probe sim_k = (\<lambda>d w. (Some (d + 100), w))"
  "drv_has_remove sim_k = (\<lambda>d. False)"
  "drv_remove sim_k = (\<lambda>d f w. w)"
  "drv_has_on_rx sim_k = (\<lambda>d. False)"
  "drv_on_rx sim_k = (\<lambda>f p u w. (0, u, w))"
  "drv_has_on_tx sim_k = (\<lambda>d. False)"
  "drv_on_tx sim_k = (\<lambda>f u w. (0, u, w))"
  by (simp_all add: sim_k_def)

end
