(* ===== verification/Common.thy ===== *)
theory Common
  imports Event Sim
begin

text \<open>
  The functions of \<^verbatim>\<open>usbip_common.c\<close> that both kernel modules use: receiving an exact number of
  bytes from the TCP socket, translating between urbs and packet headers, isochronous packet
  descriptors, the transfer buffer, and the calls into filter drivers. Lemmas: the received bytes
  are the next bytes of the stream; urbs and descriptors survive packing, both byte orders
  included; restoring the padding of isochronous data undoes the gathering done by the sender.
\<close>

section \<open>Receiving\<close>

text \<open>The \<open>do ... while (size > 0)\<close> loop of \<open>usbip_recv\<close>: result, bytes stored in the buffer.\<close>

function recv_loop ::
  "'w kapi \<Rightarrow> sock \<Rightarrow> int \<Rightarrow> int \<Rightarrow> byte list \<Rightarrow> 'w \<Rightarrow> int \<times> byte list \<times> 'w" where
  "recv_loop k s sz tot acc w =
     (case kernel_recvmsg k s sz w of (result, d, w') \<Rightarrow>
        if result \<le> 0 then (result, acc, w')
        else if sz - result > 0 then recv_loop k s (sz - result) (tot + result) (acc @ d) w'
        else (tot + result, acc @ d, w'))"
  by pat_completeness auto

termination
  by (relation "measure (\<lambda>(k, s, sz, tot, acc, w). nat sz)") auto

declare recv_loop.simps [simp del]

definition usbip_recv ::
  "'w kapi \<Rightarrow> sock option \<Rightarrow> bool \<Rightarrow> int \<Rightarrow> 'w \<Rightarrow> int \<times> byte list \<times> 'w" where
  "usbip_recv k sk buf sz w =
     (case sk of
        None \<Rightarrow> (- sint EINVAL, [], w)
      | Some s \<Rightarrow>
          if \<not> buf \<or> sz = 0 then (- sint EINVAL, [], w)
          else recv_loop k s sz 0 [] w)"

definition sockfd_to_socket :: "'w kapi \<Rightarrow> u32 \<Rightarrow> 'w \<Rightarrow> sock option \<times> 'w" where
  "sockfd_to_socket k sockfd w =
     (case fget_file k sockfd w of
        (None, w1) \<Rightarrow> (None, w1)
      | (Some f, w1) \<Rightarrow>
          if \<not> file_is_sock k f then (None, fput_file k f w1) else (Some (file_socket k f), w1))"

section \<open>Urbs and headers\<close>

definition tweak_transfer_flags :: "u32 \<Rightarrow> u32" where
  "tweak_transfer_flags flags = flags AND NOT URB_NO_TRANSFER_DMA_MAP"

definition usbip_pack_cmd_submit ::
  "endian \<Rightarrow> usbip_header \<Rightarrow> urb \<Rightarrow> bool \<Rightarrow> usbip_header \<times> urb" where
  "usbip_pack_cmd_submit h pdu u pack =
     (let spdu = get_cmd_submit h pdu in
      if pack then
        (put_cmd_submit h
           (spdu\<lparr>cs_transfer_flags := tweak_transfer_flags (u_transfer_flags u),
                 cs_transfer_buffer_length := transfer_buffer_length u,
                 cs_start_frame := start_frame u,
                 cs_number_of_packets := number_of_packets u,
                 cs_interval := u_interval u\<rparr>) pdu, u)
      else
        (pdu, u\<lparr>u_transfer_flags := cs_transfer_flags spdu,
                transfer_buffer_length := cs_transfer_buffer_length spdu,
                start_frame := cs_start_frame spdu,
                number_of_packets := cs_number_of_packets spdu,
                u_interval := cs_interval spdu\<rparr>))"

definition usbip_pack_ret_submit ::
  "endian \<Rightarrow> usbip_header \<Rightarrow> urb \<Rightarrow> bool \<Rightarrow> usbip_header \<times> urb" where
  "usbip_pack_ret_submit h pdu u pack =
     (let rpdu = get_ret_submit h pdu in
      if pack then
        (put_ret_submit h
           (rpdu\<lparr>rs_status := u_status u, rs_actual_length := actual_length u,
                 rs_start_frame := start_frame u, rs_number_of_packets := number_of_packets u,
                 rs_error_count := error_count u\<rparr>) pdu, u)
      else
        (pdu, u\<lparr>u_status := rs_status rpdu, actual_length := rs_actual_length rpdu,
                start_frame := rs_start_frame rpdu, number_of_packets := rs_number_of_packets rpdu,
                error_count := rs_error_count rpdu\<rparr>))"

definition usbip_pack_pdu ::
  "endian \<Rightarrow> usbip_header \<Rightarrow> urb \<Rightarrow> u32 \<Rightarrow> bool \<Rightarrow> usbip_header \<times> urb" where
  "usbip_pack_pdu h pdu u cmd pack =
     (if cmd = USBIP_CMD_SUBMIT then usbip_pack_cmd_submit h pdu u pack
      else if cmd = USBIP_RET_SUBMIT then usbip_pack_ret_submit h pdu u pack
      else (pdu, u))"

section \<open>Isochronous packets\<close>

definition usbip_pack_iso ::
  "usbip_iso_packet_descriptor \<Rightarrow> usb_iso_packet_descriptor \<Rightarrow> bool \<Rightarrow>
   usbip_iso_packet_descriptor \<times> usb_iso_packet_descriptor" where
  "usbip_pack_iso piso uiso pack =
     (if pack then
        (\<lparr>iso_offset = ui_offset uiso, iso_length = ui_length uiso,
          iso_actual_length = ui_actual_length uiso, iso_status = ui_status uiso\<rparr>, uiso)
      else
        (piso, \<lparr>ui_offset = iso_offset piso, ui_length = iso_length piso,
               ui_actual_length = iso_actual_length piso, ui_status = iso_status piso\<rparr>))"

definition zero_iso :: usbip_iso_packet_descriptor where
  "zero_iso = \<lparr>iso_offset = 0, iso_length = 0, iso_actual_length = 0, iso_status = 0\<rparr>"

text \<open>One element of the array built by \<open>usbip_alloc_iso_desc_pdu\<close>, as it lies in memory, and one
  element of the array read by \<open>usbip_recv_iso\<close>.\<close>

definition pack_iso_send :: "endian \<Rightarrow> usb_iso_packet_descriptor \<Rightarrow> byte list" where
  "pack_iso_send h d =
     mem_iso h (usbip_iso_packet_correct_endian h (fst (usbip_pack_iso zero_iso d True)) True)"

definition unpack_iso_recv :: "endian \<Rightarrow> byte list \<Rightarrow> usb_iso_packet_descriptor" where
  "unpack_iso_recv g bs =
     snd (usbip_pack_iso (usbip_iso_packet_correct_endian g (ld_iso g bs) False) zero_uiso False)"

definition iso_np :: "urb \<Rightarrow> nat" where
  "iso_np u = nat (sint (number_of_packets u))"

text \<open>The buffer (\<open>None\<close> when the allocation fails), its sz, and the urb, marked when the loop
  reads past the descriptors it was allocated with.\<close>

definition usbip_alloc_iso_desc_pdu ::
  "endian \<Rightarrow> 'w kapi \<Rightarrow> urb \<Rightarrow> 'w \<Rightarrow> byte list option \<times> u64 \<times> urb \<times> 'w" where
  "usbip_alloc_iso_desc_pdu h k u w =
     (let sz = scast (number_of_packets u) * 16 in
      case kzalloc k sz w of
        (False, w1) \<Rightarrow> (None, 0, u, w1)
      | (True, w1) \<Rightarrow>
          (Some (concat (map (pack_iso_send h) (take (iso_np u) (iso_frame_desc u)))), sz,
           (if iso_np u \<le> length (iso_frame_desc u) then u else u\<lparr>u_fault := True\<rparr>), w1))"

definition tcp_error_event :: "usbip_side \<Rightarrow> u64" where
  "tcp_error_event sd = (case sd of USBIP_STUB \<Rightarrow> SDEV_EVENT_ERROR_TCP | USBIP_VHCI \<Rightarrow> VDEV_EVENT_ERROR_TCP)"

text \<open>The loop of \<open>usbip_recv_iso\<close> over the received bytes: it fills the first \<open>np\<close> descriptors and
  sums their lengths; reading past the received buffer or writing past the descriptors of the urb
  is a fault.\<close>

definition fill_iso :: "endian \<Rightarrow> byte list \<Rightarrow> urb \<Rightarrow> u32 \<times> urb" where
  "fill_iso h d u =
     (let ds = map (unpack_iso_recv h) (frames sizeof_iso (iso_np u) d) in
      (sum_list (map ui_actual_length ds),
       if iso_np u \<le> length (iso_frame_desc u) \<and> iso_np u * sizeof_iso \<le> length d
       then u\<lparr>iso_frame_desc := overwrite 0 ds (iso_frame_desc u)\<rparr>
       else u\<lparr>u_fault := True\<rparr>))"

definition usbip_recv_iso ::
  "endian \<Rightarrow> 'w kapi \<Rightarrow> 'a usbip_device_scheme \<Rightarrow> urb \<Rightarrow> 'w \<Rightarrow>
   int \<times> 'a usbip_device_scheme \<times> urb \<times> 'w" where
  "usbip_recv_iso h k ud u w =
     (let np = number_of_packets u; sz = np * 16 in
      if \<not> usb_pipeisoc (u_pipe u) then (0, ud, u, w)
      else if np = 0 then (0, ud, u, w)
      else
        (case kzalloc k (scast sz) w of
           (False, w1) \<Rightarrow> (- sint ENOMEM, ud, u, w1)
         | (True, w1) \<Rightarrow>
             (case usbip_recv k (tcp_socket ud) True (sint sz) w1 of (ret, d, w2) \<Rightarrow>
                if ret \<noteq> sint sz
                then (- sint EPIPE, usbip_event_add (tcp_error_event (ud_side ud)) ud, u, w2)
                else
                  (case fill_iso h d u of (total_length, u') \<Rightarrow>
                     if total_length \<noteq> actual_length u'
                     then (- sint EPIPE, usbip_event_add (tcp_error_event (ud_side ud)) ud, u', w2)
                     else (ret, ud, u', w2)))))"

text \<open>\<open>memmove\<close> inside the transfer buffer; \<open>src\<close> is signed because \<open>actualoffset\<close> is an \<open>int\<close>.\<close>

definition urb_memmove :: "nat \<Rightarrow> int \<Rightarrow> nat \<Rightarrow> urb \<Rightarrow> urb" where
  "urb_memmove dst src n u =
     (if 0 \<le> src \<and> buf_ok (nat src) n (transfer_buffer u)
      then urb_write dst (buf_read (nat src) n (transfer_buffer u)) u
      else u\<lparr>u_fault := True\<rparr>)"

fun pad_loop :: "nat \<Rightarrow> s32 \<Rightarrow> urb \<Rightarrow> urb" where
  "pad_loop 0 actualoffset u = u"
| "pad_loop (Suc j) actualoffset u =
     (if Suc j < length (iso_frame_desc u) then
        (let d = iso_frame_desc u ! Suc j; off = actualoffset - ui_actual_length d in
         pad_loop j off
           (urb_memmove (unat (ui_offset d)) (sint off) (unat (ui_actual_length d)) u))
      else u\<lparr>u_fault := True\<rparr>)"

definition usbip_pad_iso :: "urb \<Rightarrow> urb" where
  "usbip_pad_iso u =
     (let np = number_of_packets u in
      if \<not> usb_pipeisoc (u_pipe u) then u
      else if np = 0 \<or> actual_length u = 0 then u
      else if actual_length u = transfer_buffer_length u then u
      else pad_loop (nat (sint np - 1)) (actual_length u) u)"

section \<open>The transfer buffer\<close>

definition usbip_recv_xbuff ::
  "'w kapi \<Rightarrow> 'a usbip_device_scheme \<Rightarrow> urb \<Rightarrow> 'w \<Rightarrow>
   int \<times> 'a usbip_device_scheme \<times> urb \<times> 'w" where
  "usbip_recv_xbuff k ud u w =
     (if (case ud_side ud of USBIP_STUB \<Rightarrow> usb_pipein (u_pipe u) | USBIP_VHCI \<Rightarrow> usb_pipeout (u_pipe u))
      then (0, ud, u, w)
      else
        (let sz = sint (case ud_side ud of USBIP_STUB \<Rightarrow> transfer_buffer_length u
                                           | USBIP_VHCI \<Rightarrow> actual_length u)
         in if \<not> sz > 0 then (0, ud, u, w)
            else
              (case usbip_recv k (tcp_socket ud) (transfer_buffer u \<noteq> None) sz w of
                 (ret, d, w1) \<Rightarrow>
                   (let u1 = urb_write 0 d u in
                    if ret \<noteq> sz then
                      (case ud_side ud of
                         USBIP_STUB \<Rightarrow> (ret, usbip_event_add SDEV_EVENT_ERROR_TCP ud, u1, w1)
                       | USBIP_VHCI \<Rightarrow>
                           (- sint EPIPE, usbip_event_add VDEV_EVENT_ERROR_TCP ud, u1, w1))
                    else (ret, ud, u1, w1)))))"

section \<open>Filters in the data path\<close>

fun filter_rx_list ::
  "'w kapi \<Rightarrow> usbip_filter list \<Rightarrow> usbip_header \<Rightarrow> urb \<Rightarrow> 'w \<Rightarrow> s32 \<times> urb \<times> 'w" where
  "filter_rx_list k [] pdu u w = (0, u, w)"
| "filter_rx_list k (f # fs) pdu u w =
     (if drv_has_on_rx k (fl_drv f) then
        (case drv_on_rx k f pdu u w of (ret, u', w') \<Rightarrow>
           if ret \<noteq> 0 then (ret, u', w') else filter_rx_list k fs pdu u' w')
      else filter_rx_list k fs pdu u w)"

definition usbip_filter_on_rx ::
  "'w kapi \<Rightarrow> 'a usbip_device_scheme \<Rightarrow> usbip_header \<Rightarrow> urb \<Rightarrow> 'w \<Rightarrow> s32 \<times> urb \<times> 'w" where
  "usbip_filter_on_rx k ud pdu u w = filter_rx_list k (ud_filters ud) pdu u w"

fun filter_tx_list ::
  "'w kapi \<Rightarrow> usbip_filter list \<Rightarrow> urb \<Rightarrow> 'w \<Rightarrow> s32 \<times> urb \<times> 'w" where
  "filter_tx_list k [] u w = (0, u, w)"
| "filter_tx_list k (f # fs) u w =
     (if drv_has_on_tx k (fl_drv f) then
        (case drv_on_tx k f u w of (ret, u', w') \<Rightarrow>
           if ret \<noteq> 0 then (ret, u', w') else filter_tx_list k fs u' w')
      else filter_tx_list k fs u w)"

definition usbip_filter_on_tx ::
  "'w kapi \<Rightarrow> 'a usbip_device_scheme \<Rightarrow> urb \<Rightarrow> 'w \<Rightarrow> s32 \<times> urb \<times> 'w" where
  "usbip_filter_on_tx k ud u w = filter_tx_list k (ud_filters ud) u w"

section \<open>The receive loop\<close>

text \<open>What \<open>kernel_recvmsg\<close> does on a stream socket: a positive result counts the bytes stored, which
  are the next ones of the stream and at most as many as asked for; any other result consumes
  nothing. \<open>pend\<close> are the bytes the peer has sent and that are not read yet.\<close>

definition recv_stream :: "'w kapi \<Rightarrow> sock \<Rightarrow> ('w \<Rightarrow> byte list) \<Rightarrow> bool" where
  "recv_stream k s pend \<longleftrightarrow>
     (\<forall>n w. case kernel_recvmsg k s n w of (r, d, w') \<Rightarrow>
        (0 < r \<longrightarrow> int (length d) = r \<and> r \<le> n \<and> pend w = d @ pend w') \<and>
        (r \<le> 0 \<longrightarrow> pend w' = pend w))"

text \<open>A read asked for at least one byte returns something while bytes are pending.\<close>

definition recv_progress :: "'w kapi \<Rightarrow> sock \<Rightarrow> ('w \<Rightarrow> byte list) \<Rightarrow> bool" where
  "recv_progress k s pend \<longleftrightarrow>
     (\<forall>n w. 0 < n \<longrightarrow> pend w \<noteq> [] \<longrightarrow> 0 < fst (kernel_recvmsg k s n w))"

lemma recv_streamD:
  assumes "recv_stream k s pend" and "kernel_recvmsg k s n w = (r, d, w')"
  shows "0 < r \<Longrightarrow> int (length d) = r" and "0 < r \<Longrightarrow> r \<le> n" and "0 < r \<Longrightarrow> pend w = d @ pend w'"
    and "r \<le> 0 \<Longrightarrow> pend w' = pend w"
  using assms unfolding recv_stream_def by (metis (mono_tags, lifting) case_prod_conv)+

lemma recv_loop_stream:
  assumes "recv_stream k s pend" and "0 < sz" and "recv_loop k s sz tot acc w = (r, d, w')"
  shows "\<exists>e. d = acc @ e \<and> pend w = e @ pend w' \<and>
    (r = tot + sz \<and> int (length e) = sz \<or> r \<le> 0 \<and> int (length e) < sz)"
  using assms
proof (induction k s sz tot acc w rule: recv_loop.induct)
  case (1 k s sz tot acc w)
  obtain r1 d1 w1 where m: "kernel_recvmsg k s sz w = (r1, d1, w1)" by (metis prod_cases3)
  note law = recv_streamD [OF "1.prems"(1) m]
  consider (err) "r1 \<le> 0" | (full) "0 < r1" "r1 = sz" | (more) "0 < r1" "0 < sz - r1"
    using law(2) by linarith
  then show ?case
  proof cases
    case err
    with "1.prems"(2,3) m law(4) show ?thesis by (auto simp: recv_loop.simps [of k s sz])
  next
    case full
    with "1.prems"(3) m law(1,3) show ?thesis by (auto simp: recv_loop.simps [of k s sz])
  next
    case more
    with "1.prems"(3) m have rec: "recv_loop k s (sz - r1) (tot + r1) (acc @ d1) w1 = (r, d, w')"
      by (simp add: recv_loop.simps [of k s sz])
    from more "1.IH" [OF m [symmetric] refl _ _ "1.prems"(1) _ rec] obtain e where
      e: "d = (acc @ d1) @ e" "pend w1 = e @ pend w'"
      "r = tot + r1 + (sz - r1) \<and> int (length e) = sz - r1 \<or> r \<le> 0 \<and> int (length e) < sz - r1"
      by auto
    with more law(1,3) show ?thesis by (intro exI [of _ "d1 @ e"]) auto
  qed
qed

lemma recv_loop_complete:
  assumes "recv_stream k s pend" and "recv_progress k s pend" and "0 < sz"
    and "sz \<le> int (length (pend w))" and "recv_loop k s sz tot acc w = (r, d, w')" and "0 \<le> tot"
  shows "r = tot + sz"
  using assms
proof (induction k s sz tot acc w rule: recv_loop.induct)
  case (1 k s sz tot acc w)
  obtain r1 d1 w1 where m: "kernel_recvmsg k s sz w = (r1, d1, w1)" by (metis prod_cases3)
  note law = recv_streamD [OF "1.prems"(1) m]
  have pos: "0 < r1"
    using "1.prems"(2,3,4) m unfolding recv_progress_def by (metis fst_conv leD length_greater_0_conv of_nat_0_less_iff less_le_trans)
  show ?case
  proof (cases "sz - r1 > 0")
    case True
    with "1.prems"(5) m pos have rec: "recv_loop k s (sz - r1) (tot + r1) (acc @ d1) w1 = (r, d, w')"
      by (simp add: recv_loop.simps [of k s sz])
    have "sz - r1 \<le> int (length (pend w1))" "0 \<le> tot + r1"
      using "1.prems"(4,6) law(1,3) [OF pos] pos by auto
    with True pos "1.IH" [OF m [symmetric] refl _ _ "1.prems"(1,2) _ _ rec] show ?thesis by auto
  next
    case False
    with "1.prems"(5) m pos law(2) show ?thesis by (auto simp: recv_loop.simps [of k s sz])
  qed
qed

lemma usbip_recv_stream:
  assumes "recv_stream k s pend" and "0 < n" and "usbip_recv k (Some s) True n w = (r, d, w')"
  shows "pend w = d @ pend w' \<and> (r = n \<and> int (length d) = n \<or> r \<le> 0 \<and> int (length d) < n)"
  using recv_loop_stream [OF assms(1,2), of 0 "[]" w r d w'] assms(2,3)
  by (auto simp: usbip_recv_def)

lemma concat_dropWhile_Nil [simp]: "concat (dropWhile (\<lambda>c. c = []) xs) = concat xs"
  by (induction xs) auto

lemma sim_recv_stream: "recv_stream sim_k s (\<lambda>w. concat (sim_in w))"
proof -
  have cat: "concat (if drop n c = [] then cs else drop n c # cs) = drop n c @ concat cs"
    for n :: nat and c :: "byte list" and cs by simp
  show ?thesis
    unfolding recv_stream_def
  proof (intro allI)
    fix n w
    show "case kernel_recvmsg sim_k s n w of (r, d, w') \<Rightarrow>
        (0 < r \<longrightarrow> int (length d) = r \<and> r \<le> n \<and> concat (sim_in w) = d @ concat (sim_in w')) \<and>
        (r \<le> 0 \<longrightarrow> concat (sim_in w') = concat (sim_in w))"
    proof (cases "dropWhile (\<lambda>c. c = []) (sim_in w)")
      case Nil
      then show ?thesis by (simp add: sim_recvmsg_def del: dropWhile_eq_Nil_conv)
    next
      case (Cons c cs)
      have "c = take (nat n) c @ drop (nat n) c" by simp
      then have "c @ concat cs = take (nat n) c @ drop (nat n) c @ concat cs" by (metis append.assoc)
      moreover have "concat (sim_in w) = c @ concat cs"
        using Cons concat_dropWhile_Nil [of "sim_in w"] by simp
      ultimately show ?thesis
        using Cons by (auto simp: sim_recvmsg_def cat simp del: append_take_drop_id)
    qed
  qed
qed

lemma sim_recv_progress: "recv_progress sim_k s (\<lambda>w. concat (sim_in w))"
proof -
  have "0 < fst (kernel_recvmsg sim_k s n w)" if "0 < n" and "concat (sim_in w) \<noteq> []" for n w
  proof (cases "dropWhile (\<lambda>c. c = []) (sim_in w)")
    case Nil
    with that(2) show ?thesis using concat_dropWhile_Nil [of "sim_in w"] by simp
  next
    case (Cons c cs)
    then have "c \<noteq> []" using hd_dropWhile [of "\<lambda>c. c = []" "sim_in w"] by simp
    with Cons that(1) show ?thesis by (simp add: sim_recvmsg_def)
  qed
  then show ?thesis by (simp add: recv_progress_def)
qed

lemma usbip_recv_exact:
  assumes "recv_stream k s pend" and "recv_progress k s pend" and "0 < n"
    and "n \<le> int (length (pend w))"
  obtains w' where "usbip_recv k (Some s) True n w = (n, take (nat n) (pend w), w')"
    and "pend w' = drop (nat n) (pend w)"
proof -
  obtain r d w' where u: "usbip_recv k (Some s) True n w = (r, d, w')" by (metis prod_cases3)
  with assms(3) have "recv_loop k s n 0 [] w = (r, d, w')" by (simp add: usbip_recv_def)
  from recv_loop_complete [OF assms(1,2,3,4) this] have "r = n" by simp
  with usbip_recv_stream [OF assms(1,3) u] assms(3)
  have p: "pend w = d @ pend w'" "length d = nat n" by auto
  then have "take (nat n) (pend w) = d" "pend w' = drop (nat n) (pend w)" by auto
  with that u \<open>r = n\<close> show thesis by blast
qed

text \<open>Receiving data changes nothing of a device but its pending events.\<close>

lemma recv_xbuff_frame: "usbip_recv_xbuff k ud u w = (r, ud', u', w') \<Longrightarrow> ev_only ud ud'"
  by (auto simp: usbip_recv_xbuff_def Let_def split: if_splits usbip_side.splits prod.splits)

lemma recv_iso_frame: "usbip_recv_iso h k ud u w = (r, ud', u', w') \<Longrightarrow> ev_only ud ud'"
  by (auto simp: usbip_recv_iso_def Let_def split: if_splits prod.splits bool.splits)

section \<open>Packing lemmas\<close>

interpretation uiso_codec: codec pack_iso_send unpack_iso_recv "\<lambda>_ d. d" "\<lambda>_. True" sizeof_iso
proof
  show "length (pack_iso_send h m) = sizeof_iso" for h m
    by (simp add: pack_iso_send_def)
  show "unpack_iso_recv g (pack_iso_send h m) = m" for g h m
    using iso_codec.dec_enc [where m = "fst (usbip_pack_iso zero_iso m True)" and g = g and h = h]
    by (simp add: pack_iso_send_def unpack_iso_recv_def send_iso_def recv_iso_def usbip_pack_iso_def)
qed

lemma pack_submit_roundtrip:
  assumes "wf_header p"
  shows "usbip_pack_pdu h (fst (usbip_pack_pdu h p u USBIP_CMD_SUBMIT True)) v USBIP_CMD_SUBMIT False =
    (fst (usbip_pack_pdu h p u USBIP_CMD_SUBMIT True),
     v\<lparr>u_transfer_flags := u_transfer_flags u AND NOT URB_NO_TRANSFER_DMA_MAP,
       transfer_buffer_length := transfer_buffer_length u, start_frame := start_frame u,
       number_of_packets := number_of_packets u, u_interval := u_interval u\<rparr>)"
  using assms
  by (simp add: usbip_pack_pdu_def usbip_pack_cmd_submit_def wire_simps Let_def
      tweak_transfer_flags_def)

lemma pack_ret_roundtrip:
  assumes "wf_header p"
  shows "usbip_pack_pdu h (fst (usbip_pack_pdu h p u USBIP_RET_SUBMIT True)) v USBIP_RET_SUBMIT False =
    (fst (usbip_pack_pdu h p u USBIP_RET_SUBMIT True),
     v\<lparr>u_status := u_status u, actual_length := actual_length u, start_frame := start_frame u,
       number_of_packets := number_of_packets u, error_count := error_count u\<rparr>)"
  using assms
  by (simp add: usbip_pack_pdu_def usbip_pack_ret_submit_def wire_simps Let_def command_defs)

lemma sint_times16:
  fixes n :: s32
  assumes "0 < sint n" and "sint n < 2 ^ 27"
  shows "sint (n * 16) = 16 * sint n" "0 < sint n" "n \<noteq> 0"
proof -
  have "sint (n * 16) = signed_take_bit 31 (sint n * 16)" 
    by (simp add: sint_word_ariths)
  also have "\<dots> = sint n * 16" using assms by (intro signed_take_bit_int_eq_self) auto
  finally show "sint (n * 16) = 16 * sint n" by simp
  show "n \<noteq> 0" "0 < sint n" using assms by auto
qed


lemma fill_iso_sent:
  assumes "iso_np u = length ds" and "length (iso_frame_desc u) = length ds"
    and "bs = concat (map (pack_iso_send h) ds)"
  shows "fill_iso g bs u = (sum_list (map ui_actual_length ds), u\<lparr>iso_frame_desc := ds\<rparr>)"
proof -
  have "map (unpack_iso_recv g) (frames sizeof_iso (length ds) bs) = ds"
    using uiso_codec.decode_stream [of ds g h] assms(3) by simp
  moreover have "length bs = length ds * sizeof_iso"
    using uiso_codec.length_stream [of ds h] assms(3) by simp
  ultimately show ?thesis
    using assms(1,2) by (simp add: fill_iso_def)
qed

lemma recv_iso_sent:
  assumes bs: "bs = concat (map (pack_iso_send h) ds)"
    and np: "0 < sint (number_of_packets u)" "sint (number_of_packets u) < 2 ^ 27"
    and len: "iso_np u = length ds" "length (iso_frame_desc u) = length ds"
    and pipe: "usb_pipeisoc (u_pipe u)"
    and tot: "sum_list (map ui_actual_length ds) = actual_length u"
    and stream: "recv_stream k s pend" "recv_progress k s pend" "tcp_socket ud = Some s"
    and alloc: "kzalloc k (scast (number_of_packets u * 16)) w = (True, w1)" "pend w1 = bs @ rest"
  shows "\<exists>w'. usbip_recv_iso g k ud u w =
      (sint (number_of_packets u) * 16, ud, u\<lparr>iso_frame_desc := ds\<rparr>, w') \<and> pend w' = rest"
proof -
  note sz = sint_times16 [OF np]
  have l: "int (length bs) = 16 * sint (number_of_packets u)"
    using uiso_codec.length_stream [of ds h] bs len(1) np(1)
    by (simp add: iso_np_def sizeof_iso_def)
  obtain w' where r: "usbip_recv k (Some s) True (sint (number_of_packets u * 16)) w1 =
      (sint (number_of_packets u * 16), take (nat (sint (number_of_packets u * 16))) (pend w1), w')"
    "pend w' = drop (nat (sint (number_of_packets u * 16))) (pend w1)"
    using usbip_recv_exact [OF stream(1,2), of "sint (number_of_packets u * 16)" w1] sz l alloc(2)
    by auto
  have t: "take (nat (sint (number_of_packets u * 16))) (pend w1) = bs"
    "drop (nat (sint (number_of_packets u * 16))) (pend w1) = rest"
    using l sz(1) alloc(2) by (metis append_eq_conv_conj nat_int)+
  show ?thesis
    using r [unfolded t] pipe sz(3) alloc(1) stream(3) fill_iso_sent [OF len bs, of g] tot sz(1)
    by (auto simp: usbip_recv_iso_def Let_def)
qed


section \<open>Restoring the padding\<close>

text \<open>The layout of isochronous data in a buffer of \<open>n\<close> bytes: the first packet starts the buffer and
  no packet reaches into the next one.\<close>

fun packets_from :: "nat \<Rightarrow> nat \<Rightarrow> usb_iso_packet_descriptor list \<Rightarrow> bool" where
  "packets_from lo n [] \<longleftrightarrow> lo \<le> n"
| "packets_from lo n (d # ds) \<longleftrightarrow>
     lo \<le> unat (ui_offset d) \<and>
     packets_from (unat (ui_offset d) + unat (ui_actual_length d)) n ds"

definition packets_ok :: "nat \<Rightarrow> usb_iso_packet_descriptor list \<Rightarrow> bool" where
  "packets_ok n ds \<longleftrightarrow> ds \<noteq> [] \<and> ui_offset (hd ds) = 0 \<and> packets_from 0 n ds"

definition sum_actual :: "usb_iso_packet_descriptor list \<Rightarrow> nat" where
  "sum_actual ds = sum_list (map (\<lambda>d. unat (ui_actual_length d)) ds)"

text \<open>The data the sender puts on the network: the packets without what lies between them.\<close>

definition gather :: "byte list \<Rightarrow> usb_iso_packet_descriptor list \<Rightarrow> byte list" where
  "gather b ds = concat (map (\<lambda>d. slice (unat (ui_offset d)) (unat (ui_actual_length d)) b) ds)"

lemma packets_from_le: "packets_from lo n ds \<Longrightarrow> lo + sum_actual ds \<le> n"
  by (induction lo n ds rule: packets_from.induct) (auto simp: sum_actual_def)

lemma packets_from_nth:
  "packets_from lo n ds \<Longrightarrow> i < length ds \<Longrightarrow>
   lo + sum_actual (take i ds) \<le> unat (ui_offset (ds ! i)) \<and>
   unat (ui_offset (ds ! i)) + unat (ui_actual_length (ds ! i)) \<le> n \<and>
   (\<forall>j. i < j \<longrightarrow> j < length ds \<longrightarrow>
      unat (ui_offset (ds ! i)) + unat (ui_actual_length (ds ! i)) \<le> unat (ui_offset (ds ! j)))"
proof (induction lo n ds arbitrary: i rule: packets_from.induct)
  case (1 lo n)
  then show ?case by simp
next
  case (2 lo n d ds)
  show ?case
  proof (cases i)
    case 0
    have "unat (ui_offset d) + unat (ui_actual_length d) \<le> unat (ui_offset (ds ! j))" if "j < length ds" for j
      using 2 that by fastforce
    with 0 2 packets_from_le [of _ n ds] show ?thesis
      by (auto simp: sum_actual_def nth_Cons split: nat.split) fastforce
  next
    case (Suc i')
    from 2(1)[of i'] 2(2,3) Suc show ?thesis
      by (auto simp: sum_actual_def nth_Cons split: nat.split)
  qed
qed

lemma length_packet:
  "packets_from lo (length b) ds \<Longrightarrow> d \<in> set ds \<Longrightarrow>
   length (slice (unat (ui_offset d)) (unat (ui_actual_length d)) b) = unat (ui_actual_length d)"
  using packets_from_nth [of lo "length b" ds] by (metis in_set_conv_nth length_slice)

lemma length_gather: "packets_from lo (length b) ds \<Longrightarrow> length (gather b ds) = sum_actual ds"
proof (induction lo "length b" ds rule: packets_from.induct)
  case (2 lo d ds)
  then show ?case using length_packet [of lo b "d # ds" d] by (auto simp: gather_def sum_actual_def)
qed (simp add: gather_def sum_actual_def)

lemma gather_nth:
  "packets_from lo (length b) ds \<Longrightarrow> i < length ds \<Longrightarrow>
   slice (sum_actual (take i ds)) (unat (ui_actual_length (ds ! i))) (gather b ds) =
   slice (unat (ui_offset (ds ! i))) (unat (ui_actual_length (ds ! i))) b"
proof (induction lo "length b" ds arbitrary: i rule: packets_from.induct)
  case (2 lo d ds)
  have l: "length (slice (unat (ui_offset d)) (unat (ui_actual_length d)) b) = unat (ui_actual_length d)"
    using length_packet [of lo b "d # ds" d] "2.prems" by simp
  show ?case
  proof (cases i)
    case 0
    with l show ?thesis by (simp add: gather_def sum_actual_def)
  next
    case (Suc j)
    with 2 l show ?thesis by (simp add: gather_def sum_actual_def)
  qed
qed simp

lemma sum_actual_take_Suc:
  "i < length ds \<Longrightarrow> sum_actual (take (Suc i) ds) = sum_actual (take i ds) + unat (ui_actual_length (ds ! i))"
  by (simp add: sum_actual_def take_Suc_conv_app_nth)

lemma sum_actual_take_le: "sum_actual (take i ds) \<le> sum_actual ds"
proof -
  have "sum_actual ds = sum_actual (take i ds) + sum_actual (drop i ds)"
    unfolding sum_actual_def by (metis append_take_drop_id map_append sum_list_append)
  then show ?thesis by simp
qed

lemma slice_take_prefix: "i + n \<le> m \<Longrightarrow> slice i n (take m xs) = slice i n xs"
  by (simp add: slice_def drop_take min_def)


definition pad_inv :: "byte list \<Rightarrow> usb_iso_packet_descriptor list \<Rightarrow> nat \<Rightarrow> byte list \<Rightarrow> bool" where
  "pad_inv b ds j c \<longleftrightarrow>
     length c = length b \<and>
     take (sum_actual (take (Suc j) ds)) c = take (sum_actual (take (Suc j) ds)) (gather b ds) \<and>
     (\<forall>i. j < i \<longrightarrow> i < length ds \<longrightarrow>
        slice (unat (ui_offset (ds ! i))) (unat (ui_actual_length (ds ! i))) c =
        slice (unat (ui_offset (ds ! i))) (unat (ui_actual_length (ds ! i))) b)"

lemma pad_inv_step:
  assumes pk: "packets_from 0 (length b) ds" and i: "Suc j < length ds" and inv: "pad_inv b ds (Suc j) c"
    and o: "o' = unat (ui_offset (ds ! Suc j))" "a = unat (ui_actual_length (ds ! Suc j))"
       "p = sum_actual (take (Suc j) ds)"
  shows "p + a \<le> length c" and "o' + a \<le> length c" and "pad_inv b ds j (overwrite o' (slice p a c) c)"
proof -
  note n = packets_from_nth [OF pk i]
  have lc: "length c = length b" using inv by (simp add: pad_inv_def)
  have pa: "sum_actual (take (Suc (Suc j)) ds) = p + a" using sum_actual_take_Suc [OF i] o by simp
  show "o' + a \<le> length c" using n o lc by simp
  show le: "p + a \<le> length c" using n o lc by simp
  have tk: "take (p + a) c = take (p + a) (gather b ds)" using inv pa by (simp add: pad_inv_def)
  have src: "slice p a c = slice o' a b"
    using gather_nth [OF pk i] o tk slice_take_prefix [of p a "p + a" c]
      slice_take_prefix [of p a "p + a" "gather b ds"] by simp
  have la: "length (slice p a c) = a" using le by simp
  have po: "p \<le> o'" using n o by simp
  show "pad_inv b ds j (overwrite o' (slice p a c) c)"
    unfolding pad_inv_def
  proof (intro conjI allI impI)
    show "length (overwrite o' (slice p a c) c) = length b"
      using \<open>o' + a \<le> length c\<close> la lc by simp
    have "take p (overwrite o' (slice p a c) c) = take p c"
      using po \<open>o' + a \<le> length c\<close> by (simp add: overwrite_def min_def)
    moreover have "take p c = take p (gather b ds)" using tk by (metis le_add1 min.absorb1 take_take)
    ultimately show "take (sum_actual (take (Suc j) ds)) (overwrite o' (slice p a c) c) =
        take (sum_actual (take (Suc j) ds)) (gather b ds)" using o by simp
  next
    fix i' assume i': "j < i'" "i' < length ds"
    show "slice (unat (ui_offset (ds ! i'))) (unat (ui_actual_length (ds ! i'))) (overwrite o' (slice p a c) c) =
        slice (unat (ui_offset (ds ! i'))) (unat (ui_actual_length (ds ! i'))) b"
    proof (cases "i' = Suc j")
      case True
      then show ?thesis using src la o \<open>o' + a \<le> length c\<close> by simp
    next
      case False
      with i' n o have "o' + a \<le> unat (ui_offset (ds ! i'))" by simp
      with False i' inv la \<open>o' + a \<le> length c\<close> show ?thesis
        by (simp add: slice_overwrite_other pad_inv_def)
    qed
  qed
qed

lemma pad_loop_restores:
  assumes "packets_from 0 (length b) ds" and "sum_actual ds < 2 ^ 31"
    and "iso_frame_desc u = ds" and "j < length ds" and "transfer_buffer u = Some c"
    and "pad_inv b ds j c"
  shows "\<exists>c'. pad_loop j (of_nat (sum_actual (take (Suc j) ds))) u = u\<lparr>transfer_buffer := Some c'\<rparr> \<and>
    pad_inv b ds 0 c'"
  using assms
proof (induction j arbitrary: u c)
  case 0
  then show ?case by (metis pad_loop.simps(1) urb.surjective urb.update_convs(3))
next
  case (Suc j)
  let ?d = "ds ! Suc j" and ?p = "sum_actual (take (Suc j) ds)"
  let ?a = "unat (ui_actual_length ?d)" and ?o = "unat (ui_offset ?d)"
  note st = pad_inv_step [OF Suc.prems(1,4,6) refl refl refl]
  have off: "(of_nat (sum_actual (take (Suc (Suc j)) ds)) :: s32) - ui_actual_length ?d = of_nat ?p"
    using sum_actual_take_Suc [OF Suc.prems(4)] by simp
  have sp: "sint (of_nat ?p :: s32) = int ?p"
    using sum_actual_take_le [of "Suc j" ds] Suc.prems(2) by (intro sint_of_nat_small) simp
  let ?c = "overwrite ?o (slice ?p ?a c) c"
  have mv: "urb_memmove ?o (int ?p) ?a u = u\<lparr>transfer_buffer := Some ?c\<rparr>"
    using st(1,2) Suc.prems(5) by (simp add: urb_memmove_def urb_write_def buf_ok_def buf_read_def)
  obtain c' where "pad_loop j (of_nat ?p) (u\<lparr>transfer_buffer := Some ?c\<rparr>) =
      u\<lparr>transfer_buffer := Some c'\<rparr>" "pad_inv b ds 0 c'"
    using Suc.IH [of "u\<lparr>transfer_buffer := Some ?c\<rparr>" ?c] Suc.prems st(3) by auto
  moreover have "pad_loop (Suc j) (of_nat (sum_actual (take (Suc (Suc j)) ds))) u =
      pad_loop j (of_nat ?p) (u\<lparr>transfer_buffer := Some ?c\<rparr>)"
    using Suc.prems(3,4) off sp mv by (simp add: Let_def)
  ultimately show ?case by auto
qed

lemma get_of_view:
  assumes "header_view g p = header_view h q"
  shows "command (base q) = USBIP_CMD_SUBMIT \<Longrightarrow> get_cmd_submit g p = get_cmd_submit h q"
    and "command (base q) = USBIP_RET_SUBMIT \<Longrightarrow> get_ret_submit g p = get_ret_submit h q"
  using assms by (auto simp: header_view_def command_defs split: if_splits)

lemma wf_pack [simp]: "wf_header p \<Longrightarrow> wf_header (fst (usbip_pack_pdu h p u cmd b))"
  by (auto simp: usbip_pack_pdu_def usbip_pack_cmd_submit_def usbip_pack_ret_submit_def Let_def)

lemma base_pack [simp]: "base (fst (usbip_pack_pdu h p u cmd b)) = base p"
  by (auto simp: usbip_pack_pdu_def usbip_pack_cmd_submit_def usbip_pack_ret_submit_def Let_def)

lemma get_pack_cmd:
  "wf_header p \<Longrightarrow> get_cmd_submit h (fst (usbip_pack_pdu h p u USBIP_CMD_SUBMIT True)) =
   (get_cmd_submit h p)\<lparr>cs_transfer_flags := tweak_transfer_flags (u_transfer_flags u),
     cs_transfer_buffer_length := transfer_buffer_length u, cs_start_frame := start_frame u,
     cs_number_of_packets := number_of_packets u, cs_interval := u_interval u\<rparr>"
  by (simp add: usbip_pack_pdu_def usbip_pack_cmd_submit_def Let_def wire_simps)

lemma get_pack_ret:
  "wf_header p \<Longrightarrow> get_ret_submit h (fst (usbip_pack_pdu h p u USBIP_RET_SUBMIT True)) =
   \<lparr>rs_status = u_status u, rs_actual_length = actual_length u, rs_start_frame = start_frame u,
    rs_number_of_packets = number_of_packets u, rs_error_count = error_count u\<rparr>"
  by (simp add: usbip_pack_pdu_def usbip_pack_ret_submit_def Let_def wire_simps command_defs)

lemma packets_from_drop:
  "packets_from lo n ds \<Longrightarrow> i < length ds \<Longrightarrow> unat (ui_offset (ds ! i)) + sum_actual (drop i ds) \<le> n"
proof (induction lo n ds arbitrary: i rule: packets_from.induct)
  case (2 lo n d ds)
  then show ?case
    using packets_from_le [of _ n ds] by (cases i) (fastforce simp: sum_actual_def)+
qed simp

lemma gather_dense:
  assumes "packets_from 0 (length b) ds" and "sum_actual ds = length b" and "i < length ds"
  shows "unat (ui_offset (ds ! i)) = sum_actual (take i ds)"
proof -
  have "sum_actual ds = sum_actual (take i ds) + sum_actual (drop i ds)"
    unfolding sum_actual_def by (metis append_take_drop_id map_append sum_list_append)
  with packets_from_drop [OF assms(1,3)] packets_from_nth [OF assms(1,3)] assms(2) show ?thesis
    by linarith
qed

lemma u32_of_nat_eq: "m < 2 ^ 32 \<Longrightarrow> n < 2 ^ 32 \<Longrightarrow> (of_nat m :: u32) = of_nat n \<longleftrightarrow> m = n"
  by (simp add: word_of_nat_eq_iff take_bit_nat_eq_self)

section \<open>Properties\<close>

text \<open>C8. Reading \<open>n\<close> bytes from a connected stream socket consumes exactly the bytes it stores, in
  order, however the kernel splits them; it returns \<open>n\<close> with all \<open>n\<close> bytes stored, or the
  non-positive result of the last read with fewer.\<close>

theorem usbip_recv_correct:
  assumes "recv_stream k s pend" and "0 < n" and "usbip_recv k (Some s) True n w = (r, d, w')"
  shows "pend w = d @ pend w' \<and> (r = n \<and> int (length d) = n \<or> r \<le> 0 \<and> int (length d) < n)"
  using assms by (rule usbip_recv_stream)

theorem usbip_recv_correct_witness:
  "concat (sim_in (sim0\<lparr>sim_in := [[1, 2], [3, 4, 5]]\<rparr>)) =
     [1, 2, 3] @ concat (sim_in (sim0\<lparr>sim_in := [[4, 5]]\<rparr>)) \<and>
   ((3::int) = 3 \<and> int (length [1, 2, 3 :: byte]) = 3 \<or> (3::int) \<le> 0 \<and> int (length [1, 2, 3 :: byte]) < 3)"
  by (rule usbip_recv_correct [OF sim_recv_stream [of 7]])
    (simp_all add: usbip_recv_def recv_loop.simps sim_recvmsg_def sim0_def)

text \<open>When at least \<open>n\<close> bytes of the stream arrive, reading \<open>n\<close> bytes ends and returns \<open>n\<close> with
  exactly the first \<open>n\<close> of them.\<close>

theorem usbip_recv_complete:
  assumes "recv_stream k s pend" and "recv_progress k s pend" and "0 < n"
    and "n \<le> int (length (pend w))"
  shows "\<exists>w'. usbip_recv k (Some s) True n w = (n, take (nat n) (pend w), w') \<and>
    pend w' = drop (nat n) (pend w)"
  using usbip_recv_exact [OF assms] by blast

theorem usbip_recv_complete_witness:
  "\<exists>w'. usbip_recv sim_k (Some 7) True 3 (sim0\<lparr>sim_in := [[1], [2, 3, 4]]\<rparr>) =
      (3, take (nat 3) [1, 2, 3, 4], w') \<and> concat (sim_in w') = drop (nat 3) [1, 2, 3, 4]"
  using usbip_recv_complete [OF sim_recv_stream [of 7] sim_recv_progress [of 7], of 3
      "sim0\<lparr>sim_in := [[1], [2, 3, 4]]\<rparr>"] by (simp add: sim0_def)

text \<open>A submit request packed from a urb on one host and unpacked into a urb on another, of any
  byte order, transfers the flags (without the DMA mapping flag), the buffer length, the start
  frame, the number of packets and the interval; every other field of the receiving urb is kept.\<close>

theorem cmd_submit_transfers_urb:
  assumes "wf_header p" and "command (base p) = USBIP_CMD_SUBMIT"
  shows "snd (usbip_pack_pdu g (recv_header g (send_header h
            (fst (usbip_pack_pdu h p u USBIP_CMD_SUBMIT True)))) v USBIP_CMD_SUBMIT False) =
    v\<lparr>u_transfer_flags := u_transfer_flags u AND NOT URB_NO_TRANSFER_DMA_MAP,
      transfer_buffer_length := transfer_buffer_length u, start_frame := start_frame u,
      number_of_packets := number_of_packets u, u_interval := u_interval u\<rparr>"
proof -
  let ?q = "fst (usbip_pack_pdu h p u USBIP_CMD_SUBMIT True)"
  have "get_cmd_submit g (recv_header g (send_header h ?q)) = get_cmd_submit h ?q"
    using header_codec.dec_enc [of ?q g h] assms by (intro get_of_view) auto
  then show ?thesis
    using get_pack_cmd [OF assms(1), of h u]
    by (simp add: usbip_pack_pdu_def [of g] usbip_pack_cmd_submit_def [of g] tweak_transfer_flags_def Let_def)
qed

definition submit_demo :: usbip_header where
  "submit_demo = zero_header\<lparr>base := zero_basic\<lparr>command := USBIP_CMD_SUBMIT\<rparr>\<rparr>"

theorem cmd_submit_transfers_urb_witness:
  "transfer_buffer_length (snd (usbip_pack_pdu Big (recv_header Big (send_header Little
     (fst (usbip_pack_pdu Little submit_demo (new_urb 0\<lparr>transfer_buffer_length := 512\<rparr>)
        USBIP_CMD_SUBMIT True)))) (new_urb 0) USBIP_CMD_SUBMIT False)) = 512"
  using cmd_submit_transfers_urb [of submit_demo Big Little "new_urb 0\<lparr>transfer_buffer_length := 512\<rparr>" "new_urb 0"]
  by (simp add: submit_demo_def)

text \<open>A result packed from a completed urb on one host and unpacked on another transfers status,
  actual length, start frame, number of packets and error count unchanged.\<close>

theorem ret_submit_transfers_urb:
  assumes "wf_header p" and "command (base p) = USBIP_RET_SUBMIT"
  shows "snd (usbip_pack_pdu g (recv_header g (send_header h
            (fst (usbip_pack_pdu h p u USBIP_RET_SUBMIT True)))) v USBIP_RET_SUBMIT False) =
    v\<lparr>u_status := u_status u, actual_length := actual_length u, start_frame := start_frame u,
      number_of_packets := number_of_packets u, error_count := error_count u\<rparr>"
proof -
  let ?q = "fst (usbip_pack_pdu h p u USBIP_RET_SUBMIT True)"
  have "get_ret_submit g (recv_header g (send_header h ?q)) = get_ret_submit h ?q"
    using header_codec.dec_enc [of ?q g h] assms by (intro get_of_view) auto
  then show ?thesis
    using get_pack_ret [OF assms(1), of h u]
    by (simp add: usbip_pack_pdu_def [of g] usbip_pack_ret_submit_def [of g] Let_def command_defs)
qed

definition ret_demo :: usbip_header where
  "ret_demo = zero_header\<lparr>base := zero_basic\<lparr>command := USBIP_RET_SUBMIT\<rparr>\<rparr>"

theorem ret_submit_transfers_urb_witness:
  "u_status (snd (usbip_pack_pdu Little (recv_header Little (send_header Big
     (fst (usbip_pack_pdu Big ret_demo (new_urb 0\<lparr>u_status := - EPIPE\<rparr>)
        USBIP_RET_SUBMIT True)))) (new_urb 0) USBIP_RET_SUBMIT False)) = - EPIPE"
  using ret_submit_transfers_urb [of ret_demo Little Big "new_urb 0\<lparr>u_status := - EPIPE\<rparr>" "new_urb 0"]
  by (simp add: ret_demo_def)

text \<open>C9. The descriptor array one host builds for an isochronous urb, received by another host of any
  byte order whose urb has room for the same number of packets, fills that urb with exactly the
  sender's descriptors, and the call succeeds when their lengths add up to the actual length.\<close>

theorem iso_descriptors_roundtrip:
  assumes "usbip_alloc_iso_desc_pdu h k1 u1 w1 = (Some bs, len, u1', w1')"
    and "iso_np u1 = length (iso_frame_desc u1)"
    and "number_of_packets u2 = number_of_packets u1"
    and "length (iso_frame_desc u2) = length (iso_frame_desc u1)"
    and "0 < sint (number_of_packets u2)" and "sint (number_of_packets u2) < 2 ^ 27"
    and "usb_pipeisoc (u_pipe u2)"
    and "sum_list (map ui_actual_length (iso_frame_desc u1)) = actual_length u2"
    and "recv_stream k2 s pend" and "recv_progress k2 s pend" and "tcp_socket ud = Some s"
    and "kzalloc k2 (scast (number_of_packets u2 * 16)) w2 = (True, w3)" and "pend w3 = bs @ rest"
  shows "u1' = u1 \<and> (\<exists>w4. usbip_recv_iso g k2 ud u2 w2 =
      (sint (number_of_packets u2) * 16, ud, u2\<lparr>iso_frame_desc := iso_frame_desc u1\<rparr>, w4) \<and>
      pend w4 = rest)"
proof -
  have bs: "bs = concat (map (pack_iso_send h) (iso_frame_desc u1))" and "u1' = u1"
    using assms(1,2) by (auto simp: usbip_alloc_iso_desc_pdu_def Let_def split: prod.splits bool.splits)
  moreover have "iso_np u2 = length (iso_frame_desc u1)" using assms(2,3) by (simp add: iso_np_def)
  ultimately show ?thesis
    using recv_iso_sent [OF bs assms(5,6) _ assms(4,7,8,9,10,11,12,13), of g] by simp
qed

definition iso_demo :: urb where
  "iso_demo = (new_urb 0)\<lparr>number_of_packets := 2, actual_length := 2, transfer_buffer_length := 4,
     iso_frame_desc := [\<lparr>ui_offset = 0, ui_length = 2, ui_actual_length = 1, ui_status = 0\<rparr>,
                        \<lparr>ui_offset = 2, ui_length = 2, ui_actual_length = 1, ui_status = 0\<rparr>],
     transfer_buffer := Some [1, 3, 0, 0]\<rparr>"

definition ud_demo :: usbip_device where
  "ud_demo = \<lparr>ud_side = USBIP_VHCI, ud_status = VDEV_ST_USED, tcp_socket = Some 7, tcp_rx = None,
     tcp_tx = None, ud_event = 0, ud_eh = None, ud_filters = []\<rparr>"

definition iso_wire_demo :: "byte list" where
  "iso_wire_demo = concat (map (pack_iso_send Little) (iso_frame_desc iso_demo))"

theorem iso_descriptors_roundtrip_witness:
  "iso_demo = iso_demo \<and>
   (\<exists>w4. usbip_recv_iso Big sim_k ud_demo ((new_urb 2)\<lparr>number_of_packets := 2, actual_length := 2\<rparr>)
       (sim0\<lparr>sim_in := [iso_wire_demo]\<rparr>) =
     (sint (number_of_packets ((new_urb 2)\<lparr>number_of_packets := 2, actual_length := 2\<rparr>)) * 16, ud_demo,
      ((new_urb 2)\<lparr>number_of_packets := 2, actual_length := 2\<rparr>)\<lparr>iso_frame_desc := iso_frame_desc iso_demo\<rparr>,
      w4) \<and> concat (sim_in w4) = [])"
  by (rule iso_descriptors_roundtrip [OF _ _ _ _ _ _ _ _ sim_recv_stream [of 7] sim_recv_progress [of 7],
        where h = Little and ?k1.0 = sim_k and ?w1.0 = sim0 and bs = iso_wire_demo
        and ?w3.0 = "sim0\<lparr>sim_in := [iso_wire_demo]\<rparr>"])
    (simp_all add: usbip_alloc_iso_desc_pdu_def iso_wire_demo_def iso_demo_def new_urb_def iso_np_def
      usb_pipeisoc_def usb_pipetype_def PIPE_ISOCHRONOUS_def ud_demo_def)

text \<open>Padding of isochronous data. If the packets start at the beginning of the buffer and do not
  overlap, then moving the gathered packets back to their offsets puts every packet where the
  sender's buffer had it, inside the buffer, and nothing else of the urb changes.\<close>

theorem pad_iso_restores:
  assumes "packets_ok (length b) ds" and "sum_actual ds < 2 ^ 31" and "length ds < 2 ^ 31"
    and "length b < 2 ^ 32" and u: "iso_frame_desc u = ds" "number_of_packets u = of_nat (length ds)"
    "actual_length u = of_nat (sum_actual ds)" "transfer_buffer_length u = of_nat (length b)"
    "transfer_buffer u = Some (gather b ds @ rest)" "usb_pipeisoc (u_pipe u)"
    and len: "length (gather b ds @ rest) = length b"
  shows "\<exists>c. usbip_pad_iso u = u\<lparr>transfer_buffer := Some c\<rparr> \<and> length c = length b \<and>
    (\<forall>i < length ds. slice (unat (ui_offset (ds ! i))) (unat (ui_actual_length (ds ! i))) c =
      slice (unat (ui_offset (ds ! i))) (unat (ui_actual_length (ds ! i))) b)"
proof -
  let ?G = "gather b ds @ rest"
  have pk: "packets_from 0 (length b) ds" and ne: "0 < length ds" and o0: "ui_offset (ds ! 0) = 0"
    using assms(1) by (auto simp: packets_ok_def hd_conv_nth)
  have lG: "length (gather b ds) = sum_actual ds" using length_gather [OF pk] .
  have same: "usbip_pad_iso u = u\<lparr>transfer_buffer := Some ?G\<rparr>" if "usbip_pad_iso u = u"
    using that u(5) by (metis urb.surjective urb.update_convs(3))
  have np: "sint (number_of_packets u) = int (length ds)" "number_of_packets u \<noteq> 0"
    using sint_of_nat_small [of "length ds"] assms(3) u(2) ne by auto
  have ac: "actual_length u = 0 \<longleftrightarrow> sum_actual ds = 0"
    and tb: "actual_length u = transfer_buffer_length u \<longleftrightarrow> sum_actual ds = length b"
    using u32_of_nat_eq [of "sum_actual ds" 0] u32_of_nat_eq [of "sum_actual ds" "length b"]
      assms(2,4) u(3,4) by simp_all
  consider (none) "sum_actual ds = 0" | (dense) "sum_actual ds = length b" 
    | (pad) "sum_actual ds \<noteq> 0" "sum_actual ds \<noteq> length b" by blast
  then show ?thesis
  proof cases
    case none
    then have "unat (ui_actual_length (ds ! i)) = 0" if "i < length ds" for i
      using that by (simp add: sum_actual_def)
    moreover have "usbip_pad_iso u = u" using none ac by (simp add: usbip_pad_iso_def Let_def)
    ultimately show ?thesis using same len by (intro exI [of _ ?G]) (auto simp: slice_def)
  next
    case dense
    then have "rest = []" using len lG by simp
    moreover have "usbip_pad_iso u = u" using dense tb by (simp add: usbip_pad_iso_def Let_def)
    ultimately show ?thesis
      using same len gather_nth [OF pk] gather_dense [OF pk dense] by (intro exI [of _ ?G]) simp
  next
    case pad
    have "pad_inv b ds (length ds - 1) ?G" using len lG ne by (auto simp: pad_inv_def)
    then obtain c where c: "pad_loop (length ds - 1) (of_nat (sum_actual ds)) u = u\<lparr>transfer_buffer := Some c\<rparr>"
      "pad_inv b ds 0 c"
      using pad_loop_restores [OF pk assms(2) u(1), of "length ds - 1" ?G] ne u(5) by auto
    have "nat (sint (number_of_packets u) - 1) = length ds - 1" using np(1) by simp
    then have "usbip_pad_iso u = pad_loop (length ds - 1) (of_nat (sum_actual ds)) u"
      using pad u(3,6) np ac tb ne by (simp add: usbip_pad_iso_def Let_def)
    moreover
    have "slice 0 (unat (ui_actual_length (ds ! 0))) c = slice 0 (unat (ui_actual_length (ds ! 0))) b"
      using c(2) gather_nth [OF pk ne] o0 sum_actual_take_Suc [OF ne]
      by (simp add: pad_inv_def slice_def) (simp add: sum_actual_def)
    then have "slice (unat (ui_offset (ds ! i))) (unat (ui_actual_length (ds ! i))) c =
        slice (unat (ui_offset (ds ! i))) (unat (ui_actual_length (ds ! i))) b" if "i < length ds" for i
      using c(2) o0 that by (cases i) (simp_all add: pad_inv_def)
    ultimately show ?thesis
      using c by (intro exI [of _ c]) (simp add: pad_inv_def)
  qed
qed

theorem pad_iso_restores_witness:
  "\<exists>c. usbip_pad_iso iso_demo = iso_demo\<lparr>transfer_buffer := Some c\<rparr> \<and>
     length c = length [1, 9, 3, 9 :: byte] \<and>
     (\<forall>i < length (iso_frame_desc iso_demo).
        slice (unat (ui_offset (iso_frame_desc iso_demo ! i)))
          (unat (ui_actual_length (iso_frame_desc iso_demo ! i))) c =
        slice (unat (ui_offset (iso_frame_desc iso_demo ! i)))
          (unat (ui_actual_length (iso_frame_desc iso_demo ! i))) [1, 9, 3, 9])"
  by (rule pad_iso_restores [where rest = "[0, 0]"])
    (simp_all add: iso_demo_def packets_ok_def sum_actual_def gather_def slice_def usb_pipeisoc_def
      usb_pipetype_def new_urb_def pipe_type_defs)

text \<open>Receiving the data of a result on the client side. The number of bytes stored is the actual
  length the peer announced: when they arrive, memory outside the transfer buffer is written
  exactly when that length exceeds the buffer, which nothing on this path checks.\<close>

theorem recv_xbuff_overrun:
  assumes "recv_stream k s pend" and "recv_progress k s pend"
    and "ud_side ud = USBIP_VHCI" and "tcp_socket ud = Some s" and "usb_pipein (u_pipe u)"
    and "transfer_buffer u = Some b" and "0 < sint (actual_length u)"
    and "sint (actual_length u) \<le> int (length (pend w))" and "\<not> u_fault u"
  shows "\<exists>u' w'. usbip_recv_xbuff k ud u w = (sint (actual_length u), ud, u', w') \<and>
    (u_fault u' \<longleftrightarrow> length b < nat (sint (actual_length u))) \<and>
    (\<not> u_fault u' \<longrightarrow> transfer_buffer u' =
       Some (take (nat (sint (actual_length u))) (pend w) @ drop (nat (sint (actual_length u))) b))"
proof -
  obtain w' where r: "usbip_recv k (Some s) True (sint (actual_length u)) w =
      (sint (actual_length u), take (nat (sint (actual_length u))) (pend w), w')"
    using usbip_recv_exact [OF assms(1,2,7,8)] by blast
  have l: "length (take (nat (sint (actual_length u))) (pend w)) = nat (sint (actual_length u))"
    using assms(8) by simp
  show ?thesis
    using assms r l
    by (auto simp: usbip_recv_xbuff_def usb_pipeout_def urb_write_def buf_ok_def overwrite_def
        Let_def)
qed

theorem recv_xbuff_overrun_witness:
  "\<exists>u' w'. usbip_recv_xbuff sim_k ud_demo
      ((new_urb 0)\<lparr>u_pipe := 0x80, transfer_buffer := Some [0, 0], actual_length := 3\<rparr>)
      (sim0\<lparr>sim_in := [[1, 2, 3]]\<rparr>) = (3, ud_demo, u', w') \<and> u_fault u'"
  using recv_xbuff_overrun [OF sim_recv_stream [of 7] sim_recv_progress [of 7], of ud_demo
      "(new_urb 0)\<lparr>u_pipe := 0x80, transfer_buffer := Some [0, 0], actual_length := 3\<rparr>" "[0, 0]"
      "sim0\<lparr>sim_in := [[1, 2, 3]]\<rparr>"]
  by (auto simp: ud_demo_def new_urb_def usb_pipein_def bit_0x80)

end
