(* ===== verification/NetLaws.thy ===== *)
theory NetLaws
  imports Common
begin

text \<open>
  What the senders of both modules rely on: the laws of a socket that takes everything and of
  allocations that succeed, the isochronous descriptors as they are sent, and sizes.
\<close>

section \<open>Laws of the environment\<close>

text \<open>A socket that takes everything, and allocations that succeed without touching what was sent.\<close>

definition send_all :: "'w kapi \<Rightarrow> sock \<Rightarrow> ('w \<Rightarrow> byte list) \<Rightarrow> bool" where
  "send_all k s out \<longleftrightarrow>
     (\<forall>d w. fst (kernel_sendmsg k s d w) = int (length d) \<and>
            out (snd (kernel_sendmsg k s d w)) = out w @ d)"

definition alloc_ok :: "'w kapi \<Rightarrow> ('w \<Rightarrow> byte list) \<Rightarrow> bool" where
  "alloc_ok k out \<longleftrightarrow> (\<forall>n w. fst (kzalloc k n w) \<and> out (snd (kzalloc k n w)) = out w)"

lemma sim_sends: "send_all sim_k s sim_out" "alloc_ok sim_k sim_out"
  by (simp_all add: send_all_def alloc_ok_def)

section \<open>Isochronous descriptors and sizes\<close>

text \<open>The packets of an isochronous urb that its count announces.\<close>

definition iso_packets :: "urb \<Rightarrow> usb_iso_packet_descriptor list" where
  "iso_packets u = take (iso_np u) (iso_frame_desc u)"

lemma length_pack_isos [simp]: "length (concat (map (pack_iso_send h) ds)) = length ds * sizeof_iso"
  by (rule uiso_codec.length_stream) simp

lemma uint_of_nat_small: "n < 2 ^ 64 \<Longrightarrow> uint (of_nat n :: u64) = int n"
proof -
  assume n: "n < 2 ^ 64"
  have "uint (word_of_int (int n) :: u64) = take_bit 64 (int n)" by transfer simp
  also have "\<dots> = int n" using n by (simp add: take_bit_int_eq_self)
  finally show ?thesis by simp
qed

lemma scast_of_nat: "0 \<le> sint (x :: s32) \<Longrightarrow> (scast x :: u64) = of_nat (nat (sint x))"
proof -
  assume "0 \<le> sint x"
  then have "(of_nat (nat (sint x)) :: u64) = of_int (sint x)" by (metis of_int_of_nat_eq int_nat_eq)
  then show ?thesis by simp
qed

lemma length_buf_read: "buf_ok off n b \<Longrightarrow> length (buf_read off n b) = n"
  by (auto simp: buf_ok_def buf_read_def split: option.splits)

lemma iso_np_less: "iso_np u < 2 ^ 31"
  using sint_less [of "number_of_packets u"] by (simp add: iso_np_def)

lemma send_allD:
  "send_all k s out \<Longrightarrow> fst (kernel_sendmsg k s d w) = int (length d) \<and>
     out (snd (kernel_sendmsg k s d w)) = out w @ d"
  by (simp add: send_all_def)

lemma alloc_okE:
  assumes "alloc_ok k out"
  obtains w' where "kzalloc k n w = (True, w')" and "out w' = out w"
proof -
  have "fst (kzalloc k n w) \<and> out (snd (kzalloc k n w)) = out w" using assms by (simp add: alloc_ok_def)
  with that [of "snd (kzalloc k n w)"] show thesis by (cases "kzalloc k n w") simp
qed

lemma alloc_iso_ok:
  assumes "alloc_ok k out" and "0 \<le> sint (number_of_packets u)" and "iso_np u \<le> length (iso_frame_desc u)"
  shows "\<exists>w'. usbip_alloc_iso_desc_pdu h k u w =
    (Some (concat (map (pack_iso_send h) (iso_packets u))), of_nat (iso_np u * 16), u, w') \<and> out w' = out w"
proof -
  obtain w' where w': "kzalloc k (scast (number_of_packets u) * 16) w = (True, w')" "out w' = out w"
    by (rule alloc_okE [OF assms(1)])
  have "(scast (number_of_packets u) :: u64) * 16 = of_nat (iso_np u * 16)"
    using scast_of_nat [OF assms(2)] by (simp add: iso_np_def)
  then show ?thesis
    using w' assms(3) unfolding usbip_alloc_iso_desc_pdu_def iso_packets_def Let_def w'(1) by simp
qed

end
