(* ===== verification/Stub.thy ===== *)
theory Stub
  imports NetLaws "HOL-Library.Multiset"
begin

text \<open>
  The stub driver's device and its receiving side (\<^verbatim>\<open>stub.h\<close>, \<^verbatim>\<open>stub_rx.c\<close>), with the completion
  handler of \<^verbatim>\<open>stub_tx.c\<close>. A \<open>stub_priv\<close> carries one request from its arrival to its reply: it
  waits in \<open>priv_init\<close> while the USB core owns its urb, in \<open>priv_tx\<close> for the sender and in
  \<open>priv_free\<close> after sending. Two fields have no counterpart in C: \<open>sd_flight\<close>, the requests
  whose urbs the USB core has accepted and not given back, and \<open>sd_oops\<close>, set where the code
  runs into \<open>BUG()\<close>, a null pointer or an index outside an array.
\<close>

section \<open>State\<close>

record stub_priv =
  sp_id :: addr
  sp_seqnum :: u64
  sp_urb :: "urb option"
  sp_unlinking :: bool

record stub_unlink =
  su_seqnum :: u64
  su_status :: u32

record stub_device = usbip_device +
  sd_udev :: usb_device
  sd_devid :: u32
  priv_init :: "stub_priv list"
  priv_tx :: "stub_priv list"
  priv_free :: "stub_priv list"
  unlink_tx :: "stub_unlink list"
  unlink_free :: "stub_unlink list"
  sd_next :: addr
  sd_flight :: "addr list"
  sd_oops :: bool

definition put_urb :: "addr \<Rightarrow> urb \<Rightarrow> stub_device \<Rightarrow> stub_device" where
  "put_urb pid u sdev =
     sdev\<lparr>priv_init := map (\<lambda>p. if sp_id p = pid then p\<lparr>sp_urb := Some u\<rparr> else p) (priv_init sdev)\<rparr>"

section \<open>Control requests\<close>

record usb_ctrlrequest =
  bRequestType :: u8
  bRequest :: u8
  wValue :: u16
  wIndex :: u16
  wLength :: u16

definition get_ctrl :: "endian \<Rightarrow> byte list \<Rightarrow> usb_ctrlrequest" where
  "get_ctrl h sp =
     \<lparr>bRequestType = sp ! 0, bRequest = sp ! 1, wValue = ld16 h (slice 2 2 sp),
      wIndex = ld16 h (slice 4 2 sp), wLength = ld16 h (slice 6 2 sp)\<rparr>"

definition USB_REQ_CLEAR_FEATURE :: u8 where "USB_REQ_CLEAR_FEATURE = 1"
definition USB_REQ_SET_FEATURE :: u8 where "USB_REQ_SET_FEATURE = 3"
definition USB_REQ_SET_CONFIGURATION :: u8 where "USB_REQ_SET_CONFIGURATION = 9"
definition USB_REQ_SET_INTERFACE :: u8 where "USB_REQ_SET_INTERFACE = 11"
definition USB_RECIP_DEVICE :: u8 where "USB_RECIP_DEVICE = 0"
definition USB_RECIP_INTERFACE :: u8 where "USB_RECIP_INTERFACE = 1"
definition USB_RECIP_ENDPOINT :: u8 where "USB_RECIP_ENDPOINT = 2"
definition USB_RT_PORT :: u8 where "USB_RT_PORT = 0x23"
definition USB_ENDPOINT_HALT :: u16 where "USB_ENDPOINT_HALT = 0"
definition USB_PORT_FEAT_RESET :: u16 where "USB_PORT_FEAT_RESET = 4"

definition is_clear_halt_cmd :: "endian \<Rightarrow> byte list \<Rightarrow> bool" where
  "is_clear_halt_cmd h sp \<longleftrightarrow>
     (let req = get_ctrl h sp in
      bRequest req = USB_REQ_CLEAR_FEATURE \<and> bRequestType req = USB_RECIP_ENDPOINT \<and>
      wValue req = USB_ENDPOINT_HALT)"

definition is_set_interface_cmd :: "endian \<Rightarrow> byte list \<Rightarrow> bool" where
  "is_set_interface_cmd h sp \<longleftrightarrow>
     (let req = get_ctrl h sp in
      bRequest req = USB_REQ_SET_INTERFACE \<and> bRequestType req = USB_RECIP_INTERFACE)"

definition is_set_configuration_cmd :: "endian \<Rightarrow> byte list \<Rightarrow> bool" where
  "is_set_configuration_cmd h sp \<longleftrightarrow>
     (let req = get_ctrl h sp in
      bRequest req = USB_REQ_SET_CONFIGURATION \<and> bRequestType req = USB_RECIP_DEVICE)"

definition is_reset_device_cmd :: "endian \<Rightarrow> byte list \<Rightarrow> bool" where
  "is_reset_device_cmd h sp \<longleftrightarrow>
     (let req = get_ctrl h sp; value = le16_to_cpu h (wValue req) in
      bRequest req = USB_REQ_SET_FEATURE \<and> bRequestType req = USB_RT_PORT \<and>
      value = USB_PORT_FEAT_RESET)"

definition tweak_clear_halt_cmd :: "endian \<Rightarrow> 'w kapi \<Rightarrow> usb_device \<Rightarrow> byte list \<Rightarrow> 'w \<Rightarrow> s32 \<times> 'w" where
  "tweak_clear_halt_cmd h k udev sp w =
     (let req = get_ctrl h sp;
          target_endp = ucast (le16_to_cpu h (wIndex req) AND 0x000f);
          target_dir = le16_to_cpu h (wIndex req) AND 0x0080;
          target_pipe = (if target_dir \<noteq> 0 then usb_rcvpipe PIPE_CONTROL (devnum udev) target_endp
                         else usb_sndpipe PIPE_CONTROL (devnum udev) target_endp)
      in usb_clear_halt k target_pipe w)"

definition tweak_set_interface_cmd :: "endian \<Rightarrow> 'w kapi \<Rightarrow> byte list \<Rightarrow> 'w \<Rightarrow> s32 \<times> 'w" where
  "tweak_set_interface_cmd h k sp w =
     (let req = get_ctrl h sp;
          alternate = le16_to_cpu h (wValue req);
          intf = le16_to_cpu h (wIndex req)
      in usb_set_interface k intf alternate w)"

text \<open>The request is skipped: configuring the device would unbind this driver.\<close>

definition tweak_set_configuration_cmd :: "'w \<Rightarrow> s32 \<times> 'w" where
  "tweak_set_configuration_cmd w = (0, w)"

definition tweak_reset_device_cmd :: "'w kapi \<Rightarrow> 'w \<Rightarrow> s32 \<times> 'w" where
  "tweak_reset_device_cmd k w =
     (case usb_lock_device_for_reset k w of (r, w1) \<Rightarrow>
        if s32_neg r then (0, w1)
        else (0, usb_unlock_device k (snd (usb_reset_device k w1))))"

definition tweak_special_requests :: "endian \<Rightarrow> 'w kapi \<Rightarrow> usb_device \<Rightarrow> urb \<Rightarrow> 'w \<Rightarrow> 'w" where
  "tweak_special_requests h k udev u w =
     (case setup_packet u of
        None \<Rightarrow> w
      | Some sp \<Rightarrow>
          if usb_pipetype (u_pipe u) \<noteq> PIPE_CONTROL then w
          else if is_clear_halt_cmd h sp then snd (tweak_clear_halt_cmd h k udev sp w)
          else if is_set_interface_cmd h sp then snd (tweak_set_interface_cmd h k sp w)
          else if is_set_configuration_cmd h sp then snd (tweak_set_configuration_cmd w)
          else if is_reset_device_cmd h sp then snd (tweak_reset_device_cmd k w)
          else w)"

section \<open>Unlinking\<close>

definition stub_enqueue_ret_unlink ::
  "'w kapi \<Rightarrow> stub_device \<Rightarrow> u32 \<Rightarrow> u32 \<Rightarrow> 'w \<Rightarrow> stub_device \<times> 'w" where
  "stub_enqueue_ret_unlink k sdev seqn st w =
     (case kzalloc k 32 w of (ok, w1) \<Rightarrow>
        if \<not> ok then (usbip_event_add VDEV_EVENT_ERROR_MALLOC sdev, w1)
        else (sdev\<lparr>unlink_tx := unlink_tx sdev @ [\<lparr>su_seqnum = ucast seqn, su_status = st\<rparr>]\<rparr>, w1))"

fun update_first :: "('a \<Rightarrow> bool) \<Rightarrow> ('a \<Rightarrow> 'a) \<Rightarrow> 'a list \<Rightarrow> 'a list" where
  "update_first P f [] = []"
| "update_first P f (x # xs) = (if P x then f x # xs else x # update_first P f xs)"

definition stub_recv_cmd_unlink ::
  "endian \<Rightarrow> 'w kapi \<Rightarrow> stub_device \<Rightarrow> usbip_header \<Rightarrow> 'w \<Rightarrow> stub_device \<times> 'w" where
  "stub_recv_cmd_unlink h k sdev pdu w =
     (let target = ucast (cu_seqnum (get_cmd_unlink h pdu));
          hit = (\<lambda>p. sp_seqnum p = target)
      in case List.find hit (priv_init sdev) of
           None \<Rightarrow> stub_enqueue_ret_unlink k sdev (seqnum (base pdu)) 0 w
         | Some p \<Rightarrow>
             if sp_urb p = None then (sdev\<lparr>sd_oops := True\<rparr>, w)
             else
               (sdev\<lparr>priv_init :=
                  update_first hit
                    (\<lambda>q. q\<lparr>sp_unlinking := True, sp_seqnum := ucast (seqnum (base pdu))\<rparr>)
                    (priv_init sdev)\<rparr>,
                snd (usb_unlink_urb k (sp_id p) w)))"

section \<open>Submitting\<close>

definition valid_request :: "stub_device \<Rightarrow> usbip_header \<Rightarrow> bool" where
  "valid_request sdev pdu \<longleftrightarrow> devid (base pdu) = sd_devid sdev \<and> ud_status sdev = SDEV_ST_USED"

definition stub_priv_alloc ::
  "'w kapi \<Rightarrow> stub_device \<Rightarrow> usbip_header \<Rightarrow> 'w \<Rightarrow> addr option \<times> stub_device \<times> 'w" where
  "stub_priv_alloc k sdev pdu w =
     (case kzalloc k 56 w of (ok, w1) \<Rightarrow>
        if \<not> ok then (None, usbip_event_add SDEV_EVENT_ERROR_MALLOC sdev, w1)
        else
          (Some (sd_next sdev),
           sdev\<lparr>priv_init := priv_init sdev @
                  [\<lparr>sp_id = sd_next sdev, sp_seqnum = ucast (seqnum (base pdu)), sp_urb = None,
                    sp_unlinking = False\<rparr>],
                sd_next := Suc (sd_next sdev)\<rparr>, w1))"

definition ep_at :: "usb_host_endpoint option list \<Rightarrow> u32 \<Rightarrow> usb_host_endpoint option" where
  "ep_at eps i = (if unat i < length eps then eps ! unat i else None)"

text \<open>\<open>None\<close> is the \<open>BUG()\<close> for a missing endpoint, or an index outside the array of sixteen.\<close>

definition get_pipe :: "usb_device \<Rightarrow> u32 \<Rightarrow> u32 \<Rightarrow> pipe option" where
  "get_pipe udev epnum dir =
     (case ep_at (if dir = USBIP_DIR_IN then ep_in udev else ep_out udev) (epnum AND 0x7f) of
        None \<Rightarrow> None
      | Some e \<Rightarrow>
          (let ty = usb_endpoint_type e;
               pt = (if ty = USB_ENDPOINT_XFER_CONTROL then PIPE_CONTROL
                     else if ty = USB_ENDPOINT_XFER_BULK then PIPE_BULK
                     else if ty = USB_ENDPOINT_XFER_INT then PIPE_INTERRUPT
                     else PIPE_ISOCHRONOUS)
           in Some (if dir = USBIP_DIR_OUT then usb_sndpipe pt (devnum udev) epnum
                    else usb_rcvpipe pt (devnum udev) epnum)))"

definition allowed_flags :: "u8 \<Rightarrow> bool \<Rightarrow> u32" where
  "allowed_flags xfertype is_out =
     (let a0 = URB_NO_TRANSFER_DMA_MAP OR URB_NO_INTERRUPT OR URB_DIR_MASK OR URB_FREE_BUFFER in
      if xfertype = USB_ENDPOINT_XFER_ISOC then a0 OR URB_ISO_ASAP
      else
        (let a1 = (if xfertype = USB_ENDPOINT_XFER_BULK \<and> is_out then a0 OR URB_ZERO_PACKET else a0);
             a2 = (if xfertype = USB_ENDPOINT_XFER_BULK \<or> xfertype = USB_ENDPOINT_XFER_CONTROL
                   then a1 OR URB_NO_FSBR else a1)
         in if \<not> is_out then a2 OR URB_SHORT_NOT_OK else a2))"

definition masking_bogus_flags :: "endian \<Rightarrow> usb_device \<Rightarrow> urb \<Rightarrow> urb" where
  "masking_bogus_flags h dev u =
     (if \<not> authenticated dev then u
      else
        (case ep_at (if usb_pipein (u_pipe u) then ep_in dev else ep_out dev)
                (usb_pipeendpoint (u_pipe u)) of
           None \<Rightarrow> u
         | Some e \<Rightarrow>
             (let xfertype = usb_endpoint_type e in
              if xfertype = USB_ENDPOINT_XFER_CONTROL then
                (case setup_packet u of
                   None \<Rightarrow> u
                 | Some sp \<Rightarrow>
                     (let is_out = (\<not> bit (bRequestType (get_ctrl h sp)) 7 \<or> wLength (get_ctrl h sp) = 0)
                      in u\<lparr>u_transfer_flags := u_transfer_flags u AND allowed_flags xfertype is_out\<rparr>))
              else
                u\<lparr>u_transfer_flags :=
                    u_transfer_flags u AND allowed_flags xfertype (usb_endpoint_dir_out e)\<rparr>)))"

text \<open>The transfer buffer of a new urb: the caller's data, or a cleared allocation.\<close>

definition stub_alloc_buffer ::
  "'w kapi \<Rightarrow> usbip_header_cmd_submit \<Rightarrow> byte list option \<Rightarrow> urb \<Rightarrow> 'w \<Rightarrow> bool \<times> urb \<times> 'w" where
  "stub_alloc_buffer k cs data u w =
     (let len = cs_transfer_buffer_length cs in
      if sint len > 0 then
        (case data of
           Some d \<Rightarrow> (True, u\<lparr>transfer_buffer := Some d\<rparr>, w)
         | None \<Rightarrow>
             (case kzalloc k (scast len) w of (ok, w1) \<Rightarrow>
                if ok then (True, u\<lparr>transfer_buffer := Some (replicate (nat (sint len)) 0)\<rparr>, w1)
                else (False, u, w1)))
      else (True, u, w))"

text \<open>Receiving the data and the isochronous descriptors of a request, unless they were passed in.\<close>

definition stub_recv_data ::
  "endian \<Rightarrow> 'w kapi \<Rightarrow> stub_device \<Rightarrow> urb \<Rightarrow> byte list option \<Rightarrow> 'w \<Rightarrow>
   bool \<times> stub_device \<times> urb \<times> 'w" where
  "stub_recv_data h k sdev u data w =
     (if data \<noteq> None then (True, sdev, u, w)
      else
        (case usbip_recv_xbuff k sdev u w of (r1, sdev1, u1, w1) \<Rightarrow>
           if r1 < 0 then (False, sdev1, u1, w1)
           else
             (case usbip_recv_iso h k sdev1 u1 w1 of (r2, sdev2, u2, w2) \<Rightarrow>
                (\<not> r2 < 0, sdev2, u2, w2))))"

definition stub_build_urb ::
  "endian \<Rightarrow> 'w kapi \<Rightarrow> stub_device \<Rightarrow> usbip_header \<Rightarrow> byte list option \<Rightarrow> 'w \<Rightarrow>
   (addr \<times> urb) option \<times> stub_device \<times> 'w" where
  "stub_build_urb h k sdev pdu data w =
     (case get_pipe (sd_udev sdev) (ep (base pdu)) (direction (base pdu)) of
        None \<Rightarrow> (None, sdev\<lparr>sd_oops := True\<rparr>, w)
      | Some pipe \<Rightarrow>
     (case stub_priv_alloc k sdev pdu w of
        (None, sdev1, w1) \<Rightarrow> (None, sdev1, w1)
      | (Some pid, sdev1, w1) \<Rightarrow>
     (let cs = get_cmd_submit h pdu;
          np = (if usb_pipeisoc pipe then cs_number_of_packets cs else 0)
      in case usb_alloc_urb k np w1 of (ok2, w2) \<Rightarrow>
         if \<not> ok2 then (None, usbip_event_add SDEV_EVENT_ERROR_MALLOC sdev1, w2)
         else
     (case stub_alloc_buffer k cs data (new_urb (nat (sint np))) w2 of (ok3, u1, w3) \<Rightarrow>
         if \<not> ok3
         then (None, usbip_event_add SDEV_EVENT_ERROR_MALLOC (put_urb pid u1 sdev1), w3)
         else
     (case kzalloc k 8 w3 of (ok4, w4) \<Rightarrow>
         if \<not> ok4
         then (None, usbip_event_add SDEV_EVENT_ERROR_MALLOC (put_urb pid u1 sdev1), w4)
         else
     (let u2 = snd (usbip_pack_pdu h pdu (u1\<lparr>setup_packet := Some (cs_setup cs), u_pipe := pipe\<rparr>)
                      USBIP_CMD_SUBMIT False)
      in case stub_recv_data h k sdev1 u2 data w4 of (ok5, sdev2, u3, w5) \<Rightarrow>
         if \<not> ok5 then (None, put_urb pid u3 sdev2, w5)
         else
           (let w6 = tweak_special_requests h k (sd_udev sdev2) u3 w5;
                u4 = masking_bogus_flags h (sd_udev sdev2) u3
            in (Some (pid, u4), put_urb pid u4 sdev2, w6))))))))"

definition stub_submit_urb ::
  "'w kapi \<Rightarrow> stub_device \<Rightarrow> addr \<Rightarrow> urb \<Rightarrow> 'w \<Rightarrow> s32 \<times> stub_device \<times> 'w" where
  "stub_submit_urb k sdev pid u w =
     (case usb_submit_urb k pid u w of (ret, w1) \<Rightarrow>
        if ret = 0 then (ret, sdev\<lparr>sd_flight := pid # sd_flight sdev\<rparr>, w1)
        else (ret, usbip_event_add SDEV_EVENT_ERROR_SUBMIT sdev, w1))"

definition stub_recv_cmd_submit ::
  "endian \<Rightarrow> 'w kapi \<Rightarrow> stub_device \<Rightarrow> usbip_header \<Rightarrow> 'w \<Rightarrow> stub_device \<times> 'w" where
  "stub_recv_cmd_submit h k sdev pdu w =
     (case stub_build_urb h k sdev pdu None w of
        (None, sdev1, w1) \<Rightarrow> (sdev1, w1)
      | (Some (pid, u), sdev1, w1) \<Rightarrow>
          (case usbip_filter_on_rx k sdev1 pdu u w1 of (ret, u', w2) \<Rightarrow>
             let sdev2 = put_urb pid u' sdev1 in
             if ret \<noteq> 0 then (sdev2, w2)
             else snd (stub_submit_urb k sdev2 pid u' w2)))"

definition stub_rx_pdu :: "endian \<Rightarrow> 'w kapi \<Rightarrow> stub_device \<Rightarrow> 'w \<Rightarrow> stub_device \<times> 'w" where
  "stub_rx_pdu h k sdev w =
     (case usbip_recv k (tcp_socket sdev) True (int sizeof_header) w of (ret, d, w1) \<Rightarrow>
        if ret \<noteq> int sizeof_header then (usbip_event_add SDEV_EVENT_ERROR_TCP sdev, w1)
        else
          (let pdu = usbip_header_correct_endian h
                       (ld_header h (overwrite 0 d (replicate sizeof_header 0))) False
           in if \<not> valid_request sdev pdu then (usbip_event_add SDEV_EVENT_ERROR_TCP sdev, w1)
              else if command (base pdu) = USBIP_CMD_UNLINK then stub_recv_cmd_unlink h k sdev pdu w1
              else if command (base pdu) = USBIP_CMD_SUBMIT then stub_recv_cmd_submit h k sdev pdu w1
              else (usbip_event_add SDEV_EVENT_ERROR_TCP sdev, w1)))"

text \<open>The receiving thread, asked to stop after at most \<open>n\<close> rounds.\<close>

fun stub_rx_loop :: "endian \<Rightarrow> 'w kapi \<Rightarrow> nat \<Rightarrow> stub_device \<Rightarrow> 'w \<Rightarrow> stub_device \<times> 'w" where
  "stub_rx_loop h k 0 sdev w = (sdev, w)"
| "stub_rx_loop h k (Suc n) sdev w =
     (if usbip_event_happened sdev then (sdev, w)
      else (case stub_rx_pdu h k sdev w of (sdev', w') \<Rightarrow> stub_rx_loop h k n sdev' w'))"

section \<open>Completion\<close>

text \<open>\<open>list_del\<close> and freeing of one request; it is linked in \<open>priv_init\<close> or \<open>priv_free\<close> when the
  callers do this.\<close>

definition stub_free_priv_and_urb :: "addr \<Rightarrow> stub_device \<Rightarrow> stub_device" where
  "stub_free_priv_and_urb pid sdev =
     sdev\<lparr>priv_init := filter (\<lambda>p. sp_id p \<noteq> pid) (priv_init sdev),
          priv_tx := filter (\<lambda>p. sp_id p \<noteq> pid) (priv_tx sdev),
          priv_free := filter (\<lambda>p. sp_id p \<noteq> pid) (priv_free sdev)\<rparr>"

text \<open>The completion handler, called by the USB core with the urb as the hardware left it. A request
  no longer linked anywhere has been freed; touching it then is an error of the kernel.\<close>

definition stub_complete ::
  "'w kapi \<Rightarrow> stub_device \<Rightarrow> addr \<Rightarrow> urb \<Rightarrow> 'w \<Rightarrow> stub_device \<times> 'w" where
  "stub_complete k sdev0 pid u w =
     (let sdev = sdev0\<lparr>sd_flight := remove1 pid (sd_flight sdev0)\<rparr> in
      case usbip_filter_on_tx k sdev u w of (ret, u', w1) \<Rightarrow>
        if u_status u' = - ENOENT then (put_urb pid u' sdev, w1)
        else if ret \<noteq> 0 then (put_urb pid u' sdev, w1)
        else
          (case unlink_first (\<lambda>p. sp_id p = pid) (priv_init sdev) of
             (None, _) \<Rightarrow> (sdev\<lparr>sd_oops := True\<rparr>, w1)
           | (Some p, rest) \<Rightarrow>
               if sp_unlinking p then
                 (case stub_enqueue_ret_unlink k sdev (ucast (sp_seqnum p)) (u_status u') w1 of
                    (sdev1, w2) \<Rightarrow> (stub_free_priv_and_urb pid sdev1, w2))
               else
                 (sdev\<lparr>priv_init := rest,
                       priv_tx := priv_tx sdev @ [p\<lparr>sp_urb := Some u'\<rparr>]\<rparr>, w1)))"

end
