(* ===== verification/StubTx.thy ===== *)
theory StubTx
  imports Stub
begin

text \<open>
  The sending side of the stub driver (\<^verbatim>\<open>stub_tx.c\<close>): results of completed requests leave from
  \<open>priv_tx\<close>, answers to unlink requests from \<open>unlink_tx\<close>, each queue in order.
\<close>

section \<open>Packets\<close>

definition setup_base_pdu :: "u32 \<Rightarrow> u32 \<Rightarrow> usbip_header_basic" where
  "setup_base_pdu cmd seqn = \<lparr>command = cmd, seqnum = seqn, devid = 0, direction = 0, ep = 0\<rparr>"

definition setup_ret_submit_pdu :: "endian \<Rightarrow> usbip_header \<Rightarrow> u64 \<Rightarrow> urb \<Rightarrow> usbip_header" where
  "setup_ret_submit_pdu h rpdu seqn u =
     fst (usbip_pack_pdu h (rpdu\<lparr>base := setup_base_pdu USBIP_RET_SUBMIT (ucast seqn)\<rparr>) u
            USBIP_RET_SUBMIT True)"

definition setup_ret_unlink_pdu :: "endian \<Rightarrow> usbip_header \<Rightarrow> stub_unlink \<Rightarrow> usbip_header" where
  "setup_ret_unlink_pdu h rpdu ul =
     put_ret_unlink h \<lparr>ru_status = su_status ul\<rparr>
       (rpdu\<lparr>base := setup_base_pdu USBIP_RET_UNLINK (ucast (su_seqnum ul))\<rparr>)"

section \<open>Queues\<close>

definition dequeue_from_priv_tx :: "stub_device \<Rightarrow> stub_priv option \<times> stub_device" where
  "dequeue_from_priv_tx sdev =
     (case priv_tx sdev of
        [] \<Rightarrow> (None, sdev)
      | p # ps \<Rightarrow> (Some p, sdev\<lparr>priv_tx := ps, priv_free := priv_free sdev @ [p]\<rparr>))"

definition dequeue_from_unlink_tx :: "stub_device \<Rightarrow> stub_unlink option \<times> stub_device" where
  "dequeue_from_unlink_tx sdev =
     (case unlink_tx sdev of
        [] \<Rightarrow> (None, sdev)
      | x # xs \<Rightarrow> (Some x, sdev\<lparr>unlink_tx := xs, unlink_free := unlink_free sdev @ [x]\<rparr>))"

section \<open>Results of requests\<close>

text \<open>The data of an isochronous urb without the padding between its packets, the sum of their lengths as
  added to \<open>txsize\<close>, and whether every descriptor and every packet is inside its object.\<close>

definition gather_iso :: "urb \<Rightarrow> byte list \<times> u64 \<times> bool" where
  "gather_iso u =
     (concat (map (\<lambda>d. buf_read (unat (ui_offset d)) (unat (ui_actual_length d)) (transfer_buffer u))
        (iso_packets u)),
      sum_list (map (\<lambda>d. ucast (ui_actual_length d)) (iso_packets u)),
      iso_np u \<le> length (iso_frame_desc u) \<and>
      list_all (\<lambda>d. buf_ok (unat (ui_offset d)) (unat (ui_actual_length d)) (transfer_buffer u))
        (iso_packets u))"

text \<open>Step 2 of the loop body: the data sent after the header, its size, and whether the accesses are
  inside the buffer.\<close>

definition ret_submit_data :: "urb \<Rightarrow> byte list \<times> u64 \<times> bool" where
  "ret_submit_data u =
     (if usb_pipein (u_pipe u) \<and> usb_pipetype (u_pipe u) \<noteq> PIPE_ISOCHRONOUS \<and> actual_length u > 0
      then (buf_read 0 (unat (actual_length u)) (transfer_buffer u), ucast (actual_length u),
            buf_ok 0 (unat (actual_length u)) (transfer_buffer u))
      else if usb_pipein (u_pipe u) \<and> usb_pipetype (u_pipe u) = PIPE_ISOCHRONOUS then gather_iso u
      else ([], 0, True))"

text \<open>One round of the sending loop for the request \<open>p\<close>: whether it succeeded and the bytes sent.\<close>

definition send_one_ret_submit ::
  "endian \<Rightarrow> 'w kapi \<Rightarrow> stub_device \<Rightarrow> stub_priv \<Rightarrow> 'w \<Rightarrow> bool \<times> u64 \<times> stub_device \<times> 'w" where
  "send_one_ret_submit h k sdev p w =
     (case sp_urb p of
        None \<Rightarrow> (False, 0, sdev\<lparr>sd_oops := True\<rparr>, w)
      | Some u \<Rightarrow>
     (let isoc = (usb_pipetype (u_pipe u) = PIPE_ISOCHRONOUS);
          iovnum = (if isoc then 2 + number_of_packets u else 2)
      in case kzalloc k (scast iovnum * 16) w of (ok1, w1) \<Rightarrow>
         if \<not> ok1 then (False, 0, usbip_event_add SDEV_EVENT_ERROR_MALLOC sdev, w1)
         else
     (let hdr = mem_header h (usbip_header_correct_endian h
                  (setup_ret_submit_pdu h zero_header (sp_seqnum p) u) True)
      in case ret_submit_data u of (data, dlen, inside) \<Rightarrow>
     (let sdev1 = (if inside then sdev else sdev\<lparr>sd_oops := True\<rparr>);
          txsize = of_nat sizeof_header + dlen
      in if usb_pipein (u_pipe u) \<and> isoc \<and> txsize \<noteq> of_nat sizeof_header + ucast (actual_length u)
         then (False, 0, usbip_event_add SDEV_EVENT_ERROR_TCP sdev1, w1)
         else
     (case (if isoc then usbip_alloc_iso_desc_pdu h k u w1 else (Some [], 0, u, w1)) of
        (None, _, _, w2) \<Rightarrow> (False, 0, usbip_event_add SDEV_EVENT_ERROR_MALLOC sdev1, w2)
      | (Some isobuf, isolen, u', w2) \<Rightarrow>
     (let sdev2 = (if u_fault u' \<and> \<not> u_fault u then sdev1\<lparr>sd_oops := True\<rparr> else sdev1);
          txsize2 = txsize + isolen
      in case tcp_socket sdev2 of
           None \<Rightarrow> (False, 0, sdev2\<lparr>sd_oops := True\<rparr>, w2)
         | Some s \<Rightarrow>
             (case kernel_sendmsg k s (hdr @ data @ isobuf) w2 of (ret, w3) \<Rightarrow>
                if ret \<noteq> uint txsize2
                then (False, 0, usbip_event_add SDEV_EVENT_ERROR_TCP sdev2, w3)
                else (True, txsize2, sdev2, w3))))))))"

text \<open>What sending can change of the device: its pending events and the error mark.\<close>

lemma send_one_frame:
  assumes "send_one_ret_submit h k sdev p w = (ok, n, sdev', w')"
  shows "sdev' = sdev\<lparr>ud_event := ud_event sdev', sd_oops := sd_oops sdev'\<rparr>"
  using assms unfolding send_one_ret_submit_def Let_def
  by (auto split: option.splits prod.splits if_splits simp: usbip_event_add_def)

lemma send_one_priv_tx:
  "send_one_ret_submit h k sdev p w = (ok, n, sdev', w') \<Longrightarrow> priv_tx sdev' = priv_tx sdev"
  by (drule send_one_frame, drule arg_cong [where f = priv_tx]) simp

function send_ret_submit_loop ::
  "endian \<Rightarrow> 'w kapi \<Rightarrow> u64 \<Rightarrow> stub_device \<Rightarrow> 'w \<Rightarrow> u64 option \<times> stub_device \<times> 'w" where
  "send_ret_submit_loop h k tot sdev w =
     (case dequeue_from_priv_tx sdev of
        (None, _) \<Rightarrow> (Some tot, sdev, w)
      | (Some p, sdev1) \<Rightarrow>
          (case send_one_ret_submit h k sdev1 p w of (ok, n, sdev2, w2) \<Rightarrow>
             if \<not> ok then (None, sdev2, w2)
             else send_ret_submit_loop h k (tot + n) sdev2 w2))"
  by pat_completeness auto

termination
  by (relation "measure (\<lambda>(h, k, tot, sdev, w). length (priv_tx sdev))")
    (auto simp: dequeue_from_priv_tx_def split: list.splits dest!: send_one_priv_tx [OF sym])

declare send_ret_submit_loop.simps [simp del]

definition stub_send_ret_submit ::
  "endian \<Rightarrow> 'w kapi \<Rightarrow> stub_device \<Rightarrow> 'w \<Rightarrow> s32 \<times> stub_device \<times> 'w" where
  "stub_send_ret_submit h k sdev w =
     (case send_ret_submit_loop h k 0 sdev w of
        (None, sdev1, w1) \<Rightarrow> (- 1, sdev1, w1)
      | (Some tot, sdev1, w1) \<Rightarrow>
          (ucast tot,
           fold (\<lambda>p. stub_free_priv_and_urb (sp_id p)) (priv_free sdev1) sdev1, w1))"

section \<open>Answers to unlink requests\<close>

definition send_one_ret_unlink ::
  "endian \<Rightarrow> 'w kapi \<Rightarrow> stub_device \<Rightarrow> stub_unlink \<Rightarrow> 'w \<Rightarrow> bool \<times> u64 \<times> stub_device \<times> 'w" where
  "send_one_ret_unlink h k sdev ul w =
     (let hdr = mem_header h (usbip_header_correct_endian h (setup_ret_unlink_pdu h zero_header ul) True)
      in case tcp_socket sdev of
           None \<Rightarrow> (False, 0, sdev\<lparr>sd_oops := True\<rparr>, w)
         | Some s \<Rightarrow>
             (case kernel_sendmsg k s hdr w of (ret, w1) \<Rightarrow>
                if ret \<noteq> int sizeof_header
                then (False, 0, usbip_event_add SDEV_EVENT_ERROR_TCP sdev, w1)
                else (True, of_nat sizeof_header, sdev, w1)))"

lemma send_one_unlink_frame:
  assumes "send_one_ret_unlink h k sdev ul w = (ok, n, sdev', w')"
  shows "sdev' = sdev\<lparr>ud_event := ud_event sdev', sd_oops := sd_oops sdev'\<rparr>"
  using assms unfolding send_one_ret_unlink_def Let_def
  by (auto split: option.splits prod.splits if_splits simp: usbip_event_add_def)

lemma send_one_unlink_tx:
  "send_one_ret_unlink h k sdev ul w = (ok, n, sdev', w') \<Longrightarrow> unlink_tx sdev' = unlink_tx sdev"
  by (drule send_one_unlink_frame, drule arg_cong [where f = unlink_tx]) simp

function send_ret_unlink_loop ::
  "endian \<Rightarrow> 'w kapi \<Rightarrow> u64 \<Rightarrow> stub_device \<Rightarrow> 'w \<Rightarrow> u64 option \<times> stub_device \<times> 'w" where
  "send_ret_unlink_loop h k tot sdev w =
     (case dequeue_from_unlink_tx sdev of
        (None, _) \<Rightarrow> (Some tot, sdev, w)
      | (Some ul, sdev1) \<Rightarrow>
          (case send_one_ret_unlink h k sdev1 ul w of (ok, n, sdev2, w2) \<Rightarrow>
             if \<not> ok then (None, sdev2, w2)
             else send_ret_unlink_loop h k (tot + n) sdev2 w2))"
  by pat_completeness auto

termination
  by (relation "measure (\<lambda>(h, k, tot, sdev, w). length (unlink_tx sdev))")
    (auto simp: dequeue_from_unlink_tx_def split: list.splits dest!: send_one_unlink_tx [OF sym])

declare send_ret_unlink_loop.simps [simp del]

definition stub_send_ret_unlink ::
  "endian \<Rightarrow> 'w kapi \<Rightarrow> stub_device \<Rightarrow> 'w \<Rightarrow> s32 \<times> stub_device \<times> 'w" where
  "stub_send_ret_unlink h k sdev w =
     (case send_ret_unlink_loop h k 0 sdev w of
        (None, sdev1, w1) \<Rightarrow> (- 1, sdev1, w1)
      | (Some tot, sdev1, w1) \<Rightarrow> (ucast tot, sdev1\<lparr>unlink_free := []\<rparr>, w1))"

text \<open>The sending thread, asked to stop after at most \<open>n\<close> rounds; results go before answers to
  unlink requests.\<close>

fun stub_tx_loop :: "endian \<Rightarrow> 'w kapi \<Rightarrow> nat \<Rightarrow> stub_device \<Rightarrow> 'w \<Rightarrow> stub_device \<times> 'w" where
  "stub_tx_loop h k 0 sdev w = (sdev, w)"
| "stub_tx_loop h k (Suc n) sdev w =
     (if usbip_event_happened sdev then (sdev, w)
      else
        (case stub_send_ret_submit h k sdev w of (r1, sdev1, w1) \<Rightarrow>
           if s32_neg r1 then (sdev1, w1)
           else
             (case stub_send_ret_unlink h k sdev1 w1 of (r2, sdev2, w2) \<Rightarrow>
                if s32_neg r2 then (sdev2, w2) else stub_tx_loop h k n sdev2 w2)))"

end
