(* ===== verification/BusId.thy ===== *)
theory BusId
  imports Prelude
begin

text \<open>
  The table of bus ids the stub driver may grab (\<^verbatim>\<open>stub_main.c\<close>): sixteen slots, each with a name of
  at most 32 characters and a state. C strings are character arrays with a terminating NUL, and
  \<open>strncmp\<close>, \<open>strncpy\<close> and \<open>strnlen\<close> are written out on them. Lemmas: the names of used slots
  stay distinct, and adding and deleting refine a finite map from names to states.
\<close>

section \<open>C strings\<close>

definition NUL :: char where "NUL = CHR 0x00"

definition cstr :: "string \<Rightarrow> string" where
  "cstr s = takeWhile (\<lambda>c. c \<noteq> NUL) s"

definition strncmp_eq :: "string \<Rightarrow> string \<Rightarrow> nat \<Rightarrow> bool" where
  "strncmp_eq a b n \<longleftrightarrow> take n (cstr a) = take n (cstr b)"

definition strnlen :: "string \<Rightarrow> nat \<Rightarrow> nat" where
  "strnlen s n = length (take n (cstr s))"

text \<open>The \<open>n\<close> characters that \<open>strncpy\<close> stores: the source, then NULs.\<close>

definition strncpy :: "string \<Rightarrow> nat \<Rightarrow> string" where
  "strncpy s n = take n (cstr s) @ replicate (n - length (take n (cstr s))) NUL"

section \<open>The table\<close>

datatype busid_status = STUB_BUSID_OTHER | STUB_BUSID_REMOV | STUB_BUSID_ADDED | STUB_BUSID_ALLOC

definition BUSID_SIZE :: nat where "BUSID_SIZE = 32"
definition MAX_BUSID :: nat where "MAX_BUSID = 16"

record bus_id_priv =
  bi_name :: string
  bi_status :: busid_status
  bi_interf_count :: int
  bi_sdev :: "addr option"
  bi_shutdown_busid :: bool

definition zero_busid :: bus_id_priv where
  "zero_busid = \<lparr>bi_name = replicate BUSID_SIZE NUL, bi_status = STUB_BUSID_OTHER,
     bi_interf_count = 0, bi_sdev = None, bi_shutdown_busid = False\<rparr>"

definition init_busid_table :: "bus_id_priv list" where
  "init_busid_table = replicate MAX_BUSID zero_busid"

definition slot_used :: "bus_id_priv \<Rightarrow> bool" where
  "slot_used e \<longleftrightarrow> cstr (bi_name e) \<noteq> []"

fun find_idx :: "('a \<Rightarrow> bool) \<Rightarrow> nat \<Rightarrow> 'a list \<Rightarrow> nat option" where
  "find_idx P i [] = None"
| "find_idx P i (x # xs) = (if P x then Some i else find_idx P (Suc i) xs)"

text \<open>\<open>None\<close> stands for the index \<open>-1\<close>.\<close>

definition get_busid_idx :: "string \<Rightarrow> bus_id_priv list \<Rightarrow> nat option" where
  "get_busid_idx busid tb =
     find_idx (\<lambda>e. slot_used e \<and> strncmp_eq (bi_name e) busid BUSID_SIZE) 0 tb"

definition get_busid_priv :: "string \<Rightarrow> bus_id_priv list \<Rightarrow> bus_id_priv option" where
  "get_busid_priv busid tb = map_option (\<lambda>i. tb ! i) (get_busid_idx busid tb)"

definition add_match_busid :: "string \<Rightarrow> bus_id_priv list \<Rightarrow> int \<times> bus_id_priv list" where
  "add_match_busid busid tb =
     (if get_busid_idx busid tb \<noteq> None then (0, tb)
      else
        (case find_idx (\<lambda>e. \<not> slot_used e) 0 tb of
           None \<Rightarrow> (- 1, tb)
         | Some i \<Rightarrow>
             (let e = tb ! i;
                  e1 = e\<lparr>bi_name := strncpy busid BUSID_SIZE\<rparr>;
                  e2 = (if bi_status e \<noteq> STUB_BUSID_ALLOC \<and> bi_status e \<noteq> STUB_BUSID_REMOV
                        then e1\<lparr>bi_status := STUB_BUSID_ADDED\<rparr> else e1)
              in (0, tb[i := e2]))))"

definition del_match_busid :: "string \<Rightarrow> bus_id_priv list \<Rightarrow> int \<times> bus_id_priv list" where
  "del_match_busid busid tb =
     (case get_busid_idx busid tb of
        None \<Rightarrow> (- 1, tb)
      | Some i \<Rightarrow>
          (let e = tb ! i;
               e1 = (if bi_status e = STUB_BUSID_OTHER
                     then e\<lparr>bi_name := replicate BUSID_SIZE NUL\<rparr> else e);
               e2 = (if bi_status e1 \<noteq> STUB_BUSID_OTHER \<and> bi_status e1 \<noteq> STUB_BUSID_ADDED
                     then e1\<lparr>bi_status := STUB_BUSID_REMOV\<rparr> else e1)
           in (0, tb[i := e2])))"

text \<open>The text shown, of which the function returns the length.\<close>

definition show_match_busid :: "bus_id_priv list \<Rightarrow> string" where
  "show_match_busid tb =
     concat (map (\<lambda>e. if slot_used e then cstr (bi_name e) @ '' '' else []) tb) @ [CHR 0x0A]"

definition store_match_busid :: "string \<Rightarrow> int \<Rightarrow> bus_id_priv list \<Rightarrow> int \<times> bus_id_priv list" where
  "store_match_busid buf count tb =
     (if count < 5 then (- sint EINVAL, tb)
      else
        (let len = strnlen (drop 4 buf) BUSID_SIZE in
         if \<not> len < BUSID_SIZE then (- sint EINVAL, tb)
         else
           (let busid = strncpy (drop 4 buf) BUSID_SIZE in
            if strncmp_eq buf ''add '' 4 then
              (case add_match_busid busid tb of (r, tb') \<Rightarrow>
                 if r < 0 then (- sint ENOMEM, tb') else (count, tb'))
            else if strncmp_eq buf ''del '' 4 then
              (case del_match_busid busid tb of (r, tb') \<Rightarrow>
                 if r < 0 then (- sint ENODEV, tb') else (count, tb'))
            else (- sint EINVAL, tb))))"

section \<open>Lemmas on strings\<close>

text \<open>The part of a C string that a slot can hold.\<close>

definition busid_key :: "string \<Rightarrow> string" where
  "busid_key s = take BUSID_SIZE (cstr s)"

lemma NUL_not_in_cstr [simp]: "NUL \<notin> set (cstr s)"
  by (auto simp: cstr_def dest: set_takeWhileD)

lemma cstr_no_NUL: "NUL \<notin> set s \<Longrightarrow> cstr s = s"
  by (auto simp: cstr_def takeWhile_eq_all_conv)

lemma cstr_append_NULs: "NUL \<notin> set s \<Longrightarrow> cstr (s @ replicate n NUL) = s"
  by (induction s) (auto simp: cstr_def)

lemma cstr_strncpy [simp]: "cstr (strncpy s n) = take n (cstr s)"
  unfolding strncpy_def by (rule cstr_append_NULs) (meson NUL_not_in_cstr in_set_takeD)

lemma length_strncpy [simp]: "length (strncpy s n) = n"
  by (simp add: strncpy_def min_def)

lemma busid_key_strncpy [simp]: "busid_key (strncpy s BUSID_SIZE) = busid_key s"
  by (simp add: busid_key_def)

lemma cstr_NULs [simp]: "cstr (replicate n NUL) = []"
  using cstr_append_NULs [of "[]" n] by simp

section \<open>Lemmas on slots\<close>

lemma find_idx_Some:
  "find_idx P k xs = Some i \<Longrightarrow> k \<le> i \<and> i - k < length xs \<and> P (xs ! (i - k)) \<and>
     (\<forall>j < i - k. \<not> P (xs ! j))"
proof (induction P k xs rule: find_idx.induct)
  case (2 P k x xs)
  show ?case
  proof (cases "P x")
    case False
    with 2 have IH: "Suc k \<le> i" "i - Suc k < length xs" "P (xs ! (i - Suc k))"
      "\<forall>j < i - Suc k. \<not> P (xs ! j)" by auto
    then have e: "i - k = Suc (i - Suc k)" by simp
    with IH False show ?thesis by (auto simp: nth_Cons split: nat.split)
  qed (use 2 in auto)
qed simp

lemma find_idx_None: "find_idx P k xs = None \<longleftrightarrow> (\<forall>x\<in>set xs. \<not> P x)"
  by (induction P k xs rule: find_idx.induct) auto

lemma find_idx_unique:
  assumes "i < length xs" and "P (xs ! i)" and "\<forall>j < length xs. P (xs ! j) \<longrightarrow> j = i"
  shows "find_idx P 0 xs = Some i"
proof (cases "find_idx P 0 xs")
  case None
  with assms(1,2) show ?thesis by (auto simp: find_idx_None)
next
  case (Some j)
  with find_idx_Some [OF Some] assms(3) show ?thesis by auto
qed

section \<open>The invariant and the abstraction\<close>

text \<open>Sixteen slots, names in their arrays, no two used slots with the same name, and a free slot
  carries no state.\<close>

definition busid_inv :: "bus_id_priv list \<Rightarrow> bool" where
  "busid_inv tb \<longleftrightarrow>
     length tb = MAX_BUSID \<and>
     (\<forall>e\<in>set tb. length (bi_name e) = BUSID_SIZE) \<and>
     (\<forall>e\<in>set tb. \<not> slot_used e \<longrightarrow> bi_status e = STUB_BUSID_OTHER) \<and>
     (\<forall>i < length tb. \<forall>j < length tb. slot_used (tb ! i) \<longrightarrow>
        cstr (bi_name (tb ! i)) = cstr (bi_name (tb ! j)) \<longrightarrow> i = j)"

text \<open>The state recorded for a name.\<close>

definition busid_lookup :: "bus_id_priv list \<Rightarrow> string \<Rightarrow> busid_status option" where
  "busid_lookup tb s = map_option bi_status (get_busid_priv s tb)"

definition busid_full :: "bus_id_priv list \<Rightarrow> bool" where
  "busid_full tb \<longleftrightarrow> (\<forall>e\<in>set tb. slot_used e)"

lemma strncmp_slot:
  "length (bi_name e) = BUSID_SIZE \<Longrightarrow>
   strncmp_eq (bi_name e) s BUSID_SIZE \<longleftrightarrow> cstr (bi_name e) = busid_key s"
proof -
  assume "length (bi_name e) = BUSID_SIZE"
  then have "length (cstr (bi_name e)) \<le> BUSID_SIZE"
    unfolding cstr_def by (metis length_takeWhile_le)
  then show ?thesis by (simp add: strncmp_eq_def busid_key_def)
qed

lemma idx_Some_iff:
  assumes "busid_inv tb"
  shows "get_busid_idx s tb = Some i \<longleftrightarrow>
    i < length tb \<and> slot_used (tb ! i) \<and> cstr (bi_name (tb ! i)) = busid_key s"
proof
  assume "get_busid_idx s tb = Some i"
  then have "i < length tb \<and> slot_used (tb ! i) \<and> strncmp_eq (bi_name (tb ! i)) s BUSID_SIZE"
    unfolding get_busid_idx_def by (auto dest: find_idx_Some)
  with assms show "i < length tb \<and> slot_used (tb ! i) \<and> cstr (bi_name (tb ! i)) = busid_key s"
    by (auto simp: busid_inv_def strncmp_slot)
next
  assume i: "i < length tb \<and> slot_used (tb ! i) \<and> cstr (bi_name (tb ! i)) = busid_key s"
  show "get_busid_idx s tb = Some i"
    unfolding get_busid_idx_def
  proof (rule find_idx_unique)
    show "\<forall>j < length tb. slot_used (tb ! j) \<and> strncmp_eq (bi_name (tb ! j)) s BUSID_SIZE \<longrightarrow> j = i"
      using i assms by (auto simp: busid_inv_def strncmp_slot)
  qed (use i assms in \<open>auto simp: busid_inv_def strncmp_slot\<close>)
qed

lemma idx_None_iff:
  assumes "busid_inv tb"
  shows "get_busid_idx s tb = None \<longleftrightarrow>
    (\<forall>i < length tb. slot_used (tb ! i) \<longrightarrow> cstr (bi_name (tb ! i)) \<noteq> busid_key s)"
  using idx_Some_iff [OF assms, of s] by (metis not_None_eq)

lemma lookup_Some_iff:
  assumes "busid_inv tb"
  shows "busid_lookup tb s = Some st \<longleftrightarrow>
    (\<exists>i < length tb. slot_used (tb ! i) \<and> cstr (bi_name (tb ! i)) = busid_key s \<and> bi_status (tb ! i) = st)"
  using idx_Some_iff [OF assms, of s]
  by (auto simp: busid_lookup_def get_busid_priv_def)

lemma lookup_ext:
  assumes "busid_inv tb" "busid_inv tb'"
    and "\<And>st. busid_lookup tb' s = Some st \<longleftrightarrow> r = Some st"
  shows "busid_lookup tb' s = r"
  using assms(3) by (metis option.exhaust)

lemma free_idx_Some:
  assumes "find_idx (\<lambda>e. \<not> slot_used e) 0 tb = Some i"
  shows "i < length tb" and "\<not> slot_used (tb ! i)"
  using find_idx_Some [OF assms] by auto

lemma free_idx_None: "find_idx (\<lambda>e. \<not> slot_used e) 0 tb = None \<longleftrightarrow> busid_full tb"
  by (simp add: find_idx_None busid_full_def)

lemma inv_init: "busid_inv init_busid_table"
  by (auto simp: busid_inv_def init_busid_table_def zero_busid_def slot_used_def)

text \<open>Replacing one slot keeps the invariant when its new name is free or its own.\<close>

lemma inv_update:
  assumes "busid_inv tb" and "i < length tb" and "length (bi_name e) = BUSID_SIZE"
    and "\<not> slot_used e \<Longrightarrow> bi_status e = STUB_BUSID_OTHER"
    and "\<And>j. j < length tb \<Longrightarrow> j \<noteq> i \<Longrightarrow> slot_used e \<Longrightarrow> slot_used (tb ! j) \<Longrightarrow>
      cstr (bi_name (tb ! j)) \<noteq> cstr (bi_name e)"
  shows "busid_inv (tb[i := e])"
  unfolding busid_inv_def
proof (intro conjI ballI allI impI)
  show "length (tb[i := e]) = MAX_BUSID" using assms(1) by (simp add: busid_inv_def)
next
  fix x assume "x \<in> set (tb[i := e])"
  then have "x = e \<or> x \<in> set tb" using set_update_subset_insert [of tb i e] by blast
  then show "length (bi_name x) = BUSID_SIZE" "\<not> slot_used x \<Longrightarrow> bi_status x = STUB_BUSID_OTHER"
    using assms(1,3,4) by (auto simp: busid_inv_def)
next
  fix a b
  assume ab: "a < length (tb[i := e])" "b < length (tb[i := e])" "slot_used (tb[i := e] ! a)"
    "cstr (bi_name (tb[i := e] ! a)) = cstr (bi_name (tb[i := e] ! b))"
  then have ub: "slot_used (tb[i := e] ! b)" by (simp add: slot_used_def)
  show "a = b"
  proof (cases "a = i \<or> b = i")
    case True
    with ab ub assms(2) assms(5) [of a] assms(5) [of b] show ?thesis
      by (cases "a = i"; cases "b = i") auto
  next
    case False
    with ab have "slot_used (tb ! a)" "cstr (bi_name (tb ! a)) = cstr (bi_name (tb ! b))"
      "a < length tb" "b < length tb" by simp_all
    with assms(1) show ?thesis unfolding busid_inv_def by blast
  qed
qed

text \<open>Looking a name up after replacing one slot.\<close>

lemma lookup_update_other:
  assumes "busid_inv tb" and "busid_inv (tb[i := e])" and "i < length tb"
    and "slot_used (tb ! i) \<Longrightarrow> cstr (bi_name (tb ! i)) \<noteq> busid_key s"
    and "slot_used e \<Longrightarrow> cstr (bi_name e) \<noteq> busid_key s"
  shows "busid_lookup (tb[i := e]) s = busid_lookup tb s"
proof (rule lookup_ext [OF assms(1,2)])
  fix st
  show "busid_lookup (tb[i := e]) s = Some st \<longleftrightarrow> busid_lookup tb s = Some st"
    using assms unfolding lookup_Some_iff [OF assms(1)] lookup_Some_iff [OF assms(2)]
    by (metis length_list_update nth_list_update_eq nth_list_update_neq)
qed

lemma lookup_update_same:
  assumes "busid_inv (tb[i := e])" and "i < length tb" and "slot_used e"
    and "cstr (bi_name e) = busid_key s"
  shows "busid_lookup (tb[i := e]) s = Some (bi_status e)"
  using assms unfolding lookup_Some_iff [OF assms(1)] by (intro exI [of _ i]) simp

lemma add_match_busid_spec:
  assumes inv: "busid_inv tb" and s: "busid_key s \<noteq> []" and r: "add_match_busid s tb = (r, tb')"
  shows "busid_inv tb'"
    and "r = (if busid_lookup tb s = None \<and> busid_full tb then - 1 else 0)"
    and "busid_lookup tb' t =
      (if r = 0 \<and> busid_key t = busid_key s \<and> busid_lookup tb s = None then Some STUB_BUSID_ADDED
       else busid_lookup tb t)"
proof -
  have n: "busid_lookup tb s = None \<longleftrightarrow> get_busid_idx s tb = None"
    by (simp add: busid_lookup_def get_busid_priv_def)
  have "busid_inv tb' \<and> r = (if busid_lookup tb s = None \<and> busid_full tb then - 1 else 0) \<and>
    busid_lookup tb' t =
      (if r = 0 \<and> busid_key t = busid_key s \<and> busid_lookup tb s = None then Some STUB_BUSID_ADDED
       else busid_lookup tb t)"
  proof (cases "get_busid_idx s tb")
    case (Some i)
    with r inv n show ?thesis by (auto simp: add_match_busid_def)
  next
    case None
    show ?thesis
    proof (cases "find_idx (\<lambda>e. \<not> slot_used e) 0 tb")
      case none: None
      with r inv n None show ?thesis by (auto simp: add_match_busid_def free_idx_None)
    next
      case (Some i)
      note fr = free_idx_Some [OF Some]
      let ?e = "(tb ! i)\<lparr>bi_name := strncpy s BUSID_SIZE, bi_status := STUB_BUSID_ADDED\<rparr>"
      have "bi_status (tb ! i) = STUB_BUSID_OTHER" using inv fr by (auto simp: busid_inv_def)
      with r None Some have tb': "r = 0" "tb' = tb[i := ?e]" by (auto simp: add_match_busid_def Let_def)
      have name: "cstr (bi_name ?e) = busid_key s" by (simp add: busid_key_def)
      have used: "slot_used ?e" using s name by (simp add: slot_used_def)
      have inv': "busid_inv tb'" unfolding tb'(2)
      proof (rule inv_update [OF inv fr(1)])
        show "cstr (bi_name (tb ! j)) \<noteq> cstr (bi_name ?e)" if "j < length tb" "slot_used (tb ! j)" for j
          using None that unfolding idx_None_iff [OF inv] name by blast
      qed (simp_all add: used)
      have "\<not> busid_full tb" using Some by (metis free_idx_None option.discI)
      moreover have "busid_lookup tb' t = (if busid_key t = busid_key s then Some STUB_BUSID_ADDED
          else busid_lookup tb t)"
      proof (cases "busid_key t = busid_key s")
        case True
        then show ?thesis
          using lookup_update_same [OF inv' [unfolded tb'(2)] fr(1) used, of t] name tb'(2) by simp
      next
        case False
        then show ?thesis
          using lookup_update_other [OF inv inv' [unfolded tb'(2)] fr(1), of t] fr(2) name tb'(2)
          by simp
      qed
      ultimately show ?thesis using inv' tb'(1) n None by simp
    qed
  qed
  then show "busid_inv tb'"
    and "r = (if busid_lookup tb s = None \<and> busid_full tb then - 1 else 0)"
    and "busid_lookup tb' t =
      (if r = 0 \<and> busid_key t = busid_key s \<and> busid_lookup tb s = None then Some STUB_BUSID_ADDED
       else busid_lookup tb t)" by blast+
qed

text \<open>What deleting does to the state of a name: a name in no particular state goes away, an added one
  stays, a grabbed one is marked for removal.\<close>

primrec del_status :: "busid_status \<Rightarrow> busid_status option" where
  "del_status STUB_BUSID_OTHER = None"
| "del_status STUB_BUSID_ADDED = Some STUB_BUSID_ADDED"
| "del_status STUB_BUSID_REMOV = Some STUB_BUSID_REMOV"
| "del_status STUB_BUSID_ALLOC = Some STUB_BUSID_REMOV"

definition del_slot :: "bus_id_priv \<Rightarrow> bus_id_priv" where
  "del_slot e = (case bi_status e of
     STUB_BUSID_OTHER \<Rightarrow> e\<lparr>bi_name := replicate BUSID_SIZE NUL\<rparr>
   | STUB_BUSID_ADDED \<Rightarrow> e
   | _ \<Rightarrow> e\<lparr>bi_status := STUB_BUSID_REMOV\<rparr>)"

lemma del_slot_props:
  assumes "slot_used e"
  shows "slot_used (del_slot e) \<longleftrightarrow> bi_status e \<noteq> STUB_BUSID_OTHER"
    and "slot_used (del_slot e) \<Longrightarrow> cstr (bi_name (del_slot e)) = cstr (bi_name e)"
    and "slot_used (del_slot e) \<Longrightarrow> del_status (bi_status e) = Some (bi_status (del_slot e))"
    and "\<not> slot_used (del_slot e) \<Longrightarrow> bi_status (del_slot e) = STUB_BUSID_OTHER"
    and "length (bi_name e) = BUSID_SIZE \<Longrightarrow> length (bi_name (del_slot e)) = BUSID_SIZE"
  using assms by (cases "bi_status e"; simp add: del_slot_def slot_used_def)+

lemma del_match_busid_Some:
  "get_busid_idx s tb = Some i \<Longrightarrow> del_match_busid s tb = (0, tb[i := del_slot (tb ! i)])"
  by (cases "bi_status (tb ! i)") (simp_all add: del_match_busid_def del_slot_def Let_def)

lemma del_match_busid_spec:
  assumes inv: "busid_inv tb" and r: "del_match_busid s tb = (r, tb')"
  shows "busid_inv tb' \<and> r = (if busid_lookup tb s = None then - 1 else 0) \<and>
    busid_lookup tb' t =
      (if busid_key t = busid_key s then Option.bind (busid_lookup tb s) del_status
       else busid_lookup tb t)"
proof (cases "get_busid_idx s tb")
  case None
  then have n: "busid_lookup tb s = None" by (simp add: busid_lookup_def get_busid_priv_def)
  moreover have "busid_lookup tb t = None" if "busid_key t = busid_key s"
    using None that idx_None_iff [OF inv, of s] idx_None_iff [OF inv, of t]
    by (simp add: busid_lookup_def get_busid_priv_def)
  ultimately show ?thesis using None r inv by (auto simp: del_match_busid_def)
next
  case (Some i)
  let ?e = "del_slot (tb ! i)"
  from Some have i: "i < length tb" "slot_used (tb ! i)" "cstr (bi_name (tb ! i)) = busid_key s"
    by (simp_all add: idx_Some_iff [OF inv])
  note ec = del_slot_props [OF i(2)]
  have l: "busid_lookup tb s = Some (bi_status (tb ! i))"
    using Some by (simp add: busid_lookup_def get_busid_priv_def)
  have tb': "r = 0" "tb' = tb[i := ?e]" using r del_match_busid_Some [OF Some] by simp_all
  have uniq: "cstr (bi_name (tb ! j)) \<noteq> busid_key s"
    if "j < length tb" "j \<noteq> i" "slot_used (tb ! j)" for j
    using inv i that unfolding busid_inv_def by metis
  have inv': "busid_inv (tb[i := ?e])"
    using inv i by (intro inv_update [OF inv i(1)]) (auto simp: ec uniq busid_inv_def)
  have "busid_lookup (tb[i := ?e]) t = (if busid_key t = busid_key s
      then Option.bind (busid_lookup tb s) del_status else busid_lookup tb t)"
  proof (cases "busid_key t = busid_key s \<and> \<not> slot_used ?e")
    case True
    then have "\<not> (\<exists>j < length (tb[i := ?e]). slot_used (tb[i := ?e] ! j) \<and>
        cstr (bi_name (tb[i := ?e] ! j)) = busid_key t)"
      using uniq by (metis length_list_update nth_list_update_eq nth_list_update_neq)
    then have "busid_lookup (tb[i := ?e]) t = None"
      using lookup_Some_iff [OF inv', of t] by (metis option.exhaust)
    with True l ec(1) show ?thesis by simp
  next
    case False
    then show ?thesis
      using lookup_update_same [OF inv' i(1), of t] lookup_update_other [OF inv inv' i(1), of t] i(3) ec(2,3) l
      by (cases "busid_key t = busid_key s") auto
  qed
  with inv' tb' l show ?thesis by simp
qed

section \<open>The table as a map\<close>

text \<open>The contract the rest of the driver and the user of the sysfs file rely on: a map from names to
  states with a bounded number of entries, in which other names are never disturbed.\<close>

datatype busid_cmd = Add_Cmd string | Del_Cmd string

locale busid_map =
  fixes tinv :: "'t \<Rightarrow> bool"
    and look :: "'t \<Rightarrow> string \<Rightarrow> busid_status option"
    and key :: "string \<Rightarrow> string"
    and tfull :: "'t \<Rightarrow> bool"
    and add :: "string \<Rightarrow> 't \<Rightarrow> int \<times> 't"
    and del :: "string \<Rightarrow> 't \<Rightarrow> int \<times> 't"
  assumes look_key: "tinv t \<Longrightarrow> key a = key b \<Longrightarrow> look t a = look t b"
    and add_inv: "tinv t \<Longrightarrow> key a \<noteq> [] \<Longrightarrow> tinv (snd (add a t))"
    and add_result: "tinv t \<Longrightarrow> key a \<noteq> [] \<Longrightarrow>
      fst (add a t) = (if look t a = None \<and> tfull t then - 1 else 0)"
    and add_look: "tinv t \<Longrightarrow> key a \<noteq> [] \<Longrightarrow>
      look (snd (add a t)) b = (if fst (add a t) = 0 \<and> key b = key a \<and> look t a = None
         then Some STUB_BUSID_ADDED else look t b)"
    and del_inv: "tinv t \<Longrightarrow> tinv (snd (del a t))"
    and del_look: "tinv t \<Longrightarrow>
      look (snd (del a t)) b =
        (if key b = key a then Option.bind (look t a) del_status else look t b)"
begin

primrec run_cmd :: "busid_cmd \<Rightarrow> 't \<Rightarrow> 't" where
  "run_cmd (Add_Cmd a) t = snd (add a t)"
| "run_cmd (Del_Cmd a) t = snd (del a t)"

fun cmd_ok :: "busid_cmd \<Rightarrow> bool" where
  "cmd_ok (Add_Cmd a) \<longleftrightarrow> key a \<noteq> []"
| "cmd_ok (Del_Cmd a) \<longleftrightarrow> True"

lemma run_inv: "\<forall>c\<in>set cs. cmd_ok c \<Longrightarrow> tinv t \<Longrightarrow> tinv (fold run_cmd cs t)"
proof (induction cs arbitrary: t)
  case (Cons c cs)
  then have "tinv (run_cmd c t)" by (cases c) (auto simp: add_inv del_inv)
  with Cons show ?case by simp
qed simp

text \<open>No sequence of commands takes an added name out again.\<close>

lemma step_added:
  "tinv t \<Longrightarrow> cmd_ok c \<Longrightarrow> look t b = Some STUB_BUSID_ADDED \<Longrightarrow>
   look (run_cmd c t) b = Some STUB_BUSID_ADDED"
  by (cases c) (auto simp: add_look del_look dest: look_key [of t])

lemma run_added:
  "\<forall>c\<in>set cs. cmd_ok c \<Longrightarrow> tinv t \<Longrightarrow> look t b = Some STUB_BUSID_ADDED \<Longrightarrow>
   look (fold run_cmd cs t) b = Some STUB_BUSID_ADDED"
proof (induction cs arbitrary: t)
  case (Cons c cs)
  then have "tinv (run_cmd c t)" by (cases c) (auto simp: add_inv del_inv)
  with Cons step_added show ?case by simp
qed simp

end

lemma busid_lookup_key:
  assumes "busid_inv tb" and "busid_key a = busid_key b"
  shows "busid_lookup tb a = busid_lookup tb b"
  using lookup_Some_iff [OF assms(1), of a] lookup_Some_iff [OF assms(1), of b] assms(2)
  by (metis option.exhaust)

interpretation busid: busid_map busid_inv busid_lookup busid_key busid_full add_match_busid del_match_busid
proof
  show "busid_inv (snd (add_match_busid a t))" if "busid_inv t" "busid_key a \<noteq> []" for a t
    using add_match_busid_spec(1) [OF that] by (metis prod.collapse)
  show "fst (add_match_busid a t) = (if busid_lookup t a = None \<and> busid_full t then - 1 else 0)"
    if "busid_inv t" "busid_key a \<noteq> []" for a t
    using add_match_busid_spec(2) [OF that] by (metis prod.collapse)
  show "busid_lookup (snd (add_match_busid a t)) b =
      (if fst (add_match_busid a t) = 0 \<and> busid_key b = busid_key a \<and> busid_lookup t a = None
       then Some STUB_BUSID_ADDED else busid_lookup t b)"
    if "busid_inv t" "busid_key a \<noteq> []" for a b t
    using add_match_busid_spec(3) [OF that] by (metis prod.collapse)
  show "busid_inv (snd (del_match_busid a t))" if "busid_inv t" for a t
    using del_match_busid_spec [OF that] by (metis prod.collapse)
  show "busid_lookup (snd (del_match_busid a t)) b =
      (if busid_key b = busid_key a then Option.bind (busid_lookup t a) del_status else busid_lookup t b)"
    if "busid_inv t" for a b t
    using del_match_busid_spec [OF that] by (metis prod.collapse)
qed (rule busid_lookup_key)

section \<open>Commands written by the user\<close>

text \<open>A command as the user writes it, and the call that handles it.\<close>

primrec cmd_text :: "busid_cmd \<Rightarrow> string" where
  "cmd_text (Add_Cmd n) = ''add '' @ n @ [NUL]"
| "cmd_text (Del_Cmd n) = ''del '' @ n @ [NUL]"

definition write_cmd :: "busid_cmd \<Rightarrow> bus_id_priv list \<Rightarrow> int \<times> bus_id_priv list" where
  "write_cmd c tb = store_match_busid (cmd_text c) (int (length (cmd_text c)) - 1) tb"

definition name_ok :: "string \<Rightarrow> bool" where
  "name_ok n \<longleftrightarrow> NUL \<notin> set n \<and> n \<noteq> [] \<and> length n < BUSID_SIZE"

primrec cmd_name :: "busid_cmd \<Rightarrow> string" where
  "cmd_name (Add_Cmd n) = n"
| "cmd_name (Del_Cmd n) = n"

lemma cstr_append_NUL: "NUL \<notin> set s \<Longrightarrow> cstr (s @ [NUL]) = s"
  using cstr_append_NULs [of s 1] by simp

lemma name_ok_key: "name_ok n \<Longrightarrow> busid_key n = n \<and> busid_key (n @ [NUL]) = n"
  by (simp add: name_ok_def busid_key_def cstr_no_NUL cstr_append_NUL)

lemma cstr_cmd_text: "NUL \<notin> set (cmd_name c) \<Longrightarrow> cstr (cmd_text c) =
   (case c of Add_Cmd n \<Rightarrow> ''add '' @ n | Del_Cmd n \<Rightarrow> ''del '' @ n)"
  using cstr_append_NUL [of "''add '' @ cmd_name c"] cstr_append_NUL [of "''del '' @ cmd_name c"]
  by (cases c) (simp_all add: NUL_def)

lemma store_match_busid_add:
  "\<not> count < 5 \<Longrightarrow> strnlen (drop 4 buf) BUSID_SIZE < BUSID_SIZE \<Longrightarrow> strncmp_eq buf ''add '' 4 \<Longrightarrow>
   store_match_busid buf count tb = (case add_match_busid (strncpy (drop 4 buf) BUSID_SIZE) tb of
     (r, tb') \<Rightarrow> (if r < 0 then - sint ENOMEM else count, tb'))"
  by (simp add: store_match_busid_def Let_def split: prod.split)

lemma store_match_busid_del:
  "\<not> count < 5 \<Longrightarrow> strnlen (drop 4 buf) BUSID_SIZE < BUSID_SIZE \<Longrightarrow> \<not> strncmp_eq buf ''add '' 4 \<Longrightarrow>
   strncmp_eq buf ''del '' 4 \<Longrightarrow>
   store_match_busid buf count tb = (case del_match_busid (strncpy (drop 4 buf) BUSID_SIZE) tb of
     (r, tb') \<Rightarrow> (if r < 0 then - sint ENODEV else count, tb'))"
  by (simp add: store_match_busid_def Let_def split: prod.split)

lemma cstr_verbs: "cstr ''add '' = ''add ''" "cstr ''del '' = ''del ''"
  by (simp_all add: cstr_def NUL_def)

lemma verb_of_text:
  assumes "NUL \<notin> set n"
  shows "strncmp_eq (''add '' @ n @ [NUL]) ''add '' 4" "strncmp_eq (''del '' @ n @ [NUL]) ''del '' 4"
    "\<not> strncmp_eq (''del '' @ n @ [NUL]) ''add '' 4"
  using cstr_cmd_text [of "Add_Cmd n"] cstr_cmd_text [of "Del_Cmd n"] assms
  by (simp_all add: strncmp_eq_def cstr_verbs)

lemma write_cmd_eq:
  assumes "name_ok (cmd_name c)"
  shows "write_cmd c tb =
    (case c of
       Add_Cmd n \<Rightarrow> (case add_match_busid (strncpy (n @ [NUL]) BUSID_SIZE) tb of (r, tb') \<Rightarrow>
          (if r < 0 then - sint ENOMEM else int (length n) + 4, tb'))
     | Del_Cmd n \<Rightarrow> (case del_match_busid (strncpy (n @ [NUL]) BUSID_SIZE) tb of (r, tb') \<Rightarrow>
          (if r < 0 then - sint ENODEV else int (length n) + 4, tb')))"
proof -
  obtain n where n: "NUL \<notin> set n" "n \<noteq> []" "length n < BUSID_SIZE" "c = Add_Cmd n \<or> c = Del_Cmd n"
    using assms by (cases c) (auto simp: name_ok_def)
  then have len: "strnlen (drop 4 (v @ n @ [NUL])) BUSID_SIZE < BUSID_SIZE" if "length v = 4" for v
    using that by (simp add: strnlen_def cstr_append_NUL)
  have cnt: "\<not> int (length n) + 4 < 5" using n(2) by (cases n) auto
  from n(4) show ?thesis
    using store_match_busid_add [of "int (length n) + 4" "''add '' @ n @ [NUL]" tb]
      store_match_busid_del [of "int (length n) + 4" "''del '' @ n @ [NUL]" tb]
      cnt len [of "''add ''"] len [of "''del ''"] verb_of_text [OF n(1)]
    by (auto simp: write_cmd_def algebra_simps)
qed

section \<open>Properties\<close>

text \<open>C10. Writing \<open>add <busid>\<close>: the call returns the number of characters written when the name was
  already in the table or a slot is free, and \<open>-ENOMEM\<close> otherwise; a new name is then recorded as
  added, and no other name is affected. The invariant of the table is kept.\<close>

theorem match_busid_add:
  assumes "busid_inv tb" and "name_ok n" and "write_cmd (Add_Cmd n) tb = (r, tb')"
  shows "busid_inv tb' \<and>
    r = (if busid_lookup tb n = None \<and> busid_full tb then - sint ENOMEM else int (length n) + 4) \<and>
    busid_lookup tb' m =
      (if busid_key m = n \<and> busid_lookup tb n = None \<and> \<not> busid_full tb
       then Some STUB_BUSID_ADDED else busid_lookup tb m)"
proof -
  obtain q where q: "add_match_busid (strncpy (n @ [NUL]) BUSID_SIZE) tb = (q, tb')"
    "r = (if q < 0 then - sint ENOMEM else int (length n) + 4)"
    using write_cmd_eq [of "Add_Cmd n" tb] assms(2,3) by (auto split: prod.splits)
  let ?s = "strncpy (n @ [NUL]) BUSID_SIZE"
  have k: "busid_key ?s = n" "busid_key n = n" using name_ok_key [OF assms(2)] by simp_all
  have ne: "busid_key ?s \<noteq> []" using k assms(2) by (simp add: name_ok_def)
  have l: "busid_lookup tb ?s = busid_lookup tb n"
    using busid_lookup_key [OF assms(1), of ?s n] k by simp
  show ?thesis
    using add_match_busid_spec(1,2) [OF assms(1) ne q(1)] add_match_busid_spec(3) [OF assms(1) ne q(1), of m]
      q(2) k(1) l by (cases "busid_lookup tb n"; cases "busid_full tb") simp_all
qed

theorem match_busid_add_witness:
  "busid_lookup (snd (write_cmd (Add_Cmd ''1-1'') init_busid_table)) ''1-1'' = Some STUB_BUSID_ADDED"
proof -
  have "busid_lookup init_busid_table ''1-1'' = None" "\<not> busid_full init_busid_table"
    by (simp_all add: busid_lookup_def get_busid_priv_def get_busid_idx_def init_busid_table_def
        MAX_BUSID_def zero_busid_def slot_used_def eval_nat_numeral busid_full_def)
  moreover have "name_ok ''1-1''" by (simp add: name_ok_def NUL_def BUSID_SIZE_def)
  ultimately show ?thesis
    using match_busid_add [OF inv_init _ prod.collapse [symmetric], of "''1-1''" "''1-1''"]
      name_ok_key [of "''1-1''"] by simp
qed

text \<open>Writing \<open>del <busid>\<close>: \<open>-ENODEV\<close> when the name is not in the table; otherwise the call
  succeeds, a grabbed device is marked for removal, a name in no particular state is taken out,
  and a name that is only added stays; no other name is affected.\<close>

theorem match_busid_del:
  assumes "busid_inv tb" and "name_ok n" and "write_cmd (Del_Cmd n) tb = (r, tb')"
  shows "busid_inv tb' \<and>
    r = (if busid_lookup tb n = None then - sint ENODEV else int (length n) + 4) \<and>
    busid_lookup tb' m = (if busid_key m = n then Option.bind (busid_lookup tb n) del_status
      else busid_lookup tb m)"
proof -
  obtain q where q: "del_match_busid (strncpy (n @ [NUL]) BUSID_SIZE) tb = (q, tb')"
    "r = (if q < 0 then - sint ENODEV else int (length n) + 4)"
    using write_cmd_eq [of "Del_Cmd n" tb] assms(2,3) by (auto split: prod.splits)
  have k: "busid_key (strncpy (n @ [NUL]) BUSID_SIZE) = n" "busid_key n = n"
    using name_ok_key [OF assms(2)] by simp_all
  then show ?thesis
    using del_match_busid_spec [OF assms(1) q(1), of m] q(2)
      busid_lookup_key [OF assms(1), of "strncpy (n @ [NUL]) BUSID_SIZE" n]
    by (cases "busid_lookup tb n") simp_all
qed

theorem match_busid_del_witness:
  "fst (write_cmd (Del_Cmd ''1-1'') init_busid_table) = - sint ENODEV"
proof -
  have "busid_lookup init_busid_table ''1-1'' = None"
    by (simp add: busid_lookup_def get_busid_priv_def get_busid_idx_def init_busid_table_def
        MAX_BUSID_def zero_busid_def slot_used_def eval_nat_numeral)
  moreover have "name_ok ''1-1''" by (simp add: name_ok_def NUL_def BUSID_SIZE_def)
  ultimately show ?thesis
    using match_busid_del [OF inv_init _ prod.collapse [symmetric], of "''1-1''"] by simp
qed

text \<open>C11. A name that was added and whose device has not been grabbed stays in the table whatever is
  written to the file afterwards: deleting it reports success and changes nothing, so its slot is
  never free again.\<close>

theorem added_busid_stays:
  assumes "busid_inv tb" and "busid_lookup tb n = Some STUB_BUSID_ADDED"
    and "\<forall>c\<in>set cs. name_ok (cmd_name c)"
  shows "busid_lookup (fold (\<lambda>c t. snd (write_cmd c t)) cs tb) n = Some STUB_BUSID_ADDED"
proof -
  define tr where "tr c = (case c of Add_Cmd m \<Rightarrow> Add_Cmd (strncpy (m @ [NUL]) BUSID_SIZE)
    | Del_Cmd m \<Rightarrow> Del_Cmd (strncpy (m @ [NUL]) BUSID_SIZE))" for c
  have step: "snd (write_cmd c t) = busid.run_cmd (tr c) t" if "c \<in> set cs" for c t
    using write_cmd_eq [of c t] assms(3) that by (cases c) (auto simp: tr_def split: prod.split)
  have ok: "\<forall>c\<in>set (map tr cs). busid.cmd_ok c"
    using assms(3) name_ok_key by (auto simp: tr_def name_ok_def split: busid_cmd.split)
  have "fold (\<lambda>c t. snd (write_cmd c t)) cs tb = fold busid.run_cmd (map tr cs) tb"
    unfolding fold_map using step by (intro fold_cong) auto
  with busid.run_added [OF ok assms(1,2)] show ?thesis by simp
qed

definition full_demo :: "bus_id_priv list" where
  "full_demo = init_busid_table[0 := zero_busid\<lparr>bi_name := ''1-1'' @ replicate 29 NUL,
     bi_status := STUB_BUSID_ADDED\<rparr>]"

theorem added_busid_stays_witness:
  "busid_lookup (fold (\<lambda>c t. snd (write_cmd c t)) [Del_Cmd ''1-1''] full_demo) ''1-1'' =
   Some STUB_BUSID_ADDED"
proof (rule added_busid_stays)
  have c: "cstr (''1-1'' @ replicate 29 NUL) = ''1-1''"
    using cstr_append_NULs [of "''1-1''" 29] by (simp add: NUL_def)
  show "busid_inv full_demo"
    unfolding full_demo_def
    using c by (intro inv_update inv_init)
      (auto simp: init_busid_table_def MAX_BUSID_def BUSID_SIZE_def zero_busid_def slot_used_def)
  show "busid_lookup full_demo ''1-1'' = Some STUB_BUSID_ADDED"
    using c by (simp add: full_demo_def init_busid_table_def busid_lookup_def get_busid_priv_def
        get_busid_idx_def MAX_BUSID_def eval_nat_numeral zero_busid_def slot_used_def strncmp_eq_def
        cstr_def NUL_def BUSID_SIZE_def)
  show "\<forall>c\<in>set [Del_Cmd ''1-1'']. name_ok (cmd_name c)"
    by (simp add: name_ok_def NUL_def BUSID_SIZE_def)
qed

end
