(* ===== verification/Filters.thy ===== *)
theory Filters
  imports Common
begin

text \<open>
  Filter drivers (\<^verbatim>\<open>usbip_common.c\<close>): the list of registered drivers, attaching filters to a device and
  detaching them. Attaching passes the two arguments of \<open>list_add_tail\<close> in the wrong order, so it
  is modelled on the pointers of \<open>struct list_head\<close> and shown to refine a definition on lists, which the
  rest of the development uses.
\<close>

section \<open>Linked lists of the kernel\<close>

record list_heap =
  l_next :: "addr \<Rightarrow> addr"
  l_prev :: "addr \<Rightarrow> addr"

definition INIT_LIST_HEAD :: "addr \<Rightarrow> list_heap \<Rightarrow> list_heap" where
  "INIT_LIST_HEAD a l = \<lparr>l_next = (l_next l)(a := a), l_prev = (l_prev l)(a := a)\<rparr>"

definition list_add_between :: "addr \<Rightarrow> addr \<Rightarrow> addr \<Rightarrow> list_heap \<Rightarrow> list_heap" where
  "list_add_between new prv nxt l =
     \<lparr>l_next = (l_next l)(new := nxt, prv := new), l_prev = (l_prev l)(nxt := new, new := prv)\<rparr>"

definition list_add_tail :: "addr \<Rightarrow> addr \<Rightarrow> list_heap \<Rightarrow> list_heap" where
  "list_add_tail new hp l = list_add_between new (l_prev l hp) hp l"

text \<open>\<open>list_for_each\<close>: the entries from \<open>p\<close> to the head, if there are at most \<open>n\<close>.\<close>

fun list_walk :: "nat \<Rightarrow> list_heap \<Rightarrow> addr \<Rightarrow> addr \<Rightarrow> addr list option" where
  "list_walk n l hp p =
     (if p = hp then Some []
      else (case n of 0 \<Rightarrow> None | Suc m \<Rightarrow> map_option (\<lambda>ps. p # ps) (list_walk m l hp (l_next l p))))"

section \<open>Drivers\<close>

definition usbip_filter_register :: "nat \<Rightarrow> nat list \<Rightarrow> nat list" where
  "usbip_filter_register drv drvs = drvs @ [drv]"

definition usbip_filter_unregister :: "nat \<Rightarrow> nat list \<Rightarrow> nat list" where
  "usbip_filter_unregister drv drvs = remove1 drv drvs"

section \<open>Attaching on pointers\<close>

record filter_heap =
  fh_list :: list_heap
  fh_obj :: "addr \<Rightarrow> usbip_filter option"
  fh_free :: addr

fun filter_probe_heap ::
  "'w kapi \<Rightarrow> nat list \<Rightarrow> addr \<Rightarrow> filter_heap \<Rightarrow> 'w \<Rightarrow> filter_heap \<times> 'w" where
  "filter_probe_heap k [] udf st w = (st, w)"
| "filter_probe_heap k (drv # drvs) udf st w =
     (if drv_has_probe k drv then
        (case drv_probe k drv w of
           (None, w1) \<Rightarrow> filter_probe_heap k drvs udf st w1
         | (Some priv, w1) \<Rightarrow>
             (case kzalloc k 40 w1 of (ok, w2) \<Rightarrow>
                if \<not> ok then (st, w2)
                else
                  (let a = fh_free st;
                       l1 = INIT_LIST_HEAD a (fh_list st);
                       l2 = list_add_tail udf a l1
                   in filter_probe_heap k drvs udf
                        \<lparr>fh_list = l2, fh_obj = (fh_obj st)(a \<mapsto> \<lparr>fl_drv = drv, fl_priv = priv\<rparr>),
                         fh_free = Suc a\<rparr> w2)))
      else filter_probe_heap k drvs udf st w)"

section \<open>Attaching and detaching on lists\<close>

text \<open>Each attached filter replaces the list.\<close>

fun usbip_filter_probe ::
  "'w kapi \<Rightarrow> nat list \<Rightarrow> usbip_filter list \<Rightarrow> 'w \<Rightarrow> usbip_filter list \<times> 'w" where
  "usbip_filter_probe k [] fs w = (fs, w)"
| "usbip_filter_probe k (drv # drvs) fs w =
     (if drv_has_probe k drv then
        (case drv_probe k drv w of
           (None, w1) \<Rightarrow> usbip_filter_probe k drvs fs w1
         | (Some priv, w1) \<Rightarrow>
             (case kzalloc k 40 w1 of (ok, w2) \<Rightarrow>
                if \<not> ok then (fs, w2)
                else usbip_filter_probe k drvs [\<lparr>fl_drv = drv, fl_priv = priv\<rparr>] w2))
      else usbip_filter_probe k drvs fs w)"

text \<open>The loop of \<open>usbip_filter_remove\<close>, its guard as written: \<open>!drv && drv != filter->drv\<close>. A driver
  that is not given is the null pointer, which the guard keeps from being dereferenced.\<close>

fun usbip_filter_remove ::
  "'w kapi \<Rightarrow> nat option \<Rightarrow> usbip_filter list \<Rightarrow> 'w \<Rightarrow> usbip_filter list \<times> 'w" where
  "usbip_filter_remove k drv [] w = ([], w)"
| "usbip_filter_remove k drv (f # fs) w =
     (if drv = None \<and> drv \<noteq> Some (fl_drv f)
      then (case usbip_filter_remove k drv fs w of (fs', w') \<Rightarrow> (f # fs', w'))
      else
        (let w1 = (case drv of None \<Rightarrow> w
                   | Some d \<Rightarrow> if drv_has_remove k d then drv_remove k d f w else w)
         in usbip_filter_remove k drv fs w1))"

section \<open>Refinement\<close>

definition filter_rep :: "filter_heap \<Rightarrow> addr \<Rightarrow> usbip_filter list \<Rightarrow> bool" where
  "filter_rep st udf fs \<longleftrightarrow>
     (\<exists>ps. list_walk (length fs) (fh_list st) udf (l_next (fh_list st) udf) = Some ps \<and>
           map (fh_obj st) ps = map Some fs)"

lemma attach_one:
  assumes "udf < fh_free st"
  shows "filter_rep \<lparr>fh_list = list_add_tail udf (fh_free st) (INIT_LIST_HEAD (fh_free st) (fh_list st)),
      fh_obj = (fh_obj st)(fh_free st \<mapsto> f), fh_free = Suc (fh_free st)\<rparr> udf [f]"
  using assms by (simp add: filter_rep_def list_add_tail_def list_add_between_def INIT_LIST_HEAD_def)

lemma probe_refines:
  assumes "udf < fh_free st" and "filter_rep st udf fs"
  shows "snd (filter_probe_heap k drvs udf st w) = snd (usbip_filter_probe k drvs fs w) \<and>
    filter_rep (fst (filter_probe_heap k drvs udf st w)) udf (fst (usbip_filter_probe k drvs fs w))"
  using assms
proof (induction drvs arbitrary: st fs w)
  case (Cons drv drvs)
  then show ?case
    using attach_one [OF Cons.prems(1)]
    by (auto simp: Let_def split: prod.split option.split)
qed simp

lemma probe_length: "length fs \<le> 1 \<Longrightarrow> length (fst (usbip_filter_probe k drvs fs w)) \<le> 1"
  by (induction drvs arbitrary: fs w) (auto split: prod.split option.split)

section \<open>Properties\<close>

text \<open>C12. Attaching filters, on the pointers the C code manipulates: however many drivers accept the
  device, walking the list of the device afterwards visits what the list model says, which is at
  most one filter: each driver that accepts drops the filter attached before it.\<close>

theorem filter_probe_keeps_one:
  assumes "udf < fh_free st" and "filter_rep st udf []"
  shows "\<exists>fs. filter_rep (fst (filter_probe_heap k drvs udf st w)) udf fs \<and>
    fs = fst (usbip_filter_probe k drvs [] w) \<and> length fs \<le> 1"
  using probe_refines [OF assms, of k drvs w] probe_length [of "[]" k drvs w] by auto

definition empty_filters :: filter_heap where
  "empty_filters = \<lparr>fh_list = \<lparr>l_next = id, l_prev = id\<rparr>, fh_obj = (\<lambda>_. None), fh_free = 10\<rparr>"

theorem filter_probe_keeps_one_witness:
  "\<exists>fs. filter_rep (fst (filter_probe_heap sim_k [1, 2] 3 empty_filters sim0)) 3 fs \<and>
    fs = [\<lparr>fl_drv = 2, fl_priv = 102\<rparr>] \<and> length fs \<le> 1"
  using filter_probe_keeps_one [of 3 empty_filters sim_k "[1, 2]" sim0]
  by (simp add: empty_filters_def filter_rep_def)

text \<open>Detaching: with no driver given, as on disconnect, every filter stays attached; with any
  driver given, all filters are taken off, those of other drivers too.\<close>

theorem filter_remove_guard:
  "fst (usbip_filter_remove k None fs w) = fs \<and> fst (usbip_filter_remove k (Some d) fs w) = []"
proof -
  have "usbip_filter_remove k None fs w = (fs, w)" for w by (induction fs) auto
  moreover have "fst (usbip_filter_remove k (Some d) fs w) = []" for w
    by (induction fs arbitrary: w) (auto simp: Let_def)
  ultimately show ?thesis by simp
qed

end
