(* ===== verification/Scan.thy ===== *)
theory Scan
  imports Prelude
begin

text \<open>
  The conversions of \<open>sscanf\<close> and \<open>sprintf\<close> that the attribute files of both modules use.
\<close>

section \<open>Reading numbers\<close>

text \<open>\<open>%d\<close> and \<open>%u\<close> of \<open>sscanf\<close>: white space, an optional sign, digits; the value and the rest.\<close>

definition is_space :: "char \<Rightarrow> bool" where
  "is_space c \<longleftrightarrow> c \<in> {CHR '' '', CHR 0x09, CHR 0x0A, CHR 0x0B, CHR 0x0C, CHR 0x0D}"

definition is_digit :: "char \<Rightarrow> bool" where
  "is_digit c \<longleftrightarrow> 48 \<le> (of_char c :: nat) \<and> (of_char c :: nat) \<le> 57"

definition digits_val :: "string \<Rightarrow> int" where
  "digits_val ds = foldl (\<lambda>v c. 10 * v + (of_char c - 48)) 0 ds"

definition scan_u :: "string \<Rightarrow> (int \<times> string) option" where
  "scan_u s =
     (let t = dropWhile is_space s; ds = takeWhile is_digit t in
      if ds = [] then None else Some (digits_val ds, dropWhile is_digit t))"

definition scan_d :: "string \<Rightarrow> (int \<times> string) option" where
  "scan_d s =
     (let t = dropWhile is_space s in
      if t \<noteq> [] \<and> hd t = CHR ''-'' then
        (if tl t \<noteq> [] \<and> is_digit (hd (tl t)) then map_option (\<lambda>(v, r). (- v, r)) (scan_u (tl t)) else None)
      else scan_u t)"

section \<open>Printing numbers\<close>

definition digit_char :: "nat \<Rightarrow> char" where
  "digit_char d = char_of (if d < 10 then 48 + d else 87 + d)"

text \<open>Digits of a number in the base \<open>b\<close>, most significant first.\<close>

fun digits_base :: "nat \<Rightarrow> nat \<Rightarrow> string" where
  "digits_base b n = (if b < 2 \<or> n < b then [digit_char n] else digits_base b (n div b) @ [digit_char (n mod b)])"

declare digits_base.simps [simp del]

text \<open>\<open>%0wu\<close> and \<open>%0wx\<close>: at least \<open>w\<close> characters, zeros in front.\<close>

definition pad0 :: "nat \<Rightarrow> string \<Rightarrow> string" where
  "pad0 w s = replicate (w - length s) (CHR ''0'') @ s"

definition fmt_u :: "nat \<Rightarrow> nat \<Rightarrow> string" where "fmt_u w n = pad0 w (digits_base 10 n)"
definition fmt_x :: "nat \<Rightarrow> nat \<Rightarrow> string" where "fmt_x w n = pad0 w (digits_base 16 n)"

lemma digit_char_decimal:
  assumes "d < 10"
  shows "is_digit (digit_char d)" and "(of_char (digit_char d) :: int) = 48 + int d"
proof -
  have c: "(of_char (digit_char d) :: nat) = 48 + d"
    using assms by (simp add: digit_char_def of_char_of)
  then show "is_digit (digit_char d)" using assms by (simp add: is_digit_def)
  have "(of_char (digit_char d) :: int) = int (of_char (digit_char d))" by (simp only: of_nat_of_char)
  then show "(of_char (digit_char d) :: int) = 48 + int d" using c by simp
qed

lemma digits_val_snoc: "digits_val (ds @ [c]) = 10 * digits_val ds + (of_char c - 48)"
  by (simp add: digits_val_def)

lemma digits_base_decimal:
  "list_all is_digit (digits_base 10 n) \<and> digits_val (digits_base 10 n) = int n"
proof (induction n rule: less_induct)
  case (less n)
  show ?case
  proof (cases "n < 10")
    case True
    then show ?thesis
      by (simp add: digits_base.simps [of 10 n] digit_char_decimal digits_val_def)
  next
    case False
    with less.IH [of "n div 10"] have ih: "list_all is_digit (digits_base 10 (n div 10))"
      "digits_val (digits_base 10 (n div 10)) = int (n div 10)" by auto
    have "int (n div 10) * 10 + int (n mod 10) = int n" by (metis div_mult_mod_eq of_nat_add of_nat_mult of_nat_numeral)
    with False ih show ?thesis
      by (simp add: digits_base.simps [of 10 n] digits_val_snoc digit_char_decimal)
  qed
qed

lemma digits_base_nonempty: "digits_base b n \<noteq> []"
  by (simp add: digits_base.simps [of b n])

lemma digits_val_zeros: "digits_val (replicate z (CHR ''0'') @ ds) = digits_val ds"
  by (induction z) (simp_all add: digits_val_def)

lemma fmt_u_digits:
  "list_all is_digit (fmt_u w n)" "digits_val (fmt_u w n) = int n" "fmt_u w n \<noteq> []"
  using digits_base_decimal [of n] digits_base_nonempty [of 10 n]
  by (auto simp: fmt_u_def pad0_def digits_val_zeros list_all_iff is_digit_def)

text \<open>What \<open>%0wu\<close> prints, \<open>%u\<close> reads back.\<close>

lemma takeWhile_all_append: "list_all P xs \<Longrightarrow> takeWhile P (xs @ ys) = xs @ takeWhile P ys"
  by (induction xs) auto

lemma dropWhile_all_append: "list_all P xs \<Longrightarrow> dropWhile P (xs @ ys) = dropWhile P ys"
  by (induction xs) auto

lemma digit_no_space: "is_digit c \<Longrightarrow> \<not> is_space c"
  by (auto simp: is_digit_def is_space_def)

lemma scan_u_fmt_u:
  assumes "rest = [] \<or> \<not> is_digit (hd rest)" and "list_all is_space sp"
  shows "scan_u (sp @ fmt_u w n @ rest) = Some (int n, rest)"
proof -
  let ?s = "fmt_u w n"
  note f = fmt_u_digits [of w n]
  then have "\<not> is_space (hd ?s)" by (auto simp: list_all_iff digit_no_space)
  then have d: "dropWhile is_space (sp @ ?s @ rest) = ?s @ rest"
    using f(3) assms(2) by (cases ?s) (simp_all add: dropWhile_all_append)
  have "takeWhile is_digit rest = []" "dropWhile is_digit rest = rest"
    using assms(1) by (cases rest; auto)+
  with d f show ?thesis
    by (simp add: scan_u_def takeWhile_all_append dropWhile_all_append)
qed

end
