(* ===== verification/StubDev.thy ===== *)
theory StubDev
  imports StubTx BusId Filters Scan
begin

text \<open>
  The life of an exported device (\<^verbatim>\<open>stub_dev.c\<close>, and the clean-up of \<^verbatim>\<open>stub_main.c\<close>): probing and
  disconnecting interfaces against the bus id table, handing over the socket, and the three
  callbacks of the event handler. Reference counts that the USB core keeps of its own objects
  (\<open>usb_get_dev\<close> and its siblings) and log messages are left out.
\<close>

section \<open>Attributes\<close>

definition show_status :: "stub_device option \<Rightarrow> int + nat" where
  "show_status sdev = (case sdev of None \<Rightarrow> Inl (- sint ENODEV) | Some d \<Rightarrow> Inr (status_num (ud_status d)))"

definition store_sockfd ::
  "'w kapi \<Rightarrow> stub_device option \<Rightarrow> string \<Rightarrow> int \<Rightarrow> 'w \<Rightarrow> int \<times> stub_device option \<times> 'w" where
  "store_sockfd k dev buf cnt w =
     (case dev of
        None \<Rightarrow> (- sint ENODEV, None, w)
      | Some sdev \<Rightarrow>
          (let sockfd = (case scan_d buf of None \<Rightarrow> 0 | Some (v, _) \<Rightarrow> (word_of_int v :: s32)) in
           if sockfd \<noteq> - 1 then
             (if ud_status sdev \<noteq> SDEV_ST_AVAILABLE then (- sint EINVAL, Some sdev, w)
              else
                (case sockfd_to_socket k sockfd w of
                   (None, w1) \<Rightarrow> (- sint EINVAL, Some sdev, w1)
                 | (Some s, w1) \<Rightarrow>
                     (case kthread_run k w1 of (rx, w2) \<Rightarrow>
                        (case kthread_run k w2 of (tx, w3) \<Rightarrow>
                           (cnt,
                            Some (sdev\<lparr>tcp_socket := Some s, tcp_rx := Some rx, tcp_tx := Some tx,
                                       ud_status := SDEV_ST_USED\<rparr>), w3)))))
           else
             (if ud_status sdev \<noteq> SDEV_ST_USED then (- sint EINVAL, Some sdev, w)
              else (cnt, Some (usbip_event_add SDEV_EVENT_DOWN sdev), w))))"

text \<open>The three attribute files, with the ones already created removed when one fails.\<close>

definition stub_add_files :: "'w kapi \<Rightarrow> 'w \<Rightarrow> s32 \<times> 'w" where
  "stub_add_files k w =
     (case device_create_file k 0 w of (e0, w0) \<Rightarrow>
        if e0 \<noteq> 0 then (e0, w0)
        else (case device_create_file k 1 w0 of (e1, w1) \<Rightarrow>
          if e1 \<noteq> 0 then (e1, device_remove_file k 0 w1)
          else (case device_create_file k 2 w1 of (e2, w2) \<Rightarrow>
            if e2 \<noteq> 0 then (e2, device_remove_file k 0 (device_remove_file k 1 w2))
            else (0, w2))))"

definition stub_remove_files :: "'w kapi \<Rightarrow> 'w \<Rightarrow> 'w" where
  "stub_remove_files k w = device_remove_file k 2 (device_remove_file k 1 (device_remove_file k 0 w))"

section \<open>Clean-up\<close>

definition stub_priv_pop :: "stub_device \<Rightarrow> stub_priv option \<times> stub_device" where
  "stub_priv_pop sdev =
     (case priv_init sdev of
        p # ps \<Rightarrow> (Some p, sdev\<lparr>priv_init := ps\<rparr>)
      | [] \<Rightarrow>
     (case priv_tx sdev of
        p # ps \<Rightarrow> (Some p, sdev\<lparr>priv_tx := ps\<rparr>)
      | [] \<Rightarrow>
     (case priv_free sdev of
        p # ps \<Rightarrow> (Some p, sdev\<lparr>priv_free := ps\<rparr>)
      | [] \<Rightarrow> (None, sdev))))"

text \<open>\<open>usb_kill_urb\<close> waits until the USB core has given the urb back; a request whose urb was never
  allocated makes the code follow a null pointer.\<close>

function stub_device_cleanup_urbs :: "'w kapi \<Rightarrow> stub_device \<Rightarrow> 'w \<Rightarrow> stub_device \<times> 'w" where
  "stub_device_cleanup_urbs k sdev w =
     (case stub_priv_pop sdev of
        (None, _) \<Rightarrow> (sdev, w)
      | (Some p, sdev1) \<Rightarrow>
          (case sp_urb p of
             None \<Rightarrow> (sdev1\<lparr>sd_oops := True\<rparr>, w)
           | Some u \<Rightarrow>
               stub_device_cleanup_urbs k (sdev1\<lparr>sd_flight := remove1 (sp_id p) (sd_flight sdev1)\<rparr>)
                 (usb_kill_urb k (sp_id p) w)))"
  by pat_completeness auto

termination
  by (relation "measure (\<lambda>(k, sdev, w). length (priv_init sdev) + length (priv_tx sdev) + length (priv_free sdev))")
    (auto simp: stub_priv_pop_def split: list.splits)

declare stub_device_cleanup_urbs.simps [simp del]

section \<open>Callbacks of the event handler\<close>

text \<open>\<open>kthread_stop_put\<close> tests for the null pointer only: an encoded error is followed like a task, and the
  kernel crashes there; \<open>sd_oops\<close> says so, and the steps after it have no counterpart.\<close>

definition stop_thread :: "'w kapi \<Rightarrow> thread option \<Rightarrow> stub_device \<times> 'w \<Rightarrow> stub_device \<times> 'w" where
  "stop_thread k t dw =
     (case dw of (sdev, w) \<Rightarrow>
        (case t of
           None \<Rightarrow> (sdev, w)
         | Some (Inl e) \<Rightarrow> (sdev\<lparr>sd_oops := True\<rparr>, w)
         | Some (Inr n) \<Rightarrow> (sdev, kthread_stop k (Inr n) w)))"

definition stub_shutdown_connection :: "'w kapi \<Rightarrow> stub_device \<Rightarrow> 'w \<Rightarrow> stub_device \<times> 'w" where
  "stub_shutdown_connection k sdev w =
     (let w1 = (case tcp_socket sdev of None \<Rightarrow> w | Some s \<Rightarrow> kernel_sock_shutdown k s w) in
      case stop_thread k (tcp_rx sdev) (sdev, w1) of (sdev2, w2) \<Rightarrow>
      case stop_thread k (tcp_tx sdev2) (sdev2\<lparr>tcp_rx := None\<rparr>, w2) of (sdev3, w3) \<Rightarrow>
      (let sdev4 = sdev3\<lparr>tcp_tx := None, tcp_socket := None\<rparr>;
           w4 = (case tcp_socket sdev3 of None \<Rightarrow> w3 | Some s \<Rightarrow> fput_socket k s w3)
       in case stub_device_cleanup_urbs k sdev4 w4 of (sdev5, w5) \<Rightarrow>
            (sdev5\<lparr>unlink_tx := [], unlink_free := []\<rparr>, w5)))"

definition stub_device_reset :: "'w kapi \<Rightarrow> stub_device \<Rightarrow> 'w \<Rightarrow> stub_device \<times> 'w" where
  "stub_device_reset k sdev w =
     (case usb_lock_device_for_reset k w of (ret, w1) \<Rightarrow>
        if s32_neg ret then (sdev\<lparr>ud_status := SDEV_ST_ERROR\<rparr>, w1)
        else
          (case usb_reset_device k w1 of (ret2, w2) \<Rightarrow>
             (sdev\<lparr>ud_status := (if ret2 \<noteq> 0 then SDEV_ST_ERROR else SDEV_ST_AVAILABLE)\<rparr>,
              usb_unlock_device k w2)))"

definition stub_device_unusable :: "stub_device \<Rightarrow> 'w \<Rightarrow> stub_device \<times> 'w" where
  "stub_device_unusable sdev w = (sdev\<lparr>ud_status := SDEV_ST_ERROR\<rparr>, w)"

definition stub_eh_ops :: "'w kapi \<Rightarrow> (stub_device, 'w) eh_ops" where
  "stub_eh_ops k = \<lparr>eh_shutdown = stub_shutdown_connection k, eh_reset = stub_device_reset k,
     eh_unusable = stub_device_unusable\<rparr>"

section \<open>Allocation\<close>

definition stub_device_alloc ::
  "'w kapi \<Rightarrow> usb_device \<Rightarrow> 'w \<Rightarrow> stub_device option \<times> 'w" where
  "stub_device_alloc k udev w =
     (case kzalloc k 472 w of (ok, w1) \<Rightarrow>
        if \<not> ok then (None, w1)
        else
          (let sdev =
             \<lparr>ud_side = USBIP_STUB, ud_status = SDEV_ST_AVAILABLE, tcp_socket = None, tcp_rx = None,
              tcp_tx = None, ud_event = 0, ud_eh = None, ud_filters = [],
              sd_udev = udev, sd_devid = push_bit 16 (busnum udev) OR devnum udev,
              priv_init = [], priv_tx = [], priv_free = [], unlink_tx = [], unlink_free = [],
              sd_next = 0, sd_flight = [], sd_oops = False\<rparr>
           in case usbip_start_eh k sdev w1 of (_, sdev', w2) \<Rightarrow> (Some sdev', w2)))"

section \<open>Binding interfaces\<close>

text \<open>The driver: the bus id table, the devices allocated, and the private data of each interface.\<close>

record stub_driver =
  dr_table :: "bus_id_priv list"
  dr_sdevs :: "addr \<Rightarrow> stub_device option"
  dr_intfdata :: "nat \<Rightarrow> addr option"
  dr_nextdev :: addr
  dr_oops :: bool

record usb_interface =
  if_id :: nat
  if_udev :: usb_device
  if_busid :: string

definition USB_CLASS_HUB :: u8 where "USB_CLASS_HUB = 9"

definition set_entry :: "nat \<Rightarrow> (bus_id_priv \<Rightarrow> bus_id_priv) \<Rightarrow> stub_driver \<Rightarrow> stub_driver" where
  "set_entry i f dr = dr\<lparr>dr_table := (dr_table dr)[i := f (dr_table dr ! i)]\<rparr>"

definition stub_probe ::
  "'w kapi \<Rightarrow> nat list \<Rightarrow> usb_interface \<Rightarrow> stub_driver \<Rightarrow> 'w \<Rightarrow> s32 \<times> stub_driver \<times> 'w" where
  "stub_probe k drvs intf dr w =
     (case get_busid_idx (if_busid intf) (dr_table dr) of
        None \<Rightarrow> (- ENODEV, dr, w)
      | Some i \<Rightarrow>
     (let e = dr_table dr ! i; udev = if_udev intf in
      if bi_status e = STUB_BUSID_REMOV \<or> bi_status e = STUB_BUSID_OTHER then (- ENODEV, dr, w)
      else if bDeviceClass udev = USB_CLASS_HUB then (- ENODEV, dr, w)
      else if bus_name udev = ''vhci_hcd'' then (- ENODEV, dr, w)
      else if bi_status e = STUB_BUSID_ALLOC then
        (case bi_sdev e of
           None \<Rightarrow> (- ENODEV, dr, w)
         | Some a \<Rightarrow>
             (let dr1 = set_entry i (\<lambda>e. e\<lparr>bi_interf_count := bi_interf_count e + 1\<rparr>)
                          (dr\<lparr>dr_intfdata := (dr_intfdata dr)(if_id intf := Some a)\<rparr>)
              in case stub_add_files k w of (err, w1) \<Rightarrow>
                   if err \<noteq> 0 then
                     (err, set_entry i (\<lambda>e. e\<lparr>bi_interf_count := bi_interf_count e - 1\<rparr>)
                        (dr1\<lparr>dr_intfdata := (dr_intfdata dr1)(if_id intf := None)\<rparr>), w1)
                   else (0, dr1, w1)))
      else
        (case stub_device_alloc k udev w of
           (None, w1) \<Rightarrow> (- ENOMEM, dr, w1)
         | (Some sdev, w1) \<Rightarrow>
             (let a = dr_nextdev dr;
                  dr1 = set_entry i (\<lambda>e. e\<lparr>bi_interf_count := 1, bi_shutdown_busid := False,
                                            bi_sdev := Some a\<rparr>)
                          (dr\<lparr>dr_sdevs := (dr_sdevs dr)(a \<mapsto> sdev), dr_nextdev := Suc a,
                              dr_intfdata := (dr_intfdata dr)(if_id intf := Some a)\<rparr>)
              in case stub_add_files k w1 of (err, w2) \<Rightarrow>
                   if err \<noteq> 0 then
                     (err, set_entry i (\<lambda>e. e\<lparr>bi_interf_count := 0, bi_sdev := None\<rparr>)
                        (dr1\<lparr>dr_intfdata := (dr_intfdata dr1)(if_id intf := None),
                             dr_sdevs := (dr_sdevs dr1)(a := None)\<rparr>),
                      (case ud_eh sdev of None \<Rightarrow> w2 | Some t \<Rightarrow> kthread_stop k t w2))
                   else
                     (case usbip_filter_probe k drvs (ud_filters sdev) w2 of (fs, w3) \<Rightarrow>
                        (0, set_entry i (\<lambda>e. e\<lparr>bi_status := STUB_BUSID_ALLOC\<rparr>)
                           (dr1\<lparr>dr_sdevs := (dr_sdevs dr1)(a \<mapsto> sdev\<lparr>ud_filters := fs\<rparr>)\<rparr>), w3))))))"

text \<open>\<open>current\<close> is the thread that runs the code.\<close>

definition shutdown_busid ::
  "'w kapi \<Rightarrow> thread \<Rightarrow> nat \<Rightarrow> stub_driver \<Rightarrow> 'w \<Rightarrow> stub_driver \<times> 'w" where
  "shutdown_busid k current i dr w =
     (let e = dr_table dr ! i in
      case bi_sdev e of
        None \<Rightarrow> (dr, w)
      | Some a \<Rightarrow>
          if bi_shutdown_busid e then (dr, w)
          else
            (case dr_sdevs dr a of
               None \<Rightarrow> (dr\<lparr>dr_oops := True\<rparr>, w)
             | Some sdev \<Rightarrow>
                 (let sdev1 = usbip_event_add SDEV_EVENT_REMOVED sdev in
                  (set_entry i (\<lambda>e. e\<lparr>bi_shutdown_busid := True\<rparr>)
                     (dr\<lparr>dr_sdevs := (dr_sdevs dr)(a \<mapsto> sdev1)\<rparr>),
                   usbip_stop_eh k current sdev1 w))))"

definition stub_disconnect ::
  "'w kapi \<Rightarrow> thread \<Rightarrow> usb_interface \<Rightarrow> stub_driver \<Rightarrow> 'w \<Rightarrow> stub_driver \<times> 'w" where
  "stub_disconnect k current intf dr w =
     (case get_busid_idx (if_busid intf) (dr_table dr) of
        None \<Rightarrow> (dr\<lparr>dr_oops := True\<rparr>, w)
      | Some i \<Rightarrow>
     (case dr_intfdata dr (if_id intf) of
        None \<Rightarrow> (dr, w)
      | Some a \<Rightarrow>
     (case dr_sdevs dr a of
        None \<Rightarrow> (dr\<lparr>dr_oops := True\<rparr>, w)
      | Some sdev \<Rightarrow>
     (case usbip_filter_remove k None (ud_filters sdev) w of (fs, w1) \<Rightarrow>
     (let dr1 = dr\<lparr>dr_sdevs := (dr_sdevs dr)(a \<mapsto> sdev\<lparr>ud_filters := fs\<rparr>),
                   dr_intfdata := (dr_intfdata dr)(if_id intf := None)\<rparr>;
          w2 = stub_remove_files k w1
      in case Option.bind (bi_sdev (dr_table dr1 ! i)) (dr_sdevs dr1) of
           None \<Rightarrow> (dr1\<lparr>dr_oops := True\<rparr>, w2)
         | Some bsdev \<Rightarrow>
             if ud_eh bsdev = Some current then
               (set_entry i (\<lambda>e. e\<lparr>bi_interf_count := bi_interf_count e - 1\<rparr>) dr1, w2)
             else if bi_interf_count (dr_table dr1 ! i) > 1 then
               shutdown_busid k current i
                 (set_entry i (\<lambda>e. e\<lparr>bi_interf_count := bi_interf_count e - 1\<rparr>) dr1) w2
             else
               (case shutdown_busid k current i
                       (set_entry i (\<lambda>e. e\<lparr>bi_interf_count := 0\<rparr>) dr1) w2 of (dr2, w3) \<Rightarrow>
                  (let dr3 = set_entry i (\<lambda>e. e\<lparr>bi_sdev := None\<rparr>)
                               (dr2\<lparr>dr_sdevs := (dr_sdevs dr2)(a := None)\<rparr>)
                   in if bi_status (dr_table dr3 ! i) = STUB_BUSID_ALLOC
                      then (set_entry i (\<lambda>e. e\<lparr>bi_status := STUB_BUSID_ADDED\<rparr>) dr3, w3)
                      else
                        (let dr4 = set_entry i (\<lambda>e. e\<lparr>bi_status := STUB_BUSID_OTHER\<rparr>) dr3
                         in (dr4\<lparr>dr_table := snd (del_match_busid (if_busid intf) (dr_table dr4))\<rparr>, w3)))))))))"

end
