(* ===== verification/StubInv.thy ===== *)
theory StubInv
  imports StubDev
begin

text \<open>
  The invariant of the stub's request queues and the accounting of replies. Every operation of the
  receiving thread, the completion handler, the sending thread and the clean-up keeps the
  invariant, so a completion never touches a request that was freed; and replies owed to the peer
  are neither lost nor made up.
\<close>

section \<open>Frames\<close>

lemma stub_event_add [simp]:
  "priv_init (usbip_event_add e d) = priv_init d" "priv_tx (usbip_event_add e d) = priv_tx d"
  "priv_free (usbip_event_add e d) = priv_free d" "unlink_tx (usbip_event_add e d) = unlink_tx d"
  "unlink_free (usbip_event_add e d) = unlink_free d" "sd_next (usbip_event_add e d) = sd_next d"
  "sd_flight (usbip_event_add e d) = sd_flight d" "sd_oops (usbip_event_add e d) = sd_oops d"
  "sd_udev (usbip_event_add e d) = sd_udev d" "sd_devid (usbip_event_add e d) = sd_devid d"
  by (simp_all add: usbip_event_add_def)

lemma put_urb_fields [simp]:
  "priv_tx (put_urb i u d) = priv_tx d" "priv_free (put_urb i u d) = priv_free d"
  "unlink_tx (put_urb i u d) = unlink_tx d" "unlink_free (put_urb i u d) = unlink_free d"
  "sd_next (put_urb i u d) = sd_next d" "sd_flight (put_urb i u d) = sd_flight d"
  "sd_oops (put_urb i u d) = sd_oops d" "ud_event (put_urb i u d) = ud_event d"
  "ud_filters (put_urb i u d) = ud_filters d" "tcp_socket (put_urb i u d) = tcp_socket d"
  "map sp_id (priv_init (put_urb i u d)) = map sp_id (priv_init d)"
  "map sp_seqnum (priv_init (put_urb i u d)) = map sp_seqnum (priv_init d)"
  "map sp_unlinking (priv_init (put_urb i u d)) = map sp_unlinking (priv_init d)"
  by (auto simp: put_urb_def)

lemma recv_data_frame: "stub_recv_data h k sdev u data w = (ok, sdev', u', w') \<Longrightarrow> ev_only sdev sdev'"
  by (auto simp: stub_recv_data_def split: if_splits prod.splits dest!: recv_xbuff_frame recv_iso_frame
      intro: ev_only_trans)

text \<open>Two devices with the same queues.\<close>

definition same_queues :: "stub_device \<Rightarrow> stub_device \<Rightarrow> bool" where
  "same_queues d d' \<longleftrightarrow>
     priv_init d' = priv_init d \<and> priv_tx d' = priv_tx d \<and> priv_free d' = priv_free d \<and>
     unlink_tx d' = unlink_tx d \<and> unlink_free d' = unlink_free d \<and>
     sd_next d' = sd_next d \<and> sd_flight d' = sd_flight d"

text \<open>\<open>d'\<close> has one more request, with sequence number \<open>s\<close>.\<close>

definition one_more :: "u64 \<Rightarrow> stub_device \<Rightarrow> stub_device \<Rightarrow> bool" where
  "one_more s d d' \<longleftrightarrow>
     (\<exists>u. priv_init d' = priv_init d @ [\<lparr>sp_id = sd_next d, sp_seqnum = s, sp_urb = u, sp_unlinking = False\<rparr>] \<and>
          (sd_flight d' = sd_flight d \<or> sd_flight d' = sd_next d # sd_flight d \<and> u \<noteq> None)) \<and>
     priv_tx d' = priv_tx d \<and> priv_free d' = priv_free d \<and>
     unlink_tx d' = unlink_tx d \<and> unlink_free d' = unlink_free d \<and> sd_next d' = Suc (sd_next d)"

definition ids_below :: "stub_device \<Rightarrow> bool" where
  "ids_below d \<longleftrightarrow> (\<forall>p \<in> set (priv_init d @ priv_tx d @ priv_free d). sp_id p < sd_next d)"

lemma same_queues_event [simp]:
  "same_queues d (d'\<lparr>ud_event := e\<rparr>) = same_queues d d'"
  "one_more s d (d'\<lparr>ud_event := e\<rparr>) = one_more s d d'"
  "same_queues d (usbip_event_add e d') = same_queues d d'"
  "one_more s d (usbip_event_add e d') = one_more s d d'"
  by (simp_all add: same_queues_def one_more_def usbip_event_add_def)

lemma one_more_put_urb:
  assumes "ids_below d" and "one_more s d d'"
  shows "one_more s d (put_urb (sd_next d) u d')"
proof -
  have "\<forall>p \<in> set (priv_init d). sp_id p \<noteq> sd_next d"
    using assms(1) unfolding ids_below_def by (metis Un_iff less_irrefl set_append)
  then have "map (\<lambda>p. if sp_id p = sd_next d then p\<lparr>sp_urb := Some u\<rparr> else p) (priv_init d) = priv_init d"
    by (intro map_idI) simp
  then show ?thesis
    using assms(2) unfolding one_more_def put_urb_def by fastforce
qed

lemma stub_priv_alloc_cases:
  assumes "stub_priv_alloc k d pdu w = (r, d', w')"
  shows "r = None \<and> same_queues d d' \<or>
    r = Some (sd_next d) \<and> one_more (ucast (seqnum (base pdu))) d d' \<and> sd_flight d' = sd_flight d"
  using assms
  by (auto simp: stub_priv_alloc_def same_queues_def one_more_def split: prod.splits if_splits)

lemma stub_build_urb_cases:
  assumes "ids_below d" and "stub_build_urb h k d pdu data w = (r, d', w')"
  shows "r = None \<and> same_queues d d' \<or>
    (r = None \<or> (\<exists>u. r = Some (sd_next d, u))) \<and>
      one_more (ucast (seqnum (base pdu))) d d' \<and> sd_flight d' = sd_flight d"
proof (cases "get_pipe (sd_udev d) (ep (base pdu)) (direction (base pdu))")
  case None
  with assms(2) show ?thesis by (auto simp: stub_build_urb_def same_queues_def)
next
  case (Some pipe)
  let ?s = "ucast (seqnum (base pdu)) :: u64"
  obtain a d1 w1 where al: "stub_priv_alloc k d pdu w = (a, d1, w1)" by (metis prod_cases3)
  show ?thesis
  proof (cases a)
    case None
    with al Some assms(2) stub_priv_alloc_cases [OF al] show ?thesis by (auto simp: stub_build_urb_def)
  next
    case (Some pid)
    with stub_priv_alloc_cases [OF al] have o: "one_more ?s d d1" "sd_flight d1 = sd_flight d"
      "pid = sd_next d" by auto
    have ev: "one_more ?s d (put_urb pid u d2)" "sd_flight (put_urb pid u d2) = sd_flight d"
      if "ev_only d1 d2" for d2 u
      using one_more_put_urb [OF assms(1)] o that by (auto simp: ev_only_def)
    have "(r = None \<or> (\<exists>u. r = Some (pid, u))) \<and>
        (d' = usbip_event_add SDEV_EVENT_ERROR_MALLOC d1 \<or>
         (\<exists>u d2. ev_only d1 d2 \<and> (d' = put_urb pid u d2 \<or> d' = usbip_event_add SDEV_EVENT_ERROR_MALLOC (put_urb pid u d2))))"
      using assms(2) \<open>get_pipe _ _ _ = Some pipe\<close> al Some unfolding stub_build_urb_def Let_def
      by (auto split: prod.splits if_splits dest!: recv_data_frame)
    then show ?thesis using o ev by auto
  qed
qed

lemma one_more_urb:
  assumes "ids_below d" and "one_more s d d'"
  shows "\<exists>v. sp_urb (last (priv_init (put_urb (sd_next d) u d'))) = Some v \<and>
    priv_init (put_urb (sd_next d) u d') = priv_init d @
      [\<lparr>sp_id = sd_next d, sp_seqnum = s, sp_urb = Some v, sp_unlinking = False\<rparr>]"
proof -
  have "\<forall>p \<in> set (priv_init d). sp_id p \<noteq> sd_next d"
    using assms(1) unfolding ids_below_def by (metis Un_iff less_irrefl set_append)
  then have "map (\<lambda>p. if sp_id p = sd_next d then p\<lparr>sp_urb := Some u\<rparr> else p) (priv_init d) = priv_init d"
    by (intro map_idI) simp
  with assms(2) show ?thesis by (auto simp: one_more_def put_urb_def)
qed

lemma stub_recv_cmd_submit_cases:
  assumes "ids_below d" and "stub_recv_cmd_submit h k d pdu w = (d', w')"
  shows "same_queues d d' \<or> one_more (ucast (seqnum (base pdu))) d d'"
proof -
  let ?s = "ucast (seqnum (base pdu)) :: u64"
  obtain r d1 w1 where b: "stub_build_urb h k d pdu None w = (r, d1, w1)" by (metis prod_cases3)
  show ?thesis
  proof (cases r)
    case None
    with b assms(2) stub_build_urb_cases [OF assms(1) b] show ?thesis
      by (auto simp: stub_recv_cmd_submit_def)
  next
    case (Some pu)
    with stub_build_urb_cases [OF assms(1) b] obtain u where
      o: "one_more ?s d d1" "sd_flight d1 = sd_flight d" "pu = (sd_next d, u)" by auto
    obtain ret v w2 where f: "usbip_filter_on_rx k d1 pdu u w1 = (ret, v, w2)" by (metis prod_cases3)
    let ?d2 = "put_urb (sd_next d) v d1"
    have o2: "one_more ?s d ?d2" using one_more_put_urb [OF assms(1) o(1)] .
    obtain x where x: "priv_init ?d2 = priv_init d @
        [\<lparr>sp_id = sd_next d, sp_seqnum = ?s, sp_urb = Some x, sp_unlinking = False\<rparr>]"
      using one_more_urb [OF assms(1) o(1)] by blast
    obtain q w3 where sm: "usb_submit_urb k (sd_next d) v w2 = (q, w3)" by fastforce
    have "d' = ?d2 \<or> d' = usbip_event_add SDEV_EVENT_ERROR_SUBMIT ?d2 \<or>
      d' = ?d2\<lparr>sd_flight := sd_next d # sd_flight ?d2\<rparr>"
      using assms(2) b Some o(3) f sm
      by (auto simp: stub_recv_cmd_submit_def Let_def stub_submit_urb_def split: if_splits)
    then show ?thesis
      using o2 x o(2) by (auto simp: one_more_def)
  qed
qed

section \<open>The invariant\<close>

definition all_privs :: "stub_device \<Rightarrow> stub_priv list" where
  "all_privs d = priv_init d @ priv_tx d @ priv_free d"

text \<open>A request is in exactly one queue; requests the USB core owns, and none else, are in flight, and
  are waiting in \<open>priv_init\<close> with their urb; requests on their way out have one; sequence
  numbers are those of 32-bit packet fields.\<close>

definition stub_inv :: "stub_device \<Rightarrow> bool" where
  "stub_inv d \<longleftrightarrow>
     distinct (map sp_id (all_privs d)) \<and> ids_below d \<and>
     distinct (sd_flight d) \<and>
     (\<forall>i \<in> set (sd_flight d). \<exists>p \<in> set (priv_init d). sp_id p = i \<and> sp_urb p \<noteq> None) \<and>
     (\<forall>p \<in> set (priv_tx d @ priv_free d). sp_urb p \<noteq> None) \<and>
     (\<forall>p \<in> set (all_privs d). sp_seqnum p < 2 ^ 32) \<and>
     (\<forall>x \<in> set (unlink_tx d @ unlink_free d). su_seqnum x < 2 ^ 32)"

lemma stub_inv_same_queues: "same_queues d d' \<Longrightarrow> stub_inv d' = stub_inv d"
  by (simp add: stub_inv_def same_queues_def all_privs_def ids_below_def)

lemma ucast_less [simp]: "(ucast (x :: u32) :: u64) < 2 ^ 32"
  using unsigned_less [of x, where 'a = nat]
  by (simp add: word_less_nat_alt unsigned_ucast_eq)
    (rule le_less_trans [OF take_bit_nat_less_eq_self])

lemma stub_invD:
  assumes "stub_inv d"
  shows "distinct (map sp_id (all_privs d))" "ids_below d" "distinct (sd_flight d)"
    "\<forall>i \<in> set (sd_flight d). \<exists>p \<in> set (priv_init d). sp_id p = i \<and> sp_urb p \<noteq> None"
    "\<forall>p \<in> set (priv_tx d @ priv_free d). sp_urb p \<noteq> None"
    "\<forall>p \<in> set (all_privs d). sp_seqnum p < 2 ^ 32"
    "\<forall>x \<in> set (unlink_tx d @ unlink_free d). su_seqnum x < 2 ^ 32"
  using assms unfolding stub_inv_def by blast+

lemma ids_belowD: "ids_below d \<Longrightarrow> p \<in> set (all_privs d) \<Longrightarrow> sp_id p < sd_next d"
  by (simp add: ids_below_def all_privs_def)

lemma stub_inv_one_more:
  assumes "stub_inv d" and "one_more s d d'" and "s < 2 ^ 32"
  shows "stub_inv d'"
proof -
  note i = stub_invD [OF assms(1)]
  have new: "sd_next d \<notin> sp_id ` set (all_privs d)"
    using ids_belowD [OF i(2)] by (metis imageE less_irrefl)
  moreover have "set (sd_flight d) \<subseteq> sp_id ` set (all_privs d)"
    using i(4) unfolding all_privs_def by fastforce
  ultimately have new2: "sd_next d \<notin> set (sd_flight d)" by blast
  from assms(2) obtain u where q: "priv_init d' = priv_init d @
      [\<lparr>sp_id = sd_next d, sp_seqnum = s, sp_urb = u, sp_unlinking = False\<rparr>]"
    "sd_flight d' = sd_flight d \<or> sd_flight d' = sd_next d # sd_flight d \<and> u \<noteq> None"
    "priv_tx d' = priv_tx d" "priv_free d' = priv_free d" "unlink_tx d' = unlink_tx d"
    "unlink_free d' = unlink_free d" "sd_next d' = Suc (sd_next d)"
    unfolding one_more_def by blast
  show ?thesis
    unfolding stub_inv_def
  proof (intro conjI)
    show "distinct (map sp_id (all_privs d'))"
      using i(1) new q(1,3,4) by (simp add: all_privs_def) blast
    show "ids_below d'" using i(2) q by (simp add: ids_below_def less_SucI)
    show "distinct (sd_flight d')" using i(3) q(2) new2 by auto
    show "\<forall>i \<in> set (sd_flight d'). \<exists>p \<in> set (priv_init d'). sp_id p = i \<and> sp_urb p \<noteq> None"
      using i(4) q(1,2) by fastforce
    show "\<forall>p \<in> set (priv_tx d' @ priv_free d'). sp_urb p \<noteq> None" using i(5) q by simp
    show "\<forall>p \<in> set (all_privs d'). sp_seqnum p < 2 ^ 32"
      using i(6) q assms(3) by (auto simp: all_privs_def)
    show "\<forall>x \<in> set (unlink_tx d' @ unlink_free d'). su_seqnum x < 2 ^ 32" using i(7) q by simp
  qed
qed

text \<open>Changing requests in place, without dropping an urb.\<close>

definition same_req :: "stub_priv \<Rightarrow> stub_priv \<Rightarrow> bool" where
  "same_req p q \<longleftrightarrow> sp_id q = sp_id p \<and> (sp_urb p \<noteq> None \<longrightarrow> sp_urb q \<noteq> None)"

lemma same_req_ids: "list_all2 same_req xs ys \<Longrightarrow> map sp_id ys = map sp_id xs"
  by (induction rule: list_all2_induct) (auto simp: same_req_def)

lemma same_req_ex:
  "list_all2 same_req xs ys \<Longrightarrow> p \<in> set xs \<Longrightarrow> \<exists>q\<in>set ys. same_req p q"
  by (induction rule: list_all2_induct) auto

lemma stub_inv_in_place:
  assumes "stub_inv d" and "list_all2 same_req (priv_init d) (priv_init d')"
    and "\<forall>p \<in> set (priv_init d'). sp_seqnum p < 2 ^ 32"
    and "priv_tx d' = priv_tx d" "priv_free d' = priv_free d" "sd_next d' = sd_next d"
    and "distinct (sd_flight d')" "set (sd_flight d') \<subseteq> set (sd_flight d)"
    and "\<forall>x \<in> set (unlink_tx d' @ unlink_free d'). su_seqnum x < 2 ^ 32"
  shows "stub_inv d'"
proof -
  note i = stub_invD [OF assms(1)] and ids = same_req_ids [OF assms(2)]
  show ?thesis
    unfolding stub_inv_def
  proof (intro conjI)
    show "distinct (map sp_id (all_privs d'))"
      using i(1) ids assms(4,5) by (simp add: all_privs_def)
    have "sp_id ` set (priv_init d') = sp_id ` set (priv_init d)"
      using ids by (metis list.set_map)
    then show "ids_below d'"
      using i(2) assms(4-6) unfolding ids_below_def
      by (metis (no_types, lifting) Un_iff image_eqI imageE set_append)
    show "distinct (sd_flight d')" by fact
    show "\<forall>i \<in> set (sd_flight d'). \<exists>p \<in> set (priv_init d'). sp_id p = i \<and> sp_urb p \<noteq> None"
    proof
      fix x assume "x \<in> set (sd_flight d')"
      with i(4) assms(8) obtain p where "p \<in> set (priv_init d)" "sp_id p = x" "sp_urb p \<noteq> None" by blast
      with same_req_ex [OF assms(2)] show "\<exists>p \<in> set (priv_init d'). sp_id p = x \<and> sp_urb p \<noteq> None"
        by (metis same_req_def)
    qed
    show "\<forall>p \<in> set (priv_tx d' @ priv_free d'). sp_urb p \<noteq> None" using i(5) assms(4,5) by simp
    show "\<forall>p \<in> set (all_privs d'). sp_seqnum p < 2 ^ 32"
      using i(6) assms(3-5) by (simp add: all_privs_def ball_Un)
    show "\<forall>x \<in> set (unlink_tx d' @ unlink_free d'). su_seqnum x < 2 ^ 32" by fact
  qed
qed

lemma update_first_same_req:
  "(\<And>q. sp_id (f q) = sp_id q \<and> sp_urb (f q) = sp_urb q) \<Longrightarrow> list_all2 same_req xs (update_first P f xs)"
  by (induction P f xs rule: update_first.induct) (auto simp: same_req_def list_all2_refl)

lemma update_first_set: "p \<in> set (update_first P f xs) \<Longrightarrow> p \<in> set xs \<or> (\<exists>q\<in>set xs. p = f q)"
  by (induction P f xs rule: update_first.induct) (auto split: if_splits)

lemma put_urb_same_req: "list_all2 same_req (priv_init d) (priv_init (put_urb i u d))"
  by (auto simp: put_urb_def same_req_def list_all2_conv_all_nth)

lemma put_urb_seq: "p \<in> set (priv_init (put_urb i u d)) \<Longrightarrow> \<exists>q\<in>set (priv_init d). sp_seqnum p = sp_seqnum q"
  by (fastforce simp: put_urb_def)

lemma stub_inv_init_seq: "stub_inv d \<Longrightarrow> p \<in> set (priv_init d) \<Longrightarrow> sp_seqnum p < 2 ^ 32"
  using stub_invD(6) [of d] by (simp add: all_privs_def)

lemma stub_inv_enqueue:
  assumes "stub_inv d" and "stub_enqueue_ret_unlink k d s st w = (d', w')"
  shows "stub_inv d'"
  using assms(1)
proof (rule stub_inv_in_place)
  show "list_all2 same_req (priv_init d) (priv_init d')" "priv_tx d' = priv_tx d"
    "priv_free d' = priv_free d" "sd_next d' = sd_next d" "set (sd_flight d') \<subseteq> set (sd_flight d)"
    "distinct (sd_flight d')"
    using assms stub_invD(3) [OF assms(1)]
    by (auto simp: stub_enqueue_ret_unlink_def same_req_def list_all2_same split: prod.splits if_splits)
  show "\<forall>p\<in>set (priv_init d'). sp_seqnum p < 2 ^ 32"
    using assms stub_inv_init_seq [OF assms(1)]
    by (auto simp: stub_enqueue_ret_unlink_def split: prod.splits if_splits)
  show "\<forall>x\<in>set (unlink_tx d' @ unlink_free d'). su_seqnum x < 2 ^ 32"
    using assms(2) stub_invD(7) [OF assms(1)] ucast_less [of s]
    by (auto simp: stub_enqueue_ret_unlink_def split: prod.splits if_splits)
qed

lemma stub_inv_oops [simp]: "stub_inv (d\<lparr>sd_oops := b\<rparr>) = stub_inv d"
  by (rule stub_inv_same_queues) (simp add: same_queues_def)

lemma stub_inv_event [simp]: "stub_inv (usbip_event_add e d) = stub_inv d"
  by (rule stub_inv_same_queues) (simp add: same_queues_def)

lemma stub_inv_unlink:
  assumes "stub_inv d" and "stub_recv_cmd_unlink h k d pdu w = (d', w')"
  shows "stub_inv d'"
proof (cases "List.find (\<lambda>p. sp_seqnum p = ucast (cu_seqnum (get_cmd_unlink h pdu))) (priv_init d)")
  case None
  with assms stub_inv_enqueue show ?thesis by (auto simp: stub_recv_cmd_unlink_def Let_def)
next
  case (Some p)
  let ?f = "\<lambda>q. q\<lparr>sp_unlinking := True, sp_seqnum := ucast (seqnum (base pdu))\<rparr>"
  let ?P = "\<lambda>p. sp_seqnum p = ucast (cu_seqnum (get_cmd_unlink h pdu))"
  have "stub_inv (d\<lparr>priv_init := update_first ?P ?f (priv_init d)\<rparr>)"
    using assms(1)
  proof (rule stub_inv_in_place)
    show "\<forall>p\<in>set (priv_init (d\<lparr>priv_init := update_first ?P ?f (priv_init d)\<rparr>)). sp_seqnum p < 2 ^ 32"
      using stub_inv_init_seq [OF assms(1)] ucast_less by (auto dest!: update_first_set)
  qed (use stub_invD(3,7) [OF assms(1)] in \<open>auto intro: update_first_same_req\<close>)
  with Some assms show ?thesis
    by (auto simp: stub_recv_cmd_unlink_def Let_def split: if_splits)
qed

lemma stub_inv_rx_pdu:
  assumes "stub_inv d" and "stub_rx_pdu h k d w = (d', w')"
  shows "stub_inv d'"
proof -
  have sub: "stub_inv d'" if "stub_recv_cmd_submit h k d pdu w1 = (d', w')" for pdu w1
    using stub_recv_cmd_submit_cases [OF stub_invD(2) [OF assms(1)] that] assms(1)
      stub_inv_one_more [OF assms(1) _ ucast_less] stub_inv_same_queues by blast
  show ?thesis
    using assms(2) assms(1) sub stub_inv_unlink [OF assms(1)]
    unfolding stub_rx_pdu_def Let_def by (auto split: prod.splits if_splits)
qed

lemma stub_inv_land:
  assumes "stub_inv d"
  shows "stub_inv (d\<lparr>sd_flight := remove1 i (sd_flight d)\<rparr>)"
  using assms
  by (rule stub_inv_in_place)
    (use stub_invD(3,7) [OF assms] stub_inv_init_seq [OF assms] set_remove1_subset in
      \<open>auto simp: same_req_def list_all2_same distinct_remove1 dest: set_remove1_subset [THEN subsetD]\<close>)

lemma stub_inv_put_urb:
  assumes "stub_inv d"
  shows "stub_inv (put_urb i u d)"
  using assms
  by (rule stub_inv_in_place)
    (use stub_invD(3,7) [OF assms] stub_inv_init_seq [OF assms] put_urb_same_req in
      \<open>auto dest: put_urb_seq\<close>)

text \<open>Freeing a request that is not in flight.\<close>

lemma stub_inv_free:
  assumes "stub_inv d" and "i \<notin> set (sd_flight d)"
  shows "stub_inv (stub_free_priv_and_urb i d)"
proof -
  note v = stub_invD [OF assms(1)]
  have all: "all_privs (stub_free_priv_and_urb i d) = filter (\<lambda>p. sp_id p \<noteq> i) (all_privs d)"
    by (simp add: all_privs_def stub_free_priv_and_urb_def)
  show ?thesis
    unfolding stub_inv_def
  proof (intro conjI)
    show "distinct (map sp_id (all_privs (stub_free_priv_and_urb i d)))"
      unfolding all using v(1) by (rule distinct_map_filter)
    show "ids_below (stub_free_priv_and_urb i d)"
      using v(2) by (simp add: ids_below_def stub_free_priv_and_urb_def ball_Un)
    show "\<forall>x \<in> set (sd_flight (stub_free_priv_and_urb i d)).
        \<exists>p \<in> set (priv_init (stub_free_priv_and_urb i d)). sp_id p = x \<and> sp_urb p \<noteq> None"
      using v(4) assms(2) by (fastforce simp: stub_free_priv_and_urb_def)
    show "\<forall>p \<in> set (all_privs (stub_free_priv_and_urb i d)). sp_seqnum p < 2 ^ 32"
      unfolding all using v(6) by simp
  qed (use v(3,5,7) in \<open>auto simp: stub_free_priv_and_urb_def\<close>)
qed

text \<open>A completed request moves to the queue of the sender.\<close>

lemma stub_inv_move_tx:
  assumes "stub_inv d" and "unlink_first (\<lambda>p. sp_id p = i) (priv_init d) = (Some p, rest)"
    and "i \<notin> set (sd_flight d)"
  shows "stub_inv (d\<lparr>priv_init := rest, priv_tx := priv_tx d @ [p\<lparr>sp_urb := Some u\<rparr>]\<rparr>)" (is "stub_inv ?d'")
proof -
  obtain us vs where l: "priv_init d = us @ p # vs" "rest = us @ vs" "sp_id p = i"
    using unlink_first_Some [OF assms(2)] by blast
  note v = stub_invD [OF assms(1)]
  show ?thesis
    unfolding stub_inv_def
  proof (intro conjI)
    show "distinct (map sp_id (all_privs ?d'))"
      using v(1) l by (auto simp: all_privs_def)
    show "ids_below ?d'" using v(2) l by (auto simp: ids_below_def)
    show "\<forall>x \<in> set (sd_flight ?d'). \<exists>p \<in> set (priv_init ?d'). sp_id p = x \<and> sp_urb p \<noteq> None"
      using v(4) assms(3) l by fastforce
    show "\<forall>p \<in> set (all_privs ?d'). sp_seqnum p < 2 ^ 32"
      using v(6) l by (auto simp: all_privs_def)
  qed (use v(3,5,7) in auto)
qed

lemma enqueue_flight: "stub_enqueue_ret_unlink k d s st w = (d', w') \<Longrightarrow> sd_flight d' = sd_flight d"
  by (auto simp: stub_enqueue_ret_unlink_def split: prod.splits if_splits)

lemma stub_inv_complete:
  assumes "stub_inv d" and "stub_complete k d i u w = (d', w')"
  shows "stub_inv d'"
proof -
  let ?d = "d\<lparr>sd_flight := remove1 i (sd_flight d)\<rparr>"
  have l: "stub_inv ?d" using stub_inv_land [OF assms(1)] .
  have n: "i \<notin> set (sd_flight ?d)" using stub_invD(3) [OF assms(1)] by simp
  have fr: "stub_inv (stub_free_priv_and_urb i d1)"
    if "stub_enqueue_ret_unlink k ?d s st w1 = (d1, w2)" for s st w1 d1 w2
    using stub_inv_free [OF stub_inv_enqueue [OF l that]] enqueue_flight [OF that] n by simp
  show ?thesis
    using assms(2) stub_inv_put_urb [OF l] l stub_inv_move_tx [OF l _ n] fr
    unfolding stub_complete_def Let_def
    by (auto split: prod.splits option.splits if_splits)
qed

text \<open>A request in flight is where the completion handler looks for it.\<close>

lemma stub_complete_no_oops:
  assumes "stub_inv d" and "i \<in> set (sd_flight d)" and "stub_complete k d i u w = (d', w')"
  shows "sd_oops d' = sd_oops d"
proof -
  obtain p where p: "p \<in> set (priv_init d)" "sp_id p = i" using stub_invD(4) [OF assms(1)] assms(2) by blast
  obtain q rest where q: "unlink_first (\<lambda>p. sp_id p = i) (priv_init d) = (Some q, rest)"
    using unlink_first_exists [of p "priv_init d" "\<lambda>p. sp_id p = i"] p by blast
  show ?thesis
    using assms(3) q unfolding stub_complete_def Let_def
    by (auto split: prod.splits if_splits
        simp: stub_enqueue_ret_unlink_def stub_free_priv_and_urb_def)
qed

section \<open>Sending\<close>

lemma stub_inv_dequeue:
  assumes "stub_inv d" and "dequeue_from_priv_tx d = (Some p, d')"
  shows "stub_inv d'"
proof -
  obtain ps where q: "priv_tx d = p # ps" "d' = d\<lparr>priv_tx := ps, priv_free := priv_free d @ [p]\<rparr>"
    using assms(2) by (auto simp: dequeue_from_priv_tx_def split: list.splits)
  show ?thesis
    using stub_invD [OF assms(1)] q unfolding stub_inv_def all_privs_def ids_below_def by simp
qed

lemma same_queues_oops_event:
  "d' = d\<lparr>ud_event := e, sd_oops := b\<rparr> \<Longrightarrow> same_queues d d'"
  by (simp add: same_queues_def)

lemma stub_inv_send_loop:
  "send_ret_submit_loop h k tot d w = (r, d', w') \<Longrightarrow> stub_inv d \<Longrightarrow> stub_inv d'"
proof (induction h k tot d w rule: send_ret_submit_loop.induct)
  case (1 h k tot d w)
  show ?case
  proof (cases "fst (dequeue_from_priv_tx d)")
    case None
    with "1.prems" show ?thesis
      by (auto simp: send_ret_submit_loop.simps [of h k tot d w] split: prod.splits)
  next
    case (Some p)
    then obtain d1 where q: "dequeue_from_priv_tx d = (Some p, d1)" by (metis prod.collapse)
    obtain ok n d2 w2 where o: "send_one_ret_submit h k d1 p w = (ok, n, d2, w2)" by (metis prod_cases4)
    have "stub_inv d2"
      using stub_inv_dequeue [OF "1.prems"(2) q] stub_inv_same_queues
        [OF same_queues_oops_event [OF send_one_frame [OF o]]] by simp
    with "1.prems"(1) "1.IH" [OF q [symmetric] refl o [symmetric] refl refl] q o show ?thesis
      by (auto simp: send_ret_submit_loop.simps [of h k tot d w] split: if_splits)
  qed
qed

lemma free_flight [simp]: "sd_flight (stub_free_priv_and_urb i d) = sd_flight d"
  by (simp add: stub_free_priv_and_urb_def)

lemma stub_inv_free_all:
  "stub_inv d \<Longrightarrow> \<forall>p\<in>set ps. sp_id p \<notin> set (sd_flight d) \<Longrightarrow>
   stub_inv (fold (\<lambda>p. stub_free_priv_and_urb (sp_id p)) ps d)"
  by (induction ps arbitrary: d) (auto simp: stub_inv_free)

lemma sent_not_in_flight:
  assumes "stub_inv d" and "p \<in> set (priv_tx d @ priv_free d)"
  shows "sp_id p \<notin> set (sd_flight d)"
proof
  assume "sp_id p \<in> set (sd_flight d)"
  then obtain q where "q \<in> set (priv_init d)" "sp_id q = sp_id p" using stub_invD(4) [OF assms(1)] by blast
  with stub_invD(1) [OF assms(1)] assms(2) show False
    by (auto simp: all_privs_def)
qed

lemma stub_inv_send_ret_submit:
  assumes "stub_inv d" and "stub_send_ret_submit h k d w = (r, d', w')"
  shows "stub_inv d'"
proof -
  obtain q d1 w1 where l: "send_ret_submit_loop h k 0 d w = (q, d1, w1)" by (metis prod_cases3)
  have "stub_inv d1" using stub_inv_send_loop [OF l assms(1)] .
  then show ?thesis
    using assms(2) l sent_not_in_flight [of d1] stub_inv_free_all [of d1 "priv_free d1"]
    by (auto simp: stub_send_ret_submit_def split: option.splits)
qed

lemma send_unlink_loop_frame:
  "send_ret_unlink_loop h k tot d w = (r, d', w') \<Longrightarrow> stub_inv d \<Longrightarrow> stub_inv d'"
proof (induction h k tot d w rule: send_ret_unlink_loop.induct)
  case (1 h k tot d w)
  show ?case
  proof (cases "fst (dequeue_from_unlink_tx d)")
    case None
    with "1.prems" show ?thesis
      by (auto simp: send_ret_unlink_loop.simps [of h k tot d w] split: prod.splits)
  next
    case (Some x)
    then obtain d1 where q: "dequeue_from_unlink_tx d = (Some x, d1)" by (metis prod.collapse)
    obtain ok n d2 w2 where o: "send_one_ret_unlink h k d1 x w = (ok, n, d2, w2)" by (metis prod_cases4)
    obtain xs where "unlink_tx d = x # xs" "d1 = d\<lparr>unlink_tx := xs, unlink_free := unlink_free d @ [x]\<rparr>"
      using q by (auto simp: dequeue_from_unlink_tx_def split: list.splits)
    then have "stub_inv d1"
      using stub_invD [OF "1.prems"(2)] unfolding stub_inv_def all_privs_def ids_below_def by simp
    then have "stub_inv d2"
      using stub_inv_same_queues [OF same_queues_oops_event [OF send_one_unlink_frame [OF o]]] by simp
    with "1.prems"(1) "1.IH" [OF q [symmetric] refl o [symmetric] refl refl] q o show ?thesis
      by (auto simp: send_ret_unlink_loop.simps [of h k tot d w] split: if_splits)
  qed
qed

lemma stub_inv_send_ret_unlink:
  assumes "stub_inv d" and "stub_send_ret_unlink h k d w = (r, d', w')"
  shows "stub_inv d'"
proof -
  obtain q d1 w1 where l: "send_ret_unlink_loop h k 0 d w = (q, d1, w1)" by (metis prod_cases3)
  have "stub_inv d1" using send_unlink_loop_frame [OF l assms(1)] .
  moreover have "stub_inv (d1\<lparr>unlink_free := []\<rparr>)"
    using stub_invD [OF \<open>stub_inv d1\<close>] unfolding stub_inv_def all_privs_def ids_below_def by simp
  ultimately show ?thesis
    using assms(2) l by (auto simp: stub_send_ret_unlink_def split: option.splits)
qed

section \<open>Clean-up\<close>

lemma stub_priv_pop_Some:
  assumes "stub_priv_pop d = (Some p, d')"
  shows "all_privs d = p # all_privs d' \<and>
    d' = d\<lparr>priv_init := priv_init d', priv_tx := priv_tx d', priv_free := priv_free d'\<rparr>"
  using assms by (auto simp: stub_priv_pop_def all_privs_def split: list.splits)

lemma stub_priv_pop_None: "stub_priv_pop d = (None, d') \<Longrightarrow> all_privs d = []"
  by (auto simp: stub_priv_pop_def all_privs_def split: list.splits)

lemma cleanup_urbs:
  assumes "\<forall>p \<in> set (all_privs d). sp_urb p \<noteq> None"
    and "stub_device_cleanup_urbs k d w = (d', w')"
  shows "d' = d\<lparr>priv_init := [], priv_tx := [], priv_free := [],
      sd_flight := fold (\<lambda>p. remove1 (sp_id p)) (all_privs d) (sd_flight d)\<rparr> \<and>
    w' = fold (\<lambda>p. usb_kill_urb k (sp_id p)) (all_privs d) w"
  using assms
proof (induction k d w rule: stub_device_cleanup_urbs.induct)
  case (1 k d w)
  show ?case
  proof (cases "fst (stub_priv_pop d)")
    case None
    then obtain d1 where p: "stub_priv_pop d = (None, d1)" by (metis prod.collapse)
    with "1.prems"(2) have "d' = d" "w' = w"
      by (auto simp: stub_device_cleanup_urbs.simps [of k d])
    with stub_priv_pop_None [OF p] show ?thesis by (auto simp: all_privs_def)
  next
    case (Some p)
    then obtain d1 where q: "stub_priv_pop d = (Some p, d1)" by (metis prod.collapse)
    note a = stub_priv_pop_Some [OF q]
    then obtain u where u: "sp_urb p = Some u" using "1.prems"(1) by auto
    let ?d = "d1\<lparr>sd_flight := remove1 (sp_id p) (sd_flight d1)\<rparr>"
    have r: "stub_device_cleanup_urbs k ?d (usb_kill_urb k (sp_id p) w) = (d', w')"
      using "1.prems"(2) q u by (simp add: stub_device_cleanup_urbs.simps [of k d])
    have al: "all_privs ?d = all_privs d1" by (simp add: all_privs_def)
    then have "\<forall>p \<in> set (all_privs ?d). sp_urb p \<noteq> None" using "1.prems"(1) a by simp
    note IH = "1.IH" [OF q [symmetric] refl u this r]
    have f: "sd_flight d1 = sd_flight d" using arg_cong [OF conjunct2 [OF a], of sd_flight] by simp
    have "d1\<lparr>priv_init := [], priv_tx := [], priv_free := [], sd_flight := x\<rparr> =
        d\<lparr>priv_init := [], priv_tx := [], priv_free := [], sd_flight := x\<rparr>" for x
      using arg_cong [OF conjunct2 [OF a],
          of "\<lambda>e. e\<lparr>priv_init := [], priv_tx := [], priv_free := [], sd_flight := x\<rparr>"] by simp
    with IH f al conjunct1 [OF a] show ?thesis by simp
  qed
qed

lemma fold_remove1: "distinct xs \<Longrightarrow> set xs \<subseteq> set (map f ys) \<Longrightarrow> fold (\<lambda>p. remove1 (f p)) ys xs = []"
proof (induction ys arbitrary: xs)
  case (Cons y ys)
  then have "set (remove1 (f y) xs) \<subseteq> set (map f ys)" by auto
  with Cons show ?case by (simp add: distinct_remove1)
qed simp

lemma stop_thread_frame:
  "stop_thread k t (d, w) = (d', w') \<Longrightarrow> \<exists>b. d' = d\<lparr>sd_oops := b\<rparr>"
  by (auto simp: stop_thread_def split: option.splits sum.splits intro: exI [of _ "sd_oops d"])

lemma flight_sub: "stub_inv d \<Longrightarrow> set (sd_flight d) \<subseteq> set (map sp_id (all_privs d))"
  using stub_invD(4) [of d] by (fastforce simp: all_privs_def)

text \<open>\<open>kthread_run\<close> started a thread, or there is none.\<close>

definition real_thread :: "thread option \<Rightarrow> bool" where
  "real_thread t \<longleftrightarrow> (\<forall>e. t \<noteq> Some (Inl e))"

lemma stop_real_thread: "real_thread t \<Longrightarrow> stop_thread k t (d, w) = (d', w') \<Longrightarrow> d' = d"
  by (auto simp: stop_thread_def real_thread_def split: option.splits sum.splits)

text \<open>After a shutdown nothing of the connection is left, and nothing was followed that is no object,
  provided every queued request has a urb and the threads are threads.\<close>

lemma shutdown_empties:
  assumes "stub_inv d" and "\<forall>p \<in> set (all_privs d). sp_urb p \<noteq> None"
    and "stub_shutdown_connection k d w = (d', w')" and "real_thread (tcp_rx d)" and "real_thread (tcp_tx d)"
  shows "d' = d\<lparr>priv_init := [], priv_tx := [], priv_free := [], sd_flight := [], unlink_tx := [],
    unlink_free := [], tcp_socket := None, tcp_rx := None, tcp_tx := None\<rparr>"
proof -
  obtain w1 where w1: "w1 = (case tcp_socket d of None \<Rightarrow> w | Some s \<Rightarrow> kernel_sock_shutdown k s w)" by simp
  obtain d2 w2 where s2: "stop_thread k (tcp_rx d) (d, w1) = (d2, w2)" by fastforce
  have d2: "d2 = d" by (rule stop_real_thread [OF assms(4) s2])
  obtain d3 w3 where s3: "stop_thread k (tcp_tx d2) (d2\<lparr>tcp_rx := None\<rparr>, w2) = (d3, w3)" by fastforce
  have d3: "d3 = d2\<lparr>tcp_rx := None\<rparr>" using stop_real_thread [OF _ s3] assms(5) d2 by simp
  let ?d4 = "d\<lparr>tcp_rx := None, tcp_tx := None, tcp_socket := None\<rparr>"
  obtain d5 w5 where c: "stub_device_cleanup_urbs k ?d4
      (case tcp_socket d of None \<Rightarrow> w3 | Some s \<Rightarrow> fput_socket k s w3) = (d5, w5)" by fastforce
  have al: "all_privs ?d4 = all_privs d" by (simp add: all_privs_def)
  have "sd_flight d5 = []"
    using cleanup_urbs [OF _ c] assms(2) al fold_remove1 [OF stub_invD(3) [OF assms(1)] flight_sub [OF assms(1)]]
    by simp
  moreover have "d' = d5\<lparr>unlink_tx := [], unlink_free := []\<rparr>"
    using assms(3) s2 s3 c w1 d2 d3 by (auto simp: stub_shutdown_connection_def Let_def)
  ultimately show ?thesis
    using cleanup_urbs [OF _ c] assms(2) al by (cases d) (auto simp: all_privs_def)
qed

lemma filter_id_notin: "i \<notin> sp_id ` set xs \<Longrightarrow> filter (\<lambda>p. sp_id p \<noteq> i) xs = xs"
  by (rule filter_True) auto

lemma stub_priv_pop_frees:
  assumes "stub_inv d" and "stub_priv_pop d = (Some p, d')"
  shows "d' = stub_free_priv_and_urb (sp_id p) d"
proof -
  note a = stub_priv_pop_Some [OF assms(2)] and v = stub_invD(1) [OF assms(1)]
  have "sp_id p \<notin> sp_id ` set (all_privs d')" using v a by simp
  then have n: "sp_id p \<notin> sp_id ` set (priv_init d')" "sp_id p \<notin> sp_id ` set (priv_tx d')"
    "sp_id p \<notin> sp_id ` set (priv_free d')" by (auto simp: all_privs_def)
  have "filter (\<lambda>q. sp_id q \<noteq> sp_id p) (priv_init d) = priv_init d' \<and>
      filter (\<lambda>q. sp_id q \<noteq> sp_id p) (priv_tx d) = priv_tx d' \<and>
      filter (\<lambda>q. sp_id q \<noteq> sp_id p) (priv_free d) = priv_free d'"
    using assms(2) n filter_id_notin unfolding stub_priv_pop_def
    by (auto split: list.splits simp: filter_id_notin)
  with a show ?thesis unfolding stub_free_priv_and_urb_def by simp
qed

lemma no_urb_not_in_flight:
  assumes "stub_inv d" and "p \<in> set (all_privs d)" and "sp_urb p = None"
  shows "sp_id p \<notin> set (sd_flight d)"
proof
  assume "sp_id p \<in> set (sd_flight d)"
  then obtain q where q: "q \<in> set (priv_init d)" "sp_id q = sp_id p" "sp_urb q \<noteq> None"
    using stub_invD(4) [OF assms(1)] by blast
  moreover have "q \<in> set (all_privs d)" using q(1) by (simp add: all_privs_def)
  ultimately have "q = p" using stub_invD(1) [OF assms(1)] assms(2) by (metis distinct_map inj_onD)
  with q assms(3) show False by simp
qed

lemma free_flight_commute:
  "stub_free_priv_and_urb i (d\<lparr>sd_flight := x\<rparr>) = (stub_free_priv_and_urb i d)\<lparr>sd_flight := x\<rparr>"
  by (cases d) (simp add: stub_free_priv_and_urb_def)

lemma cleanup_inv:
  "stub_device_cleanup_urbs k d w = (d', w') \<Longrightarrow> stub_inv d \<Longrightarrow> stub_inv d' \<and> ud_event d' = ud_event d"
proof (induction k d w rule: stub_device_cleanup_urbs.induct)
  case (1 k d w)
  show ?case
  proof (cases "fst (stub_priv_pop d)")
    case None
    then obtain d1 where "stub_priv_pop d = (None, d1)" by (metis prod.collapse)
    with "1.prems" show ?thesis by (auto simp: stub_device_cleanup_urbs.simps [of k d])
  next
    case (Some p)
    then obtain d1 where q: "stub_priv_pop d = (Some p, d1)" by (metis prod.collapse)
    let ?d = "d1\<lparr>sd_flight := remove1 (sp_id p) (sd_flight d1)\<rparr>"
    note v = stub_invD [OF "1.prems"(2)]
    have ev: "ud_event d1 = ud_event d"
      using arg_cong [OF conjunct2 [OF stub_priv_pop_Some [OF q]], of ud_event] by simp
    note pf = stub_priv_pop_frees [OF "1.prems"(2) q]
    have inv1: "stub_inv ?d"
      using stub_inv_free [OF stub_inv_land [OF "1.prems"(2)], of "sp_id p" "sp_id p"] v(3) pf
      by (simp add: free_flight_commute)
    have inv2: "stub_inv d1" if "sp_urb p = None"
      using stub_inv_free [OF "1.prems"(2), of "sp_id p"] pf that
        no_urb_not_in_flight [OF "1.prems"(2) _ that] stub_priv_pop_Some [OF q] by simp
    show ?thesis
    proof (cases "sp_urb p")
      case None
      with "1.prems" q ev inv2 show ?thesis by (auto simp: stub_device_cleanup_urbs.simps [of k d])
    next
      case (Some u)
      with "1.prems" q have "stub_device_cleanup_urbs k ?d (usb_kill_urb k (sp_id p) w) = (d', w')"
        by (simp add: stub_device_cleanup_urbs.simps [of k d])
      from "1.IH" [OF q [symmetric] refl Some this inv1] ev show ?thesis by simp
    qed
  qed
qed

lemma stub_inv_ud [simp]:
  "stub_inv (d\<lparr>tcp_socket := a\<rparr>) = stub_inv d" "stub_inv (d\<lparr>tcp_rx := b\<rparr>) = stub_inv d"
  "stub_inv (d\<lparr>tcp_tx := b\<rparr>) = stub_inv d" "stub_inv (d\<lparr>ud_status := c\<rparr>) = stub_inv d"
  by (rule stub_inv_same_queues, simp add: same_queues_def)+

lemma stub_inv_no_unlinks: "stub_inv d \<Longrightarrow> stub_inv (d\<lparr>unlink_tx := [], unlink_free := []\<rparr>)"
  by (simp add: stub_inv_def all_privs_def ids_below_def)

lemma stop_thread_inv:
  assumes "stop_thread k t (d, w) = (d', w')"
  shows "stub_inv d' = stub_inv d" "ud_event d' = ud_event d"
  using stop_thread_frame [OF assms] by auto

lemma shutdown_inv:
  assumes "stub_inv d" and "stub_shutdown_connection k d w = (d', w')"
  shows "stub_inv d'"
proof -
  let ?w = "case tcp_socket d of None \<Rightarrow> w | Some s \<Rightarrow> kernel_sock_shutdown k s w"
  obtain d2 w2 where s2: "stop_thread k (tcp_rx d) (d, ?w) = (d2, w2)" by fastforce
  obtain d3 w3 where s3: "stop_thread k (tcp_tx d2) (d2\<lparr>tcp_rx := None\<rparr>, w2) = (d3, w3)" by fastforce
  obtain d5 w5 where c: "stub_device_cleanup_urbs k (d3\<lparr>tcp_tx := None, tcp_socket := None\<rparr>)
      (case tcp_socket d3 of None \<Rightarrow> w3 | Some s \<Rightarrow> fput_socket k s w3) = (d5, w5)" by fastforce
  have "stub_inv d3" using stop_thread_inv(1) [OF s2] stop_thread_inv(1) [OF s3] assms(1) by simp
  then have "stub_inv d5" using cleanup_inv [OF c] by simp
  moreover have "d' = d5\<lparr>unlink_tx := [], unlink_free := []\<rparr>"
    using assms(2) s2 s3 c by (auto simp: stub_shutdown_connection_def Let_def)
  ultimately show ?thesis using stub_inv_no_unlinks by simp
qed

section \<open>Steps of the stub\<close>

text \<open>Everything that changes the queues of a device: the receiving thread handles a packet, the USB
  core completes a urb it owns, the sending thread empties a queue, an event is raised, a callback
  of the event handler runs, the user writes a socket descriptor, and the rest of the world moves
  on.\<close>

inductive stub_step :: "endian \<Rightarrow> 'w kapi \<Rightarrow> stub_device \<times> 'w \<Rightarrow> stub_device \<times> 'w \<Rightarrow> bool"
  for h :: endian and k :: "'w kapi" where
  rx: "\<not> usbip_event_happened d \<Longrightarrow> stub_step h k (d, w) (stub_rx_pdu h k d w)"
| complete: "i \<in> set (sd_flight d) \<Longrightarrow> stub_step h k (d, w) (stub_complete k d i u w)"
| tx_submit: "stub_send_ret_submit h k d w = (r, d', w') \<Longrightarrow> stub_step h k (d, w) (d', w')"
| tx_unlink: "stub_send_ret_unlink h k d w = (r, d', w') \<Longrightarrow> stub_step h k (d, w) (d', w')"
| event: "stub_step h k (d, w) (usbip_event_add e d, w)"
| shutdown: "stub_step h k (d, w) (stub_shutdown_connection k d w)"
| reset: "stub_step h k (d, w) (stub_device_reset k d w)"
| unusable: "stub_step h k (d, w) (stub_device_unusable d w)"
| sockfd: "store_sockfd k (Some d) buf cnt w = (r, Some d', w') \<Longrightarrow> stub_step h k (d, w) (d', w')"
| world: "stub_step h k (d, w) (d, w')"

inductive_cases stub_stepE: "stub_step h k (d, w) (d', w')"

lemma stub_inv_sockets:
  assumes "store_sockfd k (Some d) buf cnt w = (r, Some d', w')"
  shows "same_queues d d'"
  using assms
  by (auto simp: store_sockfd_def same_queues_def Let_def split: if_splits option.splits prod.splits)

lemma stub_inv_resets:
  "stub_device_reset k d w = (d', w') \<Longrightarrow> same_queues d d'"
  "stub_device_unusable d w = (d', w') \<Longrightarrow> same_queues d d'"
  by (auto simp: stub_device_reset_def stub_device_unusable_def same_queues_def split: if_splits prod.splits)

lemma stub_step_inv:
  assumes "stub_step h k (d, w) (d', w')" and "stub_inv d"
  shows "stub_inv d'"
  using assms(1)
proof cases
  case (rx)
  then show ?thesis using stub_inv_rx_pdu [OF assms(2)] by metis
next
  case (complete i u)
  then show ?thesis using stub_inv_complete [OF assms(2)] by metis
next
  case (tx_submit r)
  then show ?thesis using stub_inv_send_ret_submit [OF assms(2)] by metis
next
  case (tx_unlink r)
  then show ?thesis using stub_inv_send_ret_unlink [OF assms(2)] by metis
next
  case (event e)
  then show ?thesis using assms(2) by simp
next
  case shutdown
  then show ?thesis using shutdown_inv [OF assms(2)] by metis
next
  case reset
  then show ?thesis using stub_inv_same_queues [OF stub_inv_resets(1)] assms(2) by metis
next
  case unusable
  then show ?thesis using stub_inv_same_queues [OF stub_inv_resets(2)] assms(2) by metis
next
  case (sockfd buf cnt r)
  from stub_inv_same_queues [OF stub_inv_sockets [OF this]] assms(2) show ?thesis by simp
next
  case world
  then show ?thesis using assms(2) by simp
qed

lemma stub_steps_inv:
  "(stub_step h k)\<^sup>*\<^sup>* x y \<Longrightarrow> stub_inv (fst x) \<Longrightarrow> stub_inv (fst y)"
proof (induction rule: rtranclp_induct)
  case (step y z)
  then show ?case using stub_step_inv [of h k "fst y" "snd y" "fst z" "snd z"] by simp
qed

lemma stub_device_alloc_inv: "stub_device_alloc k udev w = (Some d, w') \<Longrightarrow> stub_inv d"
  by (auto simp: stub_device_alloc_def stub_inv_def all_privs_def ids_below_def usbip_start_eh_def Let_def
      split: prod.splits if_splits)

end
