(* ===== verification/StubProps.thy ===== *)
theory StubProps
  imports StubInv
begin

text \<open>
  Properties of the stub driver: its invariant in every reachable state, the accounting of replies
  (\<open>owed\<close>), what the sending thread puts on the network, the event handler with the stub's callbacks,
  and the guards of the receiving side.
\<close>

section \<open>Replies owed to the peer\<close>

definition reply_of :: "stub_priv \<Rightarrow> u32 \<times> u64" where
  "reply_of p = (if sp_unlinking p then USBIP_RET_UNLINK else USBIP_RET_SUBMIT, sp_seqnum p)"

definition owed :: "stub_device \<Rightarrow> (u32 \<times> u64) multiset" where
  "owed d = mset (map reply_of (priv_init d @ priv_tx d)) +
     mset (map (\<lambda>x. (USBIP_RET_UNLINK, su_seqnum x)) (unlink_tx d))"

lemma owed_same_queues: "same_queues d d' \<Longrightarrow> owed d' = owed d"
  by (simp add: owed_def same_queues_def)

lemma owed_one_more: "one_more s d d' \<Longrightarrow> owed d' = add_mset (USBIP_RET_SUBMIT, s) (owed d)"
  by (auto simp: owed_def one_more_def reply_of_def)

lemma ucast_up_down: "(s :: u64) < 2 ^ 32 \<Longrightarrow> ucast (ucast s :: u32) = s"
proof -
  assume "s < 2 ^ 32"
  then have "s AND mask 32 = s" by (rule less_mask_eq)
  then have "take_bit 32 s = s" by (simp add: take_bit_eq_mask)
  then show ?thesis by (auto simp: bit_simps intro!: bit_word_eqI) (metis bit_take_bit_iff)
qed

lemma no_filters [simp]:
  "ud_filters d = [] \<Longrightarrow> usbip_filter_on_tx k d u w = (0, u, w)"
  "ud_filters d = [] \<Longrightarrow> usbip_filter_on_rx k d pdu u w = (0, u, w)"
  by (simp_all add: usbip_filter_on_tx_def usbip_filter_on_rx_def)

lemma completion_owed:
  assumes "stub_inv d" and "i \<in> set (sd_flight d)" and "ud_filters d = []" and "u_status u \<noteq> - ENOENT"
    and "\<forall>w. fst (kzalloc k 32 w)" and "stub_complete k d i u w = (d', w')"
  shows "owed d' = owed d"
proof -
  let ?d = "d\<lparr>sd_flight := remove1 i (sd_flight d)\<rparr>"
  obtain p where p: "p \<in> set (priv_init d)" "sp_id p = i" using stub_invD(4) [OF assms(1)] assms(2) by blast
  obtain q rest where q: "unlink_first (\<lambda>p. sp_id p = i) (priv_init d) = (Some q, rest)"
    using p by (rule unlink_first_exists)
  obtain us vs where l: "priv_init d = us @ q # vs" "rest = us @ vs" "sp_id q = i"
    using unlink_first_Some [OF q] by auto
  have dis: "distinct (map sp_id (all_privs d))" using stub_invD(1) [OF assms(1)] .
  then have n: "i \<notin> sp_id ` set (us @ vs)" "i \<notin> sp_id ` set (priv_tx d)"
    using l by (auto simp: all_privs_def)
  have sq: "sp_seqnum q < 2 ^ 32" using stub_inv_init_seq [OF assms(1)] l(1) by simp
  show ?thesis
  proof (cases "sp_unlinking q")
    case False
    with assms(3,4,6) q l show ?thesis
      by (auto simp: stub_complete_def Let_def owed_def reply_of_def)
  next
    case True
    obtain w2 where k: "kzalloc k 32 w = (True, w2)" using assms(5) by (metis prod.collapse)
    have "d' = stub_free_priv_and_urb i (?d\<lparr>unlink_tx := unlink_tx d @
        [\<lparr>su_seqnum = ucast (ucast (sp_seqnum q) :: u32), su_status = u_status u\<rparr>]\<rparr>)"
      using assms(3,4,6) q True k by (auto simp: stub_complete_def Let_def stub_enqueue_ret_unlink_def)
    then show ?thesis
      using l n True filter_id_notin [of i "us @ vs"] filter_id_notin [OF n(2)] ucast_up_down [OF sq]
      by (simp add: owed_def stub_free_priv_and_urb_def reply_of_def)
  qed
qed

lemma find_split:
  "List.find P xs = Some x \<Longrightarrow> \<exists>us vs. xs = us @ x # vs \<and> P x \<and> (\<forall>u\<in>set us. \<not> P u)"
proof (induction xs)
  case (Cons a xs)
  show ?case
  proof (cases "P a")
    case True
    with Cons.prems have "a # xs = [] @ x # xs \<and> P x \<and> (\<forall>u\<in>set []. \<not> P u)" by simp
    then show ?thesis by (intro exI)
  next
    case False
    with Cons obtain us vs where "xs = us @ x # vs" "P x" "\<forall>u\<in>set us. \<not> P u" by auto
    with False have "a # xs = (a # us) @ x # vs \<and> P x \<and> (\<forall>u\<in>set (a # us). \<not> P u)" by simp
    then show ?thesis by (intro exI)
  qed
qed simp

lemma update_first_split:
  "\<forall>u\<in>set us. \<not> P u \<Longrightarrow> P x \<Longrightarrow> update_first P f (us @ x # vs) = us @ f x # vs"
  by (induction us) auto

section \<open>What is sent\<close>

definition ret_unlink_bytes :: "endian \<Rightarrow> stub_unlink \<Rightarrow> byte list" where
  "ret_unlink_bytes h x =
     mem_header h (usbip_header_correct_endian h (setup_ret_unlink_pdu h zero_header x) True)"

definition ret_submit_bytes :: "endian \<Rightarrow> stub_priv \<Rightarrow> byte list" where
  "ret_submit_bytes h p =
     (case sp_urb p of
        None \<Rightarrow> []
      | Some u \<Rightarrow>
          mem_header h (usbip_header_correct_endian h
            (setup_ret_submit_pdu h zero_header (sp_seqnum p) u) True) @
          fst (ret_submit_data u) @
          (if usb_pipetype (u_pipe u) = PIPE_ISOCHRONOUS
           then concat (map (pack_iso_send h) (iso_packets u)) else []))"

text \<open>A completed request as the hardware reports it: its data are inside its buffer, an isochronous
  one has all its descriptors, and their lengths add up to the actual length.\<close>

definition sendable :: "stub_priv \<Rightarrow> bool" where
  "sendable p \<longleftrightarrow>
     (\<exists>u. sp_urb p = Some u \<and> snd (snd (ret_submit_data u)) \<and>
        0 \<le> sint (number_of_packets u) \<and> iso_np u \<le> length (iso_frame_desc u) \<and>
        sum_list (map (\<lambda>d. unat (ui_actual_length d)) (iso_packets u)) < 2 ^ 32 \<and>
        (usb_pipein (u_pipe u) \<and> usb_pipetype (u_pipe u) = PIPE_ISOCHRONOUS \<longrightarrow>
           unat (actual_length u) = sum_list (map (\<lambda>d. unat (ui_actual_length d)) (iso_packets u))))"

lemma length_ret_unlink_bytes [simp]: "length (ret_unlink_bytes h x) = sizeof_header"
  unfolding ret_unlink_bytes_def setup_ret_unlink_pdu_def
  by (rule length_mem_header) (rule wf_correct_endian, simp)

lemma send_one_ret_unlink_ok:
  assumes "send_all k s out" and "tcp_socket d = Some s"
  shows "\<exists>w'. send_one_ret_unlink h k d x w = (True, of_nat sizeof_header, d, w') \<and>
    out w' = out w @ ret_unlink_bytes h x"
proof -
  obtain r w' where m: "kernel_sendmsg k s (ret_unlink_bytes h x) w = (r, w')" by fastforce
  have "r = int sizeof_header" "out w' = out w @ ret_unlink_bytes h x"
    using assms(1) m unfolding send_all_def by (metis fst_conv snd_conv length_ret_unlink_bytes)+
  with m assms(2) show ?thesis by (simp add: send_one_ret_unlink_def ret_unlink_bytes_def)
qed

lemma send_ret_unlink_loop_ok:
  assumes "send_all k s out" and "tcp_socket d = Some s"
  shows "\<exists>n w'. send_ret_unlink_loop h k tot d w =
      (Some n, d\<lparr>unlink_tx := [], unlink_free := unlink_free d @ unlink_tx d\<rparr>, w') \<and>
    out w' = out w @ concat (map (ret_unlink_bytes h) (unlink_tx d))"
  using assms(2)
proof (induction "unlink_tx d" arbitrary: d tot w)
  case Nil
  then show ?case by (subst send_ret_unlink_loop.simps) (simp add: dequeue_from_unlink_tx_def)
next
  case (Cons x xs)
  let ?d = "d\<lparr>unlink_tx := xs, unlink_free := unlink_free d @ [x]\<rparr>"
  obtain w1 where o: "send_one_ret_unlink h k ?d x w = (True, of_nat sizeof_header, ?d, w1)"
    "out w1 = out w @ ret_unlink_bytes h x"
    using send_one_ret_unlink_ok [OF assms(1), of ?d h x w] Cons.prems by auto
  obtain n w' where r: "send_ret_unlink_loop h k (tot + of_nat sizeof_header) ?d w1 =
      (Some n, ?d\<lparr>unlink_tx := [], unlink_free := unlink_free ?d @ unlink_tx ?d\<rparr>, w')"
    "out w' = out w1 @ concat (map (ret_unlink_bytes h) (unlink_tx ?d))"
    using Cons.hyps(1) [of ?d] Cons.prems by fastforce
  have "send_ret_unlink_loop h k tot d w = send_ret_unlink_loop h k (tot + of_nat sizeof_header) ?d w1"
    using Cons.hyps(2) [symmetric] o(1)
    by (subst send_ret_unlink_loop.simps) (simp add: dequeue_from_unlink_tx_def)
  with r o(2) Cons.hyps(2) [symmetric] show ?case by simp
qed

lemma sum_ucast: "sum_list (map (\<lambda>d. ucast (f d :: u32) :: u64) ds) = of_nat (sum_list (map (\<lambda>d. unat (f d)) ds))"
  by (induction ds) simp_all

lemma length_gather_iso:
  assumes "list_all (\<lambda>d. buf_ok (unat (ui_offset d)) (unat (ui_actual_length d)) b) ds"
  shows "length (concat (map (\<lambda>d. buf_read (unat (ui_offset d)) (unat (ui_actual_length d)) b) ds)) =
    sum_list (map (\<lambda>d. unat (ui_actual_length d)) ds)"
  using assms by (induction ds) (auto simp: length_buf_read)

lemma ret_submit_data_size:
  assumes "snd (snd (ret_submit_data u))"
    and "sum_list (map (\<lambda>d. unat (ui_actual_length d)) (iso_packets u)) < 2 ^ 32"
  shows "fst (snd (ret_submit_data u)) = of_nat (length (fst (ret_submit_data u)))"
    and "length (fst (ret_submit_data u)) < 2 ^ 32"
  using assms unsigned_less [of "actual_length u", where 'a = nat]
  by (auto simp: ret_submit_data_def gather_iso_def length_buf_read length_gather_iso sum_ucast split: if_splits)

lemma length_setup_ret_submit [simp]:
  "length (mem_header h (usbip_header_correct_endian h (setup_ret_submit_pdu h zero_header s u) True)) = sizeof_header"
  unfolding setup_ret_submit_pdu_def by (rule length_mem_header) simp

lemma send_one_ret_submit_ok:
  assumes "send_all k s out" and "alloc_ok k out" and "tcp_socket d = Some s" and "sendable p"
  shows "\<exists>n w'. send_one_ret_submit h k d p w = (True, n, d, w') \<and> out w' = out w @ ret_submit_bytes h p"
proof -
  obtain u where u: "sp_urb p = Some u" "snd (snd (ret_submit_data u))" "0 \<le> sint (number_of_packets u)"
    "iso_np u \<le> length (iso_frame_desc u)"
    "sum_list (map (\<lambda>d. unat (ui_actual_length d)) (iso_packets u)) < 2 ^ 32"
    "usb_pipein (u_pipe u) \<and> usb_pipetype (u_pipe u) = PIPE_ISOCHRONOUS \<longrightarrow>
       unat (actual_length u) = sum_list (map (\<lambda>d. unat (ui_actual_length d)) (iso_packets u))"
    using assms(4) unfolding sendable_def by blast
  let ?iso = "usb_pipetype (u_pipe u) = PIPE_ISOCHRONOUS"
  obtain data dlen where dt: "ret_submit_data u = (data, dlen, True)" using u(2) by (metis prod.collapse)
  have dl: "dlen = of_nat (length data)" "length data < 2 ^ 32"
    using ret_submit_data_size [OF u(2,5)] dt by simp_all
  obtain w1 where w1: "kzalloc k (scast (if ?iso then 2 + number_of_packets u else 2) * 16) w = (True, w1)"
    "out w1 = out w"
    by (rule alloc_okE [OF assms(2)])
  let ?isob = "if ?iso then concat (map (pack_iso_send h) (iso_packets u)) else []"
  have il: "length (iso_packets u) = iso_np u" using u(4) by (simp add: iso_packets_def)
  have match: "\<not> (usb_pipein (u_pipe u) \<and> ?iso \<and>
      of_nat sizeof_header + dlen \<noteq> of_nat sizeof_header + (ucast (actual_length u) :: u64))"
    using u(6) dt by (auto simp: ret_submit_data_def gather_iso_def sum_ucast)
      (metis of_nat_unat)
  have al: "\<exists>w2. (if ?iso then usbip_alloc_iso_desc_pdu h k u w1 else (Some [], 0, u, w1)) =
      (Some ?isob, of_nat (length ?isob), u, w2) \<and> out w2 = out w1" for w1
    using alloc_iso_ok [OF assms(2) u(3,4), of h w1] il by (auto simp: iso_packets_def sizeof_iso_def)
  obtain w2 where w2: "(if ?iso then usbip_alloc_iso_desc_pdu h k u w1 else (Some [], 0, u, w1)) =
      (Some ?isob, of_nat (length ?isob), u, w2)" "out w2 = out w1" using al by blast
  let ?b = "ret_submit_bytes h p"
  obtain r w3 where m: "kernel_sendmsg k s ?b w2 = (r, w3)" by fastforce
  have r: "r = int (length ?b)" "out w3 = out w2 @ ?b"
    using send_allD [OF assms(1), of ?b w2] m by simp_all
  have b: "?b = mem_header h (usbip_header_correct_endian h
      (setup_ret_submit_pdu h zero_header (sp_seqnum p) u) True) @ data @ ?isob"
    using u(1) dt by (simp add: ret_submit_bytes_def)
  have "length ?b < 2 ^ 64"
    using dl(2) iso_np_less [of u] il by (simp add: b sizeof_header_def sizeof_iso_def)
  then have "uint (of_nat sizeof_header + dlen + of_nat (length ?isob)) = int (length ?b)"
    using uint_of_nat_small [of "length ?b"] dl(1) by (simp add: b add.assoc)
  then have sz: "uint (of_nat sizeof_header + dlen + of_nat (length ?isob)) = r" using r(1) by simp
  have nm: "\<not> (usb_pipein (u_pipe u) \<and> ?iso \<and> dlen \<noteq> ucast (actual_length u))" using match by auto
  have "send_one_ret_submit h k d p w = (True, of_nat sizeof_header + dlen + of_nat (length ?isob), d, w3)"
    using nm unfolding send_one_ret_submit_def Let_def u(1) option.case w1(1) prod.case dt w2(1)
    by (simp add: assms(3) m [unfolded b] sz)
  with r(2) w2(2) w1(2) show ?thesis by auto
qed
lemma send_ret_submit_loop_ok:
  assumes "send_all k s out" and "alloc_ok k out" and "tcp_socket d = Some s"
    and "\<forall>p \<in> set (priv_tx d). sendable p"
  shows "\<exists>n w'. send_ret_submit_loop h k tot d w =
      (Some n, d\<lparr>priv_tx := [], priv_free := priv_free d @ priv_tx d\<rparr>, w') \<and>
    out w' = out w @ concat (map (ret_submit_bytes h) (priv_tx d))"
  using assms(3,4)
proof (induction "priv_tx d" arbitrary: d tot w)
  case Nil
  then show ?case by (subst send_ret_submit_loop.simps) (simp add: dequeue_from_priv_tx_def)
next
  case (Cons p ps)
  note ps = Cons.hyps(2) [symmetric]
  let ?d = "d\<lparr>priv_tx := ps, priv_free := priv_free d @ [p]\<rparr>"
  have "sendable p" using Cons.prems(2) ps by simp
  then obtain m w1 where o: "send_one_ret_submit h k ?d p w = (True, m, ?d, w1)"
    "out w1 = out w @ ret_submit_bytes h p"
    using send_one_ret_submit_ok [OF assms(1,2), of ?d p h w] Cons.prems(1) by auto
  obtain n w' where r: "send_ret_submit_loop h k (tot + m) ?d w1 =
      (Some n, ?d\<lparr>priv_tx := [], priv_free := priv_free ?d @ priv_tx ?d\<rparr>, w')"
    "out w' = out w1 @ concat (map (ret_submit_bytes h) (priv_tx ?d))"
    using Cons.hyps(1) [of ?d "tot + m" w1] Cons.prems ps by fastforce
  have "send_ret_submit_loop h k tot d w = send_ret_submit_loop h k (tot + m) ?d w1"
    using ps o(1) by (subst send_ret_submit_loop.simps) (simp add: dequeue_from_priv_tx_def)
  with r o(2) ps show ?case by simp
qed

lemma free_all_filter:
  "fold (\<lambda>p. stub_free_priv_and_urb (sp_id p)) ps d =
   d\<lparr>priv_init := filter (\<lambda>p. sp_id p \<notin> sp_id ` set ps) (priv_init d),
     priv_tx := filter (\<lambda>p. sp_id p \<notin> sp_id ` set ps) (priv_tx d),
     priv_free := filter (\<lambda>p. sp_id p \<notin> sp_id ` set ps) (priv_free d)\<rparr>"
proof (induction ps arbitrary: d)
  case (Cons q qs)
  show ?case
    unfolding fold_simps(2) Cons.IH by (simp add: stub_free_priv_and_urb_def conj_commute)
qed simp

text \<open>Freeing every sent request leaves the other queues alone.\<close>

lemma free_sent:
  assumes "stub_inv d" and "ps = priv_free d"
  shows "fold (\<lambda>p. stub_free_priv_and_urb (sp_id p)) ps d = d\<lparr>priv_free := []\<rparr>"
proof -
  have "filter (\<lambda>p. sp_id p \<notin> sp_id ` set ps) (priv_init d) = priv_init d"
    "filter (\<lambda>p. sp_id p \<notin> sp_id ` set ps) (priv_tx d) = priv_tx d"
    using stub_invD(1) [OF assms(1)] assms(2) by (auto simp: all_privs_def intro!: filter_True)
  moreover have "filter (\<lambda>p. sp_id p \<notin> sp_id ` set ps) (priv_free d) = []"
    using assms(2) by (auto intro!: filter_False)
  ultimately show ?thesis by (simp add: free_all_filter)
qed

section \<open>Properties\<close>

text \<open>C13. In every state a device can reach from its allocation, however receiving, completing, sending,
  errors and shutdowns interleave and whatever the peer sends: each request is in exactly one of
  the three queues, the USB core owns only urbs of requests waiting in \<open>priv_init\<close>, and requests
  about to be sent have their urb.\<close>

theorem stub_queues_invariant:
  assumes "stub_device_alloc k udev w0 = (Some d0, w1)" and "(stub_step h k)\<^sup>*\<^sup>* (d0, w1) (d, w)"
  shows "distinct (map sp_id (priv_init d @ priv_tx d @ priv_free d)) \<and>
    (\<forall>i \<in> set (sd_flight d). \<exists>p \<in> set (priv_init d). sp_id p = i \<and> sp_urb p \<noteq> None) \<and>
    (\<forall>p \<in> set (priv_tx d @ priv_free d). sp_urb p \<noteq> None)"
proof -
  have "stub_inv d" using stub_steps_inv [OF assms(2)] stub_device_alloc_inv [OF assms(1)] by simp
  from stub_invD(1,4,5) [OF this] show ?thesis by (simp add: all_privs_def)
qed

definition udev_demo :: usb_device where
  "udev_demo = \<lparr>devnum = 5, busnum = 1, bus_name = ''xhci'', bDeviceClass = 0, authenticated = True,
     ep_in = Some \<lparr>bEndpointAddress = 0x80, bmAttributes = 0, wMaxPacketSize = 64\<rparr> # replicate 15 None,
     ep_out = Some \<lparr>bEndpointAddress = 0, bmAttributes = 0, wMaxPacketSize = 64\<rparr> # replicate 15 None\<rparr>"

definition sdev_demo :: stub_device where
  "sdev_demo = the (fst (stub_device_alloc sim_k udev_demo sim0))"

text \<open>A device with a connection, and a submit request that reaches it.\<close>

definition conn_demo :: stub_device where
  "conn_demo = sdev_demo\<lparr>tcp_socket := Some 3, tcp_rx := Some (Inr 1), tcp_tx := Some (Inr 1), ud_status := SDEV_ST_USED\<rparr>"

definition submit_pdu :: usbip_header where
  "submit_pdu = zero_header\<lparr>base := zero_basic\<lparr>command := USBIP_CMD_SUBMIT, seqnum := 9, devid := 0x10005, direction := 1\<rparr>\<rparr>"

lemma demo_connects: "store_sockfd sim_k (Some sdev_demo) ''3'' 1 sim0 = (1, Some conn_demo, sim0)"
proof -
  have "scan_d ''3'' = Some (3, [])" by code_simp
  moreover have "ud_status sdev_demo = SDEV_ST_AVAILABLE" by code_simp
  ultimately show ?thesis by (simp add: store_sockfd_def sockfd_to_socket_def conn_demo_def)
qed

lemma sdev_demo_eq: "sdev_demo = 
   \<lparr>ud_side = USBIP_STUB, ud_status = SDEV_ST_AVAILABLE, tcp_socket = None, tcp_rx = None,
              tcp_tx = None, ud_event = 0, ud_eh = Some (Inr 1), ud_filters = [],
              sd_udev = udev_demo, sd_devid = 0x10005,
              priv_init = [], priv_tx = [], priv_free = [], unlink_tx = [], unlink_free = [],
              sd_next = 0, sd_flight = [], sd_oops = False\<rparr>"
  by (simp add: sdev_demo_def stub_device_alloc_def usbip_start_eh_def udev_demo_def)

lemma wf_submit_pdu: "wf_header submit_pdu" by (simp add: submit_pdu_def)

lemma header_of_recv:
  assumes "wf_header p"
  shows "base (recv_header g (send_header h p)) = base p"
  using assms by (simp add: send_header_def mem_header_send base_recv_header)

lemma demo_submits: "\<exists>d' w'. stub_rx_pdu Little sim_k conn_demo (sim0\<lparr>sim_in := [send_header Little submit_pdu]\<rparr>) = (d', w') \<and> sd_flight d' = [0]"
proof -
  let ?b = "send_header Little submit_pdu"
  let ?w = "sim0\<lparr>sim_in := [?b]\<rparr>"
  let ?p = "recv_header Little ?b"
  have l: "length ?b = 48" using length_send_header [OF wf_submit_pdu] by (simp add: sizeof_header_def)
  have r: "usbip_recv sim_k (Some 3) True (int sizeof_header) ?w = (48, ?b, ?w\<lparr>sim_in := []\<rparr>)"
    using l by (auto simp: usbip_recv_def recv_loop.simps sim_recvmsg_def sizeof_header_def)
  have p: "usbip_header_correct_endian Little (ld_header Little (overwrite 0 ?b (replicate sizeof_header 0))) False = ?p"
    using l by (simp add: recv_header_def sizeof_header_def)
  have bs: "base ?p = base submit_pdu" using header_of_recv [OF wf_submit_pdu] .
  have cs: "get_cmd_submit Little ?p = get_cmd_submit Little submit_pdu"
    using get_of_view(1) [OF header_codec.dec_enc [OF wf_submit_pdu]] by (simp add: submit_pdu_def)
  have c: "get_cmd_submit Little submit_pdu = \<lparr>cs_transfer_flags = 0, cs_transfer_buffer_length = 0,
      cs_start_frame = 0, cs_number_of_packets = 0, cs_interval = 0, cs_setup = replicate 8 0\<rparr>"
    by (simp add: submit_pdu_def zero_header_def get_cmd_submit_def sizeof_union_def slice_def ld32_def eval_nat_numeral)
  have gp: "get_pipe udev_demo 0 1 = Some 0x80000580"
    by (simp add: get_pipe_def ep_at_def udev_demo_def USBIP_DIR_IN_def USBIP_DIR_OUT_def usb_endpoint_type_def xfer_defs usb_rcvpipe_def pipe_type_defs)
  have pc: "usb_pipein 0x80000580" "\<not> usb_pipeisoc 0x80000580"
    by (simp_all add: usb_pipein_def usb_pipeisoc_def usb_pipetype_def pipe_type_defs)
  have v: "valid_request conn_demo ?p"
    using bs by (simp add: valid_request_def conn_demo_def sdev_demo_eq submit_pdu_def)
  have cmd: "command (base ?p) = USBIP_CMD_SUBMIT" using bs by (simp add: submit_pdu_def)
  have x: "usbip_recv_xbuff sim_k d (u\<lparr>u_pipe := 0x80000580\<rparr>) w' = (0, d, u\<lparr>u_pipe := 0x80000580\<rparr>, w')"
    if "ud_side d = USBIP_STUB" for d :: stub_device and u w'
    using that pc(1) by (simp add: usbip_recv_xbuff_def)
  have "stub_rx_pdu Little sim_k conn_demo ?w = stub_recv_cmd_submit Little sim_k conn_demo ?p (?w\<lparr>sim_in := []\<rparr>)"
    using r p v cmd by (simp add: stub_rx_pdu_def conn_demo_def sizeof_header_def command_defs)
  moreover have "sd_flight (fst (stub_recv_cmd_submit Little sim_k conn_demo ?p (?w\<lparr>sim_in := []\<rparr>))) = [0]"
    using bs cs c gp pc
    by (simp add: stub_recv_cmd_submit_def stub_build_urb_def conn_demo_def sdev_demo_eq submit_pdu_def
      zero_basic_def stub_priv_alloc_def stub_alloc_buffer_def usbip_pack_pdu_def usbip_pack_cmd_submit_def
      stub_recv_data_def usbip_recv_xbuff_def usbip_recv_iso_def Let_def stub_submit_urb_def)
  ultimately show ?thesis by (metis prod.collapse)
qed

text \<open>The demonstration device is allocated, gets its socket and receives the request.\<close>

lemma demo_allocated: "stub_device_alloc sim_k udev_demo sim0 = (Some sdev_demo, sim0)"
  by (simp add: sdev_demo_def stub_device_alloc_def usbip_start_eh_def Let_def)

lemma demo_reaches:
  "\<exists>d w. (stub_step Little sim_k)\<^sup>*\<^sup>* (sdev_demo, sim0) (d, w) \<and> sd_flight d = [0]"
proof -
  let ?w = "sim0\<lparr>sim_in := [send_header Little submit_pdu]\<rparr>"
  obtain d w where rx: "stub_rx_pdu Little sim_k conn_demo ?w = (d, w)" "sd_flight d = [0]"
    using demo_submits by blast
  have "stub_step Little sim_k (sdev_demo, sim0) (conn_demo, sim0)"
    using demo_connects by (rule stub_step.sockfd)
  moreover have "stub_step Little sim_k (conn_demo, sim0) (conn_demo, ?w)" by (rule stub_step.world)
  moreover have "stub_step Little sim_k (conn_demo, ?w) (d, w)"
    using stub_step.rx [of conn_demo Little sim_k ?w] rx(1)
    by (simp add: usbip_event_happened_def conn_demo_def sdev_demo_eq)
  ultimately have "(stub_step Little sim_k)\<^sup>*\<^sup>* (sdev_demo, sim0) (d, w)"
    by (meson rtranclp.rtrancl_into_rtrancl rtranclp.rtrancl_refl)
  with rx(2) show ?thesis by blast
qed

theorem stub_queues_invariant_witness:
  "\<exists>(d :: stub_device) p. sd_flight d = [0] \<and> p \<in> set (priv_init d) \<and> sp_id p = 0 \<and> sp_urb p \<noteq> None \<and>
    distinct (map sp_id (priv_init d @ priv_tx d @ priv_free d))"
proof -
  obtain d w where r: "(stub_step Little sim_k)\<^sup>*\<^sup>* (sdev_demo, sim0) (d, w)" "sd_flight d = [0]"
    using demo_reaches by blast
  note q = stub_queues_invariant [OF demo_allocated r(1)]
  then obtain p where "p \<in> set (priv_init d)" "sp_id p = 0" "sp_urb p \<noteq> None"
    unfolding r(2) by auto
  with q r(2) show ?thesis by blast
qed

text \<open>When the USB core completes a urb it owns, the completion handler finds the request in
  \<open>priv_init\<close>: it never touches a request that has been freed, in any reachable state.\<close>

theorem completion_finds_request:
  assumes "stub_device_alloc k udev w0 = (Some d0, w1)" and "(stub_step h k)\<^sup>*\<^sup>* (d0, w1) (d, w)"
    and "i \<in> set (sd_flight d)"
  shows "sd_oops (fst (stub_complete k d i u w)) = sd_oops d"
proof -
  have "stub_inv d" using stub_steps_inv [OF assms(2)] stub_device_alloc_inv [OF assms(1)] by simp
  then show ?thesis using stub_complete_no_oops [OF _ assms(3)] by (metis prod.collapse)
qed

theorem completion_finds_request_witness:
  "\<exists>d w. 0 \<in> set (sd_flight d) \<and> sd_oops (fst (stub_complete sim_k d 0 (new_urb 0) w)) = sd_oops d"
proof -
  obtain d w where r: "(stub_step Little sim_k)\<^sup>*\<^sup>* (sdev_demo, sim0) (d, w)" "sd_flight d = [0]"
    using demo_reaches by blast
  from completion_finds_request [OF demo_allocated r(1), of 0 "new_urb 0"] r(2) show ?thesis
    by (intro exI [of _ d] exI [of _ w]) simp
qed

text \<open>Completing a urb changes which queue a reply waits in, never which replies are owed: a
  request that was being unlinked is answered as an unlink under the sequence number of the
  unlink request, any other as a result under its own.\<close>

theorem completion_keeps_replies:
  assumes "stub_inv d" and "i \<in> set (sd_flight d)" and "ud_filters d = []" and "u_status u \<noteq> - ENOENT"
    and "\<forall>w. fst (kzalloc k 32 w)"
  shows "owed (fst (stub_complete k d i u w)) = owed d"
  using completion_owed [OF assms, of w] by (metis prod.collapse)

definition pending_demo :: stub_device where
  "pending_demo = sdev_demo\<lparr>sd_next := 1, sd_flight := [0],
     priv_init := [\<lparr>sp_id = 0, sp_seqnum = 9, sp_urb = Some (new_urb 0), sp_unlinking = True\<rparr>]\<rparr>"

lemma pending_demo_inv: "stub_inv pending_demo" "ud_filters pending_demo = []"
  by (simp_all add: stub_inv_def pending_demo_def sdev_demo_eq all_privs_def ids_below_def)

theorem completion_keeps_replies_witness:
  "owed (fst (stub_complete sim_k pending_demo 0 (new_urb 0) sim0)) = {#(USBIP_RET_UNLINK, 9)#}"
proof -
  have "owed (fst (stub_complete sim_k pending_demo 0 (new_urb 0) sim0)) = owed pending_demo"
    by (rule completion_keeps_replies [OF pending_demo_inv(1) _ pending_demo_inv(2)])
      (simp_all add: pending_demo_def new_urb_def ENOENT_def)
  then show ?thesis by (simp add: owed_def pending_demo_def sdev_demo_eq reply_of_def)
qed

text \<open>The sending thread puts the bytes \<open>bs\<close> on the socket and empties the queues of answers.\<close>

definition unlinks_sent :: "('w \<Rightarrow> byte list) \<Rightarrow> endian \<Rightarrow> 'w kapi \<Rightarrow> stub_device \<Rightarrow> 'w \<Rightarrow> byte list \<Rightarrow> bool" where
  "unlinks_sent out h k d w bs \<longleftrightarrow>
     (\<exists>r w'. stub_send_ret_unlink h k d w = (r, d\<lparr>unlink_tx := [], unlink_free := []\<rparr>, w') \<and> out w' = out w @ bs)"

lemma unlinks_sent_all:
  assumes "send_all k s out" and "tcp_socket d = Some s"
  shows "unlinks_sent out h k d w (concat (map (ret_unlink_bytes h) (unlink_tx d)))"
proof -
  obtain n w' where l: "send_ret_unlink_loop h k 0 d w =
      (Some n, d\<lparr>unlink_tx := [], unlink_free := unlink_free d @ unlink_tx d\<rparr>, w')"
    "out w' = out w @ concat (map (ret_unlink_bytes h) (unlink_tx d))"
    using send_ret_unlink_loop_ok [OF assms] by blast
  then show ?thesis by (simp add: unlinks_sent_def stub_send_ret_unlink_def)
qed

text \<open>Completing a request that an unlink request has marked.\<close>

lemma complete_unlinking:
  assumes "priv_init d = us @ q # vs" and "distinct (map sp_id (all_privs d))" and "sp_unlinking q"
    and "ud_filters d = []" and "u_status u \<noteq> - ENOENT" and "kzalloc k 32 w = (ok, w1)"
  shows "stub_complete k d (sp_id q) u w =
    ((if ok then d\<lparr>priv_init := us @ vs, sd_flight := remove1 (sp_id q) (sd_flight d),
        unlink_tx := unlink_tx d @ [\<lparr>su_seqnum = ucast (ucast (sp_seqnum q) :: u32), su_status = u_status u\<rparr>]\<rparr>
      else usbip_event_add VDEV_EVENT_ERROR_MALLOC
        (d\<lparr>priv_init := us @ vs, sd_flight := remove1 (sp_id q) (sd_flight d)\<rparr>)), w1)"
proof -
  have n: "sp_id q \<notin> sp_id ` set us" "sp_id q \<notin> sp_id ` set vs" "sp_id q \<notin> sp_id ` set (priv_tx d)"
    "sp_id q \<notin> sp_id ` set (priv_free d)"
    using assms(1,2) by (auto simp: all_privs_def)
  have u: "unlink_first (\<lambda>p. sp_id p = sp_id q) (us @ q # vs) = (Some q, us @ vs)"
    using n(1) by (induction us) auto
  note f = filter_id_notin [OF n(1)] filter_id_notin [OF n(2)] filter_id_notin [OF n(3)] filter_id_notin [OF n(4)]
  show ?thesis
    using assms u f
    by (simp add: stub_complete_def Let_def stub_enqueue_ret_unlink_def stub_free_priv_and_urb_def usbip_event_add_def)
qed

text \<open>C14. An unlink request is answered. When no request with the number asked for is with the USB core
  (it has completed, or never came), the answer is status zero, and nothing else changes. Otherwise
  the urb of that request is unlinked; when the USB core then gives it back, the request is gone, its
  result is never queued, and the answer is the status of the urb. In both cases the answer carries
  the number of the unlink request, waits behind the answers before it and is sent after them, in
  one 48-byte header. When there is no memory for the answer, the connection goes down instead.\<close>

theorem unlink_request_answered:
  assumes "stub_inv d" and "ud_filters d = []" and "\<forall>p \<in> set (priv_init d). sp_urb p \<noteq> None"
    and "send_all k s out" and "tcp_socket d = Some s" and "u_status u \<noteq> - ENOENT"
    and "stub_recv_cmd_unlink h k d pdu w = (d1, w1)"
    and "answer = (\<lambda>st. \<lparr>su_seqnum = ucast (seqnum (base pdu)), su_status = st\<rparr>)"
  shows "case List.find (\<lambda>p. sp_seqnum p = ucast (cu_seqnum (get_cmd_unlink h pdu))) (priv_init d) of
      None \<Rightarrow>
        if fst (kzalloc k 32 w)
        then d1 = d\<lparr>unlink_tx := unlink_tx d @ [answer 0]\<rparr> \<and>
          unlinks_sent out h k d1 w1 (concat (map (ret_unlink_bytes h) (unlink_tx d)) @ ret_unlink_bytes h (answer 0))
        else d1 = usbip_event_add VDEV_EVENT_ERROR_MALLOC d
    | Some p \<Rightarrow>
        w1 = snd (usb_unlink_urb k (sp_id p) w) \<and> unlink_tx d1 = unlink_tx d \<and> priv_tx d1 = priv_tx d \<and>
        (case stub_complete k d1 (sp_id p) u w1 of (d2, w2) \<Rightarrow>
           priv_init d2 = filter (\<lambda>q. sp_id q \<noteq> sp_id p) (priv_init d) \<and> priv_tx d2 = priv_tx d \<and>
           (if fst (kzalloc k 32 w1)
            then unlink_tx d2 = unlink_tx d @ [answer (u_status u)] \<and>
              unlinks_sent out h k d2 w2
                (concat (map (ret_unlink_bytes h) (unlink_tx d)) @ ret_unlink_bytes h (answer (u_status u)))
            else unlink_tx d2 = unlink_tx d \<and> ud_event d2 = ud_event d OR VDEV_EVENT_ERROR_MALLOC))"
proof (cases "List.find (\<lambda>p. sp_seqnum p = ucast (cu_seqnum (get_cmd_unlink h pdu))) (priv_init d)")
  case None
  obtain ok w2 where k: "kzalloc k 32 w = (ok, w2)" by fastforce
  show ?thesis
  proof (cases ok)
    case False
    then show ?thesis using None k assms(7) by (auto simp: stub_recv_cmd_unlink_def Let_def stub_enqueue_ret_unlink_def)
  next
    case True
    then have d1: "d1 = d\<lparr>unlink_tx := unlink_tx d @ [answer 0]\<rparr>"
      using None k assms(7,8) by (auto simp: stub_recv_cmd_unlink_def Let_def stub_enqueue_ret_unlink_def)
    then show ?thesis
      using None k True unlinks_sent_all [OF assms(4), of d1 h w1] assms(5) by simp
  qed
next
  case (Some p)
  then obtain us vs where s: "priv_init d = us @ p # vs"
    "sp_seqnum p = ucast (cu_seqnum (get_cmd_unlink h pdu))"
    "\<forall>u\<in>set us. sp_seqnum u \<noteq> ucast (cu_seqnum (get_cmd_unlink h pdu))"
    using find_split [OF Some] by auto
  let ?q = "p\<lparr>sp_unlinking := True, sp_seqnum := ucast (seqnum (base pdu))\<rparr>"
  have d1: "d1 = d\<lparr>priv_init := us @ ?q # vs\<rparr>" "w1 = snd (usb_unlink_urb k (sp_id p) w)"
    using Some assms(3,7) s by (auto simp: stub_recv_cmd_unlink_def Let_def update_first_split)
  have dis: "distinct (map sp_id (all_privs d))" by (rule stub_invD(1) [OF assms(1)])
  have p1: "priv_init d1 = us @ ?q # vs" "distinct (map sp_id (all_privs d1))" "ud_filters d1 = []"
    using dis d1(1) s(1) assms(2) by (simp_all add: all_privs_def)
  have n: "filter (\<lambda>q. sp_id q \<noteq> sp_id p) (priv_init d) = us @ vs"
    using dis s(1) filter_id_notin [of "sp_id p" us] filter_id_notin [of "sp_id p" vs] by (simp add: all_privs_def)
  obtain ok w2 where k: "kzalloc k 32 w1 = (ok, w2)" by fastforce
  note C = complete_unlinking [OF p1(1,2) _ p1(3) assms(6) k]
  have q: "ucast (ucast (sp_seqnum ?q) :: u32) = (ucast (seqnum (base pdu)) :: u64)"
    using ucast_up_down [OF ucast_less, of "seqnum (base pdu)"] by simp
  show ?thesis
  proof (cases ok)
    case True
    define d2 where "d2 = d1\<lparr>priv_init := us @ vs, sd_flight := remove1 (sp_id p) (sd_flight d1),
        unlink_tx := unlink_tx d1 @ [answer (u_status u)]\<rparr>"
    have c: "stub_complete k d1 (sp_id p) u w1 = (d2, w2)"
      using C True q by (simp add: d2_def assms(8))
    have "tcp_socket d2 = Some s" "unlink_tx d2 = unlink_tx d @ [answer (u_status u)]"
      using assms(5) d1(1) by (simp_all add: d2_def)
    then have "unlinks_sent out h k d2 w2
        (concat (map (ret_unlink_bytes h) (unlink_tx d)) @ ret_unlink_bytes h (answer (u_status u)))"
      using unlinks_sent_all [OF assms(4), of d2 h w2] by simp
    then show ?thesis using Some d1 c k True n by (simp add: d2_def)
  next
    case False
    then show ?thesis using Some d1 C k n by (simp add: usbip_event_add_def)
  qed
qed

text \<open>The request with number 9 is with the USB core; the unlink request with number 12 cancels it.\<close>

definition busy_demo :: stub_device where
  "busy_demo = sdev_demo\<lparr>tcp_socket := Some 3, sd_next := 1, sd_flight := [0],
     priv_init := [\<lparr>sp_id = 0, sp_seqnum = 9, sp_urb = Some (new_urb 0), sp_unlinking = False\<rparr>]\<rparr>"

definition unlink_pdu :: usbip_header where
  "unlink_pdu = put_cmd_unlink Little \<lparr>cu_seqnum = 9\<rparr>
     (zero_header\<lparr>base := (base zero_header)\<lparr>command := USBIP_CMD_UNLINK, seqnum := 12\<rparr>\<rparr>)"

theorem unlink_request_answered_witness:
  "\<exists>d1 d2 r. fst (stub_recv_cmd_unlink Little sim_k busy_demo unlink_pdu sim0) = d1 \<and>
    fst (stub_complete sim_k d1 0 ((new_urb 0)\<lparr>u_status := -ECONNRESET\<rparr>) sim0) = d2 \<and>
    priv_init d2 = [] \<and> priv_tx d2 = [] \<and> unlink_tx d2 = [\<lparr>su_seqnum = 12, su_status = -ECONNRESET\<rparr>] \<and>
    unlinks_sent sim_out Little sim_k d2 sim0 (ret_unlink_bytes Little \<lparr>su_seqnum = 12, su_status = -ECONNRESET\<rparr>)"
proof -
  let ?u = "(new_urb 0)\<lparr>u_status := -ECONNRESET\<rparr>"
  obtain d1 w1 where r: "stub_recv_cmd_unlink Little sim_k busy_demo unlink_pdu sim0 = (d1, w1)" by fastforce
  obtain d2 w2 where c: "stub_complete sim_k d1 0 ?u w1 = (d2, w2)" by fastforce
  have i: "stub_inv busy_demo" "ud_filters busy_demo = []" "\<forall>p\<in>set (priv_init busy_demo). sp_urb p \<noteq> None"
    "tcp_socket busy_demo = Some 3"
    by (simp_all add: stub_inv_def busy_demo_def sdev_demo_eq all_privs_def ids_below_def)
  have u: "u_status ?u \<noteq> - ENOENT" by (simp add: ECONNRESET_def ENOENT_def)
  have p: "cu_seqnum (get_cmd_unlink Little unlink_pdu) = 9" "seqnum (base unlink_pdu) = 12"
    by (simp_all add: unlink_pdu_def get_put_unlink wf_header_def zero_header_def)
  have f: "List.find (\<lambda>p. sp_seqnum p = ucast (cu_seqnum (get_cmd_unlink Little unlink_pdu))) (priv_init busy_demo) =
      Some \<lparr>sp_id = 0, sp_seqnum = 9, sp_urb = Some (new_urb 0), sp_unlinking = False\<rparr>"
    unfolding p by (simp add: busy_demo_def)
  have q: "priv_init busy_demo = [\<lparr>sp_id = 0, sp_seqnum = 9, sp_urb = Some (new_urb 0), sp_unlinking = False\<rparr>]"
    "priv_tx busy_demo = []" "unlink_tx busy_demo = []"
    by (simp_all add: busy_demo_def sdev_demo_eq)
  have "unlink_tx d2 = [\<lparr>su_seqnum = 12, su_status = - ECONNRESET\<rparr>]" "priv_init d2 = []" "priv_tx d2 = []"
    "unlinks_sent sim_out Little sim_k d2 w2 (ret_unlink_bytes Little \<lparr>su_seqnum = 12, su_status = -ECONNRESET\<rparr>)"
    using unlink_request_answered [OF i(1,2,3) sim_sends(1) i(4) u r refl] unfolding f by (simp_all add: c q p)
  moreover have "w1 = sim0" "w2 = sim0" 
    using r c f by (auto simp: stub_recv_cmd_unlink_def busy_demo_def sdev_demo_eq p stub_complete_def Let_def stub_enqueue_ret_unlink_def ECONNRESET_def ENOENT_def)
  ultimately show ?thesis using r c by auto
qed

text \<open>C15. The sending thread puts the results of completed requests on the socket in the order they
  completed, each as its header, its data and its isochronous descriptors, empties the queue and
  frees them, and leaves everything else of the device as it was.\<close>

theorem results_sent_in_order:
  assumes "stub_inv d" and "send_all k s out" and "alloc_ok k out" and "tcp_socket d = Some s"
    and "\<forall>p \<in> set (priv_tx d). sendable p"
  shows "\<exists>r w'. stub_send_ret_submit h k d w = (r, d\<lparr>priv_tx := [], priv_free := []\<rparr>, w') \<and>
    out w' = out w @ concat (map (ret_submit_bytes h) (priv_tx d))"
proof -
  obtain n w' where l: "send_ret_submit_loop h k 0 d w =
      (Some n, d\<lparr>priv_tx := [], priv_free := priv_free d @ priv_tx d\<rparr>, w')"
    "out w' = out w @ concat (map (ret_submit_bytes h) (priv_tx d))"
    using send_ret_submit_loop_ok [OF assms(2-5)] by blast
  have "stub_inv (d\<lparr>priv_tx := [], priv_free := priv_free d @ priv_tx d\<rparr>)"
    using stub_inv_send_loop [OF l(1) assms(1)] .
  from free_sent [OF this refl] l show ?thesis by (simp add: stub_send_ret_submit_def)
qed

definition sent_demo :: stub_device where
  "sent_demo = sdev_demo\<lparr>tcp_socket := Some 3, sd_next := 1,
     priv_tx := [\<lparr>sp_id = 0, sp_seqnum = 9,
       sp_urb = Some ((new_urb 0)\<lparr>u_pipe := 0xC0000080, actual_length := 2, transfer_buffer := Some [1, 2, 3]\<rparr>),
       sp_unlinking = False\<rparr>]\<rparr>"

theorem results_sent_in_order_witness:
  "\<exists>r w'. stub_send_ret_submit Little sim_k sent_demo sim0 = (r, sent_demo\<lparr>priv_tx := [], priv_free := []\<rparr>, w') \<and>
    sim_out w' = sim_out sim0 @ concat (map (ret_submit_bytes Little) (priv_tx sent_demo))"
proof (rule results_sent_in_order [OF _ sim_sends])
  show "stub_inv sent_demo"
    by (simp add: stub_inv_def sent_demo_def sdev_demo_eq all_privs_def ids_below_def)
  show "tcp_socket sent_demo = Some 3" by (simp add: sent_demo_def)
  show "\<forall>p\<in>set (priv_tx sent_demo). sendable p"
    by (simp add: sent_demo_def sendable_def ret_submit_data_def usb_pipein_def usb_pipetype_def
        pipe_type_defs buf_ok_def new_urb_def iso_np_def iso_packets_def)
qed

text \<open>Answers to unlink requests leave in order too, one 48-byte header each, and the queues of
  answers end empty.\<close>

theorem unlink_answers_sent_in_order:
  assumes "send_all k s out" and "tcp_socket d = Some s"
  shows "\<exists>r w'. stub_send_ret_unlink h k d w = (r, d\<lparr>unlink_tx := [], unlink_free := []\<rparr>, w') \<and>
    out w' = out w @ concat (map (ret_unlink_bytes h) (unlink_tx d)) \<and>
    length (concat (map (ret_unlink_bytes h) (unlink_tx d))) = length (unlink_tx d) * sizeof_header"
proof -
  obtain n w' where l: "send_ret_unlink_loop h k 0 d w =
      (Some n, d\<lparr>unlink_tx := [], unlink_free := unlink_free d @ unlink_tx d\<rparr>, w')"
    "out w' = out w @ concat (map (ret_unlink_bytes h) (unlink_tx d))"
    using send_ret_unlink_loop_ok [OF assms] by blast
  moreover have "length (concat (map (ret_unlink_bytes h) xs)) = length xs * sizeof_header" for xs
    by (induction xs) auto
  ultimately show ?thesis by (simp add: stub_send_ret_unlink_def)
qed

theorem unlink_answers_sent_in_order_witness:
  "\<exists>r w'. stub_send_ret_unlink Big sim_k (sent_demo\<lparr>unlink_tx := [\<lparr>su_seqnum = 4, su_status = 0\<rparr>]\<rparr>) sim0 =
      (r, sent_demo\<lparr>unlink_tx := [], unlink_free := []\<rparr>, w') \<and> length (sim_out w') = sizeof_header"
  using unlink_answers_sent_in_order [OF sim_sends(1) [of 3],
      of "sent_demo\<lparr>unlink_tx := [\<lparr>su_seqnum = 4, su_status = 0\<rparr>]\<rparr>" Big sim0]
  by (auto simp: sent_demo_def sim0_def)

end
