(* ===== verification/StubHandler.thy ===== *)
theory StubHandler
  imports StubProps
begin

text \<open>
  The event handler run with the callbacks of the stub, and the guards of its entry points: the
  attribute file that hands over the socket and the choice of the pipe for a request.
\<close>

section \<open>The event handler with the callbacks of the stub\<close>

lemma priv_pop_event: "stub_priv_pop d = (x, d') \<Longrightarrow> ud_event d' = ud_event d"
  by (auto simp: stub_priv_pop_def split: list.splits)

lemma cleanup_urbs_event: "stub_device_cleanup_urbs k d w = (d', w') \<Longrightarrow> ud_event d' = ud_event d"
proof (induction k d w arbitrary: d' w' rule: stub_device_cleanup_urbs.induct)
  case (1 k d w)
  obtain x d1 where q: "stub_priv_pop d = (x, d1)" by fastforce
  note e = priv_pop_event [OF q]
  show ?case
  proof (cases x)
    case None
    with "1.prems" q show ?thesis by (simp add: stub_device_cleanup_urbs.simps [of k d])
  next
    case (Some p)
    show ?thesis
    proof (cases "sp_urb p")
      case None
      with "1.prems" q Some e show ?thesis by (auto simp: stub_device_cleanup_urbs.simps [of k d])
    next
      case (Some u)
      with "1.prems" q \<open>x = Some p\<close>
      have "stub_device_cleanup_urbs k (d1\<lparr>sd_flight := remove1 (sp_id p) (sd_flight d1)\<rparr>) (usb_kill_urb k (sp_id p) w) = (d', w')"
        by (simp add: stub_device_cleanup_urbs.simps [of k d])
      from "1.IH" [OF q [symmetric] \<open>x = Some p\<close> Some this] e show ?thesis by simp
    qed
  qed
qed

lemma stop_thread_event: "stop_thread k t (d, w) = (d', w') \<Longrightarrow> ud_event d' = ud_event d"
  by (auto simp: stop_thread_def split: option.splits sum.splits)

lemma stub_shutdown_event: "stub_shutdown_connection k d w = (d', w') \<Longrightarrow> ud_event d' = ud_event d"
  by (auto simp: stub_shutdown_connection_def Let_def split: prod.splits dest!: stop_thread_event cleanup_urbs_event)

interpretation stub_eh: eh_contract "stub_eh_ops k" for k :: "'w kapi"
proof
  fix d :: stub_device and w :: 'w
  show "ud_event (fst (eh_shutdown (stub_eh_ops k) d w)) = ud_event d"
    using stub_shutdown_event [of k d w] by (cases "stub_shutdown_connection k d w") (simp add: stub_eh_ops_def)
  show "ud_event (fst (eh_reset (stub_eh_ops k) d w)) = ud_event d"
    by (simp add: stub_eh_ops_def stub_device_reset_def split: prod.splits)
  show "ud_event (fst (eh_unusable (stub_eh_ops k) d w)) = ud_event d"
    by (simp add: stub_eh_ops_def stub_device_unusable_def)
qed

lemma stub_device_reset_status:
  "stub_device_reset k d w = (d', w') \<Longrightarrow>
   \<exists>st. d' = d\<lparr>ud_status := st\<rparr> \<and> st \<in> {SDEV_ST_AVAILABLE, SDEV_ST_ERROR}"
  by (auto simp: stub_device_reset_def split: prod.splits if_splits)

lemma down_event: "(SDEV_EVENT_DOWN :: u64) = 5"
  by (simp add: event_defs)

text \<open>C16. When a connection goes down whose two threads were started, the event handler of the stub
  returns after one round: the event is consumed, socket, threads and every queue are gone, the USB
  core owns no urb any more, the device is available again, or in error if it could not be reset, and
  nothing was followed that is no object. (A thread that could not be started is an encoded error,
  which the code follows.)\<close>

theorem stub_handler_down:
  assumes "stub_inv d" and "\<forall>p \<in> set (priv_init d). sp_urb p \<noteq> None" and "ud_event d = SDEV_EVENT_DOWN"
    and "real_thread (tcp_rx d)" and "real_thread (tcp_tx d)"
  shows "\<exists>d' w'. event_handler (stub_eh_ops k) d w = Some (0, d', w') \<and> ud_event d' = 0 \<and>
    tcp_socket d' = None \<and> tcp_rx d' = None \<and> tcp_tx d' = None \<and> priv_init d' = [] \<and> priv_tx d' = [] \<and>
    priv_free d' = [] \<and> unlink_tx d' = [] \<and> unlink_free d' = [] \<and> sd_flight d' = [] \<and>
    ud_status d' \<in> {SDEV_ST_AVAILABLE, SDEV_ST_ERROR} \<and> sd_oops d' = sd_oops d"
proof -
  have ev: "ud_event d AND NOT 15 = 0" "ud_event d \<noteq> 0" "ud_event d AND USBIP_EH_BYE = 0"
    using assms(3) by (simp_all add: down_event USBIP_EH_BYE_def)
  obtain d1 w1 where s: "stub_shutdown_connection k d w = (d1, w1)" by fastforce
  have d1: "d1 = d\<lparr>priv_init := [], priv_tx := [], priv_free := [], sd_flight := [], unlink_tx := [],
    unlink_free := [], tcp_socket := None, tcp_rx := None, tcp_tx := None\<rparr>"
    using shutdown_empties [OF assms(1) _ s assms(4,5)] stub_invD(5) [OF assms(1)] assms(2) by (auto simp: all_privs_def)
  obtain d2 w2 where r1: "stub_device_reset k (event_clear USBIP_EH_SHUTDOWN d1) w1 = (d2, w2)" by fastforce
  then obtain st where r: "stub_device_reset k (event_clear USBIP_EH_SHUTDOWN d1) w1 = (d2, w2)"
    "d2 = (event_clear USBIP_EH_SHUTDOWN d1)\<lparr>ud_status := st\<rparr>" "st \<in> {SDEV_ST_AVAILABLE, SDEV_ST_ERROR}"
    using stub_device_reset_status [OF r1] by blast
  have bits: "ud_event d1 AND USBIP_EH_SHUTDOWN \<noteq> 0" "ud_event (event_clear USBIP_EH_SHUTDOWN d1) AND USBIP_EH_RESET \<noteq> 0"
    "ud_event (event_clear USBIP_EH_RESET d2) = 0"
    using assms(3) d1 r(2) by (simp_all add: down_event eh_bit_defs event_clear_def)
  have "event_round (stub_eh_ops k) d w = (event_clear USBIP_EH_RESET d2, w2)"
    using s r(1) bits d1 assms(3) by (simp add: event_round_def event_phase_def stub_eh_ops_def)
  then have "event_handler (stub_eh_ops k) d w = Some (0, event_clear USBIP_EH_RESET d2, w2)"
    using stub_eh.handler_returns [OF ev(1), of k w] ev(2,3) by simp
  then show ?thesis
    using r(2,3) d1 bits(3) by (auto simp: event_clear_def)
qed


theorem stub_handler_down_witness:
  "\<exists>d' w'. event_handler (stub_eh_ops sim_k)
      (usbip_event_add SDEV_EVENT_DOWN (busy_demo\<lparr>tcp_rx := Some (Inr 1), tcp_tx := Some (Inr 2)\<rparr>)) sim0 = Some (0, d', w') \<and>
    priv_init d' = [] \<and> sd_flight d' = [] \<and> tcp_socket d' = None \<and> tcp_rx d' = None \<and> \<not> sd_oops d'"
proof -
  let ?d = "usbip_event_add SDEV_EVENT_DOWN (busy_demo\<lparr>tcp_rx := Some (Inr 1), tcp_tx := Some (Inr 2)\<rparr>)"
  have "stub_inv ?d" by (simp add: stub_inv_def busy_demo_def sdev_demo_eq all_privs_def ids_below_def)
  from stub_handler_down [OF this, of sim_k sim0] show ?thesis
    by (auto simp: busy_demo_def sdev_demo_eq down_event real_thread_def)
qed

text \<open>The pipe type of a transfer type, in the numbering of endpoint descriptors.\<close>

definition xfer_pipe :: "u8 \<Rightarrow> u32" where
  "xfer_pipe t = [PIPE_CONTROL, PIPE_ISOCHRONOUS, PIPE_BULK, PIPE_INTERRUPT] ! unat t"

lemma and_3_cases: "(x :: u8) AND 3 = 0 \<or> x AND 3 = 1 \<or> x AND 3 = 2 \<or> x AND 3 = 3"
proof -
  have "unat (x AND 3) \<le> 3" using word_and_le1 [of x 3] by (simp add: word_le_nat_alt)
  then have "unat (x AND 3) = 0 \<or> unat (x AND 3) = 1 \<or> unat (x AND 3) = 2 \<or> unat (x AND 3) = 3" by linarith
  then have "x AND 3 = of_nat 0 \<or> x AND 3 = of_nat 1 \<or> x AND 3 = of_nat 2 \<or> x AND 3 = of_nat 3"
    by (metis of_nat_unat ucast_id)
  then show ?thesis by simp
qed

lemma small_and_0x7f: "(e :: u32) < 16 \<Longrightarrow> e AND 0x7f = e"
proof -
  assume "e < 16"
  then have "e < 2 ^ 7" by (simp add: word_less_def)
  then have "e AND mask 7 = e" by (rule less_mask_eq)
  then show ?thesis by (simp add: mask_eq_exp_minus_1)
qed

text \<open>C17. Which pipe a request gets: the transfer type of the addressed endpoint, the device's number,
  the direction of the packet and the endpoint number, for endpoint numbers below sixteen; an
  endpoint that does not exist makes the code stop with \<open>BUG()\<close>.\<close>

theorem get_pipe_decodes:
  assumes "epnum < 16" and "devnum udev < 128"
    and "eps = (if dir = USBIP_DIR_IN then ep_in udev else ep_out udev)" and "length eps = 16"
  shows "case eps ! unat epnum of
       None \<Rightarrow> get_pipe udev epnum dir = None
     | Some e \<Rightarrow> (\<exists>p. get_pipe udev epnum dir = Some p \<and> usb_pipedevice p = devnum udev \<and>
         usb_pipeendpoint p = epnum \<and> (usb_pipein p \<longleftrightarrow> dir \<noteq> USBIP_DIR_OUT) \<and>
         usb_pipetype p = xfer_pipe (usb_endpoint_type e))"
proof (cases "eps ! unat epnum")
  case None
  have "ep_at eps (epnum AND 0x7f) = None" using None by (simp add: ep_at_def small_and_0x7f [OF assms(1)])
  with None assms(3) show ?thesis by (simp add: get_pipe_def)
next
  case (Some e)
  have "unat epnum < 16" using assms(1) by (simp add: word_less_nat_alt)
  then have at: "ep_at eps (epnum AND 0x7f) = Some e"
    using Some assms(4) by (simp add: ep_at_def small_and_0x7f [OF assms(1)])
  let ?ty = "if usb_endpoint_type e = USB_ENDPOINT_XFER_CONTROL then PIPE_CONTROL
    else if usb_endpoint_type e = USB_ENDPOINT_XFER_BULK then PIPE_BULK
    else if usb_endpoint_type e = USB_ENDPOINT_XFER_INT then PIPE_INTERRUPT else PIPE_ISOCHRONOUS"
  have ty: "?ty = xfer_pipe (usb_endpoint_type e)" "?ty < 4"
    using and_3_cases [of "bmAttributes e"]
    by (auto simp: usb_endpoint_type_def xfer_pipe_def xfer_defs pipe_type_defs)
  have "get_pipe udev epnum dir = Some (if dir = USBIP_DIR_OUT then usb_sndpipe ?ty (devnum udev) epnum
      else usb_rcvpipe ?ty (devnum udev) epnum)"
    using at assms(3) unfolding get_pipe_def Let_def by (simp only: option.case)
  with Some pipe_decode_snd [OF ty(2) assms(2,1)] rcvpipe_snd [of ?ty "devnum udev" epnum] ty(1) show ?thesis
    by simp
qed

theorem get_pipe_decodes_witness:
  "\<exists>p. get_pipe udev_demo 0 USBIP_DIR_IN = Some p \<and> usb_pipetype p = PIPE_CONTROL \<and> usb_pipein p"
  using get_pipe_decodes [of 0 udev_demo "ep_in udev_demo" USBIP_DIR_IN]
  by (auto simp: udev_demo_def xfer_pipe_def usb_endpoint_type_def USBIP_DIR_IN_def USBIP_DIR_OUT_def)

text \<open>The descriptor that is written: the number \<open>%d\<close> reads, 0 when there is none.\<close>

definition written_fd :: "string \<Rightarrow> s32" where
  "written_fd buf = (case scan_d buf of None \<Rightarrow> 0 | Some (v, _) \<Rightarrow> word_of_int v)"

text \<open>C18. Writing to \<open>usbip_sockfd\<close>. The number written decides: \<open>-1\<close> takes the connection of a
  device in use down and is refused otherwise; any other number is a descriptor, which an available
  device takes when it is one of a socket: the device then is in use, with this socket and two new
  threads. Everything that is refused gives \<open>-EINVAL\<close> and leaves the device as it was.\<close>

theorem store_sockfd_guards:
  assumes "store_sockfd k (Some d) buf n w = (r, d', w')"
    and "sockfd_to_socket k (written_fd buf) w = (so, w1)"
    and "kthread_run k w1 = (rx, w2)" and "kthread_run k w2 = (tx, w3)"
  shows "(r, d') =
    (if written_fd buf = - 1 then
       (if ud_status d = SDEV_ST_USED then (n, Some (usbip_event_add SDEV_EVENT_DOWN d)) else (- 22, Some d))
     else if ud_status d = SDEV_ST_AVAILABLE \<and> so \<noteq> None then
       (n, Some (d\<lparr>tcp_socket := so, tcp_rx := Some rx, tcp_tx := Some tx, ud_status := SDEV_ST_USED\<rparr>))
     else (- 22, Some d))"
  using assms unfolding store_sockfd_def Let_def written_fd_def [symmetric]
  by (auto split: if_splits option.splits prod.splits simp: EINVAL_def)

text \<open>Descriptor 3 connects the device, and then \<open>-1\<close> takes it down.\<close>

theorem store_sockfd_guards_witness:
  "store_sockfd sim_k (Some sdev_demo) ''3'' 1 sim0 = (1, Some (sdev_demo\<lparr>tcp_socket := Some 3,
      tcp_rx := Some (Inr 1), tcp_tx := Some (Inr 1), ud_status := SDEV_ST_USED\<rparr>), sim0) \<and>
   fst (store_sockfd sim_k (Some conn_demo) ''-1'' 2 sim0) = 2 \<and>
   fst (snd (store_sockfd sim_k (Some conn_demo) ''-1'' 2 sim0)) = Some (usbip_event_add SDEV_EVENT_DOWN conn_demo)"
proof -
  have fd: "written_fd ''3'' = 3" "written_fd ''-1'' = - 1" by code_simp+
  have s: "ud_status sdev_demo = SDEV_ST_AVAILABLE" "ud_status conn_demo = SDEV_ST_USED"
    by (simp_all add: sdev_demo_eq conn_demo_def)
  have k: "sockfd_to_socket sim_k (written_fd ''3'') sim0 = (Some 3, sim0)"
    "sockfd_to_socket sim_k (written_fd ''-1'') sim0 = (Some 4294967295, sim0)"
    "kthread_run sim_k sim0 = (Inr 1, sim0)"
    by (simp_all add: sockfd_to_socket_def fd unsigned_minus_1_eq_mask mask_eq_exp_minus_1)
  obtain r d' w' where b: "store_sockfd sim_k (Some conn_demo) ''-1'' 2 sim0 = (r, d', w')" by (metis prod_cases3)
  show ?thesis
    using store_sockfd_guards [OF demo_connects k(1,3,3)] store_sockfd_guards [OF b k(2,3,3)] demo_connects b
    by (simp add: fd s)
qed

end
