(* ===== verification/Vhci.thy ===== *)
theory Vhci
  imports NetLaws
begin

text \<open>
  State of the virtual host controller (\<^verbatim>\<open>vhci.h\<close>) and the primitives its parts share. A urb that
  the USB core hands over is an entry of \<open>vh_urbs\<close>, keyed by its address, until the driver gives it
  back: \<open>vh_given\<close> records every call of \<open>usb_hcd_giveback_urb\<close>, and an access to a urb that is no
  longer in the store sets \<open>vh_oops\<close>, like an access to a freed request or outside an array.
  \<open>vh_next\<close> supplies the addresses of requests and \<open>vh_issued\<close> counts the sequence numbers taken;
  these four fields have no counterpart in C.

  A function of the driver that works on one \<open>vhci_device\<close> takes it as an argument beside the rest
  of the controller, whose own copy it does not look at; \<open>on_port\<close> runs such a function on a port
  and stores the device back.
\<close>

section \<open>State\<close>

record vhci_priv =
  vp_id :: addr
  vp_seqnum :: u64
  vp_vdev :: nat
  vp_urb :: addr

record vhci_unlink =
  vu_seqnum :: u64
  vu_unlink_seqnum :: u64

text \<open>Values of \<open>enum usb_device_speed\<close>; the sources store any number in such a variable.\<close>

definition USB_SPEED_LOW :: u32 where "USB_SPEED_LOW = 1"
definition USB_SPEED_FULL :: u32 where "USB_SPEED_FULL = 2"
definition USB_SPEED_HIGH :: u32 where "USB_SPEED_HIGH = 3"
definition USB_SPEED_WIRELESS :: u32 where "USB_SPEED_WIRELESS = 4"

lemmas speed_defs = USB_SPEED_LOW_def USB_SPEED_FULL_def USB_SPEED_HIGH_def USB_SPEED_WIRELESS_def

record vhci_device = usbip_device +
  vd_udev :: "addr option"
  vd_devid :: u32
  vd_speed :: u32
  vd_rhport :: u32
  vd_priv_tx :: "vhci_priv list"
  vd_priv_rx :: "vhci_priv list"
  vd_unlink_tx :: "vhci_unlink list"
  vd_unlink_rx :: "vhci_unlink list"

text \<open>A urb as the host controller sees it: \<open>urb->dev\<close> with its port number, and \<open>urb->hcpriv\<close>, the
  address of the request that carries it.\<close>

record hcd_urb =
  hu_urb :: urb
  hu_dev :: addr
  hu_portnum :: u8
  hu_hcpriv :: "addr option"

datatype hc_state = HC_STATE_HALT | HC_STATE_RUNNING | HC_STATE_SUSPENDED

definition VHCI_NPORTS :: nat where "VHCI_NPORTS = 8"

record vhci_hcd =
  port_status :: "u32 list"
  resuming :: bool
  re_timeout :: u64
  vh_seqnum :: s32
  vdevs :: "vhci_device list"
  hcd_accessible :: bool
  hcd_state :: hc_state
  vh_urbs :: "addr \<Rightarrow> hcd_urb option"
  vh_next :: addr
  vh_issued :: nat
  vh_given :: "(addr \<times> urb \<times> s32) list"
  vh_oops :: bool

section \<open>The USB core as the driver sees it\<close>

record 'w hapi =
  usb_hcd_link_urb_to_ep :: "addr \<Rightarrow> 'w \<Rightarrow> s32 \<times> 'w"
  usb_hcd_unlink_urb_from_ep :: "addr \<Rightarrow> 'w \<Rightarrow> 'w"
  usb_hcd_check_unlink_urb :: "addr \<Rightarrow> s32 \<Rightarrow> 'w \<Rightarrow> s32 \<times> 'w"
  usb_hcd_giveback_urb :: "addr \<Rightarrow> urb \<Rightarrow> s32 \<Rightarrow> 'w \<Rightarrow> 'w"
  usb_hcd_poll_rh_status :: "'w \<Rightarrow> 'w"
  usb_hcd_resume_root_hub :: "'w \<Rightarrow> 'w"
  usb_get_dev :: "addr \<Rightarrow> 'w \<Rightarrow> 'w"
  usb_put_dev :: "addr \<Rightarrow> 'w \<Rightarrow> 'w"
  dev_name :: "addr \<Rightarrow> string"
  jiffies :: "'w \<Rightarrow> u64"
  msecs_to_jiffies :: "u32 \<Rightarrow> u64"
  sysfs_create_group :: "'w \<Rightarrow> s32 \<times> 'w"
  sysfs_remove_group :: "'w \<Rightarrow> 'w"

text \<open>An instance in which every call succeeds, for the witnesses.\<close>

definition sim_hc :: "'w hapi" where
  "sim_hc =
     \<lparr>usb_hcd_link_urb_to_ep = (\<lambda>a w. (0, w)), usb_hcd_unlink_urb_from_ep = (\<lambda>a w. w),
      usb_hcd_check_unlink_urb = (\<lambda>a s w. (0, w)), usb_hcd_giveback_urb = (\<lambda>a u s w. w),
      usb_hcd_poll_rh_status = (\<lambda>w. w), usb_hcd_resume_root_hub = (\<lambda>w. w),
      usb_get_dev = (\<lambda>a w. w), usb_put_dev = (\<lambda>a w. w), dev_name = (\<lambda>a. ''1-1''),
      jiffies = (\<lambda>w. 1000), msecs_to_jiffies = (\<lambda>m. ucast m div 4),
      sysfs_create_group = (\<lambda>w. (0, w)), sysfs_remove_group = (\<lambda>w. w)\<rparr>"

lemma sim_hc_fields [simp]:
  "usb_hcd_link_urb_to_ep sim_hc = (\<lambda>a w. (0, w))"
  "usb_hcd_unlink_urb_from_ep sim_hc = (\<lambda>a w. w)"
  "usb_hcd_check_unlink_urb sim_hc = (\<lambda>a s w. (0, w))"
  "usb_hcd_giveback_urb sim_hc = (\<lambda>a u s w. w)"
  "usb_hcd_poll_rh_status sim_hc = (\<lambda>w. w)"
  "usb_hcd_resume_root_hub sim_hc = (\<lambda>w. w)"
  "usb_get_dev sim_hc = (\<lambda>a w. w)"
  "usb_put_dev sim_hc = (\<lambda>a w. w)"
  "dev_name sim_hc = (\<lambda>a. ''1-1'')"
  "jiffies sim_hc = (\<lambda>w. 1000)"
  "msecs_to_jiffies sim_hc = (\<lambda>m. ucast m div 4)"
  "sysfs_create_group sim_hc = (\<lambda>w. (0, w))"
  "sysfs_remove_group sim_hc = (\<lambda>w. w)"
  by (simp_all add: sim_hc_def)

section \<open>Shared primitives\<close>

definition vhci_fault :: "vhci_hcd \<Rightarrow> vhci_hcd" where
  "vhci_fault c = c\<lparr>vh_oops := True\<rparr>"

definition on_port ::
  "nat \<Rightarrow> (vhci_device \<Rightarrow> vhci_hcd \<Rightarrow> 'w \<Rightarrow> vhci_device \<times> vhci_hcd \<times> 'w) \<Rightarrow> vhci_hcd \<Rightarrow> 'w \<Rightarrow> vhci_hcd \<times> 'w" where
  "on_port i f c w =
     (case f (vdevs c ! i) c w of (d, c', w') \<Rightarrow> (c'\<lparr>vdevs := (vdevs c')[i := d]\<rparr>, w'))"

definition put_hurb :: "addr \<Rightarrow> hcd_urb \<Rightarrow> vhci_hcd \<Rightarrow> vhci_hcd" where
  "put_hurb a ub c = c\<lparr>vh_urbs := (vh_urbs c)(a \<mapsto> ub)\<rparr>"

text \<open>\<open>usb_hcd_unlink_urb_from_ep\<close> followed, with the locks released, by
  \<open>usb_hcd_giveback_urb(hcd, urb, urb->status)\<close>; the first call is left out where the code does.\<close>

definition giveback_urb :: "'w hapi \<Rightarrow> addr \<Rightarrow> vhci_hcd \<Rightarrow> 'w \<Rightarrow> vhci_hcd \<times> 'w" where
  "giveback_urb hk a c w =
     (case vh_urbs c a of
        None \<Rightarrow> (vhci_fault c, w)
      | Some ub \<Rightarrow>
          (c\<lparr>vh_urbs := (vh_urbs c)(a := None),
             vh_given := vh_given c @ [(a, hu_urb ub, u_status (hu_urb ub))]\<rparr>,
           usb_hcd_giveback_urb hk a (hu_urb ub) (u_status (hu_urb ub)) w))"

definition unlink_and_giveback :: "'w hapi \<Rightarrow> addr \<Rightarrow> vhci_hcd \<Rightarrow> 'w \<Rightarrow> vhci_hcd \<times> 'w" where
  "unlink_and_giveback hk a c w = giveback_urb hk a c (usb_hcd_unlink_urb_from_ep hk a w)"

text \<open>\<open>atomic_inc_return\<close> on an \<open>int\<close>, stored in an \<open>unsigned long\<close>: the sign is extended.\<close>

definition next_seqnum :: "vhci_hcd \<Rightarrow> u64 \<times> vhci_hcd" where
  "next_seqnum c =
     (let s = vh_seqnum c + 1 in (scast s, c\<lparr>vh_seqnum := s, vh_issued := Suc (vh_issued c)\<rparr>))"

text \<open>The urb of the first transmitted request with this sequence number, whose request is freed.\<close>

definition pickup_urb_and_free_priv ::
  "vhci_device \<Rightarrow> u32 \<Rightarrow> vhci_hcd \<Rightarrow> addr option \<times> vhci_device \<times> vhci_hcd" where
  "pickup_urb_and_free_priv vdev seqn c =
     (case unlink_first (\<lambda>p. vp_seqnum p = ucast seqn) (vd_priv_rx vdev) of
        (None, _) \<Rightarrow> (None, vdev, c)
      | (Some p, rest) \<Rightarrow>
          (case vh_urbs c (vp_urb p) of
             None \<Rightarrow> (Some (vp_urb p), vdev\<lparr>vd_priv_rx := rest\<rparr>, vhci_fault c)
           | Some ub \<Rightarrow>
               (Some (vp_urb p), vdev\<lparr>vd_priv_rx := rest\<rparr>,
                put_hurb (vp_urb p) (ub\<lparr>hu_hcpriv := None\<rparr>) c)))"

text \<open>The request a pointer in \<open>urb->hcpriv\<close> leads to, if it is still allocated.\<close>

definition vdev_privs :: "vhci_device \<Rightarrow> vhci_priv list" where
  "vdev_privs d = vd_priv_tx d @ vd_priv_rx d"

definition all_vprivs :: "vhci_hcd \<Rightarrow> vhci_priv list" where
  "all_vprivs c = concat (map vdev_privs (vdevs c))"

definition priv_at :: "vhci_hcd \<Rightarrow> addr \<Rightarrow> vhci_priv option" where
  "priv_at c i = List.find (\<lambda>p. vp_id p = i) (all_vprivs c)"

text \<open>\<open>port_to_vdev\<close>, with an index outside the array as \<open>None\<close>.\<close>

definition port_to_vdev :: "vhci_hcd \<Rightarrow> nat \<Rightarrow> vhci_device option" where
  "port_to_vdev c port = (if port < length (vdevs c) then Some (vdevs c ! port) else None)"

definition set_vdev :: "nat \<Rightarrow> vhci_device \<Rightarrow> vhci_hcd \<Rightarrow> vhci_hcd" where
  "set_vdev i d c = c\<lparr>vdevs := (vdevs c)[i := d]\<rparr>"

definition vhci_event :: "u64 \<Rightarrow> nat \<Rightarrow> vhci_hcd \<Rightarrow> vhci_hcd" where
  "vhci_event ev i c = set_vdev i (usbip_event_add ev (vdevs c ! i)) c"

text \<open>\<open>kthread_stop_put\<close> tests for the null pointer only: an encoded error is followed like a task.\<close>

definition vhci_stop_thread :: "'w kapi \<Rightarrow> thread option \<Rightarrow> vhci_hcd \<Rightarrow> 'w \<Rightarrow> vhci_hcd \<times> 'w" where
  "vhci_stop_thread k t c w =
     (case t of
        None \<Rightarrow> (c, w)
      | Some (Inl e) \<Rightarrow> (vhci_fault c, w)
      | Some (Inr n) \<Rightarrow> (c, kthread_stop k (Inr n) w))"

end
