(* ===== verification/VhciHub.thy ===== *)
theory VhciHub
  imports Vhci
begin

text \<open>
  The root hub the virtual host controller emulates (\<^verbatim>\<open>vhci_hcd.c\<close>): port status words, the change
  bitmap, the hub's class requests, and the suspend and resume callbacks that depend on them. Ports
  are numbered from one in requests and from zero in the arrays.
\<close>

section \<open>Constants\<close>

definition USB_PORT_STAT_CONNECTION :: u32 where "USB_PORT_STAT_CONNECTION = 0x0001"
definition USB_PORT_STAT_ENABLE :: u32 where "USB_PORT_STAT_ENABLE = 0x0002"
definition USB_PORT_STAT_SUSPEND :: u32 where "USB_PORT_STAT_SUSPEND = 0x0004"
definition USB_PORT_STAT_LOW_SPEED :: u32 where "USB_PORT_STAT_LOW_SPEED = 0x0200"
definition USB_PORT_STAT_HIGH_SPEED :: u32 where "USB_PORT_STAT_HIGH_SPEED = 0x0400"

lemmas port_stat_defs = USB_PORT_STAT_CONNECTION_def USB_PORT_STAT_ENABLE_def
  USB_PORT_STAT_SUSPEND_def USB_PORT_STAT_LOW_SPEED_def USB_PORT_STAT_HIGH_SPEED_def

definition USB_PORT_FEAT_SUSPEND :: u16 where "USB_PORT_FEAT_SUSPEND = 2"
definition USB_PORT_FEAT_RESET :: u16 where "USB_PORT_FEAT_RESET = 4"
definition USB_PORT_FEAT_POWER :: u16 where "USB_PORT_FEAT_POWER = 8"
definition USB_PORT_FEAT_C_CONNECTION :: u16 where "USB_PORT_FEAT_C_CONNECTION = 16"
definition USB_PORT_FEAT_C_SUSPEND :: u16 where "USB_PORT_FEAT_C_SUSPEND = 18"
definition USB_PORT_FEAT_C_RESET :: u16 where "USB_PORT_FEAT_C_RESET = 20"

lemmas port_feat_defs = USB_PORT_FEAT_SUSPEND_def USB_PORT_FEAT_RESET_def USB_PORT_FEAT_POWER_def
  USB_PORT_FEAT_C_CONNECTION_def USB_PORT_FEAT_C_SUSPEND_def USB_PORT_FEAT_C_RESET_def

definition ClearHubFeature :: u16 where "ClearHubFeature = 0x2001"
definition ClearPortFeature :: u16 where "ClearPortFeature = 0x2301"
definition GetHubDescriptor :: u16 where "GetHubDescriptor = 0xa006"
definition GetHubStatus :: u16 where "GetHubStatus = 0xa000"
definition GetPortStatus :: u16 where "GetPortStatus = 0xa300"
definition SetHubFeature :: u16 where "SetHubFeature = 0x2003"
definition SetPortFeature :: u16 where "SetPortFeature = 0x2303"

lemmas hub_request_defs = ClearHubFeature_def ClearPortFeature_def GetHubDescriptor_def
  GetHubStatus_def GetPortStatus_def SetHubFeature_def SetPortFeature_def

text \<open>\<open>1 << feature\<close>.\<close>

definition feat_bit :: "u16 \<Rightarrow> u32" where
  "feat_bit f = push_bit (unat f) 1"

text \<open>\<open>USB_PORT_STAT_C_CONNECTION\<close> to \<open>USB_PORT_STAT_C_RESET\<close> are the five low bits of the change word.\<close>

definition PORT_C_MASK :: u32 where
  "PORT_C_MASK = push_bit 16 (0x01 OR 0x02 OR 0x04 OR 0x08 OR 0x10)"

text \<open>Comparison of times that wrap around.\<close>

definition time_after :: "u64 \<Rightarrow> u64 \<Rightarrow> bool" where
  "time_after a b \<longleftrightarrow> sint (b - a) < 0"

section \<open>Connecting and disconnecting a port\<close>

definition upd_port :: "nat \<Rightarrow> (u32 \<Rightarrow> u32) \<Rightarrow> vhci_hcd \<Rightarrow> vhci_hcd" where
  "upd_port i f c =
     (if i < length (port_status c) then c\<lparr>port_status := (port_status c)[i := f (port_status c ! i)]\<rparr>
      else vhci_fault c)"

definition speed_bit :: "u32 \<Rightarrow> u32" where
  "speed_bit speed =
     (if speed = USB_SPEED_HIGH then USB_PORT_STAT_HIGH_SPEED
      else if speed = USB_SPEED_LOW then USB_PORT_STAT_LOW_SPEED else 0)"

definition rh_port_connect :: "'w hapi \<Rightarrow> nat \<Rightarrow> u32 \<Rightarrow> vhci_hcd \<Rightarrow> 'w \<Rightarrow> vhci_hcd \<times> 'w" where
  "rh_port_connect hk rhport speed c w =
     (let c1 = upd_port rhport (\<lambda>s. s OR (USB_PORT_STAT_CONNECTION OR feat_bit USB_PORT_FEAT_C_CONNECTION)) c;
          c2 = upd_port rhport (\<lambda>s. s OR speed_bit speed) c1
      in (c2, usb_hcd_poll_rh_status hk w))"

definition rh_port_disconnect :: "'w hapi \<Rightarrow> nat \<Rightarrow> vhci_hcd \<Rightarrow> 'w \<Rightarrow> vhci_hcd \<times> 'w" where
  "rh_port_disconnect hk rhport c w =
     (let c1 = upd_port rhport (\<lambda>s. s AND NOT USB_PORT_STAT_CONNECTION) c;
          c2 = upd_port rhport (\<lambda>s. s OR feat_bit USB_PORT_FEAT_C_CONNECTION) c1
      in (c2, usb_hcd_poll_rh_status hk w))"

section \<open>Status changes\<close>

text \<open>One round of the loop over the ports: the bitmap and \<open>changed\<close>.\<close>

definition hub_status_port :: "u32 list \<Rightarrow> nat \<Rightarrow> byte list \<times> bool \<Rightarrow> byte list \<times> bool" where
  "hub_status_port ps rhport bc =
     (case bc of (buf, changed) \<Rightarrow>
        if ps ! rhport AND PORT_C_MASK \<noteq> 0
        then (buf[(rhport + 1) div 8 := buf ! ((rhport + 1) div 8) OR push_bit ((rhport + 1) mod 8) 1], True)
        else (buf, changed))"

definition vhci_hub_status :: "'w hapi \<Rightarrow> vhci_hcd \<Rightarrow> 'w \<Rightarrow> int \<times> byte list \<times> 'w" where
  "vhci_hub_status hk c w =
     (let retval = (VHCI_NPORTS + 1 + 7) div 8; buf0 = replicate retval 0 in
      if \<not> hcd_accessible c then (0, buf0, w)
      else
        (case fold (hub_status_port (port_status c)) [0..<VHCI_NPORTS] (buf0, False) of
           (buf, changed) \<Rightarrow>
             (if changed then int retval else 0, buf,
              if hcd_state c = HC_STATE_SUSPENDED \<and> changed then usb_hcd_resume_root_hub hk w else w)))"

section \<open>Class requests\<close>

text \<open>The first \<open>bDescLength\<close> bytes of the descriptor; the rest is zero.\<close>

record usb_hub_descriptor =
  bDescLength :: u8
  bDescriptorType :: u8
  bNbrPorts :: u8
  wHubCharacteristics :: u16
  bPwrOn2PwrGood :: u8
  bHubContrCurrent :: u8
  DeviceRemovable :: "u8 list"

definition hub_descriptor :: "usb_hub_descriptor" where
  "hub_descriptor =
     \<lparr>bDescLength = 9, bDescriptorType = 0x29, bNbrPorts = of_nat VHCI_NPORTS,
      wHubCharacteristics = 0x0001, bPwrOn2PwrGood = 0, bHubContrCurrent = 0,
      DeviceRemovable = [0xff, 0xff]\<rparr>"

definition mem_hub_descriptor :: "usb_hub_descriptor \<Rightarrow> byte list" where
  "mem_hub_descriptor d =
     [bDescLength d, bDescriptorType d, bNbrPorts d] @ bytes_le16 (wHubCharacteristics d) @
     [bPwrOn2PwrGood d, bHubContrCurrent d] @ DeviceRemovable d"

definition cpu_to_le16 :: "endian \<Rightarrow> u16 \<Rightarrow> u16" where
  "cpu_to_le16 h v = (case h of Little \<Rightarrow> v | Big \<Rightarrow> bswap16 v)"

text \<open>\<open>ClearPortFeature\<close> on an existing port. \<open>USB_PORT_FEAT_C_RESET\<close> falls through to the default
  case; a shift by more than the width of an \<open>int\<close> is undefined.\<close>

definition clear_port_feature :: "'w hapi \<Rightarrow> u16 \<Rightarrow> nat \<Rightarrow> vhci_hcd \<Rightarrow> 'w \<Rightarrow> vhci_hcd" where
  "clear_port_feature hk value rhport dum w =
     (if value = USB_PORT_FEAT_SUSPEND then
        (if port_status dum ! rhport AND USB_PORT_STAT_SUSPEND \<noteq> 0
         then dum\<lparr>resuming := True, re_timeout := jiffies hk w + msecs_to_jiffies hk 20\<rparr> else dum)
      else if value = USB_PORT_FEAT_POWER then
        (upd_port rhport (\<lambda>_. 0) dum)\<lparr>resuming := False\<rparr>
      else
        (let d1 = (if value = USB_PORT_FEAT_C_RESET
                   then upd_port rhport (\<lambda>s. s OR speed_bit (vd_speed (vdevs dum ! rhport))) dum else dum)
         in if unat value < 32 then upd_port rhport (\<lambda>s. s AND NOT (feat_bit value)) d1
            else vhci_fault d1))"

text \<open>\<open>GetPortStatus\<close> on an existing port: a resume or a reset that has lasted long enough ends here.\<close>

definition end_resume :: "'w hapi \<Rightarrow> nat \<Rightarrow> vhci_hcd \<Rightarrow> 'w \<Rightarrow> vhci_hcd" where
  "end_resume hk rhport dum w =
     (if resuming dum \<and> time_after (jiffies hk w) (re_timeout dum) then
        (upd_port rhport (\<lambda>s. (s OR feat_bit USB_PORT_FEAT_C_SUSPEND) AND NOT (feat_bit USB_PORT_FEAT_SUSPEND)) dum)
          \<lparr>resuming := False, re_timeout := 0\<rparr>
      else dum)"

definition end_reset :: "'w hapi \<Rightarrow> nat \<Rightarrow> vhci_hcd \<Rightarrow> 'w \<Rightarrow> vhci_hcd" where
  "end_reset hk rhport dum w =
     (if port_status dum ! rhport AND feat_bit USB_PORT_FEAT_RESET \<noteq> 0 \<and>
         time_after (jiffies hk w) (re_timeout dum) then
        (let d1 = (upd_port rhport (\<lambda>s. (s OR feat_bit USB_PORT_FEAT_C_RESET) AND NOT (feat_bit USB_PORT_FEAT_RESET)) dum)
                    \<lparr>re_timeout := 0\<rparr>
         in if ud_status (vdevs d1 ! rhport) = VDEV_ST_NOTASSIGNED
            then upd_port rhport (\<lambda>s. s OR USB_PORT_STAT_ENABLE) d1 else d1)
      else dum)"

definition get_port_status :: "endian \<Rightarrow> 'w hapi \<Rightarrow> nat \<Rightarrow> vhci_hcd \<Rightarrow> 'w \<Rightarrow> byte list \<times> vhci_hcd" where
  "get_port_status h hk rhport dum w =
     (let d2 = end_reset hk rhport (end_resume hk rhport dum w) w; s = port_status d2 ! rhport in
      (mem16 h (cpu_to_le16 h (ucast s)) @ mem16 h (cpu_to_le16 h (ucast (drop_bit 16 s))), d2))"

definition set_port_feature :: "'w hapi \<Rightarrow> u16 \<Rightarrow> nat \<Rightarrow> vhci_hcd \<Rightarrow> 'w \<Rightarrow> vhci_hcd" where
  "set_port_feature hk value rhport dum w =
     (let d1 =
        (if value = USB_PORT_FEAT_RESET then
           (upd_port rhport
             (\<lambda>s. if s AND USB_PORT_STAT_ENABLE \<noteq> 0
                  then s AND NOT (USB_PORT_STAT_ENABLE OR USB_PORT_STAT_LOW_SPEED OR USB_PORT_STAT_HIGH_SPEED)
                  else s) dum)\<lparr>re_timeout := jiffies hk w + msecs_to_jiffies hk 50\<rparr>
         else dum)
      in if unat value < 32 then upd_port rhport (\<lambda>s. s OR feat_bit value) d1 else vhci_fault d1)"

text \<open>The request: result, bytes written to \<open>buf\<close>, controller. An array index outside the eight ports,
  which only a message precedes in the code, is a fault.\<close>

definition vhci_hub_control ::
  "endian \<Rightarrow> 'w hapi \<Rightarrow> u16 \<Rightarrow> u16 \<Rightarrow> u16 \<Rightarrow> vhci_hcd \<Rightarrow> 'w \<Rightarrow> s32 \<times> byte list \<times> vhci_hcd" where
  "vhci_hub_control h hk typeReq value index dum w =
     (if \<not> hcd_accessible dum then (- ETIMEDOUT, [], dum)
      else
        (let rhport = uint (ucast index :: u8) - 1;
             port = nat rhport;
             inside = (0 \<le> rhport \<and> rhport < int VHCI_NPORTS)
         in if typeReq = ClearHubFeature then (0, [], dum)
            else if typeReq = ClearPortFeature then
              (0, [], if inside then clear_port_feature hk value port dum w else vhci_fault dum)
            else if typeReq = GetHubDescriptor then (0, mem_hub_descriptor hub_descriptor, dum)
            else if typeReq = GetHubStatus then (0, mem32 h 0, dum)
            else if typeReq = GetPortStatus then
              (let retval = (if unat index > VHCI_NPORTS \<or> index < 1 then - EPIPE else 0) in
               if inside then (case get_port_status h hk port dum w of (buf, d) \<Rightarrow> (retval, buf, d))
               else (retval, [], vhci_fault dum))
            else if typeReq = SetHubFeature then (- EPIPE, [], dum)
            else if typeReq = SetPortFeature then
              (0, [], if value = USB_PORT_FEAT_SUSPEND then dum
                      else if inside then set_port_feature hk value port dum w else vhci_fault dum)
            else (- EPIPE, [], dum)))"

section \<open>Suspend and resume\<close>

definition vhci_get_frame_number :: s32 where
  "vhci_get_frame_number = 0"

definition vhci_bus_suspend :: "vhci_hcd \<Rightarrow> s32 \<times> vhci_hcd" where
  "vhci_bus_suspend c = (0, c\<lparr>hcd_state := HC_STATE_SUSPENDED\<rparr>)"

definition vhci_bus_resume :: "vhci_hcd \<Rightarrow> s32 \<times> vhci_hcd" where
  "vhci_bus_resume c =
     (if \<not> hcd_accessible c then (- ESHUTDOWN, c) else (0, c\<lparr>hcd_state := HC_STATE_RUNNING\<rparr>))"

definition vhci_hcd_suspend :: "vhci_hcd \<Rightarrow> s32 \<times> vhci_hcd" where
  "vhci_hcd_suspend c =
     (let connected = length (filter (\<lambda>s. s AND USB_PORT_STAT_CONNECTION \<noteq> 0) (port_status c)) in
      if connected > 0 then (- EBUSY, c) else (0, c\<lparr>hcd_accessible := False\<rparr>))"

definition vhci_hcd_resume :: "'w hapi \<Rightarrow> vhci_hcd \<Rightarrow> 'w \<Rightarrow> s32 \<times> vhci_hcd \<times> 'w" where
  "vhci_hcd_resume hk c w = (0, c\<lparr>hcd_accessible := True\<rparr>, usb_hcd_poll_rh_status hk w)"

end
