(* ===== verification/VhciUrb.thy ===== *)
theory VhciUrb
  imports VhciHub
begin

text \<open>
  The path of a urb through the host controller driver and the life of a port (\<^verbatim>\<open>vhci_hcd.c\<close>):
  enqueueing and dequeueing, the clean-up of unanswered unlink requests, the three callbacks of the
  event handler, and starting and stopping the controller.
\<close>

section \<open>Enqueueing\<close>

definition USB_REQ_SET_ADDRESS :: u8 where "USB_REQ_SET_ADDRESS = 5"
definition USB_REQ_GET_DESCRIPTOR :: u8 where "USB_REQ_GET_DESCRIPTOR = 6"

definition get_vdev :: "vhci_hcd \<Rightarrow> addr \<Rightarrow> nat option" where
  "get_vdev c udev = List.find (\<lambda>i. vd_udev (vdevs c ! i) = Some udev) [0..<VHCI_NPORTS]"

definition vhci_tx_urb :: "'w kapi \<Rightarrow> addr \<Rightarrow> hcd_urb \<Rightarrow> vhci_hcd \<Rightarrow> 'w \<Rightarrow> vhci_hcd \<times> 'w" where
  "vhci_tx_urb k a ub c w =
     (case get_vdev c (hu_dev ub) of
        None \<Rightarrow> (c, w)
      | Some i \<Rightarrow>
          (case kzalloc k 40 w of (ok, w1) \<Rightarrow>
             if \<not> ok then (vhci_event VDEV_EVENT_ERROR_MALLOC i c, w1)
             else
               (case next_seqnum c of (s, c1) \<Rightarrow>
                  (let p = \<lparr>vp_id = vh_next c1, vp_seqnum = s, vp_vdev = i, vp_urb = a\<rparr>;
                       c2 = put_hurb a (ub\<lparr>hu_hcpriv := Some (vp_id p)\<rparr>) (c1\<lparr>vh_next := Suc (vh_next c1)\<rparr>);
                       d = vdevs c2 ! i
                   in (set_vdev i (d\<lparr>vd_priv_tx := vd_priv_tx d @ [p]\<rparr>) c2, w1)))))"

text \<open>\<open>vdev->udev = usb_get_dev(urb->dev)\<close> after dropping the old reference.\<close>

definition take_udev :: "'w hapi \<Rightarrow> addr \<Rightarrow> vhci_device \<Rightarrow> 'w \<Rightarrow> vhci_device \<times> 'w" where
  "take_udev hk dev vdev w =
     (vdev\<lparr>vd_udev := Some dev\<rparr>,
      usb_get_dev hk dev (case vd_udev vdev of None \<Rightarrow> w | Some old \<Rightarrow> usb_put_dev hk old w))"

text \<open>What becomes of a request to device number zero: it is refused or answered here
  (\<open>no_need_xmit\<close>, with the result), or sent.\<close>

datatype enum_step = NoXmit s32 | Xmit

definition enumerate ::
  "'w hapi \<Rightarrow> addr \<Rightarrow> nat \<Rightarrow> hcd_urb \<Rightarrow> vhci_hcd \<Rightarrow> 'w \<Rightarrow> enum_step \<times> vhci_hcd \<times> 'w" where
  "enumerate hk a port ub c w =
     (let u = hu_urb ub; vdev = vdevs c ! port in
      case setup_packet u of
        None \<Rightarrow> (NoXmit (- EINVAL), c, w)
      | Some sp \<Rightarrow>
          if usb_pipetype (u_pipe u) \<noteq> PIPE_CONTROL then (NoXmit (- EINVAL), c, w)
          else if sp ! 1 = USB_REQ_SET_ADDRESS then
            (case take_udev hk (hu_dev ub) vdev w of (vdev1, w1) \<Rightarrow>
               (NoXmit 0,
                put_hurb a (if u_status u = - EINPROGRESS then ub\<lparr>hu_urb := u\<lparr>u_status := 0\<rparr>\<rparr> else ub)
                  (set_vdev port (vdev1\<lparr>ud_status := VDEV_ST_USED\<rparr>) c), w1))
          else if sp ! 1 = USB_REQ_GET_DESCRIPTOR then
            (case take_udev hk (hu_dev ub) vdev w of (vdev1, w1) \<Rightarrow> (Xmit, set_vdev port vdev1 c, w1))
          else (NoXmit (- EINVAL), c, w))"

definition vhci_urb_enqueue ::
  "'w kapi \<Rightarrow> 'w hapi \<Rightarrow> addr \<Rightarrow> vhci_hcd \<Rightarrow> 'w \<Rightarrow> s32 \<times> vhci_hcd \<times> 'w" where
  "vhci_urb_enqueue k hk a c w =
     (case vh_urbs c a of
        None \<Rightarrow> (0, vhci_fault c, w)
      | Some ub \<Rightarrow>
     (let u = hu_urb ub in
      if transfer_buffer u = None \<and> transfer_buffer_length u \<noteq> 0 then (0, vhci_fault c, w)
      else if u_status u \<noteq> - EINPROGRESS then (u_status u, c, w)
      else if hu_portnum ub = 0 then (0, vhci_fault c, w)
      else
        (let port = unat (hu_portnum ub) - 1 in
         case port_to_vdev c port of
           None \<Rightarrow> (0, vhci_fault c, w)
         | Some vdev \<Rightarrow>
             if ud_status vdev = VDEV_ST_NULL \<or> ud_status vdev = VDEV_ST_ERROR then (- ENODEV, c, w)
             else
               (case usb_hcd_link_urb_to_ep hk a w of (ret, w1) \<Rightarrow>
                  if ret \<noteq> 0 then (case giveback_urb hk a c w1 of (c2, w2) \<Rightarrow> (ret, c2, w2))
                  else
                    (case (if usb_pipedevice (u_pipe u) = 0 then enumerate hk a port ub c w1
                           else (Xmit, c, w1)) of
                       (NoXmit r, c1, w2) \<Rightarrow>
                         (case unlink_and_giveback hk a c1 w2 of (c2, w3) \<Rightarrow> (r, c2, w3))
                     | (Xmit, c1, w2) \<Rightarrow>
                         (case vhci_tx_urb k a ub c1 w2 of (c2, w3) \<Rightarrow> (0, c2, w3)))))))"

section \<open>Dequeueing\<close>

definition drop_priv :: "addr \<Rightarrow> vhci_device \<Rightarrow> vhci_device" where
  "drop_priv i d =
     d\<lparr>vd_priv_tx := filter (\<lambda>p. vp_id p \<noteq> i) (vd_priv_tx d),
       vd_priv_rx := filter (\<lambda>p. vp_id p \<noteq> i) (vd_priv_rx d)\<rparr>"

definition vhci_urb_dequeue ::
  "'w kapi \<Rightarrow> 'w hapi \<Rightarrow> addr \<Rightarrow> s32 \<Rightarrow> vhci_hcd \<Rightarrow> 'w \<Rightarrow> s32 \<times> vhci_hcd \<times> 'w" where
  "vhci_urb_dequeue k hk a status c w =
     (case vh_urbs c a of
        None \<Rightarrow> (0, vhci_fault c, w)
      | Some ub \<Rightarrow>
     (case hu_hcpriv ub of
        None \<Rightarrow> (0, c, w)
      | Some i \<Rightarrow>
     (case usb_hcd_check_unlink_urb hk a status w of (ret, w1) \<Rightarrow>
        if ret \<noteq> 0 then (ret, c, w1)
        else
     (case priv_at c i of
        None \<Rightarrow> (0, vhci_fault c, w1)
      | Some p \<Rightarrow>
     (let port = vp_vdev p; vdev = vdevs c ! port in
      case tcp_socket vdev of
        None \<Rightarrow>
          (case unlink_and_giveback hk a
                  (put_hurb a (ub\<lparr>hu_hcpriv := None\<rparr>) (set_vdev port (drop_priv i vdev) c)) w1 of
             (c1, w2) \<Rightarrow> (0, c1, w2))
      | Some s \<Rightarrow>
          (case kzalloc k 32 w1 of (ok, w2) \<Rightarrow>
             if \<not> ok then (- ENOMEM, vhci_event VDEV_EVENT_ERROR_MALLOC port c, w2)
             else
               (case next_seqnum c of (sq, c1) \<Rightarrow>
                  (0, set_vdev port
                        (vdev\<lparr>vd_unlink_tx := vd_unlink_tx vdev @
                           [\<lparr>vu_seqnum = sq, vu_unlink_seqnum = vp_seqnum p\<rparr>]\<rparr>) c1, w2))))))))"

section \<open>Clean-up\<close>

text \<open>The second loop of \<open>vhci_device_unlink_cleanup\<close>: every urb whose unlink request was sent and
  not answered is given back with \<open>-ENODEV\<close>, unless it already was.\<close>

lemma pickup_unlink_rx [simp]:
  "pickup_urb_and_free_priv vdev s c = (r, d, c') \<Longrightarrow> vd_unlink_rx d = vd_unlink_rx vdev"
  by (auto simp: pickup_urb_and_free_priv_def split: prod.splits option.splits)

definition set_urb_status :: "addr \<Rightarrow> s32 \<Rightarrow> vhci_hcd \<Rightarrow> vhci_hcd" where
  "set_urb_status a st c =
     (case vh_urbs c a of
        None \<Rightarrow> vhci_fault c
      | Some ub \<Rightarrow> put_hurb a (ub\<lparr>hu_urb := (hu_urb ub)\<lparr>u_status := st\<rparr>\<rparr>) c)"

definition cleanup_one ::
  "'w hapi \<Rightarrow> vhci_unlink \<Rightarrow> vhci_device \<Rightarrow> vhci_hcd \<Rightarrow> 'w \<Rightarrow> vhci_device \<times> vhci_hcd \<times> 'w" where
  "cleanup_one hk ul vdev c w =
     (case pickup_urb_and_free_priv vdev (ucast (vu_unlink_seqnum ul)) c of
        (None, d1, c1) \<Rightarrow> (d1, c1, w)
      | (Some a, d1, c1) \<Rightarrow>
          (case unlink_and_giveback hk a (set_urb_status a (- ENODEV) c1) w of (c2, w2) \<Rightarrow> (d1, c2, w2)))"

lemma cleanup_one_unlink_rx:
  "cleanup_one hk ul vdev c w = (d, c', w') \<Longrightarrow> vd_unlink_rx d = vd_unlink_rx vdev"
  by (auto simp: cleanup_one_def split: prod.splits option.splits)

function unlink_cleanup_rx ::
  "'w hapi \<Rightarrow> vhci_device \<Rightarrow> vhci_hcd \<Rightarrow> 'w \<Rightarrow> vhci_device \<times> vhci_hcd \<times> 'w" where
  "unlink_cleanup_rx hk vdev c w =
     (case vd_unlink_rx vdev of
        [] \<Rightarrow> (vdev, c, w)
      | ul # uls \<Rightarrow>
          (case cleanup_one hk ul vdev c w of (d1, c1, w1) \<Rightarrow>
             unlink_cleanup_rx hk (d1\<lparr>vd_unlink_rx := tl (vd_unlink_rx d1)\<rparr>) c1 w1))"
  by pat_completeness auto

termination
  by (relation "measure (\<lambda>(hk, vdev, c, w). length (vd_unlink_rx vdev))")
    (auto dest!: cleanup_one_unlink_rx [OF sym])

declare unlink_cleanup_rx.simps [simp del]

definition vhci_device_unlink_cleanup ::
  "'w hapi \<Rightarrow> vhci_device \<Rightarrow> vhci_hcd \<Rightarrow> 'w \<Rightarrow> vhci_device \<times> vhci_hcd \<times> 'w" where
  "vhci_device_unlink_cleanup hk vdev c w = unlink_cleanup_rx hk (vdev\<lparr>vd_unlink_tx := []\<rparr>) c w"

section \<open>Callbacks of the event handler\<close>

definition vhci_shutdown_connection ::
  "'w kapi \<Rightarrow> 'w hapi \<Rightarrow> vhci_device \<Rightarrow> vhci_hcd \<Rightarrow> 'w \<Rightarrow> vhci_device \<times> vhci_hcd \<times> 'w" where
  "vhci_shutdown_connection k hk vdev c w =
     (let w1 = (case tcp_socket vdev of None \<Rightarrow> w | Some s \<Rightarrow> kernel_sock_shutdown k s w) in
      case vhci_stop_thread k (tcp_rx vdev) c w1 of (c2, w2) \<Rightarrow>
      case vhci_stop_thread k (tcp_tx vdev) c2 w2 of (c3, w3) \<Rightarrow>
      (let vdev4 = vdev\<lparr>tcp_rx := None, tcp_tx := None, tcp_socket := None\<rparr>;
           w4 = (case tcp_socket vdev of None \<Rightarrow> w3 | Some s \<Rightarrow> fput_socket k s w3)
       in case vhci_device_unlink_cleanup hk vdev4 c3 w4 of (vdev5, c5, w5) \<Rightarrow>
          (case rh_port_disconnect hk (unat (vd_rhport vdev5)) c5 w5 of (c6, w6) \<Rightarrow> (vdev5, c6, w6))))"

definition vhci_device_reset ::
  "'w kapi \<Rightarrow> 'w hapi \<Rightarrow> vhci_device \<Rightarrow> 'w \<Rightarrow> vhci_device \<times> 'w" where
  "vhci_device_reset k hk vdev w =
     (let w1 = (case vd_udev vdev of None \<Rightarrow> w | Some u \<Rightarrow> usb_put_dev hk u w);
          w2 = (case tcp_socket vdev of None \<Rightarrow> w1 | Some s \<Rightarrow> fput_socket k s w1)
      in (vdev\<lparr>tcp_socket := None, ud_status := VDEV_ST_NULL, vd_udev := None, vd_devid := 0,
               vd_speed := 0\<rparr>, w2))"

definition vhci_device_unusable :: "vhci_device \<Rightarrow> vhci_device" where
  "vhci_device_unusable vdev = vdev\<lparr>ud_status := VDEV_ST_ERROR\<rparr>"

definition vhci_eh_ops :: "'w kapi \<Rightarrow> 'w hapi \<Rightarrow> (vhci_device, vhci_hcd \<times> 'w) eh_ops" where
  "vhci_eh_ops k hk =
     \<lparr>eh_shutdown = (\<lambda>d (c, w). vhci_shutdown_connection k hk d c w),
      eh_reset = (\<lambda>d (c, w). case vhci_device_reset k hk d w of (d', w') \<Rightarrow> (d', c, w')),
      eh_unusable = (\<lambda>d (c, w). (vhci_device_unusable d, c, w))\<rparr>"

section \<open>Starting and stopping\<close>

definition vhci_device_init :: "'w kapi \<Rightarrow> 'w \<Rightarrow> vhci_device \<times> 'w" where
  "vhci_device_init k w =
     (let vdev = \<lparr>ud_side = USBIP_VHCI, ud_status = VDEV_ST_NULL, tcp_socket = None, tcp_rx = None,
                  tcp_tx = None, ud_event = 0, ud_eh = None, ud_filters = [],
                  vd_udev = None, vd_devid = 0, vd_speed = 0, vd_rhport = 0,
                  vd_priv_tx = [], vd_priv_rx = [], vd_unlink_tx = [], vd_unlink_rx = []\<rparr>
      in case usbip_start_eh k vdev w of (_, vdev', w') \<Rightarrow> (vdev', w'))"

text \<open>The loop of \<open>vhci_start\<close> over the ports.\<close>

primrec init_ports :: "'w kapi \<Rightarrow> nat \<Rightarrow> 'w \<Rightarrow> vhci_device list \<times> 'w" where
  "init_ports k 0 w = ([], w)"
| "init_ports k (Suc n) w =
     (case init_ports k n w of (ds, w1) \<Rightarrow>
        (case vhci_device_init k w1 of (d, w2) \<Rightarrow> (ds @ [d\<lparr>vd_rhport := of_nat n\<rparr>], w2)))"

definition vhci_start :: "'w kapi \<Rightarrow> 'w hapi \<Rightarrow> vhci_hcd \<Rightarrow> 'w \<Rightarrow> s32 \<times> vhci_hcd \<times> 'w" where
  "vhci_start k hk c w =
     (case init_ports k VHCI_NPORTS w of (ds, w1) \<Rightarrow>
        (case sysfs_create_group hk w1 of (err, w2) \<Rightarrow>
           (err, c\<lparr>vdevs := ds, vh_seqnum := 0, vh_issued := 0\<rparr>, w2)))"

text \<open>\<open>current\<close> is the thread that runs the code.\<close>

primrec stop_ports :: "'w kapi \<Rightarrow> thread \<Rightarrow> vhci_device list \<Rightarrow> 'w \<Rightarrow> vhci_device list \<times> 'w" where
  "stop_ports k current [] w = ([], w)"
| "stop_ports k current (d # ds) w =
     (let d1 = usbip_event_add VDEV_EVENT_REMOVED d; w1 = usbip_stop_eh k current d1 w in
      case stop_ports k current ds w1 of (ds', w2) \<Rightarrow> (d1 # ds', w2))"

definition vhci_stop :: "'w kapi \<Rightarrow> 'w hapi \<Rightarrow> thread \<Rightarrow> vhci_hcd \<Rightarrow> 'w \<Rightarrow> vhci_hcd \<times> 'w" where
  "vhci_stop k hk current c w =
     (case stop_ports k current (vdevs c) (sysfs_remove_group hk w) of (ds, w1) \<Rightarrow> (c\<lparr>vdevs := ds\<rparr>, w1))"

end
