(* ===== verification/VhciNet.thy ===== *)
theory VhciNet
  imports VhciUrb
begin

text \<open>
  The two threads of a connected port: \<^verbatim>\<open>vhci_rx.c\<close> receives results and gives urbs back,
  \<^verbatim>\<open>vhci_tx.c\<close> sends submit and unlink requests. A request moves from \<open>priv_tx\<close> to \<open>priv_rx\<close> when it
  is sent and leaves \<open>priv_rx\<close> when its result arrives.
\<close>

section \<open>Receiving\<close>

definition vhci_recv_ret_submit ::
  "endian \<Rightarrow> 'w kapi \<Rightarrow> 'w hapi \<Rightarrow> usbip_header \<Rightarrow> vhci_device \<Rightarrow> vhci_hcd \<Rightarrow> 'w \<Rightarrow>
   vhci_device \<times> vhci_hcd \<times> 'w" where
  "vhci_recv_ret_submit h k hk pdu vdev c w =
     (case pickup_urb_and_free_priv vdev (seqnum (base pdu)) c of
        (None, d1, c1) \<Rightarrow> (usbip_event_add VDEV_EVENT_ERROR_TCP d1, c1, w)
      | (Some a, d1, c1) \<Rightarrow>
     (case vh_urbs c1 a of
        None \<Rightarrow> (d1, vhci_fault c1, w)
      | Some ub \<Rightarrow>
     (let u1 = snd (usbip_pack_pdu h pdu (hu_urb ub) USBIP_RET_SUBMIT False);
          store = (\<lambda>u. put_hurb a (ub\<lparr>hu_urb := u\<rparr>) c1)
      in case usbip_recv_xbuff k d1 u1 w of (r2, d2, u2, w2) \<Rightarrow>
         if r2 < 0 then (d2, store u2, w2)
         else
     (case usbip_recv_iso h k d2 u2 w2 of (r3, d3, u3, w3) \<Rightarrow>
         if r3 < 0 then (d3, store u3, w3)
         else
           (case unlink_and_giveback hk a (store (usbip_pad_iso u3)) w3 of (c4, w4) \<Rightarrow> (d3, c4, w4))))))"

definition dequeue_pending_unlink :: "vhci_device \<Rightarrow> usbip_header \<Rightarrow> vhci_unlink option \<times> vhci_device" where
  "dequeue_pending_unlink vdev pdu =
     (case unlink_first (\<lambda>ul. vu_seqnum ul = ucast (seqnum (base pdu))) (vd_unlink_rx vdev) of
        (None, _) \<Rightarrow> (None, vdev)
      | (Some ul, rest) \<Rightarrow> (Some ul, vdev\<lparr>vd_unlink_rx := rest\<rparr>))"

definition vhci_recv_ret_unlink ::
  "endian \<Rightarrow> 'w hapi \<Rightarrow> usbip_header \<Rightarrow> vhci_device \<Rightarrow> vhci_hcd \<Rightarrow> 'w \<Rightarrow> vhci_device \<times> vhci_hcd \<times> 'w" where
  "vhci_recv_ret_unlink h hk pdu vdev c w =
     (case dequeue_pending_unlink vdev pdu of
        (None, d1) \<Rightarrow> (d1, c, w)
      | (Some ul, d1) \<Rightarrow>
     (case pickup_urb_and_free_priv d1 (ucast (vu_unlink_seqnum ul)) c of
        (None, d2, c2) \<Rightarrow> (d2, c2, w)
      | (Some a, d2, c2) \<Rightarrow>
          (case unlink_and_giveback hk a (set_urb_status a (ru_status (get_ret_unlink h pdu)) c2) w of
             (c3, w3) \<Rightarrow> (d2, c3, w3))))"

text \<open>The name says \<open>priv_tx\<close>; the list the code tests is \<open>priv_rx\<close>.\<close>

definition vhci_priv_tx_empty :: "vhci_device \<Rightarrow> bool" where
  "vhci_priv_tx_empty vdev \<longleftrightarrow> vd_priv_rx vdev = []"

definition vhci_rx_pdu ::
  "endian \<Rightarrow> 'w kapi \<Rightarrow> 'w hapi \<Rightarrow> vhci_device \<Rightarrow> vhci_hcd \<Rightarrow> 'w \<Rightarrow> vhci_device \<times> vhci_hcd \<times> 'w" where
  "vhci_rx_pdu h k hk vdev c w =
     (case usbip_recv k (tcp_socket vdev) True (int sizeof_header) w of (ret, d, w1) \<Rightarrow>
        if ret < 0 then
          (if ret = - sint EAGAIN \<and> vhci_priv_tx_empty vdev then (vdev, c, w1)
           else (usbip_event_add VDEV_EVENT_ERROR_TCP vdev, c, w1))
        else if ret = 0 then (usbip_event_add VDEV_EVENT_DOWN vdev, c, w1)
        else if ret \<noteq> int sizeof_header then (usbip_event_add VDEV_EVENT_ERROR_TCP vdev, c, w1)
        else
          (let pdu = usbip_header_correct_endian h
                       (ld_header h (overwrite 0 d (replicate sizeof_header 0))) False
           in if command (base pdu) = USBIP_RET_SUBMIT then vhci_recv_ret_submit h k hk pdu vdev c w1
              else if command (base pdu) = USBIP_RET_UNLINK then vhci_recv_ret_unlink h hk pdu vdev c w1
              else (usbip_event_add VDEV_EVENT_ERROR_TCP vdev, c, w1)))"

text \<open>The receiving thread, asked to stop after at most \<open>n\<close> packets.\<close>

fun vhci_rx_loop ::
  "endian \<Rightarrow> 'w kapi \<Rightarrow> 'w hapi \<Rightarrow> nat \<Rightarrow> vhci_device \<Rightarrow> vhci_hcd \<Rightarrow> 'w \<Rightarrow> vhci_device \<times> vhci_hcd \<times> 'w" where
  "vhci_rx_loop h k hk 0 vdev c w = (vdev, c, w)"
| "vhci_rx_loop h k hk (Suc n) vdev c w =
     (if usbip_event_happened vdev then (vdev, c, w)
      else (case vhci_rx_pdu h k hk vdev c w of (d1, c1, w1) \<Rightarrow> vhci_rx_loop h k hk n d1 c1 w1))"

section \<open>Sending submit requests\<close>

definition setup_cmd_submit_pdu :: "endian \<Rightarrow> usbip_header \<Rightarrow> vhci_priv \<Rightarrow> u32 \<Rightarrow> urb \<Rightarrow> usbip_header" where
  "setup_cmd_submit_pdu h pdup p dev u =
     (let pdu1 = pdup\<lparr>base := \<lparr>command = USBIP_CMD_SUBMIT, seqnum = ucast (vp_seqnum p), devid = dev,
             direction = (if usb_pipein (u_pipe u) then USBIP_DIR_IN else USBIP_DIR_OUT),
             ep = usb_pipeendpoint (u_pipe u)\<rparr>\<rparr>;
          pdu2 = fst (usbip_pack_pdu h pdu1 u USBIP_CMD_SUBMIT True)
      in case setup_packet u of
           None \<Rightarrow> pdu2
         | Some sp \<Rightarrow> put_cmd_submit h ((get_cmd_submit h pdu2)\<lparr>cs_setup := take 8 sp\<rparr>) pdu2)"

definition dequeue_from_priv_tx :: "vhci_device \<Rightarrow> vhci_priv option \<times> vhci_device" where
  "dequeue_from_priv_tx vdev =
     (case vd_priv_tx vdev of
        [] \<Rightarrow> (None, vdev)
      | p # ps \<Rightarrow> (Some p, vdev\<lparr>vd_priv_tx := ps, vd_priv_rx := vd_priv_rx vdev @ [p]\<rparr>))"

text \<open>\<open>priv->vdev->devid\<close>.\<close>

definition priv_devid :: "vhci_device \<Rightarrow> vhci_hcd \<Rightarrow> vhci_priv \<Rightarrow> u32" where
  "priv_devid vdev c p =
     (if vp_vdev p = unat (vd_rhport vdev) then vd_devid vdev else vd_devid (vdevs c ! vp_vdev p))"

definition cmd_submit_data :: "urb \<Rightarrow> byte list" where
  "cmd_submit_data u =
     (if \<not> usb_pipein (u_pipe u) \<and> transfer_buffer_length u > 0
      then buf_read 0 (unat (transfer_buffer_length u)) (transfer_buffer u) else [])"

definition cmd_submit_data_ok :: "urb \<Rightarrow> bool" where
  "cmd_submit_data_ok u \<longleftrightarrow>
     usb_pipein (u_pipe u) \<or> transfer_buffer_length u = 0 \<or>
     buf_ok 0 (unat (transfer_buffer_length u)) (transfer_buffer u)"

text \<open>One round of the sending loop for the request \<open>p\<close>: whether it succeeded and the bytes sent. The
  code reaches the request again through \<open>urb->hcpriv\<close>.\<close>

definition send_one_cmd_submit ::
  "endian \<Rightarrow> 'w kapi \<Rightarrow> vhci_priv \<Rightarrow> vhci_device \<Rightarrow> vhci_hcd \<Rightarrow> 'w \<Rightarrow>
   bool \<times> u64 \<times> vhci_device \<times> vhci_hcd \<times> 'w" where
  "send_one_cmd_submit h k p vdev c w =
     (case vh_urbs c (vp_urb p) of
        None \<Rightarrow> (False, 0, vdev, vhci_fault c, w)
      | Some ub \<Rightarrow>
     if hu_hcpriv ub \<noteq> Some (vp_id p) then (False, 0, vdev, vhci_fault c, w)
     else
     (let u = hu_urb ub;
          hdr = mem_header h (usbip_header_correct_endian h
                  (setup_cmd_submit_pdu h zero_header p (priv_devid vdev c p) u) True);
          data = cmd_submit_data u;
          dlen = (if \<not> usb_pipein (u_pipe u) \<and> transfer_buffer_length u > 0
                  then ucast (transfer_buffer_length u) else 0);
          c1 = (if cmd_submit_data_ok u then c else vhci_fault c)
      in case (if usb_pipetype (u_pipe u) = PIPE_ISOCHRONOUS then usbip_alloc_iso_desc_pdu h k u w
               else (Some [], 0, u, w)) of
           (None, _, _, w1) \<Rightarrow> (False, 0, usbip_event_add SDEV_EVENT_ERROR_MALLOC vdev, c1, w1)
         | (Some isobuf, isolen, u', w1) \<Rightarrow>
     (let c2 = (if u_fault u' \<and> \<not> u_fault u then vhci_fault c1 else c1);
          txsize = of_nat sizeof_header + dlen + isolen
      in case tcp_socket vdev of
           None \<Rightarrow> (False, 0, vdev, vhci_fault c2, w1)
         | Some s \<Rightarrow>
             (case kernel_sendmsg k s (hdr @ data @ isobuf) w1 of (ret, w2) \<Rightarrow>
                if ret \<noteq> uint txsize
                then (False, 0, usbip_event_add VDEV_EVENT_ERROR_TCP vdev, c2, w2)
                else (True, txsize, vdev, c2, w2)))))"

text \<open>Sending changes only the pending events of the port and the error mark of the controller.\<close>

lemma send_one_cmd_frame:
  assumes "send_one_cmd_submit h k p vdev c w = (ok, n, d', c', w')"
  shows "(\<exists>ev. d' = usbip_event_add ev vdev) \<and> c' = c\<lparr>vh_oops := vh_oops c'\<rparr>"
proof -
  have "vdev = usbip_event_add 0 vdev" by (simp add: usbip_event_add_def)
  then show ?thesis
    using assms unfolding send_one_cmd_submit_def Let_def vhci_fault_def
    by (auto split: option.splits prod.splits if_splits intro: exI [of _ 0])
qed

lemma event_add_vdev [simp]:
  "vd_udev (usbip_event_add ev d) = vd_udev d" "vd_devid (usbip_event_add ev d) = vd_devid d"
  "vd_speed (usbip_event_add ev d) = vd_speed d" "vd_rhport (usbip_event_add ev d) = vd_rhport d"
  "vd_priv_tx (usbip_event_add ev d) = vd_priv_tx d" "vd_priv_rx (usbip_event_add ev d) = vd_priv_rx d"
  "vd_unlink_tx (usbip_event_add ev d) = vd_unlink_tx d" "vd_unlink_rx (usbip_event_add ev d) = vd_unlink_rx d"
  by (simp_all add: usbip_event_add_def)

function send_cmd_submit_loop ::
  "endian \<Rightarrow> 'w kapi \<Rightarrow> u64 \<Rightarrow> vhci_device \<Rightarrow> vhci_hcd \<Rightarrow> 'w \<Rightarrow> u64 option \<times> vhci_device \<times> vhci_hcd \<times> 'w" where
  "send_cmd_submit_loop h k tot vdev c w =
     (case dequeue_from_priv_tx vdev of
        (None, _) \<Rightarrow> (Some tot, vdev, c, w)
      | (Some p, d1) \<Rightarrow>
          (case send_one_cmd_submit h k p d1 c w of (ok, n, d2, c2, w2) \<Rightarrow>
             if \<not> ok then (None, d2, c2, w2) else send_cmd_submit_loop h k (tot + n) d2 c2 w2))"
  by pat_completeness auto

termination
  by (relation "measure (\<lambda>(h, k, tot, vdev, c, w). length (vd_priv_tx vdev))")
    (auto simp: dequeue_from_priv_tx_def split: list.splits dest!: send_one_cmd_frame [OF sym])

declare send_cmd_submit_loop.simps [simp del]

definition vhci_send_cmd_submit ::
  "endian \<Rightarrow> 'w kapi \<Rightarrow> vhci_device \<Rightarrow> vhci_hcd \<Rightarrow> 'w \<Rightarrow> s32 \<times> vhci_device \<times> vhci_hcd \<times> 'w" where
  "vhci_send_cmd_submit h k vdev c w =
     (case send_cmd_submit_loop h k 0 vdev c w of
        (None, d1, c1, w1) \<Rightarrow> (- 1, d1, c1, w1)
      | (Some tot, d1, c1, w1) \<Rightarrow> (ucast tot, d1, c1, w1))"

section \<open>Sending unlink requests\<close>

definition dequeue_from_unlink_tx :: "vhci_device \<Rightarrow> vhci_unlink option \<times> vhci_device" where
  "dequeue_from_unlink_tx vdev =
     (case vd_unlink_tx vdev of
        [] \<Rightarrow> (None, vdev)
      | x # xs \<Rightarrow> (Some x, vdev\<lparr>vd_unlink_tx := xs, vd_unlink_rx := vd_unlink_rx vdev @ [x]\<rparr>))"

definition setup_cmd_unlink_pdu :: "endian \<Rightarrow> vhci_unlink \<Rightarrow> u32 \<Rightarrow> usbip_header" where
  "setup_cmd_unlink_pdu h ul dev =
     put_cmd_unlink h \<lparr>cu_seqnum = ucast (vu_unlink_seqnum ul)\<rparr>
       (zero_header\<lparr>base := zero_basic\<lparr>command := USBIP_CMD_UNLINK, seqnum := ucast (vu_seqnum ul), devid := dev,
          ep := 0\<rparr>\<rparr>)"

definition send_one_cmd_unlink ::
  "endian \<Rightarrow> 'w kapi \<Rightarrow> vhci_unlink \<Rightarrow> vhci_device \<Rightarrow> vhci_hcd \<Rightarrow> 'w \<Rightarrow>
   bool \<times> u64 \<times> vhci_device \<times> vhci_hcd \<times> 'w" where
  "send_one_cmd_unlink h k ul vdev c w =
     (let hdr = mem_header h (usbip_header_correct_endian h (setup_cmd_unlink_pdu h ul (vd_devid vdev)) True)
      in case tcp_socket vdev of
           None \<Rightarrow> (False, 0, vdev, vhci_fault c, w)
         | Some s \<Rightarrow>
             (case kernel_sendmsg k s hdr w of (ret, w1) \<Rightarrow>
                if ret \<noteq> int sizeof_header
                then (False, 0, usbip_event_add VDEV_EVENT_ERROR_TCP vdev, c, w1)
                else (True, of_nat sizeof_header, vdev, c, w1)))"

lemma send_one_cmd_unlink_frame:
  assumes "send_one_cmd_unlink h k ul vdev c w = (ok, n, d', c', w')"
  shows "(\<exists>ev. d' = usbip_event_add ev vdev) \<and> c' = c\<lparr>vh_oops := vh_oops c'\<rparr>"
proof -
  have "vdev = usbip_event_add 0 vdev" by (simp add: usbip_event_add_def)
  then show ?thesis
    using assms unfolding send_one_cmd_unlink_def Let_def vhci_fault_def
    by (auto split: option.splits prod.splits if_splits intro: exI [of _ 0])
qed

function send_cmd_unlink_loop ::
  "endian \<Rightarrow> 'w kapi \<Rightarrow> u64 \<Rightarrow> vhci_device \<Rightarrow> vhci_hcd \<Rightarrow> 'w \<Rightarrow> u64 option \<times> vhci_device \<times> vhci_hcd \<times> 'w" where
  "send_cmd_unlink_loop h k tot vdev c w =
     (case dequeue_from_unlink_tx vdev of
        (None, _) \<Rightarrow> (Some tot, vdev, c, w)
      | (Some ul, d1) \<Rightarrow>
          (case send_one_cmd_unlink h k ul d1 c w of (ok, n, d2, c2, w2) \<Rightarrow>
             if \<not> ok then (None, d2, c2, w2) else send_cmd_unlink_loop h k (tot + n) d2 c2 w2))"
  by pat_completeness auto

termination
  by (relation "measure (\<lambda>(h, k, tot, vdev, c, w). length (vd_unlink_tx vdev))")
    (auto simp: dequeue_from_unlink_tx_def split: list.splits dest!: send_one_cmd_unlink_frame [OF sym])

declare send_cmd_unlink_loop.simps [simp del]

definition vhci_send_cmd_unlink ::
  "endian \<Rightarrow> 'w kapi \<Rightarrow> vhci_device \<Rightarrow> vhci_hcd \<Rightarrow> 'w \<Rightarrow> s32 \<times> vhci_device \<times> vhci_hcd \<times> 'w" where
  "vhci_send_cmd_unlink h k vdev c w =
     (case send_cmd_unlink_loop h k 0 vdev c w of
        (None, d1, c1, w1) \<Rightarrow> (- 1, d1, c1, w1)
      | (Some tot, d1, c1, w1) \<Rightarrow> (ucast tot, d1, c1, w1))"

text \<open>The sending thread, asked to stop after at most \<open>n\<close> rounds.\<close>

fun vhci_tx_loop ::
  "endian \<Rightarrow> 'w kapi \<Rightarrow> nat \<Rightarrow> vhci_device \<Rightarrow> vhci_hcd \<Rightarrow> 'w \<Rightarrow> vhci_device \<times> vhci_hcd \<times> 'w" where
  "vhci_tx_loop h k 0 vdev c w = (vdev, c, w)"
| "vhci_tx_loop h k (Suc n) vdev c w =
     (case vhci_send_cmd_submit h k vdev c w of (r1, d1, c1, w1) \<Rightarrow>
        if s32_neg r1 then (d1, c1, w1)
        else
          (case vhci_send_cmd_unlink h k d1 c1 w1 of (r2, d2, c2, w2) \<Rightarrow>
             if s32_neg r2 then (d2, c2, w2) else vhci_tx_loop h k n d2 c2 w2))"

end
