(* ===== verification/VhciSysfs.thy ===== *)
theory VhciSysfs
  imports VhciUrb Scan
begin

text \<open>
  The attribute files of the virtual host controller (\<^verbatim>\<open>vhci_sysfs.c\<close>): attaching a connected socket
  to a port, detaching it, and the status table.
\<close>

section \<open>Detaching\<close>

definition vhci_port_disconnect :: "nat \<Rightarrow> vhci_hcd \<Rightarrow> s32 \<times> vhci_hcd" where
  "vhci_port_disconnect rhport c =
     (if ud_status (vdevs c ! rhport) = VDEV_ST_NULL then (- EINVAL, c)
      else (0, vhci_event VDEV_EVENT_DOWN rhport c))"

text \<open>\<open>sscanf\<close> with \<open>n\<close> conversions \<open>%u\<close>: the values read, zero where reading stopped.\<close>

fun scan_us :: "nat \<Rightarrow> string \<Rightarrow> u32 list" where
  "scan_us 0 s = []"
| "scan_us (Suc n) s =
     (case scan_u s of
        None \<Rightarrow> replicate (Suc n) 0
      | Some (v, r) \<Rightarrow> word_of_int v # scan_us n r)"

definition store_detach :: "string \<Rightarrow> int \<Rightarrow> vhci_hcd \<Rightarrow> int \<times> vhci_hcd" where
  "store_detach buf cnt c =
     (let rhport = scan_us 1 buf ! 0 in
      if unat rhport \<ge> VHCI_NPORTS then (- sint EINVAL, c)
      else
        (case vhci_port_disconnect (unat rhport) c of (err, c1) \<Rightarrow>
           if s32_neg err then (- sint EINVAL, c1) else (cnt, c1)))"

section \<open>Attaching\<close>

definition valid_args :: "u32 \<Rightarrow> u32 \<Rightarrow> s32" where
  "valid_args rhport speed =
     (if unat rhport \<ge> VHCI_NPORTS then - EINVAL
      else if speed = USB_SPEED_LOW \<or> speed = USB_SPEED_FULL \<or> speed = USB_SPEED_HIGH \<or>
              speed = USB_SPEED_WIRELESS then 0
      else - EINVAL)"

definition store_attach ::
  "'w kapi \<Rightarrow> 'w hapi \<Rightarrow> string \<Rightarrow> int \<Rightarrow> vhci_hcd \<Rightarrow> 'w \<Rightarrow> int \<times> vhci_hcd \<times> 'w" where
  "store_attach k hk buf cnt c w =
     (let vs = scan_us 4 buf; rhport = vs ! 0; sockfd = vs ! 1; devid = vs ! 2; speed = vs ! 3 in
      if s32_neg (valid_args rhport speed) then (- sint EINVAL, c, w)
      else
        (case sockfd_to_socket k sockfd w of
           (None, w1) \<Rightarrow> (- sint EINVAL, c, w1)
         | (Some s, w1) \<Rightarrow>
             (let i = unat rhport; vdev = vdevs c ! i in
              if ud_status vdev \<noteq> VDEV_ST_NULL then (- sint EINVAL, c, fput_socket k s w1)
              else
                (case kthread_run k w1 of (rx, w2) \<Rightarrow>
                 case kthread_run k w2 of (tx, w3) \<Rightarrow>
                   (let c1 = set_vdev i
                          (vdev\<lparr>ud_status := VDEV_ST_NOTASSIGNED, tcp_socket := Some s, tcp_rx := Some rx,
                                tcp_tx := Some tx, vd_devid := devid, vd_speed := speed\<rparr>) c
                    in case rh_port_connect hk i speed c1 w3 of (c2, w4) \<Rightarrow> (cnt, c2, w4))))))"

section \<open>The status table\<close>

text \<open>One line; \<open>ptr\<close> is what \<open>%16p\<close> prints for the socket. \<open>None\<close> is the null pointer followed when
  a port in use has no device.\<close>

definition status_line :: "(sock option \<Rightarrow> string) \<Rightarrow> (addr \<Rightarrow> string) \<Rightarrow> nat \<Rightarrow> vhci_device \<Rightarrow> string option" where
  "status_line ptr name i vdev =
     (let front = fmt_u 3 i @ '' '' @ fmt_u 3 (status_num (ud_status vdev)) @ '' '' in
      if ud_status vdev = VDEV_ST_USED then
        (case vd_udev vdev of
           None \<Rightarrow> None
         | Some u \<Rightarrow>
             Some (front @ fmt_u 3 (unat (vd_speed vdev)) @ '' '' @ fmt_x 8 (unat (vd_devid vdev)) @ '' '' @
                   ptr (tcp_socket vdev) @ '' '' @ name u @ [CHR 0x0A]))
      else Some (front @ ''000 000 000 0000000000000000 0-0'' @ [CHR 0x0A]))"

primrec status_lines ::
  "(sock option \<Rightarrow> string) \<Rightarrow> (addr \<Rightarrow> string) \<Rightarrow> nat \<Rightarrow> vhci_device list \<Rightarrow> string option" where
  "status_lines ptr name i [] = Some []"
| "status_lines ptr name i (d # ds) =
     (case status_line ptr name i d of
        None \<Rightarrow> None
      | Some l \<Rightarrow> map_option (append l) (status_lines ptr name (Suc i) ds))"

definition show_status :: "(sock option \<Rightarrow> string) \<Rightarrow> 'w hapi \<Rightarrow> vhci_hcd \<Rightarrow> string option" where
  "show_status ptr hk c =
     map_option (append (''prt sta spd bus dev socket           local_busid'' @ [CHR 0x0A]))
       (status_lines ptr (dev_name hk) 0 (take VHCI_NPORTS (vdevs c)))"

end
