(* ===== verification/VhciInv.thy ===== *)
theory VhciInv
  imports VhciNet VhciSysfs "HOL-Library.Multiset"
begin

text \<open>
  The invariant of the virtual host controller and its preservation by every operation. A request is
  in one queue of one port, its urb is in the store and points back to it, and every pointer
  \<open>urb->hcpriv\<close> leads to an allocated request; sequence numbers are those the counter produced. The
  relation \<open>vhci_reach\<close> collects the states that any interleaving of operations can reach, with the
  urbs handed over so far.
\<close>

section \<open>Requests and their urbs\<close>

definition seq_of :: "nat \<Rightarrow> u64" where
  "seq_of n = scast (of_nat n :: s32)"

definition privs_ok ::
  "vhci_priv list \<Rightarrow> (addr \<Rightarrow> hcd_urb option) \<Rightarrow> addr \<Rightarrow> s32 \<Rightarrow> nat \<Rightarrow> bool" where
  "privs_ok P urbs nxt sq issued \<longleftrightarrow>
     distinct (map vp_id P) \<and> (\<forall>p \<in> set P. vp_id p < nxt) \<and>
     (\<forall>p \<in> set P. \<exists>ub. urbs (vp_urb p) = Some ub \<and> hu_hcpriv ub = Some (vp_id p)) \<and>
     (\<forall>a ub i. urbs a = Some ub \<longrightarrow> hu_hcpriv ub = Some i \<longrightarrow> (\<exists>p \<in> set P. vp_id p = i \<and> vp_urb p = a)) \<and>
     sq = of_nat issued \<and> (\<forall>p \<in> set P. \<exists>n. n \<le> issued \<and> vp_seqnum p = seq_of n) \<and>
     (issued < 2 ^ 32 \<longrightarrow> distinct (map vp_seqnum P))"

lemma privs_okD:
  assumes "privs_ok P urbs nxt sq issued"
  shows "distinct (map vp_id P)" and "p \<in> set P \<Longrightarrow> vp_id p < nxt"
    and "p \<in> set P \<Longrightarrow> \<exists>ub. urbs (vp_urb p) = Some ub \<and> hu_hcpriv ub = Some (vp_id p)"
    and "urbs a = Some ub \<Longrightarrow> hu_hcpriv ub = Some i \<Longrightarrow> \<exists>p \<in> set P. vp_id p = i \<and> vp_urb p = a"
    and "sq = of_nat issued" and "p \<in> set P \<Longrightarrow> \<exists>n. n \<le> issued \<and> vp_seqnum p = seq_of n"
    and "issued < 2 ^ 32 \<Longrightarrow> distinct (map vp_seqnum P)"
  using assms unfolding privs_ok_def by blast+

lemma privs_ok_mset:
  assumes "mset P = mset Q"
  shows "privs_ok P = privs_ok Q"
proof -
  have "set P = set Q" using assms by (metis set_mset_mset)
  moreover have "distinct (map vp_id P) = distinct (map vp_id Q)"
    "distinct (map vp_seqnum P) = distinct (map vp_seqnum Q)"
    using assms by (metis mset_map distinct_count_atmost_1 set_mset_mset)+
  ultimately show ?thesis by (intro ext) (simp add: privs_ok_def)
qed

text \<open>A request leaves its queue and its urb forgets it.\<close>

lemma privs_ok_remove:
  assumes ok: "privs_ok (p # P) urbs nxt sq issued" and ub: "urbs (vp_urb p) = Some ub"
  shows "privs_ok P (urbs(vp_urb p \<mapsto> ub\<lparr>hu_hcpriv := None\<rparr>)) nxt sq issued"
proof -
  note D = privs_okD [OF ok]
  have own: "hu_hcpriv ub = Some (vp_id p)" using D(3) [of p] ub by auto
  have other: "vp_urb q \<noteq> vp_urb p" if "q \<in> set P" for q
    using D(3) [of q] D(1) that ub own by (auto simp: image_iff)
  have rev: "\<exists>q \<in> set P. vp_id q = i \<and> vp_urb q = a"
    if "urbs a = Some ub'" "hu_hcpriv ub' = Some i" "a \<noteq> vp_urb p" for a ub' i
    using D(4) [OF that(1,2)] that(3) by auto
  show ?thesis
    unfolding privs_ok_def
    using D(1,2,3,5,6,7) other rev by (auto split: if_splits)
qed

text \<open>A urb without a request changes or leaves the store.\<close>

lemma privs_ok_detached:
  assumes ok: "privs_ok P urbs nxt sq issued" and a: "\<And>ub. urbs a = Some ub \<Longrightarrow> hu_hcpriv ub = None"
    and x: "\<And>ub. x = Some ub \<Longrightarrow> hu_hcpriv ub = None"
  shows "privs_ok P (urbs(a := x)) nxt sq issued"
proof -
  note D = privs_okD [OF ok]
  have "vp_urb q \<noteq> a" if "q \<in> set P" for q using D(3) [OF that] a by auto
  then show ?thesis
    unfolding privs_ok_def using D x by auto
qed

lemma scast_back: "ucast (scast (x :: s32) :: u64) = x"
  by (rule bit_word_eqI) (auto simp: bit_simps)

lemma seq_of_inj:
  assumes "m < 2 ^ 32" and "n < 2 ^ 32" and "seq_of m = seq_of n"
  shows "m = n"
proof -
  have "(of_nat m :: s32) = of_nat n"
    using arg_cong [where f = ucast, OF assms(3)] scast_back unfolding seq_of_def by metis
  then show ?thesis using assms(1,2) by (simp add: word_of_nat_eq_iff take_bit_nat_eq_self)
qed

text \<open>A request for a urb that has none is queued under the next sequence number.\<close>

lemma privs_ok_add:
  assumes ok: "privs_ok P urbs nxt sq issued" and a: "urbs a = Some ub" "hu_hcpriv ub = None"
    and s: "s = seq_of (Suc issued)" "sq' = of_nat (Suc issued)"
  shows "privs_ok (\<lparr>vp_id = nxt, vp_seqnum = s, vp_vdev = i, vp_urb = a\<rparr> # P)
      (urbs(a \<mapsto> ub\<lparr>hu_hcpriv := Some nxt\<rparr>)) (Suc nxt) sq' (Suc issued)"
proof -
  note D = privs_okD [OF ok]
  have na: "vp_urb q \<noteq> a" if "q \<in> set P" for q using D(3) [OF that] a by auto
  have fresh: "vp_id q \<noteq> nxt" "vp_id q < Suc nxt" if "q \<in> set P" for q using D(2) [OF that] by simp_all
  have old: "\<exists>n. n \<le> Suc issued \<and> vp_seqnum q = seq_of n" if "q \<in> set P" for q
    using D(6) [OF that] le_SucI by blast
  have new: "vp_seqnum q \<noteq> s" if "q \<in> set P" "Suc issued < 2 ^ 32" for q
  proof -
    note q = that
    obtain n where "n \<le> issued" "vp_seqnum q = seq_of n" using D(6) [OF q(1)] by blast
    with q(2) s(1) seq_of_inj [of n "Suc issued"] show ?thesis by auto
  qed
  have "issued < 2 ^ 32" if "Suc issued < 2 ^ 32" using that by simp
  then have dis: "distinct (map vp_seqnum P)" if "Suc issued < 2 ^ 32" using D(7) that by blast
  have ids: "nxt \<notin> vp_id ` set P" "Suc issued < 2 ^ 32 \<Longrightarrow> s \<notin> vp_seqnum ` set P"
    using fresh(1) new by blast+
  show ?thesis
    unfolding privs_ok_def s(2)
    using D(1,3,4) na fresh(2) old ids dis s(1) by (auto simp del: of_nat_Suc)
qed

lemma privs_ok_seq:
  assumes ok: "privs_ok P urbs nxt sq issued" and "sq' = of_nat (Suc issued)"
  shows "privs_ok P urbs nxt sq' (Suc issued)"
proof -
  note D = privs_okD [OF ok]
  have "\<exists>n. n \<le> Suc issued \<and> vp_seqnum q = seq_of n" if "q \<in> set P" for q
    using D(6) [OF that] le_SucI by blast
  moreover have "distinct (map vp_seqnum P)" if "Suc issued < 2 ^ 32" using D(7) that by simp
  ultimately show ?thesis using D(1-4) assms(2) unfolding privs_ok_def by simp
qed

section \<open>The invariant\<close>

definition vdev_ok :: "nat \<Rightarrow> vhci_device \<Rightarrow> bool" where
  "vdev_ok i d \<longleftrightarrow> vd_rhport d = of_nat i \<and> ud_side d = USBIP_VHCI \<and>
     (\<forall>p \<in> set (vdev_privs d). vp_vdev p = i) \<and> (ud_status d = VDEV_ST_USED \<longrightarrow> vd_udev d \<noteq> None)"

definition others :: "nat \<Rightarrow> vhci_device list \<Rightarrow> vhci_priv list" where
  "others i ds = concat (map vdev_privs (take i ds @ drop (Suc i) ds))"

definition vhci_inv :: "vhci_hcd \<Rightarrow> bool" where
  "vhci_inv c \<longleftrightarrow>
     length (vdevs c) = VHCI_NPORTS \<and> length (port_status c) = VHCI_NPORTS \<and>
     (\<forall>j < VHCI_NPORTS. vdev_ok j (vdevs c ! j)) \<and>
     privs_ok (all_vprivs c) (vh_urbs c) (vh_next c) (vh_seqnum c) (vh_issued c)"

text \<open>The same with the device of port \<open>i\<close> held by a running function.\<close>

definition port_inv :: "nat \<Rightarrow> vhci_device \<Rightarrow> vhci_hcd \<Rightarrow> bool" where
  "port_inv i d c \<longleftrightarrow>
     i < VHCI_NPORTS \<and> length (vdevs c) = VHCI_NPORTS \<and> length (port_status c) = VHCI_NPORTS \<and>
     vdev_ok i d \<and> (\<forall>j < VHCI_NPORTS. j \<noteq> i \<longrightarrow> vdev_ok j (vdevs c ! j)) \<and>
     privs_ok (vdev_privs d @ others i (vdevs c)) (vh_urbs c) (vh_next c) (vh_seqnum c) (vh_issued c)"

lemma mset_others:
  assumes "i < length ds"
  shows "mset (concat (map vdev_privs (ds[i := d]))) = mset (vdev_privs d @ others i ds)"
  using assms by (simp add: upd_conv_take_nth_drop others_def)

lemma port_inv_here:
  assumes "vhci_inv c" and "i < VHCI_NPORTS"
  shows "port_inv i (vdevs c ! i) c"
proof -
  have "mset (all_vprivs c) = mset (vdev_privs (vdevs c ! i) @ others i (vdevs c))"
    using mset_others [of i "vdevs c" "vdevs c ! i"] assms by (simp add: all_vprivs_def vhci_inv_def)
  from privs_ok_mset [OF this] assms show ?thesis by (simp add: vhci_inv_def port_inv_def)
qed

lemma port_inv_put:
  assumes "port_inv i d c"
  shows "vhci_inv (set_vdev i d c)"
proof -
  have i: "i < length (vdevs c)" using assms by (simp add: port_inv_def)
  have "mset (all_vprivs (set_vdev i d c)) = mset (vdev_privs d @ others i (vdevs c))"
    using mset_others [OF i, of d] by (simp add: all_vprivs_def set_vdev_def)
  from privs_ok_mset [OF this] assms show ?thesis
    by (auto simp: vhci_inv_def port_inv_def set_vdev_def nth_list_update)
qed

lemma port_inv_vdev:
  assumes "port_inv i d c" and "vdev_ok i d'" and "mset (vdev_privs d') = mset (vdev_privs d)"
  shows "port_inv i d' c"
proof -
  have "mset (vdev_privs d' @ others i (vdevs c)) = mset (vdev_privs d @ others i (vdevs c))"
    using assms(3) by simp
  from privs_ok_mset [OF this] assms show ?thesis unfolding port_inv_def by simp
qed

lemma vdev_privs_event [simp]: "vdev_privs (usbip_event_add ev d) = vdev_privs d"
  by (simp add: vdev_privs_def)

lemma vdev_ok_event [simp]: "vdev_ok i (usbip_event_add ev d) = vdev_ok i d"
  by (simp add: vdev_ok_def)

lemma port_inv_event [simp]: "port_inv i (usbip_event_add ev d) c = port_inv i d c"
  by (simp add: port_inv_def)

lemma port_inv_oops [simp]: "port_inv i d (c\<lparr>vh_oops := b\<rparr>) = port_inv i d c"
  "port_inv i d (vhci_fault c) = port_inv i d c"
  by (simp_all add: port_inv_def vhci_fault_def)

lemma port_inv_ok: "port_inv i d c \<Longrightarrow> vdev_ok i d" "port_inv i d c \<Longrightarrow> i < VHCI_NPORTS"
  by (simp_all add: port_inv_def)

section \<open>Handing urbs over and back\<close>

text \<open>How often a urb was given back, plus one while the driver holds it.\<close>

definition balance :: "vhci_hcd \<Rightarrow> addr \<Rightarrow> nat" where
  "balance c a = count_list (map fst (vh_given c)) a + (if vh_urbs c a = None then 0 else 1)"

lemma balance_fault [simp]: "balance (vhci_fault c) = balance c"
  by (simp add: balance_def fun_eq_iff vhci_fault_def)

lemma balance_put_present [simp]:
  "vh_urbs c a = Some ub \<Longrightarrow> balance (put_hurb a ub' c) = balance c"
  by (auto simp: balance_def fun_eq_iff put_hurb_def)

lemma balance_giveback: "giveback_urb hk a c w = (c', w') \<Longrightarrow> balance c' = balance c"
  by (auto simp: giveback_urb_def balance_def fun_eq_iff vhci_fault_def split: option.splits if_splits)

lemma balance_cong:
  "vh_given c' = vh_given c \<Longrightarrow> vh_urbs c' = vh_urbs c \<Longrightarrow> balance c' = balance c"
  by (simp add: balance_def fun_eq_iff)

lemma balance_upd [simp]:
  "balance (c\<lparr>vdevs := ds\<rparr>) = balance c" "balance (set_vdev i d c) = balance c"
  "balance (vhci_event ev i c) = balance c" "balance (upd_port i f c) = balance c"
  "balance (c\<lparr>vh_next := n\<rparr>) = balance c" "balance (c\<lparr>vh_oops := b\<rparr>) = balance c"
  by (simp_all add: balance_def fun_eq_iff set_vdev_def vhci_event_def upd_port_def vhci_fault_def)

lemma balance_next_seqnum: "next_seqnum c = (s, c') \<Longrightarrow> balance c' = balance c"
  by (rule balance_cong) (auto simp: next_seqnum_def Let_def)

text \<open>A urb that has lost its request is the only one given back.\<close>

definition detached :: "addr \<Rightarrow> vhci_hcd \<Rightarrow> bool" where
  "detached a c \<longleftrightarrow> (\<exists>ub. vh_urbs c a = Some ub \<and> hu_hcpriv ub = None)"

lemma port_inv_giveback:
  assumes "port_inv i d c" and "detached a c" and "giveback_urb hk a c w = (c', w')"
  shows "port_inv i d c' \<and> vh_oops c' = vh_oops c \<and> vdevs c' = vdevs c"
proof -
  obtain ub where ub: "vh_urbs c a = Some ub" "hu_hcpriv ub = None" using assms(2) by (auto simp: detached_def)
  have "privs_ok (vdev_privs d @ others i (vdevs c)) ((vh_urbs c)(a := None)) (vh_next c) (vh_seqnum c) (vh_issued c)"
    using assms(1) ub by (intro privs_ok_detached) (auto simp: port_inv_def)
  with assms(1,3) ub show ?thesis by (auto simp: giveback_urb_def port_inv_def)
qed

lemma port_inv_put_detached:
  assumes "port_inv i d c" and "detached a c" and "hu_hcpriv ub = None"
  shows "port_inv i d (put_hurb a ub c) \<and> detached a (put_hurb a ub c)"
proof -
  have "privs_ok (vdev_privs d @ others i (vdevs c)) ((vh_urbs c)(a \<mapsto> ub)) (vh_next c) (vh_seqnum c) (vh_issued c)"
    using assms by (intro privs_ok_detached) (auto simp: port_inv_def detached_def)
  with assms show ?thesis by (auto simp: put_hurb_def port_inv_def detached_def)
qed

lemma put_hurb_fields [simp]:
  "vh_oops (put_hurb a ub c) = vh_oops c" "vdevs (put_hurb a ub c) = vdevs c"
  "port_status (put_hurb a ub c) = port_status c" "vh_given (put_hurb a ub c) = vh_given c"
  "vh_urbs (put_hurb a ub c) = (vh_urbs c)(a \<mapsto> ub)" "vh_next (put_hurb a ub c) = vh_next c"
  "vh_seqnum (put_hurb a ub c) = vh_seqnum c" "vh_issued (put_hurb a ub c) = vh_issued c"
  by (simp_all add: put_hurb_def)

lemma set_urb_status_detached:
  assumes "port_inv i d c" and "detached a c"
  shows "port_inv i d (set_urb_status a st c) \<and> detached a (set_urb_status a st c) \<and>
    vh_oops (set_urb_status a st c) = vh_oops c \<and> vdevs (set_urb_status a st c) = vdevs c"
proof -
  obtain ub where ub: "vh_urbs c a = Some ub" "hu_hcpriv ub = None" using assms(2) by (auto simp: detached_def)
  with port_inv_put_detached [OF assms, of "ub\<lparr>hu_urb := (hu_urb ub)\<lparr>u_status := st\<rparr>\<rparr>"] show ?thesis
    by (simp add: set_urb_status_def)
qed

lemma balance_set_urb_status [simp]: "balance (set_urb_status a st c) = balance c"
  by (simp add: set_urb_status_def split: option.split)

section \<open>Picking up a urb\<close>

lemma pickup_inv:
  assumes "port_inv i d c" and "pickup_urb_and_free_priv d s c = (r, d', c')"
  shows "port_inv i d' c' \<and> vh_oops c' = vh_oops c \<and> vdevs c' = vdevs c \<and> (\<forall>a. r = Some a \<longrightarrow> detached a c')"
proof (cases "unlink_first (\<lambda>p. vp_seqnum p = ucast s) (vd_priv_rx d)")
  case (Pair x rest)
  show ?thesis
  proof (cases x)
    case None
    with Pair assms show ?thesis by (auto simp: pickup_urb_and_free_priv_def)
  next
    case (Some p)
    obtain us vs where l: "vd_priv_rx d = us @ p # vs" "rest = us @ vs"
      using unlink_first_Some [of _ "vd_priv_rx d" p rest] Pair Some by blast
    let ?P = "vdev_privs d @ others i (vdevs c)" and ?Q = "vdev_privs (d\<lparr>vd_priv_rx := rest\<rparr>) @ others i (vdevs c)"
    have m: "mset ?P = mset (p # ?Q)" using l by (simp add: vdev_privs_def)
    have ok: "privs_ok (p # ?Q) (vh_urbs c) (vh_next c) (vh_seqnum c) (vh_issued c)"
      using assms(1) privs_ok_mset [OF m] by (simp add: port_inv_def)
    then obtain ub where ub: "vh_urbs c (vp_urb p) = Some ub" using privs_okD(3) [OF ok, of p] by auto
    have "vdev_ok i (d\<lparr>vd_priv_rx := rest\<rparr>)"
      using port_inv_ok(1) [OF assms(1)] l by (auto simp: vdev_ok_def vdev_privs_def)
    with assms ub Pair Some privs_ok_remove [OF ok ub] show ?thesis
      by (auto simp: pickup_urb_and_free_priv_def port_inv_def detached_def)
  qed
qed

lemma balance_pickup: "pickup_urb_and_free_priv d s c = (r, d', c') \<Longrightarrow> balance c' = balance c"
  by (auto simp: pickup_urb_and_free_priv_def split: prod.splits option.splits)

section \<open>Receiving\<close>

lemma port_inv_ev_only: "ev_only d d' \<Longrightarrow> port_inv i d c \<Longrightarrow> port_inv i d' c"
  by (auto simp: ev_only_def port_inv_def vdev_ok_def vdev_privs_def)

lemma recv_ret_submit_inv:
  assumes "port_inv i d c" and "vhci_recv_ret_submit h k hk pdu d c w = (d', c', w')"
  shows "port_inv i d' c' \<and> vh_oops c' = vh_oops c \<and> vdevs c' = vdevs c"
proof -
  obtain r d1 c1 where pk: "pickup_urb_and_free_priv d (seqnum (base pdu)) c = (r, d1, c1)"
    by (metis prod_cases3)
  note P = pickup_inv [OF assms(1) pk]
  show ?thesis
  proof (cases r)
    case None
    with P pk assms(2) show ?thesis by (auto simp: vhci_recv_ret_submit_def)
  next
    case (Some a)
    with P have da: "detached a c1" by simp
    then obtain ub where ub: "vh_urbs c1 a = Some ub" "hu_hcpriv ub = None" by (auto simp: detached_def)
    have st: "port_inv i e (put_hurb a (ub\<lparr>hu_urb := u\<rparr>) c1)" "detached a (put_hurb a (ub\<lparr>hu_urb := u\<rparr>) c1)"
      if "port_inv i e c1" for e u
      using port_inv_put_detached [OF that da, of "ub\<lparr>hu_urb := u\<rparr>"] ub by simp_all
    obtain r2 d2 u2 w2 where x: "usbip_recv_xbuff k d1 (snd (usbip_pack_pdu h pdu (hu_urb ub) USBIP_RET_SUBMIT False)) w = (r2, d2, u2, w2)"
      by (metis prod_cases4)
    obtain r3 d3 u3 w3 where y: "usbip_recv_iso h k d2 u2 w2 = (r3, d3, u3, w3)" by (metis prod_cases4)
    have I: "port_inv i d2 c1" "port_inv i d3 c1"
      using P port_inv_ev_only [OF recv_xbuff_frame [OF x]] port_inv_ev_only [OF recv_iso_frame [OF y]] by blast+
    obtain c4 w4 where g: "giveback_urb hk a (put_hurb a (ub\<lparr>hu_urb := usbip_pad_iso u3\<rparr>) c1)
        (usb_hcd_unlink_urb_from_ep hk a w3) = (c4, w4)" by fastforce
    note G = port_inv_giveback [OF st [OF I(2)] g]
    show ?thesis
      using assms(2) pk Some ub x y g G st(1) [OF I(1)] st(1) [OF I(2)] P
      by (auto simp: vhci_recv_ret_submit_def Let_def unlink_and_giveback_def split: if_splits)
  qed
qed

lemma balance_recv_ret_submit:
  "vhci_recv_ret_submit h k hk pdu d c w = (d', c', w') \<Longrightarrow> balance c' = balance c"
  by (auto simp: vhci_recv_ret_submit_def Let_def unlink_and_giveback_def split: option.splits prod.splits if_splits
      dest!: balance_pickup balance_giveback)

text \<open>Picking up a urb, setting its status and giving it back, as the answer to an unlink request
  and the clean-up do.\<close>

lemma pickup_giveback_inv:
  assumes "port_inv i d c" and "pickup_urb_and_free_priv d s c = (Some a, d1, c1)"
    and "unlink_and_giveback hk a (set_urb_status a st c1) w = (c2, w2)"
  shows "port_inv i d1 c2 \<and> vh_oops c2 = vh_oops c \<and> vdevs c2 = vdevs c"
proof -
  note P = pickup_inv [OF assms(1,2)]
  then have "port_inv i d1 c1" "detached a c1" by simp_all
  note S = set_urb_status_detached [OF this, of st]
  then have "port_inv i d1 (set_urb_status a st c1)" "detached a (set_urb_status a st c1)" by simp_all
  from port_inv_giveback [OF this assms(3) [unfolded unlink_and_giveback_def]] S P show ?thesis by simp
qed

lemma balance_pickup_giveback:
  "pickup_urb_and_free_priv d s c = (Some a, d1, c1) \<Longrightarrow>
   unlink_and_giveback hk a (set_urb_status a st c1) w = (c2, w2) \<Longrightarrow> balance c2 = balance c"
  by (auto simp: unlink_and_giveback_def dest!: balance_pickup balance_giveback)

lemma port_inv_unlinks:
  "port_inv i d c \<Longrightarrow> port_inv i (d\<lparr>vd_unlink_rx := x\<rparr>) c" "port_inv i d c \<Longrightarrow> port_inv i (d\<lparr>vd_unlink_tx := x\<rparr>) c"
  by (simp_all add: port_inv_def vdev_ok_def vdev_privs_def)

lemma recv_ret_unlink_inv:
  assumes "port_inv i d c" and "vhci_recv_ret_unlink h hk pdu d c w = (d', c', w')"
  shows "port_inv i d' c' \<and> vh_oops c' = vh_oops c \<and> vdevs c' = vdevs c"
proof -
  obtain x d1 where q: "dequeue_pending_unlink d pdu = (x, d1)" by fastforce
  then have d1: "port_inv i d1 c"
    using assms(1) by (auto simp: dequeue_pending_unlink_def port_inv_unlinks split: prod.splits option.splits)
  show ?thesis
    using assms(2) q d1
    by (auto simp: vhci_recv_ret_unlink_def split: option.splits prod.splits
        dest: pickup_inv [OF d1] pickup_giveback_inv [OF d1])
qed

lemma balance_recv_ret_unlink:
  "vhci_recv_ret_unlink h hk pdu d c w = (d', c', w') \<Longrightarrow> balance c' = balance c"
  by (auto simp: vhci_recv_ret_unlink_def split: option.splits prod.splits dest: balance_pickup balance_pickup_giveback)

lemma rx_pdu_inv:
  assumes "port_inv i d c" and "vhci_rx_pdu h k hk d c w = (d', c', w')"
  shows "port_inv i d' c' \<and> vh_oops c' = vh_oops c \<and> vdevs c' = vdevs c"
  using assms(2) assms(1) unfolding vhci_rx_pdu_def Let_def
  by (auto split: prod.splits if_splits
      dest: recv_ret_submit_inv [OF assms(1)] recv_ret_unlink_inv [OF assms(1)])

lemma balance_rx_pdu: "vhci_rx_pdu h k hk d c w = (d', c', w') \<Longrightarrow> balance c' = balance c"
  unfolding vhci_rx_pdu_def Let_def
  by (auto split: prod.splits if_splits dest: balance_recv_ret_submit balance_recv_ret_unlink)

section \<open>Clean-up\<close>

lemma cleanup_one_inv:
  assumes "port_inv i d c" and "cleanup_one hk ul d c w = (d', c', w')"
  shows "port_inv i d' c' \<and> vh_oops c' = vh_oops c \<and> vdevs c' = vdevs c"
  using assms(2) by (auto simp: cleanup_one_def split: option.splits prod.splits
      dest: pickup_inv [OF assms(1)] pickup_giveback_inv [OF assms(1)])

lemma balance_cleanup_one: "cleanup_one hk ul d c w = (d', c', w') \<Longrightarrow> balance c' = balance c"
  by (auto simp: cleanup_one_def split: option.splits prod.splits dest: balance_pickup balance_pickup_giveback)

lemma unlink_cleanup_rx_inv:
  "unlink_cleanup_rx hk d c w = (d', c', w') \<Longrightarrow> port_inv i d c \<Longrightarrow>
   port_inv i d' c' \<and> vh_oops c' = vh_oops c \<and> vdevs c' = vdevs c \<and> balance c' = balance c \<and> vd_unlink_rx d' = []"
proof (induction hk d c w arbitrary: d' c' w' rule: unlink_cleanup_rx.induct)
  case (1 hk d c w)
  show ?case
  proof (cases "vd_unlink_rx d")
    case Nil
    with 1 show ?thesis by (auto simp: unlink_cleanup_rx.simps [of hk d])
  next
    case (Cons ul uls)
    obtain d1 c1 w1 where o: "cleanup_one hk ul d c w = (d1, c1, w1)" by (metis prod_cases3)
    have "unlink_cleanup_rx hk (d1\<lparr>vd_unlink_rx := tl (vd_unlink_rx d1)\<rparr>) c1 w1 = (d', c', w')"
      using "1.prems"(1) Cons o by (simp add: unlink_cleanup_rx.simps [of hk d])
    from "1.IH" [OF Cons o [symmetric] refl this] cleanup_one_inv [OF "1.prems"(2) o] balance_cleanup_one [OF o]
    show ?thesis by (simp add: port_inv_unlinks)
  qed
qed

section \<open>Callbacks and sending\<close>

lemma port_inv_upd_port [simp]:
  "port_inv i d (upd_port j f c) = port_inv i d c"
  by (simp add: upd_port_def port_inv_def vhci_fault_def)

lemma upd_port_fields [simp]:
  "vdevs (upd_port j f c) = vdevs c" "length (port_status (upd_port j f c)) = length (port_status c)"
  by (simp_all add: upd_port_def vhci_fault_def)

lemma stop_thread_cases: "vhci_stop_thread k t c w = (c', w') \<Longrightarrow> c' = c \<or> c' = vhci_fault c"
  by (auto simp: vhci_stop_thread_def split: option.splits sum.splits)

lemma vhci_fault_vdevs [simp]: "vdevs (vhci_fault c) = vdevs c"
  by (simp add: vhci_fault_def)

lemma vhci_shutdown_inv:
  assumes "port_inv i d c" and "vhci_shutdown_connection k hk d c w = (d', c', w')"
  shows "port_inv i d' c' \<and> vdevs c' = vdevs c \<and> balance c' = balance c"
proof -
  obtain c2 w2 where s2: "vhci_stop_thread k (tcp_rx d) c
      (case tcp_socket d of None \<Rightarrow> w | Some s \<Rightarrow> kernel_sock_shutdown k s w) = (c2, w2)" by fastforce
  obtain c3 w3 where s3: "vhci_stop_thread k (tcp_tx d) c2 w2 = (c3, w3)" by fastforce
  let ?d4 = "d\<lparr>tcp_rx := None, tcp_tx := None, tcp_socket := None, vd_unlink_tx := []\<rparr>"
  obtain d5 c5 w5 where u: "unlink_cleanup_rx hk ?d4 c3
      (case tcp_socket d of None \<Rightarrow> w3 | Some s \<Rightarrow> fput_socket k s w3) = (d5, c5, w5)" by (metis prod_cases3)
  have c3: "port_inv i d c3 \<and> vdevs c3 = vdevs c \<and> balance c3 = balance c"
    using assms(1) stop_thread_cases [OF s2] stop_thread_cases [OF s3] by auto
  then have "port_inv i d c3" by simp
  then have "port_inv i ?d4 c3" by (simp add: port_inv_def vdev_ok_def vdev_privs_def)
  from unlink_cleanup_rx_inv [OF u this] c3 assms(2) s2 s3 u show ?thesis
    by (auto simp: vhci_shutdown_connection_def vhci_device_unlink_cleanup_def rh_port_disconnect_def Let_def)
qed

lemma reset_inv:
  "port_inv i d c \<Longrightarrow> vhci_device_reset k hk d w = (d', w') \<Longrightarrow> port_inv i d' c"
  by (auto simp: vhci_device_reset_def Let_def port_inv_def vdev_ok_def vdev_privs_def)

lemma unusable_inv: "port_inv i d c \<Longrightarrow> port_inv i (vhci_device_unusable d) c"
  by (simp add: vhci_device_unusable_def port_inv_def vdev_ok_def vdev_privs_def)

lemma dequeue_priv_inv:
  assumes "port_inv i d c" and "VhciNet.dequeue_from_priv_tx d = (x, d1)"
  shows "port_inv i d1 c"
proof (cases "vd_priv_tx d")
  case Nil
  with assms show ?thesis by (simp add: dequeue_from_priv_tx_def)
next
  case (Cons p ps)
  let ?d = "d\<lparr>vd_priv_tx := ps, vd_priv_rx := vd_priv_rx d @ [p]\<rparr>"
  have "vdev_ok i ?d" "mset (vdev_privs ?d) = mset (vdev_privs d)"
    using port_inv_ok(1) [OF assms(1)] Cons by (auto simp: vdev_ok_def vdev_privs_def)
  from port_inv_vdev [OF assms(1) this] assms(2) Cons show ?thesis by (simp add: dequeue_from_priv_tx_def)
qed

lemma balance_oops_only: "c' = c\<lparr>vh_oops := b\<rparr> \<Longrightarrow> balance c' = balance c \<and> vdevs c' = vdevs c \<and> port_inv i d c' = port_inv i d c"
  by simp

lemma send_cmd_submit_loop_inv:
  "send_cmd_submit_loop h k tot d c w = (r, d', c', w') \<Longrightarrow> port_inv i d c \<Longrightarrow>
   port_inv i d' c' \<and> vdevs c' = vdevs c \<and> balance c' = balance c"
proof (induction h k tot d c w arbitrary: r d' c' w' rule: send_cmd_submit_loop.induct)
  case (1 h k tot d c w)
  obtain x d1 where q: "VhciNet.dequeue_from_priv_tx d = (x, d1)" by fastforce
  show ?case
  proof (cases x)
    case None
    with 1 q show ?thesis by (auto simp: send_cmd_submit_loop.simps [of h k tot d])
  next
    case (Some p)
    obtain ok n d2 c2 w2 where o: "send_one_cmd_submit h k p d1 c w = (ok, n, d2, c2, w2)" by (metis prod_cases5)
    obtain ev where f: "d2 = usbip_event_add ev d1" "c2 = c\<lparr>vh_oops := vh_oops c2\<rparr>"
      using send_one_cmd_frame [OF o] by blast
    have I: "port_inv i d2 c2 \<and> vdevs c2 = vdevs c \<and> balance c2 = balance c"
      using dequeue_priv_inv [OF "1.prems"(2) q] f(1) balance_oops_only [OF f(2)] by simp
    show ?thesis
    proof (cases ok)
      case True
      have "send_cmd_submit_loop h k (tot + n) d2 c2 w2 = (r, d', c', w')"
        using "1.prems"(1) q Some o True by (simp add: send_cmd_submit_loop.simps [of h k tot d])
      from "1.IH" [OF q [symmetric] Some o [symmetric] refl refl refl _ this] True I show ?thesis by simp
    next
      case False
      with "1.prems"(1) q Some o I show ?thesis by (auto simp: send_cmd_submit_loop.simps [of h k tot d])
    qed
  qed
qed

lemma send_cmd_unlink_loop_inv:
  "send_cmd_unlink_loop h k tot d c w = (r, d', c', w') \<Longrightarrow> port_inv i d c \<Longrightarrow>
   port_inv i d' c' \<and> vdevs c' = vdevs c \<and> balance c' = balance c"
proof (induction h k tot d c w arbitrary: r d' c' w' rule: send_cmd_unlink_loop.induct)
  case (1 h k tot d c w)
  obtain x d1 where q: "VhciNet.dequeue_from_unlink_tx d = (x, d1)" by fastforce
  then have I1: "port_inv i d1 c"
    using "1.prems"(2) by (auto simp: dequeue_from_unlink_tx_def port_inv_def vdev_ok_def vdev_privs_def split: list.splits)
  show ?case
  proof (cases x)
    case None
    with 1 q show ?thesis by (auto simp: send_cmd_unlink_loop.simps [of h k tot d])
  next
    case (Some ul)
    obtain ok n d2 c2 w2 where o: "send_one_cmd_unlink h k ul d1 c w = (ok, n, d2, c2, w2)" by (metis prod_cases5)
    obtain ev where f: "d2 = usbip_event_add ev d1" "c2 = c\<lparr>vh_oops := vh_oops c2\<rparr>"
      using send_one_cmd_unlink_frame [OF o] by blast
    have I: "port_inv i d2 c2 \<and> vdevs c2 = vdevs c \<and> balance c2 = balance c"
      using I1 f(1) balance_oops_only [OF f(2)] by simp
    show ?thesis
    proof (cases ok)
      case True
      have "send_cmd_unlink_loop h k (tot + n) d2 c2 w2 = (r, d', c', w')"
        using "1.prems"(1) q Some o True by (simp add: send_cmd_unlink_loop.simps [of h k tot d])
      from "1.IH" [OF q [symmetric] Some o [symmetric] refl refl refl _ this] True I show ?thesis by simp
    next
      case False
      with "1.prems"(1) q Some o I show ?thesis by (auto simp: send_cmd_unlink_loop.simps [of h k tot d])
    qed
  qed
qed

lemma send_inv:
  assumes "port_inv i d c"
  shows "vhci_send_cmd_submit h k d c w = (r, d', c', w') \<Longrightarrow>
      port_inv i d' c' \<and> vdevs c' = vdevs c \<and> balance c' = balance c"
    and "vhci_send_cmd_unlink h k d c w = (r, d', c', w') \<Longrightarrow>
      port_inv i d' c' \<and> vdevs c' = vdevs c \<and> balance c' = balance c"
  by (auto simp: vhci_send_cmd_submit_def vhci_send_cmd_unlink_def split: prod.splits option.splits
      dest: send_cmd_submit_loop_inv [OF _ assms] send_cmd_unlink_loop_inv [OF _ assms])

end
