(* ===== verification/VhciReach.thy ===== *)
theory VhciReach
  imports VhciInv
begin

text \<open>
  Preservation of the controller's invariant by the operations of the USB core and of the attribute
  files, and the states reachable by any interleaving of operations.
\<close>

section \<open>The invariant of the whole controller\<close>

lemma set_vdev_same: "set_vdev i (vdevs c ! i) c = c"
  by (simp add: set_vdev_def)

lemma vhci_inv_port: "i < VHCI_NPORTS \<Longrightarrow> vhci_inv c = port_inv i (vdevs c ! i) c"
  using port_inv_here [of c i] port_inv_put [of i "vdevs c ! i" c] by (auto simp: set_vdev_same)

lemma zero_port [simp]: "0 < VHCI_NPORTS"
  by (simp add: VHCI_NPORTS_def)

lemma inv_giveback:
  assumes "vhci_inv c" and "detached a c" and "giveback_urb hk a c w = (c', w')"
  shows "vhci_inv c' \<and> vh_oops c' = vh_oops c \<and> vh_urbs c' a = None"
proof -
  have "vh_urbs c' a = None" using assms(2,3) by (auto simp: giveback_urb_def detached_def)
  with port_inv_giveback [of 0 "vdevs c ! 0" c a hk w c' w'] assms vhci_inv_port [of 0] show ?thesis by simp
qed

lemma inv_put_detached:
  "vhci_inv c \<Longrightarrow> detached a c \<Longrightarrow> hu_hcpriv ub = None \<Longrightarrow>
   vhci_inv (put_hurb a ub c) \<and> detached a (put_hurb a ub c)"
  using port_inv_put_detached [of 0 "vdevs c ! 0" c a ub] vhci_inv_port [of 0] by simp

lemma inv_vdev:
  assumes "vhci_inv c" and "i < VHCI_NPORTS" and "vdev_ok i d" and "mset (vdev_privs d) = mset (vdev_privs (vdevs c ! i))"
  shows "vhci_inv (set_vdev i d c)"
  using port_inv_put [OF port_inv_vdev [OF port_inv_here [OF assms(1,2)] assms(3,4)]] .

lemma inv_vdev_ok: "vhci_inv c \<Longrightarrow> i < VHCI_NPORTS \<Longrightarrow> vdev_ok i (vdevs c ! i)"
  by (simp add: vhci_inv_def)

lemma inv_event: "vhci_inv c \<Longrightarrow> i < VHCI_NPORTS \<Longrightarrow> vhci_inv (vhci_event ev i c)"
  unfolding vhci_event_def by (rule inv_vdev) (simp_all add: inv_vdev_ok)

lemma inv_fault [simp]: "vhci_inv (vhci_fault c) = vhci_inv c"
  by (simp add: vhci_inv_def vhci_fault_def all_vprivs_def)

lemma inv_upd_port [simp]: "vhci_inv (upd_port i f c) = vhci_inv c"
  by (simp add: vhci_inv_port [of 0])

lemma set_vdev_fields [simp]:
  "vh_urbs (set_vdev i d c) = vh_urbs c" "vh_next (set_vdev i d c) = vh_next c"
  "vh_seqnum (set_vdev i d c) = vh_seqnum c" "vh_issued (set_vdev i d c) = vh_issued c"
  "vh_oops (set_vdev i d c) = vh_oops c" "port_status (set_vdev i d c) = port_status c"
  "vdevs (set_vdev i d c) = (vdevs c)[i := d]" "vh_given (set_vdev i d c) = vh_given c"
  by (simp_all add: set_vdev_def)

lemma detached_set_vdev [simp]: "detached a (set_vdev i d c) = detached a c"
  by (simp add: detached_def)

section \<open>Enqueueing\<close>

lemma get_vdev_bound: "get_vdev c u = Some i \<Longrightarrow> i < VHCI_NPORTS"
  by (auto simp: get_vdev_def find_Some_iff)

lemma tx_urb_inv:
  assumes "vhci_inv c" and ub: "vh_urbs c a = Some ub" "hu_hcpriv ub = None"
    and "vhci_tx_urb k a ub c w = (c', w')"
  shows "vhci_inv c' \<and> balance c' = balance c"
proof (cases "get_vdev c (hu_dev ub)")
  case None
  with assms show ?thesis by (simp add: vhci_tx_urb_def)
next
  case (Some i)
  note i = get_vdev_bound [OF Some]
  obtain ok w1 where al: "kzalloc k 40 w = (ok, w1)" by fastforce
  show ?thesis
  proof (cases ok)
    case False
    with assms al Some inv_event [OF assms(1) i] show ?thesis by (auto simp: vhci_tx_urb_def)
  next
    case True
    note P = port_inv_here [OF assms(1) i]
    then have ok: "privs_ok (vdev_privs (vdevs c ! i) @ others i (vdevs c)) (vh_urbs c) (vh_next c) (vh_seqnum c) (vh_issued c)"
      by (simp add: port_inv_def)
    have sq: "vh_seqnum c + 1 = of_nat (Suc (vh_issued c))" using privs_okD(5) [OF ok] by (simp add: add.commute)
    let ?p = "\<lparr>vp_id = vh_next c, vp_seqnum = scast (vh_seqnum c + 1), vp_vdev = i, vp_urb = a\<rparr>"
    let ?d = "(vdevs c ! i)\<lparr>vd_priv_tx := vd_priv_tx (vdevs c ! i) @ [?p]\<rparr>"
    let ?c = "put_hurb a (ub\<lparr>hu_hcpriv := Some (vh_next c)\<rparr>)
        (c\<lparr>vh_seqnum := vh_seqnum c + 1, vh_issued := Suc (vh_issued c), vh_next := Suc (vh_next c)\<rparr>)"
    have m: "mset (vdev_privs ?d @ others i (vdevs c)) = mset (?p # vdev_privs (vdevs c ! i) @ others i (vdevs c))"
      by (simp add: vdev_privs_def)
    have "privs_ok (vdev_privs ?d @ others i (vdevs c)) (vh_urbs ?c) (vh_next ?c) (vh_seqnum ?c) (vh_issued ?c)"
      unfolding privs_ok_mset [OF m]
      using privs_ok_add [OF ok ub, of "scast (vh_seqnum c + 1)" "vh_seqnum c + 1" i] sq
      by (simp add: seq_of_def add.commute)
    moreover have "vdev_ok i ?d" using inv_vdev_ok [OF assms(1) i] by (auto simp: vdev_ok_def vdev_privs_def)
    ultimately have "port_inv i ?d ?c" using P by (simp add: port_inv_def)
    then have "vhci_inv (set_vdev i ?d ?c)" by (rule port_inv_put)
    moreover have "c' = set_vdev i ?d ?c"
      using assms(4) Some al True by (simp add: vhci_tx_urb_def next_seqnum_def Let_def put_hurb_def)
    moreover have "balance ?c = balance c"
      using ub(1) by (auto simp: balance_def fun_eq_iff)
    ultimately show ?thesis by simp
  qed
qed

lemma enumerate_inv:
  assumes "vhci_inv c" and "port < VHCI_NPORTS" and ub: "vh_urbs c a = Some ub" "hu_hcpriv ub = None"
    and "enumerate hk a port ub c w = (r, c', w')"
  shows "vhci_inv c' \<and> balance c' = balance c \<and> detached a c' \<and> (r = Xmit \<longrightarrow> vh_urbs c' = vh_urbs c)"
proof -
  have da: "detached a c" using ub by (simp add: detached_def)
  have ok: "vdev_ok port (vdevs c ! port)" using inv_vdev_ok [OF assms(1,2)] .
  have I: "vhci_inv (set_vdev port ((vdevs c ! port)\<lparr>vd_udev := Some u\<rparr>) c)" for u
    using ok by (intro inv_vdev [OF assms(1,2)]) (auto simp: vdev_ok_def vdev_privs_def)
  have J: "vhci_inv (set_vdev port ((vdevs c ! port)\<lparr>ud_status := VDEV_ST_USED, vd_udev := Some u\<rparr>) c)" for u
    using ok by (intro inv_vdev [OF assms(1,2)]) (auto simp: vdev_ok_def vdev_privs_def)
  have K: "vhci_inv (put_hurb a x (set_vdev port ((vdevs c ! port)\<lparr>ud_status := VDEV_ST_USED, vd_udev := Some u\<rparr>) c)) \<and>
      detached a (put_hurb a x (set_vdev port ((vdevs c ! port)\<lparr>ud_status := VDEV_ST_USED, vd_udev := Some u\<rparr>) c))"
    if "hu_hcpriv x = None" for u x
    using inv_put_detached [OF J] da that by simp
  have upd: "(vdevs c ! port)\<lparr>vd_udev := Some u, ud_status := VDEV_ST_USED\<rparr> = (vdevs c ! port)\<lparr>ud_status := VDEV_ST_USED, vd_udev := Some u\<rparr>" for u
    by (cases "vdevs c ! port") simp
  show ?thesis
    using assms(5) assms(1) da I K ub unfolding enumerate_def Let_def take_udev_def
    by (auto split: option.splits if_splits simp: upd)
qed

lemma enqueue_inv:
  assumes "vhci_inv c" and "detached a c" and "vhci_urb_enqueue k hk a c w = (r, c', w')"
  shows "vhci_inv c' \<and> balance c' = balance c \<and> (r \<noteq> 0 \<longrightarrow> vh_urbs c' a \<noteq> None \<longrightarrow> c' = c)"
proof -
  obtain ub where ub: "vh_urbs c a = Some ub" "hu_hcpriv ub = None" using assms(2) by (auto simp: detached_def)
  let ?u = "hu_urb ub" and ?port = "unat (hu_portnum ub) - 1"
  consider (stop) "c' = c \<or> r = 0 \<and> c' = vhci_fault c"
    | (link) w1 where "giveback_urb hk a c w1 = (c', w')" "r \<noteq> 0"
    | (go) w1 x c1 w2 where "?port < VHCI_NPORTS"
        "(if usb_pipedevice (u_pipe ?u) = 0 then enumerate hk a ?port ub c w1 else (Xmit, c, w1)) = (x, c1, w2)"
        "(case x of NoXmit q \<Rightarrow> r = q \<and> unlink_and_giveback hk a c1 w2 = (c', w')
          | Xmit \<Rightarrow> r = 0 \<and> vhci_tx_urb k a ub c1 w2 = (c', w'))"
    using assms(1,3) ub(1) unfolding vhci_urb_enqueue_def Let_def port_to_vdev_def vhci_inv_def
    by (auto split: if_splits prod.splits enum_step.splits)
  then show ?thesis
  proof cases
    case stop
    with assms(1) show ?thesis by auto
  next
    case link
    from inv_giveback [OF assms(1,2) link(1)] balance_giveback [OF link(1)] show ?thesis by simp
  next
    case go
    have e: "vhci_inv c1 \<and> balance c1 = balance c \<and> detached a c1 \<and> (x = Xmit \<longrightarrow> vh_urbs c1 = vh_urbs c)"
    proof (cases "usb_pipedevice (u_pipe ?u) = 0")
      case True
      with go(2) have "enumerate hk a ?port ub c w1 = (x, c1, w2)" by simp
      then show ?thesis by (rule enumerate_inv [OF assms(1) go(1) ub])
    next
      case False
      with go(2) assms(1,2) show ?thesis by auto
    qed
    show ?thesis
    proof (cases x)
      case (NoXmit q)
      then have g: "giveback_urb hk a c1 (usb_hcd_unlink_urb_from_ep hk a w2) = (c', w')"
        using go(3) by (simp add: unlink_and_giveback_def)
      from inv_giveback [OF _ _ g] balance_giveback [OF g] e show ?thesis by simp
    next
      case Xmit
      with e go(3) tx_urb_inv [of c1 a ub k w2 c' w'] ub show ?thesis by simp
    qed
  qed
qed

section \<open>Dequeueing\<close>

lemma vpriv_port:
  assumes "vhci_inv c" and "p \<in> set (all_vprivs c)"
  shows "vp_vdev p < VHCI_NPORTS" and "p \<in> set (vdev_privs (vdevs c ! vp_vdev p))"
proof -
  obtain d where d: "d \<in> set (vdevs c)" "p \<in> set (vdev_privs d)" using assms(2) by (auto simp: all_vprivs_def)
  then obtain j where j: "j < length (vdevs c)" "vdevs c ! j = d" by (metis in_set_conv_nth)
  with assms(1) have "vdev_ok j d" "j < VHCI_NPORTS" by (auto simp: vhci_inv_def)
  with d j show "vp_vdev p < VHCI_NPORTS" "p \<in> set (vdev_privs (vdevs c ! vp_vdev p))"
    by (auto simp: vdev_ok_def)
qed

lemma hcpriv_found:
  assumes "vhci_inv c" and "vh_urbs c a = Some ub" and "hu_hcpriv ub = Some i"
  obtains p where "priv_at c i = Some p" "vp_id p = i" "vp_urb p = a" "vp_vdev p < VHCI_NPORTS"
    "p \<in> set (vdev_privs (vdevs c ! vp_vdev p))"
proof -
  have ok: "privs_ok (all_vprivs c) (vh_urbs c) (vh_next c) (vh_seqnum c) (vh_issued c)"
    using assms(1) by (simp add: vhci_inv_def)
  obtain q where q: "q \<in> set (all_vprivs c)" "vp_id q = i" "vp_urb q = a"
    using privs_okD(4) [OF ok assms(2,3)] by blast
  then obtain p where p: "priv_at c i = Some p" unfolding priv_at_def
    by (metis (mono_tags, lifting) find_None_iff option.exhaust)
  then have pp: "p \<in> set (all_vprivs c)" "vp_id p = i" by (auto simp: priv_at_def find_Some_iff)
  have "p = q" using privs_okD(1) [OF ok] pp q(1,2) by (metis distinct_map inj_onD)
  with p pp q vpriv_port [OF assms(1) pp(1)] that show thesis by blast
qed

lemma drop_priv_mset:
  assumes "distinct (map vp_id (vdev_privs d))" and "p \<in> set (vdev_privs d)"
  shows "mset (vdev_privs d) = add_mset p (mset (vdev_privs (drop_priv (vp_id p) d)))"
proof -
  have f: "vdev_privs (drop_priv (vp_id p) d) = filter (\<lambda>q. vp_id q \<noteq> vp_id p) (vdev_privs d)"
    by (simp add: drop_priv_def vdev_privs_def)
  obtain us vs where l: "vdev_privs d = us @ p # vs" using assms(2) by (meson split_list)
  with assms(1) have "filter (\<lambda>q. vp_id q \<noteq> vp_id p) us = us" "filter (\<lambda>q. vp_id q \<noteq> vp_id p) vs = vs"
    by (auto simp: filter_id_conv image_iff)
  with l show ?thesis by (simp add: f)
qed

lemma put_hurb_set_vdev: "put_hurb a x (set_vdev j e c) = set_vdev j e (put_hurb a x c)"
  by (simp add: put_hurb_def set_vdev_def)

lemma vdev_ok_drop: "vdev_ok i d \<Longrightarrow> vdev_ok i (drop_priv x d)"
  by (auto simp: vdev_ok_def drop_priv_def vdev_privs_def)

text \<open>A request taken off its port, when the connection is gone.\<close>

lemma drop_priv_inv:
  assumes "vhci_inv c" and "vp_vdev p < VHCI_NPORTS" and "p \<in> set (vdev_privs (vdevs c ! vp_vdev p))"
    and "vh_urbs c (vp_urb p) = Some ub"
  shows "vhci_inv (put_hurb (vp_urb p) (ub\<lparr>hu_hcpriv := None\<rparr>)
      (set_vdev (vp_vdev p) (drop_priv (vp_id p) (vdevs c ! vp_vdev p)) c))"
proof -
  let ?j = "vp_vdev p" and ?d = "vdevs c ! vp_vdev p"
  let ?e = "drop_priv (vp_id p) ?d"
  have P: "port_inv ?j ?d c" using port_inv_here [OF assms(1,2)] .
  then have ok: "privs_ok (vdev_privs ?d @ others ?j (vdevs c)) (vh_urbs c) (vh_next c) (vh_seqnum c) (vh_issued c)"
    by (simp add: port_inv_def)
  have m: "mset (vdev_privs ?d @ others ?j (vdevs c)) = mset (p # vdev_privs ?e @ others ?j (vdevs c))"
  proof -
    have "distinct (map vp_id (vdev_privs ?d))" using privs_okD(1) [OF ok] by simp
    from drop_priv_mset [OF this assms(3)] show ?thesis by (simp only: mset_append mset.simps union_mset_add_mset_left)
  qed
  have "vdev_ok ?j ?e" using vdev_ok_drop [OF inv_vdev_ok [OF assms(1,2)]] .
  moreover have "privs_ok (vdev_privs ?e @ others ?j (vdevs c))
      ((vh_urbs c)(vp_urb p \<mapsto> ub\<lparr>hu_hcpriv := None\<rparr>)) (vh_next c) (vh_seqnum c) (vh_issued c)"
    using privs_ok_remove [OF ok [unfolded privs_ok_mset [OF m]] assms(4)] .
  ultimately have "port_inv ?j ?e (put_hurb (vp_urb p) (ub\<lparr>hu_hcpriv := None\<rparr>) c)"
    using P unfolding port_inv_def put_hurb_fields by blast
  from port_inv_put [OF this] show ?thesis by (simp only: put_hurb_set_vdev)
qed

text \<open>An unlink request queued on a port.\<close>

lemma queue_unlink_inv:
  assumes "vhci_inv c" and "j < VHCI_NPORTS"
  shows "vhci_inv (set_vdev j ((vdevs c ! j)\<lparr>vd_unlink_tx := x\<rparr>)
      (c\<lparr>vh_seqnum := vh_seqnum c + 1, vh_issued := Suc (vh_issued c)\<rparr>))"
proof -
  have ok: "privs_ok (all_vprivs c) (vh_urbs c) (vh_next c) (vh_seqnum c) (vh_issued c)"
    using assms(1) by (simp add: vhci_inv_def)
  have "vh_seqnum c + 1 = of_nat (Suc (vh_issued c))" using privs_okD(5) [OF ok] by (simp add: add.commute)
  from privs_ok_seq [OF ok this] assms(1)
  have "vhci_inv (c\<lparr>vh_seqnum := vh_seqnum c + 1, vh_issued := Suc (vh_issued c)\<rparr>)"
    by (simp add: vhci_inv_def all_vprivs_def)
  moreover have "vdev_ok j ((vdevs c ! j)\<lparr>vd_unlink_tx := x\<rparr>)"
    using inv_vdev_ok [OF assms] by (simp add: vdev_ok_def vdev_privs_def)
  ultimately show ?thesis using assms(2) by (intro inv_vdev) (simp_all add: vdev_privs_def)
qed

lemma dequeue_inv:
  assumes "vhci_inv c" and "vh_urbs c a = Some ub" and "vhci_urb_dequeue k hk a st c w = (r, c', w')"
  shows "vhci_inv c' \<and> balance c' = balance c \<and> vh_oops c' = vh_oops c"
proof (cases "hu_hcpriv ub")
  case None
  with assms show ?thesis by (auto simp: vhci_urb_dequeue_def)
next
  case (Some i)
  obtain p where p: "priv_at c i = Some p" "vp_id p = i" "vp_urb p = a" "vp_vdev p < VHCI_NPORTS"
    "p \<in> set (vdev_privs (vdevs c ! vp_vdev p))"
    using hcpriv_found [OF assms(1,2) Some] .
  let ?j = "vp_vdev p" and ?d = "vdevs c ! vp_vdev p"
  let ?c = "put_hurb a (ub\<lparr>hu_hcpriv := None\<rparr>) (set_vdev ?j (drop_priv i ?d) c)"
  obtain q w1 where ck: "usb_hcd_check_unlink_urb hk a st w = (q, w1)" by fastforce
  obtain ok w2 where al: "kzalloc k 32 w1 = (ok, w2)" by fastforce
  obtain c1 w3 where g: "giveback_urb hk a ?c (usb_hcd_unlink_urb_from_ep hk a w1) = (c1, w3)" by fastforce
  consider "q \<noteq> 0" | "q = 0" "tcp_socket ?d = None" | s where "q = 0" "tcp_socket ?d = Some s" by fastforce
  then show ?thesis
  proof cases
    case 1
    with assms(3) assms(1,2) Some ck show ?thesis by (simp add: vhci_urb_dequeue_def)
  next
    case 2
    then have c': "c' = c1"
      using assms(3) assms(2) Some ck p(1) g by (simp add: vhci_urb_dequeue_def unlink_and_giveback_def Let_def)
    have I: "vhci_inv ?c" using drop_priv_inv [OF assms(1) p(4,5)] p(2,3) assms(2) by simp
    have da: "detached a ?c" by (simp add: detached_def)
    have "balance ?c = balance c" using assms(2) by simp
    with inv_giveback [OF I da g] balance_giveback [OF g] c' show ?thesis by simp
  next
    case 3
    show ?thesis
    proof (cases ok)
      case True
      have "c' = set_vdev ?j (?d\<lparr>vd_unlink_tx := vd_unlink_tx ?d @
           [\<lparr>vu_seqnum = scast (vh_seqnum c + 1), vu_unlink_seqnum = vp_seqnum p\<rparr>]\<rparr>)
          (c\<lparr>vh_seqnum := vh_seqnum c + 1, vh_issued := Suc (vh_issued c)\<rparr>)"
        using assms(3) assms(2) Some ck p(1) 3 al True by (simp add: vhci_urb_dequeue_def next_seqnum_def Let_def)
      with queue_unlink_inv [OF assms(1) p(4)] show ?thesis by (simp add: balance_def fun_eq_iff)
    next
      case False
      then have "c' = vhci_event VDEV_EVENT_ERROR_MALLOC ?j c"
        using assms(3) assms(2) Some ck p(1) 3 al by (simp add: vhci_urb_dequeue_def Let_def)
      with inv_event [OF assms(1) p(4)] show ?thesis by (simp add: vhci_event_def)
    qed
  qed
qed

section \<open>The root hub\<close>

text \<open>What requests to the root hub leave alone.\<close>

definition hub_only :: "vhci_hcd \<Rightarrow> vhci_hcd \<Rightarrow> bool" where
  "hub_only c c' \<longleftrightarrow>
     vdevs c' = vdevs c \<and> length (port_status c') = length (port_status c) \<and> vh_urbs c' = vh_urbs c \<and>
     vh_next c' = vh_next c \<and> vh_seqnum c' = vh_seqnum c \<and> vh_issued c' = vh_issued c \<and> vh_given c' = vh_given c"

lemma hub_only_inv: "hub_only c c' \<Longrightarrow> vhci_inv c' = vhci_inv c \<and> balance c' = balance c"
  using balance_cong [of c' c] by (simp add: hub_only_def vhci_inv_def all_vprivs_def)

lemma hub_only_refl [simp]: "hub_only c c" "hub_only c (vhci_fault c)"
  by (simp_all add: hub_only_def vhci_fault_def)

lemma hub_only_trans: "hub_only a b \<Longrightarrow> hub_only b c \<Longrightarrow> hub_only a c"
  by (simp add: hub_only_def)

lemma hub_only_upd [simp]:
  "hub_only c (upd_port i f c') = hub_only c c'" "hub_only c (c'\<lparr>resuming := b\<rparr>) = hub_only c c'"
  "hub_only c (c'\<lparr>re_timeout := t\<rparr>) = hub_only c c'" "hub_only c (vhci_fault c') = hub_only c c'"
  "hub_only c (c'\<lparr>hcd_state := s\<rparr>) = hub_only c c'" "hub_only c (c'\<lparr>hcd_accessible := b\<rparr>) = hub_only c c'"
  by (simp_all add: hub_only_def upd_port_def vhci_fault_def)

lemma clear_port_feature_only: "hub_only c (clear_port_feature hk v i c w)"
  by (simp add: clear_port_feature_def Let_def)

lemma set_port_feature_only: "hub_only c (set_port_feature hk v i c w)"
  by (simp add: set_port_feature_def Let_def)

lemma end_resume_only: "hub_only c (end_resume hk i c w)"
  by (simp add: end_resume_def)

lemma end_reset_only: "hub_only c (end_reset hk i c w)"
  by (simp add: end_reset_def Let_def)

lemma get_port_status_only: "get_port_status h hk i c w = (b, c') \<Longrightarrow> hub_only c c'"
  using hub_only_trans [OF end_resume_only end_reset_only] by (auto simp: get_port_status_def Let_def)

lemma hub_control_only: "vhci_hub_control h hk t v x c w = (r, b, c') \<Longrightarrow> hub_only c c'"
  unfolding vhci_hub_control_def Let_def
  by (auto split: if_splits prod.splits simp: clear_port_feature_only set_port_feature_only dest: get_port_status_only)

section \<open>Attribute files and starting\<close>

lemma scan_us_length [simp]: "length (scan_us n s) = n"
  by (induction n s rule: scan_us.induct) (auto split: option.splits)

lemma valid_args_bound: "\<not> s32_neg (valid_args r s) \<Longrightarrow> unat r < VHCI_NPORTS"
  by (auto simp: valid_args_def EINVAL_def split: if_splits)

lemma attach_inv:
  assumes "vhci_inv c" and "store_attach k hk buf n c w = (r, c', w')"
  shows "vhci_inv c' \<and> balance c' = balance c"
proof -
  let ?i = "unat (scan_us 4 buf ! 0)"
  have I: "vhci_inv (set_vdev i ((vdevs c ! i)\<lparr>ud_status := VDEV_ST_NOTASSIGNED, tcp_socket := Some s,
      tcp_rx := Some rx, tcp_tx := Some tx, vd_devid := dv, vd_speed := sp\<rparr>) c)"
    if "i < VHCI_NPORTS" for s rx tx dv sp i
    using inv_vdev_ok [OF assms(1) that] that
    by (intro inv_vdev [OF assms(1)]) (auto simp: vdev_ok_def vdev_privs_def)
  show ?thesis
    using assms I unfolding store_attach_def Let_def rh_port_connect_def
    by (auto split: if_splits option.splits prod.splits dest!: valid_args_bound)
qed

lemma detach_inv:
  assumes "vhci_inv c" and "store_detach buf n c = (r, c')"
  shows "vhci_inv c' \<and> balance c' = balance c"
  using assms inv_event [OF assms(1)] unfolding store_detach_def vhci_port_disconnect_def Let_def
  by (auto split: if_splits prod.splits)

lemma init_ports_ok:
  "init_ports k n w = (ds, w') \<Longrightarrow>
   length ds = n \<and> (\<forall>j < n. vdev_ok j (ds ! j) \<and> vdev_privs (ds ! j) = [] \<and> ud_status (ds ! j) = VDEV_ST_NULL)"
proof (induction n arbitrary: ds w')
  case (Suc n)
  obtain es w1 where e: "init_ports k n w = (es, w1)" by fastforce
  obtain d w2 where d: "vhci_device_init k w1 = (d, w2)" by fastforce
  have ds: "ds = es @ [d\<lparr>vd_rhport := of_nat n\<rparr>]" using Suc.prems e d by simp
  have "vdev_ok n (d\<lparr>vd_rhport := of_nat n\<rparr>) \<and> vdev_privs (d\<lparr>vd_rhport := of_nat n\<rparr>) = [] \<and> ud_status d = VDEV_ST_NULL"
    using d by (auto simp: vhci_device_init_def usbip_start_eh_def vdev_ok_def vdev_privs_def Let_def split: prod.splits)
  with Suc.IH [OF e] ds show ?case by (auto simp: nth_append less_Suc_eq)
qed simp

text \<open>The controller as \<open>usb_create_hcd\<close> allocates it: cleared, no urb handed over.\<close>

definition new_hcd :: vhci_hcd where
  "new_hcd =
     \<lparr>port_status = replicate VHCI_NPORTS 0, resuming = False, re_timeout = 0, vh_seqnum = 0, vdevs = [],
      hcd_accessible = True, hcd_state = HC_STATE_RUNNING, vh_urbs = (\<lambda>_. None), vh_next = 0, vh_issued = 0,
      vh_given = [], vh_oops = False\<rparr>"

lemma start_inv:
  assumes "vhci_start k hk new_hcd w = (r, c, w')"
  shows "vhci_inv c \<and> balance c a = 0"
proof -
  obtain ds w1 where i: "init_ports k VHCI_NPORTS w = (ds, w1)" by fastforce
  note P = init_ports_ok [OF i]
  then have "\<forall>d \<in> set ds. vdev_privs d = []" by (metis in_set_conv_nth)
  then have e: "concat (map vdev_privs ds) = []" by simp
  have c: "c = new_hcd\<lparr>vdevs := ds\<rparr>"
    using i assms by (auto simp: vhci_start_def new_hcd_def split: prod.splits)
  have "all_vprivs c = []" unfolding all_vprivs_def c using e by simp
  with P show ?thesis by (simp add: c new_hcd_def vhci_inv_def privs_ok_def balance_def)
qed

section \<open>Reachable states\<close>

text \<open>The operations of the controller in any order. A urb is handed over while the driver does not hold
  it. The list logs, latest first, the urbs \<open>vhci_urb_enqueue\<close> took, each with what it returned: 0, or
  an error although it has given the urb back, which the code does on two paths
  (\<^verbatim>\<open>vhci_hcd.c:571\<close>; the USB core, which takes the urb for refused, is outside the model). A urb that
  is refused without being given back stays with the USB core and is not logged.\<close>

inductive vhci_reach :: "endian \<Rightarrow> 'w kapi \<Rightarrow> 'w hapi \<Rightarrow> (addr \<times> s32) list \<Rightarrow> vhci_hcd \<Rightarrow> 'w \<Rightarrow> bool"
  for h :: endian and k :: "'w kapi" and hk :: "'w hapi" where
  start: "vhci_start k hk new_hcd w = (r, c, w') \<Longrightarrow> vhci_reach h k hk [] c w'"
| submit: "vhci_reach h k hk as c w \<Longrightarrow> vh_urbs c a = None \<Longrightarrow> hu_hcpriv ub = None \<Longrightarrow>
    vhci_urb_enqueue k hk a (put_hurb a ub c) w = (r, c', w') \<Longrightarrow> r = 0 \<or> vh_urbs c' a = None \<Longrightarrow>
    vhci_reach h k hk ((a, r) # as) c' w'"
| refused: "vhci_reach h k hk as c w \<Longrightarrow> vh_urbs c a = None \<Longrightarrow> hu_hcpriv ub = None \<Longrightarrow>
    vhci_urb_enqueue k hk a (put_hurb a ub c) w = (r, c', w') \<Longrightarrow> r \<noteq> 0 \<Longrightarrow> vh_urbs c' a \<noteq> None \<Longrightarrow>
    vhci_reach h k hk as (c'\<lparr>vh_urbs := (vh_urbs c')(a := None)\<rparr>) w'"
| dequeue: "vhci_reach h k hk as c w \<Longrightarrow> vh_urbs c a = Some ub \<Longrightarrow>
    vhci_urb_dequeue k hk a st c w = (r, c', w') \<Longrightarrow> vhci_reach h k hk as c' w'"
| rx: "vhci_reach h k hk as c w \<Longrightarrow> i < VHCI_NPORTS \<Longrightarrow> on_port i (vhci_rx_pdu h k hk) c w = (c', w') \<Longrightarrow>
    vhci_reach h k hk as c' w'"
| tx_submit: "vhci_reach h k hk as c w \<Longrightarrow> i < VHCI_NPORTS \<Longrightarrow>
    on_port i (\<lambda>d c w. snd (vhci_send_cmd_submit h k d c w)) c w = (c', w') \<Longrightarrow> vhci_reach h k hk as c' w'"
| tx_unlink: "vhci_reach h k hk as c w \<Longrightarrow> i < VHCI_NPORTS \<Longrightarrow>
    on_port i (\<lambda>d c w. snd (vhci_send_cmd_unlink h k d c w)) c w = (c', w') \<Longrightarrow> vhci_reach h k hk as c' w'"
| event: "vhci_reach h k hk as c w \<Longrightarrow> i < VHCI_NPORTS \<Longrightarrow> vhci_reach h k hk as (vhci_event ev i c) w"
| shutdown: "vhci_reach h k hk as c w \<Longrightarrow> i < VHCI_NPORTS \<Longrightarrow>
    on_port i (vhci_shutdown_connection k hk) c w = (c', w') \<Longrightarrow> vhci_reach h k hk as c' w'"
| reset: "vhci_reach h k hk as c w \<Longrightarrow> i < VHCI_NPORTS \<Longrightarrow>
    on_port i (\<lambda>d c w. case vhci_device_reset k hk d w of (d', w') \<Rightarrow> (d', c, w')) c w = (c', w') \<Longrightarrow>
    vhci_reach h k hk as c' w'"
| unusable: "vhci_reach h k hk as c w \<Longrightarrow> i < VHCI_NPORTS \<Longrightarrow>
    on_port i (\<lambda>d c w. (vhci_device_unusable d, c, w)) c w = (c', w') \<Longrightarrow> vhci_reach h k hk as c' w'"
| attach: "vhci_reach h k hk as c w \<Longrightarrow> store_attach k hk buf n c w = (r2, c', w') \<Longrightarrow> vhci_reach h k hk as c' w'"
| detach: "vhci_reach h k hk as c w \<Longrightarrow> store_detach buf n c = (r2, c') \<Longrightarrow> vhci_reach h k hk as c' w"
| hub: "vhci_reach h k hk as c w \<Longrightarrow> vhci_hub_control h hk t v x c w = (r, b, c') \<Longrightarrow> vhci_reach h k hk as c' w"
| power: "vhci_reach h k hk as c w \<Longrightarrow> (r, c') \<in> {vhci_bus_suspend c, vhci_bus_resume c, vhci_hcd_suspend c} \<Longrightarrow>
    vhci_reach h k hk as c' w"
| resume: "vhci_reach h k hk as c w \<Longrightarrow> vhci_hcd_resume hk c w = (r, c', w') \<Longrightarrow> vhci_reach h k hk as c' w'"
| world: "vhci_reach h k hk as c w \<Longrightarrow> vhci_reach h k hk as c w'"

lemma on_port_inv:
  assumes "vhci_inv c" and "i < VHCI_NPORTS" and "on_port i f c w = (c', w')"
    and "\<And>d1 c1 w1. f (vdevs c ! i) c w = (d1, c1, w1) \<Longrightarrow> port_inv i (vdevs c ! i) c \<Longrightarrow>
      port_inv i d1 c1 \<and> balance c1 = balance c"
  shows "vhci_inv c' \<and> balance c' = balance c"
proof -
  obtain d1 c1 w1 where f: "f (vdevs c ! i) c w = (d1, c1, w1)" by (metis prod_cases3)
  then have "c' = set_vdev i d1 c1" using assms(3) by (auto simp: on_port_def set_vdev_def)
  with assms(4) [OF f port_inv_here [OF assms(1,2)]] port_inv_put [of i d1 c1] show ?thesis by simp
qed

text \<open>Handing over a urb.\<close>

lemma inv_hand_over:
  assumes "vhci_inv c" and "vh_urbs c a = None" and "hu_hcpriv ub = None"
  shows "vhci_inv (put_hurb a ub c) \<and> detached a (put_hurb a ub c)"
proof -
  have "privs_ok (all_vprivs c) ((vh_urbs c)(a \<mapsto> ub)) (vh_next c) (vh_seqnum c) (vh_issued c)"
    using assms by (intro privs_ok_detached) (auto simp: vhci_inv_def)
  with assms(1,3) show ?thesis by (simp add: vhci_inv_def all_vprivs_def detached_def)
qed

lemma balance_hand_over:
  "vh_urbs c a = None \<Longrightarrow> balance (put_hurb a ub c) b = balance c b + (if b = a then 1 else 0)"
  by (simp add: balance_def)

lemma power_only:
  "(r, c') \<in> {vhci_bus_suspend c, vhci_bus_resume c, vhci_hcd_suspend c} \<Longrightarrow> hub_only c c'"
  "vhci_hcd_resume hk c w = (r, c', w') \<Longrightarrow> hub_only c c'"
  by (auto simp: vhci_bus_suspend_def vhci_bus_resume_def vhci_hcd_suspend_def vhci_hcd_resume_def Let_def split: if_splits)

lemma reach_submit:
  assumes I: "vhci_inv c" and B: "\<forall>b. balance c b = count_list (map fst as) b"
    and new: "vh_urbs c a = None" "hu_hcpriv ub = None"
    and enq: "vhci_urb_enqueue k hk a (put_hurb a ub c) w = (r, c', w')"
  shows "vhci_inv c' \<and> (\<forall>b. balance c' b = count_list (map fst ((a, r) # as)) b)" 
    and "r \<noteq> 0 \<Longrightarrow> vh_urbs c' a \<noteq> None \<Longrightarrow> vhci_inv (c'\<lparr>vh_urbs := (vh_urbs c')(a := None)\<rparr>) \<and>
      (\<forall>b. balance (c'\<lparr>vh_urbs := (vh_urbs c')(a := None)\<rparr>) b = count_list (map fst as) b)"
proof -
  note H = inv_hand_over [OF I new]
  then have E: "vhci_inv c' \<and> balance c' = balance (put_hurb a ub c) \<and>
      (r \<noteq> 0 \<longrightarrow> vh_urbs c' a \<noteq> None \<longrightarrow> c' = put_hurb a ub c)"
    using enqueue_inv [OF _ _ enq] by blast
  show "vhci_inv c' \<and> (\<forall>b. balance c' b = count_list (map fst ((a, r) # as)) b)"
    using E B balance_hand_over [OF new(1)] by auto
  assume "r \<noteq> 0" "vh_urbs c' a \<noteq> None"
  with E have "c' = put_hurb a ub c" by blast
  then have "c'\<lparr>vh_urbs := (vh_urbs c')(a := None)\<rparr> = c" using new(1) by (simp add: put_hurb_def fun_upd_idem)
  with I B show "vhci_inv (c'\<lparr>vh_urbs := (vh_urbs c')(a := None)\<rparr>) \<and>
      (\<forall>b. balance (c'\<lparr>vh_urbs := (vh_urbs c')(a := None)\<rparr>) b = count_list (map fst as) b)" by simp
qed

lemma snd_eq_pair: "snd x = y \<Longrightarrow> x = (fst x, y)"
  by (cases x) simp

lemma send_inv_snd:
  "snd (vhci_send_cmd_submit h k d c w) = (d1, c1, w1) \<Longrightarrow> port_inv i d c \<Longrightarrow> port_inv i d1 c1 \<and> balance c1 = balance c"
  "snd (vhci_send_cmd_unlink h k d c w) = (d1, c1, w1) \<Longrightarrow> port_inv i d c \<Longrightarrow> port_inv i d1 c1 \<and> balance c1 = balance c"
  by (drule snd_eq_pair, drule (1) send_inv [rotated], simp)+

lemma port_ops_keep:
  "vhci_rx_pdu h k hk d c w = (d1, c1, w1) \<Longrightarrow> port_inv i d c \<Longrightarrow> port_inv i d1 c1 \<and> balance c1 = balance c"
  "vhci_shutdown_connection k hk d c w = (d1, c1, w1) \<Longrightarrow> port_inv i d c \<Longrightarrow> port_inv i d1 c1 \<and> balance c1 = balance c"
  "(case vhci_device_reset k hk d w of (d', w') \<Rightarrow> (d', c, w')) = (d1, c1, w1) \<Longrightarrow> port_inv i d c \<Longrightarrow>
    port_inv i d1 c1 \<and> balance c1 = balance c"
  "(vhci_device_unusable d, c, w) = (d1, c1, w1) \<Longrightarrow> port_inv i d c \<Longrightarrow> port_inv i d1 c1 \<and> balance c1 = balance c"
  using rx_pdu_inv [of i d c h k hk w d1 c1 w1] balance_rx_pdu [of h k hk d c w d1 c1 w1]
    vhci_shutdown_inv [of i d c k hk w d1 c1 w1] unusable_inv [of i d c]
  by (auto split: prod.splits dest: reset_inv)

lemma reach_port:
  assumes "vhci_inv c \<and> (\<forall>b. balance c b = count_list (map fst as) b)" and "i < VHCI_NPORTS"
    and "on_port i f c w = (c', w')"
    and "\<And>d1 c1 w1. f (vdevs c ! i) c w = (d1, c1, w1) \<Longrightarrow> port_inv i (vdevs c ! i) c \<Longrightarrow>
      port_inv i d1 c1 \<and> balance c1 = balance c"
  shows "vhci_inv c' \<and> (\<forall>b. balance c' b = count_list (map fst as) b)"
  using on_port_inv [OF conjunct1 [OF assms(1)] assms(2,3,4)] assms(1) by simp

lemma reach_same:
  assumes "vhci_inv c \<and> (\<forall>b. balance c b = count_list (map fst as) b)"
    and "vhci_inv c \<Longrightarrow> vhci_inv c' \<and> balance c' = balance c"
  shows "vhci_inv c' \<and> (\<forall>b. balance c' b = count_list (map fst as) b)"
  using assms by simp

lemma vhci_reach_inv:
  "vhci_reach h k hk as c w \<Longrightarrow> vhci_inv c \<and> (\<forall>b. balance c b = count_list (map fst as) b)"
proof (induction rule: vhci_reach.induct)
  case (start w r c w')
  from start_inv [OF start] show ?case by simp
next
  case (submit as c w a ub r c' w')
  from reach_submit(1) [OF conjunct1 [OF submit.IH] conjunct2 [OF submit.IH] submit.hyps(2,3,4)] show ?case .
next
  case (refused as c w a ub r c' w')
  from reach_submit(2) [OF conjunct1 [OF refused.IH] conjunct2 [OF refused.IH] refused.hyps(2,3,4,5,6)]
  show ?case .
next
  case (dequeue as c w a ub st r c' w')
  from dequeue_inv [OF _ dequeue.hyps(2,3)] show ?case by (intro reach_same [OF dequeue.IH]) simp
next
  case (rx as c w i c' w')
  show ?case
    by (rule reach_port [OF rx.IH rx.hyps(2,3)]) (rule port_ops_keep(1), assumption+)
next
  case (tx_submit as c w i c' w')
  show ?case
    by (rule reach_port [OF tx_submit.IH tx_submit.hyps(2,3)]) (rule send_inv_snd(1), assumption+)
next
  case (tx_unlink as c w i c' w')
  show ?case
    by (rule reach_port [OF tx_unlink.IH tx_unlink.hyps(2,3)]) (rule send_inv_snd(2), assumption+)
next
  case (event as c w i ev)
  from inv_event [OF _ event.hyps(2)] show ?case by (intro reach_same [OF event.IH]) simp
next
  case (shutdown as c w i c' w')
  show ?case by (rule reach_port [OF shutdown.IH shutdown.hyps(2,3)]) (rule port_ops_keep(2), assumption+)
next
  case (reset as c w i c' w')
  show ?case
    by (rule reach_port [OF reset.IH reset.hyps(2,3)]) (rule port_ops_keep(3), assumption+)
next
  case (unusable as c w i c' w')
  show ?case by (rule reach_port [OF unusable.IH unusable.hyps(2,3)]) (rule port_ops_keep(4), assumption+)
next
  case (attach as c w buf n r2 c' w')
  from attach_inv [OF _ attach.hyps(2)] show ?case by (intro reach_same [OF attach.IH])
next
  case (detach as c w buf n r2 c')
  from detach_inv [OF _ detach.hyps(2)] show ?case by (intro reach_same [OF detach.IH])
next
  case (hub as c w t v x r b c')
  from hub_only_inv [OF hub_control_only [OF hub.hyps(2)]] show ?case by (intro reach_same [OF hub.IH]) simp
next
  case (power as c w r c')
  from hub_only_inv [OF power_only(1) [OF power.hyps(2)]] show ?case by (intro reach_same [OF power.IH]) simp
next
  case (resume as c w r c' w')
  from hub_only_inv [OF power_only(2) [OF resume.hyps(2)]] show ?case by (intro reach_same [OF resume.IH]) simp
next
  case (world as c w w')
  from world.IH show ?case .
qed

end
