(* ===== verification/VhciProps.thy ===== *)
theory VhciProps
  imports VhciReach
begin

text \<open>
  Properties of the virtual host controller: its requests in every reachable state, the urbs it gives
  back, replies and their sequence numbers, error paths, and the event handler with its callbacks.
\<close>

section \<open>Demonstration state\<close>

text \<open>A started controller, a device attached to its first port, and the first request to it.\<close>

definition hcd_demo :: vhci_hcd where
  "hcd_demo = fst (snd (vhci_start sim_k sim_hc new_hcd sim0))"

lemma hcd_demo_reach: "vhci_reach h sim_k sim_hc [] hcd_demo sim0"
proof (rule vhci_reach.start)
  have "init_ports sim_k n sim0 = (fst (init_ports sim_k n sim0), sim0)" for n
    by (induction n) (auto simp: vhci_device_init_def usbip_start_eh_def Let_def split: prod.splits)
  then show "vhci_start sim_k sim_hc new_hcd sim0 = (0, hcd_demo, sim0)"
    by (simp add: hcd_demo_def vhci_start_def split: prod.splits) (metis prod.inject)
qed

definition vdev_demo :: "nat \<Rightarrow> vhci_device" where
  "vdev_demo i = \<lparr>ud_side = USBIP_VHCI, ud_status = VDEV_ST_NULL, tcp_socket = None, tcp_rx = None,
     tcp_tx = None, ud_event = 0, ud_eh = Some (Inr 1), ud_filters = [],
     vd_udev = None, vd_devid = 0, vd_speed = 0, vd_rhport = of_nat i,
     vd_priv_tx = [], vd_priv_rx = [], vd_unlink_tx = [], vd_unlink_rx = []\<rparr>"

lemma init_ports_demo: "init_ports sim_k n w = (map vdev_demo [0..<n], w)"
  by (induction n) (simp_all add: vhci_device_init_def usbip_start_eh_def vdev_demo_def)

lemma hcd_demo_eq: "hcd_demo = new_hcd\<lparr>vdevs := map vdev_demo [0..<8]\<rparr>"
  unfolding hcd_demo_def vhci_start_def VHCI_NPORTS_def init_ports_demo by (simp add: new_hcd_def)

definition att_demo :: vhci_hcd where
  "att_demo = fst (snd (store_attach sim_k sim_hc ''0 3 65541 3'' 11 hcd_demo sim0))"

definition vdev_att :: vhci_device where
  "vdev_att = (vdev_demo 0)\<lparr>ud_status := VDEV_ST_NOTASSIGNED, tcp_socket := Some 3, tcp_rx := Some (Inr 1),
     tcp_tx := Some (Inr 1), vd_devid := 65541, vd_speed := 3\<rparr>"

lemma scan_demo: "scan_us 4 ''0 3 65541 3'' = [0, 3, 65541, 3]"
  by code_simp

lemma att_demo_run:
  "store_attach sim_k sim_hc ''0 3 65541 3'' 11 hcd_demo sim0 = (11, att_demo, sim0)"
  "att_demo = hcd_demo\<lparr>port_status := 0x10401 # replicate 7 0, vdevs := vdev_att # map vdev_demo [1..<8]\<rparr>"
proof -
  have v: "valid_args 0 3 = 0" by (simp add: valid_args_def VHCI_NPORTS_def speed_defs)
  have u: "upt 0 8 = 0 # [1..<8]" by (simp add: upt_conv_Cons)
  have rp: "replicate 8 (0 :: u32) = 0 # replicate 7 0" by (simp add: eval_nat_numeral)
  have s: "store_attach sim_k sim_hc ''0 3 65541 3'' 11 hcd_demo sim0 = (11,
      hcd_demo\<lparr>port_status := 0x10401 # replicate 7 0, vdevs := vdev_att # map vdev_demo [1..<8]\<rparr>, sim0)"
    unfolding store_attach_def scan_demo
    by (simp add: v rp sockfd_to_socket_def hcd_demo_eq u vdev_att_def vdev_demo_def set_vdev_def rh_port_connect_def
      upd_port_def new_hcd_def VHCI_NPORTS_def speed_bit_def speed_defs port_stat_defs feat_bit_def port_feat_defs)
  then show "store_attach sim_k sim_hc ''0 3 65541 3'' 11 hcd_demo sim0 = (11, att_demo, sim0)"
    and "att_demo = hcd_demo\<lparr>port_status := 0x10401 # replicate 7 0, vdevs := vdev_att # map vdev_demo [1..<8]\<rparr>"
    by (simp_all add: att_demo_def)
qed


definition ctrl_demo :: hcd_urb where
  "ctrl_demo = \<lparr>hu_urb = (new_urb 0)\<lparr>u_pipe := 0x80000080, u_status := - EINPROGRESS,
     setup_packet := Some [0x80, 6, 0, 1, 0, 0, 8, 0], transfer_buffer := Some (replicate 8 0),
     transfer_buffer_length := 8\<rparr>, hu_dev = 7, hu_portnum = 1, hu_hcpriv = None\<rparr>"

text \<open>The first request of the enumeration has been queued for sending.\<close>

definition priv_demo :: vhci_priv where
  "priv_demo = \<lparr>vp_id = 0, vp_seqnum = 1, vp_vdev = 0, vp_urb = 100\<rparr>"

definition enum_demo :: vhci_hcd where
  "enum_demo = att_demo\<lparr>vh_seqnum := 1, vh_issued := 1, vh_next := 1,
     vh_urbs := [100 \<mapsto> ctrl_demo\<lparr>hu_hcpriv := Some 0\<rparr>],
     vdevs := vdev_att\<lparr>vd_udev := Some 7, vd_priv_tx := [priv_demo]\<rparr> # map vdev_demo [1..<8]\<rparr>"

lemma enum_demo_run:
  "vhci_urb_enqueue sim_k sim_hc 100 (put_hurb 100 ctrl_demo att_demo) sim0 = (0, enum_demo, sim0)"
proof -
  have pt: "usb_pipedevice 0x80000080 = 0" "usb_pipetype 0x80000080 = PIPE_CONTROL"
    by (simp_all add: usb_pipedevice_def usb_pipetype_def pipe_type_defs)
  have en: "enumerate sim_hc 100 0 ctrl_demo (put_hurb 100 ctrl_demo att_demo) sim0 =
      (Xmit, put_hurb 100 ctrl_demo (att_demo\<lparr>vdevs := vdev_att\<lparr>vd_udev := Some 7\<rparr> # map vdev_demo [1..<8]\<rparr>), sim0)"
    using pt by (simp add: enumerate_def ctrl_demo_def take_udev_def att_demo_run(2) vdev_att_def vdev_demo_def
      USB_REQ_SET_ADDRESS_def USB_REQ_GET_DESCRIPTOR_def set_vdev_def put_hurb_def)
  let ?c = "put_hurb 100 ctrl_demo (att_demo\<lparr>vdevs := vdev_att\<lparr>vd_udev := Some 7\<rparr> # map vdev_demo [1..<8]\<rparr>)"
  have "get_vdev ?c 7 = Some 0" by (simp add: get_vdev_def VHCI_NPORTS_def upt_conv_Cons)
  then have tx: "vhci_tx_urb sim_k 100 ctrl_demo ?c sim0 = (enum_demo, sim0)"
    by (simp add: vhci_tx_urb_def ctrl_demo_def next_seqnum_def att_demo_run(2) hcd_demo_eq new_hcd_def set_vdev_def
      put_hurb_def enum_demo_def priv_demo_def vdev_att_def vdev_demo_def)
  have po: "port_to_vdev (put_hurb 100 ctrl_demo att_demo) 0 = Some vdev_att"
    by (simp add: port_to_vdev_def att_demo_run(2))
  show ?thesis
    using en tx po pt by (simp add: vhci_urb_enqueue_def ctrl_demo_def vdev_att_def new_urb_def)
qed

lemma enum_demo_reach: "vhci_reach h sim_k sim_hc [(100, 0)] enum_demo sim0"
proof (rule vhci_reach.submit)
  show "vhci_reach h sim_k sim_hc [] att_demo sim0"
    using hcd_demo_reach att_demo_run(1) by (rule vhci_reach.attach)
  show "vhci_urb_enqueue sim_k sim_hc 100 (put_hurb 100 ctrl_demo att_demo) sim0 = (0, enum_demo, sim0)"
    by (rule enum_demo_run)
qed (simp_all add: att_demo_run(2) hcd_demo_eq new_hcd_def ctrl_demo_def)

section \<open>Requests\<close>

text \<open>C31. In every state the controller can reach: each request is in one queue of one port, names that
  port, and its urb is held and points back to it; a pointer from a urb to its request is never
  dangling; and sequence numbers of pending requests differ as long as fewer than \<open>2^32\<close> have been
  taken.\<close>

theorem vhci_requests_invariant:
  assumes "vhci_reach h k hk as c w"
  shows "distinct (map vp_id (all_vprivs c)) \<and>
    (\<forall>i < VHCI_NPORTS. \<forall>p \<in> set (vd_priv_tx (vdevs c ! i) @ vd_priv_rx (vdevs c ! i)).
       vp_vdev p = i \<and> (\<exists>ub. vh_urbs c (vp_urb p) = Some ub \<and> hu_hcpriv ub = Some (vp_id p))) \<and>
    (\<forall>a ub i. vh_urbs c a = Some ub \<longrightarrow> hu_hcpriv ub = Some i \<longrightarrow>
       (\<exists>p. priv_at c i = Some p \<and> vp_urb p = a)) \<and>
    (vh_issued c < 2 ^ 32 \<longrightarrow> distinct (map vp_seqnum (all_vprivs c)))"
proof -
  have I: "vhci_inv c" using vhci_reach_inv [OF assms] by simp
  then have ok: "privs_ok (all_vprivs c) (vh_urbs c) (vh_next c) (vh_seqnum c) (vh_issued c)"
    by (simp add: vhci_inv_def)
  have "p \<in> set (all_vprivs c)" if "p \<in> set (vdev_privs (vdevs c ! i))" "i < VHCI_NPORTS" for p i
    using that I by (auto simp: all_vprivs_def vhci_inv_def)
  moreover have "vp_vdev p = i" if "p \<in> set (vdev_privs (vdevs c ! i))" "i < VHCI_NPORTS" for p i
    using inv_vdev_ok [OF I that(2)] that(1) by (simp add: vdev_ok_def)
  moreover have "\<exists>p. priv_at c i = Some p \<and> vp_urb p = a" if "vh_urbs c a = Some ub" "hu_hcpriv ub = Some i" for a ub i
    using hcpriv_found [OF I that] by metis
  ultimately show ?thesis
    using privs_okD(1,3,7) [OF ok] by (fastforce simp: vdev_privs_def)
qed

theorem vhci_requests_invariant_witness:
  "priv_at enum_demo 0 = Some priv_demo \<and> vp_vdev priv_demo = 0"
proof -
  have p: "priv_demo \<in> set (vd_priv_tx (vdevs enum_demo ! 0) @ vd_priv_rx (vdevs enum_demo ! 0))"
    by (simp add: enum_demo_def)
  have "priv_at enum_demo 0 = Some priv_demo"
    by (simp add: priv_at_def all_vprivs_def vdev_privs_def enum_demo_def priv_demo_def vdev_att_def vdev_demo_def)
  with vhci_requests_invariant [OF enum_demo_reach [of Little]] p show ?thesis by (simp add: VHCI_NPORTS_def)
qed

text \<open>How often the driver took a urb: with success, and with an error although it took it.\<close>

definition accepted :: "(addr \<times> s32) list \<Rightarrow> addr \<Rightarrow> nat" where
  "accepted as a = length (filter (\<lambda>(b, r). b = a \<and> r = 0) as)"

definition failed :: "(addr \<times> s32) list \<Rightarrow> addr \<Rightarrow> nat" where
  "failed as a = length (filter (\<lambda>(b, r). b = a \<and> r \<noteq> 0) as)"

lemma accepted_failed: "accepted as a + failed as a = count_list (map fst as) a"
  by (induction as) (auto simp: accepted_def failed_def)


text \<open>A request to device number zero without a setup packet: enqueueing returns \<open>-EINVAL\<close>, and the urb,
  never accepted, has been given back. The first request of an enumeration is accepted and held.\<close>

definition bad_demo :: hcd_urb where
  "bad_demo = ctrl_demo\<lparr>hu_urb := (hu_urb ctrl_demo)\<lparr>setup_packet := None\<rparr>\<rparr>"

lemma bad_demo_reach:
  "\<exists>c w. vhci_reach h sim_k sim_hc [(5, - EINVAL)] c w \<and> vh_urbs c 5 = None"
proof -
  have at: "vhci_reach h sim_k sim_hc [] att_demo sim0"
    using hcd_demo_reach att_demo_run(1) by (rule vhci_reach.attach)
  have po: "port_to_vdev (put_hurb 5 bad_demo att_demo) 0 = Some vdev_att"
    by (simp add: port_to_vdev_def att_demo_run(2))
  have pt: "usb_pipedevice 0x80000080 = 0" by (simp add: usb_pipedevice_def)
  obtain r c w where e: "vhci_urb_enqueue sim_k sim_hc 5 (put_hurb 5 bad_demo att_demo) sim0 = (r, c, w)" by (metis prod_cases3)
  then have "r = - EINVAL" "vh_urbs c 5 = None"
    using po pt by (auto simp: vhci_urb_enqueue_def bad_demo_def ctrl_demo_def vdev_att_def new_urb_def enumerate_def
        unlink_and_giveback_def giveback_urb_def Let_def)
  with e have c: "vhci_urb_enqueue sim_k sim_hc 5 (put_hurb 5 bad_demo att_demo) sim0 = (- EINVAL, c, w)" "vh_urbs c 5 = None"
    by simp_all
  have "vhci_reach h sim_k sim_hc [(5, - EINVAL)] c w"
    by (rule vhci_reach.submit [OF at _ _ c(1)])
      (simp_all add: c(2) att_demo_run(2) hcd_demo_eq new_hcd_def bad_demo_def ctrl_demo_def)
  then show ?thesis using c(2) by blast
qed


text \<open>C33. Receiving never touches a freed request or a urb that was given back, on any port and whatever
  the peer sends, nor does cancelling a urb the driver holds.\<close>

theorem vhci_no_use_after_free:
  assumes "vhci_reach h k hk as c w"
  shows "(\<forall>i < VHCI_NPORTS. \<forall>w1. vh_oops (fst (on_port i (vhci_rx_pdu h k hk) c w1)) = vh_oops c) \<and>
    (\<forall>a st w1. vh_urbs c a \<noteq> None \<longrightarrow> vh_oops (fst (snd (vhci_urb_dequeue k hk a st c w1))) = vh_oops c)"
proof -
  have I: "vhci_inv c" using vhci_reach_inv [OF assms] by simp
  have "vh_oops (fst (on_port i (vhci_rx_pdu h k hk) c w1)) = vh_oops c" if i: "i < VHCI_NPORTS" for i w1
  proof -
    obtain d' c' w' where r: "vhci_rx_pdu h k hk (vdevs c ! i) c w1 = (d', c', w')" by (metis prod_cases3)
    from rx_pdu_inv [OF port_inv_here [OF I i] r] r show ?thesis by (simp add: on_port_def)
  qed
  moreover have "vh_oops (fst (snd (vhci_urb_dequeue k hk a st c w1))) = vh_oops c"
    if ub: "vh_urbs c a = Some ub" for a ub st w1
  proof -
    obtain r c' w' where r: "vhci_urb_dequeue k hk a st c w1 = (r, c', w')" by (metis prod_cases3)
    from dequeue_inv [OF I ub r] r show ?thesis by simp
  qed
  ultimately show ?thesis by blast
qed

theorem vhci_no_use_after_free_witness:
  "vh_oops (fst (on_port 0 (vhci_rx_pdu Little sim_k sim_hc) enum_demo sim0)) = vh_oops enum_demo \<and>
   vh_oops (fst (snd (vhci_urb_dequeue sim_k sim_hc 100 0 enum_demo sim0))) = vh_oops enum_demo"
proof -
  have "vh_urbs enum_demo 100 \<noteq> None" by (simp add: enum_demo_def)
  with vhci_no_use_after_free [OF enum_demo_reach [of Little]] show ?thesis by simp
qed

end
