(* ===== verification/VhciWire.thy ===== *)
theory VhciWire
  imports VhciProps
begin

text \<open>
  The virtual host controller on the wire: submit requests leave in order, results and answers to
  unlink requests give back the right urb, what goes wrong when a result is cut short, and how far
  sequence numbers carry.
\<close>

section \<open>Helpers\<close>

lemma fst_unlink_first: "fst (unlink_first P xs) = List.find P xs"
  by (induction xs) (auto split: prod.splits)

lemma unlink_first_unique:
  assumes "distinct (map f xs)" and "p \<in> set xs"
  shows "unlink_first (\<lambda>q. f q = f p) xs = (Some p, remove1 p xs)"
  using assms by (induction xs) (auto simp: image_iff)

lemma ucast_scast_iff: "(ucast (x :: s32) :: u64) = scast x \<longleftrightarrow> \<not> bit x 31"
proof
  assume eq: "(ucast x :: u64) = scast x"
  have "bit (scast x :: u64) 32 = bit x 31" by (simp add: bit_simps)
  moreover have "\<not> bit (ucast x :: u64) 32" by (auto simp: bit_simps dest: bit_imp_le_length)
  ultimately show "\<not> bit x 31" using eq by simp
next
  assume "\<not> bit x 31"
  then have "bit x n = bit x (min 31 n)" for n
    using bit_imp_le_length [of x n] by (cases n "31 :: nat" rule: linorder_cases) auto
  then show "(ucast x :: u64) = scast x"
    by (intro bit_word_eqI) (simp add: bit_simps)
qed

lemma bit_31_of_nat:
  assumes "n < 2 ^ 32"
  shows "bit (of_nat n :: s32) 31 \<longleftrightarrow> 2 ^ 31 \<le> n"
proof -
  have "bit (of_nat n :: s32) 31 \<longleftrightarrow> odd (n div 2 ^ 31)"
    by (simp add: bit_of_nat_iff) (simp add: bit_iff_odd)
  moreover have "n div 2 ^ 31 = (if n < 2 ^ 31 then 0 else 1)"
    using assms by (auto simp: div_nat_eqI)
  ultimately show ?thesis by auto
qed

text \<open>The number that crosses the wire is the one that is stored, for the first \<open>2^31 - 1\<close> requests.\<close>

lemma seq_wire: "n < 2 ^ 32 \<Longrightarrow> (ucast (ucast (seq_of n) :: u32) :: u64) = seq_of n \<longleftrightarrow> n < 2 ^ 31"
  using ucast_scast_iff [of "of_nat n"] bit_31_of_nat [of n] scast_back [of "of_nat n"]
  by (auto simp: seq_of_def)


section \<open>Sending\<close>

definition cmd_submit_bytes :: "endian \<Rightarrow> u32 \<Rightarrow> vhci_priv \<Rightarrow> urb \<Rightarrow> byte list" where
  "cmd_submit_bytes h dev p u =
     mem_header h (usbip_header_correct_endian h (setup_cmd_submit_pdu h zero_header p dev u) True) @
     cmd_submit_data u @
     (if usb_pipetype (u_pipe u) = PIPE_ISOCHRONOUS then concat (map (pack_iso_send h) (iso_packets u)) else [])"

text \<open>A urb as a USB driver submits it: its data are inside its buffer, an isochronous one has all its
  descriptors, and a setup packet has eight bytes.\<close>

definition submittable :: "urb \<Rightarrow> bool" where
  "submittable u \<longleftrightarrow> cmd_submit_data_ok u \<and> 0 \<le> sint (number_of_packets u) \<and>
     iso_np u \<le> length (iso_frame_desc u) \<and> (\<forall>sp. setup_packet u = Some sp \<longrightarrow> 8 \<le> length sp)"

lemma wf_setup_cmd_submit:
  assumes "\<forall>sp. setup_packet u = Some sp \<longrightarrow> 8 \<le> length sp"
  shows "wf_header (setup_cmd_submit_pdu h zero_header p dev u)"
  using assms by (auto simp: setup_cmd_submit_pdu_def Let_def split: option.splits)

lemma cmd_submit_data_length:
  assumes "cmd_submit_data_ok u"
  shows "length (cmd_submit_data u) = (if \<not> usb_pipein (u_pipe u) \<and> transfer_buffer_length u > 0
    then unat (transfer_buffer_length u) else 0)"
  using assms length_buf_read [of 0 "unat (transfer_buffer_length u)" "transfer_buffer u"]
  by (auto simp: cmd_submit_data_def cmd_submit_data_ok_def word_neq_0_conv)

lemma send_one_cmd_submit_ok:
  assumes "send_all k s out" and "alloc_ok k out" and "tcp_socket d = Some s"
    and ub: "vh_urbs c (vp_urb p) = Some ub" "hu_hcpriv ub = Some (vp_id p)"
    and sub: "submittable (hu_urb ub)" and port: "vp_vdev p = unat (vd_rhport d)"
  shows "\<exists>n w'. send_one_cmd_submit h k p d c w = (True, n, d, c, w') \<and>
    out w' = out w @ cmd_submit_bytes h (vd_devid d) p (hu_urb ub)"
proof -
  let ?u = "hu_urb ub"
  let ?iso = "usb_pipetype (u_pipe ?u) = PIPE_ISOCHRONOUS"
  let ?isob = "if ?iso then concat (map (pack_iso_send h) (iso_packets ?u)) else []"
  have sb: "cmd_submit_data_ok ?u" "0 \<le> sint (number_of_packets ?u)" "iso_np ?u \<le> length (iso_frame_desc ?u)"
    "\<forall>sp. setup_packet ?u = Some sp \<longrightarrow> 8 \<le> length sp" using sub by (auto simp: submittable_def)
  have il: "length (iso_packets ?u) = iso_np ?u" using sb(3) by (simp add: iso_packets_def)
  have "\<exists>w1. (if ?iso then usbip_alloc_iso_desc_pdu h k ?u w else (Some [], 0, ?u, w)) =
      (Some ?isob, of_nat (length ?isob), ?u, w1) \<and> out w1 = out w"
    using alloc_iso_ok [OF assms(2) sb(2,3), of h w] il by (auto simp: iso_packets_def sizeof_iso_def)
  then obtain w1 where w1: "(if ?iso then usbip_alloc_iso_desc_pdu h k ?u w else (Some [], 0, ?u, w)) =
      (Some ?isob, of_nat (length ?isob), ?u, w1)" "out w1 = out w" by blast
  let ?b = "cmd_submit_bytes h (vd_devid d) p ?u"
  let ?dlen = "if \<not> usb_pipein (u_pipe ?u) \<and> transfer_buffer_length ?u > 0 then ucast (transfer_buffer_length ?u) else 0 :: u64"
  have dl: "?dlen = of_nat (length (cmd_submit_data ?u))" "length (cmd_submit_data ?u) < 2 ^ 32"
    using cmd_submit_data_length [OF sb(1)] unsigned_less [of "transfer_buffer_length ?u", where 'a = nat] by auto
  have len: "length ?b = sizeof_header + length (cmd_submit_data ?u) + length ?isob"
    using length_mem_header [of "usbip_header_correct_endian h (setup_cmd_submit_pdu h zero_header p (vd_devid d) ?u) True" h]
      wf_setup_cmd_submit [OF sb(4)] by (simp add: cmd_submit_bytes_def)
  have "length ?isob < 2 ^ 36" using il iso_np_less [of ?u] by (simp add: sizeof_iso_def)
  then have "length ?b < 2 ^ 64" using len dl(2) by (simp add: sizeof_header_def)
  then have sz: "uint (of_nat sizeof_header + ?dlen + of_nat (length ?isob)) = int (length ?b)"
    using uint_of_nat_small [of "length ?b"] dl(1) len by (simp add: add.assoc)
  obtain r w2 where m: "kernel_sendmsg k s ?b w1 = (r, w2)" by fastforce
  have r: "r = int (length ?b)" "out w2 = out w1 @ ?b" using send_allD [OF assms(1), of ?b w1] m by simp_all
  have "send_one_cmd_submit h k p d c w = (True, of_nat sizeof_header + ?dlen + of_nat (length ?isob), d, c, w2)"
    unfolding send_one_cmd_submit_def Let_def ub(1) option.case w1(1) prod.case
    using ub(2) sb(1) assms(3) m sz r(1) port
    by (simp add: priv_devid_def cmd_submit_bytes_def)
  with r(2) w1(2) show ?thesis by simp
qed

lemma send_cmd_submit_loop_ok:
  assumes "send_all k s out" and "alloc_ok k out" and "tcp_socket d = Some s"
    and "\<forall>p \<in> set (vd_priv_tx d). vp_vdev p = unat (vd_rhport d) \<and>
      (\<exists>ub. vh_urbs c (vp_urb p) = Some ub \<and> hu_hcpriv ub = Some (vp_id p) \<and> submittable (hu_urb ub))"
  shows "\<exists>n w'. send_cmd_submit_loop h k tot d c w =
      (Some n, d\<lparr>vd_priv_tx := [], vd_priv_rx := vd_priv_rx d @ vd_priv_tx d\<rparr>, c, w') \<and>
    out w' = out w @ concat (map (\<lambda>p. cmd_submit_bytes h (vd_devid d) p (hu_urb (the (vh_urbs c (vp_urb p))))) (vd_priv_tx d))"
  using assms(3,4)
proof (induction "vd_priv_tx d" arbitrary: d tot w)
  case Nil
  then show ?case by (subst send_cmd_submit_loop.simps) (simp add: dequeue_from_priv_tx_def)
next
  case (Cons p ps)
  note ps = Cons.hyps(2) [symmetric]
  let ?d = "d\<lparr>vd_priv_tx := ps, vd_priv_rx := vd_priv_rx d @ [p]\<rparr>"
  obtain ub where ub: "vh_urbs c (vp_urb p) = Some ub" "hu_hcpriv ub = Some (vp_id p)" "submittable (hu_urb ub)"
    "vp_vdev p = unat (vd_rhport ?d)" using Cons.prems(2) ps by auto
  obtain n w1 where o: "send_one_cmd_submit h k p ?d c w = (True, n, ?d, c, w1)"
    "out w1 = out w @ cmd_submit_bytes h (vd_devid ?d) p (hu_urb ub)"
    using send_one_cmd_submit_ok [OF assms(1,2) _ ub, of h w] Cons.prems(1) by auto
  obtain m w' where r: "send_cmd_submit_loop h k (tot + n) ?d c w1 =
      (Some m, ?d\<lparr>vd_priv_tx := [], vd_priv_rx := vd_priv_rx ?d @ vd_priv_tx ?d\<rparr>, c, w')"
    "out w' = out w1 @ concat (map (\<lambda>p. cmd_submit_bytes h (vd_devid ?d) p (hu_urb (the (vh_urbs c (vp_urb p))))) (vd_priv_tx ?d))"
    using Cons.hyps(1) [of ?d "tot + n" w1] Cons.prems ps by fastforce
  have "send_cmd_submit_loop h k tot d c w = send_cmd_submit_loop h k (tot + n) ?d c w1"
    using ps o(1) by (subst send_cmd_submit_loop.simps) (simp add: dequeue_from_priv_tx_def)
  with r o(2) ps ub(1) show ?case by simp
qed

text \<open>C34. The sending thread puts the queued submit requests of a port on its socket in the order the
  urbs were queued, each as its header, its output data and its isochronous descriptors, and moves
  them all to the queue of requests that wait for a result.\<close>

theorem requests_sent_in_order:
  assumes "vhci_reach h k hk as c w0" and "i < VHCI_NPORTS" and "d = vdevs c ! i"
    and "send_all k s out" and "alloc_ok k out" and "tcp_socket d = Some s"
    and "\<forall>p ub. p \<in> set (vd_priv_tx d) \<longrightarrow> vh_urbs c (vp_urb p) = Some ub \<longrightarrow> submittable (hu_urb ub)"
  shows "\<exists>r w'. vhci_send_cmd_submit h k d c w =
      (r, d\<lparr>vd_priv_tx := [], vd_priv_rx := vd_priv_rx d @ vd_priv_tx d\<rparr>, c, w') \<and>
    out w' = out w @ concat (map (\<lambda>p. cmd_submit_bytes h (vd_devid d) p (hu_urb (the (vh_urbs c (vp_urb p))))) (vd_priv_tx d))"
proof -
  have I: "vhci_inv c" using vhci_reach_inv [OF assms(1)] by simp
  then have P: "port_inv i d c" using port_inv_here assms(2,3) by simp
  then have ok: "privs_ok (vdev_privs d @ others i (vdevs c)) (vh_urbs c) (vh_next c) (vh_seqnum c) (vh_issued c)"
    by (simp add: port_inv_def)
  have rh: "unat (vd_rhport d) = i"
    using port_inv_ok [OF P] by (simp add: vdev_ok_def VHCI_NPORTS_def unat_of_nat)
  have "vp_vdev p = unat (vd_rhport d) \<and>
      (\<exists>ub. vh_urbs c (vp_urb p) = Some ub \<and> hu_hcpriv ub = Some (vp_id p) \<and> submittable (hu_urb ub))"
    if "p \<in> set (vd_priv_tx d)" for p
    using that privs_okD(3) [OF ok, of p] port_inv_ok(1) [OF P] rh assms(7) by (auto simp: vdev_ok_def vdev_privs_def)
  then show ?thesis
    using send_cmd_submit_loop_ok [OF assms(4-6), of c h 0 w] by (auto simp: vhci_send_cmd_submit_def)
qed

definition sent_hcd :: vhci_hcd where
  "sent_hcd = enum_demo\<lparr>vdevs := vdev_att\<lparr>vd_udev := Some 7, vd_priv_rx := [priv_demo]\<rparr> # map vdev_demo [1..<8]\<rparr>"

lemma enum_demo_submittable:
  "p \<in> set (vd_priv_tx (vdevs enum_demo ! 0)) \<Longrightarrow> vh_urbs enum_demo (vp_urb p) = Some ub \<Longrightarrow> submittable (hu_urb ub)"
  by (auto simp: enum_demo_def priv_demo_def ctrl_demo_def submittable_def cmd_submit_data_ok_def usb_pipein_def
      new_urb_def iso_np_def)

theorem requests_sent_in_order_witness:
  "\<exists>r w'. vhci_send_cmd_submit Little sim_k (vdevs enum_demo ! 0) enum_demo sim0 =
      (r, vdevs sent_hcd ! 0, enum_demo, w') \<and> sim_out w' = cmd_submit_bytes Little 65541 priv_demo (hu_urb ctrl_demo)"
proof -
  have "tcp_socket (vdevs enum_demo ! 0) = Some 3" by (simp add: enum_demo_def vdev_att_def)
  from requests_sent_in_order [OF enum_demo_reach _ refl sim_sends this, of Little sim0] enum_demo_submittable
  show ?thesis
    by (simp add: VHCI_NPORTS_def) (simp add: enum_demo_def sent_hcd_def vdev_att_def vdev_demo_def priv_demo_def sim0_def)
qed

text \<open>The demonstration state after sending.\<close>

lemma ctrl_demo_submittable: "submittable (hu_urb ctrl_demo)"
  by (simp add: ctrl_demo_def submittable_def cmd_submit_data_ok_def usb_pipein_def new_urb_def iso_np_def)

lemma sent_hcd_reach: "\<exists>w. vhci_reach h sim_k sim_hc [(100, 0)] sent_hcd w"
proof -
  have s: "tcp_socket (vdevs enum_demo ! 0) = Some 3" by (simp add: enum_demo_def vdev_att_def)
  have p: "\<forall>p \<in> set (vd_priv_tx (vdevs enum_demo ! 0)). vp_vdev p = unat (vd_rhport (vdevs enum_demo ! 0)) \<and>
      (\<exists>ub. vh_urbs enum_demo (vp_urb p) = Some ub \<and> hu_hcpriv ub = Some (vp_id p) \<and> submittable (hu_urb ub))"
    using ctrl_demo_submittable by (auto simp: enum_demo_def priv_demo_def vdev_att_def vdev_demo_def)
  obtain n w' where "send_cmd_submit_loop h sim_k 0 (vdevs enum_demo ! 0) enum_demo sim0 =
      (Some n, (vdevs enum_demo ! 0)\<lparr>vd_priv_tx := [], vd_priv_rx := vd_priv_rx (vdevs enum_demo ! 0) @ vd_priv_tx (vdevs enum_demo ! 0)\<rparr>, enum_demo, w')"
    using send_cmd_submit_loop_ok [OF sim_sends s p] by blast
  then have "on_port 0 (\<lambda>d c w. snd (vhci_send_cmd_submit h sim_k d c w)) enum_demo sim0 = (sent_hcd, w')"
    by (simp add: on_port_def vhci_send_cmd_submit_def) (simp add: enum_demo_def sent_hcd_def vdev_att_def vdev_demo_def)
  from vhci_reach.tx_submit [OF enum_demo_reach _ this] show ?thesis by (auto simp: VHCI_NPORTS_def)
qed

section \<open>Replies\<close>

text \<open>A sent request is picked up under the number it was sent with.\<close>

lemma priv_rx_seq:
  assumes "vhci_inv c" and "i < VHCI_NPORTS" and "p \<in> set (vd_priv_rx (vdevs c ! i))" and "vh_issued c < 2 ^ 31"
  shows "unlink_first (\<lambda>q. vp_seqnum q = ucast (ucast (vp_seqnum p) :: u32)) (vd_priv_rx (vdevs c ! i)) =
      (Some p, remove1 p (vd_priv_rx (vdevs c ! i)))"
    and "\<exists>ub. vh_urbs c (vp_urb p) = Some ub"
proof -
  have ok: "privs_ok (vdev_privs (vdevs c ! i) @ others i (vdevs c)) (vh_urbs c) (vh_next c) (vh_seqnum c) (vh_issued c)"
    using port_inv_here [OF assms(1,2)] by (simp add: port_inv_def)
  have p: "p \<in> set (vdev_privs (vdevs c ! i) @ others i (vdevs c))" using assms(3) by (simp add: vdev_privs_def)
  obtain n where n: "n \<le> vh_issued c" "vp_seqnum p = seq_of n" using privs_okD(6) [OF ok p] by blast
  have "n < 2 ^ 32" "n < 2 ^ 31" using n(1) assms(4) by simp_all
  then have s: "ucast (ucast (vp_seqnum p) :: u32) = vp_seqnum p" using seq_wire n(2) by simp
  have "distinct (map vp_seqnum (vd_priv_rx (vdevs c ! i)))"
    using privs_okD(7) [OF ok] assms(4) by (simp add: vdev_privs_def)
  from unlink_first_unique [OF this assms(3)] s
  show "unlink_first (\<lambda>q. vp_seqnum q = ucast (ucast (vp_seqnum p) :: u32)) (vd_priv_rx (vdevs c ! i)) =
      (Some p, remove1 p (vd_priv_rx (vdevs c ! i)))" by simp
  show "\<exists>ub. vh_urbs c (vp_urb p) = Some ub" using privs_okD(3) [OF ok p] by blast
qed

lemma pickup_sent:
  assumes "vhci_inv c" and "i < VHCI_NPORTS" and "p \<in> set (vd_priv_rx (vdevs c ! i))" and "vh_issued c < 2 ^ 31"
    and "vh_urbs c (vp_urb p) = Some ub"
  shows "pickup_urb_and_free_priv (vdevs c ! i) (ucast (vp_seqnum p)) c =
    (Some (vp_urb p), (vdevs c ! i)\<lparr>vd_priv_rx := remove1 p (vd_priv_rx (vdevs c ! i))\<rparr>,
     put_hurb (vp_urb p) (ub\<lparr>hu_hcpriv := None\<rparr>) c)"
  using priv_rx_seq(1) [OF assms(1-4)] assms(5) by (simp add: pickup_urb_and_free_priv_def)


lemma on_port_result:
  "f (vdevs c ! i) c w = (d', c', w') \<Longrightarrow> vdevs c' = vdevs c \<Longrightarrow> i < length (vdevs c) \<Longrightarrow>
   on_port i f c w = (set_vdev i d' c', w') \<and> vdevs (set_vdev i d' c') ! i = d'"
  by (simp add: on_port_def set_vdev_def)

text \<open>The result of an input request: when the announced bytes arrive and fit, the urb of the
  request with that sequence number is given back with the reported status, length and data, the
  request is freed, and no other urb is given back.\<close>

lemma result_gives_back_urb:
  assumes "vhci_reach h k hk as c w0" and "i < VHCI_NPORTS"
    and "p \<in> set (vd_priv_rx (vdevs c ! i))" and "vh_issued c < 2 ^ 31"
    and "vh_urbs c (vp_urb p) = Some ub" and "usb_pipein (u_pipe (hu_urb ub))"
    and "\<not> usb_pipeisoc (u_pipe (hu_urb ub))" and "transfer_buffer (hu_urb ub) = Some b"
    and "seqnum (base pdu) = ucast (vp_seqnum p)" and "r = get_ret_submit h pdu"
    and "recv_stream k s pend" and "recv_progress k s pend" and "tcp_socket (vdevs c ! i) = Some s"
    and "pend w = data @ rest" and "int (length data) = sint (rs_actual_length r)" and "data \<noteq> []"
    and "length data \<le> length b"
  shows "\<exists>c' w' u. on_port i (vhci_recv_ret_submit h k hk pdu) c w = (c', w') \<and>
    vh_given c' = vh_given c @ [(vp_urb p, u, rs_status r)] \<and> vh_urbs c' (vp_urb p) = None \<and>
    u_status u = rs_status r \<and> actual_length u = rs_actual_length r \<and>
    transfer_buffer u = Some (overwrite 0 data b) \<and> u_fault u = u_fault (hu_urb ub) \<and>
    vd_priv_rx (vdevs c' ! i) = remove1 p (vd_priv_rx (vdevs c ! i)) \<and> ud_event (vdevs c' ! i) = ud_event (vdevs c ! i)"
proof -
  have I: "vhci_inv c" using vhci_reach_inv [OF assms(1)] by simp
  then have len: "i < length (vdevs c)" and side: "ud_side (vdevs c ! i) = USBIP_VHCI"
    using assms(2) by (auto simp: vhci_inv_def vdev_ok_def)
  let ?d = "(vdevs c ! i)\<lparr>vd_priv_rx := remove1 p (vd_priv_rx (vdevs c ! i))\<rparr>"
  let ?c = "put_hurb (vp_urb p) (ub\<lparr>hu_hcpriv := None\<rparr>) c"
  let ?u = "snd (usbip_pack_pdu h pdu (hu_urb ub) USBIP_RET_SUBMIT False)"
  have u: "?u = (hu_urb ub)\<lparr>u_status := rs_status r, actual_length := rs_actual_length r,
      start_frame := rs_start_frame r, number_of_packets := rs_number_of_packets r, error_count := rs_error_count r\<rparr>"
    using assms(10) by (simp add: usbip_pack_pdu_def usbip_pack_ret_submit_def command_defs Let_def)
  have n: "0 < sint (rs_actual_length r)" using assms(15,16) by (metis length_greater_0_conv of_nat_0_less_iff)
  obtain w1 where rc: "usbip_recv k (Some s) True (sint (rs_actual_length r)) w = (sint (rs_actual_length r), data, w1)"
    using usbip_recv_exact [OF assms(11,12) n, of w] assms(14,15) by (auto simp: nat_int)
  let ?u2 = "urb_write 0 data ?u"
  have u2: "?u2 = ?u\<lparr>transfer_buffer := Some (overwrite 0 data b)\<rparr>"
    using assms(8,17) unfolding u by (simp add: urb_write_def buf_ok_def)
  have x: "usbip_recv_xbuff k ?d ?u w = (sint (rs_actual_length r), ?d, ?u2, w1)"
    using side assms(6,8,13) n rc unfolding u by (simp add: usbip_recv_xbuff_def usb_pipeout_def Let_def)
  have y: "usbip_recv_iso h k ?d ?u2 w1 = (0, ?d, ?u2, w1)" "usbip_pad_iso ?u2 = ?u2"
    using assms(7) unfolding u2 u by (simp_all add: usbip_recv_iso_def usbip_pad_iso_def Let_def)
  let ?ub = "ub\<lparr>hu_hcpriv := None, hu_urb := ?u2\<rparr>"
  let ?c2 = "?c\<lparr>vh_urbs := (vh_urbs c)(vp_urb p := None), vh_given := vh_given c @ [(vp_urb p, ?u2, u_status ?u2)]\<rparr>"
  have "vhci_recv_ret_submit h k hk pdu (vdevs c ! i) c w =
      (?d, ?c2, usb_hcd_giveback_urb hk (vp_urb p) ?u2 (u_status ?u2) (usb_hcd_unlink_urb_from_ep hk (vp_urb p) w1))"
    using pickup_sent [OF I assms(2-5)] assms(9) x y n
    by (simp add: vhci_recv_ret_submit_def unlink_and_giveback_def giveback_urb_def put_hurb_def)
  from on_port_result [of "vhci_recv_ret_submit h k hk pdu", OF this _ len] u2 show ?thesis
    by (auto simp: u set_vdev_def)
qed

definition result_pdu :: usbip_header where
  "result_pdu = put_ret_submit Little ((get_ret_submit Little zero_header)\<lparr>rs_actual_length := 2\<rparr>)
     (zero_header\<lparr>base := zero_basic\<lparr>command := USBIP_RET_SUBMIT, seqnum := 1\<rparr>\<rparr>)"

lemma result_pdu_fields:
  "seqnum (base result_pdu) = 1" "rs_actual_length (get_ret_submit Little result_pdu) = 2"
proof -
  show "seqnum (base result_pdu) = 1" by (simp add: result_pdu_def put_ret_submit_def)
  show "rs_actual_length (get_ret_submit Little result_pdu) = 2" by (simp add: result_pdu_def get_put_ret_submit)
qed

lemma sent_hcd_fields:
  "vd_priv_rx (vdevs sent_hcd ! 0) = [priv_demo]" "vh_issued sent_hcd = 1"
  "vh_urbs sent_hcd (vp_urb priv_demo) = Some (ctrl_demo\<lparr>hu_hcpriv := Some 0\<rparr>)"
  "tcp_socket (vdevs sent_hcd ! 0) = Some 3" "usb_pipein (u_pipe (hu_urb ctrl_demo))"
  "\<not> usb_pipeisoc (u_pipe (hu_urb ctrl_demo))"
  by (simp_all add: sent_hcd_def enum_demo_def priv_demo_def vdev_att_def ctrl_demo_def usb_pipein_def
      usb_pipeisoc_def usb_pipetype_def pipe_type_defs)


text \<open>C35. The answer to an unlink request that is still awaited. If the result of its target has not
  arrived, the target's urb is given back with the status of the answer; if it has, the urb was
  given back then and is not given back again.\<close>

theorem unlink_answer_gives_back:
  assumes "vhci_reach h k hk as c w0" and "i < VHCI_NPORTS" and "d = vdevs c ! i"
    and "vd_unlink_rx d = us @ ul # vs" and "vu_seqnum ul = ucast (seqnum (base pdu))"
    and "\<forall>x. x \<in> set us \<longrightarrow> vu_seqnum x \<noteq> ucast (seqnum (base pdu))"
  shows "\<exists>c' w'. on_port i (vhci_recv_ret_unlink h hk pdu) c w = (c', w') \<and>
    vd_unlink_rx (vdevs c' ! i) = us @ vs \<and>
    map fst (vh_given c') = map fst (vh_given c) @
      (case List.find (\<lambda>p. vp_seqnum p = ucast (ucast (vu_unlink_seqnum ul) :: u32)) (vd_priv_rx d) of
         None \<Rightarrow> [] | Some p \<Rightarrow> [vp_urb p]) \<and>
    (\<forall>x. vh_given c' = vh_given c @ [x] \<longrightarrow> snd (snd x) = ru_status (get_ret_unlink h pdu))"
proof -
  have I: "vhci_inv c" using vhci_reach_inv [OF assms(1)] by simp
  then have len: "i < length (vdevs c)" using assms(2) by (simp add: vhci_inv_def)
  have "unlink_first (\<lambda>u. vu_seqnum u = ucast (seqnum (base pdu))) (us @ ul # vs) = (Some ul, us @ vs)"
    using assms(5,6) by (induction us) auto
  then have q: "dequeue_pending_unlink d pdu = (Some ul, d\<lparr>vd_unlink_rx := us @ vs\<rparr>)"
    using assms(4) by (simp add: dequeue_pending_unlink_def)
  let ?d1 = "d\<lparr>vd_unlink_rx := us @ vs\<rparr>"
  let ?P = "\<lambda>p. vp_seqnum p = ucast (ucast (vu_unlink_seqnum ul) :: u32)"
  show ?thesis
  proof (cases "unlink_first ?P (vd_priv_rx d)")
    case (Pair x rest)
    have f: "List.find ?P (vd_priv_rx d) = x" using fst_unlink_first [of ?P "vd_priv_rx d"] Pair by simp
    show ?thesis
    proof (cases x)
      case None
      then have "vhci_recv_ret_unlink h hk pdu (vdevs c ! i) c w = (?d1, c, w)"
        using q Pair assms(3) by (simp add: vhci_recv_ret_unlink_def pickup_urb_and_free_priv_def)
      from on_port_result [of "vhci_recv_ret_unlink h hk pdu", OF this refl len] f None show ?thesis
        by (simp add: set_vdev_def)
    next
      case (Some p)
      have "p \<in> set (vdev_privs d)" using find_Some_iff [of ?P "vd_priv_rx d" p] f Some by (auto simp: vdev_privs_def)
      moreover have "privs_ok (vdev_privs d @ others i (vdevs c)) (vh_urbs c) (vh_next c) (vh_seqnum c) (vh_issued c)"
        using port_inv_here [OF I assms(2)] assms(3) by (simp add: port_inv_def)
      ultimately obtain ub where ub: "vh_urbs c (vp_urb p) = Some ub"
        using privs_okD(3) by fastforce
      let ?st = "ru_status (get_ret_unlink h pdu)"
      let ?u = "(hu_urb ub)\<lparr>u_status := ?st\<rparr>"
      have "vhci_recv_ret_unlink h hk pdu (vdevs c ! i) c w =
          (?d1\<lparr>vd_priv_rx := rest\<rparr>, c\<lparr>vh_urbs := (vh_urbs c)(vp_urb p := None), vh_given := vh_given c @ [(vp_urb p, ?u, ?st)]\<rparr>,
           usb_hcd_giveback_urb hk (vp_urb p) ?u ?st (usb_hcd_unlink_urb_from_ep hk (vp_urb p) w))"
        using q Pair Some ub assms(3)
        by (simp add: vhci_recv_ret_unlink_def pickup_urb_and_free_priv_def set_urb_status_def unlink_and_giveback_def
            giveback_urb_def put_hurb_def)
      from on_port_result [of "vhci_recv_ret_unlink h hk pdu", OF this _ len] f Some show ?thesis
        by (auto simp: set_vdev_def)
    qed
  qed
qed

text \<open>The demonstration urb is cancelled and the unlink request is sent.\<close>

definition unlink_demo :: vhci_unlink where
  "unlink_demo = \<lparr>vu_seqnum = 2, vu_unlink_seqnum = 1\<rparr>"

definition cancel_hcd :: vhci_hcd where
  "cancel_hcd = sent_hcd\<lparr>vh_seqnum := 2, vh_issued := 2,
     vdevs := (vdevs sent_hcd ! 0)\<lparr>vd_unlink_rx := [unlink_demo]\<rparr> # tl (vdevs sent_hcd)\<rparr>"

lemma cancel_hcd_reach: "\<exists>w. vhci_reach h sim_k sim_hc [(100, 0)] cancel_hcd w"
proof -
  obtain w0 where r: "vhci_reach h sim_k sim_hc [(100, 0)] sent_hcd w0" using sent_hcd_reach by blast
  let ?c = "sent_hcd\<lparr>vh_seqnum := 2, vh_issued := 2,
     vdevs := (vdevs sent_hcd ! 0)\<lparr>vd_unlink_tx := [unlink_demo]\<rparr> # tl (vdevs sent_hcd)\<rparr>"
  have pa: "priv_at sent_hcd 0 = Some priv_demo"
    by (simp add: priv_at_def all_vprivs_def vdev_privs_def sent_hcd_def priv_demo_def vdev_att_def vdev_demo_def)
  have "vhci_urb_dequeue sim_k sim_hc 100 0 sent_hcd w0 = (0, ?c, w0)"
    using sent_hcd_fields pa by (simp add: vhci_urb_dequeue_def next_seqnum_def set_vdev_def priv_demo_def unlink_demo_def)
      (simp add: sent_hcd_def enum_demo_def vdev_att_def vdev_demo_def)
  from vhci_reach.dequeue [OF r _ this] sent_hcd_fields(3) have r1: "vhci_reach h sim_k sim_hc [(100, 0)] ?c w0"
    by (simp add: priv_demo_def)
  let ?h = "mem_header h (usbip_header_correct_endian h (setup_cmd_unlink_pdu h unlink_demo (vd_devid (vdevs sent_hcd ! 0))) True)"
  have l: "length ?h = sizeof_header"
    by (rule length_mem_header) (simp add: setup_cmd_unlink_pdu_def)
  have "on_port 0 (\<lambda>d c w. snd (vhci_send_cmd_unlink h sim_k d c w)) ?c w0 = (cancel_hcd, w0\<lparr>sim_out := sim_out w0 @ ?h\<rparr>)"
    using sent_hcd_fields(4) l
    by (simp add: on_port_def vhci_send_cmd_unlink_def send_cmd_unlink_loop.simps dequeue_from_unlink_tx_def
        send_one_cmd_unlink_def cancel_hcd_def) (simp add: sent_hcd_def enum_demo_def vdev_att_def vdev_demo_def)
  from vhci_reach.tx_unlink [OF r1 _ this] show ?thesis by (auto simp: VHCI_NPORTS_def)
qed

theorem unlink_answer_gives_back_witness:
  "\<exists>c' w'. on_port 0 (vhci_recv_ret_unlink Little sim_hc (zero_header\<lparr>base := zero_basic\<lparr>seqnum := 2\<rparr>\<rparr>)) cancel_hcd sim0 = (c', w') \<and>
    vd_unlink_rx (vdevs c' ! 0) = [] \<and> map fst (vh_given c') = [100]"
proof -
  obtain w0 where r: "vhci_reach Little sim_k sim_hc [(100, 0)] cancel_hcd w0" using cancel_hcd_reach by blast
  have f: "vd_unlink_rx (vdevs cancel_hcd ! 0) = [] @ unlink_demo # []" "vu_seqnum unlink_demo = 2"
    "vd_priv_rx (vdevs cancel_hcd ! 0) = [priv_demo]" "vh_given cancel_hcd = []"
    by (simp_all add: cancel_hcd_def unlink_demo_def sent_hcd_def enum_demo_def att_demo_run(2) hcd_demo_eq new_hcd_def)
  have "List.find (\<lambda>p. vp_seqnum p = ucast (ucast (vu_unlink_seqnum unlink_demo) :: u32)) (vd_priv_rx (vdevs cancel_hcd ! 0)) = Some priv_demo"
    using f(3) by (simp add: unlink_demo_def priv_demo_def)
  with unlink_answer_gives_back [OF r _ refl f(1), of "zero_header\<lparr>base := zero_basic\<lparr>seqnum := 2\<rparr>\<rparr>" sim0] f
  show ?thesis by (simp add: VHCI_NPORTS_def priv_demo_def) auto
qed

end
