(* ===== verification/VhciErr.thy ===== *)
theory VhciErr
  imports VhciWire
begin

text \<open>
  Error behaviour of the virtual host controller: results cut short, sequence numbers beyond the
  range of the counter, refused urbs and the requests answered without the network.
\<close>

text \<open>C36. A result whose data end before the announced length. The connection is marked as broken, the
  request is already freed, and its urb is not given back; it is held without a request, so that
  cancelling it later does nothing either.\<close>

theorem short_result_strands_urb:
  assumes "vhci_reach h k hk as c w0" and "i < VHCI_NPORTS"
    and "p \<in> set (vd_priv_rx (vdevs c ! i))" and "vh_issued c < 2 ^ 31"
    and "vh_urbs c (vp_urb p) = Some ub" and "usb_pipein (u_pipe (hu_urb ub))"
    and "seqnum (base pdu) = ucast (vp_seqnum p)" and "transfer_buffer (hu_urb ub) = Some b"
    and "recv_stream k s pend" and "tcp_socket (vdevs c ! i) = Some s"
    and "int (length (pend w)) < sint (rs_actual_length (get_ret_submit h pdu))"
  shows "\<exists>c' w' ub'. on_port i (vhci_recv_ret_submit h k hk pdu) c w = (c', w') \<and>
    vh_given c' = vh_given c \<and> vh_urbs c' (vp_urb p) = Some ub' \<and> hu_hcpriv ub' = None \<and>
    vd_priv_rx (vdevs c' ! i) = remove1 p (vd_priv_rx (vdevs c ! i)) \<and>
    ud_event (vdevs c' ! i) = ud_event (vdevs c ! i) OR VDEV_EVENT_ERROR_TCP \<and>
    vhci_urb_dequeue k hk (vp_urb p) st c' w2 = (0, c', w2)"
proof -
  have I: "vhci_inv c" using vhci_reach_inv [OF assms(1)] by simp
  then have len: "i < length (vdevs c)" and side: "ud_side (vdevs c ! i) = USBIP_VHCI"
    using assms(2) by (auto simp: vhci_inv_def vdev_ok_def)
  let ?d = "(vdevs c ! i)\<lparr>vd_priv_rx := remove1 p (vd_priv_rx (vdevs c ! i))\<rparr>"
  let ?n = "sint (rs_actual_length (get_ret_submit h pdu))"
  let ?u = "snd (usbip_pack_pdu h pdu (hu_urb ub) USBIP_RET_SUBMIT False)"
  have u: "sint (actual_length ?u) = ?n" "u_pipe ?u = u_pipe (hu_urb ub)" "transfer_buffer ?u = Some b"
    using assms(8) by (simp_all add: usbip_pack_pdu_def usbip_pack_ret_submit_def command_defs Let_def)
  have n: "0 < ?n" using assms(11) by linarith
  obtain r data w1 where rc: "usbip_recv k (Some s) True ?n w = (r, data, w1)" by (metis prod_cases3)
  have "r \<noteq> ?n" using usbip_recv_stream [OF assms(9) n rc] assms(11) by auto
  then have x: "usbip_recv_xbuff k ?d ?u w =
      (- sint EPIPE, usbip_event_add VDEV_EVENT_ERROR_TCP ?d, urb_write 0 data ?u, w1)"
    using side assms(6,10) n rc u by (simp add: usbip_recv_xbuff_def usb_pipeout_def Let_def)
  let ?ub = "ub\<lparr>hu_hcpriv := None, hu_urb := urb_write 0 data ?u\<rparr>"
  have r: "vhci_recv_ret_submit h k hk pdu (vdevs c ! i) c w =
      (usbip_event_add VDEV_EVENT_ERROR_TCP ?d, put_hurb (vp_urb p) ?ub c, w1)"
    using pickup_sent [OF I assms(2-5)] assms(7) x
    by (simp add: vhci_recv_ret_submit_def put_hurb_def EPIPE_def)
  let ?c = "set_vdev i (usbip_event_add VDEV_EVENT_ERROR_TCP ?d) (put_hurb (vp_urb p) ?ub c)"
  have "vhci_urb_dequeue k hk (vp_urb p) st ?c w2 = (0, ?c, w2)" by (simp add: vhci_urb_dequeue_def)
  with on_port_result [of "vhci_recv_ret_submit h k hk pdu", OF r _ len] show ?thesis
    by (intro exI [of _ ?c] exI [of _ w1] exI [of _ ?ub]) (use len in simp)
qed

theorem short_result_strands_urb_witness:
  "\<exists>c' w' ub'. on_port 0 (vhci_recv_ret_submit Little sim_k sim_hc result_pdu) sent_hcd (sim0\<lparr>sim_in := [[9]]\<rparr>) = (c', w') \<and>
    vh_given c' = vh_given sent_hcd \<and> vh_urbs c' 100 = Some ub' \<and> hu_hcpriv ub' = None \<and> vd_priv_rx (vdevs c' ! 0) = [] \<and>
    vhci_urb_dequeue sim_k sim_hc 100 0 c' sim0 = (0, c', sim0)"
proof -
  obtain w0 where r: "vhci_reach Little sim_k sim_hc [(100, 0)] sent_hcd w0" using sent_hcd_reach by blast
  have p: "vp_urb priv_demo = 100" "vp_seqnum priv_demo = 1" by (simp_all add: priv_demo_def)
  have b: "transfer_buffer (hu_urb ctrl_demo) = Some (replicate 8 0)" by (simp add: ctrl_demo_def)
  from short_result_strands_urb [OF r _ _ _ sent_hcd_fields(3) _ _ _ sim_recv_stream
      sent_hcd_fields(4), of "result_pdu" "replicate 8 0" "sim0\<lparr>sim_in := [[9]]\<rparr>" 0 sim0]
    p b sent_hcd_fields result_pdu_fields
  show ?thesis by (simp add: VHCI_NPORTS_def) blast
qed

text \<open>A number that is not the sign-extended counter names no request.\<close>

lemma no_request_beyond:
  assumes "vhci_inv c" and "i < VHCI_NPORTS" and "vh_issued c < 2 ^ 32" and "2 ^ 31 \<le> n" and "n < 2 ^ 32"
  shows "\<forall>q \<in> set (vd_priv_rx (vdevs c ! i)). vp_seqnum q \<noteq> ucast (ucast (seq_of n) :: u32)"
proof (intro ballI notI)
  fix q assume q: "q \<in> set (vd_priv_rx (vdevs c ! i))" and e: "vp_seqnum q = ucast (ucast (seq_of n) :: u32)"
  have ok: "privs_ok (vdev_privs (vdevs c ! i) @ others i (vdevs c)) (vh_urbs c) (vh_next c) (vh_seqnum c) (vh_issued c)"
    using port_inv_here [OF assms(1,2)] by (simp add: port_inv_def)
  obtain m where m: "m \<le> vh_issued c" "vp_seqnum q = seq_of m"
    using privs_okD(6) [OF ok, of q] q by (auto simp: vdev_privs_def)
  have id: "(ucast (ucast x :: u64) :: u32) = x" for x :: u32 by (rule bit_word_eqI) (simp add: bit_simps)
  have u: "(ucast (seq_of m) :: u32) = ucast (seq_of n)"
    using arg_cong [OF e, of "\<lambda>x. ucast x :: u32"] m(2) id by simp
  then have "(ucast (ucast (seq_of m) :: u32) :: u64) = seq_of m" using e m(2) by simp
  then have "m < 2 ^ 31" using seq_wire [of m] m(1) assms(3) by simp
  moreover have "(of_nat m :: s32) = of_nat n" using u by (simp add: seq_of_def scast_back)
  ultimately show False using assms(4,5) by (simp add: word_of_nat_eq_iff take_bit_nat_eq_self)
qed

lemma unlink_first_misses: "\<forall>x \<in> set xs. \<not> P x \<Longrightarrow> unlink_first P xs = (None, xs)"
  by (induction xs) auto

text \<open>A result whose number no request on the port carries.\<close>

lemma unknown_result:
  assumes "\<forall>q \<in> set (vd_priv_rx d). vp_seqnum q \<noteq> ucast (seqnum (base pdu))"
  shows "vhci_recv_ret_submit h k hk pdu d c w = (usbip_event_add VDEV_EVENT_ERROR_TCP d, c, w)"
  using unlink_first_misses [OF assms]
  by (simp add: vhci_recv_ret_submit_def pickup_urb_and_free_priv_def)

text \<open>What queueing a request does.\<close>

lemma tx_urb_queues:
  assumes "vhci_tx_urb k a ub c w = (c', w')" and "get_vdev c (hu_dev ub) = Some i" and "fst (kzalloc k 40 w)"
    and "length (vdevs c) = VHCI_NPORTS"
  shows "\<exists>p. vp_urb p = a \<and> vp_seqnum p = scast (vh_seqnum c + 1) \<and> vh_issued c' = Suc (vh_issued c) \<and>
    vdevs c' = (vdevs c)[i := (vdevs c ! i)\<lparr>vd_priv_tx := vd_priv_tx (vdevs c ! i) @ [p]\<rparr>]"
proof -
  obtain w1 where k: "kzalloc k 40 w = (True, w1)" using assms(3) by (cases "kzalloc k 40 w") auto
  show ?thesis
    using assms(1,2) k
    by (intro exI [of _ "\<lparr>vp_id = vh_next c, vp_seqnum = scast (vh_seqnum c + 1), vp_vdev = i, vp_urb = a\<rparr>"])
      (auto simp: vhci_tx_urb_def next_seqnum_def Let_def put_hurb_def set_vdev_def)
qed

text \<open>C37. The numbers of requests. The counter is an \<open>int\<close>, a request keeps it in an \<open>unsigned long\<close>
  with the sign extended, and 32 bits of it cross the network. A request is queued as the \<open>n\<close>-th
  number taken, with fewer than \<open>2^32\<close> numbers taken in all, and sent; its result, with the number
  the request was sent with, arrives. For \<open>n < 2^31\<close> it finds the urb of the request. From then on
  it finds none: the connection is marked broken, and nothing is given back.\<close>

theorem seqnum_matches_until:
  assumes "vhci_reach h k hk as c0 w0" and "vh_urbs c0 a = None" and "hu_hcpriv ub = None"
    and "c = put_hurb a ub c0" and "n = Suc (vh_issued c0)" and "n < 2 ^ 32"
    and "get_vdev c (hu_dev ub) = Some i" and "fst (kzalloc k 40 w)" and "vhci_tx_urb k a ub c w = (c1, w1)"
    and "d = vdevs c1 ! i" and "p = last (vd_priv_tx d)"
    and "c2 = set_vdev i (d\<lparr>vd_priv_tx := [], vd_priv_rx := vd_priv_rx d @ vd_priv_tx d\<rparr>) c1"
    and "seqnum (base pdu) = seqnum (base (setup_cmd_submit_pdu h zero_header p dev u))"
  shows "if n < 2 ^ 31 then fst (pickup_urb_and_free_priv (vdevs c2 ! i) (seqnum (base pdu)) c2) = Some a
    else vhci_recv_ret_submit h k hk pdu (vdevs c2 ! i) c2 w2 =
      (usbip_event_add VDEV_EVENT_ERROR_TCP (vdevs c2 ! i), c2, w2)"
proof -
  have I0: "vhci_inv c" unfolding assms(4)
    using inv_hand_over [OF _ assms(2,3)] vhci_reach_inv [OF assms(1)] by blast
  have i: "i < VHCI_NPORTS" by (rule get_vdev_bound [OF assms(7)])
  have len: "length (vdevs c) = VHCI_NPORTS" using I0 by (simp add: vhci_inv_def)
  obtain p' where p': "vp_urb p' = a" "vp_seqnum p' = scast (vh_seqnum c + 1)" "vh_issued c1 = Suc (vh_issued c)"
    "vdevs c1 = (vdevs c)[i := (vdevs c ! i)\<lparr>vd_priv_tx := vd_priv_tx (vdevs c ! i) @ [p']\<rparr>]"
    using tx_urb_queues [OF assms(9,7,8) len] by blast
  have pp: "p = p'" using p'(4) i len assms(10,11) by simp
  have I1: "vhci_inv c1" using tx_urb_inv [OF I0 _ assms(3,9)] by (simp add: assms(4) put_hurb_def)
  have I2: "vhci_inv c2" unfolding assms(12)
  proof (rule inv_vdev [OF I1 i])
    show "vdev_ok i (d\<lparr>vd_priv_tx := [], vd_priv_rx := vd_priv_rx d @ vd_priv_tx d\<rparr>)"
      using inv_vdev_ok [OF I1 i] by (auto simp: assms(10) vdev_ok_def vdev_privs_def)
  qed (simp add: assms(10) vdev_privs_def)
  have isd: "vh_issued c2 = n" using p'(3) assms(4,5,12) by (simp add: put_hurb_def)
  have "privs_ok (all_vprivs c) (vh_urbs c) (vh_next c) (vh_seqnum c) (vh_issued c)"
    using I0 by (simp add: vhci_inv_def)
  from privs_okD(5) [OF this] have sq: "vp_seqnum p = seq_of n"
    using p'(2) pp assms(4,5) by (simp add: seq_of_def put_hurb_def add.commute)
  have wire: "seqnum (base pdu) = ucast (vp_seqnum p)"
    using assms(13) by (simp add: setup_cmd_submit_pdu_def usbip_pack_pdu_def usbip_pack_cmd_submit_def put_cmd_submit_def
        Let_def split: option.split)
  have "length (vdevs c1) = VHCI_NPORTS" using I1 by (simp add: vhci_inv_def)
  then have rx: "vd_priv_rx (vdevs c2 ! i) = vd_priv_rx d @ vd_priv_tx d" using i assms(12) by simp
  have "vd_priv_tx d \<noteq> []" using p'(4) i len assms(10) by simp
  then have p: "p \<in> set (vd_priv_rx (vdevs c2 ! i))" using rx assms(11) by simp
  show ?thesis
  proof (cases "n < 2 ^ 31")
    case True
    then have l: "vh_issued c2 < 2 ^ 31" using isd by simp
    obtain x where x: "vh_urbs c2 (vp_urb p) = Some x" using priv_rx_seq(2) [OF I2 i p l] by blast
    have "pickup_urb_and_free_priv (vdevs c2 ! i) (seqnum (base pdu)) c2 =
        (Some (vp_urb p), (vdevs c2 ! i)\<lparr>vd_priv_rx := remove1 p (vd_priv_rx (vdevs c2 ! i))\<rparr>,
         put_hurb (vp_urb p) (x\<lparr>hu_hcpriv := None\<rparr>) c2)"
      unfolding wire by (rule pickup_sent [OF I2 i p l x])
    then show ?thesis using True p'(1) pp by simp
  next
    case False
    have "\<forall>q \<in> set (vd_priv_rx (vdevs c2 ! i)). vp_seqnum q \<noteq> ucast (ucast (seq_of n) :: u32)"
      by (rule no_request_beyond [OF I2 i]) (use False isd assms(6) in simp_all)
    then show ?thesis using unknown_result [of "vdevs c2 ! i" pdu h k hk c2 w2] False wire sq by simp
  qed
qed

text \<open>Every cancellation takes a number of its own, so that any counter can be reached: the first request
  of an enumeration is cancelled \<open>n\<close> times, then a second request is queued and sent.\<close>

definition busy_hcd :: "nat \<Rightarrow> vhci_unlink list \<Rightarrow> vhci_hcd" where
  "busy_hcd n L = enum_demo\<lparr>vh_seqnum := of_nat (Suc n), vh_issued := Suc n,
     vdevs := vdev_att\<lparr>vd_udev := Some 7, vd_priv_tx := [priv_demo], vd_unlink_tx := L\<rparr> # map vdev_demo [1..<8]\<rparr>"

lemma busy_hcd_reach: "\<exists>L. vhci_reach h sim_k sim_hc [(100, 0)] (busy_hcd n L) sim0"
proof (induction n)
  case 0
  have "busy_hcd 0 [] = enum_demo" by (simp add: busy_hcd_def enum_demo_def vdev_att_def vdev_demo_def)
  then show ?case using enum_demo_reach by metis
next
  case (Suc n)
  then obtain L where r: "vhci_reach h sim_k sim_hc [(100, 0)] (busy_hcd n L) sim0" by blast
  let ?L = "L @ [\<lparr>vu_seqnum = scast (of_nat (Suc (Suc n)) :: s32), vu_unlink_seqnum = 1\<rparr>]"
  have p: "priv_at (busy_hcd n L) 0 = Some priv_demo"
    by (simp add: priv_at_def all_vprivs_def vdev_privs_def busy_hcd_def priv_demo_def vdev_att_def vdev_demo_def)
  have "vhci_urb_dequeue sim_k sim_hc 100 0 (busy_hcd n L) sim0 = (0, busy_hcd (Suc n) ?L, sim0)"
    using p by (simp add: vhci_urb_dequeue_def busy_hcd_def enum_demo_def priv_demo_def vdev_att_def next_seqnum_def
        set_vdev_def add.commute Let_def)
  moreover have "vh_urbs (busy_hcd n L) 100 = Some (ctrl_demo\<lparr>hu_hcpriv := Some 0\<rparr>)"
    by (simp add: busy_hcd_def enum_demo_def)
  ultimately have "vhci_reach h sim_k sim_hc [(100, 0)] (busy_hcd (Suc n) ?L) sim0"
    using vhci_reach.dequeue [OF r] by blast
  then show ?case by blast
qed

definition second_priv :: "nat \<Rightarrow> vhci_priv" where
  "second_priv n = \<lparr>vp_id = 1, vp_seqnum = scast (of_nat (Suc (Suc n)) :: s32), vp_vdev = 0, vp_urb = 200\<rparr>"

definition second_queued :: "nat \<Rightarrow> vhci_unlink list \<Rightarrow> vhci_hcd" where
  "second_queued n L = fst (vhci_tx_urb sim_k 200 ctrl_demo (put_hurb 200 ctrl_demo (busy_hcd n L)) sim0)"

definition second_sent :: "nat \<Rightarrow> vhci_unlink list \<Rightarrow> vhci_hcd" where
  "second_sent n L = set_vdev 0 ((vdevs (second_queued n L) ! 0)\<lparr>vd_priv_tx := [],
     vd_priv_rx := [priv_demo, second_priv n]\<rparr>) (second_queued n L)"

lemma second_queued_run:
  "get_vdev (put_hurb 200 ctrl_demo (busy_hcd n L)) 7 = Some 0"
  "vhci_tx_urb sim_k 200 ctrl_demo (put_hurb 200 ctrl_demo (busy_hcd n L)) sim0 = (second_queued n L, sim0)"
  "vd_priv_tx (vdevs (second_queued n L) ! 0) = [priv_demo, second_priv n]"
  "vd_priv_rx (vdevs (second_queued n L) ! 0) = []"
proof -
  let ?c = "put_hurb 200 ctrl_demo (busy_hcd n L)"
  show g: "get_vdev ?c 7 = Some 0"
    by (simp add: get_vdev_def VHCI_NPORTS_def upt_conv_Cons busy_hcd_def put_hurb_def)
  then have g': "get_vdev ?c (hu_dev ctrl_demo) = Some 0" by (simp add: ctrl_demo_def)
  show "vhci_tx_urb sim_k 200 ctrl_demo ?c sim0 = (second_queued n L, sim0)"
    using g' by (simp add: second_queued_def vhci_tx_urb_def Let_def split: prod.split)
  show "vd_priv_tx (vdevs (second_queued n L) ! 0) = [priv_demo, second_priv n]"
    "vd_priv_rx (vdevs (second_queued n L) ! 0) = []"
    using g' by (simp_all add: second_queued_def vhci_tx_urb_def Let_def next_seqnum_def put_hurb_def set_vdev_def
        busy_hcd_def enum_demo_def second_priv_def vdev_att_def vdev_demo_def add.commute)
qed

text \<open>With one number taken before, the result of the second request finds it; with \<open>2^31 - 1\<close> taken
  before, it breaks the connection.\<close>

theorem seqnum_matches_until_witness:
  "(\<exists>L. fst (pickup_urb_and_free_priv (vdevs (second_sent 0 L) ! 0) 2 (second_sent 0 L)) = Some 200) \<and>
   (\<exists>L. vhci_reach Little sim_k sim_hc [(100, 0)] (busy_hcd (2 ^ 31 - 2) L) sim0 \<and>
     vhci_recv_ret_submit Little sim_k sim_hc (zero_header\<lparr>base := (base zero_header)\<lparr>seqnum := 2 ^ 31\<rparr>\<rparr>)
       (vdevs (second_sent (2 ^ 31 - 2) L) ! 0) (second_sent (2 ^ 31 - 2) L) sim0 =
     (usbip_event_add VDEV_EVENT_ERROR_TCP (vdevs (second_sent (2 ^ 31 - 2) L) ! 0), second_sent (2 ^ 31 - 2) L, sim0))"
proof -
  have wire: "seqnum (base (setup_cmd_submit_pdu Little zero_header p dev u)) = ucast (vp_seqnum p)" for p dev u
    by (simp add: setup_cmd_submit_pdu_def usbip_pack_pdu_def usbip_pack_cmd_submit_def put_cmd_submit_def
        Let_def split: option.split)
  have run: "if Suc (Suc n) < 2 ^ 31
     then fst (pickup_urb_and_free_priv (vdevs (second_sent n L) ! 0) (seqnum (base pdu)) (second_sent n L)) = Some 200
     else vhci_recv_ret_submit Little sim_k sim_hc pdu (vdevs (second_sent n L) ! 0) (second_sent n L) sim0 =
       (usbip_event_add VDEV_EVENT_ERROR_TCP (vdevs (second_sent n L) ! 0), second_sent n L, sim0)"
    if r: "vhci_reach Little sim_k sim_hc [(100, 0)] (busy_hcd n L) sim0" and n: "Suc (Suc n) < 2 ^ 32"
      and s: "seqnum (base pdu) = ucast (vp_seqnum (second_priv n))" for n L pdu
  proof (rule seqnum_matches_until [OF r _ _ refl _ n, where a = 200 and ub = ctrl_demo and i = 0])
    show "get_vdev (put_hurb 200 ctrl_demo (busy_hcd n L)) (hu_dev ctrl_demo) = Some 0"
      using second_queued_run(1) by (simp add: ctrl_demo_def)
    show "seqnum (base pdu) = seqnum (base (setup_cmd_submit_pdu Little zero_header (second_priv n) 0 (new_urb 0)))"
      using s wire by simp
    show "second_sent n L = set_vdev 0 ((vdevs (second_queued n L) ! 0)\<lparr>vd_priv_tx := [],
        vd_priv_rx := vd_priv_rx (vdevs (second_queued n L) ! 0) @ vd_priv_tx (vdevs (second_queued n L) ! 0)\<rparr>) (second_queued n L)"
      by (simp add: second_sent_def second_queued_run(3,4))
    show "second_priv n = last (vd_priv_tx (vdevs (second_queued n L) ! 0))" by (simp add: second_queued_run(3))
  qed (use second_queued_run(2) in \<open>simp_all add: busy_hcd_def enum_demo_def ctrl_demo_def\<close>)
  obtain L where L: "vhci_reach Little sim_k sim_hc [(100, 0)] (busy_hcd 0 L) sim0" using busy_hcd_reach by blast
  have small: "fst (pickup_urb_and_free_priv (vdevs (second_sent 0 L) ! 0) 2 (second_sent 0 L)) = Some 200"
    using run [OF L, of "zero_header\<lparr>base := (base zero_header)\<lparr>seqnum := 2\<rparr>\<rparr>"] by (simp add: second_priv_def)
  obtain M where M: "vhci_reach Little sim_k sim_hc [(100, 0)] (busy_hcd (2 ^ 31 - 2) M) sim0" using busy_hcd_reach by blast
  have n: "Suc (Suc (2 ^ 31 - 2)) = (2 ^ 31 :: nat)" by simp
  have "vhci_recv_ret_submit Little sim_k sim_hc (zero_header\<lparr>base := (base zero_header)\<lparr>seqnum := 2 ^ 31\<rparr>\<rparr>)
       (vdevs (second_sent (2 ^ 31 - 2) M) ! 0) (second_sent (2 ^ 31 - 2) M) sim0 =
     (usbip_event_add VDEV_EVENT_ERROR_TCP (vdevs (second_sent (2 ^ 31 - 2) M) ! 0), second_sent (2 ^ 31 - 2) M, sim0)"
    using run [OF M, of "zero_header\<lparr>base := (base zero_header)\<lparr>seqnum := 2 ^ 31\<rparr>\<rparr>"] unfolding n second_priv_def
    by simp
  with small M show ?thesis by blast
qed

lemma port_number:
  assumes "hu_portnum ub = of_nat (Suc i)" and "i < VHCI_NPORTS"
  shows "hu_portnum ub \<noteq> 0" and "unat (hu_portnum ub) - 1 = i"
proof -
  have "unat (of_nat (Suc i) :: u8) = Suc i"
    using assms(2) by (simp add: VHCI_NPORTS_def unat_of_nat take_bit_nat_eq_self del: of_nat_Suc)
  then show "hu_portnum ub \<noteq> 0" "unat (hu_portnum ub) - 1 = i" using assms(1) by auto
qed

text \<open>Two paths of \<open>vhci_urb_enqueue\<close> give the urb back and report an error to the caller as well:
  when the urb could not be linked to its endpoint, and when a request to device number zero
  has no setup packet. In the first case the urb still carries \<open>-EINPROGRESS\<close>.\<close>

theorem enqueue_failure_gives_back:
  assumes "vh_urbs c a = Some ub" and "u_status (hu_urb ub) = - EINPROGRESS"
    and "transfer_buffer (hu_urb ub) \<noteq> None" and "hu_portnum ub = of_nat (Suc i)" and "i < VHCI_NPORTS"
    and "length (vdevs c) = VHCI_NPORTS" and "ud_status (vdevs c ! i) \<in> {VDEV_ST_NOTASSIGNED, VDEV_ST_USED}"
    and "usb_hcd_link_urb_to_ep hk a w = (ret, w1)"
    and "ret \<noteq> 0 \<or> usb_pipedevice (u_pipe (hu_urb ub)) = 0 \<and> setup_packet (hu_urb ub) = None"
  shows "\<exists>w'. vhci_urb_enqueue k hk a c w =
    (if ret \<noteq> 0 then ret else - EINVAL,
     c\<lparr>vh_urbs := (vh_urbs c)(a := None), vh_given := vh_given c @ [(a, hu_urb ub, - EINPROGRESS)]\<rparr>, w')"
proof -
  note port = port_number [OF assms(4,5)]
  have v: "port_to_vdev c (unat (hu_portnum ub) - 1) = Some (vdevs c ! i)"
    using assms(5,6) port by (simp add: port_to_vdev_def)
  have st: "ud_status (vdevs c ! i) \<noteq> VDEV_ST_NULL" "ud_status (vdevs c ! i) \<noteq> VDEV_ST_ERROR" using assms(7) by auto
  show ?thesis
    using assms(1,2,3,8,9) port v st
    by (auto simp: vhci_urb_enqueue_def enumerate_def giveback_urb_def unlink_and_giveback_def Let_def)
qed

theorem enqueue_failure_gives_back_witness:
  "\<exists>w'. vhci_urb_enqueue sim_k sim_hc 5 (put_hurb 5 (ctrl_demo\<lparr>hu_urb := (hu_urb ctrl_demo)\<lparr>setup_packet := None\<rparr>\<rparr>) att_demo) sim0 =
    (- EINVAL, att_demo\<lparr>vh_urbs := (vh_urbs att_demo)(5 := None),
       vh_given := [(5, (hu_urb ctrl_demo)\<lparr>setup_packet := None\<rparr>, - EINPROGRESS)]\<rparr>, w')"
proof -
  let ?ub = "ctrl_demo\<lparr>hu_urb := (hu_urb ctrl_demo)\<lparr>setup_packet := None\<rparr>\<rparr>"
  have c: "vh_given att_demo = []" by (simp add: att_demo_run(2) hcd_demo_eq new_hcd_def)
  show ?thesis
    using enqueue_failure_gives_back [of "put_hurb 5 ?ub att_demo" 5 ?ub 0 sim_hc sim0 0 sim0 sim_k] c
    by (simp add: ctrl_demo_def att_demo_run(2) VHCI_NPORTS_def vdev_att_def usb_pipedevice_def put_hurb_def)
qed

text \<open>A \<open>SET_ADDRESS\<close> request is answered without the network: the port becomes used by the urb's
  device, the urb is given back with status zero, and nothing is queued.\<close>

theorem set_address_answered_locally:
  assumes "vh_urbs c a = Some ub" and "u_status (hu_urb ub) = - EINPROGRESS" and "transfer_buffer_length (hu_urb ub) = 0"
    and "hu_portnum ub = of_nat (Suc i)" and "i < VHCI_NPORTS" and "length (vdevs c) = VHCI_NPORTS"
    and "ud_status (vdevs c ! i) \<in> {VDEV_ST_NOTASSIGNED, VDEV_ST_USED}"
    and "usb_hcd_link_urb_to_ep hk a w = (0, w1)" and "usb_pipedevice (u_pipe (hu_urb ub)) = 0"
    and "usb_pipetype (u_pipe (hu_urb ub)) = PIPE_CONTROL" and "setup_packet (hu_urb ub) = Some sp"
    and "sp ! 1 = USB_REQ_SET_ADDRESS"
  shows "\<exists>c' w'. vhci_urb_enqueue k hk a c w = (0, c', w') \<and>
    vh_given c' = vh_given c @ [(a, (hu_urb ub)\<lparr>u_status := 0\<rparr>, 0)] \<and> vh_urbs c' a = None \<and>
    vdevs c' = (vdevs c)[i := (vdevs c ! i)\<lparr>vd_udev := Some (hu_dev ub), ud_status := VDEV_ST_USED\<rparr>]"
proof -
  note port = port_number [OF assms(4,5)]
  have v: "port_to_vdev c (unat (hu_portnum ub) - 1) = Some (vdevs c ! i)"
    using assms(5,6) port by (simp add: port_to_vdev_def)
  have st: "ud_status (vdevs c ! i) \<noteq> VDEV_ST_NULL" "ud_status (vdevs c ! i) \<noteq> VDEV_ST_ERROR" using assms(7) by auto
  show ?thesis
    using assms(1,2,3,8-12) port v st
    by (simp add: vhci_urb_enqueue_def enumerate_def take_udev_def giveback_urb_def unlink_and_giveback_def
        set_vdev_def put_hurb_def Let_def)
qed

definition addr_demo :: hcd_urb where
  "addr_demo = ctrl_demo\<lparr>hu_urb := (hu_urb ctrl_demo)\<lparr>transfer_buffer_length := 0, setup_packet := Some [0, 5, 3, 0, 0, 0, 0, 0]\<rparr>\<rparr>"

theorem set_address_answered_locally_witness:
  "\<exists>c' w'. vhci_urb_enqueue sim_k sim_hc 5 (put_hurb 5 addr_demo att_demo) sim0 = (0, c', w') \<and>
    ud_status (vdevs c' ! 0) = VDEV_ST_USED \<and> map fst (vh_given c') = [5]"
proof -
  have c: "vh_given att_demo = []" "length (vdevs att_demo) = 8" by (simp_all add: att_demo_run(2) hcd_demo_eq new_hcd_def)
  have "\<exists>c' w'. vhci_urb_enqueue sim_k sim_hc 5 (put_hurb 5 addr_demo att_demo) sim0 = (0, c', w') \<and>
    vh_given c' = vh_given (put_hurb 5 addr_demo att_demo) @ [(5, (hu_urb addr_demo)\<lparr>u_status := 0\<rparr>, 0)] \<and> vh_urbs c' 5 = None \<and>
    vdevs c' = (vdevs (put_hurb 5 addr_demo att_demo))[0 := (vdevs (put_hurb 5 addr_demo att_demo) ! 0)\<lparr>vd_udev := Some (hu_dev addr_demo), ud_status := VDEV_ST_USED\<rparr>]"
    by (rule set_address_answered_locally [where sp = "[0, 5, 3, 0, 0, 0, 0, 0]" and ?w1.0 = sim0])
      (simp_all add: c VHCI_NPORTS_def addr_demo_def ctrl_demo_def att_demo_run(2) vdev_att_def usb_pipedevice_def
        usb_pipetype_def pipe_type_defs USB_REQ_SET_ADDRESS_def)
  then show ?thesis using c by auto
qed

end
