(* ===== verification/VhciHubProps.thy ===== *)
theory VhciHubProps
  imports VhciErr
begin

text \<open>
  Properties of the emulated root hub: the change bitmap, the bounds of the class requests, and the
  course of a port reset.
\<close>

section \<open>The change bitmap\<close>

definition port_changed :: "u32 list \<Rightarrow> nat \<Rightarrow> bool" where
  "port_changed ps i \<longleftrightarrow> ps ! i AND PORT_C_MASK \<noteq> 0"

lemma bit_or_push: "m < 8 \<Longrightarrow> bit ((x :: byte) OR push_bit m 1) j \<longleftrightarrow> bit x j \<or> j = m"
  by (auto simp: bit_simps)

lemma hub_status_fold:
  assumes "n \<le> 8"
  shows "\<exists>buf ch. fold (hub_status_port ps) [0..<n] (replicate 2 0, False) = (buf, ch) \<and> length buf = 2 \<and>
    (\<forall>j < 16. bit (buf ! (j div 8)) (j mod 8) \<longleftrightarrow> 0 < j \<and> j \<le> n \<and> port_changed ps (j - 1)) \<and>
    (ch \<longleftrightarrow> (\<exists>i < n. port_changed ps i))"
  using assms
proof (induction n)
  case 0
  have "(replicate 2 (0 :: byte)) ! (j div 8) = 0" if "j < 16" for j using that by simp
  then show ?case by (intro exI [of _ "replicate 2 0"] exI [of _ False]) auto
next
  case (Suc n)
  then obtain buf ch where f: "fold (hub_status_port ps) [0..<n] (replicate 2 0, False) = (buf, ch)" "length buf = 2"
    "\<forall>j < 16. bit (buf ! (j div 8)) (j mod 8) \<longleftrightarrow> 0 < j \<and> j \<le> n \<and> port_changed ps (j - 1)"
    "ch \<longleftrightarrow> (\<exists>i < n. port_changed ps i)" by auto
  show ?case
  proof (cases "port_changed ps n")
    case False
    then have "fold (hub_status_port ps) [0..<Suc n] (replicate 2 0, False) = (buf, ch)"
      using f(1) by (simp add: hub_status_port_def port_changed_def)
    with f(2-4) False show ?thesis by (auto simp: less_Suc_eq le_Suc_eq)
  next
    case True
    let ?b = "buf[(n + 1) div 8 := buf ! ((n + 1) div 8) OR push_bit ((n + 1) mod 8) 1]"
    have e: "fold (hub_status_port ps) [0..<Suc n] (replicate 2 0, False) = (?b, True)"
      using f(1) True by (simp add: hub_status_port_def port_changed_def)
    have "bit (?b ! (j div 8)) (j mod 8) \<longleftrightarrow> bit (buf ! (j div 8)) (j mod 8) \<or> j = n + 1" if "j < 16" for j
    proof (cases "j div 8 = (n + 1) div 8")
      case True
      have "j = n + 1 \<longleftrightarrow> j mod 8 = (n + 1) mod 8" using True by (metis div_mult_mod_eq)
      with True that f(2) bit_or_push [of "(n + 1) mod 8" "buf ! ((n + 1) div 8)" "j mod 8"] show ?thesis by simp
    next
      case False
      then show ?thesis by auto
    qed
    with f(2,3) True e show ?thesis by (auto simp: le_Suc_eq)
  qed
qed

text \<open>C38. The status change bitmap is two bytes long; bit \<open>i + 1\<close> is set exactly when port \<open>i\<close> has a
  change bit pending, and the call reports two bytes exactly when some port has.\<close>

theorem hub_status_bitmap:
  assumes "hcd_accessible c"
  shows "\<exists>r buf w'. vhci_hub_status hk c w = (r, buf, w') \<and> length buf = 2 \<and>
    (\<forall>i < VHCI_NPORTS. bit (buf ! ((i + 1) div 8)) ((i + 1) mod 8) \<longleftrightarrow> port_changed (port_status c) i) \<and>
    \<not> bit (buf ! 0) 0 \<and> r = (if \<exists>i < VHCI_NPORTS. port_changed (port_status c) i then 2 else 0)"
proof -
  obtain buf ch where f: "fold (hub_status_port (port_status c)) [0..<8] (replicate 2 0, False) = (buf, ch)" "length buf = 2"
    "\<forall>j < 16. bit (buf ! (j div 8)) (j mod 8) \<longleftrightarrow> 0 < j \<and> j \<le> 8 \<and> port_changed (port_status c) (j - 1)"
    "ch \<longleftrightarrow> (\<exists>i < 8. port_changed (port_status c) i)"
    using hub_status_fold [of 8 "port_status c"] by auto
  have "vhci_hub_status hk c w = (if ch then 2 else 0, buf,
      if hcd_state c = HC_STATE_SUSPENDED \<and> ch then usb_hcd_resume_root_hub hk w else w)"
    using assms f(1) by (simp add: vhci_hub_status_def VHCI_NPORTS_def Let_def numeral_2_eq_2)
  moreover have "bit (buf ! ((i + 1) div 8)) ((i + 1) mod 8) \<longleftrightarrow> port_changed (port_status c) i" if "i < 8" for i
    using f(3) [rule_format, of "i + 1"] that by simp
  moreover have "\<not> bit (buf ! 0) 0" using f(3) [rule_format, of 0] by simp
  ultimately show ?thesis using f(2,4) by (simp add: VHCI_NPORTS_def)
qed

theorem hub_status_bitmap_witness:
  "\<exists>r buf w'. vhci_hub_status sim_hc att_demo sim0 = (r, buf, w') \<and> bit (buf ! 0) 1 \<and> r = 2"
proof -
  have "hcd_accessible att_demo" "port_changed (port_status att_demo) 0"
    by (simp_all add: att_demo_run(2) hcd_demo_eq new_hcd_def port_changed_def PORT_C_MASK_def)
  from hub_status_bitmap [OF this(1), of sim_hc sim0] this(2) show ?thesis by (fastforce simp: VHCI_NPORTS_def)
qed

section \<open>Bounds of the class requests\<close>

lemma fault_upd_port: "i < length (port_status c) \<Longrightarrow> vh_oops (upd_port i f c) = vh_oops c"
  by (simp add: upd_port_def)

lemma vh_oops_fault [simp]: "vh_oops (vhci_fault c)" by (simp add: vhci_fault_def)

text \<open>A request to the hub accesses memory outside its arrays, or shifts by more than the width of
  an \<open>int\<close>, exactly for a port request whose index names no port (where only an error message is
  printed), and for a feature number of 32 or more.\<close>

theorem hub_control_bounds:
  assumes "hcd_accessible c" and "length (port_status c) = VHCI_NPORTS" and "\<not> vh_oops c"
    and "vhci_hub_control h hk t v x c w = (r, buf, c')" and "port = uint (ucast x :: u8)"
  shows "vh_oops c' \<longleftrightarrow>
    (t = ClearPortFeature \<or> t = GetPortStatus \<or> t = SetPortFeature \<and> v \<noteq> USB_PORT_FEAT_SUSPEND) \<and>
      (port < 1 \<or> port > 8) \<or>
    (t = ClearPortFeature \<or> t = SetPortFeature) \<and> 32 \<le> unat v"
proof -
  let ?i = "nat (port - 1)"
  have i: "?i < length (port_status c)" if "1 \<le> port" "port \<le> 8" using that assms(2) by (simp add: VHCI_NPORTS_def)
  have clr: "vh_oops (clear_port_feature hk v ?i c w) \<longleftrightarrow> 32 \<le> unat v" if "1 \<le> port" "port \<le> 8"
    using i [OF that] assms(3) by (auto simp: clear_port_feature_def fault_upd_port port_feat_defs Let_def)
  have st: "vh_oops (set_port_feature hk v ?i c w) \<longleftrightarrow> 32 \<le> unat v" if "1 \<le> port" "port \<le> 8"
    using i [OF that] assms(3) by (auto simp: set_port_feature_def fault_upd_port port_feat_defs Let_def)
  have get: "\<not> vh_oops d" if "1 \<le> port" "port \<le> 8" "get_port_status h hk ?i c w = (b, d)" for b d
    using i [OF that(1,2)] assms(3) that(3)
    by (auto simp: get_port_status_def end_reset_def end_resume_def fault_upd_port Let_def split: if_splits)
  have small: "v = USB_PORT_FEAT_SUSPEND \<Longrightarrow> \<not> 32 \<le> unat v" by (simp add: port_feat_defs)
  have p: "0 \<le> port" using assms(5) by simp
  have bnd: "(0 \<le> port - 1 \<and> port - 1 < int VHCI_NPORTS) = (1 \<le> port \<and> port \<le> 8)" by (auto simp: VHCI_NPORTS_def)
  show ?thesis
    using assms(4) assms(1,3) clr st get small p
    unfolding vhci_hub_control_def Let_def assms(5) [symmetric] bnd
    by (auto simp: hub_request_defs split: if_splits prod.splits)
qed

theorem hub_control_bounds_witness:
  "vh_oops (snd (snd (vhci_hub_control Little sim_hc GetPortStatus 0 0 att_demo sim0))) \<and>
   \<not> vh_oops (snd (snd (vhci_hub_control Little sim_hc GetPortStatus 0 1 att_demo sim0)))"
proof -
  have c: "hcd_accessible att_demo" "length (port_status att_demo) = VHCI_NPORTS" "\<not> vh_oops att_demo"
    by (simp_all add: att_demo_run(2) hcd_demo_eq new_hcd_def VHCI_NPORTS_def)
  have "vh_oops (snd (snd (vhci_hub_control Little sim_hc GetPortStatus 0 x att_demo sim0))) \<longleftrightarrow>
      uint (ucast x :: u8) < 1 \<or> uint (ucast x :: u8) > 8" for x
  proof -
    obtain r b d where v: "vhci_hub_control Little sim_hc GetPortStatus 0 x att_demo sim0 = (r, b, d)" by (metis prod_cases3)
    from hub_control_bounds [OF c v refl] v show ?thesis by (simp add: hub_request_defs)
  qed
  then show ?thesis by simp
qed

section \<open>Resetting a port\<close>

lemma le32_halves:
  "mem16 h (cpu_to_le16 h (ucast s)) @ mem16 h (cpu_to_le16 h (ucast (drop_bit 16 s))) = bytes_le32 s"
  by (cases h) (auto simp: mem16_def cpu_to_le16_def bytes_le16_def bytes_be16_def bytes_le32_def bswap16_def
      bit_simps intro!: bit_word_eqI)

lemma and_stat_bits: "(s :: u32) AND USB_PORT_STAT_ENABLE = 0 \<longleftrightarrow> \<not> bit s 1"
  "s AND feat_bit USB_PORT_FEAT_RESET = 0 \<longleftrightarrow> \<not> bit s 4"
  using and_exp_eq_0_iff_not_bit [of s 1] and_exp_eq_0_iff_not_bit [of s 4]
  by (simp_all add: USB_PORT_STAT_ENABLE_def feat_bit_def USB_PORT_FEAT_RESET_def)

lemma bit_enable: "bit USB_PORT_STAT_ENABLE j \<longleftrightarrow> j = 1"
proof -
  have e: "USB_PORT_STAT_ENABLE = push_bit 1 1" by (simp add: USB_PORT_STAT_ENABLE_def)
  show ?thesis unfolding e by (auto simp only: bit_push_bit_iff bit_1_iff possible_bit_word) simp_all
qed

lemma bit_feat: "unat f < 32 \<Longrightarrow> bit (feat_bit f) j \<longleftrightarrow> j = unat f"
  by (auto simp: feat_bit_def bit_simps)

lemma end_reset_status:
  assumes "i < length (port_status c)" and "bit (port_status c ! i) 4"
  shows "port_status (end_reset hk i c w) ! i =
    (let s = port_status c ! i; t = (s OR feat_bit USB_PORT_FEAT_C_RESET) AND NOT (feat_bit USB_PORT_FEAT_RESET) in
     if time_after (jiffies hk w) (re_timeout c)
     then (if ud_status (vdevs c ! i) = VDEV_ST_NOTASSIGNED then t OR USB_PORT_STAT_ENABLE else t)
     else s)"
  using assms by (simp add: end_reset_def and_stat_bits upd_port_def Let_def)

text \<open>The course of a reset. After \<open>SetPortFeature(RESET)\<close> the port reports the reset, not enabled,
  until the time is up; the first \<open>GetPortStatus\<close> after that ends the reset, notes the change, and
  enables the port when a device is attached and has no address yet. The status is reported
  least significant byte first on every host.\<close>

theorem port_reset_course:
  assumes "hcd_accessible c" and "length (port_status c) = VHCI_NPORTS" and "i < VHCI_NPORTS"
    and "\<not> resuming c" and "x = of_nat (Suc i)"
    and "vhci_hub_control h hk SetPortFeature USB_PORT_FEAT_RESET x c w = (r1, b1, c1)"
    and "vhci_hub_control h hk GetPortStatus 0 x c1 w1 = (r2, b2, c2)"
  shows "r1 = 0 \<and> r2 = 0 \<and> b2 = bytes_le32 (port_status c2 ! i) \<and>
    (if time_after (jiffies hk w1) (jiffies hk w + msecs_to_jiffies hk 50)
     then \<not> bit (port_status c2 ! i) 4 \<and> bit (port_status c2 ! i) 20 \<and>
       (bit (port_status c2 ! i) 1 \<longleftrightarrow> ud_status (vdevs c ! i) = VDEV_ST_NOTASSIGNED)
     else bit (port_status c2 ! i) 4 \<and> \<not> bit (port_status c2 ! i) 1)"
proof -
  have "unat x = Suc i" using assms(3,5) by (simp add: VHCI_NPORTS_def unat_of_nat take_bit_nat_eq_self del: of_nat_Suc)
  moreover have "uint (ucast x :: u8) = int (unat (ucast x :: u8))" by simp
  moreover have "unat (ucast x :: u8) = Suc i"
    using calculation(1) assms(3) by (simp add: VHCI_NPORTS_def unsigned_ucast_eq take_bit_nat_eq_self)
  ultimately have x: "uint (ucast x :: u8) = int i + 1" "\<not> unat x > VHCI_NPORTS" "\<not> x < 1"
    using assms(3) by (simp_all add: VHCI_NPORTS_def word_less_nat_alt)
  let ?s = "port_status c ! i"
  let ?t = "(if ?s AND USB_PORT_STAT_ENABLE \<noteq> 0
     then ?s AND NOT (USB_PORT_STAT_ENABLE OR USB_PORT_STAT_LOW_SPEED OR USB_PORT_STAT_HIGH_SPEED) else ?s) OR feat_bit USB_PORT_FEAT_RESET"
  have i: "i < length (port_status c)" using assms(2,3) by simp
  have c1: "r1 = 0" "port_status c1 = (port_status c)[i := ?t]" "vdevs c1 = vdevs c" "\<not> resuming c1"
    "re_timeout c1 = jiffies hk w + msecs_to_jiffies hk 50" "hcd_accessible c1"
    using assms(1,4,6) x i assms(3)
    by (auto simp: vhci_hub_control_def hub_request_defs set_port_feature_def upd_port_def port_feat_defs Let_def VHCI_NPORTS_def)
  have t: "bit ?t 4" "\<not> bit ?t 1"
    by (auto simp: and_stat_bits bit_simps bit_feat bit_enable port_feat_defs)
  have i1: "i < length (port_status c1)" "port_status c1 ! i = ?t" using i c1(2) by simp_all
  have "r2 = 0" "b2 = bytes_le32 (port_status c2 ! i)" "c2 = end_reset hk i c1 w1"
    using assms(7) x c1(4,6) assms(3)
    by (auto simp: vhci_hub_control_def hub_request_defs get_port_status_def le32_halves end_resume_def Let_def VHCI_NPORTS_def)
  moreover have "bit (port_status c1 ! i) 4" "\<not> bit (port_status c1 ! i) 1" using t unfolding i1(2) by blast+
  ultimately show ?thesis
    using end_reset_status [OF i1(1), of hk w1] c1(1,3,5) unfolding Let_def
    by (simp add: bit_simps bit_feat bit_enable port_feat_defs)
qed

theorem port_reset_course_witness:
  "\<exists>r1 b1 c1 r2 b2 c2. vhci_hub_control Little sim_hc SetPortFeature USB_PORT_FEAT_RESET 1 att_demo sim0 = (r1, b1, c1) \<and>
    vhci_hub_control Little sim_hc GetPortStatus 0 1 c1 sim0 = (r2, b2, c2) \<and> r2 = 0 \<and> bit (port_status c2 ! 0) 4"
proof -
  obtain r1 b1 c1 where s: "vhci_hub_control Little sim_hc SetPortFeature USB_PORT_FEAT_RESET 1 att_demo sim0 = (r1, b1, c1)"
    by (metis prod_cases3)
  obtain r2 b2 c2 where g: "vhci_hub_control Little sim_hc GetPortStatus 0 1 c1 sim0 = (r2, b2, c2)"
    by (metis prod_cases3)
  have c: "hcd_accessible att_demo" "length (port_status att_demo) = VHCI_NPORTS" "\<not> resuming att_demo" "0 < VHCI_NPORTS"
    by (simp_all add: att_demo_run(2) hcd_demo_eq new_hcd_def VHCI_NPORTS_def)
  have "\<not> time_after (jiffies sim_hc sim0) (jiffies sim_hc sim0 + msecs_to_jiffies sim_hc 50)"
    by (simp add: time_after_def)
  with port_reset_course [OF c(1,2,4,3) _ s g] s g show ?thesis by auto
qed

end
