(* ===== verification/VhciHandler.thy ===== *)
theory VhciHandler
  imports VhciHubProps
begin

text \<open>
  The event handler run with the callbacks of the virtual host controller, and its attribute files.
\<close>

section \<open>The callbacks keep the contract of the event handler\<close>

lemma pickup_event: "pickup_urb_and_free_priv d s c = (r, d', c') \<Longrightarrow> ud_event d' = ud_event d"
  by (auto simp: pickup_urb_and_free_priv_def split: prod.splits option.splits)

lemma cleanup_one_event: "cleanup_one hk ul d c w = (d', c', w') \<Longrightarrow> ud_event d' = ud_event d"
  by (auto simp: cleanup_one_def split: prod.splits option.splits dest: pickup_event)

lemma unlink_cleanup_event: "unlink_cleanup_rx hk d c w = (d', c', w') \<Longrightarrow> ud_event d' = ud_event d"
proof (induction hk d c w arbitrary: d' c' w' rule: unlink_cleanup_rx.induct)
  case (1 hk d c w)
  show ?case
  proof (cases "vd_unlink_rx d")
    case Nil
    with "1.prems" show ?thesis by (simp add: unlink_cleanup_rx.simps [of hk d])
  next
    case (Cons ul uls)
    obtain d1 c1 w1 where o: "cleanup_one hk ul d c w = (d1, c1, w1)" by (metis prod_cases3)
    have "unlink_cleanup_rx hk (d1\<lparr>vd_unlink_rx := tl (vd_unlink_rx d1)\<rparr>) c1 w1 = (d', c', w')"
      using "1.prems" Cons o by (simp add: unlink_cleanup_rx.simps [of hk d])
    from "1.IH" [OF Cons o [symmetric] refl this] cleanup_one_event [OF o] show ?thesis by simp
  qed
qed

lemma vhci_shutdown_event: "vhci_shutdown_connection k hk d c w = (d', c', w') \<Longrightarrow> ud_event d' = ud_event d"
  by (auto simp: vhci_shutdown_connection_def vhci_device_unlink_cleanup_def Let_def split: prod.splits
      dest!: unlink_cleanup_event)

interpretation vhci_eh: eh_contract "vhci_eh_ops k hk" for k :: "'w kapi" and hk :: "'w hapi"
proof
  fix d :: vhci_device and cw :: "vhci_hcd \<times> 'w"
  obtain c w where cw: "cw = (c, w)" by fastforce
  show "ud_event (fst (eh_shutdown (vhci_eh_ops k hk) d cw)) = ud_event d"
    using vhci_shutdown_event [of k hk d c w] cw
    by (cases "vhci_shutdown_connection k hk d c w") (simp add: vhci_eh_ops_def)
  show "ud_event (fst (eh_reset (vhci_eh_ops k hk) d cw)) = ud_event d"
    using cw by (simp add: vhci_eh_ops_def vhci_device_reset_def Let_def)
  show "ud_event (fst (eh_unusable (vhci_eh_ops k hk) d cw)) = ud_event d"
    using cw by (simp add: vhci_eh_ops_def vhci_device_unusable_def)
qed

section \<open>Going down\<close>

text \<open>What a shutdown leaves of the port.\<close>

lemma unlink_cleanup_frame:
  "unlink_cleanup_rx hk d c w = (d', c', w') \<Longrightarrow>
   d' = d\<lparr>vd_priv_rx := vd_priv_rx d', vd_unlink_rx := []\<rparr> \<and> port_status c' = port_status c"
proof (induction hk d c w arbitrary: d' c' w' rule: unlink_cleanup_rx.induct)
  case (1 hk d c w)
  show ?case
  proof (cases "vd_unlink_rx d")
    case Nil
    with "1.prems" show ?thesis by (auto simp: unlink_cleanup_rx.simps [of hk d])
  next
    case (Cons ul uls)
    obtain d1 c1 w1 where o: "cleanup_one hk ul d c w = (d1, c1, w1)" by (metis prod_cases3)
    have f: "d1 = d\<lparr>vd_priv_rx := vd_priv_rx d1\<rparr>" "port_status c1 = port_status c"
      using o by (auto simp: cleanup_one_def pickup_urb_and_free_priv_def unlink_and_giveback_def giveback_urb_def
          set_urb_status_def vhci_fault_def put_hurb_def split: prod.splits option.splits)
    have "unlink_cleanup_rx hk (d1\<lparr>vd_unlink_rx := tl (vd_unlink_rx d1)\<rparr>) c1 w1 = (d', c', w')"
      using "1.prems" Cons o by (simp add: unlink_cleanup_rx.simps [of hk d])
    from "1.IH" [OF Cons o [symmetric] refl this] f show ?thesis by (metis (no_types, lifting) vhci_device.surjective vhci_device.update_convs(6) vhci_device.update_convs(8))
  qed
qed

lemma bit_connection: "bit USB_PORT_STAT_CONNECTION j \<longleftrightarrow> j = 0"
  by (simp add: USB_PORT_STAT_CONNECTION_def bit_1_iff)

lemma shutdown_leaves:
  assumes "port_inv i d c" and "vhci_shutdown_connection k hk d c w = (d', c', w')"
  shows "tcp_socket d' = None" and "tcp_rx d' = None" and "tcp_tx d' = None" and "vd_unlink_tx d' = []"
    and "vd_unlink_rx d' = []" and "\<not> bit (port_status c' ! i) 0" and "bit (port_status c' ! i) 16"
proof -
  obtain c2 w2 where s2: "vhci_stop_thread k (tcp_rx d) c
      (case tcp_socket d of None \<Rightarrow> w | Some s \<Rightarrow> kernel_sock_shutdown k s w) = (c2, w2)" by fastforce
  obtain c3 w3 where s3: "vhci_stop_thread k (tcp_tx d) c2 w2 = (c3, w3)" by fastforce
  let ?d4 = "d\<lparr>tcp_rx := None, tcp_tx := None, tcp_socket := None, vd_unlink_tx := []\<rparr>"
  obtain d5 c5 w5 where u: "unlink_cleanup_rx hk ?d4 c3
      (case tcp_socket d of None \<Rightarrow> w3 | Some s \<Rightarrow> fput_socket k s w3) = (d5, c5, w5)" by (metis prod_cases3)
  note F = unlink_cleanup_frame [OF u]
  have r: "d' = d5" "c' = fst (rh_port_disconnect hk (unat (vd_rhport d5)) c5 w5)"
    using assms(2) s2 s3 u
    by (auto simp: vhci_shutdown_connection_def vhci_device_unlink_cleanup_def Let_def split: prod.splits)
  then show "tcp_socket d' = None" "tcp_rx d' = None" "tcp_tx d' = None" "vd_unlink_tx d' = []" "vd_unlink_rx d' = []"
    by (subst r(1), subst conjunct1 [OF F], simp)+
  have "vd_rhport d5 = vd_rhport d" by (subst conjunct1 [OF F]) simp
  then have rh: "unat (vd_rhport d5) = i"
    using port_inv_ok [OF assms(1)] by (simp add: vdev_ok_def VHCI_NPORTS_def unat_of_nat take_bit_nat_eq_self)
  have "port_status c5 = port_status c"
    using F stop_thread_cases [OF s2] stop_thread_cases [OF s3] by (auto simp: vhci_fault_def)
  then have "i < length (port_status c5)" using assms(1) by (simp add: port_inv_def)
  then show "\<not> bit (port_status c' ! i) 0" "bit (port_status c' ! i) 16"
    using r(2) rh by (simp_all add: rh_port_disconnect_def upd_port_def bit_simps bit_connection bit_feat port_feat_defs)
qed

lemma port_inv_clear [simp]: "port_inv i (event_clear ev d) c = port_inv i d c"
  by (simp add: event_clear_def port_inv_def vdev_ok_def vdev_privs_def)

text \<open>When a connection goes down, the event handler of a port returns after one round: the event
  is consumed, the port is free again, socket, threads, device and unlink requests are gone, the
  root hub shows no connection and a change of it, and the controller's invariant holds.\<close>

theorem vhci_handler_down:
  assumes "vhci_reach h k hk as c w0" and "i < VHCI_NPORTS" and "ud_event (vdevs c ! i) = VDEV_EVENT_DOWN"
  shows "\<exists>d' c' w'. event_handler (vhci_eh_ops k hk) (vdevs c ! i) (c, w) = Some (0, d', c', w') \<and>
    ud_event d' = 0 \<and> ud_status d' = VDEV_ST_NULL \<and> tcp_socket d' = None \<and> tcp_rx d' = None \<and> tcp_tx d' = None \<and>
    vd_udev d' = None \<and> vd_unlink_tx d' = [] \<and> vd_unlink_rx d' = [] \<and>
    \<not> bit (port_status c' ! i) 0 \<and> bit (port_status c' ! i) 16 \<and> vhci_inv (set_vdev i d' c')"
proof -
  let ?d = "vdevs c ! i"
  have P: "port_inv i ?d c" using vhci_reach_inv [OF assms(1)] port_inv_here assms(2) by blast
  have ev: "ud_event ?d AND NOT 15 = 0" "ud_event ?d \<noteq> 0" "ud_event ?d AND USBIP_EH_BYE = 0"
    using assms(3) by (simp_all add: event_defs)
  obtain d1 c1 w1 where s: "vhci_shutdown_connection k hk ?d c w = (d1, c1, w1)" by (metis prod_cases3)
  note L = shutdown_leaves [OF P s] and E = vhci_shutdown_event [OF s]
  let ?d1 = "event_clear USBIP_EH_SHUTDOWN d1"
  obtain d2 w2 where r: "vhci_device_reset k hk ?d1 w1 = (d2, w2)" by fastforce
  have I1: "port_inv i ?d1 c1"
    using vhci_shutdown_inv [OF P s] by simp
  have I2: "port_inv i (event_clear USBIP_EH_RESET d2) c1"
    using reset_inv [OF I1 r] by simp
  have d2: "ud_event d2 = ud_event ?d1" "ud_status d2 = VDEV_ST_NULL" "tcp_socket d2 = None" "vd_udev d2 = None"
    "tcp_rx d2 = tcp_rx d1" "tcp_tx d2 = tcp_tx d1" "vd_unlink_tx d2 = vd_unlink_tx d1" "vd_unlink_rx d2 = vd_unlink_rx d1"
    using r by (auto simp: vhci_device_reset_def event_clear_def Let_def)
  have "event_round (vhci_eh_ops k hk) ?d (c, w) = (event_clear USBIP_EH_RESET d2, c1, w2)"
    using s r assms(3) E d2(1) by (simp add: event_round_def event_phase_def vhci_eh_ops_def event_defs)
  then have h: "event_handler (vhci_eh_ops k hk) ?d (c, w) = Some (0, event_clear USBIP_EH_RESET d2, c1, w2)"
    using vhci_eh.handler_returns [OF ev(1), of k hk "(c, w)"] ev(2,3) by simp
  have "ud_event (event_clear USBIP_EH_RESET d2) = 0" using assms(3) E d2(1) by (simp add: event_defs)
  with h L d2 port_inv_put [OF I2] show ?thesis by (auto simp: event_clear_def)
qed

theorem vhci_handler_down_witness:
  "\<exists>d' c' w'. event_handler (vhci_eh_ops sim_k sim_hc) (vdevs (vhci_event VDEV_EVENT_DOWN 0 cancel_hcd) ! 0)
      (vhci_event VDEV_EVENT_DOWN 0 cancel_hcd, sim0) = Some (0, d', c', w') \<and>
    ud_status d' = VDEV_ST_NULL \<and> vd_unlink_rx d' = [] \<and> \<not> bit (port_status c' ! 0) 0"
proof -
  obtain w0 where r: "vhci_reach Little sim_k sim_hc [(100, 0)] cancel_hcd w0" using cancel_hcd_reach by blast
  from vhci_reach.event [OF r zero_port]
  have r1: "vhci_reach Little sim_k sim_hc [(100, 0)] (vhci_event VDEV_EVENT_DOWN 0 cancel_hcd) w0" .
  have "ud_event (vdevs (vhci_event VDEV_EVENT_DOWN 0 cancel_hcd) ! 0) = VDEV_EVENT_DOWN"
    by (simp add: vhci_event_def cancel_hcd_def sent_hcd_def vdev_att_def vdev_demo_def)
  from vhci_handler_down [OF r1 zero_port this, of sim0] show ?thesis by blast
qed

section \<open>Attribute files\<close>

lemma store_attach_cases:
  assumes "store_attach k hk buf n c w = (r, c', w')" and "length (vdevs c) = VHCI_NPORTS"
    and "length (port_status c) = VHCI_NPORTS"
  shows "r = -22 \<and> c' = c \<or>
    (\<exists>i s rx tx dv sp. r = n \<and> i < VHCI_NPORTS \<and> scan_us 4 buf ! 0 = of_nat i \<and> scan_us 4 buf ! 2 = dv \<and>
       scan_us 4 buf ! 3 = sp \<and> sp \<in> {USB_SPEED_LOW, USB_SPEED_FULL, USB_SPEED_HIGH, USB_SPEED_WIRELESS} \<and>
       ud_status (vdevs c ! i) = VDEV_ST_NULL \<and>
       vdevs c' = (vdevs c)[i := (vdevs c ! i)\<lparr>ud_status := VDEV_ST_NOTASSIGNED, tcp_socket := Some s,
         tcp_rx := Some rx, tcp_tx := Some tx, vd_devid := dv, vd_speed := sp\<rparr>] \<and>
       bit (port_status c' ! i) 0 \<and> bit (port_status c' ! i) 16)"
proof (cases "r = -22 \<and> c' = c")
  case False
  let ?vs = "scan_us 4 buf" and ?i = "unat (scan_us 4 buf ! 0)"
  have v: "\<not> s32_neg (valid_args (?vs ! 0) (?vs ! 3))"
    using False assms(1) by (auto simp: store_attach_def Let_def EINVAL_def split: if_splits)
  then have g: "?i < VHCI_NPORTS" "?vs ! 3 \<in> {USB_SPEED_LOW, USB_SPEED_FULL, USB_SPEED_HIGH, USB_SPEED_WIRELESS}"
    by (auto simp: valid_args_def EINVAL_def split: if_splits)
  obtain so w1 where so: "sockfd_to_socket k (?vs ! 1) w = (so, w1)" by fastforce
  obtain s where s: "so = Some s" "ud_status (vdevs c ! ?i) = VDEV_ST_NULL"
    using False assms(1) v so by (cases so) (auto simp: store_attach_def Let_def EINVAL_def split: if_splits)
  obtain rx w2 where rx: "kthread_run k w1 = (rx, w2)" by fastforce
  obtain tx w3 where tx: "kthread_run k w2 = (tx, w3)" by fastforce
  let ?c1 = "set_vdev ?i ((vdevs c ! ?i)\<lparr>ud_status := VDEV_ST_NOTASSIGNED, tcp_socket := Some s,
         tcp_rx := Some rx, tcp_tx := Some tx, vd_devid := ?vs ! 2, vd_speed := ?vs ! 3\<rparr>) c"
  have r: "r = n" "c' = fst (rh_port_connect hk ?i (?vs ! 3) ?c1 w3)"
    using assms(1) v so s rx tx by (auto simp: store_attach_def Let_def split: prod.splits)
  have i: "?i < length (port_status ?c1)" using g(1) assms(3) by simp
  have "vdevs c' = vdevs ?c1" "bit (port_status c' ! ?i) 0" "bit (port_status c' ! ?i) 16"
    using r(2) i by (simp_all add: rh_port_connect_def upd_port_def bit_simps bit_connection bit_feat port_feat_defs)
  then show ?thesis
    using r(1) g s(2) by (intro disjI2 exI [of _ ?i] exI) auto
qed simp

text \<open>C39. Writing to \<open>attach\<close>. A device is attached only to an existing, free port, with a speed USB
  defines and a descriptor of a socket; the root hub then shows the connection and its change.
  Anything else is refused with \<open>-EINVAL\<close> and leaves the controller as it was.\<close>

theorem store_attach_guards:
  assumes "store_attach k hk buf n c w = (r, c', w')" and "length (vdevs c) = VHCI_NPORTS"
    and "length (port_status c) = VHCI_NPORTS"
  shows "r = -22 \<and> c' = c \<or>
    (\<exists>i s rx tx dv sp. r = n \<and> i < VHCI_NPORTS \<and> scan_us 4 buf ! 0 = of_nat i \<and> scan_us 4 buf ! 2 = dv \<and>
       scan_us 4 buf ! 3 = sp \<and> sp \<in> {USB_SPEED_LOW, USB_SPEED_FULL, USB_SPEED_HIGH, USB_SPEED_WIRELESS} \<and>
       ud_status (vdevs c ! i) = VDEV_ST_NULL \<and>
       vdevs c' = (vdevs c)[i := (vdevs c ! i)\<lparr>ud_status := VDEV_ST_NOTASSIGNED, tcp_socket := Some s,
         tcp_rx := Some rx, tcp_tx := Some tx, vd_devid := dv, vd_speed := sp\<rparr>] \<and>
       bit (port_status c' ! i) 0 \<and> bit (port_status c' ! i) 16)"
  using assms by (rule store_attach_cases)

theorem store_attach_guards_witness:
  "store_attach sim_k sim_hc ''0 3 65541 3'' 11 hcd_demo sim0 = (11, att_demo, sim0) \<and> bit (port_status att_demo ! 0) 16"
proof -
  have l: "length (vdevs hcd_demo) = VHCI_NPORTS" "length (port_status hcd_demo) = VHCI_NPORTS"
    by (simp_all add: hcd_demo_eq new_hcd_def VHCI_NPORTS_def)
  obtain i where i: "i < VHCI_NPORTS" "scan_us 4 ''0 3 65541 3'' ! 0 = of_nat i" "bit (port_status att_demo ! i) 16"
    using store_attach_guards [OF att_demo_run(1) l] by auto
  then have "i = 0" unfolding scan_demo by (auto simp: VHCI_NPORTS_def word_of_nat_eq_0_iff dest: nat_dvd_not_less)
  with i att_demo_run(1) show ?thesis by simp
qed

end
