(* ===== verification/System.thy ===== *)
theory System
  imports StubHandler VhciHandler
begin

text \<open>
  The two kernel modules together: the bytes the virtual host controller sends for a request make
  the stub driver, on a host of either byte order, hand a urb with the same contents to its device,
  and the bytes the stub sends for the completed urb make the controller give back the original one.
\<close>

section \<open>The header of a request, read at the other end\<close>

definition sent_setup :: "urb \<Rightarrow> byte list" where
  "sent_setup u = (case setup_packet u of None \<Rightarrow> replicate 8 0 | Some sp \<Rightarrow> take 8 sp)"

lemma zero_setup: "cs_setup (get_cmd_submit h zero_header) = replicate 8 0"
  by (simp add: zero_header_def get_cmd_submit_def sizeof_union_def slice_def eval_nat_numeral)

lemma get_setup_cmd_submit:
  assumes "\<forall>sp. setup_packet u = Some sp \<longrightarrow> 8 \<le> length sp"
  shows "get_cmd_submit h (setup_cmd_submit_pdu h zero_header p dev u) =
    \<lparr>cs_transfer_flags = tweak_transfer_flags (u_transfer_flags u), cs_transfer_buffer_length = transfer_buffer_length u,
     cs_start_frame = start_frame u, cs_number_of_packets = number_of_packets u, cs_interval = u_interval u,
     cs_setup = sent_setup u\<rparr>"
  using assms zero_setup [of h]
  by (auto simp: setup_cmd_submit_pdu_def sent_setup_def Let_def get_pack_cmd get_put_cmd_submit split: option.splits)

lemma base_setup_cmd_submit:
  "base (setup_cmd_submit_pdu h zero_header p dev u) =
    \<lparr>command = USBIP_CMD_SUBMIT, seqnum = ucast (vp_seqnum p), devid = dev,
     direction = (if usb_pipein (u_pipe u) then USBIP_DIR_IN else USBIP_DIR_OUT), ep = usb_pipeendpoint (u_pipe u)\<rparr>"
  by (simp add: setup_cmd_submit_pdu_def Let_def split: option.split)

lemma request_read:
  assumes "\<forall>sp. setup_packet u = Some sp \<longrightarrow> 8 \<le> length sp"
    and "r = recv_header g (send_header h (setup_cmd_submit_pdu h zero_header p dev u))"
  shows "base r = base (setup_cmd_submit_pdu h zero_header p dev u)"
    and "get_cmd_submit g r = get_cmd_submit h (setup_cmd_submit_pdu h zero_header p dev u)"
proof -
  have wf: "wf_header (setup_cmd_submit_pdu h zero_header p dev u)" using assms(1) by (rule wf_setup_cmd_submit)
  show "base r = base (setup_cmd_submit_pdu h zero_header p dev u)"
    unfolding assms(2) by (rule header_of_recv [OF wf])
  show "get_cmd_submit g r = get_cmd_submit h (setup_cmd_submit_pdu h zero_header p dev u)"
    unfolding assms(2) by (rule get_of_view(1) [OF header_codec.dec_enc [OF wf]]) (simp add: base_setup_cmd_submit)
qed

lemma get_pipe_in:
  assumes "get_pipe udev e dir = Some p" and "devnum udev < 128" and "e < 16"
  shows "usb_pipein p \<longleftrightarrow> dir \<noteq> USBIP_DIR_OUT"
  using assms by (auto simp: get_pipe_def Let_def pipe_type_defs split: option.splits if_splits)

lemma pipeendpoint_less: "usb_pipeendpoint p < 16"
  using word_and_le1 [of "drop_bit 15 p" "0xf"] by (simp add: usb_pipeendpoint_def word_le_nat_alt word_less_nat_alt)

text \<open>Masking clears flags and changes nothing else.\<close>

lemma masking_clears: "\<exists>m. masking_bogus_flags h dev u = u\<lparr>u_transfer_flags := u_transfer_flags u AND m\<rparr>"
proof -
  have id: "\<exists>m. u = u\<lparr>u_transfer_flags := u_transfer_flags u AND m\<rparr>" by (rule exI [of _ "- 1"]) simp
  show ?thesis
    unfolding masking_bogus_flags_def Let_def
    by (split option.split if_split)+ (intro conjI impI allI; (rule id | rule exI, rule refl))
qed

section \<open>Building the urb\<close>

text \<open>Allocations and submission succeed, and leave the bytes that wait on the socket.\<close>

definition host_ok :: "'w kapi \<Rightarrow> ('w \<Rightarrow> byte list) \<Rightarrow> bool" where
  "host_ok k pend \<longleftrightarrow> alloc_ok k pend \<and>
     (\<forall>n w. fst (usb_alloc_urb k n w) \<and> pend (snd (usb_alloc_urb k n w)) = pend w) \<and>
     (\<forall>i u w. fst (usb_submit_urb k i u w) = 0)"

lemma host_okD:
  assumes "host_ok k pend"
  shows "\<exists>w'. kzalloc k n w = (True, w') \<and> pend w' = pend w"
    and "\<exists>w'. usb_alloc_urb k np w = (True, w') \<and> pend w' = pend w"
    and "\<exists>w'. usb_submit_urb k i u w = (0, w')"
proof -
  show "\<exists>w'. kzalloc k n w = (True, w') \<and> pend w' = pend w"
    using assms alloc_okE [of k pend n w] unfolding host_ok_def by metis
  show "\<exists>w'. usb_alloc_urb k np w = (True, w') \<and> pend w' = pend w"
    using assms unfolding host_ok_def by (cases "usb_alloc_urb k np w") (metis fst_conv snd_conv)
  show "\<exists>w'. usb_submit_urb k i u w = (0, w')"
    using assms unfolding host_ok_def by (cases "usb_submit_urb k i u w") (metis fst_conv)
qed

text \<open>The urb the stub builds for the urb \<open>u\<close> of the other host.\<close>

definition remote_urb :: "pipe \<Rightarrow> u32 \<Rightarrow> urb \<Rightarrow> urb" where
  "remote_urb pipe flags u =
     (new_urb 0)\<lparr>u_pipe := pipe, u_transfer_flags := flags,
       transfer_buffer := (if transfer_buffer_length u = 0 then None
         else Some (if usb_pipein (u_pipe u) then replicate (unat (transfer_buffer_length u)) 0 else cmd_submit_data u)),
       transfer_buffer_length := transfer_buffer_length u, start_frame := start_frame u,
       number_of_packets := number_of_packets u, u_interval := u_interval u, setup_packet := Some (sent_setup u)\<rparr>"

lemma recv_request_data:
  assumes "recv_stream k s pend" and "recv_progress k s pend" and "tcp_socket d = Some s" and "ud_side d = USBIP_STUB"
    and "unat (transfer_buffer_length u) < 2 ^ 31" and "cmd_submit_data_ok u" and "pend w = cmd_submit_data u @ rest"
    and "\<not> usb_pipeisoc (u_pipe v)" and "usb_pipein (u_pipe v) = usb_pipein (u_pipe u)"
    and "transfer_buffer_length v = transfer_buffer_length u"
    and "transfer_buffer v = (if transfer_buffer_length u = 0 then None else Some (replicate (unat (transfer_buffer_length u)) 0))"
  shows "\<exists>w'. stub_recv_data g k d v None w =
    (True, d, v\<lparr>transfer_buffer := (if transfer_buffer_length u = 0 then None
         else Some (if usb_pipein (u_pipe u) then replicate (unat (transfer_buffer_length u)) 0 else cmd_submit_data u))\<rparr>, w')"
proof (cases "usb_pipein (u_pipe u) \<or> transfer_buffer_length u = 0")
  case True
  then have "usbip_recv_xbuff k d v w = (0, d, v, w)"
    using assms(4,9,10) by (auto simp: usbip_recv_xbuff_def)
  moreover have "v\<lparr>transfer_buffer := (if transfer_buffer_length u = 0 then None
         else Some (if usb_pipein (u_pipe u) then replicate (unat (transfer_buffer_length u)) 0 else cmd_submit_data u))\<rparr> = v"
    using True assms(11) by auto
  ultimately show ?thesis using assms(8) by (simp add: stub_recv_data_def usbip_recv_iso_def Let_def)
next
  case False
  let ?n = "sint (transfer_buffer_length u)"
  have "0 < unat (transfer_buffer_length u)" using False by (metis gr_zeroI unat_eq_0)
  then have n: "?n = int (unat (transfer_buffer_length u))" "0 < ?n"
    using sint_unat_small [OF assms(5)] by linarith+
  have l: "length (cmd_submit_data u) = unat (transfer_buffer_length u)"
    using cmd_submit_data_length [OF assms(6)] False by (simp add: word_neq_0_conv)
  obtain w1 where r: "usbip_recv k (Some s) True ?n w = (?n, cmd_submit_data u, w1)"
    using usbip_recv_exact [OF assms(1,2) n(2), of w] n(1) l assms(7) by auto
  have "urb_write 0 (cmd_submit_data u) v = v\<lparr>transfer_buffer := Some (cmd_submit_data u)\<rparr>"
    using False assms(11) l by (simp add: urb_write_def buf_ok_def overwrite_def)
  then have "usbip_recv_xbuff k d v w = (?n, d, v\<lparr>transfer_buffer := Some (cmd_submit_data u)\<rparr>, w1)"
    using False assms(3,4,9,10,11) n(2) r by (simp add: usbip_recv_xbuff_def Let_def)
  then show ?thesis
    using False assms(8) n(2) by (simp add: stub_recv_data_def usbip_recv_iso_def Let_def)
qed

lemma put_urb_last:
  assumes "ids_below d"
  shows "put_urb (sd_next d) u (d\<lparr>priv_init := priv_init d @ [q\<lparr>sp_id := sd_next d\<rparr>], sd_next := n\<rparr>) =
    d\<lparr>priv_init := priv_init d @ [q\<lparr>sp_id := sd_next d, sp_urb := Some u\<rparr>], sd_next := n\<rparr>"
proof -
  have "\<forall>p \<in> set (priv_init d). sp_id p \<noteq> sd_next d"
    using assms unfolding ids_below_def by (metis Un_iff less_irrefl set_append)
  then have "map (\<lambda>p. if sp_id p = sd_next d then p\<lparr>sp_urb := Some u\<rparr> else p) (priv_init d) = priv_init d"
    by (intro map_idI) simp
  then show ?thesis by (simp add: put_urb_def)
qed

text \<open>The request the stub queues for it.\<close>

definition queued :: "stub_device \<Rightarrow> u64 \<Rightarrow> urb \<Rightarrow> stub_device" where
  "queued d s u = d\<lparr>priv_init := priv_init d @ [\<lparr>sp_id = sd_next d, sp_seqnum = s, sp_urb = Some u, sp_unlinking = False\<rparr>],
     sd_next := Suc (sd_next d)\<rparr>"

lemma put_urb_queued: "ids_below d \<Longrightarrow> put_urb (sd_next d) v (queued d s u) = queued d s v"
  using put_urb_last [where d = d and u = v and q = "\<lparr>sp_id = 0, sp_seqnum = s, sp_urb = Some u, sp_unlinking = False\<rparr>" and n = "Suc (sd_next d)"]
  by (simp add: queued_def)

lemma stub_builds_urb:
  assumes "recv_stream k s pend" and "recv_progress k s pend" and "host_ok k pend"
    and "tcp_socket d = Some s" and "ud_side d = USBIP_STUB" and "ids_below d"
    and "unat (transfer_buffer_length u) < 2 ^ 31" and "cmd_submit_data_ok u" and "pend w = cmd_submit_data u @ rest"
    and "get_pipe (sd_udev d) (ep (base pdu)) (direction (base pdu)) = Some pipe"
    and "\<not> usb_pipeisoc pipe" and "usb_pipein pipe = usb_pipein (u_pipe u)"
    and cs: "get_cmd_submit g pdu = \<lparr>cs_transfer_flags = fl, cs_transfer_buffer_length = transfer_buffer_length u,
     cs_start_frame = start_frame u, cs_number_of_packets = number_of_packets u, cs_interval = u_interval u,
     cs_setup = sent_setup u\<rparr>"
  shows "\<exists>m w'. stub_build_urb g k d pdu None w =
    (Some (sd_next d, remote_urb pipe (fl AND m) u), queued d (ucast (seqnum (base pdu))) (remote_urb pipe (fl AND m) u), w')"
proof -
  let ?n = "transfer_buffer_length u" and ?buf = "if transfer_buffer_length u = 0 then None else Some (replicate (unat (transfer_buffer_length u)) (0 :: byte))"
  let ?u1 = "(new_urb 0)\<lparr>transfer_buffer := ?buf\<rparr>"
  let ?u2 = "?u1\<lparr>setup_packet := Some (sent_setup u), u_pipe := pipe, u_transfer_flags := fl, transfer_buffer_length := ?n,
      start_frame := start_frame u, number_of_packets := number_of_packets u, u_interval := u_interval u\<rparr>"
  obtain w1 where w1: "kzalloc k 56 w = (True, w1)" "pend w1 = pend w" using host_okD(1) [OF assms(3)] by blast
  obtain w2 where w2: "usb_alloc_urb k 0 w1 = (True, w2)" "pend w2 = pend w1" using host_okD(2) [OF assms(3)] by blast
  let ?d1 = "d\<lparr>priv_init := priv_init d @ [\<lparr>sp_id = sd_next d, sp_seqnum = ucast (seqnum (base pdu)), sp_urb = None, sp_unlinking = False\<rparr>],
     sd_next := Suc (sd_next d)\<rparr>"
  have a: "stub_priv_alloc k d pdu w = (Some (sd_next d), ?d1, w1)" using w1(1) by (simp add: stub_priv_alloc_def)
  have "\<exists>w3. stub_alloc_buffer k (get_cmd_submit g pdu) None (new_urb 0) w2 = (True, ?u1, w3) \<and> pend w3 = pend w2"
  proof (cases "?n = 0")
    case True
    then show ?thesis using cs by (simp add: stub_alloc_buffer_def new_urb_def)
  next
    case False
    then have "0 < unat ?n" by (metis gr_zeroI unat_eq_0)
    then have p: "0 < sint ?n" "nat (sint ?n) = unat ?n" using sint_unat_small [OF assms(7)] by linarith+
    obtain w3 where "kzalloc k (scast ?n) w2 = (True, w3)" "pend w3 = pend w2" using host_okD(1) [OF assms(3)] by blast
    with p False cs show ?thesis by (simp add: stub_alloc_buffer_def Let_def)
  qed
  then obtain w3 where w3: "stub_alloc_buffer k (get_cmd_submit g pdu) None (new_urb 0) w2 = (True, ?u1, w3)" "pend w3 = pend w2"
    by blast
  obtain w4 where w4: "kzalloc k 8 w3 = (True, w4)" "pend w4 = pend w3" using host_okD(1) [OF assms(3)] by blast
  have pk: "snd (usbip_pack_pdu g pdu (?u1\<lparr>setup_packet := Some (sent_setup u), u_pipe := pipe\<rparr>) USBIP_CMD_SUBMIT False) = ?u2"
    using cs by (simp add: usbip_pack_pdu_def usbip_pack_cmd_submit_def Let_def)
  have "pend w4 = cmd_submit_data u @ rest" using assms(9) w1 w2 w3 w4 by simp
  from recv_request_data [OF assms(1,2) _ _ assms(7,8) this, of ?d1 ?u2 g] assms(4,5,11,12)
  obtain w5 where w5: "stub_recv_data g k ?d1 ?u2 None w4 = (True, ?d1, remote_urb pipe fl u, w5)"
    by (auto simp: remote_urb_def)
  obtain m where m: "masking_bogus_flags g (sd_udev d) (remote_urb pipe fl u) =
      (remote_urb pipe fl u)\<lparr>u_transfer_flags := u_transfer_flags (remote_urb pipe fl u) AND m\<rparr>"
    using masking_clears [of g "sd_udev d" "remote_urb pipe fl u"] by blast
  have ru: "(remote_urb pipe fl u)\<lparr>u_transfer_flags := u_transfer_flags (remote_urb pipe fl u) AND m\<rparr> = remote_urb pipe (fl AND m) u"
    by (simp add: remote_urb_def)
  have pu: "put_urb (sd_next d) v ?d1 = queued d (ucast (seqnum (base pdu))) v" for v
    using put_urb_last [OF assms(6), where u = v and q = "\<lparr>sp_id = 0, sp_seqnum = ucast (seqnum (base pdu)), sp_urb = None, sp_unlinking = False\<rparr>" and n = "Suc (sd_next d)"]
    by (simp add: queued_def)
  have su: "cs_setup (get_cmd_submit g pdu) = sent_setup u" using cs by simp
  have "stub_build_urb g k d pdu None w =
      (Some (sd_next d, remote_urb pipe (fl AND m) u), queued d (ucast (seqnum (base pdu))) (remote_urb pipe (fl AND m) u),
       tweak_special_requests g k (sd_udev d) (remote_urb pipe fl u) w5)"
    unfolding stub_build_urb_def assms(10) option.case a prod.case Let_def
    using assms(11) w2(1) w3(1) w4(1) w5 m ru pu pk su by simp
  then show ?thesis by blast
qed

text \<open>Reading a whole header.\<close>

lemma recv_whole_header:
  assumes "recv_stream k s pend" and "recv_progress k s pend" and "wf_header p" and "pend w = send_header h p @ rest"
  shows "\<exists>w'. usbip_recv k (Some s) True (int sizeof_header) w = (int sizeof_header, send_header h p, w') \<and> pend w' = rest"
proof -
  have "0 < int sizeof_header" by (simp add: sizeof_header_def)
  from usbip_recv_exact [OF assms(1,2) this, of w] length_send_header [OF assms(3)] assms(4) show ?thesis by auto
qed

lemma header_in_place:
  "wf_header p \<Longrightarrow> usbip_header_correct_endian g (ld_header g (overwrite 0 (send_header h p) (replicate sizeof_header 0))) False =
      recv_header g (send_header h p)"
  by (simp add: recv_header_def overwrite_def)

section \<open>Properties\<close>

text \<open>C1. A request crosses the network. When the bytes the virtual host controller sends for a urb
  (not isochronous) arrive at a connected stub, whatever the byte orders of the two hosts, the stub
  hands its device one urb, for the endpoint of the same number and direction, with the same
  length, interval, setup packet and output data, and flags that are a part of the original ones; it
  is queued under the sequence number of the request.\<close>

theorem request_reaches_device:
  assumes "recv_stream k s pend" and "recv_progress k s pend" and "host_ok k pend"
    and "stub_inv d" and "ud_side d = USBIP_STUB" and "tcp_socket d = Some s" and "ud_status d = SDEV_ST_USED"
    and "sd_devid d = dev" and "ud_filters d = []" and "devnum (sd_udev d) < 128"
    and "submittable u" and "\<not> usb_pipeisoc (u_pipe u)" and "unat (transfer_buffer_length u) < 2 ^ 31"
    and "get_pipe (sd_udev d) (usb_pipeendpoint (u_pipe u)) (if usb_pipein (u_pipe u) then USBIP_DIR_IN else USBIP_DIR_OUT) = Some pipe"
    and "\<not> usb_pipeisoc pipe" and "pend w = cmd_submit_bytes h dev p u @ rest"
  shows "\<exists>m w'. stub_rx_pdu g k d w =
    ((queued d (ucast (ucast (vp_seqnum p) :: u32)) (remote_urb pipe (tweak_transfer_flags (u_transfer_flags u) AND m) u))
       \<lparr>sd_flight := sd_next d # sd_flight d\<rparr>, w')"
proof -
  let ?P = "setup_cmd_submit_pdu h zero_header p dev u"
  let ?r = "recv_header g (send_header h ?P)"
  have sb: "cmd_submit_data_ok u" "\<forall>sp. setup_packet u = Some sp \<longrightarrow> 8 \<le> length sp"
    using assms(11) by (auto simp: submittable_def)
  note rd = request_read [where g = g and h = h and p = p and dev = dev, OF sb(2) refl]
  have "pend w = send_header h ?P @ cmd_submit_data u @ rest"
    using assms(12,16) by (simp add: cmd_submit_bytes_def send_header_def usb_pipeisoc_def)
  from recv_whole_header [OF assms(1,2) wf_setup_cmd_submit [OF sb(2)] this]
  obtain w1 where w1: "usbip_recv k (Some s) True (int sizeof_header) w = (int sizeof_header, send_header h ?P, w1)"
    "pend w1 = cmd_submit_data u @ rest" by blast
  have v: "valid_request d ?r" "command (base ?r) = USBIP_CMD_SUBMIT" using rd(1) assms(7,8)
    by (simp_all add: valid_request_def base_setup_cmd_submit)
  have gp: "get_pipe (sd_udev d) (ep (base ?r)) (direction (base ?r)) = Some pipe"
    using assms(14) rd(1) by (simp add: base_setup_cmd_submit)
  have pin: "usb_pipein pipe = usb_pipein (u_pipe u)"
    using get_pipe_in [OF assms(14,10) pipeendpoint_less] by (simp add: USBIP_DIR_IN_def USBIP_DIR_OUT_def)
  have ids: "ids_below d" using assms(4) by (simp add: stub_inv_def)
  from stub_builds_urb [OF assms(1-3,6,5) ids assms(13) sb(1) w1(2) gp assms(15) pin rd(2) [unfolded get_setup_cmd_submit [OF sb(2)]]]
  obtain m w2 where b: "stub_build_urb g k d ?r None w1 =
    (Some (sd_next d, remote_urb pipe (tweak_transfer_flags (u_transfer_flags u) AND m) u),
     queued d (ucast (seqnum (base ?r))) (remote_urb pipe (tweak_transfer_flags (u_transfer_flags u) AND m) u), w2)" by blast
  let ?U = "remote_urb pipe (tweak_transfer_flags (u_transfer_flags u) AND m) u"
  obtain w3 where w3: "usb_submit_urb k (sd_next d) ?U w2 = (0, w3)" using host_okD(3) [OF assms(3)] by blast
  have sq: "seqnum (base ?r) = ucast (vp_seqnum p)" using rd(1) by (simp add: base_setup_cmd_submit)
  have f: "ud_filters (queued d sq ?U) = []" "sd_flight (queued d sq ?U) = sd_flight d" for sq
    using assms(9) by (simp_all add: queued_def)
  have "stub_rx_pdu g k d w = stub_recv_cmd_submit g k d ?r w1"
    using w1(1) v assms(6) header_in_place [OF wf_setup_cmd_submit [OF sb(2)], of g h]
    by (simp add: stub_rx_pdu_def command_defs)
  also have "\<dots> = ((queued d (ucast (seqnum (base ?r))) ?U)\<lparr>sd_flight := sd_next d # sd_flight d\<rparr>, w3)"
    using b w3 f put_urb_queued [OF ids] by (simp add: stub_recv_cmd_submit_def stub_submit_urb_def Let_def)
  finally show ?thesis using sq by auto
qed

lemma conn_demo_facts:
  "stub_inv conn_demo" "ud_side conn_demo = USBIP_STUB" "tcp_socket conn_demo = Some 3" "ud_status conn_demo = SDEV_ST_USED"
  "sd_devid conn_demo = 65541" "ud_filters conn_demo = []" "devnum (sd_udev conn_demo) < 128"
  "sd_next conn_demo = 0" "sd_flight conn_demo = []"
  by (simp_all add: conn_demo_def sdev_demo_eq udev_demo_def stub_inv_def all_privs_def ids_below_def)

lemma sim_host_ok: "host_ok sim_k (\<lambda>w. concat (sim_in w))"
  by (simp add: host_ok_def alloc_ok_def)

theorem request_reaches_device_witness:
  "\<exists>m w'. stub_rx_pdu Little sim_k conn_demo (sim0\<lparr>sim_in := [cmd_submit_bytes Big 65541 priv_demo (hu_urb ctrl_demo)]\<rparr>) =
    ((queued conn_demo 1 (remote_urb 0x80000580 (tweak_transfer_flags (u_transfer_flags (hu_urb ctrl_demo)) AND m) (hu_urb ctrl_demo)))
       \<lparr>sd_flight := [0]\<rparr>, w')"
proof -
  let ?u = "hu_urb ctrl_demo"
  have u: "\<not> usb_pipeisoc (u_pipe ?u)" "unat (transfer_buffer_length ?u) < 2 ^ 31" "usb_pipein (u_pipe ?u)" "usb_pipeendpoint (u_pipe ?u) = 0"
    by (simp_all add: ctrl_demo_def usb_pipeisoc_def usb_pipetype_def usb_pipein_def usb_pipeendpoint_def pipe_type_defs)
  have gp: "get_pipe (sd_udev conn_demo) 0 USBIP_DIR_IN = Some 0x80000580"
    by (simp add: conn_demo_def sdev_demo_eq get_pipe_def ep_at_def udev_demo_def USBIP_DIR_IN_def USBIP_DIR_OUT_def
        usb_endpoint_type_def xfer_defs usb_rcvpipe_def pipe_type_defs)
  have "\<not> usb_pipeisoc 0x80000580" by (simp add: usb_pipeisoc_def usb_pipetype_def pipe_type_defs)
  from request_reaches_device [OF sim_recv_stream sim_recv_progress sim_host_ok conn_demo_facts(1-7) ctrl_demo_submittable u(1,2) _ this,
      of "sim0\<lparr>sim_in := [cmd_submit_bytes Big 65541 priv_demo ?u]\<rparr>" Big priv_demo "[]" Little] gp u(3,4)
  show ?thesis by (simp add: conn_demo_facts) (simp add: priv_demo_def)
qed

lemma ucast_down_up: "ucast (ucast (x :: u32) :: u64) = x"
  by (rule bit_word_eqI) (simp add: bit_simps)

text \<open>C2. The result crosses the network back. When the bytes the stub sends for a completed input urb
  (not isochronous, with data) arrive at the port that waits for it, the virtual host controller gives
  back exactly the urb whose request has that sequence number, with the status, the length and the
  data the device delivered, and frees the request.\<close>

theorem reply_reaches_driver:
  assumes "vhci_reach h k hk as c w0" and "i < VHCI_NPORTS"
    and "p \<in> set (vd_priv_rx (vdevs c ! i))" and "vh_issued c < 2 ^ 31"
    and "vh_urbs c (vp_urb p) = Some ub" and "usb_pipein (u_pipe (hu_urb ub))"
    and "\<not> usb_pipeisoc (u_pipe (hu_urb ub))" and "transfer_buffer (hu_urb ub) = Some b"
    and "recv_stream k s pend" and "recv_progress k s pend" and "tcp_socket (vdevs c ! i) = Some s"
    and "sp_seqnum q = ucast (ucast (vp_seqnum p) :: u32)" and "sp_urb q = Some v" and "usb_pipein (u_pipe v)"
    and "\<not> usb_pipeisoc (u_pipe v)" and "transfer_buffer v = Some a" and "n = unat (actual_length v)"
    and "0 < n" and "n < 2 ^ 31" and "n \<le> length a" and "n \<le> length b" and "pend w = ret_submit_bytes g q @ rest"
  shows "\<exists>c' w' u. on_port i (vhci_rx_pdu h k hk) c w = (c', w') \<and>
    vh_given c' = vh_given c @ [(vp_urb p, u, u_status v)] \<and> vh_urbs c' (vp_urb p) = None \<and>
    u_status u = u_status v \<and> actual_length u = actual_length v \<and> transfer_buffer u = Some (overwrite 0 (take n a) b) \<and>
    vd_priv_rx (vdevs c' ! i) = remove1 p (vd_priv_rx (vdevs c ! i)) \<and> ud_event (vdevs c' ! i) = ud_event (vdevs c ! i)"
proof -
  let ?P = "setup_ret_submit_pdu g zero_header (sp_seqnum q) v"
  let ?r = "recv_header h (send_header g ?P)"
  have wf: "wf_header ?P" by (simp add: setup_ret_submit_pdu_def)
  have bP: "base ?P = setup_base_pdu USBIP_RET_SUBMIT (ucast (vp_seqnum p))"
    using assms(12) by (simp add: setup_ret_submit_pdu_def ucast_down_up)
  have br: "base ?r = base ?P" by (rule header_of_recv [OF wf])
  have "get_ret_submit h ?r = get_ret_submit g ?P"
    by (rule get_of_view(2) [OF header_codec.dec_enc [OF wf]]) (simp add: bP setup_base_pdu_def)
  then have rr: "get_ret_submit h ?r = \<lparr>rs_status = u_status v, rs_actual_length = actual_length v, rs_start_frame = start_frame v,
      rs_number_of_packets = number_of_packets v, rs_error_count = error_count v\<rparr>"
    by (simp add: setup_ret_submit_pdu_def get_pack_ret)
  have "0 < actual_length v" using assms(17,18) by (metis unat_0 less_irrefl word_neq_0_conv)
  then have d: "fst (ret_submit_data v) = take n a"
    using assms(14-17) by (simp add: ret_submit_data_def usb_pipeisoc_def buf_read_def slice_def)
  have "pend w = send_header g ?P @ take n a @ rest"
    using assms(13,15,22) d by (simp add: ret_submit_bytes_def send_header_def usb_pipeisoc_def)
  from recv_whole_header [OF assms(9,10) wf this]
  obtain w1 where w1: "usbip_recv k (Some s) True (int sizeof_header) w = (int sizeof_header, send_header g ?P, w1)"
    "pend w1 = take n a @ rest" by blast
  have "vhci_rx_pdu h k hk (vdevs c ! i) c w = vhci_recv_ret_submit h k hk ?r (vdevs c ! i) c w1"
    using w1(1) br bP assms(11) header_in_place [OF wf, of h g]
    by (simp add: vhci_rx_pdu_def setup_base_pdu_def sizeof_header_def)
  then have on: "on_port i (vhci_rx_pdu h k hk) c w = on_port i (vhci_recv_ret_submit h k hk ?r) c w1"
    by (simp add: on_port_def)
  have sq: "seqnum (base ?r) = ucast (vp_seqnum p)" using br bP by (simp add: setup_base_pdu_def)
  have len: "int (length (take n a)) = sint (rs_actual_length (get_ret_submit h ?r))" "take n a \<noteq> []" "length (take n a) \<le> length b"
    using assms(17-21) sint_unat_small [of "actual_length v"] rr by auto
  from result_gives_back_urb [OF assms(1-8) sq refl assms(9-11) w1(2) len] on rr show ?thesis by auto
qed

definition done_demo :: stub_priv where
  "done_demo = \<lparr>sp_id = 0, sp_seqnum = 1,
     sp_urb = Some ((new_urb 0)\<lparr>u_pipe := 0x80000580, actual_length := 2, transfer_buffer := Some [9, 8]\<rparr>),
     sp_unlinking = False\<rparr>"

theorem reply_reaches_driver_witness:
  "\<exists>c' w' u. on_port 0 (vhci_rx_pdu Little sim_k sim_hc) sent_hcd (sim0\<lparr>sim_in := [ret_submit_bytes Big done_demo]\<rparr>) = (c', w') \<and>
    vh_given c' = vh_given sent_hcd @ [(100, u, 0)] \<and> transfer_buffer u = Some (overwrite 0 [9, 8] (replicate 8 0)) \<and>
    vd_priv_rx (vdevs c' ! 0) = []"
proof -
  obtain w0 where r: "vhci_reach Little sim_k sim_hc [(100, 0)] sent_hcd w0" using sent_hcd_reach by blast
  let ?v = "(new_urb 0)\<lparr>u_pipe := 0x80000580, actual_length := 2, transfer_buffer := Some [9, 8]\<rparr>"
  have v: "usb_pipein (u_pipe ?v)" "\<not> usb_pipeisoc (u_pipe ?v)"
    by (simp_all add: usb_pipein_def usb_pipeisoc_def usb_pipetype_def pipe_type_defs)
  have p: "vp_urb priv_demo = 100" "vp_seqnum priv_demo = 1" by (simp_all add: priv_demo_def)
  have b: "transfer_buffer (hu_urb ctrl_demo) = Some (replicate 8 0)" by (simp add: ctrl_demo_def)
  have q: "sp_seqnum done_demo = 1" "sp_urb done_demo = Some ?v" by (simp_all add: done_demo_def)
  have "u_status ?v = 0" by (simp add: new_urb_def)
  with reply_reaches_driver [OF r _ _ _ sent_hcd_fields(3) _ _ _ sim_recv_stream sim_recv_progress
      sent_hcd_fields(4) _ q(2) v _ refl, of "replicate 8 0" "[9, 8]" "sim0\<lparr>sim_in := [ret_submit_bytes Big done_demo]\<rparr>" Big "[]"]
    sent_hcd_fields p b q(1)
  show ?thesis by (simp add: VHCI_NPORTS_def) blast
qed

end
