(* ===== verification/CStdio.thy ===== *)
theory CStdio
  imports Scan BusId
begin

text \<open>
  What the user-space programs use of the C library: bounded printing, the conversions of
  \<open>sscanf\<close> with \<open>strtol\<close>'s saturation at the width of \<open>long\<close>, \<open>atoi\<close>, and \<open>strchr\<close> for the end of
  a line. Lemmas: what \<open>%u\<close>, \<open>%d\<close> and \<open>%x\<close> print is read back by the conversions of user space and
  by those of the kernel.
\<close>

section \<open>Printing\<close>

text \<open>What \<open>snprintf\<close> stores in a buffer of \<open>n\<close> bytes, without the terminating NUL.\<close>

definition snprintf :: "nat \<Rightarrow> string \<Rightarrow> string" where
  "snprintf n s = take (n - 1) s"

definition fmt_d :: "int \<Rightarrow> string" where
  "fmt_d i = (if i < 0 then ''-'' @ fmt_u 1 (nat (- i)) else fmt_u 1 (nat i))"

section \<open>Reading\<close>

text \<open>\<open>strtol\<close> stops at the ends of \<open>long\<close>, \<open>strtoul\<close> at the end of \<open>unsigned long\<close>.\<close>

definition sat_long :: "int \<Rightarrow> int" where
  "sat_long v = max (- (2 ^ 63)) (min (2 ^ 63 - 1) v)"

definition sat_ulong :: "int \<Rightarrow> int" where
  "sat_ulong v = min (2 ^ 64 - 1) v"

text \<open>An optional sign: whether it is a minus, and the rest.\<close>

definition c_sign :: "string \<Rightarrow> bool \<times> string" where
  "c_sign t = (case t of
      [] \<Rightarrow> (False, [])
    | c # r \<Rightarrow> if c = CHR ''-'' then (True, r) else if c = CHR ''+'' then (False, r) else (False, t))"

definition c_scan_d :: "string \<Rightarrow> (s32 \<times> string) option" where
  "c_scan_d s =
     (case c_sign (dropWhile is_space s) of (neg, t) \<Rightarrow>
        (let ds = takeWhile is_digit t; v = digits_val ds in
         if ds = [] then None
         else Some (word_of_int (sat_long (if neg then - v else v)), dropWhile is_digit t)))"

definition c_scan_u :: "string \<Rightarrow> (u32 \<times> string) option" where
  "c_scan_u s =
     (case c_sign (dropWhile is_space s) of (neg, t) \<Rightarrow>
        (let ds = takeWhile is_digit t; v = sat_ulong (digits_val ds) in
         if ds = [] then None else Some (word_of_int (if neg then - v else v), dropWhile is_digit t)))"

text \<open>\<open>atoi\<close> converts what \<open>%d\<close> reads, and gives 0 when there is nothing to read.\<close>

definition atoi :: "string \<Rightarrow> s32" where
  "atoi s = (case c_scan_d s of None \<Rightarrow> 0 | Some (v, _) \<Rightarrow> v)"

definition is_xdigit :: "char \<Rightarrow> bool" where
  "is_xdigit c \<longleftrightarrow> is_digit c \<or> (65 \<le> (of_char c :: nat) \<and> (of_char c :: nat) \<le> 70) \<or>
     (97 \<le> (of_char c :: nat) \<and> (of_char c :: nat) \<le> 102)"

definition xdigit_val :: "char \<Rightarrow> int" where
  "xdigit_val c =
     (if is_digit c then of_char c - 48
      else if (of_char c :: nat) \<le> 70 then of_char c - 55 else of_char c - 87)"

definition xdigits_val :: "string \<Rightarrow> int" where
  "xdigits_val ds = foldl (\<lambda>v c. 16 * v + xdigit_val c) 0 ds"

text \<open>\<open>%x\<close> with a field of at most \<open>w\<close> characters: an optional sign and an optional \<open>0x\<close>.\<close>

definition c_scan_x :: "nat \<Rightarrow> string \<Rightarrow> (u64 \<times> string) option" where
  "c_scan_x w s =
     (let t0 = dropWhile is_space s in
      case c_sign (take w t0) of (neg, t1) \<Rightarrow>
        (let t = (if 2 \<le> length t1 \<and> take 1 t1 = ''0'' \<and> (t1 ! 1 = CHR ''x'' \<or> t1 ! 1 = CHR ''X'')
                  then drop 2 t1 else t1);
             ds = takeWhile is_xdigit t; v = sat_ulong (xdigits_val ds)
         in if ds = [] then None
            else Some (word_of_int (if neg then - v else v), dropWhile is_xdigit t @ drop w t0)))"

definition c_scan_s :: "string \<Rightarrow> (string \<times> string) option" where
  "c_scan_s s =
     (let t = dropWhile is_space s in
      if t = [] then None
      else Some (takeWhile (\<lambda>c. \<not> is_space c) t, dropWhile (\<lambda>c. \<not> is_space c) t))"

text \<open>\<open>strchr(s, '\n')\<close> and the step past it: what follows the line end.\<close>

definition next_line :: "string \<Rightarrow> string option" where
  "next_line s = (case dropWhile (\<lambda>c. c \<noteq> CHR 0x0A) s of [] \<Rightarrow> None | _ # r \<Rightarrow> Some r)"

section \<open>Reading what was printed\<close>

lemma snprintf_fits: "length s < n \<Longrightarrow> snprintf n s = s"
  by (simp add: snprintf_def)

lemma digits_base_dec_length: "length (digits_base 10 n) \<le> max 1 k" if "n < 10 ^ k"
  using that
proof (induction n arbitrary: k rule: less_induct)
  case (less n)
  show ?case
  proof (cases "n < 10")
    case True
    then show ?thesis by (simp add: digits_base.simps [of 10 n])
  next
    case False
    then obtain j where k: "k = Suc j" "j \<noteq> 0"
      using less.prems by (cases k; cases "k = 1") auto
    then have "n div 10 < 10 ^ j" using less.prems by (simp add: div_less_iff_less_mult mult.commute)
    then have "length (digits_base 10 (n div 10)) \<le> max 1 j" using less.IH [of "n div 10" j] False by simp
    with False k show ?thesis by (simp add: digits_base.simps [of 10 n])
  qed
qed

lemma fmt_u_length: "n < 10 ^ k \<Longrightarrow> length (fmt_u w n) \<le> max w (max 1 k)"
  using digits_base_dec_length [of n k] by (auto simp: fmt_u_def pad0_def)

lemma sign_chars: "\<not> is_digit (CHR ''-'')" "\<not> is_digit (CHR ''+'')" "\<not> is_space (CHR ''-'')"
  by (simp_all add: is_digit_def is_space_def)

lemma c_sign_digit: "is_digit (hd t) \<Longrightarrow> t \<noteq> [] \<Longrightarrow> c_sign t = (False, t)"
  using sign_chars by (cases t) (auto simp: c_sign_def)

lemma dropWhile_space_digits:
  assumes "list_all is_space sp" and "list_all is_digit ds" and "ds \<noteq> []"
  shows "dropWhile is_space (sp @ ds @ rest) = ds @ rest"
proof -
  have "\<not> is_space (hd ds)" using assms(2,3) by (cases ds) (auto simp: digit_no_space)
  then show ?thesis using assms by (cases ds) (simp_all add: dropWhile_all_append)
qed

lemma digits_then:
  assumes "list_all is_digit ds" and "rest = [] \<or> \<not> is_digit (hd rest)"
  shows "takeWhile is_digit (ds @ rest) = ds" and "dropWhile is_digit (ds @ rest) = rest"
proof -
  have "takeWhile is_digit rest = []" "dropWhile is_digit rest = rest"
    using assms(2) by (cases rest; auto)+
  then show "takeWhile is_digit (ds @ rest) = ds" "dropWhile is_digit (ds @ rest) = rest"
    using assms(1) by (simp_all add: takeWhile_all_append dropWhile_all_append)
qed

text \<open>What \<open>%0wu\<close> prints, \<open>%d\<close> of user space reads back.\<close>

lemma c_scan_d_fmt_u:
  assumes "rest = [] \<or> \<not> is_digit (hd rest)" and "list_all is_space sp" and "n < 2 ^ 63"
  shows "c_scan_d (sp @ fmt_u w n @ rest) = Some (of_nat n, rest)"
proof -
  note f = fmt_u_digits [of w n]
  have h: "is_digit (hd (fmt_u w n @ rest))" using f(1,3) by (cases "fmt_u w n") auto
  have s: "c_sign (fmt_u w n @ rest) = (False, fmt_u w n @ rest)" by (rule c_sign_digit [OF h]) (simp add: f(3))
  have "sat_long (int n) = int n" using assms(3) by (simp add: sat_long_def)
  then show ?thesis
    by (simp add: c_scan_d_def dropWhile_space_digits [OF assms(2) f(1,3)] s digits_then [OF f(1) assms(1)] f)
qed

lemma atoi_fmt_u: "n < 2 ^ 63 \<Longrightarrow> atoi (fmt_u w n) = of_nat n"
  using c_scan_d_fmt_u [of "[]" "[]" n w] by (simp add: atoi_def)

text \<open>Digits of base 16.\<close>

lemma digit_char_hex:
  assumes "d < 16"
  shows "is_xdigit (digit_char d)" and "xdigit_val (digit_char d) = int d"
proof -
  have c: "(of_char (digit_char d) :: nat) = (if d < 10 then 48 + d else 87 + d)"
    using assms by (simp add: digit_char_def of_char_of)
  have i: "(of_char (digit_char d) :: int) = int (of_char (digit_char d))" by (simp only: of_nat_of_char)
  show "is_xdigit (digit_char d)" using assms c by (auto simp: is_xdigit_def is_digit_def)
  show "xdigit_val (digit_char d) = int d" using assms c i by (auto simp: xdigit_val_def is_digit_def)
qed

lemma xdigits_val_snoc: "xdigits_val (ds @ [c]) = 16 * xdigits_val ds + xdigit_val c"
  by (simp add: xdigits_val_def)

lemma digits_base_hex:
  "list_all is_xdigit (digits_base 16 n) \<and> xdigits_val (digits_base 16 n) = int n"
proof (induction n rule: less_induct)
  case (less n)
  show ?case
  proof (cases "n < 16")
    case True
    then show ?thesis by (simp add: digits_base.simps [of 16 n] digit_char_hex xdigits_val_def)
  next
    case False
    with less.IH [of "n div 16"] have ih: "list_all is_xdigit (digits_base 16 (n div 16))"
      "xdigits_val (digits_base 16 (n div 16)) = int (n div 16)" by auto
    have "int (n div 16) * 16 + int (n mod 16) = int n"
      by (metis div_mult_mod_eq of_nat_add of_nat_mult of_nat_numeral)
    with False ih show ?thesis
      by (simp add: digits_base.simps [of 16 n] xdigits_val_snoc digit_char_hex)
  qed
qed

lemma xdigits_val_zeros: "xdigits_val (replicate z (CHR ''0'') @ ds) = xdigits_val ds"
  by (induction z) (simp_all add: xdigits_val_def xdigit_val_def is_digit_def)

lemma fmt_x_digits: "list_all is_xdigit (fmt_x w n)" "xdigits_val (fmt_x w n) = int n" "fmt_x w n \<noteq> []"
  using digits_base_hex [of n] digits_base_nonempty [of 16 n]
  by (auto simp: fmt_x_def pad0_def xdigits_val_zeros list_all_iff is_xdigit_def is_digit_def)

lemma xdigit_no_space: "is_xdigit c \<Longrightarrow> \<not> is_space c"
  by (auto simp: is_xdigit_def is_digit_def is_space_def)

lemma xdigit_no_x: "\<not> is_xdigit (CHR ''x'')" "\<not> is_xdigit (CHR ''X'')" "\<not> is_xdigit (CHR ''-'')" "\<not> is_xdigit (CHR ''+'')"
  by (simp_all add: is_xdigit_def is_digit_def)

text \<open>What \<open>%0wx\<close> prints, or any word of hexadecimal digits, \<open>%x\<close> of user space reads back.\<close>

lemma c_scan_x_digits:
  assumes f: "list_all is_xdigit ds" "ds \<noteq> []" and "rest = [] \<or> is_space (hd rest)"
    and "list_all is_space sp" and "length (ds @ rest) \<le> v"
  shows "c_scan_x v (sp @ ds @ rest) = Some (word_of_int (sat_ulong (xdigits_val ds)), rest)"
proof -
  have hx: "is_xdigit (hd (ds @ rest))" using f by (cases ds) auto
  then have d: "dropWhile is_space (sp @ ds @ rest) = ds @ rest"
    using assms(4) f(2) by (cases "ds @ rest") (auto simp: dropWhile_all_append xdigit_no_space)
  have s: "c_sign (ds @ rest) = (False, ds @ rest)"
    using hx f(2) xdigit_no_x by (cases "ds @ rest") (auto simp: c_sign_def)
  have x: "\<not> ((ds @ rest) ! 1 = CHR ''x'' \<or> (ds @ rest) ! 1 = CHR ''X'')" if "2 \<le> length (ds @ rest)"
  proof (cases "2 \<le> length ds")
    case True
    then have "is_xdigit (ds ! 1)" using f(1) by (simp add: list_all_length)
    then show ?thesis using True xdigit_no_x by (auto simp: nth_append)
  next
    case False
    then have "length ds = 1" using f(2) by (cases ds) (auto simp: Suc_le_eq)
    then have "(ds @ rest) ! 1 = hd rest" "rest \<noteq> []" using that by (cases rest; simp add: nth_append)+
    then show ?thesis using assms(3) by (auto simp: is_space_def)
  qed
  have r: "takeWhile is_xdigit rest = []" "dropWhile is_xdigit rest = rest"
    using assms(3) xdigit_no_space by (cases rest; auto)+
  have w: "take v (ds @ rest) = ds @ rest" "drop v (ds @ rest) = []" using assms(5) by simp_all
  have p: "(2 \<le> length (ds @ rest) \<and> take 1 (ds @ rest) = ''0'' \<and>
      ((ds @ rest) ! 1 = CHR ''x'' \<or> (ds @ rest) ! 1 = CHR ''X'')) = False"
    using x by blast
  have t: "takeWhile is_xdigit (ds @ rest) = ds" "dropWhile is_xdigit (ds @ rest) = rest"
    using r f(1) by (simp_all add: takeWhile_all_append dropWhile_all_append)
  show ?thesis
    unfolding c_scan_x_def d w s Let_def prod.case p if_False t by (simp add: f(2))
qed

lemma c_scan_x_fmt_x:
  assumes "rest = [] \<or> is_space (hd rest)" and "list_all is_space sp" and "n < 2 ^ 64"
    and "length (fmt_x w n @ rest) \<le> v"
  shows "c_scan_x v (sp @ fmt_x w n @ rest) = Some (of_nat n, rest)"
proof -
  have "sat_ulong (int n) = int n" using assms(3) by (simp add: sat_ulong_def)
  then show ?thesis
    using c_scan_x_digits [OF fmt_x_digits(1,3) assms(1,2,4)] by (simp add: fmt_x_digits(2))
qed

lemma c_scan_s_word:
  assumes "list_all (\<lambda>c. \<not> is_space c) s" and "s \<noteq> []" and "rest = [] \<or> is_space (hd rest)"
    and "list_all is_space sp"
  shows "c_scan_s (sp @ s @ rest) = Some (s, rest)"
proof -
  have d: "dropWhile is_space (sp @ s @ rest) = s @ rest"
    using assms(1,2,4) by (cases s) (simp_all add: dropWhile_all_append)
  have "takeWhile (\<lambda>c. \<not> is_space c) rest = []" "dropWhile (\<lambda>c. \<not> is_space c) rest = rest"
    using assms(3) by (cases rest; auto)+
  then show ?thesis
    using assms(1,2) by (simp add: c_scan_s_def d takeWhile_all_append dropWhile_all_append)
qed

lemma next_line_append:
  "list_all (\<lambda>c. c \<noteq> CHR 0x0A) s \<Longrightarrow> next_line (s @ CHR 0x0A # r) = Some r"
  by (simp add: next_line_def dropWhile_all_append)

end
