(* ===== verification/Effects.thy ===== *)
theory Effects
  imports "HOL-Library.State_Monad" "HOL-Library.While_Combinator"
begin

text \<open>
  Programs in the state monad of the library: reading and changing the state, loops that may not
  end, programs that leave a part of the state alone (\<open>keeps\<close>) and what a program makes true of the
  states it is started in (\<open>hoare\<close>). The user-space programs and the PTP filter are written in it.
\<close>

section \<open>Programs\<close>

abbreviation ret :: "'a \<Rightarrow> ('s, 'a) state" where
  "ret \<equiv> State_Monad.return"

definition gets :: "('s \<Rightarrow> 'a) \<Rightarrow> ('s, 'a) state" where
  "gets f = State (\<lambda>s. (f s, s))"

definition modify :: "('s \<Rightarrow> 's) \<Rightarrow> ('s, unit) state" where
  "modify f = State (\<lambda>s. ((), f s))"

text \<open>\<open>while (b r) r = body r;\<close> the result is \<open>None\<close> when the loop runs for ever.\<close>

definition loop :: "('r \<Rightarrow> bool) \<Rightarrow> ('r \<Rightarrow> ('s, 'r) state) \<Rightarrow> 'r \<Rightarrow> ('s, 'r option) state" where
  "loop b body r =
     State (\<lambda>s. case while_option (\<lambda>(r, s). b r) (\<lambda>(r, s). run_state (body r) s) (r, s) of
       None \<Rightarrow> (None, s)
     | Some (r', s') \<Rightarrow> (Some r', s'))"

lemma run_gets [simp]: "run_state (gets f) s = (f s, s)"
  by (simp add: gets_def)

lemma run_modify [simp]: "run_state (modify f) s = ((), f s)"
  by (simp add: modify_def)

lemma run_loop_stop: "\<not> b r \<Longrightarrow> run_state (loop b body r) s = (Some r, s)"
  by (simp add: loop_def while_option_unfold)

lemma while_option_None_step:
  assumes "b x" and "while_option b c (c x) = None"
  shows "while_option b c x = None"
  using assms by (subst while_option_unfold) simp

lemma run_loop_step:
  assumes "b r" and "run_state (body r) s = (r1, s1)" and "run_state (loop b body r1) s1 = (Some r2, s2)"
  shows "run_state (loop b body r) s = (Some r2, s2)"
  using assms by (simp add: loop_def while_option_unfold [of _ _ "(r, s)"] split: option.splits prod.splits)

lemma loop_exits:
  assumes "run_state (loop b body r) s = (Some r', t)"
  shows "\<not> b r'"
proof -
  obtain x where "while_option (\<lambda>(r, s). b r) (\<lambda>(r, s). run_state (body r) s) (r, s) = Some x" and "fst x = r'"
    using assms by (auto simp: loop_def split: option.splits prod.splits)
  then show ?thesis using while_option_stop by (cases x) fastforce
qed

lemma loop_rule:
  assumes run: "run_state (loop b body r) s = (Some r', t)"
    and step: "\<And>r s r1 s1. J r s \<Longrightarrow> b r \<Longrightarrow> run_state (body r) s = (r1, s1) \<Longrightarrow> J r1 s1" and "J r s"
  shows "J r' t"
proof -
  have w: "while_option (\<lambda>(r, s). b r) (\<lambda>(r, s). run_state (body r) s) (r, s) = Some (r', t)"
    using run by (simp add: loop_def split: option.splits prod.splits)
  have "(\<lambda>(r, s). J r s) (r', t)"
  proof (rule while_option_rule [OF _ w])
    fix y assume "case y of (r, s) \<Rightarrow> J r s" and "case y of (r, s) \<Rightarrow> b r"
    then show "case (case y of (r, s) \<Rightarrow> run_state (body r) s) of (r, s) \<Rightarrow> J r s"
      using step by (auto split: prod.splits)
  qed (use assms(3) in simp)
  then show ?thesis by simp
qed

section \<open>Programs that leave a part of the state alone\<close>

definition keeps :: "('s \<Rightarrow> 'x) \<Rightarrow> ('s, 'a) state \<Rightarrow> bool" where
  "keeps v m \<longleftrightarrow> (\<forall>s. v (snd (run_state m s)) = v s)"

named_theorems keeps_intros \<open>rules for keeps\<close>

lemma keeps_ret [keeps_intros]: "keeps v (ret a)"
  by (simp add: keeps_def)

lemma keeps_gets [keeps_intros]: "keeps v (gets f)"
  by (simp add: keeps_def)

lemma keeps_modify: "(\<And>s. v (f s) = v s) \<Longrightarrow> keeps v (modify f)"
  by (simp add: keeps_def)

lemma keeps_bind [keeps_intros]:
  assumes "keeps v m" and "\<And>a. keeps v (f a)"
  shows "keeps v (State_Monad.bind m f)"
  using assms by (simp add: keeps_def split: prod.splits) (metis snd_conv)

lemma keeps_if [keeps_intros]: "(b \<Longrightarrow> keeps v m) \<Longrightarrow> (\<not> b \<Longrightarrow> keeps v n) \<Longrightarrow> keeps v (if b then m else n)"
  by simp

lemma keeps_option [keeps_intros]:
  "(x = None \<Longrightarrow> keeps v m) \<Longrightarrow> (\<And>y. x = Some y \<Longrightarrow> keeps v (f y)) \<Longrightarrow>
   keeps v (case x of None \<Rightarrow> m | Some y \<Rightarrow> f y)"
  by (cases x) simp_all

lemma keeps_prod [keeps_intros]: "(\<And>a b. keeps v (f a b)) \<Longrightarrow> keeps v (case x of (a, b) \<Rightarrow> f a b)"
  by (cases x) simp

lemma keepsD: "keeps v m \<Longrightarrow> run_state m s = (a, s') \<Longrightarrow> v s' = v s"
  unfolding keeps_def by (metis snd_conv)

section \<open>What a program makes true\<close>

definition hoare :: "('s \<Rightarrow> bool) \<Rightarrow> ('s, 'a) state \<Rightarrow> ('a \<Rightarrow> 's \<Rightarrow> bool) \<Rightarrow> bool" where
  "hoare P m Q \<longleftrightarrow> (\<forall>s a s'. P s \<longrightarrow> run_state m s = (a, s') \<longrightarrow> Q a s')"

lemma hoareI: "(\<And>s a s'. P s \<Longrightarrow> run_state m s = (a, s') \<Longrightarrow> Q a s') \<Longrightarrow> hoare P m Q"
  by (simp add: hoare_def)

lemma hoareD: "hoare P m Q \<Longrightarrow> P s \<Longrightarrow> run_state m s = (a, s') \<Longrightarrow> Q a s'"
  by (simp add: hoare_def)

lemma hoare_pre: "hoare P' m Q \<Longrightarrow> (\<And>s. P s \<Longrightarrow> P' s) \<Longrightarrow> hoare P m Q"
  unfolding hoare_def by blast

lemma hoare_post: "hoare P m Q' \<Longrightarrow> (\<And>a s. Q' a s \<Longrightarrow> Q a s) \<Longrightarrow> hoare P m Q"
  unfolding hoare_def by blast

lemma hoare_bind:
  assumes "hoare P m Q" and "\<And>a. hoare (Q a) (f a) R"
  shows "hoare P (State_Monad.bind m f) R"
proof (rule hoareI)
  fix s a s' assume "P s" and run: "run_state (State_Monad.bind m f) s = (a, s')"
  obtain b s1 where "run_state m s = (b, s1)" by (metis prod.exhaust)
  moreover from this run have "run_state (f b) s1 = (a, s')" by simp
  ultimately show "R a s'" using assms \<open>P s\<close> unfolding hoare_def by blast
qed

text \<open>Invariants of programs. Reading the state tells what is read.\<close>

definition preserves :: "('s \<Rightarrow> bool) \<Rightarrow> ('s, 'a) state \<Rightarrow> bool" where
  "preserves I m \<longleftrightarrow> hoare I m (\<lambda>_. I)"

named_theorems preserves_intros \<open>rules for invariants\<close>

lemma preserves_ret [preserves_intros]: "preserves I (ret a)"
  by (simp add: preserves_def hoare_def)

lemma preserves_modify: "(\<And>s. I s \<Longrightarrow> I (f s)) \<Longrightarrow> preserves I (modify f)"
  by (simp add: preserves_def hoare_def)

lemma preserves_bind [preserves_intros]: "preserves I m \<Longrightarrow> (\<And>a. preserves I (f a)) \<Longrightarrow> preserves I (State_Monad.bind m f)"
  unfolding preserves_def by (rule hoare_bind)

lemma preserves_gets [preserves_intros]: "preserves I (gets f)"
  by (simp add: preserves_def hoare_def)

lemma preserves_read:
  assumes "\<And>s. I s \<Longrightarrow> preserves I (g (f s))"
  shows "preserves I (State_Monad.bind (gets f) g)"
  unfolding preserves_def
proof (rule hoareI)
  fix s a s' assume i: "I s" and "run_state (State_Monad.bind (gets f) g) s = (a, s')"
  then have "run_state (g (f s)) s = (a, s')" by simp
  then show "I s'" using hoareD assms [OF i, unfolded preserves_def] i by fast
qed

lemma preserves_if [preserves_intros]: "(b \<Longrightarrow> preserves I m) \<Longrightarrow> (\<not> b \<Longrightarrow> preserves I n) \<Longrightarrow> preserves I (if b then m else n)"
  by simp

lemma preserves_option [preserves_intros]:
  "(x = None \<Longrightarrow> preserves I m) \<Longrightarrow> (\<And>y. x = Some y \<Longrightarrow> preserves I (f y)) \<Longrightarrow>
   preserves I (case x of None \<Rightarrow> m | Some y \<Rightarrow> f y)"
  by (cases x) simp_all

lemma preserves_prod [preserves_intros]: "(\<And>a b. preserves I (f a b)) \<Longrightarrow> preserves I (case x of (a, b) \<Rightarrow> f a b)"
  by (cases x) simp

lemma preserves_list [preserves_intros]:
  "(x = [] \<Longrightarrow> preserves I m) \<Longrightarrow> (\<And>y ys. x = y # ys \<Longrightarrow> preserves I (f y ys)) \<Longrightarrow>
   preserves I (case x of [] \<Rightarrow> m | y # ys \<Rightarrow> f y ys)"
  by (cases x) simp_all

lemma preserves_loop [preserves_intros]:
  assumes "\<And>r. b r \<Longrightarrow> preserves I (body r)"
  shows "preserves I (loop b body r)"
  unfolding preserves_def
proof (rule hoareI)
  fix s a s' assume "I s" and run: "run_state (loop b body r) s = (a, s')"
  let ?b = "\<lambda>(r, s). b r" and ?c = "\<lambda>(r, s). run_state (body r) s"
  show "I s'"
  proof (cases "while_option ?b ?c (r, s)")
    case None
    then show ?thesis using run \<open>I s\<close> by (simp add: loop_def)
  next
    case (Some x)
    have "(\<lambda>(r, s). I s) x"
    proof (rule while_option_rule [OF _ Some])
      fix y assume "case y of (r, s) \<Rightarrow> I s" and "case y of (r, s) \<Rightarrow> b r"
      then show "case (?c y) of (r, s) \<Rightarrow> I s"
        using assms by (auto simp: preserves_def hoare_def split: prod.splits)
    qed (use \<open>I s\<close> in simp)
    then show ?thesis using run Some by (auto simp: loop_def split: prod.splits)
  qed
qed

lemma preservesD: "preserves I m \<Longrightarrow> I s \<Longrightarrow> run_state m s = (a, s') \<Longrightarrow> I s'"
  unfolding preserves_def hoare_def by blast

lemma keeps_preserves: "keeps v m \<Longrightarrow> preserves (\<lambda>s. P (v s)) m"
  unfolding preserves_def hoare_def using keepsD by metis

end
