(* ===== verification/USys.thy ===== *)
theory USys
  imports CStdio Effects
begin

text \<open>
  The ground of the user-space programs (\<^verbatim>\<open>userspace/\<close>): the structures of the wire protocol between
  client and daemon and of the driver libraries, the state of a process with its two global
  pointers, and the calls of the C library, of sockets and of \<^verbatim>\<open>libsysfs\<close> the programs make. These
  calls are the fields of \<open>uapi\<close>, parameters of the model; programs are written in the state monad
  of the library. Lists of \<^verbatim>\<open>libsysfs\<close> (\<open>dlist\<close>) that the virtual host controller library destroys
  are named by identifiers, so that destroying one twice is visible (\<open>us_fault\<close>).
\<close>

section \<open>Structures\<close>

text \<open>The sizes the packet structures are declared with; \<open>SYSFS_PATH_MAX\<close> and \<open>SYSFS_BUS_ID_SIZE\<close> have
  these values according to the comments there.\<close>

definition SYSFS_PATH_MAX :: nat where "SYSFS_PATH_MAX = 256"
definition SYSFS_BUS_ID_SIZE :: nat where "SYSFS_BUS_ID_SIZE = 32"

record usbip_usb_device =
  uu_path :: string
  uu_busid :: string
  uu_busnum :: u32
  uu_devnum :: u32
  uu_speed :: u32
  uu_idVendor :: u16
  uu_idProduct :: u16
  uu_bcdDevice :: u16
  uu_bDeviceClass :: u8
  uu_bDeviceSubClass :: u8
  uu_bDeviceProtocol :: u8
  uu_bConfigurationValue :: u8
  uu_bNumConfigurations :: u8
  uu_bNumInterfaces :: u8

record usbip_usb_interface =
  uf_bInterfaceClass :: u8
  uf_bInterfaceSubClass :: u8
  uf_bInterfaceProtocol :: u8
  uf_padding :: u8

definition zero_udev :: usbip_usb_device where
  "zero_udev = \<lparr>uu_path = replicate SYSFS_PATH_MAX NUL, uu_busid = replicate SYSFS_BUS_ID_SIZE NUL,
     uu_busnum = 0, uu_devnum = 0, uu_speed = 0, uu_idVendor = 0, uu_idProduct = 0, uu_bcdDevice = 0,
     uu_bDeviceClass = 0, uu_bDeviceSubClass = 0, uu_bDeviceProtocol = 0, uu_bConfigurationValue = 0,
     uu_bNumConfigurations = 0, uu_bNumInterfaces = 0\<rparr>"

text \<open>The fields of \<^verbatim>\<open>libsysfs\<close>' structures that the programs read.\<close>

record sysfs_device =
  sd_name :: string
  sd_path :: string
  sd_bus_id :: string
  sd_driver_name :: string

record sysfs_attribute =
  at_path :: string
  at_value :: string
  at_len :: int

type_synonym sysfs_driver = nat
type_synonym sysfs_class = nat
type_synonym addrinfo = nat

record usbip_class_device =
  cd_class_path :: string
  cd_dev_path :: string

text \<open>A list of class devices: the allocation it lives in, and its items.\<close>

type_synonym cdev_list = "nat \<times> usbip_class_device list"

record usbip_imported_device =
  id_port :: u8
  id_status :: u32
  id_devid :: u32
  id_busnum :: u8
  id_devnum :: u8
  id_cdev_list :: "cdev_list option"
  id_udev :: usbip_usb_device

definition zero_idev :: usbip_imported_device where
  "zero_idev = \<lparr>id_port = 0, id_status = 0, id_devid = 0, id_busnum = 0, id_devnum = 0,
     id_cdev_list = None, id_udev = zero_udev\<rparr>"

definition MAXNPORT :: nat where "MAXNPORT = 128"

record usbip_vhci_driver =
  uv_sysfs_mntpath :: string
  uv_hc_device :: "sysfs_device option"
  uv_cdev_list :: "cdev_list option"
  uv_nports :: int
  uv_idev :: "usbip_imported_device list"

definition zero_vhci_driver :: usbip_vhci_driver where
  "zero_vhci_driver = \<lparr>uv_sysfs_mntpath = [], uv_hc_device = None, uv_cdev_list = None, uv_nports = 0,
     uv_idev = replicate MAXNPORT zero_idev\<rparr>"

record usbip_exported_device =
  ed_sudev :: "sysfs_device option"
  ed_status :: s32
  ed_udev :: usbip_usb_device
  ed_uinf :: "usbip_usb_interface list"

record usbip_host_driver =
  uh_ndevs :: int
  uh_sysfs_driver :: "sysfs_driver option"
  uh_edev_list :: "usbip_exported_device list option"

section \<open>The calls of the programs\<close>

datatype sockopt = SO_REUSEADDR | TCP_NODELAY | SO_KEEPALIVE

text \<open>\<open>u_junk\<close> and \<open>u_junk32\<close> are the contents of a local variable that was not initialised.
  \<open>stat\<close>: the file is there (with \<open>st_mode & S_IFDIR\<close>), it is not (\<open>ENOENT\<close>), or the call failed.\<close>

datatype stat_result = Stat_ok bool | Stat_enoent | Stat_error

datatype mkdir_result = Mkdir_ok | Mkdir_exists | Mkdir_error

text \<open>\<open>ppoll\<close> fails (also when a signal arrives), times out, or names the descriptors that can be read.\<close>

datatype poll_result = Poll_error | Poll_timeout | Poll_ready "int list"

text \<open>\<open>fork\<close> returns in the child, in the parent, or fails.\<close>

datatype fork_result = Fork_child | Fork_parent | Fork_error

record 'w uapi =
  u_send :: "int \<Rightarrow> byte list \<Rightarrow> 'w \<Rightarrow> int \<times> 'w"
  u_recv :: "int \<Rightarrow> int \<Rightarrow> 'w \<Rightarrow> (int \<times> byte list) \<times> 'w"
  u_setsockopt :: "int \<Rightarrow> sockopt \<Rightarrow> 'w \<Rightarrow> int \<times> 'w"
  u_getaddrinfo :: "string option \<Rightarrow> string \<Rightarrow> 'w \<Rightarrow> (int \<times> addrinfo list) \<times> 'w"
  u_socket :: "addrinfo \<Rightarrow> 'w \<Rightarrow> int \<times> 'w"
  u_connect :: "int \<Rightarrow> addrinfo \<Rightarrow> 'w \<Rightarrow> int \<times> 'w"
  u_bind :: "int \<Rightarrow> addrinfo \<Rightarrow> 'w \<Rightarrow> int \<times> 'w"
  u_listen :: "int \<Rightarrow> 'w \<Rightarrow> int \<times> 'w"
  u_accept :: "int \<Rightarrow> 'w \<Rightarrow> int \<times> 'w"
  u_close :: "int \<Rightarrow> 'w \<Rightarrow> unit \<times> 'w"
  u_ppoll :: "int list \<Rightarrow> 'w \<Rightarrow> poll_result \<times> 'w"
  u_daemon :: "'w \<Rightarrow> int \<times> 'w"
  u_fork :: "'w \<Rightarrow> fork_result \<times> 'w"
  u_calloc :: "'w \<Rightarrow> bool \<times> 'w"
  u_junk :: "nat \<Rightarrow> 'w \<Rightarrow> string \<times> 'w"
  u_junk32 :: "'w \<Rightarrow> u32 \<times> 'w"
  u_mnt_path :: "'w \<Rightarrow> string option \<times> 'w"
  u_open_device :: "string \<Rightarrow> string \<Rightarrow> 'w \<Rightarrow> sysfs_device option \<times> 'w"
  u_open_device_path :: "string \<Rightarrow> 'w \<Rightarrow> sysfs_device option \<times> 'w"
  u_close_device :: "sysfs_device \<Rightarrow> 'w \<Rightarrow> unit \<times> 'w"
  u_device_parent :: "sysfs_device \<Rightarrow> 'w \<Rightarrow> sysfs_device option \<times> 'w"
  u_device_attr :: "sysfs_device \<Rightarrow> string \<Rightarrow> 'w \<Rightarrow> sysfs_attribute option \<times> 'w"
  u_open_attr :: "string \<Rightarrow> 'w \<Rightarrow> sysfs_attribute option \<times> 'w"
  u_read_attr :: "sysfs_attribute \<Rightarrow> 'w \<Rightarrow> (int \<times> sysfs_attribute) \<times> 'w"
  u_write_attr :: "sysfs_attribute \<Rightarrow> string \<Rightarrow> 'w \<Rightarrow> int \<times> 'w"
  u_close_attr :: "sysfs_attribute \<Rightarrow> 'w \<Rightarrow> unit \<times> 'w"
  u_open_driver :: "string \<Rightarrow> string \<Rightarrow> 'w \<Rightarrow> sysfs_driver option \<times> 'w"
  u_open_driver_path :: "string \<Rightarrow> 'w \<Rightarrow> sysfs_driver option \<times> 'w"
  u_close_driver :: "sysfs_driver \<Rightarrow> 'w \<Rightarrow> unit \<times> 'w"
  u_driver_devices :: "sysfs_driver \<Rightarrow> 'w \<Rightarrow> sysfs_device list option \<times> 'w"
  u_driver_attr :: "sysfs_driver \<Rightarrow> string \<Rightarrow> 'w \<Rightarrow> sysfs_attribute option \<times> 'w"
  u_open_class :: "string \<Rightarrow> 'w \<Rightarrow> sysfs_class option \<times> 'w"
  u_close_class :: "sysfs_class \<Rightarrow> 'w \<Rightarrow> unit \<times> 'w"
  u_class_devices :: "sysfs_class \<Rightarrow> 'w \<Rightarrow> string list option \<times> 'w"
  u_get_link :: "string \<Rightarrow> 'w \<Rightarrow> string option \<times> 'w"
  u_dir_list :: "string \<Rightarrow> 'w \<Rightarrow> string list option \<times> 'w"
  u_stat :: "string \<Rightarrow> 'w \<Rightarrow> stat_result \<times> 'w"
  u_usleep :: "nat \<Rightarrow> 'w \<Rightarrow> unit \<times> 'w"
  u_mkdir :: "string \<Rightarrow> 'w \<Rightarrow> mkdir_result \<times> 'w"
  u_rmdir :: "string \<Rightarrow> 'w \<Rightarrow> unit \<times> 'w"
  u_remove :: "string \<Rightarrow> 'w \<Rightarrow> unit \<times> 'w"
  u_open_file :: "string \<Rightarrow> 'w \<Rightarrow> int \<times> 'w"
  u_write_file :: "int \<Rightarrow> string \<Rightarrow> 'w \<Rightarrow> int \<times> 'w"

section \<open>The state of a process\<close>

record 'w ustate =
  us_os :: 'w
  us_vhci :: "usbip_vhci_driver option"
  us_host :: "usbip_host_driver option"
  us_next :: nat
  us_live :: "nat list"
  us_fault :: bool

text \<open>A call of the operating system, and access to the globals.\<close>

definition os :: "('w \<Rightarrow> 'a \<times> 'w) \<Rightarrow> ('w ustate, 'a) state" where
  "os f = State (\<lambda>s. case f (us_os s) of (a, w) \<Rightarrow> (a, s\<lparr>us_os := w\<rparr>))"

definition upd_vhci :: "(usbip_vhci_driver \<Rightarrow> usbip_vhci_driver) \<Rightarrow> ('w ustate, unit) state" where
  "upd_vhci f = modify (\<lambda>s. s\<lparr>us_vhci := map_option f (us_vhci s)\<rparr>)"

lemma run_os [simp]: "run_state (os f) s = (case f (us_os s) of (a, w) \<Rightarrow> (a, s\<lparr>us_os := w\<rparr>))"
  by (simp add: os_def)

lemma run_upd_vhci [simp]:
  "run_state (upd_vhci f) s = ((), s\<lparr>us_vhci := map_option f (us_vhci s)\<rparr>)"
  by (simp add: upd_vhci_def)

text \<open>\<open>None\<close> is a process that has ended: by \<open>abort()\<close>, or by leaving an array or following a null
  pointer.\<close>

definition andthen :: "('s, 'a option) state \<Rightarrow> ('a \<Rightarrow> ('s, 'b option) state) \<Rightarrow> ('s, 'b option) state" where
  "andthen m f = do {
     r \<leftarrow> m;
     case r of None \<Rightarrow> ret None | Some x \<Rightarrow> f x
   }"

lemma run_andthen [simp]:
  "run_state (andthen m f) s =
     (case run_state m s of (None, s') \<Rightarrow> (None, s') | (Some x, s') \<Rightarrow> run_state (f x) s')"
  by (auto simp: andthen_def split: prod.splits option.splits)

section \<open>Lists that are destroyed\<close>

definition dlist_new :: "'w uapi \<Rightarrow> ('w ustate, cdev_list option) state" where
  "dlist_new u = do {
     ok \<leftarrow> os (u_calloc u);
     if ok then do {
       i \<leftarrow> gets us_next;
       modify (\<lambda>s. s\<lparr>us_next := Suc i, us_live := i # us_live s\<rparr>);
       ret (Some (i, []))
     } else ret None
   }"

definition dlist_destroy :: "cdev_list \<Rightarrow> ('w ustate, unit) state" where
  "dlist_destroy l = modify (\<lambda>s.
     if fst l \<in> set (us_live s) then s\<lparr>us_live := remove1 (fst l) (us_live s)\<rparr>
     else s\<lparr>us_fault := True\<rparr>)"

definition dlist_destroy_opt :: "cdev_list option \<Rightarrow> ('w ustate, unit) state" where
  "dlist_destroy_opt lo = (case lo of None \<Rightarrow> ret () | Some l \<Rightarrow> dlist_destroy l)"

end
