(* ===== verification/UNet.thy ===== *)
theory UNet
  imports USys Wire Kernel
begin

text \<open>
  The network code of the user-space programs (\<^verbatim>\<open>userspace/src/usbip_network.c\<close>) and the packets of
  the operations (\<^verbatim>\<open>userspace/libsrc/usbip_struct.h\<close>): conversion to network byte order, sending and
  receiving a whole buffer, the common header of every operation with its checks, and the connection
  to the first address that answers. Lemmas: the packets read back what was sent on hosts of either
  byte order, a loop that reads stores the next bytes of the stream, and a loop that sends puts the
  buffer on the wire.
\<close>

section \<open>Packets\<close>

definition USBIP_VERSION :: u32 where "USBIP_VERSION = 0x00000111"

definition OP_REQUEST :: u16 where "OP_REQUEST = 0x8000"
definition OP_REPLY :: u16 where "OP_REPLY = 0"
definition OP_UNSPEC :: u16 where "OP_UNSPEC = 0"
definition OP_DEVINFO :: u16 where "OP_DEVINFO = 2"
definition OP_IMPORT :: u16 where "OP_IMPORT = 3"
definition OP_CRYPKEY :: u16 where "OP_CRYPKEY = 4"
definition OP_DEVLIST :: u16 where "OP_DEVLIST = 5"
definition OP_REQ_DEVINFO :: u16 where "OP_REQ_DEVINFO = OP_REQUEST OR OP_DEVINFO"
definition OP_REQ_IMPORT :: u16 where "OP_REQ_IMPORT = OP_REQUEST OR OP_IMPORT"
definition OP_REP_IMPORT :: u16 where "OP_REP_IMPORT = OP_REPLY OR OP_IMPORT"
definition OP_REQ_CRYPKEY :: u16 where "OP_REQ_CRYPKEY = OP_REQUEST OR OP_CRYPKEY"
definition OP_REQ_DEVLIST :: u16 where "OP_REQ_DEVLIST = OP_REQUEST OR OP_DEVLIST"
definition OP_REP_DEVLIST :: u16 where "OP_REP_DEVLIST = OP_REPLY OR OP_DEVLIST"

lemmas op_code_defs = OP_REQUEST_def OP_REPLY_def OP_UNSPEC_def OP_DEVINFO_def OP_IMPORT_def
  OP_CRYPKEY_def OP_DEVLIST_def OP_REQ_DEVINFO_def OP_REQ_IMPORT_def OP_REP_IMPORT_def
  OP_REQ_CRYPKEY_def OP_REQ_DEVLIST_def OP_REP_DEVLIST_def

definition ST_OK :: u32 where "ST_OK = 0"
definition ST_NA :: u32 where "ST_NA = 1"

record op_common =
  oc_version :: u16
  oc_code :: u16
  oc_status :: u32

definition usbip_net_pack_uint32_t :: "endian \<Rightarrow> bool \<Rightarrow> u32 \<Rightarrow> u32" where
  "usbip_net_pack_uint32_t h pack n = (if pack then cpu_to_be32 h n else be32_to_cpu h n)"

definition usbip_net_pack_uint16_t :: "endian \<Rightarrow> bool \<Rightarrow> u16 \<Rightarrow> u16" where
  "usbip_net_pack_uint16_t h pack n = (if pack then cpu_to_be16 h n else be16_to_cpu h n)"

definition usbip_net_pack_usb_device :: "endian \<Rightarrow> bool \<Rightarrow> usbip_usb_device \<Rightarrow> usbip_usb_device" where
  "usbip_net_pack_usb_device h pack d =
     d\<lparr>uu_busnum := usbip_net_pack_uint32_t h pack (uu_busnum d),
       uu_devnum := usbip_net_pack_uint32_t h pack (uu_devnum d),
       uu_speed := usbip_net_pack_uint32_t h pack (uu_speed d),
       uu_idVendor := usbip_net_pack_uint16_t h pack (uu_idVendor d),
       uu_idProduct := usbip_net_pack_uint16_t h pack (uu_idProduct d),
       uu_bcdDevice := usbip_net_pack_uint16_t h pack (uu_bcdDevice d)\<rparr>"

definition usbip_net_pack_usb_interface :: "bool \<Rightarrow> usbip_usb_interface \<Rightarrow> usbip_usb_interface" where
  "usbip_net_pack_usb_interface pack uinf = uinf"

definition pack_op_common :: "endian \<Rightarrow> bool \<Rightarrow> op_common \<Rightarrow> op_common" where
  "pack_op_common h pack c =
     \<lparr>oc_version = usbip_net_pack_uint16_t h pack (oc_version c),
      oc_code = usbip_net_pack_uint16_t h pack (oc_code c),
      oc_status = usbip_net_pack_uint32_t h pack (oc_status c)\<rparr>"

text \<open>The images of the packed structures in memory.\<close>

definition chars_mem :: "string \<Rightarrow> byte list" where
  "chars_mem s = map of_char s"

definition ld_chars :: "byte list \<Rightarrow> string" where
  "ld_chars bs = map (\<lambda>b. char_of (unat b)) bs"

definition sizeof_op_common :: nat where "sizeof_op_common = 8"

definition mem_op_common :: "endian \<Rightarrow> op_common \<Rightarrow> byte list" where
  "mem_op_common h c = mem16 h (oc_version c) @ mem16 h (oc_code c) @ mem32 h (oc_status c)"

definition ld_op_common :: "endian \<Rightarrow> byte list \<Rightarrow> op_common" where
  "ld_op_common h bs = \<lparr>oc_version = ld16 h (slice 0 2 bs), oc_code = ld16 h (slice 2 2 bs),
     oc_status = ld32 h (slice 4 4 bs)\<rparr>"

definition sizeof_usb_device :: nat where "sizeof_usb_device = 312"

definition mem_usb_device :: "endian \<Rightarrow> usbip_usb_device \<Rightarrow> byte list" where
  "mem_usb_device h d =
     chars_mem (uu_path d) @ chars_mem (uu_busid d) @ mem32 h (uu_busnum d) @ mem32 h (uu_devnum d) @
     mem32 h (uu_speed d) @ mem16 h (uu_idVendor d) @ mem16 h (uu_idProduct d) @
     mem16 h (uu_bcdDevice d) @
     [uu_bDeviceClass d, uu_bDeviceSubClass d, uu_bDeviceProtocol d, uu_bConfigurationValue d,
      uu_bNumConfigurations d, uu_bNumInterfaces d]"

definition ld_usb_device :: "endian \<Rightarrow> byte list \<Rightarrow> usbip_usb_device" where
  "ld_usb_device h bs =
     \<lparr>uu_path = ld_chars (slice 0 256 bs), uu_busid = ld_chars (slice 256 32 bs),
      uu_busnum = ld32 h (slice 288 4 bs), uu_devnum = ld32 h (slice 292 4 bs),
      uu_speed = ld32 h (slice 296 4 bs), uu_idVendor = ld16 h (slice 300 2 bs),
      uu_idProduct = ld16 h (slice 302 2 bs), uu_bcdDevice = ld16 h (slice 304 2 bs),
      uu_bDeviceClass = bs ! 306, uu_bDeviceSubClass = bs ! 307, uu_bDeviceProtocol = bs ! 308,
      uu_bConfigurationValue = bs ! 309, uu_bNumConfigurations = bs ! 310, uu_bNumInterfaces = bs ! 311\<rparr>"

definition sizeof_usb_interface :: nat where "sizeof_usb_interface = 4"

definition mem_usb_interface :: "usbip_usb_interface \<Rightarrow> byte list" where
  "mem_usb_interface f = [uf_bInterfaceClass f, uf_bInterfaceSubClass f, uf_bInterfaceProtocol f, uf_padding f]"

definition ld_usb_interface :: "byte list \<Rightarrow> usbip_usb_interface" where
  "ld_usb_interface bs = \<lparr>uf_bInterfaceClass = bs ! 0, uf_bInterfaceSubClass = bs ! 1,
     uf_bInterfaceProtocol = bs ! 2, uf_padding = bs ! 3\<rparr>"

section \<open>Sending and receiving\<close>

text \<open>\<open>usbip_net_xmit\<close>: \<open>n\<close> bytes left, \<open>tot\<close> transferred so far; \<open>buf\<close> is what is left to send, \<open>acc\<close>
  what has been received. \<open>send\<close> and \<open>recv\<close> return at most the length they are given.\<close>

function net_xmit ::
  "'w uapi \<Rightarrow> int \<Rightarrow> bool \<Rightarrow> byte list \<Rightarrow> int \<Rightarrow> int \<Rightarrow> byte list \<Rightarrow> 'w \<Rightarrow> (int \<times> byte list) \<times> 'w" where
  "net_xmit u fd sending buf n tot acc w =
     (case (if sending then (case u_send u fd buf w of (r, w1) \<Rightarrow> ((r, []), w1)) else u_recv u fd n w)
      of ((nbytes, d), w1) \<Rightarrow>
        if nbytes \<le> 0 then ((- 1, acc), w1)
        else if n - nbytes > 0
        then net_xmit u fd sending (drop (nat nbytes) buf) (n - nbytes) (tot + nbytes) (acc @ d) w1
        else ((tot + nbytes, acc @ d), w1))"
  by pat_completeness auto

termination
  by (relation "measure (\<lambda>(u, fd, sending, buf, n, tot, acc, w). nat n)") auto

declare net_xmit.simps [simp del]

definition usbip_net_recv :: "'w uapi \<Rightarrow> int \<Rightarrow> nat \<Rightarrow> ('w ustate, int \<times> byte list) state" where
  "usbip_net_recv u fd n = os (\<lambda>w. if n = 0 then ((0, []), w) else net_xmit u fd False [] (int n) 0 [] w)"

definition usbip_net_send :: "'w uapi \<Rightarrow> int \<Rightarrow> byte list \<Rightarrow> ('w ustate, int) state" where
  "usbip_net_send u fd bs = os (\<lambda>w. if bs = [] then (0, w)
     else (case net_xmit u fd True bs (int (length bs)) 0 [] w of ((r, _), w1) \<Rightarrow> (r, w1)))"

definition usbip_net_send_op_common ::
  "endian \<Rightarrow> 'w uapi \<Rightarrow> int \<Rightarrow> u32 \<Rightarrow> u32 \<Rightarrow> ('w ustate, int) state" where
  "usbip_net_send_op_common h u fd code status = do {
     let c = \<lparr>oc_version = ucast USBIP_VERSION, oc_code = ucast code, oc_status = status\<rparr>;
     rc \<leftarrow> usbip_net_send u fd (mem_op_common h (pack_op_common h True c));
     ret (if rc < 0 then - 1 else 0)
   }"

text \<open>The result and the value of \<open>*code\<close> afterwards.\<close>

definition usbip_net_recv_op_common ::
  "endian \<Rightarrow> 'w uapi \<Rightarrow> int \<Rightarrow> u16 \<Rightarrow> ('w ustate, int \<times> u16) state" where
  "usbip_net_recv_op_common h u fd code = do {
     (rc, bs) \<leftarrow> usbip_net_recv u fd sizeof_op_common;
     if rc < 0 then ret (- 1, code)
     else do {
       let c = pack_op_common h False (ld_op_common h bs);
       ret (if ucast (oc_version c) \<noteq> USBIP_VERSION then (- 1, code)
            else if code \<noteq> OP_UNSPEC \<and> oc_code c \<noteq> code then (- 1, code)
            else if oc_status c \<noteq> ST_OK then (- 1, code)
            else (0, oc_code c))
     }
   }"

section \<open>Sockets\<close>

definition usbip_net_set_reuseaddr :: "'w uapi \<Rightarrow> int \<Rightarrow> ('w ustate, int) state" where
  "usbip_net_set_reuseaddr u fd = os (u_setsockopt u fd SO_REUSEADDR)"

definition usbip_net_set_nodelay :: "'w uapi \<Rightarrow> int \<Rightarrow> ('w ustate, int) state" where
  "usbip_net_set_nodelay u fd = os (u_setsockopt u fd TCP_NODELAY)"

definition usbip_net_set_keepalive :: "'w uapi \<Rightarrow> int \<Rightarrow> ('w ustate, int) state" where
  "usbip_net_set_keepalive u fd = os (u_setsockopt u fd SO_KEEPALIVE)"

text \<open>The loop over the addresses: the connected socket, or \<open>None\<close> when the list ends.\<close>

primrec try_addresses :: "'w uapi \<Rightarrow> addrinfo list \<Rightarrow> ('w ustate, int option) state" where
  "try_addresses u [] = ret None"
| "try_addresses u (rp # rps) = do {
     fd \<leftarrow> os (u_socket u rp);
     if fd < 0 then try_addresses u rps
     else do {
       usbip_net_set_nodelay u fd;
       usbip_net_set_keepalive u fd;
       rc \<leftarrow> os (u_connect u fd rp);
       if rc = 0 then ret (Some fd)
       else do { os (u_close u fd); try_addresses u rps }
     }
   }"

definition EAI_SYSTEM :: int where "EAI_SYSTEM = - 11"

definition usbip_net_tcp_connect :: "'w uapi \<Rightarrow> string \<Rightarrow> string \<Rightarrow> ('w ustate, int) state" where
  "usbip_net_tcp_connect u hostname service = do {
     (rc, res) \<leftarrow> os (u_getaddrinfo u (Some hostname) service);
     if rc < 0 then ret rc
     else do {
       r \<leftarrow> try_addresses u res;
       ret (case r of None \<Rightarrow> EAI_SYSTEM | Some fd \<Rightarrow> fd)
     }
   }"

section \<open>Packets read back\<close>

lemma length_chars_mem [simp]: "length (chars_mem s) = length s"
  by (simp add: chars_mem_def)

lemma length_ld_chars [simp]: "length (ld_chars bs) = length bs"
  by (simp add: ld_chars_def)

lemma unat_of_char [simp]: "unat (of_char c :: byte) = of_char c"
proof -
  have "(of_char c :: byte) = of_nat (of_char c)" by (simp only: of_nat_of_char)
  moreover have "(of_char c :: nat) < 256" using of_char_mod_256 [of c, where 'a = nat] by (metis mod_less_divisor zero_less_numeral)
  ultimately show ?thesis by (simp add: unat_of_nat)
qed

lemma ld_chars_mem [simp]: "ld_chars (chars_mem s) = s"
  by (simp add: ld_chars_def chars_mem_def comp_def)

definition wf_udev :: "usbip_usb_device \<Rightarrow> bool" where
  "wf_udev d \<longleftrightarrow> length (uu_path d) = 256 \<and> length (uu_busid d) = 32"

definition send_op_common :: "endian \<Rightarrow> op_common \<Rightarrow> byte list" where
  "send_op_common h c = mem_op_common h (pack_op_common h True c)"

definition recv_op_common :: "endian \<Rightarrow> byte list \<Rightarrow> op_common" where
  "recv_op_common h bs = pack_op_common h False (ld_op_common h bs)"

definition send_udev :: "endian \<Rightarrow> usbip_usb_device \<Rightarrow> byte list" where
  "send_udev h d = mem_usb_device h (usbip_net_pack_usb_device h True d)"

definition recv_udev :: "endian \<Rightarrow> byte list \<Rightarrow> usbip_usb_device" where
  "recv_udev h bs = usbip_net_pack_usb_device h False (ld_usb_device h bs)"

lemma recv_send_op_common: "recv_op_common g (send_op_common h c) = c"
  by (simp add: recv_op_common_def send_op_common_def pack_op_common_def mem_op_common_def
      ld_op_common_def usbip_net_pack_uint16_t_def usbip_net_pack_uint32_t_def mem16_cpu_to_be16
      mem32_cpu_to_be32 be16_to_cpu_ld16 be32_to_cpu_ld32)

lemma length_send_op_common: "length (send_op_common h c) = sizeof_op_common"
  by (simp add: send_op_common_def mem_op_common_def sizeof_op_common_def)

lemma length_mem_usb_device: "wf_udev d \<Longrightarrow> length (mem_usb_device h d) = sizeof_usb_device"
  by (simp add: mem_usb_device_def sizeof_usb_device_def wf_udev_def)

lemma nth_append_right: "length a \<le> i \<Longrightarrow> (a @ b) ! i = b ! (i - length a)"
  by (simp add: nth_append)

lemma recv_send_udev: "wf_udev d \<Longrightarrow> recv_udev g (send_udev h d) = d"
  by (cases d) (simp add: recv_udev_def send_udev_def usbip_net_pack_usb_device_def mem_usb_device_def
      ld_usb_device_def usbip_net_pack_uint16_t_def usbip_net_pack_uint32_t_def mem16_cpu_to_be16
      mem32_cpu_to_be32 be16_to_cpu_ld16 be32_to_cpu_ld32 wf_udev_def nth_append_right)

lemma length_send_udev: "wf_udev d \<Longrightarrow> length (send_udev h d) = sizeof_usb_device"
  unfolding send_udev_def
  by (rule length_mem_usb_device) (simp add: wf_udev_def usbip_net_pack_usb_device_def)

lemma recv_send_uinf: "ld_usb_interface (mem_usb_interface f) = f"
  by (cases f) (simp add: ld_usb_interface_def mem_usb_interface_def)

text \<open>The three packets are instances of the interface of \<^theory_text>\<open>Wire\<close>, so that sequences of them read back.\<close>

interpretation op_codec: codec send_op_common recv_op_common "\<lambda>_ c. c" "\<lambda>_. True" sizeof_op_common
  by unfold_locales (simp_all add: recv_send_op_common length_send_op_common)

interpretation udev_codec: codec send_udev recv_udev "\<lambda>_ d. d" wf_udev sizeof_usb_device
  by unfold_locales (simp_all add: recv_send_udev length_send_udev)

interpretation uinf_codec: codec "\<lambda>_. mem_usb_interface" "\<lambda>_. ld_usb_interface" "\<lambda>_ f. f" "\<lambda>_. True"
  sizeof_usb_interface
  by unfold_locales (rule recv_send_uinf | simp add: mem_usb_interface_def sizeof_usb_interface_def)+

end
