(* ===== verification/UCommon.thy ===== *)
theory UCommon
  imports UNet
begin

text \<open>
  The part of the driver libraries both sides share (\<^verbatim>\<open>userspace/libsrc/usbip_common.c\<close>): reading
  the attributes of a device and of its interfaces from \<^verbatim>\<open>sysfs\<close>, and the names of statuses and
  speeds.
\<close>

section \<open>Names\<close>

definition usbip_status_string :: "s32 \<Rightarrow> string" where
  "usbip_status_string status =
     (case map_of
        [(1, ''Device Available''), (2, ''Device in Use''), (3, ''Device Error''), (4, ''Port Available''),
         (5, ''Port Initializing''), (6, ''Port in Use''), (7, ''Port Error'')] status of
        None \<Rightarrow> ''Unknown Status'' | Some d \<Rightarrow> d)"

definition speed_strings :: "(u32 \<times> string \<times> string) list" where
  "speed_strings =
     [(0, ''unknown'', ''Unknown Speed''), (1, ''1.5'', ''Low Speed(1.5Mbps)''),
      (2, ''12'', ''Full Speed(12Mbps)''), (3, ''480'', ''High Speed(480Mbps)'')]"

definition usbip_speed_string :: "u32 \<Rightarrow> string" where
  "usbip_speed_string num =
     (case find (\<lambda>e. fst e = num) speed_strings of None \<Rightarrow> ''Unknown Speed'' | Some (_, _, d) \<Rightarrow> d)"

section \<open>Attributes\<close>

text \<open>The formats that attributes are read with: \<open>%02x\<close>, \<open>%04x\<close> and \<open>%d\<close>.\<close>

datatype attr_format = Hex nat | Dec

definition scan_format :: "attr_format \<Rightarrow> string \<Rightarrow> s32" where
  "scan_format f v =
     (case f of
        Hex n \<Rightarrow> (case c_scan_x n v of None \<Rightarrow> 0 | Some (x, _) \<Rightarrow> ucast x)
      | Dec \<Rightarrow> (case c_scan_d v of None \<Rightarrow> 0 | Some (x, _) \<Rightarrow> x))"

definition attr_path_of :: "sysfs_device \<Rightarrow> string \<Rightarrow> string" where
  "attr_path_of dev name = snprintf SYSFS_PATH_MAX (sd_path dev @ ''/'' @ name)"

definition read_attr_value :: "'w uapi \<Rightarrow> sysfs_device \<Rightarrow> string \<Rightarrow> attr_format \<Rightarrow> ('w ustate, s32) state" where
  "read_attr_value u dev name f = do {
     at \<leftarrow> os (u_open_attr u (attr_path_of dev name));
     case at of
       None \<Rightarrow> ret 0
     | Some a \<Rightarrow> do {
         (r, a1) \<leftarrow> os (u_read_attr u a);
         os (u_close_attr u a1);
         ret (if r < 0 then 0 else scan_format f (at_value a1))
       }
   }"

text \<open>The local array is compared with the names of the speeds even when nothing was read into it.\<close>

definition read_attr_speed :: "'w uapi \<Rightarrow> sysfs_device \<Rightarrow> ('w ustate, u32) state" where
  "read_attr_speed u dev = do {
     at \<leftarrow> os (u_open_attr u (attr_path_of dev ''speed''));
     case at of
       None \<Rightarrow> ret 0
     | Some a \<Rightarrow> do {
         junk \<leftarrow> os (u_junk u 100);
         (r, a1) \<leftarrow> os (u_read_attr u a);
         os (u_close_attr u a1);
         let speed = (if r < 0 then cstr junk
                      else (case c_scan_s (at_value a1) of None \<Rightarrow> cstr junk | Some (w, _) \<Rightarrow> w));
         ret (case find (\<lambda>e. fst (snd e) = speed) speed_strings of None \<Rightarrow> 0 | Some e \<Rightarrow> fst e)
       }
   }"

definition read_usb_device :: "'w uapi \<Rightarrow> sysfs_device \<Rightarrow> ('w ustate, usbip_usb_device) state" where
  "read_usb_device u sdev = do {
     cls \<leftarrow> read_attr_value u sdev ''bDeviceClass'' (Hex 2);
     sub \<leftarrow> read_attr_value u sdev ''bDeviceSubClass'' (Hex 2);
     pro \<leftarrow> read_attr_value u sdev ''bDeviceProtocol'' (Hex 2);
     ven \<leftarrow> read_attr_value u sdev ''idVendor'' (Hex 4);
     prd \<leftarrow> read_attr_value u sdev ''idProduct'' (Hex 4);
     bcd \<leftarrow> read_attr_value u sdev ''bcdDevice'' (Hex 4);
     cnf \<leftarrow> read_attr_value u sdev ''bConfigurationValue'' (Hex 2);
     ncf \<leftarrow> read_attr_value u sdev ''bNumConfigurations'' (Hex 2);
     nif \<leftarrow> read_attr_value u sdev ''bNumInterfaces'' (Hex 2);
     dev \<leftarrow> read_attr_value u sdev ''devnum'' Dec;
     spd \<leftarrow> read_attr_speed u sdev;
     junk \<leftarrow> os (u_junk32 u);
     ret \<lparr>uu_path = strncpy (sd_path sdev) SYSFS_PATH_MAX,
          uu_busid = strncpy (sd_name sdev) SYSFS_BUS_ID_SIZE,
          uu_busnum = (case c_scan_u (sd_name sdev) of None \<Rightarrow> junk | Some (v, _) \<Rightarrow> v),
          uu_devnum = ucast (ucast dev :: u8), uu_speed = spd, uu_idVendor = ucast ven,
          uu_idProduct = ucast prd, uu_bcdDevice = ucast bcd, uu_bDeviceClass = ucast cls,
          uu_bDeviceSubClass = ucast sub, uu_bDeviceProtocol = ucast pro,
          uu_bConfigurationValue = ucast cnf, uu_bNumConfigurations = ucast ncf,
          uu_bNumInterfaces = ucast nif\<rparr>
   }"

definition read_usb_interface ::
  "'w uapi \<Rightarrow> usbip_usb_device \<Rightarrow> nat \<Rightarrow> usbip_usb_interface \<Rightarrow> ('w ustate, int \<times> usbip_usb_interface) state" where
  "read_usb_interface u udev i uinf = do {
     sif \<leftarrow> os (u_open_device u ''usb''
       (cstr (uu_busid udev) @ '':'' @ fmt_u 1 (unat (uu_bConfigurationValue udev)) @ ''.'' @ fmt_u 1 i));
     case sif of
       None \<Rightarrow> ret (- 1, uinf)
     | Some d \<Rightarrow> do {
         cls \<leftarrow> read_attr_value u d ''bInterfaceClass'' (Hex 2);
         sub \<leftarrow> read_attr_value u d ''bInterfaceSubClass'' (Hex 2);
         pro \<leftarrow> read_attr_value u d ''bInterfaceProtocol'' (Hex 2);
         os (u_close_device u d);
         ret (0, uinf\<lparr>uf_bInterfaceClass := ucast cls, uf_bInterfaceSubClass := ucast sub,
                     uf_bInterfaceProtocol := ucast pro\<rparr>)
       }
   }"

end
