(* ===== verification/UVhci.thy ===== *)
theory UVhci
  imports UCommon
begin

text \<open>
  The library for the virtual host controller (\<^verbatim>\<open>userspace/libsrc/vhci_driver.c\<close>): finding the
  controller in \<^verbatim>\<open>sysfs\<close>, reading its status table into an array of imported devices, choosing a
  free port, and writing the \<open>attach\<close> and \<open>detach\<close> attributes. A result of \<open>None\<close> is a process that
  has ended: \<open>abort()\<close> of the macro \<open>BUG\<close>, an access outside \<open>idev\<close> or \<open>lbusid\<close>, or a null pointer.
\<close>

section \<open>The status table\<close>

definition strlen_prefix :: "string \<Rightarrow> string \<Rightarrow> bool" where
  "strlen_prefix p s \<longleftrightarrow> strncmp_eq s p (length (cstr p))"

text \<open>Copies of the class devices below the path of a device, each pushed in front of the list.\<close>

primrec copy_cdevs ::
  "'w uapi \<Rightarrow> string \<Rightarrow> usbip_class_device list \<Rightarrow> usbip_class_device list \<Rightarrow>
   ('w ustate, usbip_class_device list \<times> bool) state" where
  "copy_cdevs u path [] l = ret (l, True)"
| "copy_cdevs u path (c # cs) l =
     (if strlen_prefix path (cd_dev_path c)
      then do {
        ok \<leftarrow> os (u_calloc u);
        if ok then copy_cdevs u path cs (c # l) else ret (l, False)
      }
      else copy_cdevs u path cs l)"

definition set_idev ::
  "nat \<Rightarrow> (usbip_imported_device \<Rightarrow> usbip_imported_device) \<Rightarrow> usbip_vhci_driver \<Rightarrow> usbip_vhci_driver" where
  "set_idev i f d = d\<lparr>uv_idev := (uv_idev d)[i := f (uv_idev d ! i)]\<rparr>"

definition cdev_items :: "cdev_list option \<Rightarrow> usbip_class_device list" where
  "cdev_items l = (case l of None \<Rightarrow> [] | Some (_, xs) \<Rightarrow> xs)"

definition set_items :: "usbip_class_device list \<Rightarrow> cdev_list option \<Rightarrow> cdev_list option" where
  "set_items xs l = map_option (\<lambda>(i, _). (i, xs)) l"

text \<open>\<open>imported_device_init(&vhci_driver->idev[i], busid)\<close>: whether it returned the device.\<close>

definition imported_device_init :: "'w uapi \<Rightarrow> nat \<Rightarrow> string \<Rightarrow> ('w ustate, bool) state" where
  "imported_device_init u i busid = do {
     sudev \<leftarrow> os (u_open_device u ''usb'' busid);
     case sudev of
       None \<Rightarrow> ret False
     | Some sd \<Rightarrow> do {
         udev \<leftarrow> read_usb_device u sd;
         upd_vhci (set_idev i (\<lambda>e. e\<lparr>id_udev := udev\<rparr>));
         os (u_close_device u sd);
         cdevs \<leftarrow> gets (\<lambda>s. case us_vhci s of None \<Rightarrow> [] | Some d \<Rightarrow> cdev_items (uv_cdev_list d));
         (l, ok) \<leftarrow> copy_cdevs u (uu_path udev) cdevs [];
         upd_vhci (set_idev i (\<lambda>e. e\<lparr>id_cdev_list := set_items l (id_cdev_list e)\<rparr>));
         ret ok
       }
   }"

text \<open>The conversions of one line; \<open>None\<close> when fewer than five succeed. \<open>lbusid\<close> may be missing.\<close>

definition scan_status_line :: "string \<Rightarrow> (s32 \<times> s32 \<times> s32 \<times> u32 \<times> u64 \<times> string option) option" where
  "scan_status_line c = do {
     (port, r1) \<leftarrow> c_scan_d c;
     (status, r2) \<leftarrow> c_scan_d r1;
     (speed, r3) \<leftarrow> c_scan_d r2;
     (dvid, r4) \<leftarrow> c_scan_x (length r3) r3;
     (socket, r5) \<leftarrow> c_scan_x (length r4) r4;
     Some (port, status, speed, ucast dvid, socket, map_option fst (c_scan_s r5))
   }"

definition vdev_st :: "usbip_status \<Rightarrow> u32" where
  "vdev_st st = of_nat (status_num st)"

definition parse_status_line :: "'w uapi \<Rightarrow> string \<Rightarrow> ('w ustate, int option) state" where
  "parse_status_line u c =
     (case scan_status_line c of
        None \<Rightarrow> ret None
      | Some (port, status, speed, dvid, socket, lb) \<Rightarrow>
          if sint port < 0 \<or> int MAXNPORT \<le> sint port \<or>
             (\<exists>b\<in>set_option lb. SYSFS_BUS_ID_SIZE \<le> length b) then ret None
          else do {
            junk \<leftarrow> os (u_junk u SYSFS_BUS_ID_SIZE);
            let i = nat (sint port);
            let lbusid = (case lb of None \<Rightarrow> cstr junk | Some b \<Rightarrow> b);
            l \<leftarrow> dlist_new u;
            upd_vhci (set_idev i (\<lambda>e. e\<lparr>id_port := ucast port, id_status := status, id_devid := dvid,
              id_busnum := ucast (drop_bit 16 dvid), id_devnum := ucast (dvid AND 0x0000ffff),
              id_cdev_list := l\<rparr>));
            if l = None then ret (Some (- 1))
            else if status \<noteq> vdev_st VDEV_ST_NULL \<and> status \<noteq> vdev_st VDEV_ST_NOTASSIGNED
            then do {
              ok \<leftarrow> imported_device_init u i lbusid;
              ret (Some (if ok then 0 else - 1))
            }
            else ret (Some 0)
          })"

text \<open>The positions at which the loop stands: the beginnings of the lines.\<close>

lemma next_line_shorter [dest]: "next_line c = Some r \<Longrightarrow> length r < length c"
  using length_dropWhile_le [of "\<lambda>c. c \<noteq> CHR 0x0A" c]
  by (auto simp: next_line_def split: list.splits)

function line_rests :: "string \<Rightarrow> string list" where
  "line_rests c =
     (if c = [] then [] else c # (case next_line c of None \<Rightarrow> [] | Some r \<Rightarrow> line_rests r))"
  by pat_completeness auto

termination
  by (relation "measure length") auto

declare line_rests.simps [simp del]

primrec parse_lines :: "'w uapi \<Rightarrow> string list \<Rightarrow> ('w ustate, int option) state" where
  "parse_lines u [] = ret (Some 0)"
| "parse_lines u (c # cs) =
     andthen (parse_status_line u c) (\<lambda>rc. if rc < 0 then ret (Some (- 1)) else parse_lines u cs)"

definition parse_status :: "'w uapi \<Rightarrow> string \<Rightarrow> ('w ustate, int option) state" where
  "parse_status u value_str = do {
     v \<leftarrow> gets us_vhci;
     case v of
       None \<Rightarrow> ret None
     | Some d \<Rightarrow>
         if int MAXNPORT < uv_nports d then ret None
         else do {
           upd_vhci (\<lambda>d. d\<lparr>uv_idev := replicate (nat (uv_nports d)) zero_idev @
                                      drop (nat (uv_nports d)) (uv_idev d)\<rparr>);
           case next_line value_str of
             None \<Rightarrow> ret (Some (- 1))
           | Some c \<Rightarrow> parse_lines u (line_rests c)
         }
   }"

section \<open>Class devices\<close>

text \<open>Names of \<^verbatim>\<open>libsysfs\<close>.\<close>

definition SYSFS_BUS_NAME :: string where "SYSFS_BUS_NAME = ''bus''"
definition SYSFS_CLASS_NAME :: string where "SYSFS_CLASS_NAME = ''class''"
definition SYSFS_BLOCK_NAME :: string where "SYSFS_BLOCK_NAME = ''block''"
definition SYSFS_DRIVERS_NAME :: string where "SYSFS_DRIVERS_NAME = ''drivers''"
definition SYSFS_DEVICES_NAME :: string where "SYSFS_DEVICES_NAME = ''devices''"
definition USBIP_VHCI_BUS_TYPE :: string where "USBIP_VHCI_BUS_TYPE = ''platform''"
definition USBIP_VHCI_DRV_NAME :: string where "USBIP_VHCI_DRV_NAME = ''vhci_hcd''"
definition USBIP_HOST_DRV_NAME :: string where "USBIP_HOST_DRV_NAME = ''usbip-host''"

text \<open>A path of several names, as the formats \<open>%s/%s/...\<close> build it.\<close>

fun join_path :: "string list \<Rightarrow> string" where
  "join_path [] = []"
| "join_path [x] = x"
| "join_path (x # xs) = x @ ''/'' @ join_path xs"

definition check_usbip_device :: "'w uapi \<Rightarrow> sysfs_device \<Rightarrow> string \<Rightarrow> ('w ustate, int) state" where
  "check_usbip_device u hc cdev_path = do {
     let class_path = snprintf SYSFS_PATH_MAX (cdev_path @ ''/device'');
     link \<leftarrow> os (u_get_link u class_path);
     case link of
       None \<Rightarrow> ret 0
     | Some dev_path \<Rightarrow>
         if strlen_prefix (sd_path hc) dev_path
         then do {
           ok \<leftarrow> os (u_calloc u);
           if ok then do {
             upd_vhci (\<lambda>d. d\<lparr>uv_cdev_list := set_items
               (\<lparr>cd_class_path = strncpy class_path SYSFS_PATH_MAX,
                 cd_dev_path = strncpy dev_path SYSFS_PATH_MAX\<rparr> # cdev_items (uv_cdev_list d))
               (uv_cdev_list d)\<rparr>);
             ret 0
           } else ret (- 1)
         }
         else ret 0
   }"

primrec check_usbip_devices :: "'w uapi \<Rightarrow> sysfs_device \<Rightarrow> string list \<Rightarrow> ('w ustate, int) state" where
  "check_usbip_devices u hc [] = ret 0"
| "check_usbip_devices u hc (p # ps) = do {
     rc \<leftarrow> check_usbip_device u hc p;
     if rc < 0 then ret rc else check_usbip_devices u hc ps
   }"

definition search_class_for_usbip_device :: "'w uapi \<Rightarrow> sysfs_device \<Rightarrow> string \<Rightarrow> ('w ustate, int) state" where
  "search_class_for_usbip_device u hc cname = do {
     cls \<leftarrow> os (u_open_class u cname);
     case cls of
       None \<Rightarrow> ret (- 1)
     | Some c \<Rightarrow> do {
         ds \<leftarrow> os (u_class_devices u c);
         rc \<leftarrow> (case ds of None \<Rightarrow> ret 0 | Some ps \<Rightarrow> check_usbip_devices u hc ps);
         os (u_close_class u c);
         ret rc
       }
   }"

primrec search_classes :: "'w uapi \<Rightarrow> sysfs_device \<Rightarrow> string list \<Rightarrow> ('w ustate, int) state" where
  "search_classes u hc [] = ret 0"
| "search_classes u hc (n # ns) = do {
     rc \<leftarrow> search_class_for_usbip_device u hc n;
     if rc < 0 then ret (- 1) else search_classes u hc ns
   }"

definition refresh_class_device_list :: "'w uapi \<Rightarrow> sysfs_device \<Rightarrow> ('w ustate, int) state" where
  "refresh_class_device_list u hc = do {
     mnt \<leftarrow> os (u_mnt_path u);
     case mnt of
       None \<Rightarrow> ret (- 1)
     | Some m \<Rightarrow> do {
         names \<leftarrow> os (u_dir_list u (snprintf SYSFS_PATH_MAX (join_path [m, SYSFS_CLASS_NAME])));
         case names of
           None \<Rightarrow> ret (- 1)
         | Some ns \<Rightarrow> do {
             rc \<leftarrow> search_classes u hc ns;
             if rc < 0 then ret (- 1)
             else do {
               rc2 \<leftarrow> search_class_for_usbip_device u hc SYSFS_BLOCK_NAME;
               ret (if rc2 < 0 then - 1 else 0)
             }
           }
       }
   }"

section \<open>Opening and closing\<close>

definition refresh_imported_device_list :: "'w uapi \<Rightarrow> sysfs_device \<Rightarrow> ('w ustate, int option) state" where
  "refresh_imported_device_list u hc = do {
     at \<leftarrow> os (u_device_attr u hc ''status'');
     case at of None \<Rightarrow> ret (Some (- 1)) | Some a \<Rightarrow> parse_status u (at_value a)
   }"

text \<open>The loop of \<open>get_nports\<close> counts the line ends after the header line.\<close>

function count_lines :: "string \<Rightarrow> int" where
  "count_lines c = (if c = [] then 0 else (case next_line c of None \<Rightarrow> 0 | Some r \<Rightarrow> 1 + count_lines r))"
  by pat_completeness auto

termination
  by (relation "measure length") auto

declare count_lines.simps [simp del]

definition get_nports :: "'w uapi \<Rightarrow> sysfs_device \<Rightarrow> ('w ustate, int) state" where
  "get_nports u hc = do {
     at \<leftarrow> os (u_device_attr u hc ''status'');
     ret (case at of
            None \<Rightarrow> - 1
          | Some a \<Rightarrow> (case next_line (at_value a) of None \<Rightarrow> 0 | Some c \<Rightarrow> count_lines c))
   }"

text \<open>The last device of the driver wins.\<close>

definition get_hc_busid :: "'w uapi \<Rightarrow> string \<Rightarrow> ('w ustate, string option) state" where
  "get_hc_busid u mnt = do {
     drv \<leftarrow> os (u_open_driver_path u (snprintf SYSFS_PATH_MAX
       (join_path [mnt, SYSFS_BUS_NAME, USBIP_VHCI_BUS_TYPE, SYSFS_DRIVERS_NAME, USBIP_VHCI_DRV_NAME])));
     case drv of
       None \<Rightarrow> ret None
     | Some dr \<Rightarrow> do {
         ds \<leftarrow> os (u_driver_devices u dr);
         os (u_close_driver u dr);
         ret (case ds of
                None \<Rightarrow> None
              | Some l \<Rightarrow> if l = [] then None else Some (strncpy (sd_bus_id (last l)) SYSFS_BUS_ID_SIZE))
       }
   }"

text \<open>The label \<open>err\<close> of \<open>usbip_vhci_driver_open\<close>.\<close>

definition close_hc :: "'w uapi \<Rightarrow> usbip_vhci_driver \<Rightarrow> ('w ustate, unit) state" where
  "close_hc u d = (case uv_hc_device d of None \<Rightarrow> ret () | Some hc \<Rightarrow> os (u_close_device u hc))"

definition driver_open_err :: "'w uapi \<Rightarrow> ('w ustate, int option) state" where
  "driver_open_err u = do {
     v \<leftarrow> gets us_vhci;
     case v of
       None \<Rightarrow> ret None
     | Some d \<Rightarrow> do {
         dlist_destroy_opt (uv_cdev_list d);
         close_hc u d;
         modify (\<lambda>s. s\<lparr>us_vhci := None\<rparr>);
         ret (Some (- 1))
       }
   }"

text \<open>The second half of opening: the lists of class devices and of imported devices.\<close>

definition fill_lists :: "'w uapi \<Rightarrow> sysfs_device \<Rightarrow> ('w ustate, int option) state" where
  "fill_lists u hc = do {
     l \<leftarrow> dlist_new u;
     upd_vhci (\<lambda>d. d\<lparr>uv_cdev_list := l\<rparr>);
     if l = None then ret (Some (- 1))
     else do {
       rc \<leftarrow> refresh_class_device_list u hc;
       if rc \<noteq> 0 then ret (Some (- 1)) else refresh_imported_device_list u hc
     }
   }"

definition usbip_vhci_driver_open :: "'w uapi \<Rightarrow> ('w ustate, int option) state" where
  "usbip_vhci_driver_open u = do {
     ok \<leftarrow> os (u_calloc u);
     modify (\<lambda>s. s\<lparr>us_vhci := (if ok then Some zero_vhci_driver else None)\<rparr>);
     if \<not> ok then ret (Some (- 1))
     else do {
       mnt \<leftarrow> os (u_mnt_path u);
       case mnt of
         None \<Rightarrow> driver_open_err u
       | Some m \<Rightarrow> do {
           upd_vhci (\<lambda>d. d\<lparr>uv_sysfs_mntpath := m\<rparr>);
           busid \<leftarrow> get_hc_busid u m;
           case busid of
             None \<Rightarrow> driver_open_err u
           | Some b \<Rightarrow> do {
               hc \<leftarrow> os (u_open_device u USBIP_VHCI_BUS_TYPE (cstr b));
               upd_vhci (\<lambda>d. d\<lparr>uv_hc_device := hc\<rparr>);
               case hc of
                 None \<Rightarrow> driver_open_err u
               | Some hcd \<Rightarrow> do {
                   n \<leftarrow> get_nports u hcd;
                   upd_vhci (\<lambda>d. d\<lparr>uv_nports := n\<rparr>);
                   andthen (fill_lists u hcd)
                     (\<lambda>rc. if rc \<noteq> 0 then driver_open_err u else ret (Some 0))
                 }
             }
         }
     }
   }"

primrec destroy_all :: "cdev_list option list \<Rightarrow> ('w ustate, unit) state" where
  "destroy_all [] = ret ()"
| "destroy_all (l # ls) = do { dlist_destroy_opt l; destroy_all ls }"

definition idev_lists :: "usbip_vhci_driver \<Rightarrow> cdev_list option list" where
  "idev_lists d = map id_cdev_list (take (nat (uv_nports d)) (uv_idev d))"

definition usbip_vhci_driver_close :: "'w uapi \<Rightarrow> ('w ustate, unit) state" where
  "usbip_vhci_driver_close u = do {
     v \<leftarrow> gets us_vhci;
     case v of
       None \<Rightarrow> ret ()
     | Some d \<Rightarrow> do {
         dlist_destroy_opt (uv_cdev_list d);
         destroy_all (idev_lists d);
         close_hc u d;
         modify (\<lambda>s. s\<lparr>us_vhci := None\<rparr>)
       }
   }"

text \<open>The lists are destroyed before they are built again, and again on the error path, where the
  pointers of \<open>idev\<close> may still be those of the destroyed lists.\<close>

definition usbip_vhci_refresh_device_list :: "'w uapi \<Rightarrow> ('w ustate, int option) state" where
  "usbip_vhci_refresh_device_list u = do {
     v \<leftarrow> gets us_vhci;
     case v of
       None \<Rightarrow> ret None
     | Some d \<Rightarrow> (case uv_hc_device d of
         None \<Rightarrow> ret None
       | Some hc \<Rightarrow> do {
           dlist_destroy_opt (uv_cdev_list d);
           destroy_all (idev_lists d);
           andthen (fill_lists u hc) (\<lambda>rc.
             if rc = 0 then ret (Some 0)
             else do {
               v1 \<leftarrow> gets us_vhci;
               case v1 of
                 None \<Rightarrow> ret None
               | Some d1 \<Rightarrow> do {
                   dlist_destroy_opt (uv_cdev_list d1);
                   destroy_all (idev_lists d1);
                   ret (Some (- 1))
                 }
             })
         })
   }"

section \<open>Ports\<close>

definition usbip_vhci_get_free_port :: "usbip_vhci_driver \<Rightarrow> int" where
  "usbip_vhci_get_free_port d =
     (case find_idx (\<lambda>e. id_status e = vdev_st VDEV_ST_NULL) 0 (take (nat (uv_nports d)) (uv_idev d)) of
        None \<Rightarrow> - 1
      | Some i \<Rightarrow> int i)"

text \<open>Writing an attribute of the controller; \<open>None\<close> is the null pointer followed when it is not open.\<close>

definition write_hc_attr :: "'w uapi \<Rightarrow> string \<Rightarrow> string \<Rightarrow> ('w ustate, int option) state" where
  "write_hc_attr u name buff = do {
     v \<leftarrow> gets us_vhci;
     case Option.bind v uv_hc_device of
       None \<Rightarrow> ret None
     | Some hc \<Rightarrow> do {
         at \<leftarrow> os (u_device_attr u hc name);
         case at of
           None \<Rightarrow> ret (Some (- 1))
         | Some a \<Rightarrow> do {
             rc \<leftarrow> os (u_write_attr u a buff);
             ret (Some (if rc < 0 then - 1 else 0))
           }
       }
   }"

definition attach_string :: "u8 \<Rightarrow> u32 \<Rightarrow> u32 \<Rightarrow> u32 \<Rightarrow> string" where
  "attach_string port sockfd dvid speed =
     snprintf 200 (fmt_u 1 (unat port) @ '' '' @ fmt_u 1 (unat sockfd) @ '' '' @ fmt_u 1 (unat dvid) @
                   '' '' @ fmt_u 1 (unat speed))"

definition usbip_vhci_attach_device2 ::
  "'w uapi \<Rightarrow> u8 \<Rightarrow> int \<Rightarrow> u32 \<Rightarrow> u32 \<Rightarrow> ('w ustate, int option) state" where
  "usbip_vhci_attach_device2 u port sockfd dvid speed =
     write_hc_attr u ''attach'' (attach_string port (word_of_int sockfd) dvid speed)"

definition get_devid :: "u8 \<Rightarrow> u8 \<Rightarrow> u64" where
  "get_devid bus dev = push_bit 16 (ucast bus) OR ucast dev"

definition usbip_vhci_attach_device ::
  "'w uapi \<Rightarrow> u8 \<Rightarrow> int \<Rightarrow> u8 \<Rightarrow> u8 \<Rightarrow> u32 \<Rightarrow> ('w ustate, int option) state" where
  "usbip_vhci_attach_device u port sockfd bus dev speed =
     usbip_vhci_attach_device2 u port sockfd (ucast (get_devid bus dev)) speed"

definition detach_string :: "u8 \<Rightarrow> string" where
  "detach_string port = snprintf 200 (fmt_u 1 (unat port))"

definition usbip_vhci_detach_device :: "'w uapi \<Rightarrow> u8 \<Rightarrow> ('w ustate, int option) state" where
  "usbip_vhci_detach_device u port = write_hc_attr u ''detach'' (detach_string port)"

end
