(* ===== verification/UHost.thy ===== *)
theory UHost
  imports UVhci
begin

text \<open>
  The library for the stub driver (\<^verbatim>\<open>userspace/libsrc/usbip_host_driver.c\<close>): the list of exported
  devices, built from the interfaces bound to the driver, and handing a connected socket to the
  driver through \<open>usbip_sockfd\<close>.
\<close>

section \<open>The list of exported devices\<close>

definition SYSFS_OPEN_RETRIES :: nat where "SYSFS_OPEN_RETRIES = 100"

definition intf_attr_path :: "usbip_usb_device \<Rightarrow> string \<Rightarrow> string" where
  "intf_attr_path udev name =
     snprintf SYSFS_PATH_MAX (cstr (uu_path udev) @ ''/'' @ cstr (uu_busid udev) @ '':'' @
       fmt_u 1 (unat (uu_bConfigurationValue udev)) @ ''.0/'' @ name)"

text \<open>The loop that waits for the file: the retries left, or \<open>None\<close> for an error other than \<open>ENOENT\<close>.\<close>

primrec wait_for_file :: "'w uapi \<Rightarrow> string \<Rightarrow> nat \<Rightarrow> ('w ustate, nat option) state" where
  "wait_for_file u path 0 = ret (Some 0)"
| "wait_for_file u path (Suc retries) = do {
     r \<leftarrow> os (u_stat u path);
     case r of
       Stat_ok _ \<Rightarrow> ret (Some (Suc retries))
     | Stat_error \<Rightarrow> ret None
     | Stat_enoent \<Rightarrow> do { os (u_usleep u 10000); wait_for_file u path retries }
   }"

definition read_attr_usbip_status :: "'w uapi \<Rightarrow> usbip_usb_device \<Rightarrow> ('w ustate, s32) state" where
  "read_attr_usbip_status u udev = do {
     let path = intf_attr_path udev ''usbip_status'';
     r \<leftarrow> wait_for_file u path SYSFS_OPEN_RETRIES;
     case r of
       None \<Rightarrow> ret (- 1)
     | Some _ \<Rightarrow> do {
         at \<leftarrow> os (u_open_attr u path);
         case at of
           None \<Rightarrow> ret (- 1)
         | Some a \<Rightarrow> do {
             (rc, a1) \<leftarrow> os (u_read_attr u a);
             os (u_close_attr u a1);
             ret (if rc \<noteq> 0 then - 1 else atoi (at_value a1))
           }
       }
   }"

text \<open>\<open>realloc\<close> does not clear the memory it adds, so an entry starts as whatever was there.\<close>

definition junk_uinf :: "u32 \<Rightarrow> usbip_usb_interface" where
  "junk_uinf j = \<lparr>uf_bInterfaceClass = ucast j, uf_bInterfaceSubClass = ucast (drop_bit 8 j),
     uf_bInterfaceProtocol = ucast (drop_bit 16 j), uf_padding = ucast (drop_bit 24 j)\<rparr>"

primrec read_interfaces ::
  "'w uapi \<Rightarrow> usbip_usb_device \<Rightarrow> nat list \<Rightarrow> ('w ustate, usbip_usb_interface list) state" where
  "read_interfaces u udev [] = ret []"
| "read_interfaces u udev (i # is) = do {
     junk \<leftarrow> os (u_junk32 u);
     (rc, f) \<leftarrow> read_usb_interface u udev i (junk_uinf junk);
     fs \<leftarrow> read_interfaces u udev is;
     ret (f # fs)
   }"

definition usbip_exported_device_new :: "'w uapi \<Rightarrow> string \<Rightarrow> ('w ustate, usbip_exported_device option) state" where
  "usbip_exported_device_new u sdevpath = do {
     ok \<leftarrow> os (u_calloc u);
     if \<not> ok then ret None
     else do {
       sudev \<leftarrow> os (u_open_device_path u sdevpath);
       case sudev of
         None \<Rightarrow> ret None
       | Some sd \<Rightarrow> do {
           udev \<leftarrow> read_usb_device u sd;
           status \<leftarrow> read_attr_usbip_status u udev;
           if s32_neg status then do { os (u_close_device u sd); ret None }
           else do {
             ok2 \<leftarrow> os (u_calloc u);
             if \<not> ok2 then ret None
             else do {
               fs \<leftarrow> read_interfaces u udev [0 ..< unat (uu_bNumInterfaces udev)];
               ret (Some \<lparr>ed_sudev = Some sd, ed_status = status, ed_udev = udev, ed_uinf = fs\<rparr>)
             }
           }
         }
     }
   }"

definition check_new :: "sysfs_device list \<Rightarrow> sysfs_device \<Rightarrow> bool" where
  "check_new l target \<longleftrightarrow>
     \<not> (\<exists>dev\<in>set l. strncmp_eq (sd_bus_id dev) (sd_bus_id target) SYSFS_BUS_ID_SIZE)"

text \<open>The devices of the interfaces, each once, pushed in front of the list.\<close>

primrec collect_devices :: "'w uapi \<Rightarrow> sysfs_device list \<Rightarrow> sysfs_device list \<Rightarrow> ('w ustate, sysfs_device list) state" where
  "collect_devices u [] l = ret l"
| "collect_devices u (suintf # is) l = do {
     p \<leftarrow> os (u_device_parent u suintf);
     case p of
       None \<Rightarrow> collect_devices u is l
     | Some sudev \<Rightarrow> collect_devices u is (if check_new l sudev then sudev # l else l)
   }"

definition add_edev :: "usbip_exported_device \<Rightarrow> usbip_host_driver \<Rightarrow> usbip_host_driver" where
  "add_edev e d = d\<lparr>uh_ndevs := uh_ndevs d + 1, uh_edev_list := map_option (Cons e) (uh_edev_list d)\<rparr>"

primrec export_devices :: "'w uapi \<Rightarrow> sysfs_device list \<Rightarrow> usbip_host_driver \<Rightarrow> ('w ustate, usbip_host_driver) state" where
  "export_devices u [] d = ret d"
| "export_devices u (sudev # ss) d = do {
     e \<leftarrow> usbip_exported_device_new u (sd_path sudev);
     export_devices u ss (case e of None \<Rightarrow> d | Some edev \<Rightarrow> add_edev edev d)
   }"

text \<open>\<open>refresh_exported_devices\<close> on the driver structure the global points to: it always returns 0.\<close>

definition refresh_exported_devices :: "'w uapi \<Rightarrow> usbip_host_driver \<Rightarrow> ('w ustate, usbip_host_driver) state" where
  "refresh_exported_devices u d = do {
     is \<leftarrow> (case uh_sysfs_driver d of None \<Rightarrow> ret None | Some drv \<Rightarrow> os (u_driver_devices u drv));
     case is of
       None \<Rightarrow> ret d
     | Some suintfs \<Rightarrow> do {
         sudevs \<leftarrow> collect_devices u suintfs [];
         export_devices u sudevs d
       }
   }"

section \<open>Opening and closing\<close>

definition open_sysfs_host_driver :: "'w uapi \<Rightarrow> ('w ustate, sysfs_driver option) state" where
  "open_sysfs_host_driver u = do {
     mnt \<leftarrow> os (u_mnt_path u);
     case mnt of
       None \<Rightarrow> ret None
     | Some m \<Rightarrow> os (u_open_driver_path u (snprintf SYSFS_PATH_MAX
         (join_path [m, SYSFS_BUS_NAME, ''usb'', SYSFS_DRIVERS_NAME, USBIP_HOST_DRV_NAME])))
   }"

text \<open>Destroying the list closes the device of every item.\<close>

primrec delete_edevs :: "'w uapi \<Rightarrow> usbip_exported_device list \<Rightarrow> ('w ustate, unit) state" where
  "delete_edevs u [] = ret ()"
| "delete_edevs u (e # es) = do {
     (case ed_sudev e of None \<Rightarrow> ret () | Some sd \<Rightarrow> os (u_close_device u sd));
     delete_edevs u es
   }"

definition usbip_host_driver_open :: "'w uapi \<Rightarrow> ('w ustate, int) state" where
  "usbip_host_driver_open u = do {
     ok \<leftarrow> os (u_calloc u);
     if \<not> ok then do { modify (\<lambda>s. s\<lparr>us_host := None\<rparr>); ret (- 1) }
     else do {
       ok2 \<leftarrow> os (u_calloc u);
       drv \<leftarrow> (if ok2 then open_sysfs_host_driver u else ret None);
       case drv of
         None \<Rightarrow> do { modify (\<lambda>s. s\<lparr>us_host := None\<rparr>); ret (- 1) }
       | Some dr \<Rightarrow> do {
           d \<leftarrow> refresh_exported_devices u
                  \<lparr>uh_ndevs = 0, uh_sysfs_driver = Some dr, uh_edev_list = Some []\<rparr>;
           modify (\<lambda>s. s\<lparr>us_host := Some d\<rparr>);
           ret 0
         }
     }
   }"

definition usbip_host_driver_close :: "'w uapi \<Rightarrow> ('w ustate, unit) state" where
  "usbip_host_driver_close u = do {
     v \<leftarrow> gets us_host;
     case v of
       None \<Rightarrow> ret ()
     | Some d \<Rightarrow> do {
         (case uh_edev_list d of None \<Rightarrow> ret () | Some es \<Rightarrow> delete_edevs u es);
         (case uh_sysfs_driver d of None \<Rightarrow> ret () | Some dr \<Rightarrow> os (u_close_driver u dr));
         modify (\<lambda>s. s\<lparr>us_host := None\<rparr>)
       }
   }"

text \<open>\<open>None\<close> is the null pointer followed when the driver is not open.\<close>

definition usbip_host_refresh_device_list :: "'w uapi \<Rightarrow> ('w ustate, int option) state" where
  "usbip_host_refresh_device_list u = do {
     v \<leftarrow> gets us_host;
     case v of
       None \<Rightarrow> ret None
     | Some d \<Rightarrow> do {
         (case uh_edev_list d of None \<Rightarrow> ret () | Some es \<Rightarrow> delete_edevs u es);
         ok \<leftarrow> os (u_calloc u);
         if \<not> ok then do {
           modify (\<lambda>s. s\<lparr>us_host := Some (d\<lparr>uh_ndevs := 0, uh_edev_list := None\<rparr>)\<rparr>);
           ret (Some (- 1))
         }
         else do {
           d1 \<leftarrow> refresh_exported_devices u (d\<lparr>uh_ndevs := 0, uh_edev_list := Some []\<rparr>);
           modify (\<lambda>s. s\<lparr>us_host := Some d1\<rparr>);
           ret (Some 0)
         }
       }
   }"

section \<open>Exporting\<close>

definition sockfd_string :: "int \<Rightarrow> string" where
  "sockfd_string sockfd = snprintf 30 (fmt_d sockfd @ [CHR 0x0A])"

definition usbip_host_export_device :: "'w uapi \<Rightarrow> usbip_exported_device \<Rightarrow> int \<Rightarrow> ('w ustate, int) state" where
  "usbip_host_export_device u edev sockfd =
     (if ed_status edev \<noteq> of_nat (status_num SDEV_ST_AVAILABLE) then ret (- 1)
      else do {
        at \<leftarrow> os (u_open_attr u (intf_attr_path (ed_udev edev) ''usbip_sockfd''));
        case at of
          None \<Rightarrow> ret (- 1)
        | Some a \<Rightarrow> do {
            rc \<leftarrow> os (u_write_attr u a (sockfd_string sockfd));
            os (u_close_attr u a);
            ret rc
          }
      })"

definition usbip_host_get_device :: "int \<Rightarrow> usbip_exported_device list \<Rightarrow> usbip_exported_device option" where
  "usbip_host_get_device num es =
     (if 0 \<le> num \<and> nat num < length es then Some (es ! nat num) else None)"

end
