(* ===== verification/UTools.thy ===== *)
theory UTools
  imports UHost
begin

text \<open>
  The commands of \<^verbatim>\<open>usbip\<close> (\<^verbatim>\<open>userspace/src/usbip_bind.c\<close>, \<^verbatim>\<open>usbip_unbind.c\<close>, \<^verbatim>\<open>usbip_attach.c\<close>,
  \<^verbatim>\<open>usbip_detach.c\<close>, \<^verbatim>\<open>usbip_list.c\<close> and \<^verbatim>\<open>utils.c\<close>), below the parsing of their options. Messages are
  left out, and the listing returns the devices it prints.
\<close>

section \<open>The table of bus ids\<close>

text \<open>The whole local array is written: the text, its terminating NUL, and what the stack held.\<close>

definition match_busid_buff :: "string \<Rightarrow> bool \<Rightarrow> string \<Rightarrow> string" where
  "match_busid_buff busid add junk =
     take (SYSFS_BUS_ID_SIZE + 4)
       (snprintf (SYSFS_BUS_ID_SIZE + 4) ((if add then ''add '' else ''del '') @ cstr busid) @ [NUL] @ junk)"

definition modify_match_busid :: "'w uapi \<Rightarrow> string \<Rightarrow> bool \<Rightarrow> ('w ustate, int) state" where
  "modify_match_busid u busid add =
     (if SYSFS_BUS_ID_SIZE - 1 < strnlen busid SYSFS_BUS_ID_SIZE then ret (- 1)
      else do {
        mnt \<leftarrow> os (u_mnt_path u);
        case mnt of
          None \<Rightarrow> ret (- 1)
        | Some m \<Rightarrow> do {
            at \<leftarrow> os (u_open_attr u (snprintf SYSFS_PATH_MAX
              (join_path [m, SYSFS_BUS_NAME, ''usb'', SYSFS_DRIVERS_NAME, USBIP_HOST_DRV_NAME, ''match_busid''])));
            case at of
              None \<Rightarrow> ret (- 1)
            | Some a \<Rightarrow> do {
                junk \<leftarrow> os (u_junk u (SYSFS_BUS_ID_SIZE + 4));
                rc \<leftarrow> os (u_write_attr u a (match_busid_buff busid add junk));
                os (u_close_attr u a);
                ret (if rc < 0 then - 1 else 0)
              }
          }
      })"

section \<open>Binding\<close>

definition intf_busid :: "string \<Rightarrow> string \<Rightarrow> nat \<Rightarrow> string" where
  "intf_busid busid conf i = snprintf SYSFS_BUS_ID_SIZE (busid @ '':'' @ take 1 conf @ ''.'' @ fmt_u 1 i)"

text \<open>The loop of \<open>bind_usbip\<close>: whether a write failed.\<close>

primrec bind_interfaces :: "'w uapi \<Rightarrow> sysfs_attribute \<Rightarrow> string \<Rightarrow> string \<Rightarrow> nat list \<Rightarrow> bool \<Rightarrow> ('w ustate, bool) state" where
  "bind_interfaces u a busid conf [] failed = ret failed"
| "bind_interfaces u a busid conf (i # is) failed = do {
     junk \<leftarrow> os (u_junk u SYSFS_BUS_ID_SIZE);
     rc \<leftarrow> os (u_write_attr u a (take SYSFS_BUS_ID_SIZE (intf_busid busid conf i @ [NUL] @ junk)));
     bind_interfaces u a busid conf is (failed \<or> rc < 0)
   }"

text \<open>\<open>for (i = 0; i < atoi(...); i++)\<close>: the values of \<open>i\<close>.\<close>

definition indices :: "string \<Rightarrow> nat list" where
  "indices v = [0 ..< nat (sint (atoi v))]"

definition bind_usbip :: "'w uapi \<Rightarrow> string \<Rightarrow> ('w ustate, int) state" where
  "bind_usbip u busid = do {
     mnt \<leftarrow> os (u_mnt_path u);
     case mnt of
       None \<Rightarrow> ret (- 1)
     | Some m \<Rightarrow> do {
         at \<leftarrow> os (u_open_attr u (snprintf SYSFS_PATH_MAX
           (join_path [m, SYSFS_BUS_NAME, ''usb'', SYSFS_DRIVERS_NAME, USBIP_HOST_DRV_NAME, ''bind''])));
         case at of
           None \<Rightarrow> ret (- 1)
         | Some a \<Rightarrow> do {
             dev \<leftarrow> os (u_open_device u ''usb'' busid);
             rc \<leftarrow> (case dev of
               None \<Rightarrow> ret (- 1)
             | Some d \<Rightarrow> do {
                 cv \<leftarrow> os (u_device_attr u d ''bConfigurationValue'');
                 ni \<leftarrow> os (u_device_attr u d ''bNumInterfaces'');
                 r \<leftarrow> (case (cv, ni) of
                   (Some c, Some n) \<Rightarrow> do {
                     failed \<leftarrow> bind_interfaces u a busid (at_value c) (indices (at_value n)) False;
                     ret (if failed then - 1 else 0)
                   }
                 | _ \<Rightarrow> ret (- 1));
                 os (u_close_device u d);
                 ret r
               });
             os (u_close_attr u a);
             ret rc
           }
       }
   }"

datatype unbind_status = UNBIND_ST_OK | UNBIND_ST_USBIP_HOST | UNBIND_ST_FAILED

definition SYSFS_NAME_LEN :: nat where "SYSFS_NAME_LEN = 64"

text \<open>The body of the loop for one interface: \<open>None\<close> is a jump to the error exits.\<close>

definition unbind_interface ::
  "'w uapi \<Rightarrow> string \<Rightarrow> string \<Rightarrow> nat \<Rightarrow> unbind_status \<Rightarrow> ('w ustate, unbind_status option) state" where
  "unbind_interface u busid conf i status = do {
     dev \<leftarrow> os (u_open_device u ''usb'' (intf_busid busid conf i));
     case dev of
       None \<Rightarrow> ret None
     | Some d \<Rightarrow>
         if strncmp_eq ''unknown'' (sd_driver_name d) SYSFS_NAME_LEN then ret (Some status)
         else if strncmp_eq USBIP_HOST_DRV_NAME (sd_driver_name d) SYSFS_NAME_LEN
         then ret (Some UNBIND_ST_USBIP_HOST)
         else do {
           drv \<leftarrow> os (u_open_driver u ''usb'' (sd_driver_name d));
           case drv of
             None \<Rightarrow> do { os (u_close_device u d); ret None }
           | Some dr \<Rightarrow> do {
               at \<leftarrow> os (u_driver_attr u dr ''unbind'');
               case at of
                 None \<Rightarrow> do { os (u_close_driver u dr); os (u_close_device u d); ret None }
               | Some a \<Rightarrow> do {
                   rc \<leftarrow> os (u_write_attr u a (strncpy (sd_bus_id d) SYSFS_BUS_ID_SIZE));
                   os (u_close_driver u dr);
                   os (u_close_device u d);
                   ret (Some (if rc < 0 then UNBIND_ST_FAILED else status))
                 }
             }
         }
   }"

primrec unbind_interfaces ::
  "'w uapi \<Rightarrow> string \<Rightarrow> string \<Rightarrow> nat list \<Rightarrow> unbind_status \<Rightarrow> ('w ustate, unbind_status) state" where
  "unbind_interfaces u busid conf [] status = ret status"
| "unbind_interfaces u busid conf (i # is) status = do {
     r \<leftarrow> unbind_interface u busid conf i status;
     case r of None \<Rightarrow> ret UNBIND_ST_FAILED | Some st \<Rightarrow> unbind_interfaces u busid conf is st
   }"

text \<open>\<open>None\<close> is the result \<open>-1\<close>, which is no value of the enumeration.\<close>

definition unbind_other :: "'w uapi \<Rightarrow> string \<Rightarrow> ('w ustate, unbind_status option) state" where
  "unbind_other u busid = do {
     dev \<leftarrow> os (u_open_device u ''usb'' busid);
     case dev of
       None \<Rightarrow> ret None
     | Some d \<Rightarrow> do {
         cv \<leftarrow> os (u_device_attr u d ''bConfigurationValue'');
         dc \<leftarrow> os (u_device_attr u d ''bDeviceClass'');
         ni \<leftarrow> os (u_device_attr u d ''bNumInterfaces'');
         st \<leftarrow> (case (cv, dc, ni) of
           (Some c, Some k, Some n) \<Rightarrow>
             if strncmp_eq (at_value k) ''09'' (nat (at_len k)) then ret UNBIND_ST_FAILED
             else unbind_interfaces u busid (at_value c) (indices (at_value n)) UNBIND_ST_OK
         | _ \<Rightarrow> ret UNBIND_ST_FAILED);
         os (u_close_device u d);
         ret (Some st)
       }
   }"

text \<open>A result of \<open>-1\<close> is neither of the two statuses that are refused.\<close>

definition bind_device :: "'w uapi \<Rightarrow> string \<Rightarrow> ('w ustate, int) state" where
  "bind_device u busid = do {
     st \<leftarrow> unbind_other u busid;
     if st = Some UNBIND_ST_FAILED then ret (- 1)
     else if st = Some UNBIND_ST_USBIP_HOST then ret (- 1)
     else do {
       rc \<leftarrow> modify_match_busid u busid True;
       if rc < 0 then ret (- 1)
       else do {
         rc2 \<leftarrow> bind_usbip u busid;
         if rc2 < 0 then do { modify_match_busid u busid False; ret (- 1) }
         else ret 0
       }
     }
   }"

section \<open>Unbinding\<close>

text \<open>\<open>val = malloc(len); *val = *busid_attr->value\<close>: only the first byte is copied.\<close>

definition saved_value :: "sysfs_attribute \<Rightarrow> string \<Rightarrow> string" where
  "saved_value a junk = take (nat (at_len a)) (take 1 (at_value a) @ drop 1 junk)"

definition uses_stub :: "string \<Rightarrow> sysfs_device \<Rightarrow> bool" where
  "uses_stub busid dev \<longleftrightarrow> strlen_prefix busid (sd_name dev) \<and>
     strlen_prefix USBIP_HOST_DRV_NAME (sd_driver_name dev)"

definition unbind_path :: "string \<Rightarrow> string \<Rightarrow> string" where
  "unbind_path m busid = snprintf SYSFS_PATH_MAX
     (join_path [m, SYSFS_BUS_NAME, ''usb'', SYSFS_DEVICES_NAME, busid, ''bConfigurationValue''])"

text \<open>What follows the check that the device is used by the driver. The boolean tells whether the
  driver handle is closed afterwards (the labels) or not (the plain returns).\<close>

definition rewrite_configuration :: "'w uapi \<Rightarrow> string \<Rightarrow> ('w ustate, int \<times> bool) state" where
  "rewrite_configuration u busid = do {
     mnt \<leftarrow> os (u_mnt_path u);
     case mnt of
       None \<Rightarrow> ret (- 1, False)
     | Some m \<Rightarrow> do {
         at \<leftarrow> os (u_open_attr u (unbind_path m busid));
         case at of
           None \<Rightarrow> ret (- 1, False)
         | Some a \<Rightarrow> do {
             (r, a1) \<leftarrow> os (u_read_attr u a);
             if r < 0 then ret (- 1, True)
             else do {
               junk \<leftarrow> os (u_junk u (nat (at_len a1)));
               os (u_close_attr u a1);
               rc \<leftarrow> modify_match_busid u busid False;
               if rc < 0 then ret (- 1, True)
               else do {
                 at2 \<leftarrow> os (u_open_attr u (unbind_path m busid));
                 case at2 of
                   None \<Rightarrow> ret (- 1, False)
                 | Some a2 \<Rightarrow> do {
                     rc2 \<leftarrow> os (u_write_attr u a2 (saved_value a1 junk));
                     if rc2 < 0 then ret (- 1, True)
                     else do { os (u_close_attr u a2); ret (0, True) }
                   }
               }
             }
           }
       }
   }"

definition unbind_device :: "'w uapi \<Rightarrow> string \<Rightarrow> ('w ustate, int) state" where
  "unbind_device u busid = do {
     drv \<leftarrow> os (u_open_driver u ''usb'' USBIP_HOST_DRV_NAME);
     case drv of
       None \<Rightarrow> ret (- 1)
     | Some dr \<Rightarrow> do {
         ds \<leftarrow> os (u_driver_devices u dr);
         (rc, close) \<leftarrow> (case ds of
           None \<Rightarrow> ret (- 1, True)
         | Some devs \<Rightarrow> if \<not> list_ex (uses_stub busid) devs then ret (- 1, True)
                        else rewrite_configuration u busid);
         (if close then os (u_close_driver u dr) else ret ());
         ret rc
       }
   }"

section \<open>Attaching\<close>

definition VHCI_STATE_PATH :: string where "VHCI_STATE_PATH = ''/var/run/vhci_hcd''"
definition USBIP_PORT_STRING :: string where "USBIP_PORT_STRING = ''3240''"
definition PATH_MAX :: nat where "PATH_MAX = 4096"

definition port_file :: "int \<Rightarrow> string" where
  "port_file rhport = snprintf PATH_MAX (VHCI_STATE_PATH @ ''/port'' @ fmt_d rhport)"

definition connection_line :: "string \<Rightarrow> string \<Rightarrow> string \<Rightarrow> string" where
  "connection_line host port busid = snprintf 100 (host @ '' '' @ port @ '' '' @ busid @ [CHR 0x0A])"

definition record_connection :: "'w uapi \<Rightarrow> string \<Rightarrow> string \<Rightarrow> string \<Rightarrow> int \<Rightarrow> ('w ustate, int) state" where
  "record_connection u host port busid rhport = do {
     r \<leftarrow> os (u_mkdir u VHCI_STATE_PATH);
     ok \<leftarrow> (case r of
       Mkdir_ok \<Rightarrow> ret True
     | Mkdir_error \<Rightarrow> ret False
     | Mkdir_exists \<Rightarrow> do {
         s \<leftarrow> os (u_stat u VHCI_STATE_PATH);
         ret (case s of Stat_ok dir \<Rightarrow> dir | _ \<Rightarrow> False)
       });
     if \<not> ok then ret (- 1)
     else do {
       fd \<leftarrow> os (u_open_file u (port_file rhport));
       if fd < 0 then ret (- 1)
       else do {
         n \<leftarrow> os (u_write_file u fd (connection_line host port busid));
         os (u_close u fd);
         ret (if n \<noteq> int (length (connection_line host port busid)) then - 1 else 0)
       }
     }
   }"

definition import_device :: "'w uapi \<Rightarrow> int \<Rightarrow> usbip_usb_device \<Rightarrow> ('w ustate, int option) state" where
  "import_device u sockfd udev =
     andthen (usbip_vhci_driver_open u) (\<lambda>rc.
       if rc < 0 then ret (Some (- 1))
       else do {
         v \<leftarrow> gets us_vhci;
         case v of
           None \<Rightarrow> ret None
         | Some d \<Rightarrow> do {
             let port = usbip_vhci_get_free_port d;
             if port < 0 then do { usbip_vhci_driver_close u; ret (Some (- 1)) }
             else andthen (usbip_vhci_attach_device u (word_of_int port) sockfd (ucast (uu_busnum udev))
                             (ucast (uu_devnum udev)) (uu_speed udev)) (\<lambda>rc2. do {
               usbip_vhci_driver_close u;
               ret (Some (if rc2 < 0 then - 1 else port))
             })
           }
       })"

definition query_import_device :: "endian \<Rightarrow> 'w uapi \<Rightarrow> int \<Rightarrow> string \<Rightarrow> ('w ustate, int option) state" where
  "query_import_device h u sockfd busid = do {
     rc \<leftarrow> usbip_net_send_op_common h u sockfd (ucast OP_REQ_IMPORT) 0;
     if rc < 0 then ret (Some (- 1))
     else do {
       rc1 \<leftarrow> usbip_net_send u sockfd (chars_mem (strncpy busid (SYSFS_BUS_ID_SIZE - 1) @ [NUL]));
       if rc1 < 0 then ret (Some (- 1))
       else do {
         (rc2, code) \<leftarrow> usbip_net_recv_op_common h u sockfd OP_REP_IMPORT;
         if rc2 < 0 then ret (Some (- 1))
         else do {
           (rc3, bs) \<leftarrow> usbip_net_recv u sockfd sizeof_usb_device;
           if rc3 < 0 then ret (Some (- 1))
           else do {
             let udev = recv_udev h bs;
             if \<not> strncmp_eq (uu_busid udev) busid SYSFS_BUS_ID_SIZE then ret (Some (- 1))
             else import_device u sockfd udev
           }
         }
       }
     }
   }"

definition attach_device :: "endian \<Rightarrow> 'w uapi \<Rightarrow> string \<Rightarrow> string \<Rightarrow> ('w ustate, int option) state" where
  "attach_device h u host busid = do {
     sockfd \<leftarrow> usbip_net_tcp_connect u host USBIP_PORT_STRING;
     if sockfd < 0 then ret (Some (- 1))
     else andthen (query_import_device h u sockfd busid) (\<lambda>rhport.
       if rhport < 0 then ret (Some (- 1))
       else do {
         os (u_close u sockfd);
         rc \<leftarrow> record_connection u host USBIP_PORT_STRING busid rhport;
         ret (Some (if rc < 0 then - 1 else 0))
       })
   }"

section \<open>Detaching\<close>

definition detach_port :: "'w uapi \<Rightarrow> string \<Rightarrow> ('w ustate, int option) state" where
  "detach_port u port =
     (if \<not> list_all is_digit port then ret (Some (- 1))
      else do {
        let portnum = (ucast (atoi port) :: u8);
        os (u_remove u (port_file (int (unat portnum))));
        os (u_rmdir u VHCI_STATE_PATH);
        andthen (usbip_vhci_driver_open u) (\<lambda>rc.
          if rc < 0 then ret (Some (- 1))
          else andthen (usbip_vhci_detach_device u portnum) (\<lambda>rc2.
            if rc2 < 0 then ret (Some (- 1))
            else do { usbip_vhci_driver_close u; ret (Some rc2) }))
      })"

section \<open>Listing\<close>

type_synonym listing = "(usbip_usb_device \<times> usbip_usb_interface list) list"

primrec recv_interfaces :: "'w uapi \<Rightarrow> int \<Rightarrow> nat \<Rightarrow> ('w ustate, usbip_usb_interface list \<times> bool) state" where
  "recv_interfaces u sockfd 0 = ret ([], True)"
| "recv_interfaces u sockfd (Suc n) = do {
     (rc, bs) \<leftarrow> usbip_net_recv u sockfd sizeof_usb_interface;
     if rc < 0 then ret ([], False)
     else do {
       (fs, ok) \<leftarrow> recv_interfaces u sockfd n;
       ret (usbip_net_pack_usb_interface False (ld_usb_interface bs) # fs, ok)
     }
   }"

primrec recv_devices :: "endian \<Rightarrow> 'w uapi \<Rightarrow> int \<Rightarrow> nat \<Rightarrow> ('w ustate, listing \<times> bool) state" where
  "recv_devices h u sockfd 0 = ret ([], True)"
| "recv_devices h u sockfd (Suc n) = do {
     (rc, bs) \<leftarrow> usbip_net_recv u sockfd sizeof_usb_device;
     if rc < 0 then ret ([], False)
     else do {
       let udev = recv_udev h bs;
       (fs, ok) \<leftarrow> recv_interfaces u sockfd (unat (uu_bNumInterfaces udev));
       if \<not> ok then ret ([(udev, fs)], False)
       else do {
         (ds, ok2) \<leftarrow> recv_devices h u sockfd n;
         ret ((udev, fs) # ds, ok2)
       }
     }
   }"

text \<open>The result, and the devices that were printed.\<close>

definition get_exported_devices :: "endian \<Rightarrow> 'w uapi \<Rightarrow> int \<Rightarrow> ('w ustate, int \<times> listing) state" where
  "get_exported_devices h u sockfd = do {
     rc \<leftarrow> usbip_net_send_op_common h u sockfd (ucast OP_REQ_DEVLIST) 0;
     if rc < 0 then ret (- 1, [])
     else do {
       (rc1, code) \<leftarrow> usbip_net_recv_op_common h u sockfd OP_REP_DEVLIST;
       if rc1 < 0 then ret (- 1, [])
       else do {
         (rc2, bs) \<leftarrow> usbip_net_recv u sockfd 4;
         if rc2 < 0 then ret (- 1, [])
         else do {
           let ndev = usbip_net_pack_uint32_t h False (ld32 h bs);
           (ds, ok) \<leftarrow> recv_devices h u sockfd (unat ndev);
           ret (if ok then 0 else - 1, ds)
         }
       }
     }
   }"

definition list_exported_devices :: "endian \<Rightarrow> 'w uapi \<Rightarrow> string \<Rightarrow> ('w ustate, int \<times> listing) state" where
  "list_exported_devices h u host = do {
     sockfd \<leftarrow> usbip_net_tcp_connect u host USBIP_PORT_STRING;
     if sockfd < 0 then ret (- 1, [])
     else do {
       (rc, ds) \<leftarrow> get_exported_devices h u sockfd;
       if rc < 0 then ret (- 1, ds)
       else do { os (u_close u sockfd); ret (0, ds) }
     }
   }"

end
