(* ===== verification/UDaemon.thy ===== *)
theory UDaemon
  imports UTools
begin

text \<open>
  The daemon \<^verbatim>\<open>usbipd\<close> (\<^verbatim>\<open>userspace/src/usbipd.c\<close>): answering the requests for the list of devices and
  for the import of one, accepting connections in child processes, and the main loop. Access control
  by \<^verbatim>\<open>libwrap\<close> is not compiled in.
\<close>

section \<open>Requests\<close>

text \<open>The daemon reads the global \<open>host_driver\<close>; the list is empty when it is not open, where the
  code would follow a null pointer: \<open>recv_pdu\<close> checks for that before.\<close>

definition edev_list_of :: "'w ustate \<Rightarrow> usbip_exported_device list" where
  "edev_list_of s = (case us_host s of None \<Rightarrow> [] | Some d \<Rightarrow> (case uh_edev_list d of None \<Rightarrow> [] | Some es \<Rightarrow> es))"

definition recv_request_import :: "endian \<Rightarrow> 'w uapi \<Rightarrow> int \<Rightarrow> ('w ustate, int) state" where
  "recv_request_import h u sockfd = do {
     (rc, bs) \<leftarrow> usbip_net_recv u sockfd SYSFS_BUS_ID_SIZE;
     if rc < 0 then ret (- 1)
     else do {
       es \<leftarrow> gets edev_list_of;
       let found = find (\<lambda>e. strncmp_eq (ld_chars bs) (uu_busid (ed_udev e)) SYSFS_BUS_ID_SIZE) es;
       err \<leftarrow> (case found of
         None \<Rightarrow> ret True
       | Some e \<Rightarrow> do {
           usbip_net_set_nodelay u sockfd;
           rc1 \<leftarrow> usbip_host_export_device u e sockfd;
           ret (rc1 < 0)
         });
       rc2 \<leftarrow> usbip_net_send_op_common h u sockfd (ucast OP_REP_IMPORT) (if \<not> err then ST_OK else ST_NA);
       if rc2 < 0 then ret (- 1)
       else (case found of
           None \<Rightarrow> ret (- 1)
         | Some e \<Rightarrow>
             if err then ret (- 1)
             else do {
               rc3 \<leftarrow> usbip_net_send u sockfd (send_udev h (ed_udev e));
               ret (if rc3 < 0 then - 1 else 0)
             })
     }
   }"

primrec send_interfaces :: "'w uapi \<Rightarrow> int \<Rightarrow> usbip_usb_interface list \<Rightarrow> ('w ustate, int) state" where
  "send_interfaces u connfd [] = ret 0"
| "send_interfaces u connfd (f # fs) = do {
     rc \<leftarrow> usbip_net_send u connfd (mem_usb_interface (usbip_net_pack_usb_interface True f));
     if rc < 0 then ret (- 1) else send_interfaces u connfd fs
   }"

primrec send_devices :: "endian \<Rightarrow> 'w uapi \<Rightarrow> int \<Rightarrow> usbip_exported_device list \<Rightarrow> ('w ustate, int) state" where
  "send_devices h u connfd [] = ret 0"
| "send_devices h u connfd (e # es) = do {
     rc \<leftarrow> usbip_net_send u connfd (send_udev h (ed_udev e));
     if rc < 0 then ret (- 1)
     else do {
       rc1 \<leftarrow> send_interfaces u connfd (take (unat (uu_bNumInterfaces (ed_udev e))) (ed_uinf e));
       if rc1 < 0 then ret (- 1) else send_devices h u connfd es
     }
   }"

definition send_reply_devlist :: "endian \<Rightarrow> 'w uapi \<Rightarrow> int \<Rightarrow> ('w ustate, int) state" where
  "send_reply_devlist h u connfd = do {
     es \<leftarrow> gets edev_list_of;
     let ndev = (of_nat (length es) :: u32);
     rc \<leftarrow> usbip_net_send_op_common h u connfd (ucast OP_REP_DEVLIST) ST_OK;
     if rc < 0 then ret (- 1)
     else do {
       rc1 \<leftarrow> usbip_net_send u connfd (mem32 h (usbip_net_pack_uint32_t h True ndev));
       if rc1 < 0 then ret (- 1) else send_devices h u connfd es
     }
   }"

text \<open>The request has no body: the structure is empty, and reading zero bytes returns at once.\<close>

definition recv_request_devlist :: "endian \<Rightarrow> 'w uapi \<Rightarrow> int \<Rightarrow> ('w ustate, int) state" where
  "recv_request_devlist h u connfd = do {
     (rc, bs) \<leftarrow> usbip_net_recv u connfd 0;
     if rc < 0 then ret (- 1)
     else do {
       rc1 \<leftarrow> send_reply_devlist h u connfd;
       ret (if rc1 < 0 then - 1 else 0)
     }
   }"

definition recv_pdu :: "endian \<Rightarrow> 'w uapi \<Rightarrow> int \<Rightarrow> ('w ustate, int option) state" where
  "recv_pdu h u connfd = do {
     (rc, code) \<leftarrow> usbip_net_recv_op_common h u connfd OP_UNSPEC;
     if rc < 0 then ret (Some (- 1))
     else andthen (usbip_host_refresh_device_list u) (\<lambda>rc1.
       if rc1 < 0 then ret (Some (- 1))
       else do {
         r \<leftarrow> (if code = OP_REQ_DEVLIST then recv_request_devlist h u connfd
               else if code = OP_REQ_IMPORT then recv_request_import h u connfd
               else ret (- 1));
         ret (Some r)
       })
   }"

section \<open>Connections\<close>

definition do_accept :: "'w uapi \<Rightarrow> int \<Rightarrow> ('w ustate, int) state" where
  "do_accept u listenfd = do {
     connfd \<leftarrow> os (u_accept u listenfd);
     ret (if connfd < 0 then - 1 else connfd)
   }"

text \<open>The process serves the request and exits (\<open>None\<close>) when it is the child; a failed \<open>fork\<close> goes on
  like the parent.\<close>

definition process_request :: "endian \<Rightarrow> 'w uapi \<Rightarrow> int \<Rightarrow> ('w ustate, int option) state" where
  "process_request h u listenfd = do {
     connfd \<leftarrow> do_accept u listenfd;
     if connfd < 0 then ret (Some (- 1))
     else do {
       child \<leftarrow> os (u_fork u);
       case child of
         Fork_child \<Rightarrow> do { os (u_close u listenfd); recv_pdu h u connfd; ret None }
       | _ \<Rightarrow> do { os (u_close u connfd); ret (Some 0) }
     }
   }"

definition MAXSOCKFD :: nat where "MAXSOCKFD = 20"
definition FD_SETSIZE :: int where "FD_SETSIZE = 1024"

text \<open>The sockets that listen, in the order of the addresses.\<close>

primrec listen_addresses :: "'w uapi \<Rightarrow> addrinfo list \<Rightarrow> int list \<Rightarrow> ('w ustate, int list) state" where
  "listen_addresses u [] fds = ret fds"
| "listen_addresses u (ai # ais) fds =
     (if MAXSOCKFD \<le> length fds then ret fds
      else do {
        fd \<leftarrow> os (u_socket u ai);
        if fd < 0 then listen_addresses u ais fds
        else do {
          usbip_net_set_reuseaddr u fd;
          usbip_net_set_nodelay u fd;
          if FD_SETSIZE \<le> fd then do { os (u_close u fd); listen_addresses u ais fds }
          else do {
            rc \<leftarrow> os (u_bind u fd ai);
            if rc < 0 then do { os (u_close u fd); listen_addresses u ais fds }
            else do {
              rc1 \<leftarrow> os (u_listen u fd);
              if rc1 < 0 then do { os (u_close u fd); listen_addresses u ais fds }
              else listen_addresses u ais (fds @ [fd])
            }
          }
        }
      })"

definition listen_all_addrinfo :: "'w uapi \<Rightarrow> addrinfo list \<Rightarrow> ('w ustate, int \<times> int list) state" where
  "listen_all_addrinfo u ais = do {
     fds \<leftarrow> listen_addresses u ais [];
     ret (if fds = [] then (- 1, []) else (int (length fds), fds))
   }"

definition do_getaddrinfo :: "'w uapi \<Rightarrow> ('w ustate, addrinfo list option) state" where
  "do_getaddrinfo u = do {
     (rc, ais) \<leftarrow> os (u_getaddrinfo u None USBIP_PORT_STRING);
     ret (if rc \<noteq> 0 then None else Some ais)
   }"

text \<open>The sockets that are ready are served in the order of the array; a child leaves the loop.\<close>

primrec serve :: "endian \<Rightarrow> 'w uapi \<Rightarrow> int list \<Rightarrow> int list \<Rightarrow> ('w ustate, unit option) state" where
  "serve h u ready [] = ret (Some ())"
| "serve h u ready (fd # fds) =
     (if fd \<in> set ready
      then andthen (process_request h u fd) (\<lambda>_. serve h u ready fds)
      else serve h u ready fds)"

text \<open>The main loop, for at most \<open>n\<close> rounds: \<open>Some True\<close> when it ended because polling failed, \<open>Some
  False\<close> when the rounds are over, \<open>None\<close> in a child.\<close>

primrec main_loop :: "endian \<Rightarrow> 'w uapi \<Rightarrow> int list \<Rightarrow> nat \<Rightarrow> ('w ustate, bool option) state" where
  "main_loop h u fds 0 = ret (Some False)"
| "main_loop h u fds (Suc n) = do {
     r \<leftarrow> os (u_ppoll u fds);
     case r of
       Poll_error \<Rightarrow> ret (Some True)
     | Poll_timeout \<Rightarrow> main_loop h u fds n
     | Poll_ready ready \<Rightarrow> andthen (serve h u ready fds) (\<lambda>_. main_loop h u fds n)
   }"

text \<open>\<open>Some 0\<close> and \<open>Some (-1)\<close> are the results; the last case is a loop still running after \<open>n\<close> rounds, where
  nothing more has happened.\<close>

definition do_standalone_mode :: "endian \<Rightarrow> 'w uapi \<Rightarrow> bool \<Rightarrow> nat \<Rightarrow> ('w ustate, int option) state" where
  "do_standalone_mode h u daemonize n = do {
     rc \<leftarrow> usbip_host_driver_open u;
     if rc \<noteq> 0 then ret (Some (- 1))
     else do {
       rc1 \<leftarrow> (if daemonize then os (u_daemon u) else ret 0);
       if rc1 < 0 then do { usbip_host_driver_close u; ret (Some (- 1)) }
       else do {
         ai \<leftarrow> do_getaddrinfo u;
         case ai of
           None \<Rightarrow> do { usbip_host_driver_close u; ret (Some (- 1)) }
         | Some ais \<Rightarrow> do {
             (nsockfd, fds) \<leftarrow> listen_all_addrinfo u ais;
             if nsockfd \<le> 0 then do { usbip_host_driver_close u; ret (Some (- 1)) }
             else andthen (main_loop h u fds n) (\<lambda>fin.
               if fin then do { usbip_host_driver_close u; ret (Some 0) } else ret None)
           }
       }
     }
   }"

end
