(* ===== verification/UNetLaws.thy ===== *)
theory UNetLaws
  imports UDaemon
begin

text \<open>
  What the conversation between client and daemon relies on: the laws of a stream socket in user
  space, and what the loops of \<^verbatim>\<open>usbip_network.c\<close> do on such a socket.
\<close>

section \<open>A stream socket\<close>

text \<open>Reading gives at least one and at most the requested number of the pending bytes while there
  are any, and fails or ends the stream otherwise; sending takes at least one byte of the buffer.\<close>

definition recv_law :: "int \<Rightarrow> byte list \<Rightarrow> byte list \<Rightarrow> int \<Rightarrow> byte list \<Rightarrow> bool" where
  "recv_law n p p1 r d \<longleftrightarrow>
     p = d @ p1 \<and> (if 0 < n \<and> p \<noteq> [] then 0 < r \<and> r \<le> n \<and> int (length d) = r else r \<le> 0 \<and> d = [])"

definition send_law :: "byte list \<Rightarrow> byte list \<Rightarrow> byte list \<Rightarrow> int \<Rightarrow> bool" where
  "send_law b o1 o2 r \<longleftrightarrow> (b \<noteq> [] \<longrightarrow> 0 < r \<and> r \<le> int (length b) \<and> o2 = o1 @ take (nat r) b)"

definition net_ok :: "'w uapi \<Rightarrow> int \<Rightarrow> ('w \<Rightarrow> byte list) \<Rightarrow> ('w \<Rightarrow> byte list) \<Rightarrow> bool" where
  "net_ok u fd pend out \<longleftrightarrow>
     (\<forall>n w r d w1. u_recv u fd n w = ((r, d), w1) \<longrightarrow>
        out w1 = out w \<and> recv_law n (pend w) (pend w1) r d) \<and>
     (\<forall>b w r w1. u_send u fd b w = (r, w1) \<longrightarrow>
        pend w1 = pend w \<and> send_law b (out w) (out w1) r)"

lemma recv_lawD:
  assumes "recv_law n p p1 r d"
  shows "p = d @ p1" and "0 < n \<Longrightarrow> p \<noteq> [] \<Longrightarrow> 0 < r \<and> r \<le> n \<and> int (length d) = r" and "p = [] \<Longrightarrow> r \<le> 0"
proof -
  have "p = d @ p1 \<and> (if 0 < n \<and> p \<noteq> [] then 0 < r \<and> r \<le> n \<and> int (length d) = r else r \<le> 0 \<and> d = [])"
    using assms unfolding recv_law_def .
  then have c: "p = d @ p1" "if 0 < n \<and> p \<noteq> [] then 0 < r \<and> r \<le> n \<and> int (length d) = r else r \<le> 0 \<and> d = []"
    by blast+
  from c(1) show "p = d @ p1" .
  from c(2) show "0 < n \<Longrightarrow> p \<noteq> [] \<Longrightarrow> 0 < r \<and> r \<le> n \<and> int (length d) = r" by simp
  from c(2) show "p = [] \<Longrightarrow> r \<le> 0" by simp
qed

lemma net_ok_recv_law:
  assumes "net_ok u fd pend out" and "u_recv u fd n w = ((r, d), w1)"
  shows "out w1 = out w \<and> recv_law n (pend w) (pend w1) r d"
proof -
  have "\<And>n w r d w1. u_recv u fd n w = ((r, d), w1) \<Longrightarrow> out w1 = out w \<and> recv_law n (pend w) (pend w1) r d"
    using assms(1) unfolding net_ok_def by blast
  then show ?thesis using assms(2) .
qed

lemma net_ok_send_law:
  assumes "net_ok u fd pend out" and "u_send u fd b w = (r, w1)"
  shows "pend w1 = pend w \<and> send_law b (out w) (out w1) r"
proof -
  have "\<And>b w r w1. u_send u fd b w = (r, w1) \<Longrightarrow> pend w1 = pend w \<and> send_law b (out w) (out w1) r"
    using assms(1) unfolding net_ok_def by blast
  then show ?thesis using assms(2) .
qed

lemmas net_ok_recv = net_ok_recv_law [THEN conjunct1] net_ok_recv_law [THEN conjunct2, THEN recv_lawD(1)]
  net_ok_recv_law [THEN conjunct2, THEN recv_lawD(2)] net_ok_recv_law [THEN conjunct2, THEN recv_lawD(3)]

lemma net_ok_send:
  assumes "net_ok u fd pend out" and "u_send u fd b w = (r, w1)"
  shows "pend w1 = pend w" and "b \<noteq> [] \<Longrightarrow> 0 < r \<and> r \<le> int (length b) \<and> out w1 = out w @ take (nat r) b"
  using net_ok_send_law [OF assms] by (simp_all add: send_law_def)

section \<open>The loops on it\<close>

lemma xmit_recv_exact:
  assumes "net_ok u fd pend out" and "0 < n" and "n \<le> length (pend w)"
  shows "\<exists>w1. net_xmit u fd False b (int n) tot acc w = ((tot + int n, acc @ take n (pend w)), w1) \<and>
    pend w1 = drop n (pend w) \<and> out w1 = out w"
  using assms(2,3)
proof (induction n arbitrary: b tot acc w rule: less_induct)
  case (less n)
  obtain r d w1 where m: "u_recv u fd (int n) w = ((r, d), w1)" by (metis prod.exhaust)
  note law = net_ok_recv [OF assms(1) m]
  have ne: "pend w \<noteq> []" using less.prems by auto
  have r: "0 < r" "r \<le> int n" "int (length d) = r" using law(3) [OF _ ne] less.prems by auto
  have d: "d = take (length d) (pend w)" "pend w1 = drop (length d) (pend w)" using law(2) by auto
  show ?case
  proof (cases "r = int n")
    case True
    then have "length d = n" using r(3) by simp
    then show ?thesis
      using d law(1) r(1) True m by (simp add: net_xmit.simps [of u fd False b "int n"])
  next
    case False
    let ?m = "n - length d"
    have lt: "?m < n" "0 < ?m" "?m \<le> length (pend w1)" "int n - r = int ?m"
      using r False less.prems d(2) by auto
    obtain w2 where w2: "net_xmit u fd False (drop (nat r) b) (int ?m) (tot + r) (acc @ d) w1 =
        ((tot + r + int ?m, (acc @ d) @ take ?m (pend w1)), w2)"
      "pend w2 = drop ?m (pend w1)" "out w2 = out w1"
      using less.IH [OF lt(1,2,3)] by blast
    have "net_xmit u fd False b (int n) tot acc w = ((tot + r + int ?m, (acc @ d) @ take ?m (pend w1)), w2)"
      using r(1) lt(2) w2(1) by (subst net_xmit.simps) (simp only: m if_False prod.case lt(4), simp)
    moreover have "tot + r + int ?m = tot + int n" using lt by simp
    moreover have "d @ take ?m (pend w1) = take n (pend w)"
    proof -
      have "take n (d @ pend w1) = d @ take ?m (pend w1)" using lt by (simp add: take_append)
      then show ?thesis using law(2) by simp
    qed
    moreover have "drop ?m (pend w1) = drop n (pend w)" using d(2) lt by (simp add: add.commute)
    ultimately show ?thesis using w2(2,3) law(1) by (metis append_assoc)
  qed
qed

lemma xmit_recv_short:
  assumes "net_ok u fd pend out" and "length (pend w) < n"
  shows "\<exists>d w1. net_xmit u fd False b (int n) tot acc w = ((- 1, d), w1) \<and> out w1 = out w"
  using assms(2)
proof (induction n arbitrary: b tot acc w rule: less_induct)
  case (less n)
  obtain r d w1 where m: "u_recv u fd (int n) w = ((r, d), w1)" by (metis prod.exhaust)
  note law = net_ok_recv [OF assms(1) m]
  show ?case
  proof (cases "pend w = []")
    case True
    then have "r \<le> 0" using law(4) by blast
    then show ?thesis using m law(1) by (subst net_xmit.simps) simp
  next
    case False
    then have r: "0 < r" "r \<le> int n" "int (length d) = r" using law(3) less.prems by auto
    have len: "length (pend w) = length d + length (pend w1)" using law(2) by simp
    let ?m = "n - length d"
    have lt: "?m < n" "0 < ?m" "length (pend w1) < ?m" "int n - r = int ?m"
      using r less.prems len by auto
    obtain d2 w2 where w2: "net_xmit u fd False (drop (nat r) b) (int ?m) (tot + r) (acc @ d) w1 = ((- 1, d2), w2)"
      "out w2 = out w1"
      using less.IH [OF lt(1,3)] by blast
    have "net_xmit u fd False b (int n) tot acc w = ((- 1, d2), w2)"
      using r(1) lt(2) w2(1) by (subst net_xmit.simps) (simp only: m if_False prod.case lt(4), simp)
    then show ?thesis using w2(2) law(1) by auto
  qed
qed

lemma xmit_send_all:
  assumes "net_ok u fd pend out" and "b \<noteq> []"
  shows "\<exists>w1. net_xmit u fd True b (int (length b)) tot acc w = ((tot + int (length b), acc), w1) \<and>
    out w1 = out w @ b \<and> pend w1 = pend w"
  using assms(2)
proof (induction "length b" arbitrary: b tot w rule: less_induct)
  case less
  obtain r w1 where m: "u_send u fd b w = (r, w1)" by (metis prod.exhaust)
  note law = net_ok_send [OF assms(1) m]
  have r: "0 < r" "r \<le> int (length b)" "out w1 = out w @ take (nat r) b" using law(2) less.prems by auto
  show ?case
  proof (cases "r = int (length b)")
    case True
    then show ?thesis using m r law(1) by (subst net_xmit.simps) simp
  next
    case False
    let ?b = "drop (nat r) b"
    have lt: "length ?b < length b" "?b \<noteq> []" "int (length b) - r = int (length ?b)"
      using r False by auto
    obtain w2 where w2: "net_xmit u fd True ?b (int (length ?b)) (tot + r) acc w1 =
        ((tot + r + int (length ?b), acc), w2)" "out w2 = out w1 @ ?b" "pend w2 = pend w1"
      using less.hyps [OF lt(1,2)] by blast
    have "(0 < int (length ?b)) = True" "(r \<le> 0) = False" using lt(2) r(1) by simp_all
    then have "net_xmit u fd True b (int (length b)) tot acc w = ((tot + r + int (length ?b), acc), w2)"
      using r(1) w2(1)
      by (subst net_xmit.simps) (simp only: m if_True if_False prod.case lt(3) append_Nil2)
    moreover have "tot + r + int (length ?b) = tot + int (length b)" using lt(3) by simp
    ultimately show ?thesis using w2(2,3) r(3) law(1) by simp
  qed
qed

text \<open>The whole buffer is received or sent, or fewer bytes have arrived and the call fails.\<close>

lemma recv_exact:
  assumes "net_ok u fd pend out" and "pend (us_os s) = d @ rest" and "length d = n"
  obtains w1 where "run_state (usbip_net_recv u fd n) s = ((int n, d), s\<lparr>us_os := w1\<rparr>)"
    and "pend w1 = rest" and "out w1 = out (us_os s)"
proof (cases "n = 0")
  case True
  with assms that [of "us_os s"] show thesis by (simp add: usbip_net_recv_def)
next
  case False
  have "\<exists>w1. net_xmit u fd False [] (int n) 0 [] (us_os s) =
      ((0 + int n, [] @ take n (pend (us_os s))), w1) \<and> pend w1 = drop n (pend (us_os s)) \<and>
      out w1 = out (us_os s)"
    by (rule xmit_recv_exact [OF assms(1)]) (use False assms in auto)
  with False assms that show thesis by (auto simp: usbip_net_recv_def)
qed

lemma recv_short:
  assumes "net_ok u fd pend out" and "length (pend (us_os s)) < n"
  obtains d w1 where "run_state (usbip_net_recv u fd n) s = ((- 1, d), s\<lparr>us_os := w1\<rparr>)"
    and "out w1 = out (us_os s)"
  using xmit_recv_short [OF assms, of "[]" 0 "[]"] assms(2) that by (auto simp: usbip_net_recv_def)

lemma send_exact:
  assumes "net_ok u fd pend out"
  obtains w1 where "run_state (usbip_net_send u fd b) s = (int (length b), s\<lparr>us_os := w1\<rparr>)"
    and "out w1 = out (us_os s) @ b" and "pend w1 = pend (us_os s)"
proof (cases "b = []")
  case True
  with that [of "us_os s"] show thesis by (simp add: usbip_net_send_def)
next
  case False
  obtain w1 where "net_xmit u fd True b (int (length b)) 0 [] (us_os s) = ((0 + int (length b), []), w1)"
    "out w1 = out (us_os s) @ b" "pend w1 = pend (us_os s)"
    using xmit_send_all [OF assms False] by blast
  with False that [of w1] show thesis by (simp add: usbip_net_send_def)
qed

definition op_header :: "endian \<Rightarrow> u16 \<Rightarrow> u32 \<Rightarrow> byte list" where
  "op_header h code status = send_op_common h \<lparr>oc_version = ucast USBIP_VERSION, oc_code = code, oc_status = status\<rparr>"

lemma length_op_header [simp]: "length (op_header h code status) = 8"
  by (simp add: op_header_def length_send_op_common sizeof_op_common_def)

lemma send_op_common_exact:
  assumes "net_ok u fd pend out"
  obtains w1 where "run_state (usbip_net_send_op_common h u fd code status) s = (0, s\<lparr>us_os := w1\<rparr>)"
    and "out w1 = out (us_os s) @ op_header h (ucast code) status" and "pend w1 = pend (us_os s)"
proof -
  obtain w1 where "run_state (usbip_net_send u fd (op_header h (ucast code) status)) s =
      (int (length (op_header h (ucast code) status)), s\<lparr>us_os := w1\<rparr>)"
    "out w1 = out (us_os s) @ op_header h (ucast code) status" "pend w1 = pend (us_os s)"
    by (rule send_exact [OF assms])
  then show thesis
    using that by (simp add: usbip_net_send_op_common_def op_header_def send_op_common_def)
qed

text \<open>The checks of the common header.\<close>

definition op_accepts :: "u16 \<Rightarrow> op_common \<Rightarrow> bool" where
  "op_accepts code c \<longleftrightarrow> ucast (oc_version c) = USBIP_VERSION \<and>
     (code = OP_UNSPEC \<or> oc_code c = code) \<and> oc_status c = ST_OK"

lemma recv_op_common_checks:
  assumes "net_ok u fd pend out" and "pend (us_os s) = d @ rest" and "length d = sizeof_op_common"
  obtains w1 where "run_state (usbip_net_recv_op_common h u fd code) s =
      ((if op_accepts code (UNet.recv_op_common h d) then (0, oc_code (UNet.recv_op_common h d)) else (- 1, code)),
       s\<lparr>us_os := w1\<rparr>)" and "pend w1 = rest" and "out w1 = out (us_os s)"
proof -
  obtain w1 where "run_state (usbip_net_recv u fd sizeof_op_common) s =
      ((int sizeof_op_common, d), s\<lparr>us_os := w1\<rparr>)" "pend w1 = rest" "out w1 = out (us_os s)"
    by (rule recv_exact [OF assms])
  then show thesis
    using that [of w1]
    by (simp add: usbip_net_recv_op_common_def op_accepts_def UNet.recv_op_common_def Let_def)
qed

lemma version_roundtrip: "ucast (ucast USBIP_VERSION :: u16) = USBIP_VERSION"
  by (simp add: USBIP_VERSION_def)

lemma op_accepts_header:
  "op_accepts code (UNet.recv_op_common g (op_header h c ST_OK)) \<longleftrightarrow> code = OP_UNSPEC \<or> c = code"
  by (simp add: op_accepts_def op_header_def recv_send_op_common version_roundtrip)

lemma op_accepts_failed: "status \<noteq> ST_OK \<Longrightarrow> \<not> op_accepts code (UNet.recv_op_common g (op_header h c status))"
  by (simp add: op_accepts_def op_header_def recv_send_op_common)

lemma recv_op_header:
  assumes "net_ok u fd pend out" and "pend (us_os s) = op_header h c ST_OK @ rest"
    and "code = OP_UNSPEC \<or> c = code"
  obtains w1 where "run_state (usbip_net_recv_op_common g u fd code) s = ((0, c), s\<lparr>us_os := w1\<rparr>)"
    and "pend w1 = rest" and "out w1 = out (us_os s)"
proof -
  have l: "length (op_header h c ST_OK) = sizeof_op_common" by (simp add: sizeof_op_common_def)
  obtain w1 where w1: "run_state (usbip_net_recv_op_common g u fd code) s =
      ((if op_accepts code (UNet.recv_op_common g (op_header h c ST_OK))
        then (0, oc_code (UNet.recv_op_common g (op_header h c ST_OK))) else (- 1, code)), s\<lparr>us_os := w1\<rparr>)"
    "pend w1 = rest" "out w1 = out (us_os s)"
    by (rule recv_op_common_checks [OF assms(1,2) l, where h = g and code = code])
  moreover have "oc_code (UNet.recv_op_common g (op_header h c ST_OK)) = c"
    by (simp add: op_header_def recv_send_op_common)
  ultimately show thesis using that [of w1] assms(3) by (simp add: op_accepts_header)
qed

end
