(* ===== verification/UTalk.thy ===== *)
theory UTalk
  imports UNetLaws
begin

text \<open>
  Client and daemon talking to each other: the import of a device and the list of devices, over
  connections that lose nothing. Lemmas: calls of \<^verbatim>\<open>sysfs\<close> leave the connection alone, so do the
  programs made of them (\<open>keeps\<close>), and the list of exported devices is well formed.
\<close>

section \<open>Programs that leave a part of the state alone\<close>

lemma keeps_modify_os [keeps_intros]: "(\<And>s. us_os (f s) = us_os s) \<Longrightarrow> keeps (v \<circ> us_os) (modify f)"
  by (rule keeps_modify) simp

lemma keeps_upd_vhci [keeps_intros]: "keeps (v \<circ> us_os) (upd_vhci f)"
  by (simp add: keeps_def)

lemma keeps_os: "(\<And>w. v (snd (f w)) = v w) \<Longrightarrow> keeps (v \<circ> us_os) (os f)"
  by (simp add: keeps_def split: prod.splits) (metis snd_conv)

lemma keeps_andthen [keeps_intros]:
  assumes "keeps v m" and "\<And>a. keeps v (f a)"
  shows "keeps v (andthen m f)"
  unfolding andthen_def by (intro keeps_intros assms)

lemma keeps_osD: "keeps (v \<circ> us_os) m \<Longrightarrow> run_state m s = (a, s') \<Longrightarrow> v (us_os s') = v (us_os s)"
  using keepsD [of "v \<circ> us_os"] by fastforce

text \<open>The calls of \<^verbatim>\<open>sysfs\<close> and of the C library leave the view \<open>v\<close> of the world alone: first all but
  writing an attribute, then that too.\<close>

definition quiet_reads :: "'w uapi \<Rightarrow> ('w \<Rightarrow> 'x) \<Rightarrow> bool" where
  "quiet_reads u v \<longleftrightarrow>
     (\<forall>w. v (snd (u_calloc u w)) = v w \<and> v (snd (u_junk32 u w)) = v w \<and> v (snd (u_mnt_path u w)) = v w) \<and>
     (\<forall>n w. v (snd (u_junk u n w)) = v w) \<and>
     (\<forall>a b w. v (snd (u_open_device u a b w)) = v w) \<and>
     (\<forall>p w. v (snd (u_open_device_path u p w)) = v w) \<and>
     (\<forall>d w. v (snd (u_close_device u d w)) = v w) \<and>
     (\<forall>d w. v (snd (u_device_parent u d w)) = v w) \<and>
     (\<forall>d n w. v (snd (u_device_attr u d n w)) = v w) \<and>
     (\<forall>p w. v (snd (u_open_attr u p w)) = v w) \<and>
     (\<forall>a w. v (snd (u_read_attr u a w)) = v w) \<and>
     (\<forall>a w. v (snd (u_close_attr u a w)) = v w) \<and>
     (\<forall>d w. v (snd (u_driver_devices u d w)) = v w) \<and>
     (\<forall>p w. v (snd (u_open_driver_path u p w)) = v w) \<and>
     (\<forall>d w. v (snd (u_close_driver u d w)) = v w) \<and>
     (\<forall>p w. v (snd (u_open_class u p w)) = v w) \<and>
     (\<forall>c w. v (snd (u_close_class u c w)) = v w) \<and>
     (\<forall>c w. v (snd (u_class_devices u c w)) = v w) \<and>
     (\<forall>p w. v (snd (u_get_link u p w)) = v w) \<and>
     (\<forall>p w. v (snd (u_dir_list u p w)) = v w) \<and>
     (\<forall>p w. v (snd (u_stat u p w)) = v w) \<and>
     (\<forall>n w. v (snd (u_usleep u n w)) = v w) \<and>
     (\<forall>fd x w. v (snd (u_setsockopt u fd x w)) = v w)"

definition quiet :: "'w uapi \<Rightarrow> ('w \<Rightarrow> 'x) \<Rightarrow> bool" where
  "quiet u v \<longleftrightarrow> quiet_reads u v \<and> (\<forall>a b w. v (snd (u_write_attr u a b w)) = v w)"

lemma quiet_quiet_reads: "quiet u v \<Longrightarrow> quiet_reads u v"
  by (simp add: quiet_def)

lemma quiet_write [keeps_intros]: "quiet u v \<Longrightarrow> keeps (v \<circ> us_os) (os (u_write_attr u at x))"
  by (rule keeps_os) (simp add: quiet_def)

lemma quiet_calls [keeps_intros]:
  assumes "quiet_reads u v"
  shows "keeps (v \<circ> us_os) (os (u_calloc u))" and "keeps (v \<circ> us_os) (os (u_junk32 u))"
    and "keeps (v \<circ> us_os) (os (u_junk u n))" and "keeps (v \<circ> us_os) (os (u_mnt_path u))"
    and "keeps (v \<circ> us_os) (os (u_open_device u a b))" and "keeps (v \<circ> us_os) (os (u_open_device_path u p))"
    and "keeps (v \<circ> us_os) (os (u_close_device u d))" and "keeps (v \<circ> us_os) (os (u_device_parent u d))"
    and "keeps (v \<circ> us_os) (os (u_device_attr u d p))"
    and "keeps (v \<circ> us_os) (os (u_open_attr u p))" and "keeps (v \<circ> us_os) (os (u_read_attr u at))"
    and "keeps (v \<circ> us_os) (os (u_close_attr u at))"
    and "keeps (v \<circ> us_os) (os (u_driver_devices u dr))" and "keeps (v \<circ> us_os) (os (u_open_driver_path u p))"
    and "keeps (v \<circ> us_os) (os (u_close_driver u dr))" and "keeps (v \<circ> us_os) (os (u_open_class u p))"
    and "keeps (v \<circ> us_os) (os (u_close_class u cl))" and "keeps (v \<circ> us_os) (os (u_class_devices u cl))"
    and "keeps (v \<circ> us_os) (os (u_get_link u p))" and "keeps (v \<circ> us_os) (os (u_dir_list u p))"
    and "keeps (v \<circ> us_os) (os (u_stat u p))"
    and "keeps (v \<circ> us_os) (os (u_usleep u n))" and "keeps (v \<circ> us_os) (os (u_setsockopt u fd so))"
  using assms by (intro keeps_os; simp add: quiet_reads_def)+

lemma keeps_read_attr [keeps_intros]: "quiet_reads u v \<Longrightarrow> keeps (v \<circ> us_os) (read_attr_value u d n f)"
  unfolding read_attr_value_def by (intro keeps_intros)

lemma keeps_read_speed [keeps_intros]: "quiet_reads u v \<Longrightarrow> keeps (v \<circ> us_os) (read_attr_speed u d)"
  unfolding read_attr_speed_def Let_def by (intro keeps_intros)

lemma keeps_read_usb_device [keeps_intros]: "quiet_reads u v \<Longrightarrow> keeps (v \<circ> us_os) (read_usb_device u d)"
  unfolding read_usb_device_def by (intro keeps_intros)

lemma keeps_read_usb_interface [keeps_intros]: "quiet_reads u v \<Longrightarrow> keeps (v \<circ> us_os) (read_usb_interface u d i f)"
  unfolding read_usb_interface_def by (intro keeps_intros)

lemma keeps_wait [keeps_intros]: "quiet_reads u v \<Longrightarrow> keeps (v \<circ> us_os) (wait_for_file u p n)"
proof (induction n)
  case 0
  then show ?case by (simp add: keeps_intros)
next
  case (Suc n)
  have "keeps (v \<circ> us_os) (case r of Stat_ok x \<Rightarrow> ret (Some (Suc n)) | Stat_enoent \<Rightarrow>
      do { os (u_usleep u 10000); wait_for_file u p n } | Stat_error \<Rightarrow> ret None)" for r
    by (cases r; simp only: stat_result.case; intro keeps_intros Suc)
  then show ?case unfolding wait_for_file.simps by (intro keeps_intros Suc.prems)
qed

lemma keeps_read_status [keeps_intros]: "quiet_reads u v \<Longrightarrow> keeps (v \<circ> us_os) (read_attr_usbip_status u d)"
  unfolding read_attr_usbip_status_def Let_def by (intro keeps_intros)

lemma keeps_read_interfaces [keeps_intros]: "quiet_reads u v \<Longrightarrow> keeps (v \<circ> us_os) (read_interfaces u d is)"
  by (induction "is") (auto intro!: keeps_intros)

lemma keeps_edev_new [keeps_intros]: "quiet_reads u v \<Longrightarrow> keeps (v \<circ> us_os) (usbip_exported_device_new u p)"
  unfolding usbip_exported_device_new_def by (intro keeps_intros)

lemma keeps_collect [keeps_intros]: "quiet_reads u v \<Longrightarrow> keeps (v \<circ> us_os) (collect_devices u is l)"
  by (induction "is" arbitrary: l) (auto intro!: keeps_intros)

lemma keeps_export_devices [keeps_intros]: "quiet_reads u v \<Longrightarrow> keeps (v \<circ> us_os) (export_devices u ss d)"
  by (induction ss arbitrary: d) (auto intro!: keeps_intros)

lemma keeps_delete [keeps_intros]: "quiet_reads u v \<Longrightarrow> keeps (v \<circ> us_os) (delete_edevs u es)"
  by (induction es) (auto intro!: keeps_intros)

lemma keeps_refresh [keeps_intros]: "quiet_reads u v \<Longrightarrow> keeps (v \<circ> us_os) (usbip_host_refresh_device_list u)"
  unfolding usbip_host_refresh_device_list_def refresh_exported_devices_def
  by (intro keeps_intros) simp_all

lemma keeps_export:
  assumes "quiet u v"
  shows "keeps (v \<circ> us_os) (usbip_host_export_device u e fd)"
  unfolding usbip_host_export_device_def using assms quiet_quiet_reads [OF assms] by (intro keeps_intros)

section \<open>Programs that only call the operating system\<close>

definition os_only :: "('w ustate, 'a) state \<Rightarrow> bool" where
  "os_only m \<longleftrightarrow> (\<forall>s. \<exists>a w. run_state m s = (a, s\<lparr>us_os := w\<rparr>))"

named_theorems os_only_intros \<open>rules for os_only\<close>

lemma os_only_ret [os_only_intros]: "os_only (ret a)"
  unfolding os_only_def
proof
  fix s :: "'w ustate"
  have "s = s\<lparr>us_os := us_os s\<rparr>" by simp
  then show "\<exists>b w. run_state (ret a) s = (b, s\<lparr>us_os := w\<rparr>)" by (metis run_state_return)
qed

lemma os_only_os [os_only_intros]: "os_only (os f)"
  by (simp add: os_only_def split: prod.splits) (metis prod.exhaust)

lemma os_only_bind [os_only_intros]:
  assumes "os_only m" and "\<And>a. os_only (f a)"
  shows "os_only (State_Monad.bind m f)"
  unfolding os_only_def
proof
  fix s :: "'a ustate"
  obtain a w where a: "run_state m s = (a, s\<lparr>us_os := w\<rparr>)" using assms(1) unfolding os_only_def by blast
  obtain b w2 where b: "run_state (f a) (s\<lparr>us_os := w\<rparr>) = (b, s\<lparr>us_os := w, us_os := w2\<rparr>)"
    using assms(2) [of a] unfolding os_only_def by blast
  show "\<exists>b w. run_state (State_Monad.bind m f) s = (b, s\<lparr>us_os := w\<rparr>)"
    using a b by simp (rule exI, rule refl)
qed

lemma os_only_if [os_only_intros]: "os_only m \<Longrightarrow> os_only n \<Longrightarrow> os_only (if b then m else n)"
  by simp

lemma os_only_option [os_only_intros]:
  "os_only m \<Longrightarrow> (\<And>y. os_only (f y)) \<Longrightarrow> os_only (case x of None \<Rightarrow> m | Some y \<Rightarrow> f y)"
  by (cases x) simp_all

lemma os_only_prod [os_only_intros]: "(\<And>a b. os_only (f a b)) \<Longrightarrow> os_only (case x of (a, b) \<Rightarrow> f a b)"
  by (cases x) simp

lemma os_onlyD:
  assumes "os_only m"
  obtains a w where "run_state m s = (a, s\<lparr>us_os := w\<rparr>)"
  using assms unfolding os_only_def by blast

lemma os_only_read [os_only_intros]: "os_only (read_usb_device u d)"
  unfolding read_usb_device_def read_attr_value_def read_attr_speed_def Let_def
  by (intro os_only_intros)

lemma os_only_copy [os_only_intros]: "os_only (copy_cdevs u p cs l)"
  by (induction cs arbitrary: l) (auto intro!: os_only_intros)

section \<open>Well-formed devices\<close>

text \<open>What holds of every result of a program.\<close>

definition gives :: "('a \<Rightarrow> bool) \<Rightarrow> ('s, 'a) state \<Rightarrow> bool" where
  "gives P m \<longleftrightarrow> (\<forall>s. P (fst (run_state m s)))"

lemma gives_ret: "P a \<Longrightarrow> gives P (ret a)"
  by (simp add: gives_def)

lemma gives_bind:
  assumes "gives Q m" and "\<And>a. Q a \<Longrightarrow> gives P (f a)"
  shows "gives P (State_Monad.bind m f)"
  using assms by (simp add: gives_def split: prod.splits) (metis fst_conv)

lemma gives_any: "gives (\<lambda>_. True) m"
  by (simp add: gives_def)

lemma gives_next: "(\<And>a. gives P (f a)) \<Longrightarrow> gives P (State_Monad.bind m f)"
  by (rule gives_bind [OF gives_any])

lemma givesD: "gives P m \<Longrightarrow> run_state m s = (a, s') \<Longrightarrow> P a"
  unfolding gives_def by (metis fst_conv)

definition wf_edev :: "usbip_exported_device \<Rightarrow> bool" where
  "wf_edev e \<longleftrightarrow> wf_udev (ed_udev e) \<and> length (ed_uinf e) = unat (uu_bNumInterfaces (ed_udev e))"

lemma read_usb_device_wf: "gives wf_udev (read_usb_device u d)"
  unfolding read_usb_device_def
  by (intro gives_next gives_ret)
    (simp add: wf_udev_def length_strncpy SYSFS_PATH_MAX_def SYSFS_BUS_ID_SIZE_def)

lemma read_interfaces_length: "gives (\<lambda>fs. length fs = length is) (read_interfaces u d is)"
proof (induction "is")
  case Nil
  then show ?case by (simp add: gives_ret)
next
  case (Cons i "is")
  then show ?case by (auto intro!: gives_next gives_bind [OF Cons.IH] gives_ret)
qed

lemma edev_new_wf: "gives (\<lambda>e. \<forall>x\<in>set_option e. wf_edev x) (usbip_exported_device_new u p)"
  unfolding usbip_exported_device_new_def
  by (auto intro!: gives_next gives_ret gives_bind [OF read_usb_device_wf]
      gives_bind [OF read_interfaces_length] simp: wf_edev_def split: option.splits)

definition wf_host :: "usbip_host_driver \<Rightarrow> bool" where
  "wf_host d \<longleftrightarrow> (\<forall>es\<in>set_option (uh_edev_list d). list_all wf_edev es \<and> uh_ndevs d = int (length es))"

lemma export_devices_wf: "wf_host d \<Longrightarrow> gives wf_host (export_devices u ss d)"
proof (induction ss arbitrary: d)
  case Nil
  then show ?case by (simp add: gives_ret)
next
  case (Cons p ss)
  have "wf_host (case e of None \<Rightarrow> d | Some edev \<Rightarrow> add_edev edev d)" if "\<forall>x\<in>set_option e. wf_edev x" for e
    using that Cons.prems by (cases e) (auto simp: wf_host_def add_edev_def)
  then show ?case by (auto intro!: gives_bind [OF edev_new_wf] Cons.IH)
qed

lemma refresh_exported_wf: "wf_host d \<Longrightarrow> gives wf_host (refresh_exported_devices u d)"
  unfolding refresh_exported_devices_def
  by (auto intro!: gives_next gives_ret export_devices_wf split: option.splits)

lemma host_refresh_wf:
  assumes "run_state (usbip_host_refresh_device_list u) s = (r, s')" and "us_host s \<noteq> None"
  shows "\<exists>d. us_host s' = Some d \<and> wf_host d \<and> r \<in> {Some 0, Some (- 1)}"
proof -
  obtain d where d: "us_host s = Some d" using assms(2) by blast
  define d0 where "d0 = d\<lparr>uh_ndevs := 0, uh_edev_list := Some []\<rparr>"
  have w0: "wf_host d0" "wf_host (d\<lparr>uh_ndevs := 0, uh_edev_list := None\<rparr>)"
    by (simp_all add: d0_def wf_host_def)
  define es where "es = (case uh_edev_list d of None \<Rightarrow> ret () | Some es \<Rightarrow> delete_edevs u es)"
  obtain s1 where s1: "run_state es s = ((), s1)" by (metis old.unit.exhaust prod.exhaust)
  obtain ok w2 where s2: "u_calloc u (us_os s1) = (ok, w2)" by (metis prod.exhaust)
  show ?thesis
  proof (cases ok)
    case False
    then show ?thesis
      using assms(1) w0(2) s1 s2 d by (auto simp: usbip_host_refresh_device_list_def es_def [symmetric])
  next
    case True
    obtain d1 s3 where s3: "run_state (refresh_exported_devices u d0) (s1\<lparr>us_os := w2\<rparr>) = (d1, s3)"
      by (metis prod.exhaust)
    then have "wf_host d1" using givesD [OF refresh_exported_wf [OF w0(1)]] by blast
    then show ?thesis
      using assms(1) True s1 s2 s3 d
      by (auto simp: usbip_host_refresh_device_list_def es_def [symmetric] d0_def [symmetric])
  qed
qed

end
