(* ===== verification/UImport.thy ===== *)
theory UImport
  imports UTalk
begin

text \<open>
  The import of a device, from the request of the client to the answer of the daemon and back.
\<close>

section \<open>The client\<close>

definition import_request :: "endian \<Rightarrow> string \<Rightarrow> byte list" where
  "import_request h busid =
     op_header h OP_REQ_IMPORT 0 @ chars_mem (strncpy busid (SYSFS_BUS_ID_SIZE - 1) @ [NUL])"

text \<open>What the client does after its request.\<close>

definition import_answer :: "endian \<Rightarrow> 'w uapi \<Rightarrow> int \<Rightarrow> string \<Rightarrow> ('w ustate, int option) state" where
  "import_answer h u fd busid = do {
     (rc2, code) \<leftarrow> usbip_net_recv_op_common h u fd OP_REP_IMPORT;
     if rc2 < 0 then ret (Some (- 1))
     else do {
       (rc3, bs) \<leftarrow> usbip_net_recv u fd sizeof_usb_device;
       if rc3 < 0 then ret (Some (- 1))
       else do {
         let udev = recv_udev h bs;
         if \<not> strncmp_eq (uu_busid udev) busid SYSFS_BUS_ID_SIZE then ret (Some (- 1))
         else import_device u fd udev
       }
     }
   }"

lemma client_sends_request:
  assumes "net_ok u fd pend out"
  obtains w1 where "out w1 = out (us_os s) @ import_request h busid" and "pend w1 = pend (us_os s)"
    and "run_state (query_import_device h u fd busid) s =
      run_state (import_answer h u fd busid) (s\<lparr>us_os := w1\<rparr>)"
proof -
  let ?b = "chars_mem (strncpy busid (SYSFS_BUS_ID_SIZE - 1) @ [NUL])"
  obtain w1 where w1: "run_state (usbip_net_send_op_common h u fd (ucast OP_REQ_IMPORT) 0) s = (0, s\<lparr>us_os := w1\<rparr>)"
    "out w1 = out (us_os s) @ op_header h (ucast (ucast OP_REQ_IMPORT :: u32)) 0" "pend w1 = pend (us_os s)"
    by (rule send_op_common_exact [OF assms])
  obtain w2 where w2: "run_state (usbip_net_send u fd ?b) (s\<lparr>us_os := w1\<rparr>) =
      (int (length ?b), s\<lparr>us_os := w1, us_os := w2\<rparr>)"
    "out w2 = out (us_os (s\<lparr>us_os := w1\<rparr>)) @ ?b" "pend w2 = pend (us_os (s\<lparr>us_os := w1\<rparr>))"
    by (rule send_exact [OF assms])
  have c: "ucast (ucast OP_REQ_IMPORT :: u32) = OP_REQ_IMPORT" by (simp add: op_code_defs)
  show thesis
  proof (rule that)
    show "out w2 = out (us_os s) @ import_request h busid"
      using w1(2) w2(2) c by (simp add: import_request_def)
    show "pend w2 = pend (us_os s)" using w1(3) w2(3) by simp
  qed (use w1(1) w2(1) in \<open>simp add: query_import_device_def import_answer_def\<close>)
qed

lemma client_imports:
  assumes ok: "net_ok u fd pend out" and p: "pend (us_os s) = op_header g OP_REP_IMPORT ST_OK @ send_udev g d @ rest"
    and wf: "wf_udev d" and b: "strncmp_eq (uu_busid d) busid SYSFS_BUS_ID_SIZE"
  shows "\<exists>w. out w = out (us_os s) @ import_request h busid \<and> pend w = rest \<and>
    run_state (query_import_device h u fd busid) s = run_state (import_device u fd d) (s\<lparr>us_os := w\<rparr>)"
proof -
  obtain w1 where w1: "out w1 = out (us_os s) @ import_request h busid" "pend w1 = pend (us_os s)"
    and run: "run_state (query_import_device h u fd busid) s =
      run_state (import_answer h u fd busid) (s\<lparr>us_os := w1\<rparr>)"
    by (rule client_sends_request [OF ok, where s = s and h = h and busid = busid])
  have p1: "pend (us_os (s\<lparr>us_os := w1\<rparr>)) = op_header g OP_REP_IMPORT ST_OK @ (send_udev g d @ rest)"
    using w1(2) p by simp
  obtain w2 where w2: "run_state (usbip_net_recv_op_common h u fd OP_REP_IMPORT) (s\<lparr>us_os := w1\<rparr>) =
      ((0, OP_REP_IMPORT), s\<lparr>us_os := w1, us_os := w2\<rparr>)"
    "pend w2 = send_udev g d @ rest" "out w2 = out (us_os (s\<lparr>us_os := w1\<rparr>))"
    by (rule recv_op_header [OF ok p1 disjI2 [OF refl]])
  have p2: "pend (us_os (s\<lparr>us_os := w2\<rparr>)) = send_udev g d @ rest" using w2(2) by simp
  obtain w3 where w3: "run_state (usbip_net_recv u fd sizeof_usb_device) (s\<lparr>us_os := w2\<rparr>) =
      ((int sizeof_usb_device, send_udev g d), s\<lparr>us_os := w2, us_os := w3\<rparr>)"
    "pend w3 = rest" "out w3 = out (us_os (s\<lparr>us_os := w2\<rparr>))"
    by (rule recv_exact [OF ok p2 length_send_udev [OF wf]])
  show ?thesis
  proof (intro exI conjI)
    show "out w3 = out (us_os s) @ import_request h busid" using w1 w2 w3 by simp
    show "pend w3 = rest" by (rule w3(2))
    show "run_state (query_import_device h u fd busid) s = run_state (import_device u fd d) (s\<lparr>us_os := w3\<rparr>)"
      using w2(1) w3(1) b by (simp add: run import_answer_def recv_send_udev [OF wf] Let_def)
  qed
qed

text \<open>A refusal, and a connection that ends without an answer.\<close>

lemma client_refused:
  assumes ok: "net_ok u fd pend out"
    and p: "pend (us_os s) = op_header g OP_REP_IMPORT ST_NA @ rest \<or> pend (us_os s) = []"
  shows "fst (run_state (query_import_device h u fd busid) s) = Some (- 1)"
proof -
  obtain w1 where w1: "out w1 = out (us_os s) @ import_request h busid" "pend w1 = pend (us_os s)"
    and run: "run_state (query_import_device h u fd busid) s =
      run_state (import_answer h u fd busid) (s\<lparr>us_os := w1\<rparr>)"
    by (rule client_sends_request [OF ok, where s = s and h = h and busid = busid])
  have "\<exists>s2. run_state (usbip_net_recv_op_common h u fd OP_REP_IMPORT) (s\<lparr>us_os := w1\<rparr>) = ((- 1, OP_REP_IMPORT), s2)"
  proof (cases "pend (us_os s) = []")
    case True
    then have "length (pend (us_os (s\<lparr>us_os := w1\<rparr>))) < sizeof_op_common" using w1 by (simp add: sizeof_op_common_def)
    then obtain d w2 where "run_state (usbip_net_recv u fd sizeof_op_common) (s\<lparr>us_os := w1\<rparr>) =
        ((- 1, d), s\<lparr>us_os := w1, us_os := w2\<rparr>)"
      by (rule recv_short [OF ok])
    then show ?thesis by (simp add: usbip_net_recv_op_common_def)
  next
    case False
    then have p1: "pend (us_os (s\<lparr>us_os := w1\<rparr>)) = op_header g OP_REP_IMPORT ST_NA @ rest" using w1 p by simp
    have l: "length (op_header g OP_REP_IMPORT ST_NA) = sizeof_op_common" by (simp add: sizeof_op_common_def)
    obtain w2 where w2: "run_state (usbip_net_recv_op_common h u fd OP_REP_IMPORT) (s\<lparr>us_os := w1\<rparr>) =
        ((if op_accepts OP_REP_IMPORT (UNet.recv_op_common h (op_header g OP_REP_IMPORT ST_NA))
          then (0, oc_code (UNet.recv_op_common h (op_header g OP_REP_IMPORT ST_NA)))
          else (- 1, OP_REP_IMPORT)), s\<lparr>us_os := w1, us_os := w2\<rparr>)"
      by (rule recv_op_common_checks [OF ok p1 l])
    have "\<not> op_accepts OP_REP_IMPORT (UNet.recv_op_common h (op_header g OP_REP_IMPORT ST_NA))"
      by (rule op_accepts_failed) (simp add: ST_NA_def ST_OK_def)
    then show ?thesis using w2 by simp
  qed
  then show ?thesis using run by (auto simp: import_answer_def)
qed

section \<open>The daemon\<close>

lemma cstr_request:
  assumes "length (cstr busid) < SYSFS_BUS_ID_SIZE"
  shows "cstr (strncpy busid (SYSFS_BUS_ID_SIZE - 1) @ [NUL]) = cstr busid"
proof -
  have t: "take (SYSFS_BUS_ID_SIZE - 1) (cstr busid) = cstr busid" using assms by simp
  have "list_all (\<lambda>c. c \<noteq> NUL) (cstr busid)"
    by (auto simp: cstr_def list_all_iff dest: set_takeWhileD)
  moreover have "cstr (replicate n NUL @ [NUL]) = []" for n by (cases n) (simp_all add: cstr_def)
  ultimately show ?thesis
    using t by (simp add: strncpy_def cstr_def takeWhile_all_append [where P = "\<lambda>c. c \<noteq> NUL"])
qed

text \<open>The device a bus id names: the first of the list with it.\<close>

definition asked_for :: "string \<Rightarrow> usbip_exported_device list \<Rightarrow> usbip_exported_device option" where
  "asked_for busid es = find (\<lambda>e. strncmp_eq busid (uu_busid (ed_udev e)) SYSFS_BUS_ID_SIZE) es"

definition available :: "usbip_exported_device \<Rightarrow> bool" where
  "available e \<longleftrightarrow> ed_status e = of_nat (status_num SDEV_ST_AVAILABLE)"

text \<open>Whether the driver takes the socket \<open>fd\<close> for a device that is available; it refuses by failing
  the write to \<open>usbip_sockfd\<close>.\<close>

definition driver_takes :: "'w uapi \<Rightarrow> int \<Rightarrow> (usbip_exported_device \<Rightarrow> bool) \<Rightarrow> usbip_exported_device list \<Rightarrow> bool" where
  "driver_takes u fd tk es \<longleftrightarrow> (\<forall>e\<in>set es. \<forall>s. available e \<longrightarrow>
     (0 \<le> fst (run_state (usbip_host_export_device u e fd) s) \<longleftrightarrow> tk e))"

lemma export_result:
  assumes "driver_takes u fd tk es" and "e \<in> set es"
  shows "fst (run_state (usbip_host_export_device u e fd) s) < 0 \<longleftrightarrow> \<not> (available e \<and> tk e)"
proof (cases "available e")
  case True
  then show ?thesis using assms by (auto simp: driver_takes_def not_less [symmetric])
next
  case False
  then show ?thesis by (simp add: usbip_host_export_device_def available_def)
qed

lemma os_only_gets [os_only_intros]: "os_only (gets f)"
  unfolding os_only_def
proof
  fix s :: "'a ustate"
  have "s = s\<lparr>us_os := us_os s\<rparr>" by simp
  then show "\<exists>b w. run_state (gets f) s = (b, s\<lparr>us_os := w\<rparr>)" by (intro exI [of _ "f s"] exI [of _ "us_os s"]) simp
qed

lemma os_only_import: "os_only (recv_request_import g u fd)"
  unfolding recv_request_import_def usbip_net_recv_def usbip_net_set_nodelay_def usbip_host_export_device_def
    usbip_net_send_op_common_def usbip_net_send_def Let_def
  by (intro os_only_intros)

text \<open>What the daemon does with the request of the client once the list is up to date.\<close>

lemma daemon_imports:
  assumes ok: "net_ok u fd pend out" and q: "quiet u out"
    and p: "pend (us_os s) = req" and lb: "length req = SYSFS_BUS_ID_SIZE"
    and cb: "cstr (ld_chars req) = cstr busid"
    and run: "run_state (recv_request_import g u fd) s = (r, s')"
    and tk: "driver_takes u fd tk (edev_list_of s)"
  shows "us_host s' = us_host s \<and>
    (case asked_for busid (edev_list_of s) of
       None \<Rightarrow> r = - 1 \<and> out (us_os s') = out (us_os s) @ op_header g OP_REP_IMPORT ST_NA
     | Some e \<Rightarrow>
         if available e \<and> tk e
         then r = 0 \<and> out (us_os s') = out (us_os s) @ op_header g OP_REP_IMPORT ST_OK @ send_udev g (ed_udev e)
         else r = - 1 \<and> out (us_os s') = out (us_os s) @ op_header g OP_REP_IMPORT ST_NA)"
proof -
  have p0: "pend (us_os s) = req @ []" using p by simp
  obtain w1 where w1: "run_state (usbip_net_recv u fd SYSFS_BUS_ID_SIZE) s =
      ((int SYSFS_BUS_ID_SIZE, req), s\<lparr>us_os := w1\<rparr>)" "out w1 = out (us_os s)"
    by (rule recv_exact [OF ok p0 lb])
  let ?s1 = "s\<lparr>us_os := w1\<rparr>"
  have cmp: "strncmp_eq (ld_chars req) x SYSFS_BUS_ID_SIZE = strncmp_eq busid x SYSFS_BUS_ID_SIZE" for x
    using cb by (simp add: strncmp_eq_def)
  let ?F = "find (\<lambda>e. strncmp_eq (ld_chars req) (uu_busid (ed_udev e)) SYSFS_BUS_ID_SIZE) (edev_list_of s)"
  have af: "?F = asked_for busid (edev_list_of s)" by (simp add: asked_for_def cmp)
  have es1: "edev_list_of ?s1 = edev_list_of s" by (simp add: edev_list_of_def)
  have cc: "ucast (ucast OP_REP_IMPORT :: u32) = OP_REP_IMPORT" by (simp add: op_code_defs)
  define tail where "tail = (\<lambda>err. do {
       rc2 \<leftarrow> usbip_net_send_op_common g u fd (ucast OP_REP_IMPORT) (if \<not> err then ST_OK else ST_NA);
       if rc2 < 0 then ret (- 1)
       else (case ?F of
           None \<Rightarrow> ret (- 1)
         | Some e \<Rightarrow>
             if err then ret (- 1)
             else do {
               rc3 \<leftarrow> usbip_net_send u fd (send_udev g (ed_udev e));
               ret (if rc3 < 0 then - 1 else (0::int))
             })
     })"
  define att where "att = (case ?F of None \<Rightarrow> ret True
       | Some e \<Rightarrow> do {
           usbip_net_set_nodelay u fd;
           rc1 \<leftarrow> usbip_host_export_device u e fd;
           ret (rc1 < 0)
         })"
  have split: "run_state (recv_request_import g u fd) s = run_state (do { err \<leftarrow> att; tail err }) ?s1"
    using w1(1) es1 by (simp add: recv_request_import_def att_def tail_def Let_def)
  obtain err s2 where s2: "run_state att ?s1 = (err, s2)" by (metis prod.exhaust)
  have k: "keeps (out \<circ> us_os) att"
    unfolding att_def usbip_net_set_nodelay_def using quiet_quiet_reads [OF q]
    by (intro keeps_intros keeps_export [OF q])
  have o2: "out (us_os s2) = out (us_os s)" using keeps_osD [OF k s2] w1(2) by simp
  have "os_only att"
    unfolding att_def usbip_net_set_nodelay_def usbip_host_export_device_def by (intro os_only_intros)
  then have h2: "us_host s2 = us_host s" by (rule os_onlyD [where s = ?s1]) (use s2 in auto)
  have run2: "run_state (tail err) s2 = (r, s')" using run split s2 by simp
  obtain w3 where w3: "run_state (usbip_net_send_op_common g u fd (ucast OP_REP_IMPORT) (if \<not> err then ST_OK else ST_NA)) s2 =
      (0, s2\<lparr>us_os := w3\<rparr>)"
    "out w3 = out (us_os s2) @ op_header g (ucast (ucast OP_REP_IMPORT :: u32)) (if \<not> err then ST_OK else ST_NA)"
    by (rule send_op_common_exact [OF ok])
  have err: "err \<longleftrightarrow> (case ?F of None \<Rightarrow> True | Some e \<Rightarrow> \<not> (available e \<and> tk e))"
  proof (cases ?F)
    case None
    then show ?thesis using s2 by (simp add: att_def)
  next
    case (Some e)
    then have "e \<in> set (edev_list_of s)" by (auto simp: find_Some_iff)
    note x = export_result [OF tk this]
    show ?thesis
      using s2 Some x [of "snd (run_state (usbip_net_set_nodelay u fd) ?s1)"]
      by (auto simp: att_def split: prod.splits)
  qed
  show ?thesis
  proof (cases err)
    case True
    have "run_state (tail err) s2 = (- 1, s2\<lparr>us_os := w3\<rparr>)"
      using w3(1) True unfolding tail_def by (simp split: option.split)
    then have "r = - 1" "s' = s2\<lparr>us_os := w3\<rparr>" using run2 by auto
    then show ?thesis using w3(2) o2 cc True h2 err unfolding af by (auto split: option.splits)
  next
    case False
    then obtain e where F: "?F = Some e" "available e" "tk e" using err by (cases ?F) auto
    obtain w4 where w4: "run_state (usbip_net_send u fd (send_udev g (ed_udev e))) (s2\<lparr>us_os := w3\<rparr>) =
        (int (length (send_udev g (ed_udev e))), s2\<lparr>us_os := w3, us_os := w4\<rparr>)"
      "out w4 = out (us_os (s2\<lparr>us_os := w3\<rparr>)) @ send_udev g (ed_udev e)"
      by (rule send_exact [OF ok])
    have "run_state (tail err) s2 = (0, s2\<lparr>us_os := w4\<rparr>)"
      using w3(1) w4(1) False F(1) unfolding tail_def by simp
    then have "r = 0" "s' = s2\<lparr>us_os := w4\<rparr>" using run2 by auto
    then show ?thesis using w4(2) w3(2) o2 cc False F(2,3) h2 F(1) [unfolded af] by simp
  qed
qed

end
