(* ===== verification/UStatus.thy ===== *)
theory UStatus
  imports UTalk VhciHandler
begin

text \<open>
  The status table between the two halves of the virtual host controller: what the kernel prints,
  the library of user space reads. The contract is the locale \<open>status_file\<close>: a header line, then one
  line per port that the conversions of the library take apart. Inside it the library's parser is
  shown to fill the array of imported devices, to choose the first free port and never to abort; the
  interpretation \<open>vhci_status\<close> discharges the contract for \<open>show_status\<close>.
\<close>

section \<open>One line\<close>

text \<open>What reading a line does to the driver: entry \<open>i\<close> has the numbers of the line, the others and
  everything else of the driver stay.\<close>

definition line_read :: "nat \<Rightarrow> u32 \<Rightarrow> u32 \<Rightarrow> usbip_vhci_driver \<Rightarrow> usbip_vhci_driver \<Rightarrow> bool" where
  "line_read i st dv d d' \<longleftrightarrow>
     uv_nports d' = uv_nports d \<and> uv_hc_device d' = uv_hc_device d \<and> length (uv_idev d') = length (uv_idev d) \<and>
     id_port (uv_idev d' ! i) = of_nat i \<and> id_status (uv_idev d' ! i) = st \<and> id_devid (uv_idev d' ! i) = dv \<and>
     (\<forall>j. j \<noteq> i \<longrightarrow> uv_idev d' ! j = uv_idev d ! j)"

lemma line_read_set:
  assumes "line_read i st dv d d'" and "i < length (uv_idev d')"
    and "\<And>e. id_port (f e) = id_port e \<and> id_status (f e) = id_status e \<and> id_devid (f e) = id_devid e"
  shows "line_read i st dv d (set_idev i f d')"
  using assms by (simp add: line_read_def set_idev_def)

lemma imported_device_init_reads:
  assumes "us_vhci s = Some d1" and "line_read i st dv d d1" and "i < length (uv_idev d)"
    and "run_state (imported_device_init u i b) s = (ok, s')"
  shows "\<exists>d2. us_vhci s' = Some d2 \<and> line_read i st dv d d2"
proof -
  obtain sudev w1 where o1: "u_open_device u ''usb'' b (us_os s) = (sudev, w1)" by (metis prod.exhaust)
  show ?thesis
  proof (cases sudev)
    case None
    then show ?thesis using assms o1 by (auto simp: imported_device_init_def)
  next
    case (Some sd)
    obtain udev w2 where r: "run_state (read_usb_device u sd) (s\<lparr>us_os := w1\<rparr>) = (udev, s\<lparr>us_os := w1, us_os := w2\<rparr>)"
      by (rule os_onlyD [OF os_only_read])
    define d2 where "d2 = set_idev i (\<lambda>e. e\<lparr>id_udev := udev\<rparr>) d1"
    have l1: "i < length (uv_idev d1)" using assms(2,3) by (simp add: line_read_def)
    have l2: "line_read i st dv d d2" unfolding d2_def by (rule line_read_set [OF assms(2) l1]) simp
    obtain w3 where c: "u_close_device u sd w2 = ((), w3)" by (metis old.unit.exhaust prod.exhaust)
    let ?s3 = "s\<lparr>us_vhci := Some d2, us_os := w3\<rparr>"
    obtain lk w4 where cp: "run_state (copy_cdevs u (uu_path udev) (cdev_items (uv_cdev_list d2)) []) ?s3 = (lk, ?s3\<lparr>us_os := w4\<rparr>)"
      by (rule os_onlyD [OF os_only_copy])
    obtain l k where lk: "lk = (l, k)" by fastforce
    define d3 where "d3 = set_idev i (\<lambda>e. e\<lparr>id_cdev_list := set_items l (id_cdev_list e)\<rparr>) d2"
    have l3: "line_read i st dv d d3"
      unfolding d3_def using l2 assms(3) by (intro line_read_set) (simp_all add: line_read_def)
    have "us_vhci s' = Some d3"
      using assms(1,4) o1 Some r c cp lk by (auto simp: imported_device_init_def d2_def [symmetric] d3_def)
    then show ?thesis using l3 by blast
  qed
qed

text \<open>The C library never runs out of memory.\<close>

definition allocs :: "'w uapi \<Rightarrow> bool" where
  "allocs u \<longleftrightarrow> (\<forall>w. fst (u_calloc u w))"

lemma dlist_new_allocs: "allocs u \<Longrightarrow> run_state (dlist_new u) s = (l, s') \<Longrightarrow> l \<noteq> None"
  by (auto simp: allocs_def dlist_new_def split: prod.splits if_splits) (metis fst_conv)

lemma parse_line_reads:
  assumes "us_vhci s = Some d" and "length (uv_idev d) = MAXNPORT" and "i < MAXNPORT"
    and "scan_status_line c = Some (of_nat i, st, sp, dv, so, Some lb)" and "length lb < SYSFS_BUS_ID_SIZE"
    and "run_state (parse_status_line u c) s = (r, s')"
  shows "r \<in> {Some 0, Some (- 1)} \<and> (\<exists>d2. us_vhci s' = Some d2 \<and> line_read i st dv d d2) \<and>
    (allocs u \<and> st \<in> {vdev_st VDEV_ST_NULL, vdev_st VDEV_ST_NOTASSIGNED} \<longrightarrow> r = Some 0)"
proof -
  have i: "sint (of_nat i :: s32) = int i"
    using assms(3) by (subst sint_unat_small) (simp_all add: MAXNPORT_def unat_of_nat)
  have p: "(ucast (of_nat i :: s32) :: u8) = of_nat i"
    using assms(3) by (simp add: MAXNPORT_def unsigned_of_nat take_bit_nat_eq_self)
  obtain junk w1 where j: "u_junk u SYSFS_BUS_ID_SIZE (us_os s) = (junk, w1)" by (metis prod.exhaust)
  obtain l s2 where l: "run_state (dlist_new u) (s\<lparr>us_os := w1\<rparr>) = (l, s2)" by (metis prod.exhaust)
  have v: "us_vhci s2 = Some d"
    using l assms(1) by (auto simp: dlist_new_def split: prod.splits if_splits)
  define f where "f = (\<lambda>e :: usbip_imported_device. e\<lparr>id_port := of_nat i, id_status := st, id_devid := dv,
              id_busnum := ucast (drop_bit 16 dv), id_devnum := ucast (dv AND 0x0000ffff), id_cdev_list := l\<rparr>)"
  have lr: "line_read i st dv d (set_idev i f d)"
    using assms(2,3) by (simp add: line_read_def set_idev_def f_def)
  let ?s3 = "s2\<lparr>us_vhci := Some (set_idev i f d)\<rparr>"
  have run: "run_state (parse_status_line u c) s =
      run_state (if l = None then ret (Some (- 1))
            else if st \<noteq> vdev_st VDEV_ST_NULL \<and> st \<noteq> vdev_st VDEV_ST_NOTASSIGNED
            then do {
              ok \<leftarrow> imported_device_init u i lb;
              ret (Some (if ok then 0 else - 1))
            }
            else ret (Some 0)) ?s3"
    using assms(3,4,5) i j l v p by (simp add: parse_status_line_def f_def)
  obtain ok s4 where s4: "run_state (imported_device_init u i lb) ?s3 = (ok, s4)" by (metis prod.exhaust)
  have in4: "\<exists>d2. us_vhci s4 = Some d2 \<and> line_read i st dv d d2"
    by (rule imported_device_init_reads [OF _ lr _ s4]) (use assms(2,3) in simp_all)
  have "l \<noteq> None" if "allocs u" by (rule dlist_new_allocs [OF that l])
  then show ?thesis
    using run s4 in4 lr assms(6) by (auto split: if_splits)
qed

section \<open>The table\<close>

text \<open>A line ends with the only line end in it.\<close>

definition is_line :: "string \<Rightarrow> bool" where
  "is_line l \<longleftrightarrow> (\<exists>t. l = t @ [CHR 0x0A] \<and> list_all (\<lambda>c. c \<noteq> CHR 0x0A) t)"

lemma next_line_is_line: "is_line l \<Longrightarrow> next_line (l @ r) = Some r"
  by (auto simp: is_line_def next_line_append)

lemma is_line_nonempty: "is_line l \<Longrightarrow> l \<noteq> []"
  by (auto simp: is_line_def)

lemma line_rests_cons: "is_line l \<Longrightarrow> line_rests (l @ r) = (l @ r) # line_rests r"
  using is_line_nonempty [of l] by (simp add: line_rests.simps [of "l @ r"] next_line_is_line)

lemma count_lines_concat: "\<forall>l\<in>set ls. is_line l \<Longrightarrow> count_lines (concat ls) = int (length ls)"
proof (induction ls)
  case Nil
  then show ?case by (simp add: count_lines.simps)
next
  case (Cons l ls)
  then show ?case
    using is_line_nonempty [of l] by (simp add: count_lines.simps [of "l @ concat ls"] next_line_is_line)
qed

locale status_file =
  fixes inv :: "'c \<Rightarrow> bool"
    and text_of :: "'c \<Rightarrow> string"
    and ports :: "'c \<Rightarrow> (usbip_status \<times> u32) list"
  assumes few: "inv c \<Longrightarrow> length (ports c) \<le> MAXNPORT"
    and table: "inv c \<Longrightarrow> \<exists>hdr ls. text_of c = hdr @ CHR 0x0A # concat ls \<and>
      list_all (\<lambda>x. x \<noteq> CHR 0x0A) hdr \<and> length ls = length (ports c) \<and>
      (\<forall>i<length ls. is_line (ls ! i) \<and>
         (\<forall>rest. \<exists>sp so lb. length lb < SYSFS_BUS_ID_SIZE \<and>
            scan_status_line (ls ! i @ rest) =
              Some (of_nat i, vdev_st (fst (ports c ! i)), sp, snd (ports c ! i), so, Some lb)))"
begin

text \<open>The array of imported devices says what the ports are.\<close>

definition agrees :: "'c \<Rightarrow> usbip_vhci_driver \<Rightarrow> bool" where
  "agrees c d \<longleftrightarrow> length (uv_idev d) = MAXNPORT \<and>
     (\<forall>i<length (ports c). id_port (uv_idev d ! i) = of_nat i \<and>
        id_status (uv_idev d ! i) = vdev_st (fst (ports c ! i)) \<and> id_devid (uv_idev d ! i) = snd (ports c ! i))"

lemma nports_read:
  assumes "inv c"
  shows "\<exists>r. next_line (text_of c) = Some r \<and> count_lines r = int (length (ports c))"
proof -
  obtain hdr ls where t: "text_of c = hdr @ CHR 0x0A # concat ls" "list_all (\<lambda>x. x \<noteq> CHR 0x0A) hdr"
    "length ls = length (ports c)" "\<forall>i<length ls. is_line (ls ! i)"
    using table [OF assms] by blast
  then have "\<forall>l\<in>set ls. is_line l" by (auto simp: in_set_conv_nth)
  then show ?thesis using t by (simp add: next_line_append count_lines_concat)
qed

lemma parse_lines_reads:
  assumes "\<forall>i<length ls. is_line (ls ! i) \<and>
         (\<forall>rest. \<exists>sp so lb. length lb < SYSFS_BUS_ID_SIZE \<and>
            scan_status_line (ls ! i @ rest) =
              Some (of_nat (n + i), vdev_st (fst (ps ! i)), sp, snd (ps ! i), so, Some lb))"
    and "us_vhci s = Some d" and "length (uv_idev d) = MAXNPORT" and "n + length ls \<le> MAXNPORT"
    and "run_state (parse_lines u (line_rests (concat ls))) s = (r, s')"
  shows "r \<in> {Some 0, Some (- 1)} \<and> (\<exists>d2. us_vhci s' = Some d2 \<and> length (uv_idev d2) = MAXNPORT \<and>
     uv_nports d2 = uv_nports d \<and> uv_hc_device d2 = uv_hc_device d \<and>
     (\<forall>j<n. uv_idev d2 ! j = uv_idev d ! j) \<and>
     (r = Some 0 \<longrightarrow> (\<forall>i<length ls. id_port (uv_idev d2 ! (n + i)) = of_nat (n + i) \<and>
        id_status (uv_idev d2 ! (n + i)) = vdev_st (fst (ps ! i)) \<and> id_devid (uv_idev d2 ! (n + i)) = snd (ps ! i)))) \<and>
     (allocs u \<and> (\<forall>i<length ls. fst (ps ! i) \<in> {VDEV_ST_NULL, VDEV_ST_NOTASSIGNED}) \<longrightarrow> r = Some 0)"
  using assms
proof (induction ls arbitrary: n ps s d)
  case Nil
  then show ?case by (simp add: line_rests.simps)
next
  case (Cons l ls)
  have hd_line: "is_line l"
    "\<exists>sp so lb. length lb < SYSFS_BUS_ID_SIZE \<and> scan_status_line (l @ concat ls) =
       Some (of_nat n, vdev_st (fst (ps ! 0)), sp, snd (ps ! 0), so, Some lb)"
    using Cons.prems(1) [THEN spec, of 0] by simp_all
  then obtain sp so lb where lb: "length lb < SYSFS_BUS_ID_SIZE" "scan_status_line (l @ concat ls) =
       Some (of_nat n, vdev_st (fst (ps ! 0)), sp, snd (ps ! 0), so, Some lb)" by blast
  have n: "n < MAXNPORT" using Cons.prems(4) by simp
  obtain r1 s1 where s1: "run_state (parse_status_line u (l @ concat ls)) s = (r1, s1)" by (metis prod.exhaust)
  have one: "r1 \<in> {Some 0, Some (- 1)} \<and>
      (\<exists>d2. us_vhci s1 = Some d2 \<and> line_read n (vdev_st (fst (ps ! 0))) (snd (ps ! 0)) d d2) \<and>
      (allocs u \<and> vdev_st (fst (ps ! 0)) \<in> {vdev_st VDEV_ST_NULL, vdev_st VDEV_ST_NOTASSIGNED} \<longrightarrow> r1 = Some 0)"
    by (rule parse_line_reads [OF Cons.prems(2,3) n lb(2,1) s1])
  then obtain d1 where d1: "us_vhci s1 = Some d1" "line_read n (vdev_st (fst (ps ! 0))) (snd (ps ! 0)) d d1"
    by blast
  have len1: "length (uv_idev d1) = MAXNPORT" using d1(2) Cons.prems(3) by (simp add: line_read_def)
  show ?case
  proof (cases "r1 = Some 0")
    case False
    then have "r = Some (- 1) \<and> s' = s1"
      using Cons.prems(5) s1 one hd_line(1) by (auto simp: line_rests_cons)
    moreover have "\<not> (allocs u \<and> (\<forall>i<length (l # ls). fst (ps ! i) \<in> {VDEV_ST_NULL, VDEV_ST_NOTASSIGNED}))"
      using one False by auto
    ultimately show ?thesis using d1 len1 by (auto simp: line_read_def)
  next
    case True
    then have run: "run_state (parse_lines u (line_rests (concat ls))) s1 = (r, s')"
      using Cons.prems(5) s1 hd_line(1) by (simp add: line_rests_cons)
    define qs where "qs = map (\<lambda>i. ps ! Suc i) [0 ..< length ls]"
    have qs: "qs ! i = ps ! Suc i" if "i < length ls" for i using that by (simp add: qs_def)
    have q: "\<forall>i<length ls. is_line (ls ! i) \<and>
         (\<forall>rest. \<exists>sp so lb. length lb < SYSFS_BUS_ID_SIZE \<and>
            scan_status_line (ls ! i @ rest) =
              Some (of_nat (Suc n + i), vdev_st (fst (qs ! i)), sp, snd (qs ! i), so, Some lb))"
    proof (intro allI impI)
      fix i
      assume i: "i < length ls"
      show "is_line (ls ! i) \<and>
         (\<forall>rest. \<exists>sp so lb. length lb < SYSFS_BUS_ID_SIZE \<and>
            scan_status_line (ls ! i @ rest) =
              Some (of_nat (Suc n + i), vdev_st (fst (qs ! i)), sp, snd (qs ! i), so, Some lb))"
        using Cons.prems(1) [THEN spec, of "Suc i"] i qs [OF i]
        by (simp del: of_nat_add of_nat_Suc)
    qed
    have "Suc n + length ls \<le> MAXNPORT" using Cons.prems(4) by simp
    from Cons.IH [OF q d1(1) len1 this run] obtain d2 where r: "r \<in> {Some 0, Some (- 1)}"
      and d2: "us_vhci s' = Some d2" "length (uv_idev d2) = MAXNPORT" "uv_nports d2 = uv_nports d1"
        "uv_hc_device d2 = uv_hc_device d1" "\<forall>j<Suc n. uv_idev d2 ! j = uv_idev d1 ! j"
      and up: "allocs u \<and> (\<forall>i<length ls. fst (qs ! i) \<in> {VDEV_ST_NULL, VDEV_ST_NOTASSIGNED}) \<longrightarrow> r = Some 0"
      and all: "r = Some 0 \<longrightarrow> (\<forall>i<length ls. id_port (uv_idev d2 ! (Suc n + i)) = of_nat (Suc n + i) \<and>
        id_status (uv_idev d2 ! (Suc n + i)) = vdev_st (fst (qs ! i)) \<and> id_devid (uv_idev d2 ! (Suc n + i)) = snd (qs ! i))"
      by blast
    have "\<forall>i<length (l # ls). id_port (uv_idev d2 ! (n + i)) = of_nat (n + i) \<and>
        id_status (uv_idev d2 ! (n + i)) = vdev_st (fst (ps ! i)) \<and> id_devid (uv_idev d2 ! (n + i)) = snd (ps ! i)"
      if "r = Some 0"
    proof (intro allI impI)
      fix i
      assume i: "i < length (l # ls)"
      show "id_port (uv_idev d2 ! (n + i)) = of_nat (n + i) \<and>
        id_status (uv_idev d2 ! (n + i)) = vdev_st (fst (ps ! i)) \<and> id_devid (uv_idev d2 ! (n + i)) = snd (ps ! i)"
      proof (cases i)
        case 0
        then show ?thesis using d2(5) d1(2) by (simp add: line_read_def)
      next
        case (Suc k)
        then show ?thesis using all that i qs by simp
      qed
    qed
    moreover have "\<forall>j<n. uv_idev d2 ! j = uv_idev d ! j" using d2(5) d1(2) by (simp add: line_read_def)
    moreover have "uv_nports d2 = uv_nports d" "uv_hc_device d2 = uv_hc_device d"
      using d2(3,4) d1(2) by (simp_all add: line_read_def)
    moreover have "allocs u \<and> (\<forall>i<length (l # ls). fst (ps ! i) \<in> {VDEV_ST_NULL, VDEV_ST_NOTASSIGNED}) \<longrightarrow> r = Some 0"
      using up qs by auto
    ultimately show ?thesis using r d2(1,2) by blast
  qed
qed

lemma parse_status_reads:
  assumes "inv c" and "us_vhci s = Some d" and "uv_nports d \<le> int (length (ports c))"
    and "length (uv_idev d) = MAXNPORT" and "run_state (parse_status u (text_of c)) s = (r, s')"
  shows "r \<in> {Some 0, Some (- 1)} \<and> (\<exists>d2. us_vhci s' = Some d2 \<and> uv_hc_device d2 = uv_hc_device d \<and>
    uv_nports d2 = uv_nports d \<and> (r = Some 0 \<longrightarrow> agrees c d2)) \<and>
    (allocs u \<and> (\<forall>p\<in>set (ports c). fst p \<in> {VDEV_ST_NULL, VDEV_ST_NOTASSIGNED}) \<longrightarrow> r = Some 0)"
proof -
  obtain hdr ls where t: "text_of c = hdr @ CHR 0x0A # concat ls" "list_all (\<lambda>x. x \<noteq> CHR 0x0A) hdr"
    "length ls = length (ports c)" and
    l: "\<forall>i<length ls. is_line (ls ! i) \<and>
         (\<forall>rest. \<exists>sp so lb. length lb < SYSFS_BUS_ID_SIZE \<and>
            scan_status_line (ls ! i @ rest) =
              Some (of_nat (0 + i), vdev_st (fst (ports c ! i)), sp, snd (ports c ! i), so, Some lb))"
    using table [OF assms(1)] by auto
  let ?d = "d\<lparr>uv_idev := replicate (nat (uv_nports d)) zero_idev @ drop (nat (uv_nports d)) (uv_idev d)\<rparr>"
  have m: "length (ports c) \<le> MAXNPORT" by (rule few [OF assms(1)])
  have run: "run_state (parse_lines u (line_rests (concat ls))) (s\<lparr>us_vhci := Some ?d\<rparr>) = (r, s')"
    using assms(2,3,5) t m by (simp add: parse_status_def next_line_append)
  have len: "length (uv_idev ?d) = MAXNPORT" using assms(3,4) m by simp
  have z: "0 + length ls \<le> MAXNPORT" using m t(3) by simp
  have v: "us_vhci (s\<lparr>us_vhci := Some ?d\<rparr>) = Some ?d" by simp
  from parse_lines_reads [OF l v len z run] obtain d2 where "r \<in> {Some 0, Some (- 1)}" "us_vhci s' = Some d2"
    "length (uv_idev d2) = MAXNPORT" "uv_nports d2 = uv_nports d" "uv_hc_device d2 = uv_hc_device d"
    "r = Some 0 \<longrightarrow> (\<forall>i<length ls. id_port (uv_idev d2 ! i) = of_nat i \<and>
        id_status (uv_idev d2 ! i) = vdev_st (fst (ports c ! i)) \<and> id_devid (uv_idev d2 ! i) = snd (ports c ! i))"
    "allocs u \<and> (\<forall>i<length ls. fst (ports c ! i) \<in> {VDEV_ST_NULL, VDEV_ST_NOTASSIGNED}) \<longrightarrow> r = Some 0"
    by auto
  then show ?thesis using t(3) by (auto simp: agrees_def)
qed

end

section \<open>The kernel's table\<close>

definition word_ok :: "string \<Rightarrow> bool" where
  "word_ok s \<longleftrightarrow> s \<noteq> [] \<and> length s < SYSFS_BUS_ID_SIZE \<and> list_all (\<lambda>c. \<not> is_space c) s"

definition hex_ok :: "string \<Rightarrow> bool" where
  "hex_ok s \<longleftrightarrow> s \<noteq> [] \<and> list_all is_xdigit s"

text \<open>A port in use has a device with a short name; \<open>%p\<close> prints hexadecimal digits.\<close>

definition status_ok :: "(sock option \<Rightarrow> string) \<Rightarrow> 'w hapi \<Rightarrow> vhci_hcd \<Rightarrow> bool" where
  "status_ok ptr hk c \<longleftrightarrow>
     (\<forall>d\<in>set (take VHCI_NPORTS (vdevs c)). ud_status d = VDEV_ST_USED \<longrightarrow>
        (\<exists>a. vd_udev d = Some a \<and> word_ok (dev_name hk a)) \<and> hex_ok (ptr (tcp_socket d)))"

text \<open>What the table tells of a port: the device number only while the port is in use.\<close>

definition port_view :: "vhci_device \<Rightarrow> usbip_status \<times> u32" where
  "port_view d = (ud_status d, if ud_status d = VDEV_ST_USED then vd_devid d else 0)"

definition port_views :: "vhci_hcd \<Rightarrow> (usbip_status \<times> u32) list" where
  "port_views c = map port_view (take VHCI_NPORTS (vdevs c))"

lemma space_no_digit: "\<not> is_digit (CHR '' '')" "is_space (CHR '' '')" "is_space (CHR 0x0A)" "\<not> is_space (CHR ''0'')"
  by (simp_all add: is_digit_def is_space_def)

lemma scan_line:
  assumes "hex_ok x" and "hex_ok y" and "lb \<noteq> []" and "list_all (\<lambda>c. \<not> is_space c) lb"
    and "is_space (hd r)" and "r \<noteq> []" and "i < 2 ^ 63" and "st < 2 ^ 63" and "sp < 2 ^ 63"
  shows "scan_status_line (fmt_u 3 i @ '' '' @ fmt_u 3 st @ '' '' @ fmt_u 3 sp @ '' '' @ x @ '' '' @ y @ '' '' @ lb @ r) =
    Some (of_nat i, of_nat st, of_nat sp, ucast (word_of_int (sat_ulong (xdigits_val x)) :: u64),
      word_of_int (sat_ulong (xdigits_val y)), Some lb)"
proof -
  let ?r5 = "'' '' @ lb @ r" let ?r4 = "'' '' @ y @ ?r5" let ?r3 = "'' '' @ x @ ?r4"
  let ?r2 = "'' '' @ fmt_u 3 sp @ ?r3" let ?r1 = "'' '' @ fmt_u 3 st @ ?r2"
  have sp1: "list_all is_space '' ''" "list_all is_space []" by (simp_all add: space_no_digit)
  have d: "c_scan_d (fmt_u 3 i @ ?r1) = Some (of_nat i, ?r1)"
    using c_scan_d_fmt_u [of ?r1 "[]" i 3] assms(7) sp1 by (simp add: space_no_digit)
  have d1: "c_scan_d ?r1 = Some (of_nat st, ?r2)"
    by (rule c_scan_d_fmt_u [OF _ sp1(1) assms(8)]) (simp add: space_no_digit)
  have d2: "c_scan_d ?r2 = Some (of_nat sp, ?r3)"
    by (rule c_scan_d_fmt_u [OF _ sp1(1) assms(9)]) (simp add: space_no_digit)
  have d3: "c_scan_x (length ?r3) ?r3 = Some (word_of_int (sat_ulong (xdigits_val x)), ?r4)"
    by (rule c_scan_x_digits) (use assms(1) in \<open>simp_all add: hex_ok_def space_no_digit\<close>)
  have d4: "c_scan_x (length ?r4) ?r4 = Some (word_of_int (sat_ulong (xdigits_val y)), ?r5)"
    by (rule c_scan_x_digits) (use assms(2) in \<open>simp_all add: hex_ok_def space_no_digit\<close>)
  have d5: "c_scan_s ?r5 = Some (lb, r)"
    by (rule c_scan_s_word [OF assms(4,3) _ sp1(1)]) (use assms(5) in simp)
  show ?thesis
    unfolding scan_status_line_def d Option.bind.bind_lunit prod.case d1 d2 d3 d4 d5 by simp
qed

lemma fmt_no_nl: "list_all (\<lambda>c. c \<noteq> CHR 0x0A) (fmt_u w n)" "list_all (\<lambda>c. c \<noteq> CHR 0x0A) (fmt_x w n)"
  using fmt_u_digits(1) [of w n] fmt_x_digits(1) [of w n]
  by (auto simp: list_all_iff is_digit_def is_xdigit_def)

lemma unat_less32: "unat (x :: u32) < 2 ^ 32"
  using unsigned_less [of x] by simp

lemma words_no_nl:
  "hex_ok s \<Longrightarrow> list_all (\<lambda>c. c \<noteq> CHR 0x0A) s" "word_ok s \<Longrightarrow> list_all (\<lambda>c. c \<noteq> CHR 0x0A) s"
proof -
  assume "hex_ok s"
  then have "list_all is_xdigit s" by (simp add: hex_ok_def)
  then show "list_all (\<lambda>c. c \<noteq> CHR 0x0A) s"
    by (rule list.pred_mono_strong) (use xdigit_no_space space_no_digit(3) in blast)
next
  assume "word_ok s"
  then have "list_all (\<lambda>c. \<not> is_space c) s" by (simp add: word_ok_def)
  then show "list_all (\<lambda>c. c \<noteq> CHR 0x0A) s"
    by (rule list.pred_mono_strong) (use space_no_digit(3) in blast)
qed

lemma ucast_sat: "n < 2 ^ 32 \<Longrightarrow> ucast (word_of_int (sat_ulong (int n)) :: u64) = (of_nat n :: u32)"
proof -
  assume "n < 2 ^ 32"
  then have "(word_of_int (sat_ulong (int n)) :: u64) = of_nat n" by (simp add: sat_ulong_def)
  moreover have "(ucast (of_nat n :: u64) :: u32) = of_nat n"
    using \<open>n < 2 ^ 32\<close> by (simp add: unsigned_of_nat take_bit_nat_eq_self)
  ultimately show ?thesis by simp
qed

lemma status_small: "status_num st < 8"
  by (cases st) simp_all

lemma fmt_zero: "fmt_u 3 0 = ''000''"
  by code_simp

lemma unused_line:
  assumes "ud_status d \<noteq> VDEV_ST_USED" and "i < VHCI_NPORTS"
  shows "\<exists>l. status_line ptr name i d = Some l \<and> is_line l \<and>
     (\<forall>rest. \<exists>sp so lb. length lb < SYSFS_BUS_ID_SIZE \<and>
        scan_status_line (l @ rest) = Some (of_nat i, vdev_st (ud_status d), sp, 0, so, Some lb))"
proof -
  let ?t = "fmt_u 3 i @ '' '' @ fmt_u 3 (status_num (ud_status d)) @ '' '' @ ''000 000 000 0000000000000000 0-0''"
  have l: "status_line ptr name i d = Some (?t @ [CHR 0x0A])"
    using assms(1) by (simp add: status_line_def)
  have nl: "is_line (?t @ [CHR 0x0A])"
    unfolding is_line_def by (intro exI [of _ ?t] conjI refl) (simp add: fmt_no_nl)
  have "scan_status_line ((?t @ [CHR 0x0A]) @ rest) =
      Some (of_nat i, vdev_st (ud_status d), 0, 0, 0, Some ''0000000000000000'')" for rest
  proof -
    have e: "(?t @ [CHR 0x0A]) @ rest = fmt_u 3 i @ '' '' @ fmt_u 3 (status_num (ud_status d)) @ '' '' @
        fmt_u 3 0 @ '' '' @ ''000'' @ '' '' @ ''000'' @ '' '' @ ''0000000000000000'' @ ('' 0-0'' @ CHR 0x0A # rest)"
      by (simp add: fmt_zero)
    have z: "xdigits_val ''000'' = 0" by (simp add: xdigits_val_def xdigit_val_def is_digit_def)
    show ?thesis
      unfolding e
      by (subst scan_line)
        (use assms(2) status_small [of "ud_status d"] in
          \<open>simp_all add: hex_ok_def is_xdigit_def is_digit_def space_no_digit z vdev_st_def VHCI_NPORTS_def sat_ulong_def\<close>)
  qed
  then show ?thesis using l nl by (intro exI [of _ "?t @ [CHR 0x0A]"]) (auto simp: SYSFS_BUS_ID_SIZE_def)
qed

lemma used_line:
  assumes "ud_status d = VDEV_ST_USED" and "i < VHCI_NPORTS" and "vd_udev d = Some a"
    and "word_ok (name a)" and "hex_ok (ptr (tcp_socket d))"
  shows "\<exists>l. status_line ptr name i d = Some l \<and> is_line l \<and>
     (\<forall>rest. \<exists>sp so lb. length lb < SYSFS_BUS_ID_SIZE \<and>
        scan_status_line (l @ rest) = Some (of_nat i, vdev_st (ud_status d), sp, vd_devid d, so, Some lb))"
proof -
  let ?t = "fmt_u 3 i @ '' '' @ fmt_u 3 (status_num (ud_status d)) @ '' '' @ fmt_u 3 (unat (vd_speed d)) @ '' '' @
    fmt_x 8 (unat (vd_devid d)) @ '' '' @ ptr (tcp_socket d) @ '' '' @ name a"
  have l: "status_line ptr name i d = Some (?t @ [CHR 0x0A])"
    using assms(1,3) by (simp add: status_line_def)
  have p: "list_all (\<lambda>c. c \<noteq> CHR 0x0A) (ptr (tcp_socket d))" "list_all (\<lambda>c. c \<noteq> CHR 0x0A) (name a)"
    using words_no_nl(1) [OF assms(5)] words_no_nl(2) [OF assms(4)] .
  have nl: "is_line (?t @ [CHR 0x0A])"
    unfolding is_line_def by (intro exI [of _ ?t] conjI refl) (simp add: fmt_no_nl p)
  have x: "hex_ok (fmt_x 8 n)" for n by (simp add: hex_ok_def fmt_x_digits)
  have lt: "unat (vd_speed d) < 2 ^ 32" "unat (vd_devid d) < 2 ^ 32"
    by (rule unat_less32)+
  have dv: "(ucast (word_of_int (sat_ulong (int (unat (vd_devid d)))) :: u64) :: u32) = vd_devid d"
    using ucast_sat [OF lt(2)] by simp
  have "scan_status_line ((?t @ [CHR 0x0A]) @ rest) =
      Some (of_nat i, vdev_st (ud_status d), of_nat (unat (vd_speed d)), vd_devid d,
        word_of_int (sat_ulong (xdigits_val (ptr (tcp_socket d)))), Some (name a))" for rest
  proof -
    have e: "(?t @ [CHR 0x0A]) @ rest = fmt_u 3 i @ '' '' @ fmt_u 3 (status_num (ud_status d)) @ '' '' @
        fmt_u 3 (unat (vd_speed d)) @ '' '' @ fmt_x 8 (unat (vd_devid d)) @ '' '' @ ptr (tcp_socket d) @ '' '' @
        name a @ (CHR 0x0A # rest)"
      by simp
    have w: "name a \<noteq> []" "list_all (\<lambda>c. \<not> is_space c) (name a)" using assms(4) by (simp_all add: word_ok_def)
    have s: "is_space (hd (CHR 0x0A # rest))" "CHR 0x0A # rest \<noteq> []" by (simp_all add: space_no_digit)
    have b: "i < 2 ^ 63" "status_num (ud_status d) < 2 ^ 63" "unat (vd_speed d) < 2 ^ 63"
      using assms(2) status_small [of "ud_status d"] lt(1) by (simp_all add: VHCI_NPORTS_def)
    show ?thesis
      unfolding e scan_line [OF x assms(5) w s b] fmt_x_digits(2) dv vdev_st_def by (rule refl)
  qed
  then show ?thesis using l nl assms(4) by (intro exI [of _ "?t @ [CHR 0x0A]"]) (auto simp: word_ok_def)
qed

lemma status_lines_concat:
  assumes "\<forall>j<length ds. status_line ptr name (i + j) (ds ! j) = Some (f (i + j))"
  shows "status_lines ptr name i ds = Some (concat (map f [i ..< i + length ds]))"
  using assms
proof (induction ds arbitrary: i)
  case Nil
  then show ?case by simp
next
  case (Cons d ds)
  have "status_line ptr name i d = Some (f i)" using Cons.prems [THEN spec, of 0] by simp
  moreover have "\<forall>j<length ds. status_line ptr name (Suc i + j) (ds ! j) = Some (f (Suc i + j))"
    using Cons.prems by auto
  moreover have "[i ..< i + length (d # ds)] = i # [Suc i ..< Suc i + length ds]"
    by (simp add: upt_conv_Cons del: upt_Suc)
  ultimately show ?case using Cons.IH [of "Suc i"] by (simp del: upt_Suc)
qed

interpretation vhci_status: status_file "status_ok ptr hk" "\<lambda>c. the (show_status ptr hk c)" port_views
  for ptr :: "sock option \<Rightarrow> string" and hk :: "'w hapi"
proof
  fix c
  show "length (port_views c) \<le> MAXNPORT" by (simp add: port_views_def VHCI_NPORTS_def MAXNPORT_def)
  assume ok: "status_ok ptr hk c"
  let ?ds = "take VHCI_NPORTS (vdevs c)"
  define P where "P = (\<lambda>i l. status_line ptr (dev_name hk) i (?ds ! i) = Some l \<and> is_line l \<and>
     (\<forall>rest. \<exists>sp so lb. length lb < SYSFS_BUS_ID_SIZE \<and>
        scan_status_line (l @ rest) = Some (of_nat i, vdev_st (fst (port_view (?ds ! i))), sp,
          snd (port_view (?ds ! i)), so, Some lb)))"
  have "\<exists>l. P i l" if "i \<in> {..< length ?ds}" for i
  proof -
    have i: "i < VHCI_NPORTS" using that by simp
    have v: "fst (port_view (?ds ! i)) = ud_status (?ds ! i)" by (simp add: port_view_def)
    show ?thesis
    proof (cases "ud_status (?ds ! i) = VDEV_ST_USED")
      case True
      have "?ds ! i \<in> set ?ds" using that by (simp del: nth_take)
      then obtain a where a: "vd_udev (?ds ! i) = Some a" "word_ok (dev_name hk a)" "hex_ok (ptr (tcp_socket (?ds ! i)))"
        using ok True unfolding status_ok_def by blast
      have "snd (port_view (?ds ! i)) = vd_devid (?ds ! i)" using True by (simp add: port_view_def)
      then show ?thesis
        unfolding P_def v using used_line [OF True i a(1), where name = "dev_name hk" and ptr = ptr, OF a(2,3)]
        by (simp only:)
    next
      case False
      then have "snd (port_view (?ds ! i)) = 0" by (simp add: port_view_def)
      then show ?thesis
        unfolding P_def v using unused_line [OF False i, where name = "dev_name hk" and ptr = ptr]
        by (simp only:)
    qed
  qed
  then have "\<forall>i\<in>{..< length ?ds}. \<exists>l. P i l" by blast
  from bchoice [OF this] obtain f where fP: "\<forall>i\<in>{..< length ?ds}. P i (f i)" by blast
  have f: "status_line ptr (dev_name hk) i (?ds ! i) = Some (f i)" "is_line (f i)"
     "\<forall>rest. \<exists>sp so lb. length lb < SYSFS_BUS_ID_SIZE \<and>
        scan_status_line (f i @ rest) = Some (of_nat i, vdev_st (fst (port_view (?ds ! i))), sp,
          snd (port_view (?ds ! i)), so, Some lb)" if "i < length ?ds" for i
    using fP that unfolding P_def by blast+
  let ?ls = "map f [0 ..< length ?ds]"
  let ?hdr = "''prt sta spd bus dev socket           local_busid''"
  have "status_lines ptr (dev_name hk) 0 ?ds = Some (concat ?ls)"
    using status_lines_concat [of ?ds ptr "dev_name hk" 0 f] f(1) by (simp del: nth_take)
  then have "the (show_status ptr hk c) = ?hdr @ CHR 0x0A # concat ?ls"
    by (simp add: show_status_def)
  moreover have "length ?ls = length (port_views c)" by (simp add: port_views_def)
  moreover have "list_all (\<lambda>x. x \<noteq> CHR 0x0A) ?hdr" by simp
  moreover have "\<forall>i<length ?ls. is_line (?ls ! i) \<and>
         (\<forall>rest. \<exists>sp so lb. length lb < SYSFS_BUS_ID_SIZE \<and>
            scan_status_line (?ls ! i @ rest) =
              Some (of_nat i, vdev_st (fst (port_views c ! i)), sp, snd (port_views c ! i), so, Some lb))"
  proof (intro allI impI)
    fix i
    assume "i < length ?ls"
    then have i: "i < length ?ds" by simp
    then have "?ls ! i = f i" "port_views c ! i = port_view (?ds ! i)" by (simp_all add: port_views_def)
    then show "is_line (?ls ! i) \<and>
         (\<forall>rest. \<exists>sp so lb. length lb < SYSFS_BUS_ID_SIZE \<and>
            scan_status_line (?ls ! i @ rest) =
              Some (of_nat i, vdev_st (fst (port_views c ! i)), sp, snd (port_views c ! i), so, Some lb))"
      using f(2,3) [OF i] by (simp only: simp_thms)
  qed
  ultimately show "\<exists>hdr ls. the (show_status ptr hk c) = hdr @ CHR 0x0A # concat ls \<and>
      list_all (\<lambda>x. x \<noteq> CHR 0x0A) hdr \<and> length ls = length (port_views c) \<and>
      (\<forall>i<length ls. is_line (ls ! i) \<and>
         (\<forall>rest. \<exists>sp so lb. length lb < SYSFS_BUS_ID_SIZE \<and>
            scan_status_line (ls ! i @ rest) =
              Some (of_nat i, vdev_st (fst (port_views c ! i)), sp, snd (port_views c ! i), so, Some lb)))"
    by blast
qed

section \<open>The lines of the file\<close>

text \<open>A text taken apart at its line ends.\<close>

fun lines_of :: "string \<Rightarrow> string list" where
  "lines_of [] = []"
| "lines_of (c # s) =
     (if c = CHR 0x0A then [] # lines_of s
      else (case lines_of s of [] \<Rightarrow> [[c]] | l # ls \<Rightarrow> (c # l) # ls))"

lemma lines_of_line: "list_all (\<lambda>c. c \<noteq> CHR 0x0A) t \<Longrightarrow> lines_of (t @ CHR 0x0A # r) = t # lines_of r"
  by (induction t) auto

lemma lines_of_concat:
  "\<forall>t\<in>set ts. list_all (\<lambda>c. c \<noteq> CHR 0x0A) t \<Longrightarrow> lines_of (concat (map (\<lambda>t. t @ [CHR 0x0A]) ts)) = ts"
  by (induction ts) (simp_all add: lines_of_line)

lemma status_line_shape:
  assumes "ud_status d = VDEV_ST_USED \<longrightarrow> vd_udev d \<noteq> None"
    and "\<forall>a. list_all (\<lambda>c. c \<noteq> CHR 0x0A) (name a)" and "\<forall>s. list_all (\<lambda>c. c \<noteq> CHR 0x0A) (ptr s)"
  shows "\<exists>t. status_line ptr name i d = Some (t @ [CHR 0x0A]) \<and> list_all (\<lambda>c. c \<noteq> CHR 0x0A) t \<and>
    scan_us 2 t = [of_nat i, of_nat (status_num (ud_status d))]"
proof -
  have sc: "scan_us 2 (fmt_u 3 a @ '' '' @ fmt_u 3 b @ '' '' @ rest) = [of_nat a, of_nat b]" for a b rest
    using scan_u_fmt_u [of "'' '' @ fmt_u 3 b @ '' '' @ rest" "[]" 3 a] scan_u_fmt_u [of "'' '' @ rest" "'' ''" 3 b]
    by (simp add: is_digit_def is_space_def numeral_2_eq_2)
  show ?thesis
  proof (cases "ud_status d = VDEV_ST_USED")
    case True
    with assms(1) obtain u where "vd_udev d = Some u" by auto
    with True have l: "status_line ptr name i d = Some ((fmt_u 3 i @ '' '' @ fmt_u 3 (status_num (ud_status d)) @ '' '' @
        fmt_u 3 (unat (vd_speed d)) @ '' '' @ fmt_x 8 (unat (vd_devid d)) @ '' '' @ ptr (tcp_socket d) @ '' '' @ name u) @ [CHR 0x0A])"
      by (simp add: status_line_def)
    show ?thesis
      by (intro exI conjI, rule l, use assms(2,3) in \<open>simp add: fmt_no_nl\<close>, rule sc)
  next
    case False
    then have l: "status_line ptr name i d = Some ((fmt_u 3 i @ '' '' @ fmt_u 3 (status_num (ud_status d)) @ '' '' @
        ''000 000 000 0000000000000000 0-0'') @ [CHR 0x0A])"
      by (simp add: status_line_def)
    show ?thesis by (intro exI conjI, rule l, simp add: fmt_no_nl, rule sc)
  qed
qed

text \<open>C40. The status file, in every reachable state. It can be read without following a null pointer, and
  taken apart at its line ends it is the header and then one line for each port, in order, that starts
  with the number and the status of that port, which read back as they were printed. (Names of devices
  and what \<open>%p\<close> prints have no line ends.)\<close>

theorem show_status_reads_back:
  assumes "vhci_reach h k hk as c w" and "\<forall>a. list_all (\<lambda>x. x \<noteq> CHR 0x0A) (dev_name hk a)"
    and "\<forall>s. list_all (\<lambda>x. x \<noteq> CHR 0x0A) (ptr s)"
  shows "\<exists>text. show_status ptr hk c = Some text \<and>
    (case lines_of text of
       [] \<Rightarrow> False
     | hdr # ls \<Rightarrow> hdr = ''prt sta spd bus dev socket           local_busid'' \<and>
         map (scan_us 2) ls = map (\<lambda>i. [of_nat i, of_nat (status_num (ud_status (vdevs c ! i)))]) [0 ..< VHCI_NPORTS])"
proof -
  let ?hdr = "''prt sta spd bus dev socket           local_busid''"
  have I: "vhci_inv c" using vhci_reach_inv [OF assms(1)] by simp
  then have len: "length (vdevs c) = VHCI_NPORTS" by (simp add: vhci_inv_def)
  have ok: "ud_status (vdevs c ! i) = VDEV_ST_USED \<longrightarrow> vd_udev (vdevs c ! i) \<noteq> None" if "i < VHCI_NPORTS" for i
    using that I by (auto simp: vhci_inv_def vdev_ok_def)
  have "\<forall>i\<in>{..<VHCI_NPORTS}. \<exists>t. status_line ptr (dev_name hk) i (vdevs c ! i) = Some (t @ [CHR 0x0A]) \<and>
      list_all (\<lambda>x. x \<noteq> CHR 0x0A) t \<and> scan_us 2 t = [of_nat i, of_nat (status_num (ud_status (vdevs c ! i)))]"
    using status_line_shape [OF ok assms(2,3)] by blast
  from bchoice [OF this] obtain f where f: "\<forall>i\<in>{..<VHCI_NPORTS}.
      status_line ptr (dev_name hk) i (vdevs c ! i) = Some (f i @ [CHR 0x0A]) \<and>
      list_all (\<lambda>x. x \<noteq> CHR 0x0A) (f i) \<and> scan_us 2 (f i) = [of_nat i, of_nat (status_num (ud_status (vdevs c ! i)))]"
    by blast
  let ?ts = "map f [0 ..< VHCI_NPORTS]"
  have "status_lines ptr (dev_name hk) 0 (vdevs c) = Some (concat (map (\<lambda>t. t @ [CHR 0x0A]) ?ts))"
    using status_lines_concat [of "vdevs c" ptr "dev_name hk" 0 "\<lambda>i. f i @ [CHR 0x0A]"] f len by (simp add: comp_def)
  then have s: "show_status ptr hk c = Some (?hdr @ CHR 0x0A # concat (map (\<lambda>t. t @ [CHR 0x0A]) ?ts))"
    using len by (simp add: show_status_def)
  have h: "list_all (\<lambda>c. c \<noteq> CHR 0x0A) ?hdr" by simp
  have "lines_of (concat (map (\<lambda>t. t @ [CHR 0x0A]) ?ts)) = ?ts" by (rule lines_of_concat) (use f in auto)
  then have "lines_of (?hdr @ CHR 0x0A # concat (map (\<lambda>t. t @ [CHR 0x0A]) ?ts)) = ?hdr # ?ts"
    by (simp only: lines_of_line [OF h])
  moreover have "map (scan_us 2) ?ts = map (\<lambda>i. [of_nat i, of_nat (status_num (ud_status (vdevs c ! i)))]) [0 ..< VHCI_NPORTS]"
    using f by simp
  ultimately show ?thesis
    by (intro exI [of _ "?hdr @ CHR 0x0A # concat (map (\<lambda>t. t @ [CHR 0x0A]) ?ts)"] conjI s) (simp only: list.case simp_thms)
qed

theorem show_status_reads_back_witness:
  "\<exists>text. show_status (\<lambda>_. ''-'') (sim_hc :: sim hapi) enum_demo = Some text \<and>
   map (scan_us 2) (tl (lines_of text)) = [[0, 5], [1, 4], [2, 4], [3, 4], [4, 4], [5, 4], [6, 4], [7, 4]]"
proof -
  have st: "map (\<lambda>i. [of_nat i, of_nat (status_num (ud_status (vdevs enum_demo ! i)))] :: u32 list) [0 ..< VHCI_NPORTS] =
      [[0, 5], [1, 4], [2, 4], [3, 4], [4, 4], [5, 4], [6, 4], [7, 4]]"
    by (simp add: enum_demo_def vdev_att_def vdev_demo_def VHCI_NPORTS_def upt_conv_Cons)
  have n: "\<forall>a. list_all (\<lambda>x. x \<noteq> CHR 0x0A) (dev_name (sim_hc :: sim hapi) a)"
    "\<forall>s. list_all (\<lambda>x. x \<noteq> CHR 0x0A) ((\<lambda>_ :: sock option. ''-'') s)"
    by (simp_all add: sim_hc_def)
  from show_status_reads_back [OF enum_demo_reach [of Little] n] show ?thesis
    unfolding st by (elim exE conjE) (rule exI, rule conjI, assumption, simp split: list.splits)
qed

end
