(* ===== verification/USim.thy ===== *)
theory USim
  imports UImport UStatus StubHandler
begin

text \<open>
  A concrete world in which the user-space programs can be run against the model of the kernel: a
  connection, the state of the virtual host controller, and the table of bus ids behind the
  attribute files. Witnesses use it; no general lemma depends on it.
\<close>

record usim =
  si_in :: "byte list"
  si_out :: "byte list"
  si_vhci :: vhci_hcd
  si_busids :: "bus_id_priv list"

definition sim_ptr :: "sock option \<Rightarrow> string" where
  "sim_ptr s = (case s of None \<Rightarrow> ''0'' | Some n \<Rightarrow> fmt_x 16 n)"

definition usim_recv :: "int \<Rightarrow> int \<Rightarrow> usim \<Rightarrow> (int \<times> byte list) \<times> usim" where
  "usim_recv fd n w =
     (if 0 < n \<and> si_in w \<noteq> []
      then ((int (length (take (nat n) (si_in w))), take (nat n) (si_in w)), w\<lparr>si_in := drop (nat n) (si_in w)\<rparr>)
      else ((0, []), w))"

definition usim_dev :: "string \<Rightarrow> sysfs_device" where
  "usim_dev b = \<lparr>sd_name = b, sd_path = ''/sys/'' @ b, sd_bus_id = b, sd_driver_name = ''usbip-host''\<rparr>"

text \<open>The device of a directory is named by the last component of its path.\<close>

definition path_name :: "string \<Rightarrow> string" where
  "path_name p = rev (takeWhile (\<lambda>c. c \<noteq> CHR ''/'') (rev p))"

definition usim_attr :: "string \<Rightarrow> string \<Rightarrow> sysfs_attribute" where
  "usim_attr p v = \<lparr>at_path = p, at_value = v, at_len = int (length v)\<rparr>"

definition usim_value :: "usim \<Rightarrow> string \<Rightarrow> string" where
  "usim_value w name =
     (if name = ''status'' then the (VhciSysfs.show_status sim_ptr (sim_hc :: sim hapi) (si_vhci w)) else ''1'')"

definition usim_write :: "sysfs_attribute \<Rightarrow> string \<Rightarrow> usim \<Rightarrow> int \<times> usim" where
  "usim_write a buf w =
     (if at_path a = ''/sys/vhci_hcd/attach''
      then (case store_attach sim_k sim_hc buf (int (length buf)) (si_vhci w) sim0 of (r, c, _) \<Rightarrow>
              (if r < 0 then - 1 else 0, w\<lparr>si_vhci := c\<rparr>))
      else if at_path a = ''/sys/bus/usb/drivers/usbip-host/match_busid''
      then (case store_match_busid buf (int (length buf)) (si_busids w) of (r, tb) \<Rightarrow>
              (if r < 0 then - 1 else 0, w\<lparr>si_busids := tb\<rparr>))
      else (0, w))"

definition sim_u :: "usim uapi" where
  "sim_u = \<lparr>u_send = (\<lambda>fd b w. (int (length b), w\<lparr>si_out := si_out w @ b\<rparr>)),
     u_recv = usim_recv, u_setsockopt = (\<lambda>fd x w. (0, w)),
     u_getaddrinfo = (\<lambda>h s w. ((0, [0]), w)), u_socket = (\<lambda>a w. (3, w)), u_connect = (\<lambda>fd a w. (0, w)),
     u_bind = (\<lambda>fd a w. (0, w)), u_listen = (\<lambda>fd w. (0, w)), u_accept = (\<lambda>fd w. (4, w)),
     u_close = (\<lambda>fd w. ((), w)), u_ppoll = (\<lambda>fds w. (Poll_error, w)), u_daemon = (\<lambda>w. (0, w)),
     u_fork = (\<lambda>w. (Fork_parent, w)), u_calloc = (\<lambda>w. (True, w)), u_junk = (\<lambda>n w. (replicate n (CHR ''x''), w)),
     u_junk32 = (\<lambda>w. (0, w)), u_mnt_path = (\<lambda>w. (Some ''/sys'', w)),
     u_open_device = (\<lambda>b i w. (Some (usim_dev i), w)), u_open_device_path = (\<lambda>p w. (Some (usim_dev (path_name p)), w)),
     u_close_device = (\<lambda>d w. ((), w)), u_device_parent = (\<lambda>d w. (Some (usim_dev (take 3 (sd_bus_id d))), w)),
     u_device_attr = (\<lambda>d n w. (Some (usim_attr (sd_path d @ ''/'' @ n) (usim_value w n)), w)),
     u_open_attr = (\<lambda>p w. (Some (usim_attr p ''''), w)),
     u_read_attr = (\<lambda>a w. ((0, usim_attr (at_path a) (if path_name (at_path a) = ''speed'' then ''480'' else ''1'')), w)), u_write_attr = usim_write,
     u_close_attr = (\<lambda>a w. ((), w)), u_open_driver = (\<lambda>b d w. (Some 1, w)),
     u_open_driver_path = (\<lambda>p w. (Some (if p = ''/sys/bus/platform/drivers/vhci_hcd'' then 0 else 1), w)),
     u_close_driver = (\<lambda>d w. ((), w)),
     u_driver_devices = (\<lambda>d w. (Some [usim_dev (if d = 0 then ''vhci_hcd'' else ''1-1:1.0'')], w)),
     u_driver_attr = (\<lambda>d n w. (Some (usim_attr n ''''), w)), u_open_class = (\<lambda>n w. (Some 0, w)),
     u_close_class = (\<lambda>c w. ((), w)), u_class_devices = (\<lambda>c w. (Some [''/sys/class/net/eth0''], w)), u_get_link = (\<lambda>p w. (Some ''/sys/pci0'', w)),
     u_dir_list = (\<lambda>p w. (Some [''net''], w)), u_stat = (\<lambda>p w. (Stat_ok True, w)), u_usleep = (\<lambda>n w. ((), w)),
     u_mkdir = (\<lambda>p w. (Mkdir_ok, w)), u_rmdir = (\<lambda>p w. ((), w)), u_remove = (\<lambda>p w. ((), w)),
     u_open_file = (\<lambda>p w. (5, w)), u_write_file = (\<lambda>fd s w. (int (length s), w))\<rparr>"

lemma sim_u_fields [simp]:
  "u_send sim_u = (\<lambda>fd b w. (int (length b), w\<lparr>si_out := si_out w @ b\<rparr>))"
  "u_recv sim_u = usim_recv" "u_setsockopt sim_u = (\<lambda>fd x w. (0, w))"
  "u_close sim_u = (\<lambda>fd w. ((), w))" "u_calloc sim_u = (\<lambda>w. (True, w))"
  "u_junk sim_u = (\<lambda>n w. (replicate n (CHR ''x''), w))" "u_junk32 sim_u = (\<lambda>w. (0, w))"
  "u_mnt_path sim_u = (\<lambda>w. (Some ''/sys'', w))" "u_open_device sim_u = (\<lambda>b i w. (Some (usim_dev i), w))"
  "u_open_device_path sim_u = (\<lambda>p w. (Some (usim_dev (path_name p)), w))" "u_close_device sim_u = (\<lambda>d w. ((), w))"
  "u_device_parent sim_u = (\<lambda>d w. (Some (usim_dev (take 3 (sd_bus_id d))), w))"
  "u_device_attr sim_u = (\<lambda>d n w. (Some (usim_attr (sd_path d @ ''/'' @ n) (usim_value w n)), w))"
  "u_open_attr sim_u = (\<lambda>p w. (Some (usim_attr p ''''), w))"
  "u_read_attr sim_u = (\<lambda>a w. ((0, usim_attr (at_path a) (if path_name (at_path a) = ''speed'' then ''480'' else ''1'')), w))" "u_write_attr sim_u = usim_write"
  "u_close_attr sim_u = (\<lambda>a w. ((), w))" "u_open_driver sim_u = (\<lambda>b d w. (Some 1, w))"
  "u_open_driver_path sim_u = (\<lambda>p w. (Some (if p = ''/sys/bus/platform/drivers/vhci_hcd'' then 0 else 1), w))"
  "u_close_driver sim_u = (\<lambda>d w. ((), w))"
  "u_driver_devices sim_u = (\<lambda>d w. (Some [usim_dev (if d = 0 then ''vhci_hcd'' else ''1-1:1.0'')], w))"
  "u_open_class sim_u = (\<lambda>n w. (Some 0, w))" "u_close_class sim_u = (\<lambda>c w. ((), w))"
  "u_class_devices sim_u = (\<lambda>c w. (Some [''/sys/class/net/eth0''], w))" "u_get_link sim_u = (\<lambda>p w. (Some ''/sys/pci0'', w))"
  "u_dir_list sim_u = (\<lambda>p w. (Some [''net''], w))" "u_stat sim_u = (\<lambda>p w. (Stat_ok True, w))"
  "u_usleep sim_u = (\<lambda>n w. ((), w))" "u_driver_attr sim_u = (\<lambda>d n w. (Some (usim_attr n ''''), w))"
  by (simp_all add: sim_u_def)

end
