(* ===== verification/UHandshake.thy ===== *)
theory UHandshake
  imports USim
begin

text \<open>
  The import of a device as the daemon and the client see it together: the request the client sends
  is the one the daemon answers, and the client takes the answer for what the daemon meant by it.
\<close>

lemma sim_net_ok: "net_ok sim_u fd si_in si_out"
  unfolding net_ok_def
proof (intro conjI allI impI)
  fix n w r d w1
  assume r: "u_recv sim_u fd n w = ((r, d), w1)"
  show "si_out w1 = si_out w" using r by (auto simp: usim_recv_def split: if_splits)
  show "recv_law n (si_in w) (si_in w1) r d"
    using r by (auto simp: usim_recv_def recv_law_def split: if_splits)
next
  fix b w r w1
  assume s: "u_send sim_u fd b w = (r, w1)"
  show "si_in w1 = si_in w" "send_law b (si_out w) (si_out w1) r"
    using s by (auto simp: send_law_def)
qed

lemma sim_quiet: "quiet sim_u si_out"
  by (simp add: quiet_def quiet_reads_def usim_write_def split: prod.splits)

lemma sim_quiet_reads: "quiet_reads sim_u v"
  by (simp add: quiet_reads_def)

lemma length_import_request: "length (import_request h busid) = 40"
  by (simp add: import_request_def length_strncpy SYSFS_BUS_ID_SIZE_def)

lemma strncmp_eq_sym: "strncmp_eq a b n = strncmp_eq b a n"
  by (auto simp: strncmp_eq_def)

lemma refresh_up:
  assumes "allocs u" and "us_host s \<noteq> None" and "run_state (usbip_host_refresh_device_list u) s = (r, s')"
  shows "r = Some 0"
proof -
  obtain d where d: "us_host s = Some d" using assms(2) by blast
  obtain s1 where s1: "run_state (case uh_edev_list d of None \<Rightarrow> ret () | Some es \<Rightarrow> delete_edevs u es) s = ((), s1)"
    by (metis old.unit.exhaust prod.exhaust)
  have "fst (u_calloc u (us_os s1))" using assms(1) by (simp add: allocs_def)
  then obtain w1 where w1: "u_calloc u (us_os s1) = (True, w1)" by (cases "u_calloc u (us_os s1)") auto
  obtain d1 s2 where "run_state (refresh_exported_devices u (d\<lparr>uh_ndevs := 0, uh_edev_list := Some []\<rparr>)) (s1\<lparr>us_os := w1\<rparr>) = (d1, s2)"
    by fastforce
  with assms(3) d s1 w1 show ?thesis by (simp add: usbip_host_refresh_device_list_def)
qed


text \<open>A daemon with the request of a client in its socket, and a client that finds its answer.\<close>

definition host_demo :: "usim ustate" where
  "host_demo = \<lparr>us_os = \<lparr>si_in = import_request Little ''1-1'', si_out = [], si_vhci = hcd_demo, si_busids = []\<rparr>,
     us_vhci = None, us_host = Some \<lparr>uh_ndevs = 0, uh_sysfs_driver = Some 1, uh_edev_list = Some []\<rparr>,
     us_next = 0, us_live = [], us_fault = False\<rparr>"

definition client_demo :: "usim ustate" where
  "client_demo = host_demo\<lparr>us_os := (us_os host_demo)
     \<lparr>si_in := si_out (us_os (snd (run_state (recv_pdu Big sim_u 4) host_demo)))\<rparr>\<rparr>"

text \<open>The one device of this world, as reading its files gives it.\<close>

definition udev_demo :: usbip_usb_device where
  "udev_demo = \<lparr>uu_path = strncpy ''/sys/1-1'' SYSFS_PATH_MAX, uu_busid = strncpy ''1-1'' SYSFS_BUS_ID_SIZE,
     uu_busnum = 1, uu_devnum = 1, uu_speed = 3, uu_idVendor = 1, uu_idProduct = 1, uu_bcdDevice = 1,
     uu_bDeviceClass = 1, uu_bDeviceSubClass = 1, uu_bDeviceProtocol = 1, uu_bConfigurationValue = 1,
     uu_bNumConfigurations = 1, uu_bNumInterfaces = 1\<rparr>"

definition edev_demo :: usbip_exported_device where
  "edev_demo = \<lparr>ed_sudev = Some (usim_dev ''1-1''), ed_status = 1, ed_udev = udev_demo,
     ed_uinf = [\<lparr>uf_bInterfaceClass = 1, uf_bInterfaceSubClass = 1, uf_bInterfaceProtocol = 1, uf_padding = 0\<rparr>]\<rparr>"

lemma sim_attr:
  "run_state (read_attr_value sim_u d n f) s =
    (scan_format f (if path_name (attr_path_of d n) = ''speed'' then ''480'' else ''1''), s)"
  by (simp add: read_attr_value_def usim_attr_def)

lemma sim_attrs:
  "run_state (read_attr_value sim_u (usim_dev ''1-1'') ''bDeviceClass'' (Hex 2)) s = (1, s)"
  "run_state (read_attr_value sim_u (usim_dev ''1-1'') ''bDeviceSubClass'' (Hex 2)) s = (1, s)"
  "run_state (read_attr_value sim_u (usim_dev ''1-1'') ''bDeviceProtocol'' (Hex 2)) s = (1, s)"
  "run_state (read_attr_value sim_u (usim_dev ''1-1'') ''idVendor'' (Hex 4)) s = (1, s)"
  "run_state (read_attr_value sim_u (usim_dev ''1-1'') ''idProduct'' (Hex 4)) s = (1, s)"
  "run_state (read_attr_value sim_u (usim_dev ''1-1'') ''bcdDevice'' (Hex 4)) s = (1, s)"
  "run_state (read_attr_value sim_u (usim_dev ''1-1'') ''bConfigurationValue'' (Hex 2)) s = (1, s)"
  "run_state (read_attr_value sim_u (usim_dev ''1-1'') ''bNumConfigurations'' (Hex 2)) s = (1, s)"
  "run_state (read_attr_value sim_u (usim_dev ''1-1'') ''bNumInterfaces'' (Hex 2)) s = (1, s)"
  "run_state (read_attr_value sim_u (usim_dev ''1-1'') ''devnum'' Dec) s = (1, s)"
  "run_state (read_attr_value sim_u (usim_dev ''1-1:1.0'') ''bInterfaceClass'' (Hex 2)) s = (1, s)"
  "run_state (read_attr_value sim_u (usim_dev ''1-1:1.0'') ''bInterfaceSubClass'' (Hex 2)) s = (1, s)"
  "run_state (read_attr_value sim_u (usim_dev ''1-1:1.0'') ''bInterfaceProtocol'' (Hex 2)) s = (1, s)"
  unfolding sim_attr prod.inject by (intro conjI refl; code_simp)+

lemma sim_scans: "c_scan_u ''1-1'' = Some (1, ''-1'')" "c_scan_s ''480'' = Some (''480'', [])" "atoi ''1'' = 1"
  "path_name (attr_path_of (usim_dev ''1-1'') ''speed'') = ''speed''"
  "find (\<lambda>e. fst (snd e) = ''480'') speed_strings = Some (3, ''480'', ''High Speed(480Mbps)'')"
  by code_simp+

lemma sim_speed: "run_state (read_attr_speed sim_u (usim_dev ''1-1'')) s = (3, s)"
  by (simp add: read_attr_speed_def usim_attr_def sim_scans Let_def)

lemma usim_dev_name: "sd_name (usim_dev b) = b" "sd_path (usim_dev b) = ''/sys/'' @ b"
  by (simp_all add: usim_dev_def)

lemma sim_read_device: "run_state (read_usb_device sim_u (usim_dev ''1-1'')) s = (udev_demo, s)"
  by (simp add: read_usb_device_def sim_attrs sim_speed sim_scans udev_demo_def usim_dev_name)

lemma sim_udev_fields: "cstr (uu_busid udev_demo) = ''1-1''" "uu_bNumInterfaces udev_demo = 1"
  "uu_bConfigurationValue udev_demo = 1" "fmt_u (Suc 0) (Suc 0) = ''1''" "fmt_u (Suc 0) 0 = ''0''"
  "strncmp_eq ''1-1'' (uu_busid udev_demo) SYSFS_BUS_ID_SIZE"
  by code_simp+

lemma sim_read_interface: "run_state (read_usb_interface sim_u udev_demo 0 f) s = ((0, f\<lparr>uf_bInterfaceClass := 1,
    uf_bInterfaceSubClass := 1, uf_bInterfaceProtocol := 1\<rparr>), s)"
  by (simp add: read_usb_interface_def sim_udev_fields sim_attrs)

lemma sim_status: "run_state (read_attr_usbip_status sim_u udev_demo) s = (1, s)"
proof -
  have p: "path_name (intf_attr_path udev_demo ''usbip_status'') \<noteq> ''speed''" by code_simp
  have "run_state (wait_for_file sim_u path SYSFS_OPEN_RETRIES) s = (Some SYSFS_OPEN_RETRIES, s)" for path
    by (simp add: SYSFS_OPEN_RETRIES_def numeral_eq_Suc)
  with p show ?thesis by (simp add: read_attr_usbip_status_def Let_def usim_attr_def sim_scans)
qed

lemma sim_new_device: "run_state (usbip_exported_device_new sim_u ''/sys/1-1'') s = (Some edev_demo, s)"
proof -
  have n: "path_name ''/sys/1-1'' = ''1-1''" by code_simp
  show ?thesis
    by (simp add: usbip_exported_device_new_def n sim_read_device sim_status sim_udev_fields sim_read_interface
        edev_demo_def junk_uinf_def)
qed

lemma sim_refresh:
  assumes "us_host s = Some \<lparr>uh_ndevs = 0, uh_sysfs_driver = Some 1, uh_edev_list = Some []\<rparr>"
  shows "run_state (usbip_host_refresh_device_list sim_u) s =
    (Some 0, s\<lparr>us_host := Some \<lparr>uh_ndevs = 1, uh_sysfs_driver = Some 1, uh_edev_list = Some [edev_demo]\<rparr>\<rparr>)"
  using sim_new_device assms
  by (simp add: usbip_host_refresh_device_list_def refresh_exported_devices_def usim_dev_def check_new_def add_edev_def)

lemma host_demo_list:
  assumes "run_state (recv_pdu Big sim_u 4) host_demo = (r, s')"
  shows "edev_list_of s' = [edev_demo]"
proof -
  have p0: "si_in (us_os host_demo) = op_header Little OP_REQ_IMPORT ST_OK @
      chars_mem (strncpy ''1-1'' (SYSFS_BUS_ID_SIZE - 1) @ [NUL])"
    by (simp add: host_demo_def import_request_def ST_OK_def)
  obtain w1 where w1: "run_state (usbip_net_recv_op_common Big sim_u 4 OP_UNSPEC) host_demo =
      ((0, OP_REQ_IMPORT), host_demo\<lparr>us_os := w1\<rparr>)"
    by (rule recv_op_header [OF sim_net_ok p0 disjI1 [OF refl]])
  have h: "us_host (host_demo\<lparr>us_os := w1\<rparr>) = Some \<lparr>uh_ndevs = 0, uh_sysfs_driver = Some 1, uh_edev_list = Some []\<rparr>"
    by (simp add: host_demo_def)
  let ?s2 = "host_demo\<lparr>us_os := w1, us_host := Some \<lparr>uh_ndevs = 1, uh_sysfs_driver = Some 1, uh_edev_list = Some [edev_demo]\<rparr>\<rparr>"
  obtain a w where i: "run_state (recv_request_import Big sim_u 4) ?s2 = (a, ?s2\<lparr>us_os := w\<rparr>)"
    by (rule os_onlyD [OF os_only_import])
  have "OP_REQ_IMPORT \<noteq> OP_REQ_DEVLIST" by (simp add: op_code_defs)
  then have "s' = ?s2\<lparr>us_os := w\<rparr>" using assms w1 sim_refresh [OF h] i by (simp add: recv_pdu_def)
  then show ?thesis by (simp add: edev_list_of_def)
qed

lemma sim_takes: "driver_takes sim_u fd (\<lambda>_. True) [edev_demo]"
proof -
  have "intf_attr_path udev_demo ''usbip_sockfd'' \<notin> {''/sys/vhci_hcd/attach'', ''/sys/bus/usb/drivers/usbip-host/match_busid''}"
    by code_simp
  then show ?thesis
    by (auto simp: driver_takes_def available_def usbip_host_export_device_def edev_demo_def usim_attr_def usim_write_def)
qed


end
