(* ===== verification/UAttach.thy ===== *)
theory UAttach
  imports USim
begin

text \<open>
  Attaching a device from the command line down to the state of the kernel: the library opens the
  controller, reads the status table the kernel prints, chooses a port and writes the numbers that
  \<open>store_attach\<close> reads.
\<close>

section \<open>The numbers of an attachment\<close>

lemma scan_us_fmt:
  assumes "r = [] \<or> is_space (hd r)" and "list_all is_space sp"
  shows "scan_us (Suc n) (sp @ fmt_u w m @ r) = of_nat m # scan_us n r"
proof -
  have "r = [] \<or> \<not> is_digit (hd r)" using assms(1) digit_no_space by blast
  then show ?thesis using assms(2) by (simp add: scan_u_fmt_u)
qed

lemma fmt_u_short: "unat (x :: u32) < 2 ^ 32 \<Longrightarrow> length (fmt_u 1 (unat x)) \<le> 10"
  using fmt_u_length [of "unat x" 10 1] by simp

lemma attach_string_read:
  "scan_us 4 (attach_string port sockfd dv speed) = [ucast port, sockfd, dv, speed]"
proof -
  let ?s = "fmt_u 1 (unat port) @ '' '' @ fmt_u 1 (unat sockfd) @ '' '' @ fmt_u 1 (unat dv) @ '' '' @ fmt_u 1 (unat speed)"
  have l: "length (fmt_u 1 (unat sockfd)) \<le> 10" "length (fmt_u 1 (unat dv)) \<le> 10" "length (fmt_u 1 (unat speed)) \<le> 10"
    by (rule fmt_u_short [OF unat_less32])+
  have "unat port < 256" using unsigned_less [of port] by simp
  then have "unat port < 10 ^ 3" by simp
  then have p: "length (fmt_u 1 (unat port)) \<le> 3" using fmt_u_length [of "unat port" 3 1] by simp
  have "attach_string port sockfd dv speed = ?s"
    unfolding attach_string_def by (rule snprintf_fits) (use l p in simp)
  moreover have "scan_us 4 ?s = [ucast port, sockfd, dv, speed]"
  proof -
    have sp: "list_all is_space '' ''" "list_all is_space []" by (simp_all add: space_no_digit)
    have n: "(4::nat) = Suc 3" "(3::nat) = Suc 2" "(2::nat) = Suc 1" "(1::nat) = Suc 0" by simp_all
    have a: "scan_us (Suc 3) ([] @ ?s) = of_nat (unat port) # scan_us 3 ('' '' @ fmt_u 1 (unat sockfd) @ '' '' @ fmt_u 1 (unat dv) @ '' '' @ fmt_u 1 (unat speed))"
      by (rule scan_us_fmt [OF _ sp(2)]) (simp add: space_no_digit)
    have b: "scan_us (Suc 2) ('' '' @ fmt_u 1 (unat sockfd) @ '' '' @ fmt_u 1 (unat dv) @ '' '' @ fmt_u 1 (unat speed)) =
        of_nat (unat sockfd) # scan_us 2 ('' '' @ fmt_u 1 (unat dv) @ '' '' @ fmt_u 1 (unat speed))"
      by (rule scan_us_fmt [OF _ sp(1)]) (simp add: space_no_digit)
    have c: "scan_us (Suc 1) ('' '' @ fmt_u 1 (unat dv) @ '' '' @ fmt_u 1 (unat speed)) =
        of_nat (unat dv) # scan_us 1 ('' '' @ fmt_u 1 (unat speed) @ [])"
      unfolding append_Nil2 by (rule scan_us_fmt [OF _ sp(1)]) (simp add: space_no_digit)
    have d: "scan_us (Suc 0) ('' '' @ fmt_u 1 (unat speed) @ []) = of_nat (unat speed) # scan_us 0 []"
      by (rule scan_us_fmt [OF _ sp(1)]) simp
    have e: "(of_nat (unat port) :: u32) = ucast port" by (rule of_nat_unat)
    show ?thesis using a b c d e by (simp only: n append_Nil scan_us.simps(1)) simp
  qed
  ultimately show ?thesis by simp
qed

section \<open>The attribute files of the controller\<close>

text \<open>The laws of \<^verbatim>\<open>sysfs\<close> for the driver \<^verbatim>\<open>vhci_hcd\<close>: it is bound to the one platform device \<open>hcid\<close>,
  whose directory is \<open>hcp\<close>; its file \<open>status\<close> shows what \<open>show_status\<close> prints, and writing its file
  \<open>attach\<close> runs \<open>store_attach\<close>. Everything else leaves the kernel alone.\<close>

definition vhci_sysfs ::
  "'w uapi \<Rightarrow> 'k kapi \<Rightarrow> 'k hapi \<Rightarrow> (sock option \<Rightarrow> string) \<Rightarrow> ('w \<Rightarrow> vhci_hcd \<times> 'k) \<Rightarrow> string \<Rightarrow> string \<Rightarrow> bool" where
  "vhci_sysfs u k hk ptr kv hcid hcp \<longleftrightarrow>
     quiet_reads u kv \<and>
     (\<forall>v m v1 w dr w1 w2 l w3. u_mnt_path u v = (Some m, v1) \<longrightarrow>
        u_open_driver_path u (snprintf SYSFS_PATH_MAX
          (join_path [m, SYSFS_BUS_NAME, USBIP_VHCI_BUS_TYPE, SYSFS_DRIVERS_NAME, USBIP_VHCI_DRV_NAME])) w = (Some dr, w1) \<longrightarrow>
        u_driver_devices u dr w2 = (Some l, w3) \<longrightarrow>
        (\<forall>d\<in>set l. cstr (strncpy (sd_bus_id d) SYSFS_BUS_ID_SIZE) = hcid)) \<and>
     (\<forall>w d w1. u_open_device u USBIP_VHCI_BUS_TYPE hcid w = (Some d, w1) \<longrightarrow> sd_path d = hcp) \<and>
     (\<forall>d w a w1. sd_path d = hcp \<longrightarrow> u_device_attr u d ''status'' w = (Some a, w1) \<longrightarrow>
        at_value a = the (VhciSysfs.show_status ptr hk (fst (kv w)))) \<and>
     (\<forall>d w a w1. sd_path d = hcp \<longrightarrow> u_device_attr u d ''attach'' w = (Some a, w1) \<longrightarrow>
        at_path a = hcp @ ''/attach'') \<and>
     (\<forall>a buf w r w1. at_path a = hcp @ ''/attach'' \<longrightarrow> u_write_attr u a buf w = (r, w1) \<longrightarrow>
        (case store_attach k hk buf (int (length buf)) (fst (kv w)) (snd (kv w)) of (r1, c1, kw1) \<Rightarrow>
           kv w1 = (c1, kw1) \<and> (r < 0 \<longleftrightarrow> r1 < 0)))"

lemma vhci_sysfsD:
  assumes "vhci_sysfs u k hk ptr kv hcid hcp"
  shows "quiet_reads u kv"
    and "\<And>v m v1 w dr w1 w2 l w3 d. u_mnt_path u v = (Some m, v1) \<Longrightarrow> u_open_driver_path u (snprintf SYSFS_PATH_MAX
          (join_path [m, SYSFS_BUS_NAME, USBIP_VHCI_BUS_TYPE, SYSFS_DRIVERS_NAME, USBIP_VHCI_DRV_NAME])) w = (Some dr, w1) \<Longrightarrow>
        u_driver_devices u dr w2 = (Some l, w3) \<Longrightarrow> d \<in> set l \<Longrightarrow> cstr (strncpy (sd_bus_id d) SYSFS_BUS_ID_SIZE) = hcid"
    and "\<And>w d w1. u_open_device u USBIP_VHCI_BUS_TYPE hcid w = (Some d, w1) \<Longrightarrow> sd_path d = hcp"
    and "\<And>d w a w1. sd_path d = hcp \<Longrightarrow> u_device_attr u d ''status'' w = (Some a, w1) \<Longrightarrow>
        at_value a = the (VhciSysfs.show_status ptr hk (fst (kv w)))"
    and "\<And>d w a w1. sd_path d = hcp \<Longrightarrow> u_device_attr u d ''attach'' w = (Some a, w1) \<Longrightarrow>
        at_path a = hcp @ ''/attach''"
    and "\<And>a buf w r w1. at_path a = hcp @ ''/attach'' \<Longrightarrow> u_write_attr u a buf w = (r, w1) \<Longrightarrow>
        (case store_attach k hk buf (int (length buf)) (fst (kv w)) (snd (kv w)) of (r1, c1, kw1) \<Rightarrow>
           kv w1 = (c1, kw1) \<and> (r < 0 \<longleftrightarrow> r1 < 0))"
proof -
  note a = assms [unfolded vhci_sysfs_def]
  show "quiet_reads u kv" using a by (elim conjE)
  show "\<And>v m v1 w dr w1 w2 l w3 d. u_mnt_path u v = (Some m, v1) \<Longrightarrow> u_open_driver_path u (snprintf SYSFS_PATH_MAX
          (join_path [m, SYSFS_BUS_NAME, USBIP_VHCI_BUS_TYPE, SYSFS_DRIVERS_NAME, USBIP_VHCI_DRV_NAME])) w = (Some dr, w1) \<Longrightarrow>
        u_driver_devices u dr w2 = (Some l, w3) \<Longrightarrow> d \<in> set l \<Longrightarrow> cstr (strncpy (sd_bus_id d) SYSFS_BUS_ID_SIZE) = hcid"
    using a by (elim conjE) blast
  show "\<And>w d w1. u_open_device u USBIP_VHCI_BUS_TYPE hcid w = (Some d, w1) \<Longrightarrow> sd_path d = hcp"
    using a by (elim conjE) blast
  show "\<And>d w a w1. sd_path d = hcp \<Longrightarrow> u_device_attr u d ''status'' w = (Some a, w1) \<Longrightarrow>
        at_value a = the (VhciSysfs.show_status ptr hk (fst (kv w)))"
    using a by (elim conjE) blast
  show "\<And>d w a w1. sd_path d = hcp \<Longrightarrow> u_device_attr u d ''attach'' w = (Some a, w1) \<Longrightarrow>
        at_path a = hcp @ ''/attach''"
    using a by (elim conjE) blast
  show "\<And>a buf w r w1. at_path a = hcp @ ''/attach'' \<Longrightarrow> u_write_attr u a buf w = (r, w1) \<Longrightarrow>
        (case store_attach k hk buf (int (length buf)) (fst (kv w)) (snd (kv w)) of (r1, c1, kw1) \<Rightarrow>
           kv w1 = (c1, kw1) \<and> (r < 0 \<longleftrightarrow> r1 < 0))"
  proof -
    have "\<forall>a buf w r w1. at_path a = hcp @ ''/attach'' \<longrightarrow> u_write_attr u a buf w = (r, w1) \<longrightarrow>
        (case store_attach k hk buf (int (length buf)) (fst (kv w)) (snd (kv w)) of (r1, c1, kw1) \<Rightarrow>
           kv w1 = (c1, kw1) \<and> (r < 0 \<longleftrightarrow> r1 < 0))"
      using a by (elim conjE)
    then show "at_path a = hcp @ ''/attach'' \<Longrightarrow> u_write_attr u a buf w = (r, w1) \<Longrightarrow>
        (case store_attach k hk buf (int (length buf)) (fst (kv w)) (snd (kv w)) of (r1, c1, kw1) \<Rightarrow>
           kv w1 = (c1, kw1) \<and> (r < 0 \<longleftrightarrow> r1 < 0))" for a buf w r w1
      by (elim allE impE) assumption+
  qed
qed

section \<open>Opening the controller\<close>

lemma keeps_check_device [keeps_intros]: "quiet_reads u v \<Longrightarrow> keeps (v \<circ> us_os) (check_usbip_device u hc p)"
  unfolding check_usbip_device_def Let_def by (intro keeps_intros)

lemma keeps_check_devices [keeps_intros]:
  assumes q: "quiet_reads u v"
  shows "keeps (v \<circ> us_os) (check_usbip_devices u hc ps)"
proof (induction ps)
  case Nil
  show ?case unfolding check_usbip_devices.simps by (intro keeps_intros)
next
  case (Cons a ps)
  show ?case unfolding check_usbip_devices.simps by (intro keeps_intros q Cons.IH)
qed

lemma keeps_search [keeps_intros]: "quiet_reads u v \<Longrightarrow> keeps (v \<circ> us_os) (search_class_for_usbip_device u hc n)"
  unfolding search_class_for_usbip_device_def by (intro keeps_intros)

lemma keeps_searches [keeps_intros]:
  assumes q: "quiet_reads u v"
  shows "keeps (v \<circ> us_os) (search_classes u hc ns)"
proof (induction ns)
  case Nil
  show ?case unfolding search_classes.simps by (intro keeps_intros)
next
  case (Cons a ns)
  show ?case unfolding search_classes.simps by (intro keeps_intros q Cons.IH)
qed

lemma keeps_refresh_class [keeps_intros]: "quiet_reads u v \<Longrightarrow> keeps (v \<circ> us_os) (refresh_class_device_list u hc)"
  unfolding refresh_class_device_list_def by (intro keeps_intros)

text \<open>They change nothing of the driver but its list of class devices.\<close>

definition drv_view :: "'w ustate \<Rightarrow> (int \<times> sysfs_device option \<times> usbip_imported_device list) option" where
  "drv_view s = map_option (\<lambda>d. (uv_nports d, uv_hc_device d, uv_idev d)) (us_vhci s)"

lemma drv_view_os [keeps_intros]: "keeps drv_view (os f)"
  by (simp add: keeps_def drv_view_def split: prod.splits)

lemma drv_view_upd [keeps_intros]:
  "(\<And>d. uv_nports (f d) = uv_nports d \<and> uv_hc_device (f d) = uv_hc_device d \<and> uv_idev (f d) = uv_idev d) \<Longrightarrow>
   keeps drv_view (upd_vhci f)"
  by (simp add: keeps_def drv_view_def option.map_comp comp_def)

lemma drv_view_refresh: "keeps drv_view (refresh_class_device_list u hc)"
proof -
  have c: "keeps drv_view (check_usbip_device u hc p)" for p
    unfolding check_usbip_device_def Let_def by (intro keeps_intros) simp
  have cs: "keeps drv_view (check_usbip_devices u hc ps)" for ps
  proof (induction ps)
    case Nil
    show ?case unfolding check_usbip_devices.simps by (intro keeps_intros)
  next
    case (Cons a ps)
    show ?case unfolding check_usbip_devices.simps by (intro keeps_intros c Cons.IH)
  qed
  have s: "keeps drv_view (search_class_for_usbip_device u hc n)" for n
    unfolding search_class_for_usbip_device_def by (intro keeps_intros cs)
  have ss: "keeps drv_view (search_classes u hc ns)" for ns
  proof (induction ns)
    case Nil
    show ?case unfolding search_classes.simps by (intro keeps_intros)
  next
    case (Cons a ns)
    show ?case unfolding search_classes.simps by (intro keeps_intros s Cons.IH)
  qed
  show ?thesis unfolding refresh_class_device_list_def by (intro keeps_intros s ss)
qed

lemma os_only_hc_busid: "os_only (get_hc_busid u m)"
  unfolding get_hc_busid_def by (intro os_only_intros)

lemma os_only_nports: "os_only (get_nports u hc)"
  unfolding get_nports_def by (intro os_only_intros)

lemma keeps_dlist [keeps_intros]:
  "quiet_reads u v \<Longrightarrow> keeps (v \<circ> us_os) (dlist_new u)" "keeps (v \<circ> us_os) (dlist_destroy l)"
  "keeps (v \<circ> us_os) (dlist_destroy_opt lo)"
proof -
  show d: "keeps (v \<circ> us_os) (dlist_destroy l)" for l
    unfolding dlist_destroy_def by (rule keeps_modify_os) simp
  show "keeps (v \<circ> us_os) (dlist_destroy_opt lo)"
    unfolding dlist_destroy_opt_def by (intro keeps_intros d)
  show "quiet_reads u v \<Longrightarrow> keeps (v \<circ> us_os) (dlist_new u)"
    unfolding dlist_new_def by (intro keeps_intros; simp)
qed

lemma keeps_copy [keeps_intros]:
  assumes q: "quiet_reads u v"
  shows "keeps (v \<circ> us_os) (copy_cdevs u p cs l)"
proof (induction cs arbitrary: l)
  case Nil
  show ?case unfolding copy_cdevs.simps by (intro keeps_intros)
next
  case (Cons a cs)
  show ?case unfolding copy_cdevs.simps by (intro keeps_intros q Cons.IH)
qed

lemma keeps_imported [keeps_intros]: "quiet_reads u v \<Longrightarrow> keeps (v \<circ> us_os) (imported_device_init u i b)"
  unfolding imported_device_init_def by (intro keeps_intros)

lemma keeps_parse_line [keeps_intros]: "quiet_reads u v \<Longrightarrow> keeps (v \<circ> us_os) (parse_status_line u c)"
  unfolding parse_status_line_def Let_def by (intro keeps_intros)

lemma keeps_parse_lines [keeps_intros]:
  assumes q: "quiet_reads u v"
  shows "keeps (v \<circ> us_os) (parse_lines u cs)"
proof (induction cs)
  case Nil
  show ?case unfolding parse_lines.simps by (intro keeps_intros)
next
  case (Cons a cs)
  show ?case unfolding parse_lines.simps by (intro keeps_intros q Cons.IH)
qed

lemma keeps_fill [keeps_intros]: "quiet_reads u v \<Longrightarrow> keeps (v \<circ> us_os) (fill_lists u hc)"
  unfolding fill_lists_def refresh_imported_device_list_def parse_status_def by (intro keeps_intros)

lemma keeps_open_err [keeps_intros]: "quiet_reads u v \<Longrightarrow> keeps (v \<circ> us_os) (driver_open_err u)"
  unfolding driver_open_err_def close_hc_def by (intro keeps_intros; simp)

lemma keeps_open: "quiet_reads u v \<Longrightarrow> keeps (v \<circ> us_os) (usbip_vhci_driver_open u)"
  unfolding usbip_vhci_driver_open_def get_hc_busid_def get_nports_def by (intro keeps_intros; simp)

lemma keeps_destroy_all [keeps_intros]: "keeps (v \<circ> us_os) (destroy_all ls)"
proof (induction ls)
  case Nil
  show ?case unfolding destroy_all.simps by (intro keeps_intros)
next
  case (Cons a ls)
  show ?case unfolding destroy_all.simps by (intro keeps_intros Cons.IH)
qed

lemma keeps_close: "quiet_reads u v \<Longrightarrow> keeps (v \<circ> us_os) (usbip_vhci_driver_close u)"
  unfolding usbip_vhci_driver_close_def close_hc_def by (intro keeps_intros; simp)

text \<open>\<^verbatim>\<open>sysfs\<close> is mounted, the driver is loaded and memory suffices: the calls of opening succeed.\<close>

definition sysfs_up :: "'w uapi \<Rightarrow> string \<Rightarrow> bool" where
  "sysfs_up u hcid \<longleftrightarrow> allocs u \<and> (\<forall>w. fst (u_mnt_path u w) \<noteq> None) \<and>
     (\<forall>p w. fst (u_open_driver_path u p w) \<noteq> None) \<and>
     (\<forall>d w. fst (u_driver_devices u d w) \<notin> {None, Some []}) \<and>
     (\<forall>w. fst (u_open_device u USBIP_VHCI_BUS_TYPE hcid w) \<noteq> None) \<and>
     (\<forall>d n w. fst (u_device_attr u d n w) \<noteq> None) \<and> (\<forall>p w. fst (u_dir_list u p w) \<noteq> None) \<and>
     (\<forall>n w. fst (u_open_class u n w) \<noteq> None)"

lemma fst_SomeD: "fst x \<noteq> None \<Longrightarrow> \<exists>y w. x = (Some y, w)"
  by (cases x) auto

lemma sysfs_upD:
  assumes "sysfs_up u hcid"
  shows "allocs u" and "\<exists>m w1. u_mnt_path u w = (Some m, w1)"
    and "\<exists>d w1. u_open_driver_path u p w = (Some d, w1)"
    and "\<exists>x xs w1. u_driver_devices u dr w = (Some (x # xs), w1)"
    and "\<exists>d w1. u_open_device u USBIP_VHCI_BUS_TYPE hcid w = (Some d, w1)"
    and "\<exists>a w1. u_device_attr u dv n w = (Some a, w1)" and "\<exists>ns w1. u_dir_list u p w = (Some ns, w1)"
    and "\<exists>cl w1. u_open_class u n w = (Some cl, w1)"
proof -
  note a = assms [unfolded sysfs_up_def]
  have "fst (u_driver_devices u dr w) \<notin> {None, Some []}" using a by blast
  then show "\<exists>x xs w1. u_driver_devices u dr w = (Some (x # xs), w1)"
    by (cases "u_driver_devices u dr w"; cases "fst (u_driver_devices u dr w)"; cases "the (fst (u_driver_devices u dr w))") auto
qed (use assms [unfolded sysfs_up_def] in \<open>blast intro: fst_SomeD\<close>)+

definition all_idle :: "vhci_hcd \<Rightarrow> bool" where
  "all_idle c \<longleftrightarrow> (\<forall>d\<in>set (vdevs c). ud_status d \<in> {VDEV_ST_NULL, VDEV_ST_NOTASSIGNED})"

lemma check_devices_up:
  assumes "allocs u"
  shows "fst (run_state (check_usbip_devices u hc ps) s) = 0"
proof (induction ps arbitrary: s)
  case (Cons p ps)
  have "fst (run_state (check_usbip_device u hc p) s) = 0"
  proof -
    obtain link w where l: "u_get_link u (snprintf SYSFS_PATH_MAX (p @ ''/device'')) (us_os s) = (link, w)" by fastforce
    have "fst (u_calloc u w)" using assms by (simp add: allocs_def)
    then obtain w1 where "u_calloc u w = (True, w1)" by (cases "u_calloc u w") auto
    with l show ?thesis by (cases link) (simp_all add: check_usbip_device_def Let_def)
  qed
  then show ?case using Cons by (cases "run_state (check_usbip_device u hc p) s") simp
qed simp

lemma search_class_up:
  assumes "sysfs_up u hcid"
  shows "fst (run_state (search_class_for_usbip_device u hc n) s) = 0"
proof -
  have a: "allocs u" by (rule sysfs_upD [OF assms])
  obtain k w where c: "u_open_class u n (us_os s) = (Some k, w)" using sysfs_upD(8) [OF assms] by blast
  obtain ds w1 where d: "u_class_devices u k w = (ds, w1)" by fastforce
  show ?thesis
  proof (cases ds)
    case None
    then show ?thesis using c d by (simp add: search_class_for_usbip_device_def split: prod.splits)
  next
    case (Some ps)
    obtain r s1 where r: "run_state (check_usbip_devices u hc ps) (s\<lparr>us_os := w1\<rparr>) = (r, s1)" by fastforce
    then have "r = 0" using check_devices_up [OF a, of hc ps "s\<lparr>us_os := w1\<rparr>"] by simp
    then show ?thesis using Some c d r by (simp add: search_class_for_usbip_device_def split: prod.splits)
  qed
qed

lemma refresh_class_up:
  assumes "sysfs_up u hcid"
  shows "fst (run_state (refresh_class_device_list u hc) s) = 0"
proof -
  have ss: "fst (run_state (search_classes u hc ns) s) = 0" for ns s
  proof (induction ns arbitrary: s)
    case (Cons n ns)
    then show ?case
      using search_class_up [OF assms, of hc n s] by (cases "run_state (search_class_for_usbip_device u hc n) s") simp
  qed simp
  obtain m w where m: "u_mnt_path u (us_os s) = (Some m, w)"
    using sysfs_upD(2) [OF assms] by blast
  let ?p = "snprintf SYSFS_PATH_MAX (join_path [m, SYSFS_CLASS_NAME])"
  obtain ns w1 where n: "u_dir_list u ?p w = (Some ns, w1)"
    using sysfs_upD(7) [OF assms] by blast
  obtain r s1 where r: "run_state (search_classes u hc ns) (s\<lparr>us_os := w1\<rparr>) = (r, s1)" by fastforce
  then have r0: "r = 0" using ss [of ns "s\<lparr>us_os := w1\<rparr>"] by simp
  obtain r2 s2 where r2: "run_state (search_class_for_usbip_device u hc SYSFS_BLOCK_NAME) s1 = (r2, s2)" by fastforce
  then have "r2 = 0" using search_class_up [OF assms, of hc SYSFS_BLOCK_NAME s1] by simp
  then show ?thesis using m n r r0 r2 by (simp add: refresh_class_device_list_def)
qed

lemma fill_lists_reads:
  assumes L: "vhci_sysfs u k hk ptr kv hcid hcp" and ok: "status_ok ptr hk c" and c: "c = fst (kv (us_os s))"
    and hc: "sd_path hc = hcp" and d: "us_vhci s = Some d" "uv_nports d \<le> int (length (port_views c))"
      "length (uv_idev d) = MAXNPORT"
    and run: "run_state (fill_lists u hc) s = (r, s')"
  shows "r \<in> {Some 0, Some (- 1)} \<and> (\<exists>d2. us_vhci s' = Some d2 \<and> uv_hc_device d2 = uv_hc_device d \<and>
    uv_nports d2 = uv_nports d \<and> (r = Some 0 \<longrightarrow> vhci_status.agrees c d2)) \<and>
    (sysfs_up u hcid \<and> all_idle c \<longrightarrow> r = Some 0)"
proof -
  have q: "quiet_reads u kv" by (rule vhci_sysfsD(1) [OF L])
  obtain l s1 where s1: "run_state (dlist_new u) s = (l, s1)" by (metis prod.exhaust)
  have v1: "us_vhci s1 = Some d" using s1 d(1) by (auto simp: dlist_new_def split: prod.splits if_splits)
  let ?d1 = "d\<lparr>uv_cdev_list := l\<rparr>"
  let ?s2 = "s1\<lparr>us_vhci := Some ?d1\<rparr>"
  show ?thesis
  proof (cases "l = None")
    case True
    then have "\<not> sysfs_up u hcid" using dlist_new_allocs [OF sysfs_upD(1) s1] by blast
    then show ?thesis using True run s1 v1 by (auto simp: fill_lists_def)
  next
    case False
    obtain r2 s3 where s3: "run_state (refresh_class_device_list u hc) ?s2 = (r2, s3)" by (metis prod.exhaust)
    have view: "drv_view s3 = drv_view ?s2" by (rule keepsD [OF drv_view_refresh s3])
    then obtain d3 where d3: "us_vhci s3 = Some d3" "uv_nports d3 = uv_nports d" "uv_hc_device d3 = uv_hc_device d"
      "uv_idev d3 = uv_idev d"
      by (cases "us_vhci s3") (auto simp: drv_view_def)
    have k: "kv (us_os s3) = kv (us_os s)"
      using keeps_osD [OF keeps_refresh_class [OF q] s3] keeps_osD [OF keeps_dlist(1) [OF q] s1] by simp
    show ?thesis
    proof (cases "r2 = 0")
      case False
      then have "\<not> sysfs_up u hcid" using refresh_class_up [of u hcid hc ?s2] s3 by auto
      then show ?thesis using False run s1 v1 \<open>l \<noteq> None\<close> s3 d3 by (auto simp: fill_lists_def)
    next
      case True
      then have run3: "run_state (refresh_imported_device_list u hc) s3 = (r, s')"
        using run s1 v1 \<open>l \<noteq> None\<close> s3 by (simp add: fill_lists_def)
      obtain at w4 where w4: "u_device_attr u hc ''status'' (us_os s3) = (at, w4)" by (metis prod.exhaust)
      show ?thesis
      proof (cases at)
        case None
        then have "\<not> sysfs_up u hcid" using sysfs_upD(6) [of u hcid hc "''status''" "us_os s3"] w4 by auto
        then show ?thesis using None run3 w4 d3 by (auto simp: refresh_imported_device_list_def)
      next
        case (Some a)
        have v: "at_value a = the (VhciSysfs.show_status ptr hk c)"
          using vhci_sysfsD(4) [OF L hc w4 [unfolded Some]] k c by simp
        have d4: "us_vhci (s3\<lparr>us_os := w4\<rparr>) = Some d3" using d3(1) by simp
        have n: "uv_nports d3 \<le> int (length (port_views c))" "length (uv_idev d3) = MAXNPORT" using d3 d by simp_all
        have "run_state (parse_status u (the (VhciSysfs.show_status ptr hk c))) (s3\<lparr>us_os := w4\<rparr>) = (r, s')"
          using run3 w4 Some v by (simp add: refresh_imported_device_list_def)
        from vhci_status.parse_status_reads [OF ok d4 n this]
        have P: "r \<in> {Some 0, Some (- 1)}" "\<exists>d2. us_vhci s' = Some d2 \<and> uv_hc_device d2 = uv_hc_device d3 \<and>
            uv_nports d2 = uv_nports d3 \<and> (r = Some 0 \<longrightarrow> vhci_status.agrees c d2)"
          "allocs u \<and> (\<forall>p\<in>set (port_views c). fst p \<in> {VDEV_ST_NULL, VDEV_ST_NOTASSIGNED}) \<longrightarrow> r = Some 0"
          by blast+
        have "\<forall>p\<in>set (port_views c). fst p \<in> {VDEV_ST_NULL, VDEV_ST_NOTASSIGNED}" if "all_idle c"
          using that by (auto simp: all_idle_def port_views_def port_view_def dest!: in_set_takeD)
        then show ?thesis using P d3(2,3) sysfs_upD(1) [of u hcid] by auto
      qed
    qed
  qed
qed

lemma driver_open_err_result:
  "us_vhci s \<noteq> None \<Longrightarrow> fst (run_state (driver_open_err u) s) = Some (- 1)"
  by (auto simp: driver_open_err_def split: prod.splits)

text \<open>Opening reads the table: the array agrees with the ports of the kernel, or opening fails; the
  process does not end, and the kernel is left alone.\<close>

lemma driver_open_reads:
  assumes L: "vhci_sysfs u k hk ptr kv hcid hcp" and ok: "status_ok ptr hk (fst (kv (us_os s)))"
    and len: "length (vdevs (fst (kv (us_os s)))) = VHCI_NPORTS"
    and run: "run_state (usbip_vhci_driver_open u) s = (r, s')"
  shows "(r = Some (- 1) \<or> r = Some 0 \<and> (\<exists>d hc. us_vhci s' = Some d \<and> uv_hc_device d = Some hc \<and>
    sd_path hc = hcp \<and> vhci_status.agrees (fst (kv (us_os s))) d \<and> uv_nports d \<le> int VHCI_NPORTS \<and>
    (uv_nports d = int VHCI_NPORTS \<or> (\<exists>w. fst (u_device_attr u hc ''status'' w) = None)))) \<and>
    (sysfs_up u hcid \<and> all_idle (fst (kv (us_os s))) \<longrightarrow> r = Some 0)"
proof -
  have q: "quiet_reads u kv" by (rule vhci_sysfsD(1) [OF L])
  obtain al w1 where w1: "u_calloc u (us_os s) = (al, w1)" by (metis prod.exhaust)
  have k1: "kv w1 = kv (us_os s)" using q w1 unfolding quiet_reads_def by (metis snd_conv)
  obtain mnt w2 where w2: "u_mnt_path u w1 = (mnt, w2)" by (metis prod.exhaust)
  have k2: "kv w2 = kv (us_os s)" using q w2 k1 unfolding quiet_reads_def by (metis snd_conv)
  show ?thesis
  proof (cases al)
    case False
    then have "\<not> sysfs_up u hcid" using w1 sysfs_upD(1) [of u hcid] by (metis allocs_def fst_conv)
    then show ?thesis using False run w1 by (auto simp: usbip_vhci_driver_open_def)
  next
    case al: True
    show ?thesis
    proof (cases mnt)
      case None
      let ?s2 = "s\<lparr>us_vhci := Some zero_vhci_driver, us_os := w2\<rparr>"
      have "run_state (driver_open_err u) ?s2 = (r, s')"
        using run w1 al w2 None by (simp add: usbip_vhci_driver_open_def)
      moreover have "\<not> sysfs_up u hcid" using sysfs_upD(2) [of u hcid w1] w2 None by auto
      ultimately show ?thesis using driver_open_err_result [of ?s2 u] by simp
    next
      case mnt: (Some m)
      let ?d2 = "zero_vhci_driver\<lparr>uv_sysfs_mntpath := m\<rparr>"
      let ?s2 = "s\<lparr>us_os := w2, us_vhci := Some ?d2\<rparr>"
      obtain busid w3 where s3: "run_state (get_hc_busid u m) ?s2 = (busid, ?s2\<lparr>us_os := w3\<rparr>)"
        by (rule os_onlyD [OF os_only_hc_busid])
      have k3: "kv w3 = kv (us_os s)"
      proof -
        have "keeps (kv \<circ> us_os) (get_hc_busid u m)" unfolding get_hc_busid_def by (intro keeps_intros q)
        from keeps_osD [OF this s3] show ?thesis using k2 by simp
      qed
      let ?s3 = "?s2\<lparr>us_os := w3\<rparr>"
      show ?thesis
      proof (cases busid)
        case None
        have "run_state (driver_open_err u) ?s3 = (r, s')"
          using run w1 al w2 mnt s3 None by (simp add: usbip_vhci_driver_open_def)
        moreover have "\<not> sysfs_up u hcid"
        proof
          assume up: "sysfs_up u hcid"
          let ?p = "snprintf SYSFS_PATH_MAX (join_path [m, SYSFS_BUS_NAME, USBIP_VHCI_BUS_TYPE, SYSFS_DRIVERS_NAME, USBIP_VHCI_DRV_NAME])"
          obtain dr wa where dr: "u_open_driver_path u ?p w2 = (Some dr, wa)" using sysfs_upD(3) [OF up] by blast
          obtain x xs wb where "u_driver_devices u dr wa = (Some (x # xs), wb)" using sysfs_upD(4) [OF up] by blast
          with s3 dr None show False by (auto simp: get_hc_busid_def simp del: join_path.simps split: prod.splits)
        qed
        ultimately show ?thesis using driver_open_err_result [of ?s3 u] by simp
      next
        case busid: (Some b)
        have b: "cstr b = hcid"
          using s3 busid vhci_sysfsD(2) [OF L w2 [unfolded mnt]]
          by (auto simp: get_hc_busid_def split: prod.splits option.splits if_splits)
        obtain hc w4 where w4: "u_open_device u USBIP_VHCI_BUS_TYPE (cstr b) w3 = (hc, w4)" by (metis prod.exhaust)
        have k4: "kv w4 = kv (us_os s)" using q w4 k3 unfolding quiet_reads_def by (metis snd_conv)
        let ?d4 = "?d2\<lparr>uv_hc_device := hc\<rparr>"
        let ?s4 = "s\<lparr>us_os := w4, us_vhci := Some ?d4\<rparr>"
        show ?thesis
        proof (cases hc)
          case None
          have "run_state (driver_open_err u) ?s4 = (r, s')"
            using run w1 al w2 mnt s3 busid w4 None by (simp add: usbip_vhci_driver_open_def)
          moreover have "\<not> sysfs_up u hcid" using sysfs_upD(5) [of u hcid w3] w4 None b by auto
          ultimately show ?thesis using driver_open_err_result [of ?s4 u] by simp
        next
          case hcd: (Some hcd)
          have path: "sd_path hcd = hcp" using vhci_sysfsD(3) [OF L] w4 b hcd by simp
          have tail: "run_state (do {
                   n \<leftarrow> get_nports u hcd;
                   upd_vhci (\<lambda>d. d\<lparr>uv_nports := n\<rparr>);
                   andthen (fill_lists u hcd)
                     (\<lambda>rc. if rc \<noteq> 0 then driver_open_err u else ret (Some 0))
                 }) ?s4 = (r, s')"
            using run w1 al w2 mnt s3 busid w4 hcd by (simp add: usbip_vhci_driver_open_def)
          obtain n w5 where n: "run_state (get_nports u hcd) ?s4 = (n, ?s4\<lparr>us_os := w5\<rparr>)"
            by (rule os_onlyD [OF os_only_nports])
          have k5: "kv w5 = kv (us_os s)"
          proof -
            have "keeps (kv \<circ> us_os) (get_nports u hcd)" unfolding get_nports_def by (intro keeps_intros q)
            from keeps_osD [OF this n] show ?thesis using k4 by simp
          qed
          have ports: "length (port_views (fst (kv (us_os s)))) = VHCI_NPORTS" using len by (simp add: port_views_def)
          have le: "n \<le> int VHCI_NPORTS \<and> (n = int VHCI_NPORTS \<or> (\<exists>w. fst (u_device_attr u hcd ''status'' w) = None))"
          proof -
            obtain at w where at: "u_device_attr u hcd ''status'' w4 = (at, w)" by (metis prod.exhaust)
            show ?thesis
            proof (cases at)
              case None
              then show ?thesis using n at by (auto simp: get_nports_def) (metis fst_conv)
            next
              case (Some a)
              have "at_value a = the (VhciSysfs.show_status ptr hk (fst (kv (us_os s))))"
                using vhci_sysfsD(4) [OF L path at [unfolded Some]] k4 by simp
              then show ?thesis
                using n at Some vhci_status.nports_read [OF ok] ports by (auto simp: get_nports_def)
            qed
          qed
          let ?d5 = "?d4\<lparr>uv_nports := n\<rparr>"
          let ?s5 = "s\<lparr>us_os := w5, us_vhci := Some ?d5\<rparr>"
          obtain r6 s6 where s6: "run_state (fill_lists u hcd) ?s5 = (r6, s6)" by (metis prod.exhaust)
          have c5: "fst (kv (us_os s)) = fst (kv (us_os ?s5))" using k5 by simp
          have d5: "us_vhci ?s5 = Some ?d5" "uv_nports ?d5 \<le> int (length (port_views (fst (kv (us_os s)))))"
            "length (uv_idev ?d5) = MAXNPORT"
            using le ports by (simp_all add: zero_vhci_driver_def)
          from fill_lists_reads [OF L ok c5 path d5 s6] obtain d6 where r6: "r6 \<in> {Some 0, Some (- 1)}"
            and d6: "us_vhci s6 = Some d6" "uv_hc_device d6 = Some hcd" "uv_nports d6 = n"
              "r6 = Some 0 \<longrightarrow> vhci_status.agrees (fst (kv (us_os s))) d6"
            and up: "sysfs_up u hcid \<and> all_idle (fst (kv (us_os s))) \<longrightarrow> r6 = Some 0" using hcd by auto
          show ?thesis
          proof (cases "r6 = Some 0")
            case True
            then have "r = Some 0" "s' = s6" using tail n s6 by simp_all
            then show ?thesis using d6 True path le by auto
          next
            case False
            then have "run_state (driver_open_err u) s6 = (r, s')" using tail n s6 r6 by simp
            then show ?thesis using driver_open_err_result [of s6 u] d6(1) up False by auto
          qed
        qed
      qed
    qed
  qed
qed

text \<open>The first free port of the table.\<close>

definition first_free :: "vhci_hcd \<Rightarrow> nat option" where
  "first_free c = find_idx (\<lambda>v. ud_status v = VDEV_ST_NULL) 0 (vdevs c)"

lemma find_idx_cong:
  "length xs = length ys \<Longrightarrow> (\<And>i. i < length xs \<Longrightarrow> P (xs ! i) = Q (ys ! i)) \<Longrightarrow> find_idx P k xs = find_idx Q k ys"
proof (induction xs ys arbitrary: k rule: list_induct2)
  case (Cons x xs y ys)
  from Cons.prems [of 0] have "P x = Q y" by simp
  moreover have "find_idx P (Suc k) xs = find_idx Q (Suc k) ys"
    by (rule Cons.IH) (use Cons.prems [of "Suc _"] in auto)
  ultimately show ?case by simp
qed simp

lemma free_port_first:
  assumes "vhci_status.agrees c d" and "uv_nports d = int VHCI_NPORTS" and "length (vdevs c) = VHCI_NPORTS"
  shows "usbip_vhci_get_free_port d = (case first_free c of None \<Rightarrow> - 1 | Some i \<Rightarrow> int i)"
proof -
  have l: "length (uv_idev d) = MAXNPORT" using assms(1) by (simp add: vhci_status.agrees_def)
  have "find_idx (\<lambda>e. id_status e = vdev_st VDEV_ST_NULL) 0 (take VHCI_NPORTS (uv_idev d)) = first_free c"
    unfolding first_free_def
  proof (rule find_idx_cong)
    show "length (take VHCI_NPORTS (uv_idev d)) = length (vdevs c)"
      using l assms(3) by (simp add: MAXNPORT_def VHCI_NPORTS_def)
    fix i assume "i < length (take VHCI_NPORTS (uv_idev d))"
    then have i: "i < VHCI_NPORTS" by simp
    then have "id_status (uv_idev d ! i) = vdev_st (ud_status (vdevs c ! i))"
      using assms(1,3) by (simp add: vhci_status.agrees_def port_views_def port_view_def)
    then show "(id_status (take VHCI_NPORTS (uv_idev d) ! i) = vdev_st VDEV_ST_NULL) = (ud_status (vdevs c ! i) = VDEV_ST_NULL)"
      using i by (cases "ud_status (vdevs c ! i)") (simp_all add: vdev_st_def)
  qed
  then show ?thesis by (simp add: usbip_vhci_get_free_port_def assms(2))
qed

lemma first_free_Some:
  "first_free c = Some i \<Longrightarrow> i < length (vdevs c) \<and> ud_status (vdevs c ! i) = VDEV_ST_NULL \<and>
     (\<forall>j<i. ud_status (vdevs c ! j) \<noteq> VDEV_ST_NULL)"
  using find_idx_Some [of _ 0 "vdevs c" i] by (auto simp: first_free_def)

definition remote_devid :: "usbip_usb_device \<Rightarrow> u32" where
  "remote_devid udev = ucast (get_devid (ucast (uu_busnum udev)) (ucast (uu_devnum udev)))"

definition usb_speeds :: "u32 set" where
  "usb_speeds = {USB_SPEED_LOW, USB_SPEED_FULL, USB_SPEED_HIGH, USB_SPEED_WIRELESS}"

text \<open>The port that holds a connection: socket, threads and the device behind it.\<close>

definition attached :: "sock \<Rightarrow> thread \<Rightarrow> thread \<Rightarrow> u32 \<Rightarrow> u32 \<Rightarrow> vhci_device \<Rightarrow> vhci_device" where
  "attached sk rx tx dv sp d = d\<lparr>ud_status := VDEV_ST_NOTASSIGNED, tcp_socket := Some sk, tcp_rx := Some rx,
     tcp_tx := Some tx, vd_devid := dv, vd_speed := sp\<rparr>"

text \<open>Writing the file \<open>attach\<close> with the number of a free port.\<close>

lemma store_attach_result:
  assumes "scan_us 4 buf = [of_nat i, fd, dv, sp]" and "i < VHCI_NPORTS" and "ud_status (vdevs c ! i) = VDEV_ST_NULL"
    and "sockfd_to_socket k fd w = (so, w1)" and "kthread_run k w1 = (rx, w2)" and "kthread_run k w2 = (tx, w3)"
    and "store_attach k hk buf n c w = (r, c', w')"
  shows "if so = None \<or> sp \<notin> usb_speeds then r = - 22 \<and> c' = c
    else r = n \<and> vdevs c' = (vdevs c)[i := attached (the so) rx tx dv sp (vdevs c ! i)]"
proof -
  have u: "unat (of_nat i :: u32) = i" using assms(2) by (simp add: VHCI_NPORTS_def unat_of_nat)
  have v: "s32_neg (valid_args (of_nat i) sp) \<longleftrightarrow> sp \<notin> usb_speeds"
    using u assms(2) by (auto simp: valid_args_def usb_speeds_def EINVAL_def)
  show ?thesis
  proof (cases "sp \<in> usb_speeds")
    case False
    then show ?thesis using assms(1,7) v by (simp add: store_attach_def EINVAL_def)
  next
    case True
    show ?thesis
    proof (cases so)
      case None
      then show ?thesis using True assms(1,4,7) v by (simp add: store_attach_def EINVAL_def)
    next
      case (Some sk)
      obtain c2 w4 where p: "rh_port_connect hk i sp (set_vdev i (attached sk rx tx dv sp (vdevs c ! i)) c) w3 = (c2, w4)"
        by fastforce
      then have "vdevs c2 = (vdevs c)[i := attached sk rx tx dv sp (vdevs c ! i)]"
        by (auto simp: rh_port_connect_def upd_port_def set_vdev_def Let_def vhci_fault_def)
      then show ?thesis
        using True Some assms v u p by (simp add: store_attach_def attached_def [symmetric])
    qed
  qed
qed

lemma attach_writes:
  assumes L: "vhci_sysfs u k hk ptr kv hcid hcp" and d: "us_vhci s = Some d" "uv_hc_device d = Some hc" "sd_path hc = hcp"
    and attrs: "\<forall>d n w. sd_path d = hcp \<longrightarrow> fst (u_device_attr u d n w) \<noteq> None"
    and run: "run_state (usbip_vhci_attach_device2 u port sockfd dv speed) s = (r, s')"
  shows "\<exists>n r1 c1 kw1. 0 \<le> n \<and> store_attach k hk (attach_string port (word_of_int sockfd) dv speed) n (fst (kv (us_os s)))
      (snd (kv (us_os s))) = (r1, c1, kw1) \<and> kv (us_os s') = (c1, kw1) \<and> r = Some (if r1 < 0 then - 1 else 0)"
proof -
  have q: "quiet_reads u kv" by (rule vhci_sysfsD(1) [OF L])
  let ?b = "attach_string port (word_of_int sockfd) dv speed"
  obtain a w1 where w1: "u_device_attr u hc ''attach'' (us_os s) = (Some a, w1)"
  proof -
    have "fst (u_device_attr u hc ''attach'' (us_os s)) \<noteq> None" using attrs d(3) by blast
    from fst_SomeD [OF this] show thesis by (elim exE) (rule that)
  qed
  have k1: "kv w1 = kv (us_os s)" using q w1 unfolding quiet_reads_def by (metis snd_conv)
  obtain rc w2 where w2: "u_write_attr u a ?b w1 = (rc, w2)" by (metis prod.exhaust)
  have p: "at_path a = hcp @ ''/attach''" by (rule vhci_sysfsD(5) [OF L d(3) w1])
  obtain r1 c1 kw1 where st: "store_attach k hk ?b (int (length ?b)) (fst (kv w1)) (snd (kv w1)) = (r1, c1, kw1)"
    by (metis prod_cases3)
  have kw: "kv w2 = (c1, kw1)" "rc < 0 \<longleftrightarrow> r1 < 0"
    using vhci_sysfsD(6) [OF L p w2] st by simp_all
  have "r = Some (if rc < 0 then - 1 else 0)" "us_os s' = w2"
    using run w1 w2 d by (auto simp: usbip_vhci_attach_device2_def write_hc_attr_def)
  moreover have "store_attach k hk ?b (int (length ?b)) (fst (kv (us_os s))) (snd (kv (us_os s))) = (r1, c1, kw1)"
    using st unfolding k1 .
  ultimately show ?thesis
    using kw by (intro exI [of _ "int (length ?b)"] exI [of _ r1] exI [of _ c1] exI [of _ kw1]) simp
qed

lemma driver_open_up:
  assumes "vhci_sysfs u k hk ptr kv hcid hcp" and "status_ok ptr hk c" and "kv (us_os s) = (c, kw)"
    and "length (vdevs c) = VHCI_NPORTS"
  shows "sysfs_up u hcid \<and> all_idle c \<longrightarrow> fst (run_state (usbip_vhci_driver_open u) s) = Some 0"
proof -
  obtain r1 s1 where s1: "run_state (usbip_vhci_driver_open u) s = (r1, s1)" by (metis prod.exhaust)
  have k: "fst (kv (us_os s)) = c" using assms(3) by simp
  have "sysfs_up u hcid \<and> all_idle (fst (kv (us_os s))) \<longrightarrow> r1 = Some 0"
    by (rule driver_open_reads [OF assms(1) _ _ s1, THEN conjunct2]) (simp_all add: k assms(2,4))
  then show ?thesis using s1 k by simp
qed

lemma import_attaches:
  assumes L: "vhci_sysfs u k hk ptr kv hcid hcp" and ok: "status_ok ptr hk c"
    and c: "kv (us_os s) = (c, kw)" "length (vdevs c) = VHCI_NPORTS"
    and attrs: "\<forall>d n w. sd_path d = hcp \<longrightarrow> fst (u_device_attr u d n w) \<noteq> None"
    and sock: "sockfd_to_socket k (word_of_int sockfd) kw = (so, w1)"
    and thr: "kthread_run k w1 = (rx, w2)" "kthread_run k w2 = (tx, w3)"
    and run: "run_state (import_device u sockfd udev) s = (r, s')"
  shows "if fst (run_state (usbip_vhci_driver_open u) s) \<noteq> Some 0 \<or> first_free c = None \<or> so = None \<or>
      uu_speed udev \<notin> usb_speeds
    then r = Some (- 1) \<and> fst (kv (us_os s')) = c
    else r = Some (int (the (first_free c))) \<and> vdevs (fst (kv (us_os s'))) = (vdevs c)[the (first_free c) :=
      attached (the so) rx tx (remote_devid udev) (uu_speed udev) (vdevs c ! the (first_free c))]"
proof -
  have q: "quiet_reads u kv" by (rule vhci_sysfsD(1) [OF L])
  obtain r1 s1 where s1: "run_state (usbip_vhci_driver_open u) s = (r1, s1)" by (metis prod.exhaust)
  have k1: "kv (us_os s1) = (c, kw)" using keeps_osD [OF keeps_open [OF q] s1] c(1) by simp
  have "(r1 = Some (- 1) \<or> r1 = Some 0 \<and> (\<exists>d hc. us_vhci s1 = Some d \<and> uv_hc_device d = Some hc \<and>
    sd_path hc = hcp \<and> vhci_status.agrees (fst (kv (us_os s))) d \<and> uv_nports d \<le> int VHCI_NPORTS \<and>
    (uv_nports d = int VHCI_NPORTS \<or> (\<exists>w. fst (u_device_attr u hc ''status'' w) = None)))) \<and>
    (sysfs_up u hcid \<and> all_idle (fst (kv (us_os s))) \<longrightarrow> r1 = Some 0)"
    by (rule driver_open_reads [OF L _ _ s1]) (use ok c in simp_all)
  then have "r1 = Some (- 1) \<or> r1 = Some 0 \<and> (\<exists>d hc. us_vhci s1 = Some d \<and> uv_hc_device d = Some hc \<and>
    sd_path hc = hcp \<and> vhci_status.agrees c d \<and> uv_nports d = int VHCI_NPORTS)"
    using c(1) attrs by (metis fst_conv)
  then consider "r1 = Some (- 1)" | d hc where "r1 = Some 0" "us_vhci s1 = Some d" "uv_hc_device d = Some hc"
    "sd_path hc = hcp" "vhci_status.agrees c d" "uv_nports d = int VHCI_NPORTS" by blast
  then show ?thesis
  proof cases
    case 1
    then have "r = Some (- 1)" "s' = s1" using run s1 by (auto simp: import_device_def)
    then show ?thesis using k1 s1 1 by simp
  next
    case 2
    note port = free_port_first [OF 2(5,6) c(2)]
    obtain s2 where cl: "run_state (usbip_vhci_driver_close u) s1 = ((), s2)" by (metis old.unit.exhaust prod.exhaust)
    have k2: "kv (us_os s2) = (c, kw)" using keeps_osD [OF keeps_close [OF q] cl] k1 by simp
    show ?thesis
    proof (cases "first_free c")
      case None
      then have "r = Some (- 1)" "s' = s2" using run s1 2(1,2) cl port by (auto simp: import_device_def)
      then show ?thesis using k2 None by simp
    next
      case (Some i)
      then have i: "i < VHCI_NPORTS" "usbip_vhci_get_free_port d = int i" "ud_status (vdevs c ! i) = VDEV_ST_NULL"
        using first_free_Some [OF Some] c(2) port by auto
      let ?A = "usbip_vhci_attach_device2 u (word_of_int (int i)) sockfd (remote_devid udev) (uu_speed udev)"
      obtain r3 s3 where s3: "run_state ?A s1 = (r3, s3)" by (metis prod.exhaust)
      obtain s4 where s4: "run_state (usbip_vhci_driver_close u) s3 = ((), s4)" by (metis old.unit.exhaust prod.exhaust)
      have k4: "kv (us_os s4) = kv (us_os s3)" by (rule keeps_osD [OF keeps_close [OF q] s4])
      from attach_writes [OF L 2(2,3,4) attrs s3] obtain n r5 c5 kw5 where
        a: "store_attach k hk (attach_string (word_of_int (int i)) (word_of_int sockfd) (remote_devid udev) (uu_speed udev)) n c kw =
            (r5, c5, kw5)"
          and b: "0 \<le> n" "kv (us_os s3) = (c5, kw5)" "r3 = Some (if r5 < 0 then - 1 else 0)"
        unfolding k1 by auto
      have r: "r = Some (if r5 < 0 then - 1 else int i)" "s' = s4"
        using run s1 2(1,2) i(2) s3 s4 b(3)
        by (auto simp: import_device_def usbip_vhci_attach_device_def remote_devid_def split: if_splits)
      have p: "(ucast (word_of_int (int i) :: u8) :: u32) = of_nat i"
        using i(1) by (simp add: VHCI_NPORTS_def unsigned_of_nat take_bit_nat_eq_self)
      have sc: "scan_us 4 (attach_string (word_of_int (int i)) (word_of_int sockfd) (remote_devid udev) (uu_speed udev)) =
          [of_nat i, word_of_int sockfd, remote_devid udev, uu_speed udev]"
        unfolding attach_string_read p by (rule refl)
      show ?thesis
        using store_attach_result [OF sc i(1,3) sock thr a] r k4 b s1 2(1) Some by (auto split: if_splits)
    qed
  qed
qed

section \<open>Properties\<close>

lemma sim_vhci_sysfs:
  "vhci_sysfs sim_u sim_k sim_hc sim_ptr (\<lambda>w. (si_vhci w, sim0)) ''vhci_hcd'' ''/sys/vhci_hcd''"
proof -
  have p: "snprintf SYSFS_PATH_MAX (join_path [''/sys'', SYSFS_BUS_NAME, USBIP_VHCI_BUS_TYPE, SYSFS_DRIVERS_NAME,
      USBIP_VHCI_DRV_NAME]) = ''/sys/bus/platform/drivers/vhci_hcd''"
    by (simp add: snprintf_def SYSFS_PATH_MAX_def SYSFS_BUS_NAME_def USBIP_VHCI_BUS_TYPE_def SYSFS_DRIVERS_NAME_def
        USBIP_VHCI_DRV_NAME_def)
  have c: "take SYSFS_BUS_ID_SIZE (cstr ''vhci_hcd'') = ''vhci_hcd''" by code_simp
  have st: "snd (snd (store_attach sim_k sim_hc buf n cc sim0)) = sim0" for buf n cc
    by (simp add: store_attach_def Let_def sockfd_to_socket_def rh_port_connect_def sim_hc_def split: prod.splits)
  have w: "case store_attach sim_k sim_hc buf (int (length buf)) (si_vhci w) sim0 of (r1, c1, kw1) \<Rightarrow>
      (si_vhci w1, sim0) = (c1, kw1) \<and> (r < 0 \<longleftrightarrow> r1 < 0)"
    if "usim_write a buf w = (r, w1)" "at_path a = ''/sys/vhci_hcd/attach''" for a buf w r w1
    using that st [of buf "int (length buf)" "si_vhci w"]
    by (auto simp: usim_write_def split: prod.splits if_splits)
  show ?thesis
    unfolding vhci_sysfs_def
    by (intro conjI allI impI)
      (use w in \<open>auto simp: quiet_reads_def p c usim_dev_def usim_attr_def usim_value_def simp del: join_path.simps split: if_splits\<close>)
qed

lemma hcd_demo_ports: "length (vdevs hcd_demo) = VHCI_NPORTS" "length (port_status hcd_demo) = VHCI_NPORTS"
  by (simp_all add: hcd_demo_eq new_hcd_def VHCI_NPORTS_def)

lemma hcd_demo_status: "status_ok ptr hk hcd_demo"
  by (auto simp: status_ok_def hcd_demo_eq new_hcd_def vdev_demo_def dest!: in_set_takeD)

text \<open>The world of the witnesses: the controller's files, and its driver loaded.\<close>

lemma sim_sysfs_up: "sysfs_up sim_u hcid"
  by (simp add: sysfs_up_def allocs_def)

definition attach_demo :: "usim ustate" where
  "attach_demo = \<lparr>us_os = \<lparr>si_in = [], si_out = [], si_vhci = hcd_demo, si_busids = []\<rparr>,
     us_vhci = None, us_host = None, us_next = 0, us_live = [], us_fault = False\<rparr>"

definition camera :: usbip_usb_device where
  "camera = zero_udev\<lparr>uu_busnum := 1, uu_devnum := 5, uu_speed := 3\<rparr>"


lemma hcd_demo_idle: "all_idle hcd_demo" "first_free hcd_demo = Some 0"
  by (auto simp: all_idle_def first_free_def hcd_demo_eq new_hcd_def vdev_demo_def upt_conv_Cons)


end
