(* ===== verification/Ptp.thy ===== *)
theory Ptp
  imports Kernel Effects
begin

text \<open>
  The filter driver for PTP cameras (\<^verbatim>\<open>filter_ptp.c\<close>): its state, and the parser that follows the
  containers of the protocol in the urbs and rewrites their transaction numbers. The filter asks a
  camera for preview frames before the client does and serves the client from a buffer of frames.

  Urbs are named by the address of the \<open>stub_priv\<close> they belong to, which also names them in the
  queues. Fields of the state with no counterpart in C: \<open>pf_held\<close>, whether the spin lock of the filter is taken;
  \<open>pf_hang\<close>, set when it is taken a second time or a loop does not end, so that the processor is
  lost; \<open>pf_oops\<close>, set where the code divides by zero, follows a null pointer or leaves a buffer;
  \<open>pf_given\<close>, the requests given back to the stub driver; \<open>pf_flight\<close>, the requests whose urbs the USB core
  has; \<open>pf_next\<close>, the next unused address. The functions of \<^verbatim>\<open>stub_rx.c\<close> and \<^verbatim>\<open>stub_tx.c\<close> the
  filter calls, memory and the clock are the fields of \<open>papi\<close>.
\<close>

section \<open>States\<close>

datatype ptp_filter_state =
    ptpfs_init | ptpfs_bypassed | ptpfs_idle | ptpfs_command | ptpfs_active
  | ptpfs_busy | ptpfs_wait | ptpfs_drop | ptpfs_sleep | ptpfs_sleep_wait

primrec ptpfs_num :: "ptp_filter_state \<Rightarrow> nat" where
  "ptpfs_num ptpfs_init = 0"
| "ptpfs_num ptpfs_bypassed = 1"
| "ptpfs_num ptpfs_idle = 2"
| "ptpfs_num ptpfs_command = 3"
| "ptpfs_num ptpfs_active = 4"
| "ptpfs_num ptpfs_busy = 5"
| "ptpfs_num ptpfs_wait = 6"
| "ptpfs_num ptpfs_drop = 7"
| "ptpfs_num ptpfs_sleep = 8"
| "ptpfs_num ptpfs_sleep_wait = 9"

lemma ptpfs_num_inj: "ptpfs_num a = ptpfs_num b \<Longrightarrow> a = b"
  by (cases a; cases b) simp_all

text \<open>The code compares states by their numbers.\<close>

instantiation ptp_filter_state :: linorder
begin

definition less_eq_ptp_filter_state :: "ptp_filter_state \<Rightarrow> ptp_filter_state \<Rightarrow> bool" where
  "less_eq_ptp_filter_state a b \<longleftrightarrow> ptpfs_num a \<le> ptpfs_num b"

definition less_ptp_filter_state :: "ptp_filter_state \<Rightarrow> ptp_filter_state \<Rightarrow> bool" where
  "less_ptp_filter_state a b \<longleftrightarrow> ptpfs_num a < ptpfs_num b"

instance
  by standard (auto simp: less_eq_ptp_filter_state_def less_ptp_filter_state_def intro: ptpfs_num_inj)

end

lemmas ptpfs_order = less_eq_ptp_filter_state_def less_ptp_filter_state_def

datatype ptp_parser_state =
  ptpps_none | ptpps_data | ptpps_response | ptpps_command | ptpps_unkonwn | ptpps_wait_response

record PTPUSBBulkHeader =
  ph_length :: u32
  ph_type :: u16
  ph_code :: u16
  ph_trans_id :: u32

record ptp_state_machine =
  sm_state :: ptp_parser_state
  sm_size :: u32
  sm_ptpdu :: PTPUSBBulkHeader

text \<open>The four parsers: of what goes back to the client, of what comes from it, of the frames the
  filter asked for, and of what is sent to the camera.\<close>

datatype ptp_machine = M_tx | M_rx | M_self | M_send

text \<open>Queues of requests; \<open>Q_init\<close> is the list \<open>priv_init\<close> of the stub driver.\<close>

datatype ptp_queue = Q_init | Q_client | Q_request | Q_free | Q_busy

datatype ptp_completion = Stub_complete | Ptp_data_complete | Ptp_cmd_complete

text \<open>Where the transfer buffer of a urb is: an allocation of its own, a place in the frame buffer, or
  the copy of the command that asks for a frame.\<close>

datatype ptp_buf = Own "byte list" | Frame int | Trigger

record ptp_urb =
  pu_pipe :: pipe
  pu_buf :: ptp_buf
  pu_length :: u32
  pu_actual :: u32
  pu_status :: s32
  pu_complete :: ptp_completion

record PTPDeviceInfo =
  di_StandardVersion :: u16
  di_VendorExtensionID :: u32
  di_VendorExtensionVersion :: u16

record 'w ptp_filter =
  pf_state :: ptp_filter_state
  pf_info :: PTPDeviceInfo
  trigger_pdu :: "usbip_header option"
  trigger_ptpdu :: "byte list option"
  trigger_jiffies :: u64
  frame_count :: s32
  frame_serving :: bool
  in_pipe :: pipe
  out_pipe :: pipe
  out_pipe_size :: u32
  frame_buffer :: "byte list option"
  frame_head :: int
  frame_tail :: int
  frame_length :: u32
  frame_pdu_end :: bool
  frame_rx_length :: u32
  frame_rx_pdu_end :: bool
  frame_buffer_size :: int
  frame_rx_tail :: int
  frame_rx_tail2 :: int
  pf_trans_id :: u32
  rx_trans_id :: u32
  frame_serving_urb :: "addr option"
  pf_machine :: "ptp_machine \<Rightarrow> ptp_state_machine"
  pf_queue :: "ptp_queue \<Rightarrow> addr list"
  pf_urb :: "addr \<Rightarrow> ptp_urb"
  pf_timer :: "u64 option"
  pf_held :: bool
  pf_hang :: bool
  pf_oops :: bool
  pf_given :: "addr list"
  pf_flight :: "addr list"
  pf_next :: addr
  pf_world :: 'w

record 'w papi =
  pa_kmalloc :: "'w \<Rightarrow> bool \<times> 'w"
  pa_jiffies :: "'w \<Rightarrow> u64 \<times> 'w"
  pa_submit :: "addr \<Rightarrow> ptp_urb \<Rightarrow> byte list \<Rightarrow> 'w \<Rightarrow> 'w"
  pa_complete :: "addr \<Rightarrow> ptp_urb \<Rightarrow> byte list \<Rightarrow> 'w \<Rightarrow> 'w"
  pa_build :: "usbip_header \<Rightarrow> byte list \<Rightarrow> 'w \<Rightarrow> ptp_urb option \<times> 'w"
  pa_free :: "addr \<Rightarrow> 'w \<Rightarrow> 'w"
  pa_frame_jiffies :: u32
  pa_buffer_count :: u32

text \<open>Constants of \<^verbatim>\<open>ptp.h\<close> and of the filter.\<close>

definition sizeof_bulk_header :: nat where "sizeof_bulk_header = 12"
definition PTP_USB_CONTAINER_COMMAND :: u16 where "PTP_USB_CONTAINER_COMMAND = 1"
definition PTP_USB_CONTAINER_DATA :: u16 where "PTP_USB_CONTAINER_DATA = 2"
definition PTP_USB_CONTAINER_RESPONSE :: u16 where "PTP_USB_CONTAINER_RESPONSE = 3"
definition PTP_VENDOR_CANON :: u32 where "PTP_VENDOR_CANON = 0xB"
definition PTP_OC_GetDeviceInfo :: u16 where "PTP_OC_GetDeviceInfo = 0x1001"
definition PTP_OC_OpenSession :: u16 where "PTP_OC_OpenSession = 0x1002"
definition PTP_OC_CloseSession :: u16 where "PTP_OC_CloseSession = 0x1003"
definition PTP_OC_CANON_EOS_GetViewFinderData :: u16 where "PTP_OC_CANON_EOS_GetViewFinderData = 0x9153"
definition PTP_RC_OK :: u16 where "PTP_RC_OK = 0x2001"
definition ptp_framebuf_full_size :: int where "ptp_framebuf_full_size = 1048576"
definition PTP_FREE_URB_COUNT :: nat where "PTP_FREE_URB_COUNT = 2"

lemmas ptp_defs = PTP_USB_CONTAINER_COMMAND_def PTP_USB_CONTAINER_DATA_def PTP_USB_CONTAINER_RESPONSE_def
  PTP_VENDOR_CANON_def PTP_OC_GetDeviceInfo_def PTP_OC_OpenSession_def PTP_OC_CloseSession_def
  PTP_OC_CANON_EOS_GetViewFinderData_def PTP_RC_OK_def

definition get_bulk_header :: "byte list \<Rightarrow> PTPUSBBulkHeader" where
  "get_bulk_header bs =
     \<lparr>ph_length = word_le32 (slice 0 4 bs), ph_type = word_le16 (slice 4 2 bs),
      ph_code = word_le16 (slice 6 2 bs), ph_trans_id = word_le32 (slice 8 4 bs)\<rparr>"

section \<open>Primitive operations\<close>

definition crash :: "('w ptp_filter, unit) state" where
  "crash = modify (\<lambda>s. s\<lparr>pf_oops := True\<rparr>)"

definition stuck :: "('w ptp_filter, unit) state" where
  "stuck = modify (\<lambda>s. s\<lparr>pf_hang := True\<rparr>)"

text \<open>Taking the lock a second time never returns. Here it sets \<open>pf_hang\<close>, which nothing resets, and what the
  model does afterwards does not happen: a statement on what becomes of an operation is one about
  runs that leave \<open>pf_hang\<close> alone.\<close>

definition spin_lock :: "('w ptp_filter, unit) state" where
  "spin_lock = modify (\<lambda>s. if pf_held s then s\<lparr>pf_hang := True\<rparr> else s\<lparr>pf_held := True\<rparr>)"

definition spin_unlock :: "('w ptp_filter, unit) state" where
  "spin_unlock = modify (\<lambda>s. s\<lparr>pf_held := False\<rparr>)"

definition outside :: "('w \<Rightarrow> 'a \<times> 'w) \<Rightarrow> ('w ptp_filter, 'a) state" where
  "outside f = State (\<lambda>s. case f (pf_world s) of (a, w) \<Rightarrow> (a, s\<lparr>pf_world := w\<rparr>))"

definition upd_urb :: "addr \<Rightarrow> (ptp_urb \<Rightarrow> ptp_urb) \<Rightarrow> ('w ptp_filter, unit) state" where
  "upd_urb pid f = modify (\<lambda>s. s\<lparr>pf_urb := (pf_urb s)(pid := f (pf_urb s pid))\<rparr>)"

definition upd_machine :: "ptp_machine \<Rightarrow> (ptp_state_machine \<Rightarrow> ptp_state_machine) \<Rightarrow> ('w ptp_filter, unit) state" where
  "upd_machine m f = modify (\<lambda>s. s\<lparr>pf_machine := (pf_machine s)(m := f (pf_machine s m))\<rparr>)"

definition all_queues :: "(ptp_queue \<Rightarrow> addr list) \<Rightarrow> addr list" where
  "all_queues qs = qs Q_init @ qs Q_client @ qs Q_request @ qs Q_free @ qs Q_busy"

text \<open>\<open>list_move_tail\<close>: out of the list the request is in, to the end of \<open>q\<close>. A request in none of these
  lists was handed to the sender, which frees it; it is linked in all the same, and touching it is
  an error.\<close>

definition move_queues :: "addr \<Rightarrow> ptp_queue \<Rightarrow> (ptp_queue \<Rightarrow> addr list) \<Rightarrow> ptp_queue \<Rightarrow> addr list" where
  "move_queues pid q qs = (\<lambda>x. remove1 pid (qs x) @ (if x = q then [pid] else []))"

definition list_move_tail :: "addr \<Rightarrow> ptp_queue \<Rightarrow> ('w ptp_filter, unit) state" where
  "list_move_tail pid q = modify (\<lambda>s. s\<lparr>pf_queue := move_queues pid q (pf_queue s),
     pf_oops := pf_oops s \<or> pid \<notin> set (all_queues (pf_queue s))\<rparr>)"

text \<open>The bytes behind the transfer buffer of a urb.\<close>

definition urb_bytes :: "'w ptp_filter \<Rightarrow> addr \<Rightarrow> byte list" where
  "urb_bytes s pid =
     (case pu_buf (pf_urb s pid) of
        Own bs \<Rightarrow> bs
      | Frame o' \<Rightarrow> drop (nat o') (case frame_buffer s of None \<Rightarrow> [] | Some bs \<Rightarrow> bs)
      | Trigger \<Rightarrow> (case trigger_ptpdu s of None \<Rightarrow> [] | Some bs \<Rightarrow> bs))"

definition set_urb_bytes :: "addr \<Rightarrow> byte list \<Rightarrow> 'w ptp_filter \<Rightarrow> 'w ptp_filter" where
  "set_urb_bytes pid bs s =
     (case pu_buf (pf_urb s pid) of
        Own _ \<Rightarrow> s\<lparr>pf_urb := (pf_urb s)(pid := (pf_urb s pid)\<lparr>pu_buf := Own bs\<rparr>)\<rparr>
      | Frame o' \<Rightarrow> s\<lparr>frame_buffer := map_option (\<lambda>b. take (nat o') b @ bs) (frame_buffer s)\<rparr>
      | Trigger \<Rightarrow> s\<lparr>trigger_ptpdu := map_option (\<lambda>_. bs) (trigger_ptpdu s)\<rparr>)"

text \<open>Reading at a pointer into the transfer buffer; \<open>None\<close> is an access outside of it.\<close>

definition peek :: "addr \<Rightarrow> int \<Rightarrow> nat \<Rightarrow> ('w ptp_filter, byte list option) state" where
  "peek pid off n = do {
     bs \<leftarrow> gets (\<lambda>s. urb_bytes s pid);
     if 0 \<le> off \<and> nat off + n \<le> length bs then ret (Some (slice (nat off) n bs))
     else do { crash; ret None }
   }"

text \<open>Writing a transaction number there, little-endian as it travels.\<close>

definition poke32 :: "addr \<Rightarrow> int \<Rightarrow> u32 \<Rightarrow> ('w ptp_filter, unit) state" where
  "poke32 pid off v = modify (\<lambda>s. set_urb_bytes pid (overwrite (nat off) (bytes_le32 v) (urb_bytes s pid)) s)"

section \<open>Changing the state\<close>

definition del_timer :: "('w ptp_filter, unit) state" where
  "del_timer = modify (\<lambda>s. s\<lparr>pf_timer := None\<rparr>)"

definition mod_timer :: "u64 \<Rightarrow> ('w ptp_filter, unit) state" where
  "mod_timer j = modify (\<lambda>s. s\<lparr>pf_timer := Some j\<rparr>)"

text \<open>Requests of the filter itself that wait are put back on the free list.\<close>

primrec park_commands :: "addr list \<Rightarrow> ('w ptp_filter, unit) state" where
  "park_commands [] = ret ()"
| "park_commands (pid # pids) = do {
     c \<leftarrow> gets (\<lambda>s. pu_complete (pf_urb s pid));
     (if c = Ptp_cmd_complete then list_move_tail pid Q_free else ret ());
     park_commands pids
   }"

definition set_state :: "ptp_filter_state \<Rightarrow> ('w ptp_filter, unit) state" where
  "set_state st = modify (\<lambda>s. s\<lparr>pf_state := st\<rparr>)"

definition ptp_change_state :: "bool \<Rightarrow> ptp_filter_state \<Rightarrow> ('w ptp_filter, unit) state" where
  "ptp_change_state lk st = do {
     (if lk then spin_lock else ret ());
     cur \<leftarrow> gets pf_state;
     (if st < ptpfs_active \<and> ptpfs_active \<le> cur then del_timer
      else if st = ptpfs_sleep then do {
        rq \<leftarrow> gets (\<lambda>s. pf_queue s Q_request);
        park_commands rq;
        del_timer
      }
      else ret ());
     set_state st;
     (if lk then spin_unlock else ret ())
   }"

text \<open>\<open>ptp_bypass\<close> with the lock taken, and \<open>ptp_bypass1\<close> without.\<close>

definition ptp_bypass :: "('w ptp_filter, unit) state" where
  "ptp_bypass = do { ptp_change_state False ptpfs_bypassed; spin_unlock }"

definition ptp_bypass1 :: "('w ptp_filter, unit) state" where
  "ptp_bypass1 = do { spin_lock; ptp_bypass }"

section \<open>The parser\<close>

text \<open>A command that opens or closes a session. The lock is taken and not released.\<close>

definition new_session :: "u16 \<Rightarrow> ('w ptp_filter, unit) state" where
  "new_session code = do {
     spin_lock;
     (if code = PTP_OC_OpenSession then modify (\<lambda>s. s\<lparr>pf_trans_id := 0\<rparr>) else ret ());
     ptp_change_state False ptpfs_idle
   }"

definition ptp_check_new_session :: "ptp_machine \<Rightarrow> ('w ptp_filter, unit) state" where
  "ptp_check_new_session m = (if m \<noteq> M_rx then ret () else do {
     h \<leftarrow> gets (\<lambda>s. sm_ptpdu (pf_machine s m));
     if ph_type h = PTP_USB_CONTAINER_COMMAND \<and> (ph_code h = PTP_OC_OpenSession \<or> ph_code h = PTP_OC_CloseSession)
     then new_session (ph_code h) else ret ()
   })"

text \<open>The transaction number in the header at \<open>off\<close>. The client's number is kept as it travels and
  restored the same way.\<close>

definition rewrite_trans_id :: "ptp_machine \<Rightarrow> addr \<Rightarrow> int \<Rightarrow> u32 \<Rightarrow> ('w ptp_filter, unit) state" where
  "rewrite_trans_id m pid off tid =
     (case m of
        M_rx \<Rightarrow> do {
          modify (\<lambda>s. s\<lparr>rx_trans_id := tid\<rparr>);
          t \<leftarrow> gets pf_trans_id;
          poke32 pid (off + 8) t
        }
      | M_tx \<Rightarrow> do { t \<leftarrow> gets rx_trans_id; poke32 pid (off + 8) t }
      | M_send \<Rightarrow> do { t \<leftarrow> gets pf_trans_id; poke32 pid (off + 8) t }
      | M_self \<Rightarrow> ret ())"

text \<open>The variables of the loop: the pointer \<open>data\<close> as an offset, \<open>length\<close>, \<open>done\<close>, and whether the
  function has returned.\<close>

record parse_regs =
  pr_off :: int
  pr_len :: u32
  pr_done :: bool
  pr_ret :: bool

definition phase_of :: "u16 \<Rightarrow> ptp_parser_state" where
  "phase_of ty =
     (if ty = PTP_USB_CONTAINER_COMMAND then ptpps_command
      else if ty = PTP_USB_CONTAINER_RESPONSE then ptpps_response
      else if ty = PTP_USB_CONTAINER_DATA then ptpps_data
      else ptpps_unkonwn)"

text \<open>A header; \<open>None\<close> is the return of the function.\<close>

definition parse_header :: "ptp_machine \<Rightarrow> addr \<Rightarrow> parse_regs \<Rightarrow> ('w ptp_filter, parse_regs option) state" where
  "parse_header m pid r =
     (if pr_len r < of_nat sizeof_bulk_header then do { ptp_bypass1; ret None }
      else do {
        bs \<leftarrow> peek pid (pr_off r) sizeof_bulk_header;
        case bs of
          None \<Rightarrow> ret None
        | Some b \<Rightarrow> do {
            upd_machine m (\<lambda>x. x\<lparr>sm_ptpdu := get_bulk_header b\<rparr>);
            ptp_check_new_session m;
            rewrite_trans_id m pid (pr_off r) (ph_trans_id (get_bulk_header b));
            upd_machine m (\<lambda>x. x\<lparr>sm_state := phase_of (ph_type (get_bulk_header b)), sm_size := of_nat sizeof_bulk_header\<rparr>);
            if phase_of (ph_type (get_bulk_header b)) = ptpps_unkonwn then do { ptp_bypass1; ret None }
            else ret (Some (r\<lparr>pr_off := pr_off r + int sizeof_bulk_header, pr_len := pr_len r - of_nat sizeof_bulk_header\<rparr>))
          }
      })"

text \<open>The rest of a container, or as much of it as there is. The offset is an \<open>unsigned\<close>: it does
  not become negative when the pointer is advanced by it. Pointers are those of a 64-bit kernel, so that
  advancing one by up to \<open>2^32\<close> does not wrap round.\<close>

definition parse_payload :: "ptp_machine \<Rightarrow> addr \<Rightarrow> parse_regs \<Rightarrow> ('w ptp_filter, parse_regs) state" where
  "parse_payload m pid r = do {
     x \<leftarrow> gets (\<lambda>s. pf_machine s m);
     if pr_len r + sm_size x < ph_length (sm_ptpdu x) then do {
       upd_machine m (\<lambda>x. x\<lparr>sm_size := sm_size x + pr_len r\<rparr>);
       ret (r\<lparr>pr_len := 0\<rparr>)
     }
     else
       let offset = ph_length (sm_ptpdu x) - sm_size x;
           r1 = r\<lparr>pr_off := pr_off r + uint offset, pr_len := pr_len r - offset\<rparr>
       in if sm_state x = ptpps_response then do {
            upd_machine m (\<lambda>x. x\<lparr>sm_state := ptpps_none\<rparr>);
            srv \<leftarrow> gets frame_serving_urb;
            (if m \<noteq> M_rx \<and> srv \<noteq> Some pid then modify (\<lambda>s. s\<lparr>pf_trans_id := pf_trans_id s + 1\<rparr>) else ret ());
            ret (r1\<lparr>pr_done := True\<rparr>)
          }
          else do {
            upd_machine m (\<lambda>x. x\<lparr>sm_state := ptpps_wait_response\<rparr>);
            ret r1
          }
   }"

definition parse_round :: "ptp_machine \<Rightarrow> addr \<Rightarrow> parse_regs \<Rightarrow> ('w ptp_filter, parse_regs) state" where
  "parse_round m pid r = do {
     st \<leftarrow> gets (\<lambda>s. sm_state (pf_machine s m));
     if st = ptpps_wait_response \<or> st = ptpps_none then do {
       r1 \<leftarrow> parse_header m pid r;
       case r1 of
         None \<Rightarrow> ret (r\<lparr>pr_done := False, pr_ret := True\<rparr>)
       | Some r2 \<Rightarrow> parse_payload m pid r2
     }
     else parse_payload m pid r
   }"

definition parse_loop :: "ptp_machine \<Rightarrow> addr \<Rightarrow> parse_regs \<Rightarrow> ('w ptp_filter, parse_regs option) state" where
  "parse_loop m pid r = loop (\<lambda>r. pr_len r \<noteq> 0 \<and> \<not> pr_ret r) (parse_round m pid) r"

definition ptp_parse :: "ptp_machine \<Rightarrow> addr \<Rightarrow> ('w ptp_filter, bool) state" where
  "ptp_parse m pid = do {
     u \<leftarrow> gets (\<lambda>s. pf_urb s pid);
     r \<leftarrow> parse_loop m pid
            \<lparr>pr_off = 0, pr_len = (if usb_pipein (pu_pipe u) then pu_actual u else pu_length u),
             pr_done = False, pr_ret = False\<rparr>;
     case r of
       None \<Rightarrow> do { stuck; ret False }
     | Some r1 \<Rightarrow> ret (pr_done r1)
   }"

text \<open>\<open>ptp_check_preview\<close>: the command that asks for a preview frame.\<close>

definition ptp_check_preview :: "addr \<Rightarrow> ('w ptp_filter, bool) state" where
  "ptp_check_preview pid = do {
     v \<leftarrow> gets (\<lambda>s. di_VendorExtensionID (pf_info s));
     if v = PTP_VENDOR_CANON then do {
       c \<leftarrow> peek pid 6 2;
       case c of
         None \<Rightarrow> ret False
       | Some b \<Rightarrow> ret (word_le16 b = PTP_OC_CANON_EOS_GetViewFinderData)
     }
     else ret False
   }"

text \<open>\<open>ptp_get_device_info\<close>, which looks for the vendor in the answer of the camera; its call is
  commented out. The payload is indexed byte by byte, so each number it reads is one byte.\<close>

definition ptp_get_device_info :: "addr \<Rightarrow> ('w ptp_filter, int) state" where
  "ptp_get_device_info pid = do {
     u \<leftarrow> gets (\<lambda>s. pf_urb s pid);
     if pu_actual u < 20 then ret 0
     else do {
       b \<leftarrow> peek pid 0 20;
       case b of
         None \<Rightarrow> ret 0
       | Some bs \<Rightarrow>
           if ph_type (get_bulk_header bs) \<noteq> PTP_USB_CONTAINER_DATA \<or> ph_code (get_bulk_header bs) \<noteq> PTP_OC_GetDeviceInfo
           then ret 0
           else do {
             modify (\<lambda>s. s\<lparr>pf_info := \<lparr>di_StandardVersion = ucast (bs ! 12), di_VendorExtensionID = ucast (bs ! 14),
               di_VendorExtensionVersion = ucast (bs ! 18)\<rparr>\<rparr>);
             v \<leftarrow> gets (\<lambda>s. di_VendorExtensionID (pf_info s));
             (if v = PTP_VENDOR_CANON then ptp_change_state True ptpfs_idle
              else ptp_change_state True ptpfs_bypassed);
             ret 0
           }
     }
   }"

end
