(* ===== verification/PtpFilter.thy ===== *)
theory PtpFilter
  imports Ptp Stub
begin

text \<open>
  The work of the PTP filter (\<^verbatim>\<open>filter_ptp.c\<close>): submitting requests to the camera (\<open>ptp_produce\<close>),
  serving the client from the buffer of frames (\<open>ptp_consume\<close>), the timer, the completion handlers,
  and the two entry points of a filter, \<open>ptp_on_rx\<close> and \<open>ptp_on_tx\<close>.
\<close>

section \<open>The buffer of frames\<close>

definition ptp_framebuf_align :: "int \<Rightarrow> int" where
  "ptp_framebuf_align pt = (if pt mod 64 \<noteq> 0 then (pt div 64 + 1) * 64 else pt)"

definition to_end_count :: "int \<Rightarrow> int \<Rightarrow> int \<Rightarrow> int" where
  "to_end_count head tail sz = (if head \<ge> tail then head - tail else sz - tail)"

definition to_end_space :: "int \<Rightarrow> int \<Rightarrow> int \<Rightarrow> int" where
  "to_end_space head tail sz = (if head \<ge> tail then sz - head else tail - head)"

definition framebuf_space :: "int \<Rightarrow> int \<Rightarrow> int \<Rightarrow> int" where
  "framebuf_space head tail sz = (if head \<ge> tail then sz - head + tail else tail - head)"

text \<open>\<open>ptp_framebuf_next\<close>, which nothing calls.\<close>

definition ptp_framebuf_next :: "int \<Rightarrow> int \<Rightarrow> int \<Rightarrow> int" where
  "ptp_framebuf_next sz pt n = ptp_framebuf_align ((pt + n) mod sz)"

text \<open>\<open>PTP_TRANSFER_LENGTH\<close>: a multiple of the packet size. Dividing by a packet size of zero is an error of
  the processor.\<close>

definition transfer_length :: "u32 \<Rightarrow> ('w ptp_filter, u32) state" where
  "transfer_length n = do {
     p \<leftarrow> gets out_pipe_size;
     (if p = 0 then crash else ret ());
     ret (n div p * p)
   }"

section \<open>Submitting requests\<close>

definition requeue :: "bool \<Rightarrow> addr \<Rightarrow> ptp_queue \<Rightarrow> ('w ptp_filter, unit) state" where
  "requeue pending pid q = (if pending then ret () else list_move_tail pid q)"

definition stub_submit :: "'w papi \<Rightarrow> addr \<Rightarrow> ('w ptp_filter, unit) state" where
  "stub_submit k pid = modify (\<lambda>s. s\<lparr>pf_flight := pf_flight s @ [pid],
     pf_world := pa_submit k pid (pf_urb s pid) (urb_bytes s pid) (pf_world s)\<rparr>)"

text \<open>The macro \<open>ptp_submit_urb\<close>.\<close>

definition ptp_submit_urb :: "'w papi \<Rightarrow> bool \<Rightarrow> addr \<Rightarrow> ('w ptp_filter, int) state" where
  "ptp_submit_urb k pending pid = do {
     c \<leftarrow> gets (\<lambda>s. pu_complete (pf_urb s pid));
     (if pending then list_move_tail pid (if c = Stub_complete then Q_init else Q_busy) else ret ());
     upd_urb pid (\<lambda>u. u\<lparr>pu_actual := 0, pu_status := 0\<rparr>);
     spin_unlock;
     p \<leftarrow> gets (\<lambda>s. pu_pipe (pf_urb s pid));
     (if usb_pipeout p then do { ptp_parse M_send pid; ret () } else ret ());
     stub_submit k pid;
     spin_lock;
     ret 1
   }"

text \<open>A command or data for the camera.\<close>

definition produce_out :: "'w papi \<Rightarrow> bool \<Rightarrow> addr \<Rightarrow> int \<Rightarrow> int \<Rightarrow> ('w ptp_filter, int) state" where
  "produce_out k pending pid head tail = do {
     preview \<leftarrow> ptp_check_preview pid;
     st \<leftarrow> gets pf_state;
     if preview then do {
       sz \<leftarrow> gets frame_buffer_size;
       p \<leftarrow> gets out_pipe_size;
       if st \<noteq> ptpfs_sleep \<and> (st \<noteq> ptpfs_active \<or> word_of_int (framebuf_space head tail sz) \<le> p)
       then do { requeue pending pid Q_request; ret 0 }
       else do {
         (if st = ptpfs_sleep then ptp_change_state False ptpfs_active else ret ());
         modify (\<lambda>s. if frame_rx_tail s > 0 then s\<lparr>frame_rx_tail2 := frame_rx_tail s\<rparr> else s);
         modify (\<lambda>s. s\<lparr>frame_rx_tail := head\<rparr>);
         ptp_change_state False ptpfs_busy;
         ptp_submit_urb k pending pid
       }
     }
     else if st = ptpfs_idle then do { ptp_change_state False ptpfs_command; ptp_submit_urb k pending pid }
     else if st = ptpfs_sleep then do { ptp_change_state False ptpfs_sleep_wait; ptp_submit_urb k pending pid }
     else if st = ptpfs_active then do { ptp_change_state False ptpfs_wait; ptp_submit_urb k pending pid }
     else do { requeue pending pid Q_request; ret 1 }
   }"

text \<open>A request of the client for data from the camera.\<close>

definition produce_client_in :: "'w papi \<Rightarrow> bool \<Rightarrow> addr \<Rightarrow> ('w ptp_filter, int) state" where
  "produce_client_in k pending pid = do {
     st \<leftarrow> gets pf_state;
     if st \<noteq> ptpfs_busy \<and> st \<noteq> ptpfs_drop
     then (if \<not> pending then ret 0 else ptp_submit_urb k pending pid)
     else do { requeue pending pid Q_request; ret 1 }
   }"

text \<open>Room in the buffer for the next transfer of a frame: where it starts, and its length. The buffer is
  extended to its full size, or cut off at the head, which rolls over.\<close>

definition frame_room :: "int \<Rightarrow> int \<Rightarrow> ('w ptp_filter, int \<times> u32) state" where
  "frame_room head tail = do {
     sz \<leftarrow> gets frame_buffer_size;
     p \<leftarrow> gets out_pipe_size;
     let len = word_of_int (to_end_space head tail sz) in
     if len < p \<and> tail < head then
       (if word_of_int (ptp_framebuf_full_size - head) \<ge> p then do {
          modify (\<lambda>s. s\<lparr>frame_buffer_size := ptp_framebuf_full_size\<rparr>);
          ret (head, word_of_int (ptp_framebuf_full_size - head))
        }
        else if tail \<noteq> 0 then do {
          modify (\<lambda>s. s\<lparr>frame_buffer_size := head\<rparr>);
          ret (0, word_of_int tail)
        }
        else ret (head, len))
     else ret (head, len)
   }"

text \<open>When a frame is dropped it is read into the larger part of what is left of the buffer.\<close>

definition drop_head :: "int \<Rightarrow> ('w ptp_filter, int \<times> u32) state" where
  "drop_head tail = do {
     rt \<leftarrow> gets frame_rx_tail;
     (if tail \<ge> rt then modify (\<lambda>s. s\<lparr>frame_head := rt\<rparr>)
      else if ptp_framebuf_full_size - rt > tail
      then modify (\<lambda>s. s\<lparr>frame_head := rt, frame_buffer_size := ptp_framebuf_full_size\<rparr>)
      else modify (\<lambda>s. s\<lparr>frame_head := 0\<rparr>));
     head \<leftarrow> gets frame_head;
     sz \<leftarrow> gets frame_buffer_size;
     ret (head, word_of_int (to_end_space head tail sz))
   }"

text \<open>The loop runs at most twice: it goes on only after \<open>frame_rx_tail2\<close> was made negative, which is
  one of the conditions to go on.\<close>

definition drop_room :: "int \<Rightarrow> ('w ptp_filter, int \<times> u32) state" where
  "drop_room tail = do {
     x \<leftarrow> drop_head tail;
     case x of (head, len) \<Rightarrow> do {
       rt2 \<leftarrow> gets frame_rx_tail2;
       c \<leftarrow> gets frame_count;
       p \<leftarrow> gets out_pipe_size;
       if rt2 \<ge> 0 \<and> sint c > 1 \<and> len < push_bit 5 p then do {
         modify (\<lambda>s. s\<lparr>frame_rx_tail := rt2, frame_rx_tail2 := - 1\<rparr>);
         drop_head tail
       }
       else ret (head, len)
     }
   }"

definition produce_frame :: "'w papi \<Rightarrow> bool \<Rightarrow> addr \<Rightarrow> int \<Rightarrow> int \<Rightarrow> ('w ptp_filter, int) state" where
  "produce_frame k pending pid head0 tail = do {
     x \<leftarrow> frame_room head0 tail;
     case x of (head1, len1) \<Rightarrow> do {
       upd_urb pid (\<lambda>u. u\<lparr>pu_length := len1\<rparr>);
       p \<leftarrow> gets out_pipe_size;
       rt \<leftarrow> gets frame_rx_tail;
       if len1 < p \<and> rt < 0 then do { requeue pending pid Q_request; ret 0 }
       else do {
         (if len1 < p then ptp_change_state False ptpfs_drop else ret ());
         st \<leftarrow> gets pf_state;
         y \<leftarrow> (if st = ptpfs_drop then drop_room tail else ret (head1, len1));
         case y of (head2, len2) \<Rightarrow> do {
           len3 \<leftarrow> transfer_length len2;
           upd_urb pid (\<lambda>u. u\<lparr>pu_buf := Frame head2, pu_length := len3\<rparr>);
           if len3 = 0 then do { ptp_change_state False ptpfs_bypassed; ret 0 }
           else ptp_submit_urb k pending pid
         }
       }
     }
   }"

text \<open>\<open>ptp_produce\<close>: a given request, or the first that waits.\<close>

definition ptp_produce :: "'w papi \<Rightarrow> addr option \<Rightarrow> ('w ptp_filter, int) state" where
  "ptp_produce k priv = do {
     head \<leftarrow> gets frame_head;
     tail \<leftarrow> gets frame_tail;
     rq \<leftarrow> gets (\<lambda>s. pf_queue s Q_request);
     let pending = (priv = None) in
     case (case priv of Some pid \<Rightarrow> Some pid | None \<Rightarrow> (case rq of [] \<Rightarrow> None | pid # _ \<Rightarrow> Some pid)) of
       None \<Rightarrow> ret 0
     | Some pid \<Rightarrow> do {
         u \<leftarrow> gets (\<lambda>s. pf_urb s pid);
         if usb_pipeout (pu_pipe u) then produce_out k pending pid head tail
         else if pu_complete u \<noteq> Ptp_data_complete then produce_client_in k pending pid
         else produce_frame k pending pid head tail
       }
   }"

section \<open>What goes back to the client\<close>

definition ptp_on_tx :: "'w papi \<Rightarrow> addr \<Rightarrow> ('w ptp_filter, int) state" where
  "ptp_on_tx k pid = do {
     st \<leftarrow> gets pf_state;
     u \<leftarrow> gets (\<lambda>s. pf_urb s pid);
     if st = ptpfs_bypassed \<or> usb_pipetype (pu_pipe u) \<noteq> PIPE_BULK then ret 0
     else if pu_status u \<noteq> 0 then do { ptp_bypass1; ret 0 }
     else do {
       fin \<leftarrow> ptp_parse M_tx pid;
       if usb_pipeout (pu_pipe u) then ret 0
       else do {
         st1 \<leftarrow> gets pf_state;
         if st1 = ptpfs_init then ret 0
         else if fin then do {
           (if st1 = ptpfs_wait then ptp_change_state True ptpfs_active
            else if st1 = ptpfs_sleep_wait then ptp_change_state True ptpfs_sleep
            else if st1 = ptpfs_command then ptp_change_state True ptpfs_idle
            else ret ());
           spin_lock;
           ptp_produce k None;
           spin_unlock;
           ret 0
         }
         else ret 0
       }
     }
   }"

text \<open>\<open>stub_complete\<close> of a request: the filters see it, then it leaves for the queue of the sender.\<close>

definition hand_over :: "'w papi \<Rightarrow> addr \<Rightarrow> ('w ptp_filter, unit) state" where
  "hand_over k pid = modify (\<lambda>s. s\<lparr>pf_queue := (\<lambda>q. remove1 pid (pf_queue s q)), pf_given := pf_given s @ [pid],
     pf_world := pa_complete k pid (pf_urb s pid) (urb_bytes s pid) (pf_world s)\<rparr>)"

definition stub_complete_request :: "'w papi \<Rightarrow> addr \<Rightarrow> ('w ptp_filter, unit) state" where
  "stub_complete_request k pid = do { ptp_on_tx k pid; hand_over k pid }"

text \<open>The macro \<open>ptp_complete_urb\<close>; the urbs it is used on are those of the client.\<close>

definition ptp_complete_urb :: "'w papi \<Rightarrow> addr \<Rightarrow> ('w ptp_filter, unit) state" where
  "ptp_complete_urb k pid = do {
     modify (\<lambda>s. s\<lparr>frame_serving_urb := Some pid\<rparr>);
     upd_urb pid (\<lambda>u. u\<lparr>pu_status := 0\<rparr>);
     stub_complete_request k pid;
     modify (\<lambda>s. s\<lparr>frame_serving_urb := None\<rparr>)
   }"

section \<open>Serving the client\<close>

text \<open>Copying \<open>n\<close> bytes of the frame to the client's buffer; the place in the frame buffer is overwritten.\<close>

definition frame_copy :: "addr \<Rightarrow> int \<Rightarrow> int \<Rightarrow> ('w ptp_filter, unit) state" where
  "frame_copy pid tail n = do {
     s \<leftarrow> gets id;
     let a = unat (pu_actual (pf_urb s pid)) in
     case (frame_buffer s, pu_buf (pf_urb s pid)) of
       (Some fb, Own bs) \<Rightarrow>
         if 0 \<le> tail \<and> 0 \<le> n \<and> nat tail + nat n \<le> length fb \<and> a + nat n \<le> length bs
         then do {
           upd_urb pid (\<lambda>u. u\<lparr>pu_buf := Own (overwrite a (slice (nat tail) (nat n) fb) bs)\<rparr>);
           modify (\<lambda>s. s\<lparr>frame_buffer := Some (overwrite (nat tail) (replicate (nat n) 0xff) fb)\<rparr>)
         }
         else crash
     | _ \<Rightarrow> crash
   }"

text \<open>How the loop goes on: another round, \<open>break\<close>, or a return.\<close>

datatype consume_flow = Again | Break | Return

record consume_regs =
  cr_priv :: "addr option"
  cr_pending :: bool
  cr_ret :: int
  cr_flow :: consume_flow

definition framebuf_header :: "int \<Rightarrow> ('w ptp_filter, PTPUSBBulkHeader) state" where
  "framebuf_header tail = do {
     fb \<leftarrow> gets frame_buffer;
     case fb of
       None \<Rightarrow> do { crash; ret (get_bulk_header (replicate 12 0)) }
     | Some bs \<Rightarrow>
         if 0 \<le> tail \<and> nat tail + sizeof_bulk_header \<le> length bs
         then ret (get_bulk_header (slice (nat tail) sizeof_bulk_header bs))
         else do { crash; ret (get_bulk_header (replicate 12 0)) }
   }"

text \<open>\<open>ptp_bypass3\<close>: the lock is released here and by the caller once more.\<close>

definition ptp_bypass3 :: "('w ptp_filter, unit) state" where
  "ptp_bypass3 = ptp_bypass"

text \<open>The start of a container of a frame.\<close>

definition start_container :: "addr \<Rightarrow> int \<Rightarrow> int \<Rightarrow> ('w ptp_filter, consume_flow) state" where
  "start_container pid tail len = do {
     rt \<leftarrow> gets frame_rx_tail;
     rt2 \<leftarrow> gets frame_rx_tail2;
     st \<leftarrow> gets pf_state;
     if tail \<noteq> rt2 \<and> tail = rt \<and> st = ptpfs_drop then ret Break
     else do {
       (if tail = rt2 then modify (\<lambda>s. s\<lparr>frame_rx_tail2 := - 1\<rparr>)
        else if tail = rt then modify (\<lambda>s. s\<lparr>frame_rx_tail := - 1\<rparr>)
        else ret ());
       if (word_of_int len :: u64) < of_nat sizeof_bulk_header then ret Break
       else do {
         h \<leftarrow> framebuf_header tail;
         modify (\<lambda>s. s\<lparr>frame_pdu_end := ph_type h = PTP_USB_CONTAINER_RESPONSE\<rparr>);
         u \<leftarrow> gets (\<lambda>s. pf_urb s pid);
         if pu_actual u \<noteq> 0 then do { ptp_bypass3; ret Return }
         else do {
           modify (\<lambda>s. s\<lparr>frame_length := ph_length h\<rparr>);
           if ph_length h < of_nat sizeof_bulk_header then do { ptp_bypass3; ret Return }
           else ret Again
         }
       }
     }
   }"

definition copy_length :: "u32 \<Rightarrow> u32 \<Rightarrow> int \<Rightarrow> u32 \<Rightarrow> int" where
  "copy_length want got len flen =
     (let c0 = sint (want - got);
          c1 = (if c0 > len then len else c0)
      in if word_of_int c1 > flen then sint flen else c1)"

definition advance_tail :: "int \<Rightarrow> int \<Rightarrow> ('w ptp_filter, unit) state" where
  "advance_tail tail n = do {
     sz \<leftarrow> gets frame_buffer_size;
     (if sz = 0 then crash else ret ());
     let tail1 = (tail + n) mod sz;
     old \<leftarrow> gets frame_tail;
     (if tail1 < old then modify (\<lambda>s. s\<lparr>frame_buffer_size := ptp_framebuf_full_size\<rparr>) else ret ());
     fl \<leftarrow> gets frame_length;
     e \<leftarrow> gets frame_pdu_end;
     (if fl = 0 \<and> e then modify (\<lambda>s. s\<lparr>frame_serving := False, frame_count := frame_count s - 1\<rparr>) else ret ());
     modify (\<lambda>s. s\<lparr>frame_tail := (if fl = 0 then ptp_framebuf_align tail1 else tail1)\<rparr>)
   }"

text \<open>A round for the request \<open>pid\<close>.\<close>

definition consume_request :: "'w papi \<Rightarrow> consume_regs \<Rightarrow> addr \<Rightarrow> int \<Rightarrow> int \<Rightarrow> ('w ptp_filter, consume_regs) state" where
  "consume_request k r pid head tail = do {
     sz \<leftarrow> gets frame_buffer_size;
     let len = to_end_count head tail sz;
     fl \<leftarrow> gets frame_length;
     go \<leftarrow> (if fl = 0 then start_container pid tail len else ret Again);
     if go = Break then ret (r\<lparr>cr_flow := Break\<rparr>)
     else if go = Return then ret (r\<lparr>cr_ret := 0, cr_flow := Return\<rparr>)
     else do {
       u \<leftarrow> gets (\<lambda>s. pf_urb s pid);
       fl1 \<leftarrow> gets frame_length;
       let n = copy_length (pu_length u) (pu_actual u) len fl1;
       if n = 0 then ret (r\<lparr>cr_flow := Break\<rparr>)
       else do {
         frame_copy pid tail n;
         modify (\<lambda>s. s\<lparr>frame_length := frame_length s - word_of_int n\<rparr>);
         upd_urb pid (\<lambda>u. u\<lparr>pu_actual := pu_actual u + word_of_int n\<rparr>);
         advance_tail tail n;
         u1 \<leftarrow> gets (\<lambda>s. pf_urb s pid);
         fl2 \<leftarrow> gets frame_length;
         r1 \<leftarrow> (if fl2 = 0 \<or> pu_actual u1 = pu_length u1 then do {
             (if cr_pending r then list_move_tail pid Q_init else ret ());
             spin_unlock;
             ptp_complete_urb k pid;
             spin_lock;
             ret (r\<lparr>cr_priv := None\<rparr>)
           }
           else ret r);
         ptp_produce k None;
         ret r1
       }
     }
   }"

definition consume_round :: "'w papi \<Rightarrow> consume_regs \<Rightarrow> ('w ptp_filter, consume_regs) state" where
  "consume_round k r = do {
     head \<leftarrow> gets frame_head;
     tail \<leftarrow> gets frame_tail;
     st \<leftarrow> gets pf_state;
     if st < ptpfs_active then do {
       modify (\<lambda>s. s\<lparr>frame_serving := False\<rparr>);
       ret (r\<lparr>cr_flow := Return\<rparr>)
     }
     else do {
       cq \<leftarrow> gets (\<lambda>s. pf_queue s Q_client);
       case cr_priv r of
         Some pid \<Rightarrow> consume_request k (r\<lparr>cr_ret := 1\<rparr>) pid head tail
       | None \<Rightarrow>
           (case cq of
              [] \<Rightarrow> ret (r\<lparr>cr_flow := Break\<rparr>)
            | pid # _ \<Rightarrow> consume_request k (r\<lparr>cr_priv := Some pid, cr_pending := True, cr_ret := 1\<rparr>) pid head tail)
     }
   }"

definition ptp_consume :: "'w papi \<Rightarrow> addr option \<Rightarrow> ('w ptp_filter, int) state" where
  "ptp_consume k priv = do {
     r \<leftarrow> loop (\<lambda>r. cr_flow r = Again) (consume_round k)
            \<lparr>cr_priv = priv, cr_pending = False, cr_ret = 0, cr_flow = Again\<rparr>;
     case r of
       None \<Rightarrow> do { stuck; ret 0 }
     | Some r1 \<Rightarrow> do {
         (case cr_priv r1 of
            Some pid \<Rightarrow> if cr_flow r1 = Break \<and> \<not> cr_pending r1 then list_move_tail pid Q_client else ret ()
          | None \<Rightarrow> ret ());
         ret (cr_ret r1)
       }
   }"

section \<open>The timer and the completion handlers\<close>

definition ptp_timer :: "'w papi \<Rightarrow> ('w ptp_filter, unit) state" where
  "ptp_timer k = do {
     spin_lock;
     st \<leftarrow> gets pf_state;
     if st < ptpfs_active \<or> st = ptpfs_drop \<or> st = ptpfs_sleep \<or> st = ptpfs_sleep_wait then spin_unlock
     else do {
       fq \<leftarrow> gets (\<lambda>s. pf_queue s Q_free);
       (case fq of
          [] \<Rightarrow> ret ()
        | pid # _ \<Rightarrow> do {
            tp \<leftarrow> gets trigger_ptpdu;
            (if tp = None then crash else ret ());
            op \<leftarrow> gets out_pipe;
            upd_urb pid (\<lambda>u. u\<lparr>pu_complete := Ptp_cmd_complete, pu_buf := Trigger,
              pu_length := ph_length (get_bulk_header (case tp of None \<Rightarrow> [] | Some bs \<Rightarrow> bs)), pu_pipe := op\<rparr>);
            modify (\<lambda>s. s\<lparr>trigger_jiffies := trigger_jiffies s + ucast (pa_frame_jiffies k)\<rparr>);
            list_move_tail pid Q_busy;
            ptp_produce k (Some pid);
            ret ()
          });
       spin_unlock
     }
   }"

text \<open>\<open>ptp_bypass4\<close>.\<close>

definition ptp_bypass4 :: "addr \<Rightarrow> ('w ptp_filter, unit) state" where
  "ptp_bypass4 pid = do { list_move_tail pid Q_free; ptp_bypass }"

text \<open>The first transfer of a container tells its length; the result is whether the handler goes on.\<close>

definition rx_start :: "addr \<Rightarrow> ('w ptp_filter, bool) state" where
  "rx_start pid = do {
     n \<leftarrow> gets frame_rx_length;
     if n \<noteq> 0 then ret True
     else do {
       u \<leftarrow> gets (\<lambda>s. pf_urb s pid);
       if pu_actual u < of_nat sizeof_bulk_header then do { ptp_bypass4 pid; ret False }
       else do {
         b \<leftarrow> peek pid 0 sizeof_bulk_header;
         let h = get_bulk_header (case b of None \<Rightarrow> replicate 12 0 | Some bs \<Rightarrow> bs);
         modify (\<lambda>s. s\<lparr>frame_rx_length := ph_length h\<rparr>);
         if ph_length h < of_nat sizeof_bulk_header then do { ptp_bypass4 pid; ret False }
         else do {
           modify (\<lambda>s. s\<lparr>frame_rx_pdu_end := ph_type h = PTP_USB_CONTAINER_RESPONSE\<rparr>);
           ret True
         }
       }
     }
   }"

text \<open>The end of a frame. The result is the new head.\<close>

definition frame_done :: "'w papi \<Rightarrow> int \<Rightarrow> int \<Rightarrow> ('w ptp_filter, int) state" where
  "frame_done k head tail = do {
     st \<leftarrow> gets pf_state;
     if st = ptpfs_drop then do {
       rt \<leftarrow> gets frame_rx_tail;
       (if rt \<ge> tail then modify (\<lambda>s. s\<lparr>frame_buffer_size := ptp_framebuf_full_size\<rparr>) else ret ());
       ptp_change_state False ptpfs_sleep;
       ret rt
     }
     else do {
       modify (\<lambda>s. s\<lparr>frame_count := frame_count s + 1\<rparr>);
       c \<leftarrow> gets frame_count;
       code \<leftarrow> gets (\<lambda>s. ph_code (sm_ptpdu (pf_machine s M_self)));
       if c \<ge> pa_buffer_count k \<or> code \<noteq> PTP_RC_OK then do { ptp_change_state False ptpfs_sleep; ret head }
       else do {
         ptp_change_state False ptpfs_active;
         now \<leftarrow> outside (pa_jiffies k);
         t \<leftarrow> gets trigger_jiffies;
         (if t < now then do {
            now2 \<leftarrow> outside (pa_jiffies k);
            modify (\<lambda>s. s\<lparr>trigger_jiffies := now2 + 1\<rparr>)
          } else ret ());
         t2 \<leftarrow> gets trigger_jiffies;
         mod_timer t2;
         ret head
       }
     }
   }"

definition ptp_data_complete :: "'w papi \<Rightarrow> addr \<Rightarrow> ('w ptp_filter, unit) state" where
  "ptp_data_complete k pid = do {
     u \<leftarrow> gets (\<lambda>s. pf_urb s pid);
     if pu_status u \<noteq> 0 then do { spin_lock; list_move_tail pid Q_free; ptp_bypass }
     else do {
       ptp_parse M_self pid;
       spin_lock;
       head \<leftarrow> gets frame_head;
       tail \<leftarrow> gets frame_tail;
       st \<leftarrow> gets pf_state;
       if st \<noteq> ptpfs_busy \<and> st \<noteq> ptpfs_drop then ptp_bypass4 pid
       else do {
         go \<leftarrow> rx_start pid;
         if \<not> go then ret ()
         else do {
           modify (\<lambda>s. s\<lparr>frame_rx_length := frame_rx_length s - pu_actual u\<rparr>);
           sz \<leftarrow> gets frame_buffer_size;
           (if st \<noteq> ptpfs_drop \<and> sz = 0 then crash else ret ());
           let head1 = (if st \<noteq> ptpfs_drop
             then sint ((word_of_int head + pu_actual u) mod (word_of_int sz)) else head);
           n \<leftarrow> gets frame_rx_length;
           e \<leftarrow> gets frame_rx_pdu_end;
           let head2 = (if n = 0 then ptp_framebuf_align head1 else head1);
           head3 \<leftarrow> (if n = 0 \<and> e then do { list_move_tail pid Q_free; frame_done k head2 tail } else ret head2);
           modify (\<lambda>s. s\<lparr>frame_head := head3\<rparr>);
           ptp_produce k (if n = 0 \<and> e then None else Some pid);
           ptp_consume k None;
           spin_unlock
         }
       }
     }
   }"

definition ptp_cmd_complete :: "'w papi \<Rightarrow> addr \<Rightarrow> ('w ptp_filter, unit) state" where
  "ptp_cmd_complete k pid = do {
     spin_lock;
     head \<leftarrow> gets frame_head;
     tail \<leftarrow> gets frame_tail;
     st \<leftarrow> gets pf_state;
     u \<leftarrow> gets (\<lambda>s. pf_urb s pid);
     if pu_status u \<noteq> 0 \<or> st < ptpfs_active then ptp_bypass4 pid
     else do {
       ip \<leftarrow> gets in_pipe;
       sz \<leftarrow> gets frame_buffer_size;
       len \<leftarrow> transfer_length (word_of_int (to_end_space head tail sz));
       modify (\<lambda>s. s\<lparr>frame_rx_length := 0\<rparr>);
       upd_urb pid (\<lambda>u. u\<lparr>pu_pipe := ip, pu_buf := Frame head, pu_length := len, pu_actual := 0, pu_status := 0,
         pu_complete := Ptp_data_complete\<rparr>);
       if len = 0 then ptp_bypass
       else do { spin_unlock; stub_submit k pid }
     }
   }"

text \<open>The USB core gives a urb back: \<open>bs\<close> are the bytes it stored, \<open>st\<close> the status.\<close>

definition usb_giveback :: "'w papi \<Rightarrow> addr \<Rightarrow> s32 \<Rightarrow> byte list \<Rightarrow> u32 \<Rightarrow> ('w ptp_filter, unit) state" where
  "usb_giveback k pid st bs actual = do {
     modify (\<lambda>s. s\<lparr>pf_flight := remove1 pid (pf_flight s)\<rparr>);
     modify (\<lambda>s. set_urb_bytes pid (overwrite 0 bs (urb_bytes s pid)) s);
     upd_urb pid (\<lambda>u. u\<lparr>pu_actual := actual, pu_status := st\<rparr>);
     c \<leftarrow> gets (\<lambda>s. pu_complete (pf_urb s pid));
     case c of
       Stub_complete \<Rightarrow> stub_complete_request k pid
     | Ptp_data_complete \<Rightarrow> ptp_data_complete k pid
     | Ptp_cmd_complete \<Rightarrow> ptp_cmd_complete k pid
   }"

end
