(* ===== verification/PtpDriver.thy ===== *)
theory PtpDriver
  imports PtpFilter Filters
begin

text \<open>
  The entry points of the PTP filter driver (\<^verbatim>\<open>filter_ptp.c\<close>): what comes from the client
  (\<open>ptp_on_rx\<close>), attaching to a device, detaching, and the module; and the events of a filter as a
  step relation.
\<close>

section \<open>What comes from the client\<close>

text \<open>A request and its urb are allocated by the stub driver and put in \<open>priv_init\<close>.\<close>

definition new_request :: "ptp_urb \<Rightarrow> ('w ptp_filter, addr) state" where
  "new_request u = do {
     pid \<leftarrow> gets pf_next;
     modify (\<lambda>s. s\<lparr>pf_queue := (pf_queue s)(Q_init := pf_queue s Q_init @ [pid]), pf_urb := (pf_urb s)(pid := u),
       pf_next := Suc pid\<rparr>);
     ret pid
   }"

text \<open>The urbs with which the filter asks for frames.\<close>

primrec build_free_urbs :: "'w papi \<Rightarrow> nat \<Rightarrow> ('w ptp_filter, bool) state" where
  "build_free_urbs k 0 = ret True"
| "build_free_urbs k (Suc n) = do {
     pdu \<leftarrow> gets trigger_pdu;
     tp \<leftarrow> gets trigger_ptpdu;
     case (pdu, tp) of
       (Some h, Some bs) \<Rightarrow> do {
         r \<leftarrow> outside (pa_build k h bs);
         case r of
           None \<Rightarrow> do { ptp_bypass1; ret False }
         | Some u \<Rightarrow> do {
             pid \<leftarrow> new_request u;
             list_move_tail pid Q_free;
             build_free_urbs k n
           }
       }
     | _ \<Rightarrow> do { crash; ret False }
   }"

definition alloc_frames :: "'w papi \<Rightarrow> addr \<Rightarrow> ('w ptp_filter, bool) state" where
  "alloc_frames k pid = do {
     ok \<leftarrow> outside (pa_kmalloc k);
     if \<not> ok then do { ptp_bypass1; ret False }
     else do {
       modify (\<lambda>s. s\<lparr>frame_buffer := Some (replicate (nat ptp_framebuf_full_size) 0xfd),
         frame_buffer_size := ptp_framebuf_full_size\<rparr>);
       u \<leftarrow> gets (\<lambda>s. pf_urb s pid);
       b \<leftarrow> peek pid 0 4;
       if pu_length u \<noteq> word_le32 (case b of None \<Rightarrow> [] | Some bs \<Rightarrow> bs) then do { ptp_bypass1; ret False }
       else do {
         ok2 \<leftarrow> outside (pa_kmalloc k);
         if \<not> ok2 then do { ptp_bypass1; ret False }
         else do {
           c \<leftarrow> peek pid 0 (unat (pu_length u));
           modify (\<lambda>s. s\<lparr>trigger_ptpdu := c\<rparr>);
           build_free_urbs k PTP_FREE_URB_COUNT
         }
       }
     }
   }"

text \<open>The request for a frame is answered at once, by taking the command as sent; then the filter asks
  the camera itself.\<close>

definition rx_resume :: "'w papi \<Rightarrow> addr \<Rightarrow> ('w ptp_filter, int) state" where
  "rx_resume k pid = do {
     modify (\<lambda>s. s\<lparr>frame_serving := True\<rparr>);
     ptp_change_state False ptpfs_active;
     upd_urb pid (\<lambda>u. u\<lparr>pu_actual := pu_length u\<rparr>);
     c \<leftarrow> gets frame_count;
     t \<leftarrow> gets trigger_jiffies;
     now \<leftarrow> outside (pa_jiffies k);
     if c \<noteq> 0 \<and> t > now then do {
       mod_timer t;
       spin_unlock;
       ptp_complete_urb k pid;
       ret 1
     }
     else do {
       modify (\<lambda>s. s\<lparr>trigger_jiffies := now\<rparr>);
       spin_unlock;
       ptp_complete_urb k pid;
       fb \<leftarrow> gets frame_buffer;
       ok \<leftarrow> (if fb = None then alloc_frames k pid else ret True);
       if ok then do { ptp_timer k; ret 1 } else ret 0
     }
   }"

definition stream_on :: "usbip_header \<Rightarrow> ('w ptp_filter, unit) state" where
  "stream_on pdu = modify (\<lambda>s. s\<lparr>trigger_pdu := Some pdu, frame_count := 0, frame_head := 0, frame_tail := 0,
     frame_length := 0, frame_rx_tail := - 1, frame_rx_tail2 := - 1\<rparr>)"

definition rx_preview :: "'w papi \<Rightarrow> usbip_header \<Rightarrow> addr \<Rightarrow> ('w ptp_filter, int) state" where
  "rx_preview k pdu pid = do {
     st \<leftarrow> gets pf_state;
     srv \<leftarrow> gets frame_serving;
     if st = ptpfs_idle then do { stream_on pdu; rx_resume k pid }
     else if st = ptpfs_sleep then rx_resume k pid
     else if ptpfs_active \<le> st \<and> \<not> srv then do {
       modify (\<lambda>s. s\<lparr>frame_serving := True\<rparr>);
       spin_unlock;
       upd_urb pid (\<lambda>u. u\<lparr>pu_actual := pu_length u\<rparr>);
       ptp_complete_urb k pid;
       ret 1
     }
     else do { ptp_bypass; ret 0 }
   }"

text \<open>Any other command.\<close>

definition rx_command :: "addr \<Rightarrow> ('w ptp_filter, int) state" where
  "rx_command pid = do {
     st \<leftarrow> gets pf_state;
     if st = ptpfs_active then do { ptp_change_state False ptpfs_wait; spin_unlock; ret 0 }
     else if st = ptpfs_sleep then do { ptp_change_state False ptpfs_sleep_wait; spin_unlock; ret 0 }
     else if st = ptpfs_idle then do { ptp_change_state False ptpfs_command; spin_unlock; ret 0 }
     else if st = ptpfs_drop \<or> st = ptpfs_busy then do { list_move_tail pid Q_request; spin_unlock; ret 1 }
     else do { ptp_bypass; ret 0 }
   }"

text \<open>The pipes are learnt from the first urbs.\<close>

definition learn_pipes :: "usb_device \<Rightarrow> usbip_header \<Rightarrow> pipe \<Rightarrow> ('w ptp_filter, unit) state" where
  "learn_pipes udev pdu p = do {
     ip \<leftarrow> gets in_pipe;
     (if ip = 0 \<and> usb_pipein p then modify (\<lambda>s. s\<lparr>in_pipe := p\<rparr>) else ret ());
     op \<leftarrow> gets out_pipe;
     (if op = 0 \<and> usb_pipeout p then
        (case ep_at (ep_out udev) (ep (base pdu) AND 0x7f) of
           None \<Rightarrow> crash
         | Some e \<Rightarrow> modify (\<lambda>s. s\<lparr>out_pipe := p, out_pipe_size := ucast (wMaxPacketSize e)\<rparr>))
      else ret ())
   }"

definition ptp_on_rx :: "'w papi \<Rightarrow> usb_device \<Rightarrow> usbip_header \<Rightarrow> addr \<Rightarrow> ('w ptp_filter, int) state" where
  "ptp_on_rx k udev pdu pid = do {
     st \<leftarrow> gets pf_state;
     p \<leftarrow> gets (\<lambda>s. pu_pipe (pf_urb s pid));
     if st = ptpfs_bypassed \<or> usb_pipetype p \<noteq> PIPE_BULK then ret 0
     else do {
       learn_pipes udev pdu p;
       if usb_pipein p then do {
         spin_lock;
         srv \<leftarrow> gets frame_serving;
         r \<leftarrow> (if srv then ptp_consume k (Some pid)
              else if ptpfs_active \<le> st then ptp_produce k (Some pid)
              else ret 0);
         spin_unlock;
         ret r
       }
       else do {
         ptp_parse M_rx pid;
         x \<leftarrow> gets (\<lambda>s. pf_machine s M_rx);
         if sm_state x \<noteq> ptpps_wait_response \<or> ph_type (sm_ptpdu x) \<noteq> PTP_USB_CONTAINER_COMMAND then ret 0
         else do {
           spin_lock;
           preview \<leftarrow> ptp_check_preview pid;
           if preview then rx_preview k pdu pid else rx_command pid
         }
       }
     }
   }"

section \<open>Attaching and detaching\<close>

definition ptp_models :: "(u16 \<times> u16 \<times> PTPDeviceInfo) list" where
  "ptp_models = [(0x04a9, 0x323b, \<lparr>di_StandardVersion = 0, di_VendorExtensionID = PTP_VENDOR_CANON,
     di_VendorExtensionVersion = 0\<rparr>)]"

definition new_machine :: ptp_state_machine where
  "new_machine = \<lparr>sm_state = ptpps_none, sm_size = 0,
     sm_ptpdu = \<lparr>ph_length = 0, ph_type = 0, ph_code = 0, ph_trans_id = 0\<rparr>\<rparr>"

definition new_filter :: "PTPDeviceInfo \<Rightarrow> (addr \<Rightarrow> ptp_urb) \<Rightarrow> 'w \<Rightarrow> 'w ptp_filter" where
  "new_filter info urbs w =
     \<lparr>pf_state = ptpfs_init, pf_info = info, trigger_pdu = None, trigger_ptpdu = None, trigger_jiffies = 0,
      frame_count = 0, frame_serving = False, in_pipe = 0, out_pipe = 0, out_pipe_size = 0, frame_buffer = None,
      frame_head = 0, frame_tail = 0, frame_length = 0, frame_pdu_end = False, frame_rx_length = 0,
      frame_rx_pdu_end = False, frame_buffer_size = 0, frame_rx_tail = 0, frame_rx_tail2 = 0, pf_trans_id = 0,
      rx_trans_id = 0, frame_serving_urb = None, pf_machine = (\<lambda>_. new_machine),
      pf_queue = (\<lambda>_. []), pf_urb = urbs, pf_timer = None, pf_held = False, pf_hang = False,
      pf_oops = False, pf_given = [], pf_flight = [], pf_next = 0, pf_world = w\<rparr>"

text \<open>Only the models of the table are filtered. The allocation of the state is not checked.\<close>

definition ptp_probe ::
  "'w papi \<Rightarrow> usbip_side \<Rightarrow> u16 \<Rightarrow> u16 \<Rightarrow> (addr \<Rightarrow> ptp_urb) \<Rightarrow> 'w \<Rightarrow> 'w ptp_filter option" where
  "ptp_probe k side vendor product urbs w =
     (if side \<noteq> USBIP_STUB then None
      else (case List.find (\<lambda>(v, p, _). v = vendor \<and> p = product) ptp_models of
              None \<Rightarrow> None
            | Some (_, _, info) \<Rightarrow>
                (case pa_kmalloc k w of (ok, w1) \<Rightarrow>
                   Some (snd (run_state (do { (if ok then ret () else crash); ptp_change_state False ptpfs_idle })
                     (new_filter info urbs w1))))))"

text \<open>\<open>stub_free_priv_and_urb\<close> frees the transfer buffer of the urb, here one that was freed before or a
  place inside of the frame buffer.\<close>

primrec free_urbs :: "'w papi \<Rightarrow> addr list \<Rightarrow> ('w ptp_filter, unit) state" where
  "free_urbs k [] = ret ()"
| "free_urbs k (pid # pids) = do {
     b \<leftarrow> gets (\<lambda>s. pu_buf (pf_urb s pid));
     (case b of Own _ \<Rightarrow> ret () | _ \<Rightarrow> crash);
     modify (\<lambda>s. s\<lparr>pf_queue := (\<lambda>q. remove1 pid (pf_queue s q))\<rparr>);
     outside (\<lambda>w. ((), pa_free k pid w));
     free_urbs k pids
   }"

definition ptp_remove :: "'w papi \<Rightarrow> ('w ptp_filter, unit) state" where
  "ptp_remove k = do {
     ptp_change_state True ptpfs_idle;
     modify (\<lambda>s. s\<lparr>trigger_ptpdu := None, frame_buffer := None\<rparr>);
     fq \<leftarrow> gets (\<lambda>s. pf_queue s Q_free);
     free_urbs k fq
   }"

text \<open>The module: the interval between two frames from the rate asked for, and the list of drivers.\<close>

definition frame_interval :: "u32 \<Rightarrow> u32 \<Rightarrow> u32" where
  "frame_interval hz fps =
     (let f = (if fps = 0 then 10 else fps); j = hz div f in if j = 0 then 1 else j)"

definition ptp_init :: "nat \<Rightarrow> u32 \<Rightarrow> u32 \<Rightarrow> nat list \<Rightarrow> u32 \<times> nat list" where
  "ptp_init drv hz fps drvs = (frame_interval hz fps, usbip_filter_register drv drvs)"

definition ptp_exit :: "nat \<Rightarrow> nat list \<Rightarrow> nat list" where
  "ptp_exit drv drvs = usbip_filter_unregister drv drvs"

section \<open>The events of a filter\<close>

text \<open>A request of the client arrives (\<open>stub_recv_cmd_submit\<close>): its urb is shown to the filter and
  submitted unless the filter keeps it.\<close>

definition rx_event :: "'w papi \<Rightarrow> usb_device \<Rightarrow> usbip_header \<Rightarrow> ptp_urb \<Rightarrow> ('w ptp_filter, int) state" where
  "rx_event k udev pdu u = do {
     pid \<leftarrow> new_request u;
     r \<leftarrow> ptp_on_rx k udev pdu pid;
     (if r = 0 then stub_submit k pid else ret ());
     ret r
   }"

definition timer_event :: "'w papi \<Rightarrow> ('w ptp_filter, unit) state" where
  "timer_event k = do { del_timer; ptp_timer k }"

text \<open>Requests arrive, the USB core gives back a urb it has, the timer runs out, and the world goes on.\<close>

inductive ptp_step :: "'w papi \<Rightarrow> 'w ptp_filter \<Rightarrow> 'w ptp_filter \<Rightarrow> bool" for k where
  rx: "ptp_step k s (snd (run_state (rx_event k udev pdu u) s))"
| giveback: "pid \<in> set (pf_flight s) \<Longrightarrow> ptp_step k s (snd (run_state (usb_giveback k pid st bs actual) s))"
| timer: "pf_timer s \<noteq> None \<Longrightarrow> ptp_step k s (snd (run_state (timer_event k) s))"
| clock: "ptp_step k s (s\<lparr>pf_world := w\<rparr>)"

inductive_cases ptp_stepE: "ptp_step k s t"

text \<open>The events between two things the client sends: no urb arrives that carries data to a bulk endpoint.\<close>

inductive ptp_answer_step :: "'w papi \<Rightarrow> 'w ptp_filter \<Rightarrow> 'w ptp_filter \<Rightarrow> bool" for k where
  rx: "usb_pipein (pu_pipe u) \<or> usb_pipetype (pu_pipe u) \<noteq> PIPE_BULK \<Longrightarrow>
    ptp_answer_step k s (snd (run_state (rx_event k udev pdu u) s))"
| giveback: "pid \<in> set (pf_flight s) \<Longrightarrow> ptp_answer_step k s (snd (run_state (usb_giveback k pid st bs actual) s))"
| timer: "pf_timer s \<noteq> None \<Longrightarrow> ptp_answer_step k s (snd (run_state (timer_event k) s))"
| clock: "ptp_answer_step k s (s\<lparr>pf_world := w\<rparr>)"

lemma answer_step_is_step: "ptp_answer_step k s t \<Longrightarrow> ptp_step k s t"
  by (induction rule: ptp_answer_step.induct) (auto intro: ptp_step.intros)

definition ptp_answer_steps :: "'w papi \<Rightarrow> 'w ptp_filter \<Rightarrow> 'w ptp_filter \<Rightarrow> bool" where
  "ptp_answer_steps k = (ptp_answer_step k)^**"

definition ptp_steps :: "'w papi \<Rightarrow> 'w ptp_filter \<Rightarrow> 'w ptp_filter \<Rightarrow> bool" where
  "ptp_steps k = (ptp_step k)^**"

end
