(* ===== verification/PtpAccount.thy ===== *)
theory PtpAccount
  imports PtpDriver
begin

text \<open>
  What every operation of the PTP filter keeps. The locale \<open>ptp_answers\<close> collects the programs that keep a
  predicate of two things, whether the processor is lost and the transaction number of the client,
  as long as nothing is parsed that the client sends; \<open>ptp_program\<close> extends it to all programs, for
  predicates to which the client's number does not matter. They are interpreted for the client's number and
  for the loss of the processor.
\<close>

lemma set_urb_bytes_core [simp]:
  "pf_queue (set_urb_bytes pid bs s) = pf_queue s" "pf_given (set_urb_bytes pid bs s) = pf_given s"
  "pf_next (set_urb_bytes pid bs s) = pf_next s" "pf_state (set_urb_bytes pid bs s) = pf_state s"
  "pf_hang (set_urb_bytes pid bs s) = pf_hang s" "rx_trans_id (set_urb_bytes pid bs s) = rx_trans_id s"
  by (simp_all add: set_urb_bytes_def split: ptp_buf.split)

lemma preserves_buf [preserves_intros]:
  "(\<And>bs. b = Own bs \<Longrightarrow> preserves I (f bs)) \<Longrightarrow> (\<And>n. b = Frame n \<Longrightarrow> preserves I (g n)) \<Longrightarrow>
   (b = Trigger \<Longrightarrow> preserves I h) \<Longrightarrow> preserves I (case b of Own bs \<Rightarrow> f bs | Frame n \<Rightarrow> g n | Trigger \<Rightarrow> h)"
  by (cases b) simp_all

section \<open>Programs of the filter\<close>

named_theorems program_intros \<open>programs that keep a predicate of \<open>ptp_program\<close>\<close>

locale ptp_answers =
  fixes I :: "'w ptp_filter \<Rightarrow> bool"
  assumes same: "pf_hang t = pf_hang s \<Longrightarrow> rx_trans_id t = rx_trans_id s \<Longrightarrow> I s \<Longrightarrow> I t"
    and hangs: "I s \<Longrightarrow> I (s\<lparr>pf_hang := True\<rparr>)"
begin

lemma keep_modify [program_intros]:
  "(\<And>s. pf_hang (f s) = pf_hang s \<and> rx_trans_id (f s) = rx_trans_id s) \<Longrightarrow> preserves I (modify f)"
  by (rule preserves_modify, rule same) simp_all

lemma keep_stuck [program_intros]: "preserves I stuck"
  unfolding stuck_def by (rule preserves_modify, rule hangs)

lemma keep_lock [program_intros]: "preserves I spin_lock"
  unfolding spin_lock_def
proof (rule preserves_modify)
  fix s assume "I s"
  then have "I (s\<lparr>pf_hang := True\<rparr>)" "I (s\<lparr>pf_held := True\<rparr>)"
    using hangs by (blast, intro same [where t = "s\<lparr>pf_held := True\<rparr>" and s = s]) simp_all
  then show "I (if pf_held s then s\<lparr>pf_hang := True\<rparr> else s\<lparr>pf_held := True\<rparr>)" by simp
qed

lemma keep_queues [program_intros]:
  "preserves I (list_move_tail pid q)" "preserves I (hand_over k pid)" "preserves I (new_request u)"
  unfolding list_move_tail_def hand_over_def new_request_def
  by (intro preserves_intros keep_modify; simp)+

lemma keep_basic [program_intros]:
  "preserves I crash" "preserves I spin_unlock"
  "preserves I (upd_urb pid f)" "preserves I (upd_machine m g)"
  "preserves I (poke32 pid off v)" "preserves I del_timer" "preserves I (mod_timer j)"
  "preserves I (set_state st)"
  unfolding crash_def spin_unlock_def upd_urb_def upd_machine_def poke32_def del_timer_def
    mod_timer_def set_state_def
  by (rule keep_modify; simp)+

lemma keep_outside [program_intros]: "preserves I (outside f)"
proof (unfold preserves_def, rule hoareI)
  fix s a s' assume "I s" and "run_state (outside f) s = (a, s')"
  then show "I s'" by (auto simp: outside_def split: prod.splits intro: same [rotated -1])
qed

lemma keep_peek [program_intros]: "preserves I (peek pid off n)"
  unfolding peek_def by (intro preserves_intros program_intros)

lemma keep_park [program_intros]: "preserves I (park_commands pids)"
proof (induction pids)
  case (Cons a pids)
  show ?case unfolding park_commands.simps by (intro preserves_intros program_intros Cons.IH)
qed (simp only: park_commands.simps preserves_ret)

lemma keep_change_state [program_intros]: "preserves I (ptp_change_state lk st)"
  unfolding ptp_change_state_def by (intro preserves_intros program_intros)

lemma keep_bypass [program_intros]:
  "preserves I ptp_bypass" "preserves I ptp_bypass1" "preserves I ptp_bypass3"
  "preserves I (ptp_bypass4 pid)"
  unfolding ptp_bypass1_def ptp_bypass3_def ptp_bypass4_def ptp_bypass_def
  by (intro preserves_intros program_intros)+

lemma keep_new_session [program_intros]: "preserves I (ptp_check_new_session m)"
  unfolding ptp_check_new_session_def new_session_def by (intro preserves_intros program_intros; simp)

lemma keep_rewrite [program_intros]: "m \<noteq> M_rx \<Longrightarrow> preserves I (rewrite_trans_id m pid off tid)"
  unfolding rewrite_trans_id_def by (cases m; simp only: ptp_machine.case; intro preserves_intros program_intros; simp)

lemma keep_payload [program_intros]: "preserves I (parse_payload m pid r)"
  unfolding parse_payload_def Let_def by (intro preserves_intros program_intros; simp)

text \<open>Parsing keeps what rewriting the number keeps.\<close>

lemma keep_parse_of:
  assumes "\<And>off tid. preserves I (rewrite_trans_id m pid off tid)"
  shows "preserves I (ptp_parse m pid)"
proof -
  have "preserves I (parse_header m pid r)" for r
    unfolding parse_header_def by (intro preserves_intros program_intros assms)
  then show ?thesis
    unfolding ptp_parse_def parse_loop_def parse_round_def by (intro preserves_intros program_intros; simp)
qed

lemma keep_parse [program_intros]: "m \<noteq> M_rx \<Longrightarrow> preserves I (ptp_parse m pid)"
  by (intro keep_parse_of keep_rewrite)

lemma keep_preview [program_intros]: "preserves I (ptp_check_preview pid)"
  unfolding ptp_check_preview_def by (intro preserves_intros program_intros)

lemma keep_requeue [program_intros]: "preserves I (requeue pending pid q)"
  unfolding requeue_def by (intro preserves_intros program_intros)

lemma keep_submit [program_intros]:
  "preserves I (stub_submit k pid)" "preserves I (ptp_submit_urb k pending pid)"
proof -
  show a: "preserves I (stub_submit k pid)" for k :: "'w papi" and pid
    unfolding stub_submit_def by (rule keep_modify) simp
  show "preserves I (ptp_submit_urb k pending pid)"
    unfolding ptp_submit_urb_def by (intro preserves_intros program_intros a; simp)
qed

lemma keep_produce_out [program_intros]: "preserves I (produce_out k pending pid head tail)"
  unfolding produce_out_def by (intro preserves_intros program_intros; simp)

lemma keep_client_in [program_intros]: "preserves I (produce_client_in k pending pid)"
  unfolding produce_client_in_def by (intro preserves_intros program_intros)

lemma keep_room [program_intros]:
  "preserves I (frame_room head tail)" "preserves I (drop_head tail)" "preserves I (transfer_length n)"
  unfolding frame_room_def drop_head_def transfer_length_def Let_def
  by (intro preserves_intros program_intros; simp)+

lemma keep_drop_room [program_intros]: "preserves I (drop_room tail)"
  unfolding drop_room_def by (intro preserves_intros program_intros; simp)

lemma keep_produce_frame [program_intros]: "preserves I (produce_frame k pending pid head tail)"
  unfolding produce_frame_def by (intro preserves_intros program_intros)

lemma keep_produce [program_intros]: "preserves I (ptp_produce k priv)"
  unfolding ptp_produce_def Let_def by (intro preserves_intros program_intros)

lemma keep_on_tx [program_intros]: "preserves I (ptp_on_tx k pid)"
  unfolding ptp_on_tx_def by (intro preserves_intros program_intros; simp)

lemma keep_complete [program_intros]:
  "preserves I (stub_complete_request k pid)" "preserves I (ptp_complete_urb k pid)"
  unfolding ptp_complete_urb_def stub_complete_request_def
  by (intro preserves_intros program_intros; simp)+

lemma keep_copy [program_intros]: "preserves I (frame_copy pid tail n)"
  unfolding frame_copy_def Let_def by (intro preserves_intros program_intros; simp)

lemma keep_frames [program_intros]:
  "preserves I (framebuf_header tail)" "preserves I (advance_tail tail n)"
  unfolding framebuf_header_def advance_tail_def Let_def
  by (intro preserves_intros program_intros; simp)+

lemma keep_start [program_intros]: "preserves I (start_container pid tail len)"
  unfolding start_container_def Let_def by (intro preserves_intros program_intros; simp)

lemma keep_consume_request [program_intros]: "preserves I (consume_request k r pid head tail)"
  unfolding consume_request_def Let_def by (intro preserves_intros program_intros; simp)

lemma keep_consume_round [program_intros]: "preserves I (consume_round k r)"
  unfolding consume_round_def by (intro preserves_intros program_intros; simp)

lemma keep_consume [program_intros]: "preserves I (ptp_consume k priv)"
  unfolding ptp_consume_def by (intro preserves_intros program_intros; simp)

lemma keep_timer [program_intros]: "preserves I (ptp_timer k)"
  unfolding ptp_timer_def by (intro preserves_intros program_intros; simp)

lemma keep_rx_start [program_intros]: "preserves I (rx_start pid)"
  unfolding rx_start_def Let_def by (intro preserves_intros program_intros; simp)

lemma keep_frame_done [program_intros]: "preserves I (frame_done k head tail)"
  unfolding frame_done_def by (intro preserves_intros program_intros; simp)

lemma keep_data_complete [program_intros]: "preserves I (ptp_data_complete k pid)"
  unfolding ptp_data_complete_def Let_def by (intro preserves_intros program_intros; simp)

lemma keep_cmd_complete [program_intros]: "preserves I (ptp_cmd_complete k pid)"
  unfolding ptp_cmd_complete_def by (intro preserves_intros program_intros; simp)

lemma keep_giveback [program_intros]: "preserves I (usb_giveback k pid st bs actual)"
proof -
  have c: "preserves I (case c of Stub_complete \<Rightarrow> stub_complete_request k pid
      | Ptp_data_complete \<Rightarrow> ptp_data_complete k pid | Ptp_cmd_complete \<Rightarrow> ptp_cmd_complete k pid)" for c
    by (cases c; simp only: ptp_completion.case; intro program_intros)
  show ?thesis unfolding usb_giveback_def by (intro preserves_intros program_intros c; simp)
qed

lemma keep_build [program_intros]: "preserves I (build_free_urbs k n)"
proof (induction n)
  case (Suc n)
  show ?case unfolding build_free_urbs.simps by (intro preserves_intros program_intros Suc.IH)
qed (simp only: build_free_urbs.simps preserves_ret)

lemma keep_alloc [program_intros]: "preserves I (alloc_frames k pid)"
  unfolding alloc_frames_def by (intro preserves_intros program_intros; simp)

lemma keep_rx_resume [program_intros]: "preserves I (rx_resume k pid)"
  unfolding rx_resume_def by (intro preserves_intros program_intros; simp)

lemma keep_rx_preview [program_intros]: "preserves I (rx_preview k pdu pid)"
  unfolding rx_preview_def stream_on_def by (intro preserves_intros program_intros; simp)

lemma keep_rx_command [program_intros]: "preserves I (rx_command pid)"
  unfolding rx_command_def by (intro preserves_intros program_intros)

text \<open>The client sends nothing to parse: the urb is not for a bulk endpoint, or it asks for data.\<close>

lemma keep_learn [program_intros]: "preserves I (learn_pipes udev pdu p)"
  unfolding learn_pipes_def by (intro preserves_intros program_intros; simp)

lemma keep_on_rx_of:
  assumes "preserves I (ptp_parse M_rx pid)"
  shows "preserves I (ptp_on_rx k udev pdu pid)"
  unfolding ptp_on_rx_def by (intro preserves_intros program_intros assms; simp)

lemma keep_rx_answer:
  assumes "usb_pipein (pu_pipe u) \<or> usb_pipetype (pu_pipe u) \<noteq> PIPE_BULK"
  shows "preserves I (rx_event k udev pdu u)"
proof (unfold preserves_def, rule hoareI)
  fix s a t assume i: "I s" and run: "run_state (rx_event k udev pdu u) s = (a, t)"
  obtain s1 where n: "run_state (new_request u) s = (pf_next s, s1)" "pu_pipe (pf_urb s1 (pf_next s)) = pu_pipe u"
    by (simp add: new_request_def)
  have i1: "I s1" by (rule preservesD [OF keep_queues(3) i n(1)])
  obtain r s2 where o: "run_state (ptp_on_rx k udev pdu (pf_next s)) s1 = (r, s2)" by (rule prod.exhaust)
  have "I s2"
  proof (cases "pf_state s1 = ptpfs_bypassed \<or> usb_pipetype (pu_pipe u) \<noteq> PIPE_BULK")
    case True
    then show ?thesis using o n(2) i1 by (auto simp: ptp_on_rx_def)
  next
    case False
    let ?m = "do { learn_pipes udev pdu (pu_pipe u); spin_lock; srv \<leftarrow> gets frame_serving;
        r \<leftarrow> (if srv then ptp_consume k (Some (pf_next s)) else if ptpfs_active \<le> pf_state s1 then ptp_produce k (Some (pf_next s)) else ret 0);
        spin_unlock; ret r }"
    have "run_state ?m s1 = (r, s2)" using o n(2) False assms by (simp add: ptp_on_rx_def)
    moreover have "preserves I ?m" by (intro preserves_intros program_intros)
    ultimately show ?thesis using i1 by (blast intro: preservesD)
  qed
  moreover have "run_state (do { (if r = 0 then stub_submit k (pf_next s) else ret ()); ret r }) s2 = (a, t)"
    using run n(1) o by (simp add: rx_event_def)
  moreover have "preserves I (do { (if r = 0 then stub_submit k (pf_next s) else ret ()); ret r })"
    by (intro preserves_intros program_intros)
  ultimately show "I t" by (blast intro: preservesD)
qed

lemma keep_timer_event [program_intros]: "preserves I (timer_event k)"
  unfolding timer_event_def by (intro preserves_intros program_intros)

lemma answer_step: "ptp_answer_step k s t \<Longrightarrow> I s \<Longrightarrow> I t"
proof (induction rule: ptp_answer_step.induct)
  case (rx u s udev pdu)
  then show ?case using preservesD [OF keep_rx_answer] by (metis prod.collapse)
next
  case (giveback pid s st bs actual)
  then show ?case using preservesD [OF keep_giveback] by (metis prod.collapse)
next
  case (timer s)
  then show ?case using preservesD [OF keep_timer_event] by (metis prod.collapse)
next
  case (clock s w)
  from clock show ?case by (rule same [rotated -1]) simp_all
qed

lemma answer_steps: "ptp_answer_steps k s t \<Longrightarrow> I s \<Longrightarrow> I t"
  unfolding ptp_answer_steps_def by (induction rule: rtranclp_induct) (auto dest: answer_step)

end

text \<open>Predicates to which the client's number does not matter are kept by every event.\<close>

locale ptp_program = ptp_answers +
  assumes numbers: "I s \<Longrightarrow> I (s\<lparr>rx_trans_id := t\<rparr>)"
begin

lemma keep_rewrite_rx: "preserves I (rewrite_trans_id m pid off tid)"
proof (cases "m = M_rx")
  case True
  have "preserves I (modify (\<lambda>s. s\<lparr>rx_trans_id := tid\<rparr>))" by (rule preserves_modify, rule numbers)
  then show ?thesis
    unfolding rewrite_trans_id_def True ptp_machine.case by (rule preserves_bind) (intro preserves_intros program_intros)
qed (rule keep_rewrite)

lemma keep_on_rx: "preserves I (ptp_on_rx k udev pdu pid)"
  by (intro keep_on_rx_of keep_parse_of keep_rewrite_rx)

lemma step: "ptp_step k s t \<Longrightarrow> I s \<Longrightarrow> I t"
proof (induction rule: ptp_step.induct)
  case (rx s udev pdu u)
  have "preserves I (rx_event k udev pdu u)"
    unfolding rx_event_def by (intro preserves_intros program_intros keep_on_rx)
  then show ?case using rx preservesD by (metis prod.collapse)
next
  case (giveback pid s st bs actual)
  then show ?case using preservesD [OF keep_giveback] by (metis prod.collapse)
next
  case (timer s)
  then show ?case using preservesD [OF keep_timer_event] by (metis prod.collapse)
next
  case (clock s w)
  from clock show ?case by (rule same [rotated -1]) simp_all
qed

lemma steps: "ptp_steps k s t \<Longrightarrow> I s \<Longrightarrow> I t"
  unfolding ptp_steps_def by (induction rule: rtranclp_induct) (auto dest: step)

end

section \<open>Interpretations\<close>

interpretation hang: ptp_program pf_hang
  by unfold_locales simp_all

text \<open>The number of the client's last command.\<close>

interpretation number: ptp_answers "\<lambda>s. rx_trans_id s = c" for c
  by unfold_locales simp_all

end
