(* ===== verification/PtpParse.thy ===== *)
theory PtpParse
  imports PtpAccount
begin

text \<open>
  The parser of the PTP filter on a request that holds one whole container: what it makes of the
  state (\<open>parse_whole\<close>), and the transaction number it writes (\<open>after_header_rx\<close>, \<open>after_header_tx\<close>).
\<close>

section \<open>One container\<close>

definition ptp_container :: "u16 \<Rightarrow> u16 \<Rightarrow> u32 \<Rightarrow> byte list \<Rightarrow> byte list" where
  "ptp_container ty code tid pl =
     bytes_le32 (of_nat (12 + length pl)) @ bytes_le16 ty @ bytes_le16 code @ bytes_le32 tid @ pl"

lemma length_container [simp]: "length (ptp_container ty code tid pl) = 12 + length pl"
  by (simp add: ptp_container_def)

lemma get_header_container:
  "get_bulk_header (slice 0 12 (ptp_container ty code tid pl @ r)) =
     \<lparr>ph_length = of_nat (12 + length pl), ph_type = ty, ph_code = code, ph_trans_id = tid\<rparr>"
proof -
  have "slice 0 12 (ptp_container ty code tid pl @ r) =
      bytes_le32 (of_nat (12 + length pl)) @ bytes_le16 ty @ bytes_le16 code @ bytes_le32 tid"
    by (simp add: slice_def ptp_container_def)
  then show ?thesis
    by (simp only: get_bulk_header_def) (simp add: slice_def)
qed

lemma retag_container:
  "overwrite 8 (bytes_le32 t) (ptp_container ty code tid pl @ r) = ptp_container ty code t pl @ r"
  by (simp add: ptp_container_def overwrite_def)

text \<open>What the parser of machine \<open>m\<close> does with a container that is all there.\<close>

definition after_header :: "ptp_machine \<Rightarrow> addr \<Rightarrow> PTPUSBBulkHeader \<Rightarrow> 'w ptp_filter \<Rightarrow> 'w ptp_filter" where
  "after_header m pid h s = snd (run_state (do {
     upd_machine m (\<lambda>x. x\<lparr>sm_ptpdu := h\<rparr>);
     ptp_check_new_session m;
     rewrite_trans_id m pid 0 (ph_trans_id h);
     upd_machine m (\<lambda>x. x\<lparr>sm_state := phase_of (ph_type h), sm_size := of_nat sizeof_bulk_header\<rparr>)
   }) s)"

definition after_payload :: "ptp_machine \<Rightarrow> addr \<Rightarrow> u16 \<Rightarrow> 'w ptp_filter \<Rightarrow> 'w ptp_filter" where
  "after_payload m pid ty s =
     (let s1 = snd (run_state (upd_machine m (\<lambda>x. x\<lparr>sm_state :=
        (if ty = PTP_USB_CONTAINER_RESPONSE then ptpps_none else ptpps_wait_response)\<rparr>)) s)
      in if ty = PTP_USB_CONTAINER_RESPONSE \<and> m \<noteq> M_rx \<and> frame_serving_urb s \<noteq> Some pid
         then s1\<lparr>pf_trans_id := pf_trans_id s1 + 1\<rparr> else s1)"

lemma keeps_park: "keeps pf_machine (park_commands pids)"
proof (induction pids)
  case Nil
  show ?case unfolding park_commands.simps by (intro keeps_intros)
next
  case (Cons a pids)
  show ?case unfolding park_commands.simps list_move_tail_def by (intro keeps_intros keeps_modify Cons.IH) simp
qed

lemma keeps_change_state: "keeps pf_machine (ptp_change_state lk st)"
  unfolding ptp_change_state_def spin_lock_def del_timer_def set_state_def spin_unlock_def
  by (intro keeps_intros keeps_modify keeps_park) simp_all

lemma set_urb_bytes_machine [simp]: "pf_machine (set_urb_bytes pid bs s) = pf_machine s"
  by (simp add: set_urb_bytes_def split: ptp_buf.split)

lemma keeps_session: "keeps pf_machine (ptp_check_new_session m)"
  unfolding ptp_check_new_session_def new_session_def spin_lock_def
  by (intro keeps_intros keeps_modify keeps_change_state) simp_all

lemma keeps_rewrite: "keeps pf_machine (rewrite_trans_id m pid off tid)"
  unfolding rewrite_trans_id_def poke32_def
  by (cases m; simp only: ptp_machine.case; intro keeps_intros keeps_modify; simp)

lemma after_header_machine:
  "pf_machine (after_header m pid h s) m = \<lparr>sm_state = phase_of (ph_type h), sm_size = 12, sm_ptpdu = h\<rparr>"
proof -
  obtain s1 where s1: "run_state (upd_machine m (\<lambda>x. x\<lparr>sm_ptpdu := h\<rparr>)) s = ((), s1)"
    "sm_ptpdu (pf_machine s1 m) = h" by (simp add: upd_machine_def)
  obtain s2 where s2: "run_state (ptp_check_new_session m) s1 = ((), s2)" by (metis old.unit.exhaust prod.exhaust)
  obtain s3 where s3: "run_state (rewrite_trans_id m pid 0 (ph_trans_id h)) s2 = ((), s3)"
    by (metis old.unit.exhaust prod.exhaust)
  have "pf_machine s3 = pf_machine s1"
    using keepsD [OF keeps_session s2] keepsD [OF keeps_rewrite s3] by simp
  then show ?thesis
    using s1 s2 s3 by (simp add: after_header_def upd_machine_def sizeof_bulk_header_def)
qed

lemma unat_of_nat_small: "n < 2 ^ 32 \<Longrightarrow> unat (of_nat n :: u32) = n"
  by (simp add: unat_of_nat take_bit_nat_eq_self)

lemma parse_header_ok:
  assumes "\<not> pr_len r < 12" and "pr_off r = 0" and "urb_bytes s pid = bs" and "12 \<le> length bs"
    and "phase_of (ph_type (get_bulk_header (slice 0 12 bs))) \<noteq> ptpps_unkonwn"
  shows "run_state (parse_header m pid r) s =
    (Some (r\<lparr>pr_off := 12, pr_len := pr_len r - 12\<rparr>), after_header m pid (get_bulk_header (slice 0 12 bs)) s)"
proof -
  have pk: "run_state (peek pid (pr_off r) sizeof_bulk_header) s = (Some (slice 0 12 bs), s)"
    using assms(2-4) by (simp add: peek_def sizeof_bulk_header_def)
  show ?thesis
    using assms(1,2,5) pk
    by (simp add: parse_header_def after_header_def sizeof_bulk_header_def split: prod.splits)
qed

lemma parse_payload_whole:
  assumes pm: "pf_machine s m = \<lparr>sm_state = phase_of ty, sm_size = 12, sm_ptpdu = h\<rparr>"
    and r: "pr_len r = ph_length h - 12"
  shows "run_state (parse_payload m pid r) s =
    (r\<lparr>pr_off := pr_off r + uint (ph_length h - 12), pr_len := 0,
       pr_done := pr_done r \<or> ty = PTP_USB_CONTAINER_RESPONSE\<rparr>, after_payload m pid ty s)"
proof -
  have rs: "phase_of ty = ptpps_response \<longleftrightarrow> ty = PTP_USB_CONTAINER_RESPONSE"
    by (auto simp: phase_of_def ptp_defs)
  have nl: "\<not> pr_len r + sm_size (pf_machine s m) < ph_length (sm_ptpdu (pf_machine s m))"
    using r pm by simp
  show ?thesis
  proof (cases "ty = PTP_USB_CONTAINER_RESPONSE")
    case True
    then show ?thesis using nl pm r rs by (simp add: parse_payload_def after_payload_def upd_machine_def Let_def)
  next
    case False
    then show ?thesis using nl pm r rs by (simp add: parse_payload_def after_payload_def upd_machine_def Let_def)
  qed
qed

lemma parse_whole:
  assumes st: "sm_state (pf_machine s m) \<in> {ptpps_none, ptpps_wait_response}"
    and b: "urb_bytes s pid = ptp_container ty code tid pl"
    and len: "(if usb_pipein (pu_pipe (pf_urb s pid)) then pu_actual (pf_urb s pid) else pu_length (pf_urb s pid)) =
      of_nat (12 + length pl)"
    and small: "12 + length pl < 2 ^ 32"
    and ty: "ty \<in> {PTP_USB_CONTAINER_COMMAND, PTP_USB_CONTAINER_DATA, PTP_USB_CONTAINER_RESPONSE}"
  shows "run_state (ptp_parse m pid) s =
    (ty = PTP_USB_CONTAINER_RESPONSE,
     after_payload m pid ty (after_header m pid
       \<lparr>ph_length = of_nat (12 + length pl), ph_type = ty, ph_code = code, ph_trans_id = tid\<rparr> s))"
proof -
  let ?h = "\<lparr>ph_length = of_nat (12 + length pl), ph_type = ty, ph_code = code, ph_trans_id = tid\<rparr>"
  let ?s1 = "after_header m pid ?h s" and ?n = "of_nat (12 + length pl) :: u32"
  have u: "unat ?n = 12 + length pl" by (rule unat_of_nat_small [OF small])
  obtain n :: u32 where n: "n = ?n" by blast
  define r0 where "r0 = \<lparr>pr_off = 0, pr_len = n, pr_done = False, pr_ret = False\<rparr>"
  define r1 where "r1 = \<lparr>pr_off = 12, pr_len = n - 12, pr_done = False, pr_ret = False\<rparr>"
  define r2 where "r2 = \<lparr>pr_off = 12 + uint (n - 12), pr_len = 0, pr_done = (ty = PTP_USB_CONTAINER_RESPONSE), pr_ret = False\<rparr>"
  have ge: "\<not> n < 12" using u n by (simp only: word_less_nat_alt) simp
  have nz: "n \<noteq> 0" using u n by (metis add_is_0 unat_0 zero_neq_numeral)
  have gh: "get_bulk_header (slice 0 12 (ptp_container ty code tid pl)) = ?h"
    using get_header_container [of ty code tid pl "[]"] by simp
  have ph: "phase_of ty \<noteq> ptpps_unkonwn" using ty by (auto simp: phase_of_def)
  have hd: "run_state (parse_header m pid r0) s = (Some r1, ?s1)"
  proof -
    have "run_state (parse_header m pid r0) s =
        (Some (r0\<lparr>pr_off := 12, pr_len := pr_len r0 - 12\<rparr>), after_header m pid (get_bulk_header (slice 0 12 (ptp_container ty code tid pl))) s)"
      by (rule parse_header_ok [OF _ _ b]) (use ge ph in \<open>simp_all only: gh, simp_all add: r0_def\<close>)
    then show ?thesis by (simp only: gh) (simp add: r0_def r1_def)
  qed
  have pm: "pf_machine ?s1 m = \<lparr>sm_state = phase_of ty, sm_size = 12, sm_ptpdu = ?h\<rparr>"
    using after_header_machine [of m pid ?h s] by simp
  have pl: "run_state (parse_payload m pid r1) ?s1 = (r2, after_payload m pid ty ?s1)"
    using parse_payload_whole [OF pm, of r1 pid] n by (simp add: r1_def r2_def)
  have rd: "run_state (parse_round m pid r0) s = (r2, after_payload m pid ty ?s1)"
    using st hd pl by (auto simp: parse_round_def)
  have "run_state (parse_loop m pid r0) s = (Some r2, after_payload m pid ty ?s1)"
    unfolding parse_loop_def
  proof (rule run_loop_step)
    show "pr_len r0 \<noteq> 0 \<and> \<not> pr_ret r0" using nz by (simp add: r0_def)
    show "run_state (parse_round m pid r0) s = (r2, after_payload m pid ty ?s1)" by (rule rd)
    show "run_state (loop (\<lambda>r. pr_len r \<noteq> 0 \<and> \<not> pr_ret r) (parse_round m pid) r2) (after_payload m pid ty ?s1) =
        (Some r2, after_payload m pid ty ?s1)"
      by (rule run_loop_stop) (simp add: r2_def)
  qed
  then have "run_state (ptp_parse m pid) s = (pr_done r2, after_payload m pid ty ?s1)"
    by (simp only: r0_def) (simp add: ptp_parse_def len [folded n] del: of_nat_add of_nat_Suc of_nat_numeral)
  then show ?thesis by (simp only: r2_def parse_regs.simps)
qed

section \<open>Transaction numbers\<close>

lemma urb_bytes_same [simp]:
  "urb_bytes (s\<lparr>pf_machine := m\<rparr>) p = urb_bytes s p" "urb_bytes (s\<lparr>pf_trans_id := t\<rparr>) p = urb_bytes s p"
  "urb_bytes (s\<lparr>rx_trans_id := t\<rparr>) p = urb_bytes s p" "urb_bytes (s\<lparr>pf_state := st\<rparr>) p = urb_bytes s p"
  "urb_bytes (s\<lparr>pf_held := b\<rparr>) p = urb_bytes s p" "urb_bytes (s\<lparr>pf_hang := b\<rparr>) p = urb_bytes s p"
  "urb_bytes (s\<lparr>pf_timer := tm\<rparr>) p = urb_bytes s p" "urb_bytes (s\<lparr>pf_queue := qs\<rparr>) p = urb_bytes s p"
  "urb_bytes (s\<lparr>frame_serving_urb := x\<rparr>) p = urb_bytes s p"
  by (simp_all add: urb_bytes_def split: ptp_buf.split)

lemma urb_bytes_set_own:
  assumes "pu_buf (pf_urb s pid) = Own bs0"
  shows "urb_bytes (set_urb_bytes pid bs s) pid = bs" and "rx_trans_id (set_urb_bytes pid bs s) = rx_trans_id s"
    and "pf_trans_id (set_urb_bytes pid bs s) = pf_trans_id s"
    and "frame_serving_urb (set_urb_bytes pid bs s) = frame_serving_urb s"
  using assms by (simp_all add: urb_bytes_def set_urb_bytes_def)

lemma after_header_rx:
  assumes own: "pu_buf (pf_urb s pid) = Own bs0" and b: "urb_bytes s pid = ptp_container ty code c pl"
    and h: "ph_type h = ty" "ph_code h = code" "ph_trans_id h = c"
    and no: "code \<noteq> PTP_OC_OpenSession" "code \<noteq> PTP_OC_CloseSession"
  shows "urb_bytes (after_header M_rx pid h s) pid = ptp_container ty code (pf_trans_id s) pl"
    and "rx_trans_id (after_header M_rx pid h s) = c"
proof -
  let ?s1 = "s\<lparr>pf_machine := (pf_machine s)(M_rx := (pf_machine s M_rx)\<lparr>sm_ptpdu := h\<rparr>), rx_trans_id := c\<rparr>"
  have o1: "pu_buf (pf_urb ?s1 pid) = Own bs0" "urb_bytes ?s1 pid = urb_bytes s pid"
    using own by (simp_all add: urb_bytes_def)
  have r: "after_header M_rx pid h s = snd (run_state (upd_machine M_rx (\<lambda>x. x\<lparr>sm_state := phase_of ty, sm_size := 12\<rparr>))
      (set_urb_bytes pid (overwrite 8 (bytes_le32 (pf_trans_id s)) (urb_bytes ?s1 pid)) ?s1))"
    using h no by (simp add: after_header_def upd_machine_def ptp_check_new_session_def rewrite_trans_id_def
        poke32_def sizeof_bulk_header_def)
  show "urb_bytes (after_header M_rx pid h s) pid = ptp_container ty code (pf_trans_id s) pl"
    unfolding r using urb_bytes_set_own(1) [OF o1(1)] o1(2) b retag_container [of "pf_trans_id s" ty code c pl "[]"]
    by (simp add: upd_machine_def)
  show "rx_trans_id (after_header M_rx pid h s) = c"
    unfolding r using urb_bytes_set_own(2) [OF o1(1)] by (simp add: upd_machine_def)
qed

lemma after_header_tx:
  assumes own: "pu_buf (pf_urb s pid) = Own bs0" and b: "urb_bytes s pid = ptp_container ty code t pl"
    and h: "ph_type h = ty" "ph_code h = code"
  shows "urb_bytes (after_header M_tx pid h s) pid = ptp_container ty code (rx_trans_id s) pl"
    and "pf_trans_id (after_header M_tx pid h s) = pf_trans_id s"
    and "frame_serving_urb (after_header M_tx pid h s) = frame_serving_urb s"
proof -
  let ?s1 = "s\<lparr>pf_machine := (pf_machine s)(M_tx := (pf_machine s M_tx)\<lparr>sm_ptpdu := h\<rparr>)\<rparr>"
  have o1: "pu_buf (pf_urb ?s1 pid) = Own bs0" "urb_bytes ?s1 pid = urb_bytes s pid"
    using own by (simp_all add: urb_bytes_def)
  have r: "after_header M_tx pid h s = snd (run_state (upd_machine M_tx (\<lambda>x. x\<lparr>sm_state := phase_of ty, sm_size := 12\<rparr>))
      (set_urb_bytes pid (overwrite 8 (bytes_le32 (rx_trans_id s)) (urb_bytes ?s1 pid)) ?s1))"
    using h by (simp add: after_header_def upd_machine_def ptp_check_new_session_def rewrite_trans_id_def
        poke32_def sizeof_bulk_header_def)
  show "urb_bytes (after_header M_tx pid h s) pid = ptp_container ty code (rx_trans_id s) pl"
    unfolding r using urb_bytes_set_own(1) [OF o1(1)] o1(2) b retag_container [of "rx_trans_id s" ty code t pl "[]"]
    by (simp add: upd_machine_def)
  show "pf_trans_id (after_header M_tx pid h s) = pf_trans_id s"
    unfolding r using urb_bytes_set_own(3) [OF o1(1)] by (simp add: upd_machine_def)
  show "frame_serving_urb (after_header M_tx pid h s) = frame_serving_urb s"
    unfolding r using urb_bytes_set_own(4) [OF o1(1)] by (simp add: upd_machine_def)
qed

lemma after_payload_bytes [simp]:
  "urb_bytes (after_payload m pid ty s) p = urb_bytes s p" "rx_trans_id (after_payload m pid ty s) = rx_trans_id s"
  by (simp_all add: after_payload_def Let_def upd_machine_def)

end
