(* ===== verification/PtpEnds.thy ===== *)
theory PtpEnds
  imports PtpParse
begin

text \<open>
  The loop of the parser of the PTP filter ends whatever the bytes are, what it leaves behind when it
  ends, and where it leaves the buffer.
\<close>

section \<open>The bytes of a request keep their length\<close>

definition buffers :: "'w ptp_filter \<Rightarrow> (addr \<Rightarrow> ptp_urb) \<times> byte list option \<times> byte list option" where
  "buffers s = (pf_urb s, frame_buffer s, trigger_ptpdu s)"

lemma urb_bytes_buffers: "buffers t = buffers s \<Longrightarrow> urb_bytes t pid = urb_bytes s pid"
  by (simp add: buffers_def urb_bytes_def split: ptp_buf.split)

lemma keeps_buffers_park: "keeps buffers (park_commands pids)"
proof (induction pids)
  case Nil
  show ?case unfolding park_commands.simps by (intro keeps_intros)
next
  case (Cons a pids)
  show ?case unfolding park_commands.simps list_move_tail_def
    by (intro keeps_intros keeps_modify Cons.IH) (simp add: buffers_def)
qed

lemma keeps_buffers_state: "keeps buffers (ptp_change_state lk st)"
  unfolding ptp_change_state_def spin_lock_def del_timer_def set_state_def spin_unlock_def
  by (intro keeps_intros keeps_modify keeps_buffers_park; simp add: buffers_def)

lemma keeps_buffers_machine: "keeps buffers (upd_machine m f)"
  unfolding upd_machine_def by (intro keeps_modify) (simp add: buffers_def)

lemma keeps_buffers_session: "keeps buffers (ptp_check_new_session m)"
  unfolding ptp_check_new_session_def new_session_def spin_lock_def
  by (intro keeps_intros keeps_modify keeps_buffers_state; simp add: buffers_def)

lemma keeps_buffers_payload: "keeps buffers (parse_payload m pid r)"
  unfolding parse_payload_def Let_def
  by (intro keeps_intros keeps_modify keeps_buffers_machine; simp add: buffers_def)

lemma urb_bytes_set:
  assumes "urb_bytes s pid \<noteq> []"
  shows "urb_bytes (set_urb_bytes pid bs s) pid = bs"
  using assms by (auto simp: urb_bytes_def set_urb_bytes_def split: ptp_buf.splits option.splits)

lemma length_poke:
  assumes "run_state (poke32 pid off v) s = (x, s')" and "0 \<le> off" and "nat off + 4 \<le> length (urb_bytes s pid)"
  shows "length (urb_bytes s' pid) = length (urb_bytes s pid)"
proof -
  have "urb_bytes s pid \<noteq> []" using assms(3) by auto
  then show ?thesis using assms by (auto simp: poke32_def urb_bytes_set length_overwrite)
qed

lemma length_rewrite:
  assumes "run_state (rewrite_trans_id m pid off tid) s = (x, s')"
    and "0 \<le> off" and "nat off + 12 \<le> length (urb_bytes s pid)"
  shows "length (urb_bytes s' pid) = length (urb_bytes s pid)"
proof -
  have o: "0 \<le> off + 8" "nat (off + 8) + 4 \<le> length (urb_bytes s pid)" using assms(2,3) by auto
  show ?thesis
  proof (cases m)
    case M_rx
    then have p: "run_state (poke32 pid (off + 8) (pf_trans_id s)) (s\<lparr>rx_trans_id := tid\<rparr>) = (x, s')"
      using assms(1) by (simp add: rewrite_trans_id_def)
    show ?thesis using length_poke [OF p o(1)] o(2) by simp
  next
    case M_tx
    then have p: "run_state (poke32 pid (off + 8) (rx_trans_id s)) s = (x, s')"
      using assms(1) by (simp add: rewrite_trans_id_def)
    show ?thesis by (rule length_poke [OF p o])
  next
    case M_send
    then have p: "run_state (poke32 pid (off + 8) (pf_trans_id s)) s = (x, s')"
      using assms(1) by (simp add: rewrite_trans_id_def)
    show ?thesis by (rule length_poke [OF p o])
  qed (use assms(1) in \<open>simp add: rewrite_trans_id_def\<close>)
qed

lemma parse_header_inside:
  assumes "run_state (parse_header m pid r) s = (x, s')" and l: "\<not> pr_len r < of_nat sizeof_bulk_header"
    and o: "0 \<le> pr_off r \<and> nat (pr_off r) + 12 \<le> length (urb_bytes s pid)"
  obtains "x = None"
  | "x = Some (r\<lparr>pr_off := pr_off r + 12, pr_len := pr_len r - 12\<rparr>)" "0 \<le> pr_off r"
    "nat (pr_off r) + 12 \<le> length (urb_bytes s pid)" "length (urb_bytes s' pid) = length (urb_bytes s pid)"
proof -
  define h where "h = get_bulk_header (slice (nat (pr_off r)) 12 (urb_bytes s pid))"
  obtain s1 where s1: "run_state (upd_machine m (\<lambda>x. x\<lparr>sm_ptpdu := h\<rparr>)) s = ((), s1)"
    by (metis old.unit.exhaust prod.exhaust)
  obtain s2 where s2: "run_state (ptp_check_new_session m) s1 = ((), s2)" by (metis old.unit.exhaust prod.exhaust)
  obtain s3 where s3: "run_state (rewrite_trans_id m pid (pr_off r) (ph_trans_id h)) s2 = ((), s3)"
    by (metis old.unit.exhaust prod.exhaust)
  obtain s4 where s4: "run_state (upd_machine m (\<lambda>x. x\<lparr>sm_state := phase_of (ph_type h), sm_size := of_nat sizeof_bulk_header\<rparr>)) s3 = ((), s4)"
    by (metis old.unit.exhaust prod.exhaust)
  have e: "urb_bytes s2 pid = urb_bytes s pid" "urb_bytes s4 pid = urb_bytes s3 pid"
    by (rule urb_bytes_buffers, simp only: keepsD [OF keeps_buffers_machine s1] keepsD [OF keeps_buffers_session s2])
      (rule urb_bytes_buffers [OF keepsD [OF keeps_buffers_machine s4]])
  have "length (urb_bytes s3 pid) = length (urb_bytes s2 pid)"
    by (rule length_rewrite [OF s3]) (use o e in simp_all)
  then have len: "length (urb_bytes s4 pid) = length (urb_bytes s pid)" using e by simp
  have pk: "run_state (peek pid (pr_off r) sizeof_bulk_header) s = (Some (slice (nat (pr_off r)) 12 (urb_bytes s pid)), s)"
    using o by (simp add: peek_def sizeof_bulk_header_def)
  have run: "run_state (parse_header m pid r) s = run_state (if phase_of (ph_type h) = ptpps_unkonwn then do { ptp_bypass1; ret None }
      else ret (Some (r\<lparr>pr_off := pr_off r + int sizeof_bulk_header, pr_len := pr_len r - of_nat sizeof_bulk_header\<rparr>))) s4"
    unfolding parse_header_def using l by (simp add: pk s1 [unfolded h_def] s2 s3 [unfolded h_def] s4 [unfolded h_def] h_def)
  show thesis
  proof (cases "phase_of (ph_type h) = ptpps_unkonwn")
    case True
    then have "x = None" using run assms by (simp split: prod.splits)
    then show thesis by (rule that(1))
  next
    case False
    then have "x = Some (r\<lparr>pr_off := pr_off r + 12, pr_len := pr_len r - 12\<rparr>)" "s' = s4"
      using run assms by (simp_all add: sizeof_bulk_header_def)
    then show thesis using that(2) o len by simp
  qed
qed

lemma parse_header_cases:
  assumes "run_state (parse_header m pid r) s = (x, s')"
  obtains "x = None"
  | "x = Some (r\<lparr>pr_off := pr_off r + 12, pr_len := pr_len r - 12\<rparr>)" "0 \<le> pr_off r"
    "nat (pr_off r) + 12 \<le> length (urb_bytes s pid)" "length (urb_bytes s' pid) = length (urb_bytes s pid)"
proof (cases "pr_len r < of_nat sizeof_bulk_header")
  case True
  then have "x = None" using assms by (simp add: parse_header_def split: prod.splits)
  then show thesis by (rule that(1))
next
  case l: False
  show thesis
  proof (cases "0 \<le> pr_off r \<and> nat (pr_off r) + 12 \<le> length (urb_bytes s pid)")
    case False
    then have "run_state (peek pid (pr_off r) sizeof_bulk_header) s = (None, s\<lparr>pf_oops := True\<rparr>)"
      by (auto simp: peek_def crash_def sizeof_bulk_header_def)
    then have "x = None" using assms l by (simp add: parse_header_def)
    then show thesis by (rule that(1))
  next
    case o: True
    show thesis by (rule parse_header_inside [OF assms l o]) (use that in simp_all)
  qed
qed

section \<open>The loop ends\<close>

abbreviation between :: "ptp_machine \<Rightarrow> 'w ptp_filter \<Rightarrow> bool" where
  "between m s \<equiv> sm_state (pf_machine s m) = ptpps_wait_response \<or> sm_state (pf_machine s m) = ptpps_none"

lemma parse_payload_cases:
  assumes "run_state (parse_payload m pid r) s = (r', s')"
  shows "pr_off r \<le> pr_off r'" and "pr_ret r' = pr_ret r" and "pr_len r' = 0 \<or> between m s'"
    and "urb_bytes s' pid = urb_bytes s pid"
proof -
  let ?x = "pf_machine s m"
  show "urb_bytes s' pid = urb_bytes s pid"
    by (rule urb_bytes_buffers [OF keepsD [OF keeps_buffers_payload assms]])
  have "pr_off r \<le> pr_off r' \<and> pr_ret r' = pr_ret r \<and> (pr_len r' = 0 \<or> between m s')"
  proof (cases "pr_len r + sm_size ?x < ph_length (sm_ptpdu ?x)")
    case True
    then show ?thesis using assms by (auto simp: parse_payload_def upd_machine_def)
  next
    case False
    then show ?thesis using assms
      by (cases "sm_state ?x = ptpps_response") (auto simp: parse_payload_def upd_machine_def Let_def split: if_splits)
  qed
  then show "pr_off r \<le> pr_off r'" and "pr_ret r' = pr_ret r" and "pr_len r' = 0 \<or> between m s'" by blast+
qed

text \<open>How far the parser still is from the end of the bytes, and whether a header comes next.\<close>

definition parse_left :: "ptp_machine \<Rightarrow> addr \<Rightarrow> parse_regs \<Rightarrow> 'w ptp_filter \<Rightarrow> nat" where
  "parse_left m pid r s =
     (if pr_len r = 0 \<or> pr_ret r then 0
      else 1 + 2 * nat (int (length (urb_bytes s pid)) - pr_off r) + (if between m s then 0 else 1))"

lemma parse_left_payload:
  assumes "run_state (parse_payload m pid r) s = (r', s')"
  shows "parse_left m pid r' s' \<le> 1 + 2 * nat (int (length (urb_bytes s pid)) - pr_off r)"
  using parse_payload_cases [OF assms] by (auto simp: parse_left_def)

lemma parse_round_shrinks:
  assumes run: "run_state (parse_round m pid r) s = (r', s')" and off: "0 \<le> pr_off r"
    and go: "pr_len r \<noteq> 0" "\<not> pr_ret r"
  shows "0 \<le> pr_off r' \<and> parse_left m pid r' s' < parse_left m pid r s"
proof (cases "between m s")
  case False
  then have p: "run_state (parse_payload m pid r) s = (r', s')" using run by (simp add: parse_round_def)
  show ?thesis
    using parse_left_payload [OF p] parse_payload_cases(1) [OF p] off go False by (simp add: parse_left_def)
next
  case True
  obtain x s1 where h: "run_state (parse_header m pid r) s = (x, s1)" by (rule prod.exhaust)
  show ?thesis
  proof (rule parse_header_cases [OF h])
    assume "x = None"
    then have "r' = r\<lparr>pr_done := False, pr_ret := True\<rparr>" using run True h by (simp add: parse_round_def)
    then show ?thesis using off go by (simp add: parse_left_def)
  next
    let ?r1 = "r\<lparr>pr_off := pr_off r + 12, pr_len := pr_len r - 12\<rparr>"
    assume x: "x = Some ?r1" and i: "nat (pr_off r) + 12 \<le> length (urb_bytes s pid)"
      and l: "length (urb_bytes s1 pid) = length (urb_bytes s pid)"
    have p: "run_state (parse_payload m pid ?r1) s1 = (r', s')" using run True h x by (simp add: parse_round_def)
    have "nat (int (length (urb_bytes s pid)) - (pr_off r + 12)) < nat (int (length (urb_bytes s pid)) - pr_off r)"
      using i off by linarith
    then show ?thesis
      using parse_left_payload [OF p] parse_payload_cases(1) [OF p] off go True l by (simp add: parse_left_def)
  qed
qed

lemma parse_loop_ends:
  assumes "0 \<le> pr_off r"
  shows "fst (run_state (parse_loop m pid r) s) \<noteq> None"
proof -
  let ?b = "\<lambda>(r, s). pr_len r \<noteq> 0 \<and> \<not> pr_ret r" and ?c = "\<lambda>(r, s). run_state (parse_round m pid r) s"
  have "\<exists>t. while_option ?b ?c (r, s) = Some t"
  proof (rule measure_while_option_Some [where P = "\<lambda>(r, s). 0 \<le> pr_off r" and f = "\<lambda>(r, s). parse_left m pid r s"])
    fix x :: "parse_regs \<times> 'a ptp_filter"
    assume i: "case x of (r, s) \<Rightarrow> 0 \<le> pr_off r" and b: "case x of (r, s) \<Rightarrow> pr_len r \<noteq> 0 \<and> \<not> pr_ret r"
    obtain r0 s0 r1 s1 where x: "x = (r0, s0)" and c: "run_state (parse_round m pid r0) s0 = (r1, s1)"
      by (metis prod.exhaust)
    show "(case ?c x of (r, s) \<Rightarrow> 0 \<le> pr_off r) \<and> (case ?c x of (r, s) \<Rightarrow> parse_left m pid r s) <
        (case x of (r, s) \<Rightarrow> parse_left m pid r s)"
      using parse_round_shrinks [OF c] i b by (simp add: x c)
  qed (use assms in simp)
  then show ?thesis by (auto simp: parse_loop_def loop_def)
qed

section \<open>What the parser leaves behind\<close>

text \<open>The header of a command that opens or closes a session.\<close>

definition session_command :: "PTPUSBBulkHeader \<Rightarrow> bool" where
  "session_command h \<longleftrightarrow> ph_type h = PTP_USB_CONTAINER_COMMAND \<and> ph_code h \<in> {PTP_OC_OpenSession, PTP_OC_CloseSession}"

definition no_session :: "byte list \<Rightarrow> bool" where
  "no_session bs \<longleftrightarrow> (\<forall>off. off + 12 \<le> length bs \<longrightarrow> \<not> session_command (get_bulk_header (slice off 12 bs)))"

text \<open>The lock is free, the bytes the parser has not read are as they were, and if it returned the filter
  gave up or the parser was outside of the buffer.\<close>

definition parse_safe :: "ptp_machine \<Rightarrow> addr \<Rightarrow> byte list \<Rightarrow> parse_regs \<Rightarrow> 'w ptp_filter \<Rightarrow> bool" where
  "parse_safe m pid bs r s \<longleftrightarrow> \<not> pf_held s \<and> \<not> pf_hang s \<and> 0 \<le> pr_off r \<and>
     (if pr_ret r then pf_state s = ptpfs_bypassed \<or> pf_oops s
      else drop (nat (pr_off r)) (urb_bytes s pid) = drop (nat (pr_off r)) bs \<and> length (urb_bytes s pid) = length bs)"

lemma bypass1_gives_up:
  assumes "run_state ptp_bypass1 s = (x, t)" and "\<not> pf_held s" and "\<not> pf_hang s"
  shows "\<not> pf_held t \<and> \<not> pf_hang t \<and> pf_state t = ptpfs_bypassed"
  using assms
  by (cases "4 \<le> ptpfs_num (pf_state s)")
    (auto simp: ptp_bypass1_def ptp_bypass_def spin_lock_def spin_unlock_def ptp_change_state_def set_state_def del_timer_def
      ptpfs_order)

lemma keeps_buffers_bypass: "keeps buffers ptp_bypass1"
  unfolding ptp_bypass1_def ptp_bypass_def spin_lock_def spin_unlock_def
  by (intro keeps_intros keeps_modify keeps_buffers_state; simp add: buffers_def)

lemma keeps_lock_rewrite: "keeps (\<lambda>s. (pf_held s, pf_hang s)) (rewrite_trans_id m pid off tid)"
  unfolding rewrite_trans_id_def poke32_def
  by (cases m; simp only: ptp_machine.case; intro keeps_intros keeps_modify; simp add: set_urb_bytes_def split: ptp_buf.split)

lemma keeps_lock_payload: "keeps (\<lambda>s. (pf_held s, pf_hang s, pf_state s, pf_oops s)) (parse_payload m pid r)"
  unfolding parse_payload_def Let_def upd_machine_def by (intro keeps_intros keeps_modify; simp)

lemma rewrite_bytes:
  assumes "run_state (rewrite_trans_id m pid off tid) s = (x, t)" and "0 \<le> off" and "nat off + 12 \<le> length (urb_bytes s pid)"
  shows "drop (nat off + 12) (urb_bytes t pid) = drop (nat off + 12) (urb_bytes s pid)"
proof -
  have ne: "urb_bytes s pid \<noteq> []" using assms(3) by auto
  have o: "nat (off + 8) = nat off + 8" using assms(2) by simp
  have p: "drop (nat off + 12) (urb_bytes (snd (run_state (poke32 pid (off + 8) v) s')) pid) = drop (nat off + 12) (urb_bytes s pid)"
    if "urb_bytes s' pid = urb_bytes s pid" for v s'
    using ne assms(3) by (simp add: poke32_def urb_bytes_set that o overwrite_def add.commute)
  show ?thesis
    using assms(1) p [of s] p [of "s\<lparr>rx_trans_id := tid\<rparr>"]
    by (cases m) (auto simp: rewrite_trans_id_def poke32_def)
qed

lemma gives_up_safe:
  assumes "run_state ptp_bypass1 s = (x, t)" and "\<not> pf_held s" and "\<not> pf_hang s" and "0 \<le> pr_off r"
  shows "parse_safe m pid bs (r\<lparr>pr_done := False, pr_ret := True\<rparr>) t"
  using bypass1_gives_up [OF assms(1-3)] assms(4) by (simp add: parse_safe_def)

lemma no_session_skips:
  assumes "m = M_rx \<longrightarrow> \<not> session_command (sm_ptpdu (pf_machine s m))"
  shows "run_state (ptp_check_new_session m) s = ((), s)"
  using assms by (auto simp: ptp_check_new_session_def session_command_def)

lemma header_inside_safe:
  assumes run: "run_state (parse_header m pid r) s = (x, t)" and J: "parse_safe m pid bs r s" and go: "\<not> pr_ret r"
    and ns: "m = M_rx \<longrightarrow> no_session bs" and l: "\<not> pr_len r < of_nat sizeof_bulk_header"
    and o: "nat (pr_off r) + 12 \<le> length (urb_bytes s pid)"
  shows "parse_safe m pid bs (case x of None \<Rightarrow> r\<lparr>pr_done := False, pr_ret := True\<rparr> | Some r1 \<Rightarrow> r1) t"
proof -
  have j: "\<not> pf_held s" "\<not> pf_hang s" "0 \<le> pr_off r"
    "drop (nat (pr_off r)) (urb_bytes s pid) = drop (nat (pr_off r)) bs" "length (urb_bytes s pid) = length bs"
    using J go by (simp_all add: parse_safe_def)
  define h where "h = get_bulk_header (slice (nat (pr_off r)) 12 (urb_bytes s pid))"
  have hb: "h = get_bulk_header (slice (nat (pr_off r)) 12 bs)" using j(4) by (simp add: h_def slice_def)
  define s1 where "s1 = s\<lparr>pf_machine := (pf_machine s)(m := (pf_machine s m)\<lparr>sm_ptpdu := h\<rparr>)\<rparr>"
  have s1: "run_state (upd_machine m (\<lambda>x. x\<lparr>sm_ptpdu := h\<rparr>)) s = ((), s1)" by (simp add: upd_machine_def s1_def)
  have "m = M_rx \<longrightarrow> \<not> session_command h" using ns o j(5) by (simp add: no_session_def hb)
  then have s2: "run_state (ptp_check_new_session m) s1 = ((), s1)"
    by (intro no_session_skips) (simp add: s1_def)
  obtain s3 where s3: "run_state (rewrite_trans_id m pid (pr_off r) (ph_trans_id h)) s1 = ((), s3)"
    by (metis old.unit.exhaust prod.exhaust)
  define s4 where "s4 = s3\<lparr>pf_machine := (pf_machine s3)(m :=
    (pf_machine s3 m)\<lparr>sm_state := phase_of (ph_type h), sm_size := of_nat sizeof_bulk_header\<rparr>)\<rparr>"
  have s4: "run_state (upd_machine m (\<lambda>x. x\<lparr>sm_state := phase_of (ph_type h), sm_size := of_nat sizeof_bulk_header\<rparr>)) s3 = ((), s4)"
    by (simp add: upd_machine_def s4_def)
  have b1: "urb_bytes s1 pid = urb_bytes s pid" "urb_bytes s4 pid = urb_bytes s3 pid" by (simp_all add: s1_def s4_def)
  have "drop (nat (pr_off r) + 12) (urb_bytes s3 pid) = drop (nat (pr_off r) + 12) (urb_bytes s1 pid)"
    by (rule rewrite_bytes [OF s3 j(3)]) (use o b1 in simp)
  then have d4: "drop (nat (pr_off r) + 12) (urb_bytes s4 pid) = drop (nat (pr_off r) + 12) bs"
    using b1 arg_cong [OF j(4), of "drop 12"] by (simp add: add.commute)
  have l4: "length (urb_bytes s4 pid) = length bs"
    using length_rewrite [OF s3 j(3)] o b1 j(5) by simp
  have k4: "\<not> pf_held s4" "\<not> pf_hang s4"
    using keepsD [OF keeps_lock_rewrite s3] j(1,2) by (simp_all add: s1_def s4_def)
  have pk: "run_state (peek pid (pr_off r) sizeof_bulk_header) s = (Some (slice (nat (pr_off r)) 12 (urb_bytes s pid)), s)"
    using o j(3) by (simp add: peek_def sizeof_bulk_header_def)
  have run4: "run_state (parse_header m pid r) s = run_state (if phase_of (ph_type h) = ptpps_unkonwn then do { ptp_bypass1; ret None }
      else ret (Some (r\<lparr>pr_off := pr_off r + int sizeof_bulk_header, pr_len := pr_len r - of_nat sizeof_bulk_header\<rparr>))) s4"
    unfolding parse_header_def using l by (simp add: pk s1 [unfolded h_def] s2 s3 [unfolded h_def] s4 [unfolded h_def] h_def)
  show ?thesis
  proof (cases "phase_of (ph_type h) = ptpps_unkonwn")
    case True
    then have "x = None" "run_state ptp_bypass1 s4 = ((), t)" using run run4 by (simp_all split: prod.splits)
    then show ?thesis using gives_up_safe [of s4 "()" t r] k4 j(3) by simp
  next
    case False
    then have x: "x = Some (r\<lparr>pr_off := pr_off r + 12, pr_len := pr_len r - 12\<rparr>)" "t = s4"
      using run run4 by (simp_all add: sizeof_bulk_header_def)
    have "nat (pr_off r + 12) = nat (pr_off r) + 12" using j(3) by simp
    then show ?thesis using x k4 d4 l4 j(3) go by (simp add: parse_safe_def)
  qed
qed

lemma header_safe:
  assumes run: "run_state (parse_header m pid r) s = (x, t)" and J: "parse_safe m pid bs r s" and go: "\<not> pr_ret r"
    and ns: "m = M_rx \<longrightarrow> no_session bs"
  shows "parse_safe m pid bs (case x of None \<Rightarrow> r\<lparr>pr_done := False, pr_ret := True\<rparr> | Some r1 \<Rightarrow> r1) t"
proof (cases "pr_len r < of_nat sizeof_bulk_header")
  case True
  then have "x = None" "run_state ptp_bypass1 s = ((), t)" using run by (simp_all add: parse_header_def split: prod.splits)
  then show ?thesis using gives_up_safe [of s "()" t r] J by (simp add: parse_safe_def)
next
  case l: False
  show ?thesis
  proof (cases "nat (pr_off r) + 12 \<le> length (urb_bytes s pid)")
    case False
    then have "run_state (peek pid (pr_off r) sizeof_bulk_header) s = (None, s\<lparr>pf_oops := True\<rparr>)"
      by (auto simp: peek_def crash_def sizeof_bulk_header_def)
    then have "x = None" "t = s\<lparr>pf_oops := True\<rparr>" using run l by (simp_all add: parse_header_def)
    then show ?thesis using J by (simp add: parse_safe_def)
  qed (rule header_inside_safe [OF run J go ns l])
qed

lemma payload_safe:
  assumes "run_state (parse_payload m pid r) s = (r', t)" and "parse_safe m pid bs r s" and "\<not> pr_ret r"
  shows "parse_safe m pid bs r' t"
proof -
  have d: "drop (nat (pr_off r')) (urb_bytes t pid) = drop (nat (pr_off r')) bs"
    if e: "drop (nat (pr_off r)) (urb_bytes s pid) = drop (nat (pr_off r)) bs"
  proof -
    have n: "nat (pr_off r') = (nat (pr_off r') - nat (pr_off r)) + nat (pr_off r)"
      using parse_payload_cases(1) [OF assms(1)] by simp
    show ?thesis
      using arg_cong [OF e, of "drop (nat (pr_off r') - nat (pr_off r))"] parse_payload_cases(4) [OF assms(1)] n by simp
  qed
  show ?thesis
    using assms(2,3) d keepsD [OF keeps_lock_payload assms(1)] parse_payload_cases [OF assms(1)] by (simp add: parse_safe_def)
qed

lemma round_safe:
  assumes run: "run_state (parse_round m pid r) s = (r', t)" and J: "parse_safe m pid bs r s" and go: "\<not> pr_ret r"
    and ns: "m = M_rx \<longrightarrow> no_session bs"
  shows "parse_safe m pid bs r' t"
proof (cases "between m s")
  case False
  then show ?thesis using run payload_safe [OF _ J go] by (simp add: parse_round_def)
next
  case True
  obtain x s1 where h: "run_state (parse_header m pid r) s = (x, s1)" by (rule prod.exhaust)
  note hs = header_safe [OF h J go ns]
  show ?thesis
  proof (cases x)
    case None
    then show ?thesis using run True h hs by (simp add: parse_round_def)
  next
    case (Some r1)
    then have p: "run_state (parse_payload m pid r1) s1 = (r', t)" using run True h by (simp add: parse_round_def)
    have "pr_ret r1 = pr_ret r" by (rule parse_header_cases [OF h]) (use Some in simp_all)
    then show ?thesis using payload_safe [OF p] hs go Some by simp
  qed
qed

lemma parse_loop_safe:
  assumes "run_state (parse_loop m pid r) s = (Some r', t)" and "parse_safe m pid bs r s" and "m = M_rx \<longrightarrow> no_session bs"
  shows "parse_safe m pid bs r' t"
  by (rule loop_rule [OF assms(1) [unfolded parse_loop_def], where J = "parse_safe m pid bs"])
    (use assms(2,3) round_safe in blast)+

section \<open>A header that is too short\<close>

lemma payload_wraps:
  assumes pm: "pf_machine s m = \<lparr>sm_state = st, sm_size = 12, sm_ptpdu = h\<rparr>" and n: "\<not> pr_len r + 12 < ph_length h"
    and run: "run_state (parse_payload m pid r) s = (r', s')"
  shows "pr_off r' = pr_off r + uint (ph_length h - 12)" and "pr_len r' = pr_len r - (ph_length h - 12)"
    and "pr_ret r' = pr_ret r" and "between m s'"
proof -
  have "pr_off r' = pr_off r + uint (ph_length h - 12) \<and> pr_len r' = pr_len r - (ph_length h - 12) \<and>
      pr_ret r' = pr_ret r \<and> between m s'"
  proof (cases "st = ptpps_response")
    case True
    then show ?thesis using run n pm by (auto simp: parse_payload_def upd_machine_def Let_def split: if_splits)
  next
    case False
    then show ?thesis using run n pm by (auto simp: parse_payload_def upd_machine_def Let_def)
  qed
  then show "pr_off r' = pr_off r + uint (ph_length h - 12)" and "pr_len r' = pr_len r - (ph_length h - 12)"
    and "pr_ret r' = pr_ret r" and "between m s'" by blast+
qed

lemma uint_wraps:
  assumes "(w::u32) < 12"
  shows "uint (w - 12) = 2 ^ 32 + uint w - 12"
proof -
  have w: "uint w < 12" using assms by (simp add: word_less_alt)
  have "uint (w - 12) = (uint w - 12) mod 2 ^ 32" by (simp add: uint_word_ariths)
  also have "\<dots> = (2 ^ 32 + uint w - 12) mod 2 ^ 32" by (metis add_diff_eq mod_add_self1)
  also have "\<dots> = 2 ^ 32 + uint w - 12" by (rule mod_pos_pos_trivial) (use w in auto)
  finally show ?thesis .
qed

lemma header_outside_crashes:
  assumes "\<not> pr_len r < 12" and "int (length (urb_bytes s pid)) < pr_off r"
  shows "run_state (parse_header m pid r) s = (None, s\<lparr>pf_oops := True\<rparr>)"
proof -
  have "\<not> nat (pr_off r) + 12 \<le> length (urb_bytes s pid)" using assms(2) by linarith
  then have "run_state (peek pid (pr_off r) sizeof_bulk_header) s = (None, s\<lparr>pf_oops := True\<rparr>)"
    by (simp add: peek_def crash_def sizeof_bulk_header_def)
  then show ?thesis using assms(1) by (simp add: parse_header_def sizeof_bulk_header_def)
qed

text \<open>A transfer of at least two headers whose first says that the container is shorter than a header.\<close>

lemma short_header:
  assumes st: "between m s" and own: "urb_bytes s pid = bs" and b: "24 \<le> length bs" "length bs < 2 ^ 32"
    and len: "(if usb_pipein (pu_pipe (pf_urb s pid)) then pu_actual (pf_urb s pid) else pu_length (pf_urb s pid)) =
      of_nat (length bs)"
    and short: "ph_length (get_bulk_header (slice 0 12 bs)) < 12"
    and ty: "phase_of (ph_type (get_bulk_header (slice 0 12 bs))) \<noteq> ptpps_unkonwn"
  shows "pf_oops (snd (run_state (ptp_parse m pid) s))"
proof -
  define h where "h = get_bulk_header (slice 0 12 bs)"
  obtain n :: u32 where n: "n = of_nat (length bs)" by blast
  have u: "unat n = length bs" unfolding n by (rule unat_of_nat_small [OF b(2)])
  define r0 where "r0 = \<lparr>pr_off = 0, pr_len = n, pr_done = False, pr_ret = False\<rparr>"
  let ?r1 = "r0\<lparr>pr_off := 12, pr_len := pr_len r0 - 12\<rparr>" and ?s1 = "after_header m pid h s"
  have n12: "\<not> n < 12" using u b by (simp add: word_less_nat_alt)
  have hd: "run_state (parse_header m pid r0) s = (Some ?r1, ?s1)"
    unfolding h_def by (rule parse_header_ok) (use own b ty n12 in \<open>simp_all add: r0_def\<close>)
  have l1: "length (urb_bytes ?s1 pid) = length bs"
    by (rule parse_header_cases [OF hd]) (use own in simp_all)
  have pm: "pf_machine ?s1 m = \<lparr>sm_state = phase_of (ph_type h), sm_size = 12, sm_ptpdu = h\<rparr>"
    by (rule after_header_machine)
  obtain r2 s2 where p: "run_state (parse_payload m pid ?r1) ?s1 = (r2, s2)" by (rule prod.exhaust)
  have "\<not> pr_len ?r1 + 12 < ph_length h"
    using short n12 by (simp add: r0_def h_def word_less_nat_alt)
  note w = payload_wraps [OF pm this p]
  have rd: "run_state (parse_round m pid r0) s = (r2, s2)" using st hd p by (auto simp: parse_round_def)
  have r2: "pr_off r2 = 2 ^ 32 + uint (ph_length h)" "pr_len r2 = n - ph_length h" "\<not> pr_ret r2"
    using w uint_wraps short by (simp_all add: r0_def h_def)
  have "ph_length h \<le> n" using short n12 unfolding h_def [symmetric] by (simp add: word_less_nat_alt word_le_nat_alt)
  then have "unat (n - ph_length h) = length bs - unat (ph_length h)" using u by (simp add: unat_sub)
  moreover have "unat (ph_length h) < 12" using short unfolding h_def [symmetric] by (simp add: word_less_nat_alt)
  ultimately have k: "12 < unat (n - ph_length h)" using b by linarith
  have l2: "length (urb_bytes s2 pid) = length bs" using parse_payload_cases(4) [OF p] l1 by simp
  have hd2: "run_state (parse_header m pid r2) s2 = (None, s2\<lparr>pf_oops := True\<rparr>)"
  proof (rule header_outside_crashes)
    show "\<not> pr_len r2 < 12" using k r2(2) by (simp add: word_less_nat_alt)
    have "0 \<le> uint (ph_length h)" and "int (length bs) < 2 ^ 32" using b(2) by simp_all
    then show "int (length (urb_bytes s2 pid)) < pr_off r2" unfolding r2(1) l2 by linarith
  qed
  let ?r3 = "r2\<lparr>pr_done := False, pr_ret := True\<rparr>" and ?s3 = "s2\<lparr>pf_oops := True\<rparr>"
  have rd2: "run_state (parse_round m pid r2) s2 = (?r3, ?s3)" using w(4) hd2 by (auto simp: parse_round_def)
  have nz: "pr_len r2 \<noteq> 0" using k r2(2) by auto
  have "run_state (parse_loop m pid r2) s2 = (Some ?r3, ?s3)"
    unfolding parse_loop_def
  proof (rule run_loop_step)
    show "run_state (parse_round m pid r2) s2 = (?r3, ?s3)" by (rule rd2)
    show "run_state (loop (\<lambda>r. pr_len r \<noteq> 0 \<and> \<not> pr_ret r) (parse_round m pid) ?r3) ?s3 = (Some ?r3, ?s3)"
      by (rule run_loop_stop) simp
  qed (use nz r2(3) in simp)
  then have "run_state (parse_loop m pid r0) s = (Some ?r3, ?s3)"
    unfolding parse_loop_def
  proof (rule run_loop_step [rotated 2])
    show "run_state (parse_round m pid r0) s = (r2, s2)" by (rule rd)
    show "pr_len r0 \<noteq> 0 \<and> \<not> pr_ret r0" using n12 by (auto simp: r0_def)
  qed
  then show ?thesis
    by (simp only: r0_def) (simp add: ptp_parse_def len [folded n])
qed

end
