(* ===== verification/PtpProps.thy ===== *)
theory PtpProps
  imports PtpEnds
begin

text \<open>
  Properties of the PTP filter: what becomes of a command of the client, transaction numbers are
  translated back, a filter that gave up keeps out of the way but leaves the waiting requests behind,
  the parser ends, and two ways in which a command of the client breaks the driver.
\<close>

section \<open>A filter that gave up\<close>

definition waits :: "addr \<Rightarrow> ptp_queue \<Rightarrow> 'w ptp_filter \<Rightarrow> bool" where
  "waits pid q s \<longleftrightarrow> pf_state s = ptpfs_bypassed \<and> pid \<in> set (pf_queue s q) \<and> pid \<notin> set (pf_flight s) \<and>
     pid < pf_next s"

named_theorems waits_intros \<open>programs that leave a waiting request waiting\<close>

lemma waits_modify [waits_intros]:
  "(\<And>s. pf_state (f s) = pf_state s \<and> pf_queue (f s) = pf_queue s \<and> pf_flight (f s) = pf_flight s \<and> pf_next (f s) = pf_next s) \<Longrightarrow>
   preserves (waits pid q) (modify f)"
  by (rule preserves_modify) (simp add: waits_def)

lemma set_urb_bytes_flight [simp]: "pf_flight (set_urb_bytes pid bs s) = pf_flight s"
  by (simp add: set_urb_bytes_def split: ptp_buf.split)

lemma waits_basic [waits_intros]:
  "preserves (waits pid q) crash" "preserves (waits pid q) stuck" "preserves (waits pid q) spin_lock"
  "preserves (waits pid q) spin_unlock" "preserves (waits pid q) (upd_urb p f)" "preserves (waits pid q) (upd_machine m g)"
  "preserves (waits pid q) (poke32 p off v)" "preserves (waits pid q) del_timer"
  unfolding crash_def stuck_def spin_lock_def spin_unlock_def upd_urb_def upd_machine_def poke32_def del_timer_def
  by (rule waits_modify; simp)+

lemma waits_set_state [waits_intros]: "preserves (waits pid q) (set_state ptpfs_bypassed)"
  unfolding set_state_def by (rule preserves_modify) (simp add: waits_def)

lemma waits_bypass [waits_intros]: "preserves (waits pid q) ptp_bypass" "preserves (waits pid q) ptp_bypass1"
  unfolding ptp_bypass1_def ptp_bypass_def ptp_change_state_def if_False
  by (intro preserves_intros waits_intros; simp)+

lemma waits_move: "p \<noteq> pid \<Longrightarrow> preserves (waits pid q) (list_move_tail p q')"
  unfolding list_move_tail_def
  by (rule preserves_modify) (auto simp: waits_def move_queues_def in_set_remove1)

lemma waits_parse:
  assumes "m \<noteq> M_rx"
  shows "preserves (waits pid q) (ptp_parse m p)"
proof -
  have rw: "preserves (waits pid q) (rewrite_trans_id m p off tid)" for off tid
    unfolding rewrite_trans_id_def using assms
    by (cases m; simp only: ptp_machine.case; intro preserves_intros waits_intros)
  have pk: "preserves (waits pid q) (peek p off n)" for off n
    unfolding peek_def by (intro preserves_intros waits_intros)
  have cs: "preserves (waits pid q) (ptp_check_new_session m)"
    unfolding ptp_check_new_session_def using assms by (simp add: preserves_ret)
  have hd: "preserves (waits pid q) (parse_header m p r)" for r
    unfolding parse_header_def by (intro preserves_intros waits_intros rw pk cs)
  have pl: "preserves (waits pid q) (parse_payload m p r)" for r
    unfolding parse_payload_def Let_def by (intro preserves_intros waits_intros; simp)
  show ?thesis
    unfolding ptp_parse_def parse_loop_def parse_round_def by (intro preserves_intros waits_intros hd pl)
qed

lemma waits_on_tx: "preserves (waits pid q) (ptp_on_tx k p)"
  unfolding ptp_on_tx_def
  by (rule preserves_read) (simp add: waits_def preserves_def hoare_def)

lemma waits_hand_over: "p \<noteq> pid \<Longrightarrow> preserves (waits pid q) (hand_over k p)"
  unfolding hand_over_def by (rule preserves_modify) (simp add: waits_def in_set_remove1)

lemma waits_data_complete: "p \<noteq> pid \<Longrightarrow> preserves (waits pid q) (ptp_data_complete k p)"
proof -
  assume p: "p \<noteq> pid"
  have r: "preserves (waits pid q) (gets pf_state \<bind> f)" if "preserves (waits pid q) (f ptpfs_bypassed)"
    for f :: "ptp_filter_state \<Rightarrow> ('a ptp_filter, unit) state"
    by (rule preserves_read) (use that in \<open>simp add: waits_def\<close>)
  have b: "preserves (waits pid q) (if ptpfs_bypassed \<noteq> ptpfs_busy \<and> ptpfs_bypassed \<noteq> ptpfs_drop then ptp_bypass4 p else m)"
    for m :: "('a ptp_filter, unit) state"
    unfolding ptp_bypass4_def by (simp, intro preserves_intros waits_intros waits_move p)
  show ?thesis
    unfolding ptp_data_complete_def by (intro preserves_bind preserves_if preserves_gets waits_intros waits_move
      waits_parse r b p; simp)
qed

lemma waits_cmd_complete: "p \<noteq> pid \<Longrightarrow> preserves (waits pid q) (ptp_cmd_complete k p)"
proof -
  assume p: "p \<noteq> pid"
  have r: "preserves (waits pid q) (gets pf_state \<bind> f)" if "preserves (waits pid q) (f ptpfs_bypassed)"
    for f :: "ptp_filter_state \<Rightarrow> ('a ptp_filter, unit) state"
    by (rule preserves_read) (use that in \<open>simp add: waits_def\<close>)
  have b: "preserves (waits pid q) (if c \<or> ptpfs_bypassed < ptpfs_active then ptp_bypass4 p else m)"
    for c and m :: "('a ptp_filter, unit) state"
    unfolding ptp_bypass4_def by (simp add: ptpfs_order, intro preserves_intros waits_intros waits_move p)
  show ?thesis
    unfolding ptp_cmd_complete_def by (intro preserves_bind preserves_gets waits_intros r b; simp)
qed

lemma waits_timer: "preserves (waits pid q) (ptp_timer k)"
proof -
  have r: "preserves (waits pid q) (gets pf_state \<bind> f)" if "preserves (waits pid q) (f ptpfs_bypassed)"
    for f :: "ptp_filter_state \<Rightarrow> ('a ptp_filter, unit) state"
    by (rule preserves_read) (use that in \<open>simp add: waits_def\<close>)
  show ?thesis
    unfolding ptp_timer_def by (intro preserves_bind waits_intros r) (simp add: ptpfs_order, intro waits_intros)
qed

text \<open>A request of the client goes straight to the camera.\<close>

lemma bypassed_on_rx: "pf_state s = ptpfs_bypassed \<Longrightarrow> run_state (ptp_on_rx k udev pdu pid) s = (0, s)"
  by (simp add: ptp_on_rx_def)

lemma waits_step:
  assumes "ptp_step k s t" and "waits pid q s"
  shows "waits pid q t"
  using assms
proof (induction rule: ptp_step.induct)
  case (rx s udev pdu u)
  let ?s1 = "s\<lparr>pf_queue := (pf_queue s)(Q_init := pf_queue s Q_init @ [pf_next s]), pf_urb := (pf_urb s)(pf_next s := u),
    pf_next := Suc (pf_next s)\<rparr>"
  have "pf_state ?s1 = ptpfs_bypassed" using rx by (simp add: waits_def)
  from bypassed_on_rx [OF this] have "run_state (rx_event k udev pdu u) s = (0, snd (run_state (stub_submit k (pf_next s)) ?s1))"
    by (simp add: rx_event_def new_request_def stub_submit_def)
  then show ?case using rx by (auto simp: waits_def stub_submit_def)
next
  case (giveback p s st bs actual)
  then have p: "p \<noteq> pid" by (auto simp: waits_def)
  have c: "preserves (waits pid q) (case c of Stub_complete \<Rightarrow> stub_complete_request k p
      | Ptp_data_complete \<Rightarrow> ptp_data_complete k p | Ptp_cmd_complete \<Rightarrow> ptp_cmd_complete k p)" for c
    by (cases c; simp only: ptp_completion.case stub_complete_request_def;
        intro preserves_intros waits_on_tx waits_hand_over waits_data_complete waits_cmd_complete p)
  have f: "preserves (waits pid q) (modify (\<lambda>s. s\<lparr>pf_flight := remove1 p (pf_flight s)\<rparr>))"
    by (rule preserves_modify) (auto simp: waits_def dest: notin_set_remove1)
  have "preserves (waits pid q) (usb_giveback k p st bs actual)"
    unfolding usb_giveback_def by (intro preserves_intros f c waits_intros; simp)
  then show ?case using giveback preservesD by (metis prod.collapse)
next
  case (timer s)
  have "preserves (waits pid q) (timer_event k)"
    unfolding timer_event_def by (intro preserves_intros waits_intros waits_timer)
  then show ?case using timer preservesD by (metis prod.collapse)
qed (simp add: waits_def)

section \<open>A command that opens a session\<close>

lemma keeps_learn: "keeps (\<lambda>s. (pf_urb s, pf_machine s, frame_buffer s, trigger_ptpdu s)) (learn_pipes udev pdu p)"
  unfolding learn_pipes_def crash_def by (intro keeps_intros keeps_modify; simp)

definition locked :: "'w ptp_filter \<Rightarrow> bool" where
  "locked s \<longleftrightarrow> pf_held s \<or> pf_hang s"

lemma locked_modify: "(\<And>s. pf_held (f s) = pf_held s \<and> pf_hang (f s) = pf_hang s) \<Longrightarrow> preserves locked (modify f)"
  by (rule preserves_modify) (simp add: locked_def)

lemma locked_change_state: "preserves locked (ptp_change_state False ptpfs_idle)"
  unfolding ptp_change_state_def if_False set_state_def del_timer_def
  by (intro preserves_intros locked_modify; simp)

lemma locked_rewrite: "preserves locked (rewrite_trans_id M_rx pid 0 t)"
  unfolding rewrite_trans_id_def ptp_machine.case poke32_def
  by (intro preserves_intros locked_modify; simp add: set_urb_bytes_def split: ptp_buf.split)

lemma spin_lock_locks: "hoare (\<lambda>_. True) spin_lock (\<lambda>_. locked)"
  unfolding spin_lock_def by (rule hoareI) (auto simp: locked_def split: if_splits)

lemma new_session_locks: "hoare (\<lambda>_. True) (new_session code) (\<lambda>_. locked)"
  unfolding new_session_def
proof (rule hoare_bind [OF spin_lock_locks])
  show "hoare locked (do { (if code = PTP_OC_OpenSession then modify (\<lambda>s. s\<lparr>pf_trans_id := 0\<rparr>) else ret ());
      ptp_change_state False ptpfs_idle }) (\<lambda>_. locked)"
    unfolding preserves_def [symmetric] by (intro preserves_intros locked_modify locked_change_state) simp
qed

lemma session_locks:
  assumes "ph_type h = PTP_USB_CONTAINER_COMMAND" and "ph_code h = PTP_OC_OpenSession \<or> ph_code h = PTP_OC_CloseSession"
  shows "locked (after_header M_rx pid h s)"
proof -
  obtain s1 where s1: "run_state (upd_machine M_rx (\<lambda>x. x\<lparr>sm_ptpdu := h\<rparr>)) s = ((), s1)"
    "sm_ptpdu (pf_machine s1 M_rx) = h" by (simp add: upd_machine_def)
  obtain s3 where s3: "run_state (new_session (ph_code h)) s1 = ((), s3)" by (metis old.unit.exhaust prod.exhaust)
  have b: "run_state (ptp_check_new_session M_rx) s1 = ((), s3)"
    unfolding ptp_check_new_session_def using assms s3 by (simp add: s1(2))
  obtain s4 where s4: "run_state (rewrite_trans_id M_rx pid 0 (ph_trans_id h)) s3 = ((), s4)"
    by (metis old.unit.exhaust prod.exhaust)
  have "locked s4" by (rule preservesD [OF locked_rewrite hoareD [OF new_session_locks TrueI s3] s4])
  then show ?thesis
    using s1(1) b s4 by (simp add: after_header_def upd_machine_def locked_def)
qed

lemma after_payload_command [simp]:
  "pf_held (after_payload m pid ty s) = pf_held s" "pf_hang (after_payload m pid ty s) = pf_hang s"
  by (simp_all add: after_payload_def Let_def upd_machine_def)

lemma after_payload_machine:
  "sm_state (pf_machine (after_payload m pid ty s) m) = (if ty = PTP_USB_CONTAINER_RESPONSE then ptpps_none else ptpps_wait_response)"
  "sm_ptpdu (pf_machine (after_payload m pid ty s) m) = sm_ptpdu (pf_machine s m)"
  by (simp_all add: after_payload_def Let_def upd_machine_def)

lemma after_payload_number:
  "pf_trans_id (after_payload m pid ty s) = (if ty = PTP_USB_CONTAINER_RESPONSE \<and> m \<noteq> M_rx \<and> frame_serving_urb s \<noteq> Some pid
     then pf_trans_id s + 1 else pf_trans_id s)"
  by (simp add: after_payload_def Let_def upd_machine_def)

text \<open>A request holds one container, all of it, and the parser is between containers.\<close>

definition holds_container :: "ptp_machine \<Rightarrow> addr \<Rightarrow> u16 \<Rightarrow> u16 \<Rightarrow> u32 \<Rightarrow> byte list \<Rightarrow> 'w ptp_filter \<Rightarrow> bool" where
  "holds_container m pid ty code tid pl s \<longleftrightarrow>
     sm_state (pf_machine s m) \<in> {ptpps_none, ptpps_wait_response} \<and>
     pu_buf (pf_urb s pid) = Own (ptp_container ty code tid pl) \<and>
     (if usb_pipein (pu_pipe (pf_urb s pid)) then pu_actual (pf_urb s pid) else pu_length (pf_urb s pid)) = of_nat (12 + length pl) \<and>
     12 + length pl < 2 ^ 32"

lemma parse_container:
  assumes "holds_container m pid ty code tid pl s"
    and ty: "ty \<in> {PTP_USB_CONTAINER_COMMAND, PTP_USB_CONTAINER_DATA, PTP_USB_CONTAINER_RESPONSE}"
  shows "run_state (ptp_parse m pid) s = (ty = PTP_USB_CONTAINER_RESPONSE, after_payload m pid ty (after_header m pid
    \<lparr>ph_length = of_nat (12 + length pl), ph_type = ty, ph_code = code, ph_trans_id = tid\<rparr> s))"
  by (rule parse_whole [OF _ _ _ _ ty]) (use assms(1) in \<open>simp_all only: holds_container_def urb_bytes_def ptp_buf.case\<close>)

text \<open>What \<open>ptp_on_rx\<close> does with a command, once it is parsed.\<close>

lemma on_rx_command:
  assumes st: "pf_state s \<noteq> ptpfs_bypassed" and bulk: "usb_pipetype (pu_pipe (pf_urb s pid)) = PIPE_BULK"
    and out: "\<not> usb_pipein (pu_pipe (pf_urb s pid))"
    and c: "holds_container M_rx pid PTP_USB_CONTAINER_COMMAND code tid pl s"
    and run: "run_state (ptp_on_rx k udev pdu pid) s = (r, t)"
  obtains s1 where "run_state (learn_pipes udev pdu (pu_pipe (pf_urb s pid))) s = ((), s1)"
    and "holds_container M_rx pid PTP_USB_CONTAINER_COMMAND code tid pl s1"
    and "run_state (do { spin_lock; preview \<leftarrow> ptp_check_preview pid;
      if preview then rx_preview k pdu pid else rx_command pid })
      (after_payload M_rx pid PTP_USB_CONTAINER_COMMAND (after_header M_rx pid \<lparr>ph_length = of_nat (12 + length pl),
         ph_type = PTP_USB_CONTAINER_COMMAND, ph_code = code, ph_trans_id = tid\<rparr> s1)) = (r, t)"
proof -
  let ?cmd = "PTP_USB_CONTAINER_COMMAND"
  let ?h = "\<lparr>ph_length = of_nat (12 + length pl), ph_type = ?cmd, ph_code = code, ph_trans_id = tid\<rparr>"
  obtain s1 where s1: "run_state (learn_pipes udev pdu (pu_pipe (pf_urb s pid))) s = ((), s1)"
    by (metis old.unit.exhaust prod.exhaust)
  have same: "pf_urb s1 = pf_urb s" "pf_machine s1 = pf_machine s" using keepsD [OF keeps_learn s1] by simp_all
  then have c1: "holds_container M_rx pid ?cmd code tid pl s1" using c by (simp only: holds_container_def)
  let ?s2 = "after_payload M_rx pid ?cmd (after_header M_rx pid ?h s1)"
  have p: "run_state (ptp_parse M_rx pid) s1 = (?cmd = PTP_USB_CONTAINER_RESPONSE, ?s2)"
    by (rule parse_container [OF c1]) simp
  have m: "sm_state (pf_machine ?s2 M_rx) = ptpps_wait_response" "ph_type (sm_ptpdu (pf_machine ?s2 M_rx)) = ?cmd"
    using after_header_machine [of M_rx pid ?h s1] by (simp_all add: after_payload_machine ptp_defs)
  show thesis
  proof (rule that [OF s1 c1])
    show "run_state (do { spin_lock; preview \<leftarrow> ptp_check_preview pid;
        if preview then rx_preview k pdu pid else rx_command pid }) ?s2 = (r, t)"
      using run st bulk out m by (simp add: ptp_on_rx_def s1 p del: of_nat_add of_nat_Suc of_nat_numeral)
  qed
qed

lemma locked_lock: "hoare locked spin_lock (\<lambda>_. pf_hang)"
  unfolding spin_lock_def by (rule hoareI) (auto simp: locked_def split: if_splits)

lemma after_lock_hangs:
  "hoare locked (do { spin_lock; preview \<leftarrow> ptp_check_preview pid;
    if preview then rx_preview k pdu pid else rx_command pid }) (\<lambda>_. pf_hang)"
proof (rule hoare_bind [OF locked_lock])
  show "hoare pf_hang (do { preview \<leftarrow> ptp_check_preview pid;
      if preview then rx_preview k pdu pid else rx_command pid }) (\<lambda>_. pf_hang)"
    unfolding preserves_def [symmetric]
    by (intro preserves_intros hang.keep_preview hang.keep_rx_preview hang.keep_rx_command)
qed

section \<open>A command of the client\<close>

text \<open>What a command leaves behind when it is parsed: it has the number of the filter, and the client's is kept.\<close>

definition command_parsed :: "addr \<Rightarrow> u16 \<Rightarrow> u32 \<Rightarrow> byte list \<Rightarrow> 'w ptp_filter \<Rightarrow> 'w ptp_filter" where
  "command_parsed pid code c pl s =
     s\<lparr>rx_trans_id := c,
       pf_urb := (pf_urb s)(pid := (pf_urb s pid)\<lparr>pu_buf := Own (ptp_container PTP_USB_CONTAINER_COMMAND code (pf_trans_id s) pl)\<rparr>),
       pf_machine := (pf_machine s)(M_rx := \<lparr>sm_state = ptpps_wait_response, sm_size = 12, sm_ptpdu =
         \<lparr>ph_length = of_nat (12 + length pl), ph_type = PTP_USB_CONTAINER_COMMAND, ph_code = code, ph_trans_id = c\<rparr>\<rparr>)\<rparr>"

lemma after_header_command:
  assumes "pu_buf (pf_urb s pid) = Own (ptp_container PTP_USB_CONTAINER_COMMAND code c pl)"
    and "code \<notin> {PTP_OC_OpenSession, PTP_OC_CloseSession}"
    and "h = \<lparr>ph_length = of_nat (12 + length pl), ph_type = PTP_USB_CONTAINER_COMMAND, ph_code = code, ph_trans_id = c\<rparr>"
  shows "after_payload M_rx pid PTP_USB_CONTAINER_COMMAND (after_header M_rx pid h s) = command_parsed pid code c pl s"
proof -
  have b: "urb_bytes s pid = ptp_container PTP_USB_CONTAINER_COMMAND code c pl" using assms(1) by (simp add: urb_bytes_def)
  have r: "overwrite 8 (bytes_le32 t) (urb_bytes s pid) = ptp_container PTP_USB_CONTAINER_COMMAND code t pl" for t
    using retag_container [of t _ code c pl "[]"] by (simp add: b)
  have u: "urb_bytes (s\<lparr>pf_machine := x, rx_trans_id := y\<rparr>) pid = urb_bytes s pid" for x y by simp
  have m: "x\<lparr>sm_ptpdu := h, sm_size := n, sm_state := st\<rparr> = \<lparr>sm_state = st, sm_size = n, sm_ptpdu = h\<rparr>" for x h n st
    by (cases x) simp
  have "phase_of PTP_USB_CONTAINER_COMMAND = ptpps_command" by (simp add: phase_of_def)
  then show ?thesis
    using assms(1,2) unfolding assms(3)
    by (simp add: after_header_def after_payload_def Let_def upd_machine_def ptp_check_new_session_def rewrite_trans_id_def
        poke32_def set_urb_bytes_def r u m command_parsed_def sizeof_bulk_header_def ptp_defs)
qed

text \<open>The states of the filter when a command has arrived that is not one for a frame: it waits for the answer,
  goes on reading a frame, or gives up.\<close>

definition after_command :: "ptp_filter_state \<Rightarrow> ptp_filter_state" where
  "after_command st =
     (case st of ptpfs_idle \<Rightarrow> ptpfs_command | ptpfs_active \<Rightarrow> ptpfs_wait | ptpfs_sleep \<Rightarrow> ptpfs_sleep_wait
      | ptpfs_busy \<Rightarrow> ptpfs_busy | ptpfs_drop \<Rightarrow> ptpfs_drop | _ \<Rightarrow> ptpfs_bypassed)"

definition reading_frame :: "ptp_filter_state \<Rightarrow> bool" where
  "reading_frame st \<longleftrightarrow> st = ptpfs_busy \<or> st = ptpfs_drop"

lemma rx_command_runs:
  "run_state (rx_command pid) s = (if reading_frame (pf_state s) then 1 else 0,
     s\<lparr>pf_state := after_command (pf_state s), pf_held := False,
       pf_timer := (if pf_state s \<in> {ptpfs_wait, ptpfs_sleep_wait} then None else pf_timer s),
       pf_queue := (if reading_frame (pf_state s) then move_queues pid Q_request (pf_queue s) else pf_queue s),
       pf_oops := (pf_oops s \<or> reading_frame (pf_state s) \<and> pid \<notin> set (all_queues (pf_queue s)))\<rparr>)"
  by (cases "pf_state s")
    (simp_all add: rx_command_def ptp_change_state_def ptp_bypass_def set_state_def del_timer_def spin_unlock_def
      list_move_tail_def ptpfs_order after_command_def reading_frame_def)

lemma check_preview_container:
  assumes "pu_buf (pf_urb s pid) = Own (ptp_container ty code t pl)"
  shows "run_state (ptp_check_preview pid) s =
    (di_VendorExtensionID (pf_info s) = PTP_VENDOR_CANON \<and> code = PTP_OC_CANON_EOS_GetViewFinderData, s)"
proof -
  have "urb_bytes s pid = ptp_container ty code t pl" using assms by (simp add: urb_bytes_def)
  moreover have "slice 6 2 (ptp_container ty code t pl) = bytes_le16 code" by (simp add: slice_def ptp_container_def)
  ultimately show ?thesis by (simp add: ptp_check_preview_def peek_def)
qed

text \<open>What learning the pipes leaves alone.\<close>

definition besides_pipes where
  "besides_pipes s = (pf_held s, pf_trans_id s, pf_urb s, pf_state s, pf_queue s, pf_info s, pf_flight s, pf_given s, pf_hang s, pf_world s,
     pf_machine s, frame_serving_urb s)"

lemma keeps_besides_pipes: "keeps besides_pipes (learn_pipes udev pdu p)"
  unfolding learn_pipes_def crash_def by (intro keeps_intros keeps_modify; simp add: besides_pipes_def)

text \<open>A urb of the client with one whole command, for a filter that is between containers.\<close>

definition brings_command :: "'w ptp_filter \<Rightarrow> ptp_urb \<Rightarrow> u16 \<Rightarrow> u32 \<Rightarrow> byte list \<Rightarrow> bool" where
  "brings_command s u code c pl \<longleftrightarrow>
     usb_pipetype (pu_pipe u) = PIPE_BULK \<and> \<not> usb_pipein (pu_pipe u) \<and>
     pu_buf u = Own (ptp_container PTP_USB_CONTAINER_COMMAND code c pl) \<and> pu_length u = of_nat (12 + length pl) \<and>
     12 + length pl < 2 ^ 32 \<and> sm_state (pf_machine s M_rx) \<in> {ptpps_none, ptpps_wait_response} \<and>
     pf_state s \<noteq> ptpfs_bypassed \<and> code \<notin> {PTP_OC_OpenSession, PTP_OC_CloseSession}"

text \<open>The state after the arrival of the urb.\<close>

definition arrived :: "ptp_urb \<Rightarrow> 'w ptp_filter \<Rightarrow> 'w ptp_filter" where
  "arrived u s = s\<lparr>pf_queue := (pf_queue s)(Q_init := pf_queue s Q_init @ [pf_next s]), pf_urb := (pf_urb s)(pf_next s := u),
     pf_next := Suc (pf_next s)\<rparr>"

lemma rx_event_command:
  assumes "brings_command s u code c pl"
  obtains s1 where "besides_pipes s1 = besides_pipes (arrived u s)"
    and "run_state (rx_event k udev pdu u) s = run_state (do {
      r \<leftarrow> do { spin_lock; preview \<leftarrow> ptp_check_preview (pf_next s);
        if preview then rx_preview k pdu (pf_next s) else rx_command (pf_next s) };
      (if r = 0 then stub_submit k (pf_next s) else ret ()); ret r }) (command_parsed (pf_next s) code c pl s1)"
proof -
  let ?pid = "pf_next s" and ?s = "arrived u s"
  let ?h = "\<lparr>ph_length = of_nat (12 + length pl), ph_type = PTP_USB_CONTAINER_COMMAND, ph_code = code, ph_trans_id = c\<rparr>"
  have n: "run_state (new_request u) s = (?pid, ?s)" by (simp add: new_request_def arrived_def)
  have h: "holds_container M_rx ?pid PTP_USB_CONTAINER_COMMAND code c pl ?s"
    using assms by (simp add: holds_container_def brings_command_def arrived_def)
  obtain r t where run: "run_state (ptp_on_rx k udev pdu ?pid) ?s = (r, t)" by (rule prod.exhaust)
  obtain s1 where s1: "run_state (learn_pipes udev pdu (pu_pipe (pf_urb ?s ?pid))) ?s = ((), s1)"
    and h1: "holds_container M_rx ?pid PTP_USB_CONTAINER_COMMAND code c pl s1"
    and go: "run_state (do { spin_lock; preview \<leftarrow> ptp_check_preview ?pid;
      if preview then rx_preview k pdu ?pid else rx_command ?pid })
      (after_payload M_rx ?pid PTP_USB_CONTAINER_COMMAND (after_header M_rx ?pid ?h s1)) = (r, t)"
    by (rule on_rx_command [OF _ _ _ h run]) (use assms in \<open>simp_all add: brings_command_def arrived_def\<close>)
  have "after_payload M_rx ?pid PTP_USB_CONTAINER_COMMAND (after_header M_rx ?pid ?h s1) = command_parsed ?pid code c pl s1"
    by (rule after_header_command) (use h1 assms in \<open>simp_all add: holds_container_def brings_command_def\<close>)
  with go have g: "run_state (do { spin_lock; preview \<leftarrow> ptp_check_preview ?pid;
      if preview then rx_preview k pdu ?pid else rx_command ?pid }) (command_parsed ?pid code c pl s1) = (r, t)" by simp
  show thesis
  proof (rule that [OF keepsD [OF keeps_besides_pipes s1]])
    show "run_state (rx_event k udev pdu u) s = run_state (do {
      r \<leftarrow> do { spin_lock; preview \<leftarrow> ptp_check_preview ?pid;
        if preview then rx_preview k pdu ?pid else rx_command ?pid };
      (if r = 0 then stub_submit k ?pid else ret ()); ret r }) (command_parsed ?pid code c pl s1)"
      by (simp only: rx_event_def run_state_bind n prod.case run g [unfolded run_state_bind])
  qed
qed

lemma command_parsed_number [simp]: "rx_trans_id (command_parsed pid code c pl s) = c"
  by (simp add: command_parsed_def)

lemma rx_event_number:
  assumes "brings_command s u code c pl" and "run_state (rx_event k udev pdu u) s = (r, t)"
  shows "rx_trans_id t = c"
proof (rule rx_event_command [OF assms(1), of k udev pdu])
  fix s1
  let ?m = "do {
      r \<leftarrow> do { spin_lock; preview \<leftarrow> ptp_check_preview (pf_next s);
        if preview then rx_preview k pdu (pf_next s) else rx_command (pf_next s) };
      (if r = 0 then stub_submit k (pf_next s) else ret ()); ret r }"
  assume "run_state (rx_event k udev pdu u) s = run_state ?m (command_parsed (pf_next s) code c pl s1)"
  then have run: "run_state ?m (command_parsed (pf_next s) code c pl s1) = (r, t)" using assms(2) by (simp only:)
  have p: "preserves (\<lambda>s. rx_trans_id s = c) ?m" by (intro preserves_intros number.keep_lock number.keep_preview
      number.keep_rx_preview number.keep_rx_command number.keep_submit)
  show ?thesis by (rule preservesD [OF p command_parsed_number run])
qed

lemma command_taken:
  assumes "brings_command s u code c pl"
    and "code \<noteq> PTP_OC_CANON_EOS_GetViewFinderData \<or> di_VendorExtensionID (pf_info s) \<noteq> PTP_VENDOR_CANON"
    and "\<not> pf_held s" and "\<forall>q. pf_next s \<notin> set (pf_queue s q)"
    and "run_state (rx_event k udev pdu u) s = (r, t)" and "cmd = ptp_container PTP_USB_CONTAINER_COMMAND code (pf_trans_id s) pl"
  shows "r = (if reading_frame (pf_state s) then 1 else 0) \<and> pf_state t = after_command (pf_state s) \<and>
    pf_urb t = (pf_urb s)(pf_next s := u\<lparr>pu_buf := Own cmd\<rparr>) \<and> rx_trans_id t = c \<and>
    (if reading_frame (pf_state s)
     then pf_queue t = (pf_queue s)(Q_request := pf_queue s Q_request @ [pf_next s]) \<and> pf_flight t = pf_flight s \<and>
       pf_world t = pf_world s
     else pf_queue t = (pf_queue s)(Q_init := pf_queue s Q_init @ [pf_next s]) \<and> pf_flight t = pf_flight s @ [pf_next s] \<and>
       pf_world t = pa_submit k (pf_next s) (u\<lparr>pu_buf := Own cmd\<rparr>) cmd (pf_world s)) \<and>
    pf_given t = pf_given s \<and> \<not> pf_held t \<and> pf_hang t = pf_hang s \<and> frame_serving_urb t = frame_serving_urb s \<and>
    (\<forall>m. m \<noteq> M_rx \<longrightarrow> pf_machine t m = pf_machine s m) \<and> pf_trans_id t = pf_trans_id s"
proof (rule rx_event_command [OF assms(1), of k udev pdu])
  fix s1
  let ?pid = "pf_next s"
  assume l: "besides_pipes s1 = besides_pipes (arrived u s)" and run: "run_state (rx_event k udev pdu u) s = run_state (do {
      r \<leftarrow> do { spin_lock; preview \<leftarrow> ptp_check_preview ?pid;
        if preview then rx_preview k pdu ?pid else rx_command ?pid };
      (if r = 0 then stub_submit k ?pid else ret ()); ret r }) (command_parsed ?pid code c pl s1)"
  let ?s2 = "(command_parsed ?pid code c pl s1)\<lparr>pf_held := True\<rparr>"
  have f: "pf_held s1 = False" "pf_trans_id s1 = pf_trans_id s" "pf_urb s1 = (pf_urb s)(?pid := u)" "pf_state s1 = pf_state s"
    "pf_queue s1 = (pf_queue s)(Q_init := pf_queue s Q_init @ [?pid])" "pf_info s1 = pf_info s"
    "pf_flight s1 = pf_flight s" "pf_given s1 = pf_given s" "pf_hang s1 = pf_hang s" "pf_world s1 = pf_world s"
    "pf_machine s1 = pf_machine s" "frame_serving_urb s1 = frame_serving_urb s"
    using l assms(3) by (simp_all add: besides_pipes_def arrived_def)
  have lock: "run_state spin_lock (command_parsed ?pid code c pl s1) = ((), ?s2)"
    using f(1) by (simp add: spin_lock_def command_parsed_def)
  have g: "pf_state ?s2 = pf_state s" "pf_queue ?s2 = pf_queue s1" "pf_flight ?s2 = pf_flight s" "pf_given ?s2 = pf_given s"
    "pf_hang ?s2 = pf_hang s" "pf_world ?s2 = pf_world s" "rx_trans_id ?s2 = c" "pf_info ?s2 = pf_info s"
    "pf_urb ?s2 = (pf_urb s)(?pid := u\<lparr>pu_buf := Own cmd\<rparr>)" "pf_trans_id ?s2 = pf_trans_id s"
    "frame_serving_urb ?s2 = frame_serving_urb s" "\<forall>m. m \<noteq> M_rx \<longrightarrow> pf_machine ?s2 m = pf_machine s m"
    by (simp_all add: command_parsed_def f assms(6))
  have buf: "pu_buf (pf_urb ?s2 ?pid) = Own (ptp_container PTP_USB_CONTAINER_COMMAND code (pf_trans_id s) pl)"
    by (simp only: g(9)) (simp add: assms(6))
  have np: "run_state (ptp_check_preview ?pid) ?s2 = (False, ?s2)"
    unfolding check_preview_container [OF buf] g(8) using assms(2) by blast
  have q: "move_queues ?pid Q_request (pf_queue s1) = (pf_queue s)(Q_request := pf_queue s Q_request @ [?pid])"
    using assms(4) by (auto simp: move_queues_def f(5) fun_eq_iff remove1_append remove1_idem)
  obtain x t1 where rc: "run_state (rx_command ?pid) ?s2 = (x, t1)" by (rule prod.exhaust)
  note X = rx_command_runs [of ?pid ?s2, unfolded rc g(1-2), simplified prod.inject]
  have t1: "pf_state t1 = after_command (pf_state s)" "pf_urb t1 = (pf_urb s)(?pid := u\<lparr>pu_buf := Own cmd\<rparr>)" "rx_trans_id t1 = c"
    "pf_queue t1 = (if reading_frame (pf_state s) then move_queues ?pid Q_request (pf_queue s1) else pf_queue s1)"
    "pf_flight t1 = pf_flight s" "pf_given t1 = pf_given s" "\<not> pf_held t1" "pf_hang t1 = pf_hang s" "pf_world t1 = pf_world s"
    "pf_trans_id t1 = pf_trans_id s" "frame_serving_urb t1 = frame_serving_urb s" "\<forall>m. m \<noteq> M_rx \<longrightarrow> pf_machine t1 m = pf_machine s m"
    using X g by simp_all
  have own: "urb_bytes t1 ?pid = cmd" by (simp add: urb_bytes_def t1(2))
  have "(r, t) = run_state (do { (if x = 0 then stub_submit k ?pid else ret ()); ret x }) t1"
    using assms(5) run by (simp only: run_state_bind lock np rc prod.case if_False)
  moreover have "x = (if reading_frame (pf_state s) then 1 else 0)" using X by blast
  ultimately show ?thesis
    using t1 own q f(5) by (cases "reading_frame (pf_state s)") (simp_all add: stub_submit_def)
qed

section \<open>Requests sent, and answers\<close>

lemma parse_send:
  assumes "holds_container M_send p ty code x pl s"
    and "ty \<in> {PTP_USB_CONTAINER_COMMAND, PTP_USB_CONTAINER_DATA, PTP_USB_CONTAINER_RESPONSE}"
  shows "pf_urb (snd (run_state (ptp_parse M_send p) s)) =
      (pf_urb s)(p := (pf_urb s p)\<lparr>pu_buf := Own (ptp_container ty code (pf_trans_id s) pl)\<rparr>)"
    and "pf_world (snd (run_state (ptp_parse M_send p) s)) = pf_world s"
proof -
  have own: "pu_buf (pf_urb s p) = Own (ptp_container ty code x pl)" using assms(1) by (simp add: holds_container_def)
  then have b: "urb_bytes s p = ptp_container ty code x pl" by (simp add: urb_bytes_def)
  have r: "overwrite 8 (bytes_le32 t) (urb_bytes s p) = ptp_container ty code t pl" for t
    using retag_container [of t ty code x pl "[]"] by (simp add: b)
  show "pf_urb (snd (run_state (ptp_parse M_send p) s)) =
      (pf_urb s)(p := (pf_urb s p)\<lparr>pu_buf := Own (ptp_container ty code (pf_trans_id s) pl)\<rparr>)"
    and "pf_world (snd (run_state (ptp_parse M_send p) s)) = pf_world s"
    unfolding parse_container [OF assms]
    by (simp_all add: after_payload_def after_header_def Let_def upd_machine_def ptp_check_new_session_def rewrite_trans_id_def
        poke32_def set_urb_bytes_def own r)
qed

lemma submit_numbers:
  assumes "holds_container M_send p ty code x pl s" and "\<not> usb_pipein (pu_pipe (pf_urb s p))"
    and "ty \<in> {PTP_USB_CONTAINER_COMMAND, PTP_USB_CONTAINER_DATA, PTP_USB_CONTAINER_RESPONSE}"
    and "cmd = ptp_container ty code (pf_trans_id s) pl"
  shows "pf_world (snd (run_state (ptp_submit_urb k pending p) s)) =
    pa_submit k p ((pf_urb s p)\<lparr>pu_actual := 0, pu_status := 0, pu_buf := Own cmd\<rparr>) cmd (pf_world s)"
proof -
  obtain s1 where s1: "run_state (do { c \<leftarrow> gets (\<lambda>s. pu_complete (pf_urb s p));
      (if pending then list_move_tail p (if c = Stub_complete then Q_init else Q_busy) else ret ());
      upd_urb p (\<lambda>u. u\<lparr>pu_actual := 0, pu_status := 0\<rparr>); spin_unlock }) s = ((), s1)"
    and f: "pf_urb s1 = (pf_urb s)(p := (pf_urb s p)\<lparr>pu_actual := 0, pu_status := 0\<rparr>)" "pf_world s1 = pf_world s"
      "pf_machine s1 = pf_machine s" "pf_trans_id s1 = pf_trans_id s"
    by (cases pending) (simp_all add: list_move_tail_def upd_urb_def spin_unlock_def)
  have h: "holds_container M_send p ty code x pl s1"
    using assms(1,2) by (simp add: holds_container_def f)
  obtain y s2 where s2: "run_state (ptp_parse M_send p) s1 = (y, s2)" by (rule prod.exhaust)
  have u: "pf_urb s2 = (pf_urb s1)(p := (pf_urb s1 p)\<lparr>pu_buf := Own cmd\<rparr>)" "pf_world s2 = pf_world s"
    using parse_send [OF h assms(3)] s2 by (simp_all add: f assms(4))
  have run: "run_state (ptp_submit_urb k pending p) s = run_state (do {
      q \<leftarrow> gets (\<lambda>s. pu_pipe (pf_urb s p));
      (if usb_pipeout q then do { ptp_parse M_send p; ret () } else ret ());
      stub_submit k p; spin_lock; ret 1 }) s1"
  proof -
    have "ptp_submit_urb k pending p = do {
        do { c \<leftarrow> gets (\<lambda>s. pu_complete (pf_urb s p));
          (if pending then list_move_tail p (if c = Stub_complete then Q_init else Q_busy) else ret ());
          upd_urb p (\<lambda>u. u\<lparr>pu_actual := 0, pu_status := 0\<rparr>); spin_unlock };
        q \<leftarrow> gets (\<lambda>s. pu_pipe (pf_urb s p));
        (if usb_pipeout q then do { ptp_parse M_send p; ret () } else ret ());
        stub_submit k p; spin_lock; ret 1 }"
      unfolding ptp_submit_urb_def by (simp only: State_Monad.bind_assoc)
    then show ?thesis using s1 by (simp only: run_state_bind prod.case)
  qed
  have "usb_pipeout (pu_pipe (pf_urb s1 p))" using assms(2) by (simp add: f usb_pipeout_def)
  then have "run_state (ptp_submit_urb k pending p) s = run_state (do { stub_submit k p; spin_lock; ret 1 }) s2"
    using run s2 by simp
  moreover have "urb_bytes s2 p = cmd" by (simp add: urb_bytes_def u)
  ultimately show ?thesis by (simp add: stub_submit_def spin_lock_def u f)
qed

lemma answer_numbers:
  assumes "holds_container M_tx q PTP_USB_CONTAINER_RESPONSE code x pl s" and "frame_serving_urb s \<noteq> Some q"
    and "run_state (ptp_parse M_tx q) s = (y, t)"
  shows "y \<and> urb_bytes t q = ptp_container PTP_USB_CONTAINER_RESPONSE code (rx_trans_id s) pl \<and>
    pf_trans_id t = pf_trans_id s + 1"
proof -
  let ?h = "\<lparr>ph_length = of_nat (12 + length pl), ph_type = PTP_USB_CONTAINER_RESPONSE, ph_code = code, ph_trans_id = x\<rparr>"
  have t: "y \<and> t = after_payload M_tx q PTP_USB_CONTAINER_RESPONSE (after_header M_tx q ?h s)"
    using parse_container [OF assms(1)] assms(3) by simp
  have o: "pu_buf (pf_urb s q) = Own (ptp_container PTP_USB_CONTAINER_RESPONSE code x pl)"
    "urb_bytes s q = ptp_container PTP_USB_CONTAINER_RESPONSE code x pl"
    using assms(1) by (simp_all add: holds_container_def urb_bytes_def)
  note tx = after_header_tx [OF o, where h = ?h, simplified]
  show ?thesis using t tx assms(2) by (simp add: after_payload_number)
qed

section \<open>Properties\<close>

text \<open>C25. What becomes of a command of the client that does not ask for a frame. While the filter reads a frame
  it is kept, at the end of the commands that wait; in every other state it is submitted at once,
  the filter waits for the answer, or, when the filter already waits for one, gives up. Either way the
  command carries the number of the filter and the client's number is kept; nothing is given back,
  and the lock is released.\<close>

theorem client_command_taken:
  assumes "brings_command s u code c pl"
    and "code \<noteq> PTP_OC_CANON_EOS_GetViewFinderData \<or> di_VendorExtensionID (pf_info s) \<noteq> PTP_VENDOR_CANON"
    and "\<not> pf_held s" and "\<forall>q. pf_next s \<notin> set (pf_queue s q)"
    and "run_state (rx_event k udev pdu u) s = (r, t)" and "cmd = ptp_container PTP_USB_CONTAINER_COMMAND code (pf_trans_id s) pl"
  shows "r = (if reading_frame (pf_state s) then 1 else 0) \<and> pf_state t = after_command (pf_state s) \<and>
    pf_urb t = (pf_urb s)(pf_next s := u\<lparr>pu_buf := Own cmd\<rparr>) \<and> rx_trans_id t = c \<and>
    (if reading_frame (pf_state s)
     then pf_queue t = (pf_queue s)(Q_request := pf_queue s Q_request @ [pf_next s]) \<and> pf_flight t = pf_flight s \<and>
       pf_world t = pf_world s
     else pf_queue t = (pf_queue s)(Q_init := pf_queue s Q_init @ [pf_next s]) \<and> pf_flight t = pf_flight s @ [pf_next s] \<and>
       pf_world t = pa_submit k (pf_next s) (u\<lparr>pu_buf := Own cmd\<rparr>) cmd (pf_world s)) \<and>
    pf_given t = pf_given s \<and> \<not> pf_held t \<and> pf_hang t = pf_hang s"
  using command_taken [OF assms] by blast

text \<open>C26. The transaction numbers of a command. The client's number is kept from the arrival of its command until
  it sends again, whatever the camera, the timer and its own requests for data do in between. In that
  time a request that goes out late leaves with the number the filter has then, whatever number it holds;
  and the answer of the camera comes back with the client's number, and the number of the filter
  goes up by one.\<close>

theorem transaction_numbers_restored:
  assumes "brings_command s u code c pl" and "run_state (rx_event k udev pdu u) s = (r, s1)" and "ptp_answer_steps k s1 s2"
  shows "(\<forall>p pending ty code' x pl'. holds_container M_send p ty code' x pl' s2 \<longrightarrow> \<not> usb_pipein (pu_pipe (pf_urb s2 p)) \<longrightarrow>
      ty \<in> {PTP_USB_CONTAINER_COMMAND, PTP_USB_CONTAINER_DATA} \<longrightarrow>
      (let out = ptp_container ty code' (pf_trans_id s2) pl' in
       pf_world (snd (run_state (ptp_submit_urb k pending p) s2)) =
         pa_submit k p ((pf_urb s2 p)\<lparr>pu_actual := 0, pu_status := 0, pu_buf := Own out\<rparr>) out (pf_world s2))) \<and>
    (\<forall>q code' x pl' y s3. holds_container M_tx q PTP_USB_CONTAINER_RESPONSE code' x pl' s2 \<longrightarrow> frame_serving_urb s2 \<noteq> Some q \<longrightarrow>
      run_state (ptp_parse M_tx q) s2 = (y, s3) \<longrightarrow>
      y \<and> urb_bytes s3 q = ptp_container PTP_USB_CONTAINER_RESPONSE code' c pl' \<and> pf_trans_id s3 = pf_trans_id s2 + 1)"
proof -
  have "rx_trans_id s1 = c" by (rule rx_event_number [OF assms(1,2)])
  then have c: "rx_trans_id s2 = c" by (rule number.answer_steps [OF assms(3)])
  show ?thesis
  proof (intro conjI allI impI)
    fix p pending ty code' x pl'
    assume h: "holds_container M_send p ty code' x pl' s2" "\<not> usb_pipein (pu_pipe (pf_urb s2 p))"
      "ty \<in> {PTP_USB_CONTAINER_COMMAND, PTP_USB_CONTAINER_DATA}"
    show "let out = ptp_container ty code' (pf_trans_id s2) pl' in
       pf_world (snd (run_state (ptp_submit_urb k pending p) s2)) =
         pa_submit k p ((pf_urb s2 p)\<lparr>pu_actual := 0, pu_status := 0, pu_buf := Own out\<rparr>) out (pf_world s2)"
      unfolding Let_def by (rule submit_numbers [OF h(1,2) _ refl]) (use h(3) in blast)
  next
    fix q code' x pl' y s3
    assume h: "holds_container M_tx q PTP_USB_CONTAINER_RESPONSE code' x pl' s2" "frame_serving_urb s2 \<noteq> Some q"
      "run_state (ptp_parse M_tx q) s2 = (y, s3)"
    from answer_numbers [OF h] c
    show "y" "urb_bytes s3 q = ptp_container PTP_USB_CONTAINER_RESPONSE code' c pl'" "pf_trans_id s3 = pf_trans_id s2 + 1"
      by simp_all
  qed
qed

text \<open>C29. A filter that gave up strands what it holds: once it is bypassed, a request in one of its
  queues that the USB core does not have stays there for ever, neither submitted nor given back.\<close>

theorem bypassed_filter_strands:
  assumes "pf_state s = ptpfs_bypassed" and "pid \<in> set (pf_queue s q)" and "pid \<notin> set (pf_flight s)"
    and "pid < pf_next s" and "ptp_steps k s t"
  shows "pf_state t = ptpfs_bypassed \<and> pid \<in> set (pf_queue t q) \<and> pid \<notin> set (pf_flight t)"
proof -
  have "waits pid q t"
    using assms(5) unfolding ptp_steps_def
  proof (induction rule: rtranclp_induct)
    case base
    then show ?case using assms by (simp add: waits_def)
  next
    case (step t u)
    then show ?case by (blast intro: waits_step)
  qed
  then show ?thesis by (simp add: waits_def)
qed

text \<open>C28. A command that opens or closes a session makes the driver take its lock twice, so the
  processor spins for ever with it.\<close>

theorem session_command_hangs:
  assumes "pf_state s \<noteq> ptpfs_bypassed" and "usb_pipetype (pu_pipe (pf_urb s pid)) = PIPE_BULK"
    and "\<not> usb_pipein (pu_pipe (pf_urb s pid))"
    and "holds_container M_rx pid PTP_USB_CONTAINER_COMMAND code tid pl s"
    and "code \<in> {PTP_OC_OpenSession, PTP_OC_CloseSession}"
    and "run_state (ptp_on_rx k udev pdu pid) s = (r, t)"
  shows "pf_hang t"
proof -
  obtain s1 where s1: "run_state (do { spin_lock; preview \<leftarrow> ptp_check_preview pid;
      if preview then rx_preview k pdu pid else rx_command pid })
      (after_payload M_rx pid PTP_USB_CONTAINER_COMMAND (after_header M_rx pid \<lparr>ph_length = of_nat (12 + length pl),
         ph_type = PTP_USB_CONTAINER_COMMAND, ph_code = code, ph_trans_id = tid\<rparr> s1)) = (r, t)"
    using on_rx_command [OF assms(1-4,6)] by blast
  show ?thesis
    by (rule hoareD [OF after_lock_hangs _ s1])
      (use assms(5) in \<open>simp add: locked_def session_locks [unfolded locked_def]\<close>)
qed

text \<open>C27. Parsing does not go on for ever. Whatever the state of the parser, the bytes and the length it is given,
  the processor is not lost and the lock is free when it ends; and it has used up the length, or
  the filter gave up, or it was outside of the buffer. The parser of what the client sends takes the lock for
  a command that opens or closes a session, and keeps it; for this parser such a header must not
  be among the bytes.\<close>

theorem parser_ends:
  assumes "\<not> pf_held s" and "\<not> pf_hang s" and "\<not> pf_oops s" and "m = M_rx \<longrightarrow> no_session (urb_bytes s pid)"
  shows "\<exists>r t. run_state (parse_loop m pid \<lparr>pr_off = 0, pr_len = n, pr_done = False, pr_ret = False\<rparr>) s = (Some r, t) \<and>
     \<not> pf_hang t \<and> \<not> pf_held t \<and> (pr_len r = 0 \<or> pf_state t = ptpfs_bypassed \<or> pf_oops t)"
proof -
  let ?r = "\<lparr>pr_off = 0, pr_len = n, pr_done = False, pr_ret = False\<rparr>"
  obtain r t where rt: "run_state (parse_loop m pid ?r) s = (Some r, t)"
    using parse_loop_ends [of ?r m pid s] by (cases "run_state (parse_loop m pid ?r) s") auto
  then have "\<not> (pr_len r \<noteq> 0 \<and> \<not> pr_ret r)"
    unfolding parse_loop_def by (rule loop_exits)
  moreover have "parse_safe m pid (urb_bytes s pid) r t"
    by (rule parse_loop_safe [OF rt]) (use assms in \<open>simp_all add: parse_safe_def\<close>)
  ultimately show ?thesis using rt by (auto simp: parse_safe_def split: if_splits)
qed

text \<open>C30. The parser believes the length in a header: when it is below the size of a header, the
  offset wraps round and the next header is read outside of the transfer buffer.\<close>

theorem short_header_leaves_buffer:
  assumes "sm_state (pf_machine s m) \<in> {ptpps_none, ptpps_wait_response}" and "urb_bytes s pid = bs"
    and "24 \<le> length bs" and "length bs < 2 ^ 32"
    and "(if usb_pipein (pu_pipe (pf_urb s pid)) then pu_actual (pf_urb s pid) else pu_length (pf_urb s pid)) =
      of_nat (length bs)"
    and "ph_length (get_bulk_header (slice 0 12 bs)) < 12"
    and "ph_type (get_bulk_header (slice 0 12 bs)) \<in>
      {PTP_USB_CONTAINER_COMMAND, PTP_USB_CONTAINER_DATA, PTP_USB_CONTAINER_RESPONSE}"
  shows "pf_oops (snd (run_state (ptp_parse m pid) s))"
proof (rule short_header [OF _ assms(2-6)])
  show "between m s" using assms(1) by auto
  show "phase_of (ph_type (get_bulk_header (slice 0 12 bs))) \<noteq> ptpps_unkonwn"
    using assms(7) by (auto simp: phase_of_def ptp_defs)
qed

end
