(* ===== verification/PtpWit.thy ===== *)
theory PtpWit
  imports PtpProps
begin

text \<open>
  The properties of the PTP filter at concrete states.
\<close>

section \<open>A camera and its client\<close>

text \<open>An environment in which memory is there and the clock stands still, and a filter for a camera of the table
  with two urbs of the client: a command on a bulk pipe, and what the camera answered.\<close>

definition sim_p :: "unit papi" where
  "sim_p = \<lparr>pa_kmalloc = (\<lambda>w. (True, w)), pa_jiffies = (\<lambda>w. (0, w)), pa_submit = (\<lambda>pid u bs w. w),
     pa_complete = (\<lambda>pid u bs w. w), pa_build = (\<lambda>h bs w. (None, w)), pa_free = (\<lambda>pid w. w),
     pa_frame_jiffies = 1, pa_buffer_count = 4\<rparr>"

definition sim_urb :: "pipe \<Rightarrow> byte list \<Rightarrow> ptp_urb" where
  "sim_urb p bs = \<lparr>pu_pipe = p, pu_buf = Own bs, pu_length = of_nat (length bs), pu_actual = of_nat (length bs),
     pu_status = 0, pu_complete = Stub_complete\<rparr>"

definition sim_bulk_out :: pipe where "sim_bulk_out = 0xC0000000"
definition sim_bulk_in :: pipe where "sim_bulk_in = 0xC0000080"

definition sim_filter :: "ptp_filter_state \<Rightarrow> (addr \<Rightarrow> ptp_urb) \<Rightarrow> unit ptp_filter" where
  "sim_filter st us = (new_filter \<lparr>di_StandardVersion = 0, di_VendorExtensionID = PTP_VENDOR_CANON,
     di_VendorExtensionVersion = 0\<rparr> us ())\<lparr>pf_state := st\<rparr>"

lemma sim_filter_fields [simp]:
  "pf_state (sim_filter st us) = st" "pf_urb (sim_filter st us) = us" "pf_machine (sim_filter st us) = (\<lambda>_. new_machine)"
  "pf_queue (sim_filter st us) = (\<lambda>_. [])" "pf_flight (sim_filter st us) = []" "pf_next (sim_filter st us) = 0"
  "pf_trans_id (sim_filter st us) = 0" "frame_serving_urb (sim_filter st us) = None"
  by (simp_all add: sim_filter_def new_filter_def)

lemma sim_pipes [simp]:
  "usb_pipetype sim_bulk_out = PIPE_BULK" "\<not> usb_pipein sim_bulk_out" "usb_pipein sim_bulk_in"
  "usb_pipetype 0 \<noteq> PIPE_BULK"
  by (simp_all add: sim_bulk_out_def sim_bulk_in_def usb_pipetype_def usb_pipein_def PIPE_BULK_def)

lemma sim_container:
  "holds_container m pid ty code tid [] (sim_filter st (\<lambda>_. sim_urb p (ptp_container ty code tid [])))"
  by (simp add: holds_container_def sim_urb_def new_machine_def)

section \<open>Witnesses\<close>

theorem session_command_hangs_witness:
  "\<forall>udev pdu. pf_hang (snd (run_state (ptp_on_rx sim_p udev pdu 0)
     (sim_filter ptpfs_idle (\<lambda>_. sim_urb sim_bulk_out (ptp_container PTP_USB_CONTAINER_COMMAND PTP_OC_OpenSession 1 [])))))"
proof (intro allI)
  fix udev pdu
  show "pf_hang (snd (run_state (ptp_on_rx sim_p udev pdu 0)
     (sim_filter ptpfs_idle (\<lambda>_. sim_urb sim_bulk_out (ptp_container PTP_USB_CONTAINER_COMMAND PTP_OC_OpenSession 1 [])))))"
    by (rule session_command_hangs [OF _ _ _ sim_container [where st = ptpfs_idle and p = sim_bulk_out] _ prod.collapse [symmetric]])
      (simp_all add: sim_urb_def)
qed

text \<open>An environment that records what is submitted. A command of the client, with its number 7, for a filter whose
  number is 5; an answer of the camera is in the urb named 1.\<close>

definition log_p :: "(addr \<times> byte list) list papi" where
  "log_p = \<lparr>pa_kmalloc = (\<lambda>w. (True, w)), pa_jiffies = (\<lambda>w. (0, w)), pa_submit = (\<lambda>pid u bs w. w @ [(pid, bs)]),
     pa_complete = (\<lambda>pid u bs w. w), pa_build = (\<lambda>h bs w. (None, w)), pa_free = (\<lambda>pid w. w),
     pa_frame_jiffies = 1, pa_buffer_count = 4\<rparr>"

definition sim_command :: "u32 \<Rightarrow> ptp_urb" where
  "sim_command n = sim_urb sim_bulk_out (ptp_container PTP_USB_CONTAINER_COMMAND 0x1004 n [])"

definition sim_answer :: "u32 \<Rightarrow> ptp_urb" where
  "sim_answer n = sim_urb sim_bulk_in (ptp_container PTP_USB_CONTAINER_RESPONSE 0x2001 n [])"

definition sim_numbered :: "ptp_filter_state \<Rightarrow> (addr \<times> byte list) list ptp_filter" where
  "sim_numbered st = (new_filter \<lparr>di_StandardVersion = 0, di_VendorExtensionID = PTP_VENDOR_CANON,
     di_VendorExtensionVersion = 0\<rparr> (\<lambda>_. sim_answer 5) [])\<lparr>pf_state := st, pf_trans_id := 5\<rparr>"

lemma sim_numbered_fields [simp]:
  "pf_state (sim_numbered st) = st" "pf_queue (sim_numbered st) = (\<lambda>_. [])" "pf_next (sim_numbered st) = 0"
  "pf_trans_id (sim_numbered st) = 5" "frame_serving_urb (sim_numbered st) = None" "pf_flight (sim_numbered st) = []"
  "pf_machine (sim_numbered st) = (\<lambda>_. new_machine)" "\<not> pf_held (sim_numbered st)" "\<not> pf_hang (sim_numbered st)"
  "pf_urb (sim_numbered st) = (\<lambda>_. sim_answer 5)" "pf_world (sim_numbered st) = []"
  by (simp_all add: sim_numbered_def new_filter_def)

lemma sim_command_brought: "st \<noteq> ptpfs_bypassed \<Longrightarrow> brings_command (sim_numbered st) (sim_command 7) 0x1004 7 []"
  by (simp add: brings_command_def sim_command_def sim_urb_def new_machine_def PTP_OC_OpenSession_def PTP_OC_CloseSession_def)

lemma sim_code: "(0x1004 :: u16) \<noteq> PTP_OC_CANON_EOS_GetViewFinderData"
  by (simp add: PTP_OC_CANON_EOS_GetViewFinderData_def)

lemma sim_not_queued: "\<forall>q. pf_next (sim_numbered st) \<notin> set (pf_queue (sim_numbered st) q)"
  by simp

lemma sim_renumbered: "(sim_command 7)\<lparr>pu_buf := Own (ptp_container PTP_USB_CONTAINER_COMMAND 0x1004 n [])\<rparr> = sim_command n"
  by (simp add: sim_command_def sim_urb_def)

theorem client_command_taken_witness:
  "\<forall>udev pdu. pf_queue (snd (run_state (rx_event log_p udev pdu (sim_command 7)) (sim_numbered ptpfs_busy))) Q_request = [0] \<and>
     pf_world (snd (run_state (rx_event log_p udev pdu (sim_command 7)) (sim_numbered ptpfs_busy))) = [] \<and>
     pf_world (snd (run_state (rx_event log_p udev pdu (sim_command 7)) (sim_numbered ptpfs_idle))) =
       [(0, ptp_container PTP_USB_CONTAINER_COMMAND 0x1004 5 [])]"
proof (intro allI)
  fix udev pdu
  let ?t = "\<lambda>st. snd (run_state (rx_event log_p udev pdu (sim_command 7)) (sim_numbered st))"
  note taken = client_command_taken [OF sim_command_brought disjI1 [OF sim_code] sim_numbered_fields(8) sim_not_queued
      prod.collapse [symmetric] refl, of _ log_p udev pdu]
  have "pf_queue (?t ptpfs_busy) Q_request = [0]" "pf_world (?t ptpfs_busy) = []"
    using taken [of ptpfs_busy] by (simp_all add: reading_frame_def)
  moreover have "pf_world (?t ptpfs_idle) = [(0, ptp_container PTP_USB_CONTAINER_COMMAND 0x1004 5 [])]"
    using taken [of ptpfs_idle] by (simp add: reading_frame_def log_p_def)
  ultimately show "pf_queue (?t ptpfs_busy) Q_request = [0] \<and> pf_world (?t ptpfs_busy) = [] \<and>
     pf_world (?t ptpfs_idle) = [(0, ptp_container PTP_USB_CONTAINER_COMMAND 0x1004 5 [])]" by blast
qed

text \<open>The command waits, because a frame is read; time goes on; then it is sent with the number of the filter, and
  its answer has the client's number.\<close>

theorem transaction_numbers_restored_witness:
  "\<exists>s1 s2. s1 = snd (run_state (rx_event log_p undefined undefined (sim_command 7)) (sim_numbered ptpfs_busy)) \<and>
     ptp_answer_steps log_p s1 s2 \<and> pf_queue s2 Q_request = [0] \<and> pf_world s2 = [] \<and>
     pf_world (snd (run_state (ptp_submit_urb log_p True 0) s2)) = [(0, ptp_container PTP_USB_CONTAINER_COMMAND 0x1004 5 [])] \<and>
     urb_bytes (snd (run_state (ptp_parse M_tx 1) s2)) 1 = ptp_container PTP_USB_CONTAINER_RESPONSE 0x2001 7 []"
proof -
  let ?s = "sim_numbered ptpfs_busy" and ?m = "rx_event log_p undefined undefined (sim_command 7)"
  define s1 where "s1 = snd (run_state ?m ?s)"
  have run: "run_state ?m ?s = (fst (run_state ?m ?s), s1)" by (simp add: s1_def)
  have br: "brings_command ?s (sim_command 7) 0x1004 7 []" by (rule sim_command_brought) simp
  have t: "pf_queue s1 Q_request = [0]" "pf_world s1 = []" "pf_trans_id s1 = 5" "frame_serving_urb s1 = None"
    "pf_machine s1 M_send = new_machine" "pf_machine s1 M_tx = new_machine" "pf_urb s1 0 = sim_command 5" "pf_urb s1 1 = sim_answer 5"
    "pf_urb s1 (Suc 0) = sim_answer 5"
    using command_taken [OF br disjI1 [OF sim_code] sim_numbered_fields(8) sim_not_queued run refl]
    by (simp_all add: reading_frame_def sim_renumbered)
  let ?s2 = "s1\<lparr>pf_world := []\<rparr>"
  have st: "ptp_answer_steps log_p s1 ?s2"
    unfolding ptp_answer_steps_def by (rule r_into_rtranclp) (rule ptp_answer_step.clock)
  note R = transaction_numbers_restored [OF br run st]
  have h1: "holds_container M_send 0 PTP_USB_CONTAINER_COMMAND 0x1004 5 [] ?s2"
    by (simp add: holds_container_def t new_machine_def sim_command_def sim_urb_def)
  have h2: "holds_container M_tx 1 PTP_USB_CONTAINER_RESPONSE 0x2001 5 [] ?s2"
    by (simp add: holds_container_def t new_machine_def sim_answer_def sim_urb_def)
  have o: "\<not> usb_pipein (pu_pipe (pf_urb ?s2 0))" "frame_serving_urb ?s2 \<noteq> Some 1" by (simp_all add: t sim_command_def sim_urb_def)
  have w: "pf_world (snd (run_state (ptp_submit_urb log_p True 0) ?s2)) = [(0, ptp_container PTP_USB_CONTAINER_COMMAND 0x1004 5 [])]"
    using conjunct1 [OF R, rule_format, OF h1 o(1), of True] by (simp add: Let_def log_p_def t)
  have a: "urb_bytes (snd (run_state (ptp_parse M_tx 1) ?s2)) 1 = ptp_container PTP_USB_CONTAINER_RESPONSE 0x2001 7 []"
    using conjunct2 [OF R, rule_format, OF h2 o(2) prod.collapse [symmetric]] by blast
  show ?thesis
    by (intro exI [of _ s1] exI [of _ ?s2] conjI s1_def st w a) (simp_all add: t)
qed

theorem parser_ends_witness:
  "let s = sim_filter ptpfs_idle (\<lambda>_. sim_urb sim_bulk_out (ptp_container PTP_USB_CONTAINER_COMMAND 0x1004 7 []))
   in \<exists>r t. run_state (parse_loop M_rx 0 \<lparr>pr_off = 0, pr_len = 12, pr_done = False, pr_ret = False\<rparr>) s = (Some r, t) \<and>
     \<not> pf_hang t \<and> \<not> pf_held t \<and> (pr_len r = 0 \<or> pf_state t = ptpfs_bypassed \<or> pf_oops t)"
proof -
  let ?s = "sim_filter ptpfs_idle (\<lambda>_. sim_urb sim_bulk_out (ptp_container PTP_USB_CONTAINER_COMMAND 0x1004 7 []))"
  have b: "urb_bytes ?s 0 = ptp_container PTP_USB_CONTAINER_COMMAND 0x1004 7 []" by (simp add: urb_bytes_def sim_urb_def)
  have "no_session (urb_bytes ?s 0)"
    unfolding b no_session_def
    using get_header_container [where ty = PTP_USB_CONTAINER_COMMAND and code = "0x1004" and tid = 7 and pl = "[]" and r = "[]"]
    by (simp add: session_command_def PTP_OC_OpenSession_def PTP_OC_CloseSession_def)
  moreover have "\<not> pf_held ?s" "\<not> pf_hang ?s" "\<not> pf_oops ?s" by (simp_all add: sim_filter_def new_filter_def)
  ultimately show ?thesis unfolding Let_def by (intro parser_ends) simp_all
qed

theorem short_header_leaves_buffer_witness:
  "pf_oops (snd (run_state (ptp_parse M_self 0)
     (sim_filter ptpfs_busy (\<lambda>_. sim_urb sim_bulk_in ([5,0,0,0, 2,0, 1,16, 0,0,0,0] @ replicate 12 0)))))"
  by (rule short_header_leaves_buffer [where bs = "[5,0,0,0, 2,0, 1,16, 0,0,0,0] @ replicate 12 0"])
    (simp_all add: sim_urb_def new_machine_def urb_bytes_def get_bulk_header_def slice_def ptp_defs)

theorem bypassed_filter_strands_witness:
  "let s = (sim_filter ptpfs_bypassed (\<lambda>_. sim_urb sim_bulk_in []))\<lparr>pf_queue := (\<lambda>_. [])(Q_client := [0]), pf_next := 1\<rparr>
   in \<forall>udev pdu. 0 \<in> set (pf_queue (snd (run_state (rx_event sim_p udev pdu (sim_urb sim_bulk_in [])) s)) Q_client)"
proof -
  define s where "s = (sim_filter ptpfs_bypassed (\<lambda>_. sim_urb sim_bulk_in []))\<lparr>pf_queue := (\<lambda>_. [])(Q_client := [0]), pf_next := 1\<rparr>"
  have "0 \<in> set (pf_queue (snd (run_state (rx_event sim_p udev pdu (sim_urb sim_bulk_in [])) s)) Q_client)" for udev pdu
  proof -
    have "ptp_steps sim_p s (snd (run_state (rx_event sim_p udev pdu (sim_urb sim_bulk_in [])) s))"
      unfolding ptp_steps_def by (rule r_into_rtranclp) (rule ptp_step.rx)
    from bypassed_filter_strands [OF _ _ _ _ this, of 0 Q_client] show ?thesis by (simp add: s_def)
  qed
  then show ?thesis unfolding Let_def s_def by blast
qed

end
