(* ===== verification/Modules.thy ===== *)
theory Modules
  imports BusId Vhci Filters Effects
begin

text \<open>
  The modules of the kernel: loading and unloading the core (\<^verbatim>\<open>usbip_common.c\<close>), the stub driver
  (\<^verbatim>\<open>stub_main.c\<close>) and the virtual host controller (\<^verbatim>\<open>vhci_hcd.c\<close>), with the paths that take back what was done
  when a later step fails. The calls that acquire something from the kernel are the fields of
  \<open>mapi\<close>; \<open>md_held\<close> records what is held, the latest first, and \<open>md_bad\<close> is set when something is released
  that is not the latest. Neither has a counterpart in C.
\<close>

section \<open>What a module acquires\<close>

datatype resource = Priv_cache | Stub_driver | Match_file | Platform_driver | Platform_device | Hcd | Hcd_added

record 'w module_state =
  md_busids :: "bus_id_priv list"
  md_filters :: "nat list"
  md_controller :: bool
  md_drvdata :: bool
  md_held :: "resource list"
  md_bad :: bool
  md_world :: 'w

record 'w mapi =
  m_acquire :: "resource \<Rightarrow> 'w \<Rightarrow> s32 \<times> 'w"
  m_release :: "resource \<Rightarrow> 'w \<Rightarrow> 'w"
  m_usb_disabled :: bool
  m_dma_mask :: bool

definition acquire :: "'w mapi \<Rightarrow> resource \<Rightarrow> ('w module_state, s32) state" where
  "acquire k r = State (\<lambda>s. case m_acquire k r (md_world s) of (x, w) \<Rightarrow>
     (x, if 0 \<le>s x then s\<lparr>md_held := r # md_held s, md_world := w\<rparr> else s\<lparr>md_world := w\<rparr>))"

definition release :: "'w mapi \<Rightarrow> resource \<Rightarrow> ('w module_state, unit) state" where
  "release k r = modify (\<lambda>s. case md_held s of
       x # xs \<Rightarrow> if x = r then s\<lparr>md_held := xs, md_world := m_release k r (md_world s)\<rparr> else s\<lparr>md_bad := True\<rparr>
     | [] \<Rightarrow> s\<lparr>md_bad := True\<rparr>)"

section \<open>The core\<close>

definition usbip_core_init :: "('w module_state, s32) state" where
  "usbip_core_init = do { modify (\<lambda>s. s\<lparr>md_filters := []\<rparr>); ret 0 }"

definition usbip_core_exit :: "('w module_state, unit) state" where
  "usbip_core_exit = ret ()"

section \<open>The stub driver\<close>

text \<open>\<open>kmem_cache_create\<close> returns a pointer; a negative result stands for the null pointer.\<close>

definition usbip_host_init :: "'w mapi \<Rightarrow> ('w module_state, s32) state" where
  "usbip_host_init k = do {
     modify (\<lambda>s. s\<lparr>md_busids := init_busid_table\<rparr>);
     c \<leftarrow> acquire k Priv_cache;
     if c <s 0 then ret (- ENOMEM)
     else do {
       r \<leftarrow> acquire k Stub_driver;
       if r <s 0 then do { release k Priv_cache; ret r }
       else do {
         r2 \<leftarrow> acquire k Match_file;
         if r2 <s 0 then do { release k Stub_driver; release k Priv_cache; ret r2 }
         else ret r2
       }
     }
   }"

definition usbip_host_exit :: "'w mapi \<Rightarrow> ('w module_state, unit) state" where
  "usbip_host_exit k = do { release k Match_file; release k Stub_driver; release k Priv_cache }"

section \<open>The virtual host controller\<close>

definition vhci_hcd_init :: "'w mapi \<Rightarrow> ('w module_state, s32) state" where
  "vhci_hcd_init k =
     (if m_usb_disabled k then ret (- ENODEV)
      else do {
        r \<leftarrow> acquire k Platform_driver;
        if r <s 0 then ret r
        else do {
          r2 \<leftarrow> acquire k Platform_device;
          if r2 <s 0 then do { release k Platform_driver; ret r2 } else ret r2
        }
      })"

definition vhci_hcd_exit :: "'w mapi \<Rightarrow> ('w module_state, unit) state" where
  "vhci_hcd_exit k = do { release k Platform_device; release k Platform_driver }"

text \<open>The host controller of the device. \<open>usb_create_hcd\<close> returns a pointer and stores it in the driver
  data of the device; \<open>usb_add_hcd\<close> calls \<open>vhci_start\<close>, and any result but 0 is a failure.\<close>

definition vhci_hcd_probe :: "'w mapi \<Rightarrow> ('w module_state, s32) state" where
  "vhci_hcd_probe k =
     (if m_dma_mask k then ret (- EINVAL)
      else do {
        c \<leftarrow> acquire k Hcd;
        if c <s 0 then ret (- ENOMEM)
        else do {
          modify (\<lambda>s. s\<lparr>md_controller := True, md_drvdata := True\<rparr>);
          r \<leftarrow> acquire k Hcd_added;
          if r \<noteq> 0 then do {
            release k Hcd;
            modify (\<lambda>s. s\<lparr>md_controller := False\<rparr>);
            ret r
          }
          else ret 0
        }
      })"

definition vhci_hcd_remove :: "'w mapi \<Rightarrow> ('w module_state, s32) state" where
  "vhci_hcd_remove k = do {
     d \<leftarrow> gets md_drvdata;
     if \<not> d then ret 0
     else do {
       release k Hcd_added;
       release k Hcd;
       modify (\<lambda>s. s\<lparr>md_controller := False\<rparr>);
       ret 0
     }
   }"

section \<open>Rolling back\<close>

lemma signed_cases: "\<not> 0 \<le>s x \<longleftrightarrow> x <s (0::s32)"
  by (simp add: word_sle_eq word_sless_alt not_le)

lemma errno_signs: "\<not> 0 \<le>s - ENOMEM" "\<not> 0 \<le>s - ENODEV" "\<not> 0 \<le>s - EINVAL"
  by (simp_all add: ENOMEM_def ENODEV_def EINVAL_def word_sle_eq)

text \<open>What a program leaves held: all of \<open>rs\<close> when its result is not negative, nothing otherwise, and it
  releases only what is the latest.\<close>

definition all_or_nothing :: "resource list \<Rightarrow> ('w module_state, s32) state \<Rightarrow> bool" where
  "all_or_nothing rs m \<longleftrightarrow> (\<forall>s x t. run_state m s = (x, t) \<longrightarrow>
     md_held t = (if 0 \<le>s x then rs @ md_held s else md_held s) \<and> md_bad t = md_bad s)"

definition lets_go :: "resource list \<Rightarrow> ('w module_state, 'a) state \<Rightarrow> bool" where
  "lets_go rs m \<longleftrightarrow> (\<forall>s h. md_held s = rs @ h \<longrightarrow>
     md_held (snd (run_state m s)) = h \<and> md_bad (snd (run_state m s)) = md_bad s)"

text \<open>A module: what loading it acquires, and that unloading lets go of it.\<close>

locale kernel_module =
  fixes load :: "('w module_state, s32) state" and unload :: "('w module_state, unit) state" and rs :: "resource list"
  assumes loads: "all_or_nothing rs load" and unloads: "lets_go rs unload"
begin

lemma life:
  "case run_state load s of (x, t) \<Rightarrow>
     md_bad t = md_bad s \<and>
     (if 0 \<le>s x then md_held t = rs @ md_held s \<and> md_held (snd (run_state unload t)) = md_held s \<and>
        md_bad (snd (run_state unload t)) = md_bad s
      else md_held t = md_held s)"
proof -
  obtain x t where r: "run_state load s = (x, t)" by (rule prod.exhaust)
  from r loads have a: "md_held t = (if 0 \<le>s x then rs @ md_held s else md_held s)" "md_bad t = md_bad s"
    unfolding all_or_nothing_def by blast+
  show ?thesis using a unloads unfolding lets_go_def by (simp add: r)
qed

end

lemma host_init_rolls_back: "all_or_nothing [Match_file, Stub_driver, Priv_cache] (usbip_host_init k)"
  unfolding all_or_nothing_def usbip_host_init_def
  by (auto simp: acquire_def release_def signed_cases errno_signs split: prod.splits if_splits)

lemma hcd_init_rolls_back: "all_or_nothing [Platform_device, Platform_driver] (vhci_hcd_init k)"
  unfolding all_or_nothing_def vhci_hcd_init_def
  by (auto simp: acquire_def release_def signed_cases errno_signs split: prod.splits if_splits)

interpretation host: kernel_module "usbip_host_init k" "usbip_host_exit k" "[Match_file, Stub_driver, Priv_cache]" for k
  by unfold_locales (rule host_init_rolls_back, simp add: lets_go_def usbip_host_exit_def release_def)

interpretation hcd: kernel_module "vhci_hcd_init k" "vhci_hcd_exit k" "[Platform_device, Platform_driver]" for k
  by unfold_locales (rule hcd_init_rolls_back, simp add: lets_go_def vhci_hcd_exit_def release_def)

text \<open>C24. Loading the module of the stub driver either acquires all it needs or takes back every step
  done before the one that failed, the latest first; unloading it leaves nothing behind.\<close>

theorem host_module_life:
  "case run_state (usbip_host_init k) s of (x, t) \<Rightarrow>
     md_bad t = md_bad s \<and>
     (if 0 \<le>s x then md_held t = [Match_file, Stub_driver, Priv_cache] @ md_held s \<and>
        md_held (snd (run_state (usbip_host_exit k) t)) = md_held s \<and> md_bad (snd (run_state (usbip_host_exit k) t)) = md_bad s
      else md_held t = md_held s)"
  by (rule host.life)

theorem hcd_module_life:
  "case run_state (vhci_hcd_init k) s of (x, t) \<Rightarrow>
     md_bad t = md_bad s \<and>
     (if 0 \<le>s x then md_held t = [Platform_device, Platform_driver] @ md_held s \<and>
        md_held (snd (run_state (vhci_hcd_exit k) t)) = md_held s \<and> md_bad (snd (run_state (vhci_hcd_exit k) t)) = md_bad s
      else md_held t = md_held s)"
  by (rule hcd.life)

text \<open>The controller of the platform device: a probe that fails leaves no controller behind, and
  removing the device drops it.\<close>

theorem controller_life:
  assumes "\<And>w. \<not> 0 <s fst (m_acquire k Hcd_added w)" and "\<not> md_controller s"
  shows "case run_state (vhci_hcd_probe k) s of (x, t) \<Rightarrow>
     md_bad t = md_bad s \<and> md_controller t = (x = 0) \<and>
     (if x = 0 then md_held t = [Hcd_added, Hcd] @ md_held s \<and>
        md_held (snd (run_state (vhci_hcd_remove k) t)) = md_held s \<and> \<not> md_controller (snd (run_state (vhci_hcd_remove k) t))
      else md_held t = md_held s)"
proof -
  have n: "\<not> 0 \<le>s x" if "m_acquire k Hcd_added w = (x, w')" "x \<noteq> 0" for x w w'
  proof -
    have "\<not> 0 <s x" using assms(1) [of w] that(1) by simp
    then show ?thesis using that(2) by (metis signed.dual_order.not_eq_order_implies_strict)
  qed
  show ?thesis
    unfolding vhci_hcd_probe_def vhci_hcd_remove_def using assms(2)
    by (auto simp: acquire_def release_def signed_cases errno_signs EINVAL_def ENOMEM_def split: prod.splits dest: n)
qed

end
