(* ===== verification/ClientLoop.thy ===== *)
theory ClientLoop
  imports UNet BusId
begin

text \<open>
  The client library (\<^verbatim>\<open>userspace/client/client.c\<close>): the works of its loop, devices and urbs. A work is a
  protothread on the loop of libuv; where it yields, its place is a constructor of \<open>device_pc\<close>. The callbacks
  of libuv are events (theory \<open>ClientDevice\<close>), its calls that can fail are fields of \<open>capi\<close>.

  Works, devices and urbs are named by numbers. The lists of free objects of the library only save
  allocations: an object that was put on one is marked as freed, and its number is not used again. \<open>wk_timer\<close> and \<open>dv_timer\<close> say that a
  timer was made (\<open>timer.data\<close>), \<open>wk_armed\<close> and \<open>dv_armed\<close> that it runs. Fields with no counterpart in C: \<open>wk_finished\<close> counts the calls of \<open>work_done\<close>; \<open>wk_freed\<close>, \<open>dv_freed\<close> and \<open>ub_freed\<close>;
  \<open>wk_pending\<close>, whether libuv has a connection or a write of the work under way; \<open>dv_sent\<close>, the bytes given to \<open>uv_write\<close>; \<open>wk_closing\<close>, \<open>dv_close\<close> and \<open>dv_timer_close\<close>, the callbacks of
  \<open>uv_close\<close> that are due; \<open>se_fault\<close>, set where an assertion fails, a null pointer is followed or a buffer is left.
\<close>

section \<open>State\<close>

datatype work_state = ws_pending | ws_busy | ws_done

datatype work_action = wa_process | wa_abort | wa_destroy

datatype work_cb =
    Work_abort nat | Work_unref nat | Session_start
  | Device_loop nat | Device_open nat | Device_close nat | Urb_transfer nat | Info_req nat

text \<open>\<open>wk_status\<close> is the union of \<open>status\<close> and \<open>nread\<close>; \<open>wk_got\<close> are the bytes stored in the buffer so far, of
  the \<open>wk_len\<close> it has room for.\<close>

record cwork =
  wk_cb :: work_cb
  wk_ref :: int
  wk_timer :: bool
  wk_armed :: bool
  wk_timeout :: int
  wk_sync :: bool
  wk_user :: bool
  wk_state :: work_state
  wk_ret :: int
  wk_status :: int
  wk_got :: "byte list"
  wk_len :: nat
  wk_reading :: bool
  wk_pending :: bool
  wk_closing :: bool
  wk_finished :: nat
  wk_freed :: bool

datatype dev_state = devs_closed | devs_closing | devs_restarting | devs_opening | devs_running

primrec devs_num :: "dev_state \<Rightarrow> nat" where
  "devs_num devs_closed = 0"
| "devs_num devs_closing = 1"
| "devs_num devs_restarting = 2"
| "devs_num devs_opening = 3"
| "devs_num devs_running = 4"

datatype device_pc =
    Pc_start | Pc_connecting | Pc_writing | Pc_op_header | Pc_closing | Pc_import
  | Pc_header | Pc_drop | Pc_data

datatype closing = Socket_close | Restart_close

record cdevice =
  dv_devid :: u32
  dv_seqnum :: u32
  dv_busid :: string
  dv_pc :: device_pc
  dv_ref :: int
  dv_state :: dev_state
  dv_max_retry :: int
  dv_retry :: int
  dv_timer :: bool
  dv_armed :: bool
  dv_timer_close :: bool
  dv_socket :: "nat option"
  dv_reading :: bool
  dv_close :: "closing option"
  dv_header :: usbip_header
  dv_cur :: "nat option"
  dv_urb_list :: "nat list"
  dv_read_list :: "nat list"
  dv_returned :: bool
  dv_sent :: "byte list"
  dv_freed :: bool

text \<open>\<open>ub_data\<close> is the buffer of the caller, \<open>ub_ret\<close> the place of the length transferred.\<close>

record curb =
  ub_dev :: nat
  ub_work :: "nat option"
  ub_begun :: bool
  ub_header :: usbip_header
  ub_direction :: u32
  ub_seqnum :: u32
  ub_data :: "byte list"
  ub_ret :: s32
  ub_freed :: bool

record device_info =
  di_udev :: usbip_usb_device
  di_interfaces :: "usbip_usb_interface list"

datatype info_pc = Ip_start | Ip_connecting | Ip_writing | Ip_header | Ip_reply | Ip_udev | Ip_intf

record info_req =
  iq_pc :: info_pc
  iq_ref :: int
  iq_active :: bool
  iq_close :: bool
  iq_socket :: "nat option"
  iq_ndev :: u32
  iq_udev :: usbip_usb_device
  iq_intfs :: "usbip_usb_interface list"
  iq_infos :: "device_info list"
  iq_read_list :: "nat list"
  iq_sent :: "byte list"
  iq_freed :: bool

record 'w csession =
  se_work :: "nat \<Rightarrow> cwork"
  se_dev :: "nat \<Rightarrow> cdevice"
  se_urb :: "nat \<Rightarrow> curb"
  se_req :: "nat \<Rightarrow> info_req"
  se_queue :: "nat list"
  se_next_work :: nat
  se_next_dev :: nat
  se_next_urb :: nat
  se_next_req :: nat
  se_fault :: bool
  se_world :: 'w

text \<open>The library libuv: whether a call succeeds, the last error, and its error codes.\<close>

record 'w capi =
  uv_tcp_init :: "'w \<Rightarrow> bool \<times> 'w"
  uv_tcp_connect :: "'w \<Rightarrow> bool \<times> 'w"
  uv_read_start :: "'w \<Rightarrow> bool \<times> 'w"
  uv_write :: "byte list \<Rightarrow> 'w \<Rightarrow> bool \<times> 'w"
  uv_last_error :: "'w \<Rightarrow> int"
  uv_ecanceled :: int
  uv_etimedout :: int
  uv_eio :: int
  uv_einval :: int
  uv_ebusy :: int

section \<open>Parts of the state\<close>

definition upd_work :: "nat \<Rightarrow> (cwork \<Rightarrow> cwork) \<Rightarrow> ('w csession, unit) state" where
  "upd_work w f = modify (\<lambda>s. s\<lparr>se_work := (se_work s)(w := f (se_work s w))\<rparr>)"

definition upd_dev :: "nat \<Rightarrow> (cdevice \<Rightarrow> cdevice) \<Rightarrow> ('w csession, unit) state" where
  "upd_dev d f = modify (\<lambda>s. s\<lparr>se_dev := (se_dev s)(d := f (se_dev s d))\<rparr>)"

definition upd_cu :: "nat \<Rightarrow> (curb \<Rightarrow> curb) \<Rightarrow> ('w csession, unit) state" where
  "upd_cu u f = modify (\<lambda>s. s\<lparr>se_urb := (se_urb s)(u := f (se_urb s u))\<rparr>)"

definition upd_req :: "nat \<Rightarrow> (info_req \<Rightarrow> info_req) \<Rightarrow> ('w csession, unit) state" where
  "upd_req q f = modify (\<lambda>s. s\<lparr>se_req := (se_req s)(q := f (se_req s q))\<rparr>)"

definition fault :: "('w csession, unit) state" where
  "fault = modify (\<lambda>s. s\<lparr>se_fault := True\<rparr>)"

definition call_uv :: "('w \<Rightarrow> bool \<times> 'w) \<Rightarrow> ('w csession, bool) state" where
  "call_uv f = State (\<lambda>s. case f (se_world s) of (ok, w) \<Rightarrow> (ok, s\<lparr>se_world := w\<rparr>))"

definition last_error :: "'w capi \<Rightarrow> ('w csession, int) state" where
  "last_error k = gets (\<lambda>s. uv_last_error k (se_world s))"

lemmas client_parts = upd_work_def upd_dev_def upd_cu_def upd_req_def fault_def last_error_def

section \<open>Devices and urbs\<close>

definition device_ref :: "nat \<Rightarrow> ('w csession, unit) state" where
  "device_ref d = upd_dev d (\<lambda>x. x\<lparr>dv_ref := dv_ref x + 1\<rparr>)"

definition device_unref :: "nat \<Rightarrow> ('w csession, unit) state" where
  "device_unref d = do {
     upd_dev d (\<lambda>x. x\<lparr>dv_ref := dv_ref x - 1\<rparr>);
     n \<leftarrow> gets (\<lambda>s. dv_ref (se_dev s d));
     (if n < 0 then fault else ret ());
     (if n = 0 then upd_dev d (\<lambda>x. x\<lparr>dv_freed := True\<rparr>) else ret ())
   }"

text \<open>The macro \<open>DEVICE_CLOSE\<close>; \<open>uv_close\<close> stops the reading.\<close>

definition DEVICE_CLOSE :: "nat \<Rightarrow> ('w csession, unit) state" where
  "DEVICE_CLOSE d = do {
     st \<leftarrow> gets (\<lambda>s. dv_state (se_dev s d));
     (if devs_num devs_opening \<le> devs_num st then do {
        upd_dev d (\<lambda>x. x\<lparr>dv_state := devs_closing\<rparr>);
        device_ref d;
        upd_dev d (\<lambda>x. x\<lparr>dv_reading := False, dv_close := Some Socket_close\<rparr>)
      }
      else ret ())
   }"

definition urb_del :: "nat \<Rightarrow> ('w csession, unit) state" where
  "urb_del u = upd_cu u (\<lambda>x. x\<lparr>ub_freed := True\<rparr>)"

definition req_ref :: "nat \<Rightarrow> ('w csession, unit) state" where
  "req_ref q = upd_req q (\<lambda>x. x\<lparr>iq_ref := iq_ref x + 1\<rparr>)"

definition req_unref :: "nat \<Rightarrow> ('w csession, unit) state" where
  "req_unref q = do {
     upd_req q (\<lambda>x. x\<lparr>iq_ref := iq_ref x - 1\<rparr>);
     n \<leftarrow> gets (\<lambda>s. iq_ref (se_req s q));
     (if n < 0 then fault else ret ());
     (if n = 0 then upd_req q (\<lambda>x. x\<lparr>iq_freed := True\<rparr>) else ret ())
   }"

definition device_info_req_close :: "nat \<Rightarrow> ('w csession, unit) state" where
  "device_info_req_close q = do {
     a \<leftarrow> gets (\<lambda>s. iq_active (se_req s q));
     (if \<not> a then ret () else do {
        upd_req q (\<lambda>x. x\<lparr>iq_active := False\<rparr>);
        req_ref q;
        upd_req q (\<lambda>x. x\<lparr>iq_close := True\<rparr>)
      })
   }"

section \<open>Works\<close>

text \<open>\<open>work->cb(work,wa_destroy)\<close>.\<close>

definition cb_destroy :: "nat \<Rightarrow> ('w csession, unit) state" where
  "cb_destroy w = do {
     c \<leftarrow> gets (\<lambda>s. wk_cb (se_work s w));
     (case c of
        Device_loop d \<Rightarrow> do { DEVICE_CLOSE d; device_unref d }
      | Device_open d \<Rightarrow> do {
          t \<leftarrow> gets (\<lambda>s. dv_timer (se_dev s d));
          if t then upd_dev d (\<lambda>x. x\<lparr>dv_timer_close := True\<rparr>) else device_unref d
        }
      | Urb_transfer u \<Rightarrow> do {
          d \<leftarrow> gets (\<lambda>s. ub_dev (se_urb s u));
          urb_del u;
          device_unref d
        }
      | Info_req q \<Rightarrow> do { device_info_req_close q; req_unref q }
      | _ \<Rightarrow> ret ())
   }"

definition work_ref :: "nat \<Rightarrow> ('w csession, unit) state" where
  "work_ref w = upd_work w (\<lambda>x. x\<lparr>wk_ref := wk_ref x + 1\<rparr>)"

definition work_del :: "nat \<Rightarrow> ('w csession, unit) state" where
  "work_del w = do {
     t \<leftarrow> gets (\<lambda>s. wk_timer (se_work s w));
     if t then do { work_ref w; upd_work w (\<lambda>x. x\<lparr>wk_closing := True\<rparr>) }
     else do { cb_destroy w; upd_work w (\<lambda>x. x\<lparr>wk_freed := True\<rparr>) }
   }"

definition work_unref :: "nat \<Rightarrow> ('w csession, unit) state" where
  "work_unref w = do {
     upd_work w (\<lambda>x. x\<lparr>wk_ref := wk_ref x - 1\<rparr>);
     n \<leftarrow> gets (\<lambda>s. wk_ref (se_work s w));
     (if n < 0 then fault else ret ());
     (if n = 0 then work_del w else ret ())
   }"

text \<open>The callback after the timer of a work was closed.\<close>

definition timer_close_cb :: "nat \<Rightarrow> ('w csession, unit) state" where
  "timer_close_cb w = do {
     upd_work w (\<lambda>x. x\<lparr>wk_timer := False, wk_closing := False\<rparr>);
     work_unref w
   }"

definition work_done :: "nat \<Rightarrow> ('w csession, unit) state" where
  "work_done w = do {
     upd_work w (\<lambda>x. x\<lparr>wk_armed := False, wk_state := ws_done, wk_finished := Suc (wk_finished x)\<rparr>);
     work_unref w
   }"

definition WORK_SET_ERR :: "nat \<Rightarrow> int \<Rightarrow> ('w csession, unit) state" where
  "WORK_SET_ERR w e = upd_work w (\<lambda>x. if wk_ret x = 0 then x\<lparr>wk_ret := - e\<rparr> else x)"

text \<open>\<open>work->cb(work,wa_abort)\<close>.\<close>

definition cb_abort :: "nat \<Rightarrow> ('w csession, unit) state" where
  "cb_abort w = do {
     c \<leftarrow> gets (\<lambda>s. wk_cb (se_work s w));
     (case c of
        Device_loop d \<Rightarrow> DEVICE_CLOSE d
      | Device_open d \<Rightarrow> do {
          st \<leftarrow> gets (\<lambda>s. dv_state (se_dev s d));
          if st = devs_restarting then do {
            upd_dev d (\<lambda>x. x\<lparr>dv_state := devs_closed, dv_armed := False\<rparr>);
            work_done w
          }
          else DEVICE_CLOSE d
        }
      | Urb_transfer u \<Rightarrow> do { d \<leftarrow> gets (\<lambda>s. ub_dev (se_urb s u)); DEVICE_CLOSE d }
      | Info_req q \<Rightarrow> device_info_req_close q
      | _ \<Rightarrow> ret ())
   }"

text \<open>\<open>WORK_EXIT\<close> and \<open>WORK_ABORT\<close> of a work whose protothread is reset by \<open>init\<close>.\<close>

definition WORK_EXIT :: "('w csession, unit) state \<Rightarrow> nat \<Rightarrow> ('w csession, unit) state" where
  "WORK_EXIT init w = do { init; work_done w }"

definition WORK_ABORT :: "('w csession, unit) state \<Rightarrow> nat \<Rightarrow> int \<Rightarrow> ('w csession, unit) state" where
  "WORK_ABORT init w r = do {
     upd_work w (\<lambda>x. x\<lparr>wk_ret := r\<rparr>);
     cb_abort w;
     WORK_EXIT init w
   }"

text \<open>\<open>WORK_ASYNC\<close>: a call of libuv, and how the work goes on.\<close>

definition WORK_ASYNC ::
  "'w capi \<Rightarrow> ('w csession, unit) state \<Rightarrow> nat \<Rightarrow> ('w \<Rightarrow> bool \<times> 'w) \<Rightarrow> ('w csession, unit) state \<Rightarrow> ('w csession, unit) state" where
  "WORK_ASYNC k init w f rest = do {
     ok \<leftarrow> call_uv f;
     if \<not> ok then do { e \<leftarrow> last_error k; WORK_ABORT init w e } else rest
   }"

definition under_way :: "nat \<Rightarrow> ('w csession, unit) state" where
  "under_way w = upd_work w (\<lambda>x. x\<lparr>wk_pending := True\<rparr>)"

text \<open>What follows a yield; \<open>undo\<close> is \<open>READ_DONE\<close>.\<close>

definition WORK_YIELDED ::
  "'w capi \<Rightarrow> ('w csession, unit) state \<Rightarrow> ('w csession, unit) state \<Rightarrow> nat \<Rightarrow> ('w csession, unit) state \<Rightarrow> ('w csession, unit) state" where
  "WORK_YIELDED k undo init w rest = do {
     undo;
     x \<leftarrow> gets (\<lambda>s. se_work s w);
     if wk_ret x \<noteq> 0 then WORK_EXIT init w
     else if wk_status x < 0 then do { e \<leftarrow> last_error k; WORK_ABORT init w e }
     else rest
   }"

text \<open>\<open>WORK_BEGIN\<close>.\<close>

definition WORK_BEGIN ::
  "'w capi \<Rightarrow> ('w csession, unit) state \<Rightarrow> nat \<Rightarrow> ('w csession, unit) state \<Rightarrow> ('w csession, unit) state" where
  "WORK_BEGIN k init w rest = do {
     x \<leftarrow> gets (\<lambda>s. se_work s w);
     if wk_state x \<noteq> ws_busy \<or> wk_ret x \<noteq> 0
     then do { WORK_SET_ERR w (uv_ecanceled k); WORK_EXIT init w }
     else rest
   }"

text \<open>A new work. Its timeout and whether a job was given say who waits for it; \<open>timeout >= 0\<close> without a job is
  a caller that waits.\<close>

definition new_work :: "work_cb \<Rightarrow> int \<Rightarrow> bool \<Rightarrow> cwork" where
  "new_work c timeout job =
     \<lparr>wk_cb = c, wk_ref = (if job \<or> timeout \<ge> 0 then 2 else 1), wk_timer = False, wk_armed = False, wk_timeout = timeout,
      wk_sync = (\<not> job \<and> timeout \<ge> 0), wk_user = job, wk_state = ws_pending, wk_ret = 0, wk_status = 0,
      wk_got = [], wk_len = 0, wk_reading = False, wk_pending = False, wk_closing = False, wk_finished = 0, wk_freed = False\<rparr>"

definition work_new :: "work_cb \<Rightarrow> int \<Rightarrow> bool \<Rightarrow> ('w csession, nat) state" where
  "work_new c timeout job = do {
     w \<leftarrow> gets se_next_work;
     modify (\<lambda>s. s\<lparr>se_work := (se_work s)(w := new_work c timeout job), se_queue := se_queue s @ [w],
       se_next_work := Suc w\<rparr>);
     ret w
   }"

definition libusbip_work_abort :: "nat \<Rightarrow> ('w csession, nat) state" where
  "libusbip_work_abort w = work_new (Work_abort w) (- 1) False"

definition libusbip_work_close :: "nat \<Rightarrow> ('w csession, nat) state" where
  "libusbip_work_close w = work_new (Work_unref w) (- 1) False"

definition work_abort_cb :: "'w capi \<Rightarrow> nat \<Rightarrow> nat \<Rightarrow> ('w csession, unit) state" where
  "work_abort_cb k w target = do {
     WORK_SET_ERR target (uv_ecanceled k);
     st \<leftarrow> gets (\<lambda>s. wk_state (se_work s target));
     (if st = ws_busy then cb_abort target else ret ());
     work_done w
   }"

definition work_unref_cb :: "nat \<Rightarrow> nat \<Rightarrow> ('w csession, unit) state" where
  "work_unref_cb w target = do { work_unref target; work_done w }"

text \<open>The work that notes the time when the loop starts never calls \<open>work_done\<close>.\<close>

definition session_start_cb :: "('w csession, unit) state" where
  "session_start_cb = ret ()"

section \<open>Reading\<close>

text \<open>\<open>READ_PREPARE\<close> of a buffer of \<open>n\<close> bytes, with \<open>put\<close> and \<open>del\<close> for the list of readers.\<close>

definition READ_PREPARE :: "(nat \<Rightarrow> ('w csession, unit) state) \<Rightarrow> nat \<Rightarrow> nat \<Rightarrow> ('w csession, unit) state" where
  "READ_PREPARE put w n = do {
     r \<leftarrow> gets (\<lambda>s. wk_reading (se_work s w));
     (if \<not> r then do { put w; upd_work w (\<lambda>x. x\<lparr>wk_reading := True\<rparr>) } else ret ());
     upd_work w (\<lambda>x. x\<lparr>wk_status := 0, wk_got := [], wk_len := n\<rparr>)
   }"

definition READ_DONE :: "(nat \<Rightarrow> ('w csession, unit) state) \<Rightarrow> nat \<Rightarrow> ('w csession, unit) state" where
  "READ_DONE del w = do {
     r \<leftarrow> gets (\<lambda>s. wk_reading (se_work s w));
     (if r then do { upd_work w (\<lambda>x. x\<lparr>wk_reading := False\<rparr>); del w } else ret ())
   }"

definition reader_put :: "nat \<Rightarrow> nat \<Rightarrow> ('w csession, unit) state" where
  "reader_put d w = upd_dev d (\<lambda>x. x\<lparr>dv_read_list := w # dv_read_list x\<rparr>)"

definition reader_del :: "nat \<Rightarrow> nat \<Rightarrow> ('w csession, unit) state" where
  "reader_del d w = upd_dev d (\<lambda>x. x\<lparr>dv_read_list := remove1 w (dv_read_list x)\<rparr>)"

definition req_reader_put :: "nat \<Rightarrow> nat \<Rightarrow> ('w csession, unit) state" where
  "req_reader_put q w = upd_req q (\<lambda>x. x\<lparr>iq_read_list := w # iq_read_list x\<rparr>)"

definition req_reader_del :: "nat \<Rightarrow> nat \<Rightarrow> ('w csession, unit) state" where
  "req_reader_del q w = upd_req q (\<lambda>x. x\<lparr>iq_read_list := remove1 w (iq_read_list x)\<rparr>)"

definition pt_init :: "nat \<Rightarrow> ('w csession, unit) state" where
  "pt_init d = upd_dev d (\<lambda>x. x\<lparr>dv_pc := Pc_start\<rparr>)"

definition goto :: "nat \<Rightarrow> device_pc \<Rightarrow> ('w csession, unit) state" where
  "goto d pc = upd_dev d (\<lambda>x. x\<lparr>dv_pc := pc\<rparr>)"

end
