(* ===== verification/ClientDevice.thy ===== *)
theory ClientDevice
  imports ClientLoop
begin

text \<open>
  Devices and transfers of the client library (\<^verbatim>\<open>userspace/client/client.c\<close>): connecting to a device
  (\<open>device_open_cb\<close>), receiving results (\<open>device_loop\<close>) and sending a request (\<open>device_urb_transfer\<close>).
\<close>

section \<open>Packing\<close>

text \<open>The functions \<open>pack_\<close> and \<open>unpack_\<close> that the macros of \<^verbatim>\<open>usbip_struct_helper.h\<close> make of the packets.\<close>

definition pack_usbip_header_basic :: "endian \<Rightarrow> usbip_header_basic \<Rightarrow> usbip_header_basic" where
  "pack_usbip_header_basic h b =
     b\<lparr>command := cpu_to_be32 h (command b), seqnum := cpu_to_be32 h (seqnum b), devid := cpu_to_be32 h (devid b),
       direction := cpu_to_be32 h (direction b), ep := cpu_to_be32 h (ep b)\<rparr>"

definition unpack_usbip_header_basic :: "endian \<Rightarrow> usbip_header_basic \<Rightarrow> usbip_header_basic" where
  "unpack_usbip_header_basic h b =
     b\<lparr>command := be32_to_cpu h (command b), seqnum := be32_to_cpu h (seqnum b), devid := be32_to_cpu h (devid b),
       direction := be32_to_cpu h (direction b), ep := be32_to_cpu h (ep b)\<rparr>"

definition pack_usbip_header_cmd_submit :: "endian \<Rightarrow> usbip_header_cmd_submit \<Rightarrow> usbip_header_cmd_submit" where
  "pack_usbip_header_cmd_submit h c =
     c\<lparr>cs_transfer_flags := cpu_to_be32 h (cs_transfer_flags c),
       cs_transfer_buffer_length := cpu_to_be32 h (cs_transfer_buffer_length c),
       cs_start_frame := cpu_to_be32 h (cs_start_frame c),
       cs_number_of_packets := cpu_to_be32 h (cs_number_of_packets c), cs_interval := cpu_to_be32 h (cs_interval c)\<rparr>"

definition unpack_usbip_header_ret_submit :: "endian \<Rightarrow> usbip_header_ret_submit \<Rightarrow> usbip_header_ret_submit" where
  "unpack_usbip_header_ret_submit h c =
     c\<lparr>rs_status := be32_to_cpu h (rs_status c), rs_actual_length := be32_to_cpu h (rs_actual_length c),
       rs_start_frame := be32_to_cpu h (rs_start_frame c),
       rs_number_of_packets := be32_to_cpu h (rs_number_of_packets c),
       rs_error_count := be32_to_cpu h (rs_error_count c)\<rparr>"

section \<open>Receiving\<close>

definition yield_read :: "nat \<Rightarrow> nat \<Rightarrow> nat \<Rightarrow> device_pc \<Rightarrow> ('w csession, unit) state" where
  "yield_read d w n pc = do { READ_PREPARE (reader_put d) w n; goto d pc }"

definition next_header :: "nat \<Rightarrow> nat \<Rightarrow> ('w csession, unit) state" where
  "next_header d w = yield_read d w sizeof_header Pc_header"

definition header_ret :: "endian \<Rightarrow> cdevice \<Rightarrow> usbip_header_ret_submit" where
  "header_ret h x = get_ret_submit h (dv_header x)"

text \<open>\<open>device_find_urb\<close>.\<close>

definition device_find_urb :: "nat \<Rightarrow> ('w csession, bool) state" where
  "device_find_urb d = do {
     s \<leftarrow> gets id;
     case find (\<lambda>u. ub_work (se_urb s u) \<noteq> None \<and>
         ub_seqnum (se_urb s u) = seqnum (base (dv_header (se_dev s d)))) (dv_urb_list (se_dev s d)) of
       None \<Rightarrow> ret False
     | Some u \<Rightarrow> do { upd_dev d (\<lambda>x. x\<lparr>dv_cur := Some u\<rparr>); ret True }
   }"

text \<open>The buffer that takes data nobody waits for has 64 KiB.\<close>

definition sizeof_recv_buf :: nat where "sizeof_recv_buf = 65536"

definition drop_read :: "endian \<Rightarrow> nat \<Rightarrow> nat \<Rightarrow> ('w csession, unit) state" where
  "drop_read h d w = do {
     x \<leftarrow> gets (\<lambda>s. se_dev s d);
     let n = unat (rs_actual_length (header_ret h x)) in
     if n \<noteq> 0 then yield_read d w (if n < sizeof_recv_buf then n else sizeof_recv_buf) Pc_drop
     else next_header d w
   }"

text \<open>The end of a transfer. What the peer sent is stored in the buffer of the caller; more than it has
  room for is a fault.\<close>

definition urb_finish :: "endian \<Rightarrow> nat \<Rightarrow> nat \<Rightarrow> nat \<Rightarrow> ('w csession, unit) state" where
  "urb_finish h d w u = do {
     wo \<leftarrow> gets (\<lambda>s. ub_work (se_urb s u));
     (case wo of None \<Rightarrow> fault | Some uw \<Rightarrow> work_done uw);
     upd_dev d (\<lambda>x. x\<lparr>dv_cur := None\<rparr>);
     next_header d w
   }"

definition set_actual :: "endian \<Rightarrow> nat \<Rightarrow> nat \<Rightarrow> ('w csession, unit) state" where
  "set_actual h d u = do {
     x \<leftarrow> gets (\<lambda>s. se_dev s d);
     upd_cu u (\<lambda>y. y\<lparr>ub_ret := rs_actual_length (header_ret h x)\<rparr>)
   }"

definition loop_result :: "'w capi \<Rightarrow> endian \<Rightarrow> nat \<Rightarrow> nat \<Rightarrow> nat \<Rightarrow> ('w csession, unit) state" where
  "loop_result k h d w u = do {
     r \<leftarrow> gets (\<lambda>s. header_ret h (se_dev s d));
     upd_cu u (\<lambda>y. y\<lparr>ub_header := put_ret_submit h r (ub_header y)\<rparr>);
     upd_dev d (\<lambda>x. x\<lparr>dv_urb_list := remove1 u (dv_urb_list x)\<rparr>);
     upd_work w (\<lambda>x. x\<lparr>wk_status := sint (rs_status r)\<rparr>);
     if rs_status r \<noteq> 0 then do { WORK_SET_ERR w (uv_eio k); urb_finish h d w u }
     else do {
       dir \<leftarrow> gets (\<lambda>s. ub_direction (se_urb s u));
       if dir = USBIP_DIR_IN then yield_read d w (unat (rs_actual_length r)) Pc_data
       else do { set_actual h d u; urb_finish h d w u }
     }
   }"

definition loop_header :: "'w capi \<Rightarrow> endian \<Rightarrow> nat \<Rightarrow> nat \<Rightarrow> ('w csession, unit) state" where
  "loop_header k h d w = do {
     bs \<leftarrow> gets (\<lambda>s. wk_got (se_work s w));
     let p = ld_header h bs; p1 = p\<lparr>base := unpack_usbip_header_basic h (base p)\<rparr> in do {
       upd_dev d (\<lambda>x. x\<lparr>dv_header := p1\<rparr>);
       if command (base p1) = USBIP_RET_SUBMIT then do {
         upd_dev d (\<lambda>x. x\<lparr>dv_header :=
           put_ret_submit h (unpack_usbip_header_ret_submit h (get_ret_submit h p1)) p1\<rparr>);
         found \<leftarrow> device_find_urb d;
         if \<not> found then do {
           x \<leftarrow> gets (\<lambda>s. se_dev s d);
           if rs_status (header_ret h x) = 0 \<and> direction (base (dv_header x)) = USBIP_DIR_IN then drop_read h d w
           else next_header d w
         }
         else do {
           c \<leftarrow> gets (\<lambda>s. dv_cur (se_dev s d));
           (case c of None \<Rightarrow> fault | Some u \<Rightarrow> loop_result k h d w u)
         }
       }
       else WORK_ABORT (pt_init d) w (uv_einval k)
     }
   }"

text \<open>After \<open>n\<close> bytes of data that is dropped.\<close>

definition loop_dropped :: "endian \<Rightarrow> nat \<Rightarrow> nat \<Rightarrow> ('w csession, unit) state" where
  "loop_dropped h d w = do {
     n \<leftarrow> gets (\<lambda>s. length (wk_got (se_work s w)));
     upd_dev d (\<lambda>x. x\<lparr>dv_header :=
       put_ret_submit h ((header_ret h x)\<lparr>rs_actual_length := rs_actual_length (header_ret h x) - of_nat n\<rparr>) (dv_header x)\<rparr>);
     drop_read h d w
   }"

definition loop_data :: "endian \<Rightarrow> nat \<Rightarrow> nat \<Rightarrow> ('w csession, unit) state" where
  "loop_data h d w = do {
     c \<leftarrow> gets (\<lambda>s. dv_cur (se_dev s d));
     bs \<leftarrow> gets (\<lambda>s. wk_got (se_work s w));
     (case c of
        None \<Rightarrow> fault
      | Some u \<Rightarrow> do {
          n \<leftarrow> gets (\<lambda>s. length (ub_data (se_urb s u)));
          (if n < length bs then fault else ret ());
          upd_cu u (\<lambda>y. y\<lparr>ub_data := take (length (ub_data y)) (overwrite 0 bs (ub_data y))\<rparr>);
          set_actual h d u;
          urb_finish h d w u
        })
   }"

definition device_loop :: "'w capi \<Rightarrow> endian \<Rightarrow> nat \<Rightarrow> nat \<Rightarrow> ('w csession, unit) state" where
  "device_loop k h d w = do {
     pc \<leftarrow> gets (\<lambda>s. dv_pc (se_dev s d));
     (case pc of
        Pc_header \<Rightarrow> WORK_YIELDED k (READ_DONE (reader_del d) w) (pt_init d) w (loop_header k h d w)
      | Pc_drop \<Rightarrow> WORK_YIELDED k (READ_DONE (reader_del d) w) (pt_init d) w (loop_dropped h d w)
      | Pc_data \<Rightarrow> WORK_YIELDED k (READ_DONE (reader_del d) w) (pt_init d) w (loop_data h d w)
      | _ \<Rightarrow> WORK_BEGIN k (pt_init d) w (do {
          upd_dev d (\<lambda>x. x\<lparr>dv_socket := Some w\<rparr>);
          WORK_ASYNC k (pt_init d) w (uv_read_start k) (do {
            upd_dev d (\<lambda>x. x\<lparr>dv_reading := True\<rparr>);
            next_header d w
          })
        }))
   }"

section \<open>Connecting\<close>

definition sizeof_import_reply :: nat where "sizeof_import_reply = 312"

definition op_request :: "endian \<Rightarrow> u16 \<Rightarrow> byte list" where
  "op_request h code = mem_op_common h (pack_op_common h True \<lparr>oc_version = 0x111, oc_code = code, oc_status = 0\<rparr>)"

definition open_start :: "'w capi \<Rightarrow> nat \<Rightarrow> nat \<Rightarrow> ('w csession, unit) state" where
  "open_start k d w = do {
     ok \<leftarrow> call_uv (uv_tcp_init k);
     if \<not> ok then do { e \<leftarrow> last_error k; WORK_SET_ERR w e; WORK_EXIT (pt_init d) w }
     else do {
       upd_dev d (\<lambda>x. x\<lparr>dv_socket := Some w, dv_reading := False, dv_state := devs_opening\<rparr>);
       WORK_ASYNC k (pt_init d) w (uv_tcp_connect k) (do { under_way w; goto d Pc_connecting })
     }
   }"

definition open_connected :: "'w capi \<Rightarrow> endian \<Rightarrow> nat \<Rightarrow> nat \<Rightarrow> ('w csession, unit) state" where
  "open_connected k h d w =
     WORK_ASYNC k (pt_init d) w (uv_read_start k) (do {
       upd_dev d (\<lambda>x. x\<lparr>dv_reading := True\<rparr>);
       x \<leftarrow> gets (\<lambda>s. se_dev s d);
       let bs = op_request h OP_REQ_IMPORT @ chars_mem (dv_busid x) in
       WORK_ASYNC k (pt_init d) w (uv_write k bs) (do {
         under_way w;
         upd_dev d (\<lambda>x. x\<lparr>dv_sent := dv_sent x @ bs\<rparr>);
         goto d Pc_writing
       })
     })"

text \<open>\<open>CHECK_OP_REPLY\<close>.\<close>

definition CHECK_OP_REPLY ::
  "'w capi \<Rightarrow> ('w csession, unit) state \<Rightarrow> nat \<Rightarrow> op_common \<Rightarrow> u16 \<Rightarrow> ('w csession, unit) state \<Rightarrow> ('w csession, unit) state" where
  "CHECK_OP_REPLY k init w c code rest =
     (if oc_version c \<noteq> 0x111 then WORK_ABORT init w (uv_einval k)
      else if oc_code c \<noteq> code then WORK_ABORT init w (uv_einval k)
      else rest)"

definition open_replied :: "'w capi \<Rightarrow> endian \<Rightarrow> nat \<Rightarrow> nat \<Rightarrow> ('w csession, unit) state" where
  "open_replied k h d w = do {
     bs \<leftarrow> gets (\<lambda>s. wk_got (se_work s w));
     let c = pack_op_common h False (ld_op_common h bs) in
     CHECK_OP_REPLY k (pt_init d) w c OP_REP_IMPORT (
       if oc_status c \<noteq> ST_OK then do {
         upd_dev d (\<lambda>x. x\<lparr>dv_retry := dv_retry x + 1\<rparr>);
         x \<leftarrow> gets (\<lambda>s. se_dev s d);
         if dv_max_retry x < dv_retry x then WORK_ABORT (pt_init d) w (uv_ebusy k)
         else do {
           (if dv_state x \<noteq> devs_opening then fault else ret ());
           upd_dev d (\<lambda>x. x\<lparr>dv_state := devs_closing, dv_reading := False, dv_close := Some Restart_close\<rparr>);
           goto d Pc_closing
         }
       }
       else yield_read d w sizeof_import_reply Pc_import)
   }"

definition open_closed :: "nat \<Rightarrow> ('w csession, unit) state" where
  "open_closed d = do {
     upd_dev d (\<lambda>x. x\<lparr>dv_state := devs_restarting, dv_timer := True, dv_armed := True\<rparr>);
     pt_init d
   }"

text \<open>The device was imported: the work ends, and another one receives on the connection.\<close>

definition open_imported :: "'w capi \<Rightarrow> endian \<Rightarrow> nat \<Rightarrow> nat \<Rightarrow> ('w csession, unit) state" where
  "open_imported k h d w = do {
     bs \<leftarrow> gets (\<lambda>s. wk_got (se_work s w));
     x \<leftarrow> gets (\<lambda>s. se_dev s d);
     let udev = usbip_net_pack_usb_device h False (ld_usb_device h bs) in
     if \<not> strncmp_eq (uu_busid udev) (dv_busid x) 32 then WORK_ABORT (pt_init d) w (uv_einval k)
     else do {
       upd_dev d (\<lambda>x. x\<lparr>dv_socket := None, dv_reading := False\<rparr>);
       device_ref d;
       work_new (Device_loop d) (- 1) False;
       upd_work w (\<lambda>x. x\<lparr>wk_ret := 0\<rparr>);
       upd_dev d (\<lambda>x. x\<lparr>dv_returned := True\<rparr>);
       device_ref d;
       WORK_EXIT (pt_init d) w
     }
   }"

definition device_open_cb :: "'w capi \<Rightarrow> endian \<Rightarrow> nat \<Rightarrow> nat \<Rightarrow> ('w csession, unit) state" where
  "device_open_cb k h d w = do {
     pc \<leftarrow> gets (\<lambda>s. dv_pc (se_dev s d));
     (case pc of
        Pc_connecting \<Rightarrow> WORK_YIELDED k (READ_DONE (reader_del d) w) (pt_init d) w (open_connected k h d w)
      | Pc_writing \<Rightarrow> WORK_YIELDED k (READ_DONE (reader_del d) w) (pt_init d) w
          (yield_read d w sizeof_op_common Pc_op_header)
      | Pc_op_header \<Rightarrow> WORK_YIELDED k (READ_DONE (reader_del d) w) (pt_init d) w (open_replied k h d w)
      | Pc_closing \<Rightarrow> WORK_YIELDED k (READ_DONE (reader_del d) w) (pt_init d) w (open_closed d)
      | Pc_import \<Rightarrow> WORK_YIELDED k (READ_DONE (reader_del d) w) (pt_init d) w (open_imported k h d w)
      | _ \<Rightarrow> WORK_BEGIN k (pt_init d) w (open_start k d w))
   }"

definition device_close_cb :: "nat \<Rightarrow> nat \<Rightarrow> ('w csession, unit) state" where
  "device_close_cb d w = do { DEVICE_CLOSE d; work_done w; device_unref d }"

section \<open>Sending\<close>

definition urb_begin :: "'w capi \<Rightarrow> endian \<Rightarrow> nat \<Rightarrow> nat \<Rightarrow> ('w csession, unit) state" where
  "urb_begin k h u w = do {
     d \<leftarrow> gets (\<lambda>s. ub_dev (se_urb s u));
     q \<leftarrow> gets (\<lambda>s. dv_seqnum (se_dev s d));
     di \<leftarrow> gets (\<lambda>s. dv_devid (se_dev s d));
     upd_dev d (\<lambda>x. x\<lparr>dv_seqnum := q + 1\<rparr>);
     upd_cu u (\<lambda>y. y\<lparr>ub_work := Some w, ub_header := (ub_header y)\<lparr>base := (base (ub_header y))\<lparr>seqnum := q, devid := di\<rparr>\<rparr>,
       ub_direction := direction (base (ub_header y)), ub_seqnum := q\<rparr>);
     y \<leftarrow> gets (\<lambda>s. se_urb s u);
     if command (base (ub_header y)) = USBIP_CMD_SUBMIT then do {
       let c = (get_cmd_submit h (ub_header y))\<lparr>cs_transfer_buffer_length := of_nat (length (ub_data y))\<rparr>;
           p = put_cmd_submit h (pack_usbip_header_cmd_submit h c) (ub_header y);
           p1 = p\<lparr>base := pack_usbip_header_basic h (base p)\<rparr>;
           bs = mem_header h p1 @ (if ub_data y \<noteq> [] \<and> ub_direction y = USBIP_DIR_OUT then ub_data y else [])
       in do {
         upd_cu u (\<lambda>y. y\<lparr>ub_header := p1\<rparr>);
         WORK_ASYNC k (upd_cu u (\<lambda>y. y\<lparr>ub_begun := False\<rparr>)) w (uv_write k bs) (do {
           under_way w;
           upd_dev d (\<lambda>x. x\<lparr>dv_sent := dv_sent x @ bs\<rparr>);
           upd_cu u (\<lambda>y. y\<lparr>ub_begun := True\<rparr>)
         })
       }
     }
     else WORK_ABORT (upd_cu u (\<lambda>y. y\<lparr>ub_begun := False\<rparr>)) w (uv_einval k)
   }"

text \<open>After the request was written it waits in the list of the device.\<close>

definition device_urb_transfer :: "'w capi \<Rightarrow> endian \<Rightarrow> nat \<Rightarrow> nat \<Rightarrow> ('w csession, unit) state" where
  "device_urb_transfer k h u w = do {
     b \<leftarrow> gets (\<lambda>s. ub_begun (se_urb s u));
     d \<leftarrow> gets (\<lambda>s. ub_dev (se_urb s u));
     if b then WORK_YIELDED k (READ_DONE (reader_del d) w) (upd_cu u (\<lambda>y. y\<lparr>ub_begun := False\<rparr>)) w
       (upd_dev d (\<lambda>x. x\<lparr>dv_urb_list := dv_urb_list x @ [u]\<rparr>))
     else WORK_BEGIN k (upd_cu u (\<lambda>y. y\<lparr>ub_begun := False\<rparr>)) w (urb_begin k h u w)
   }"

end
