(* ===== verification/ClientSession.thy ===== *)
theory ClientSession
  imports ClientDevice
begin

text \<open>
  The rest of the client library (\<^verbatim>\<open>userspace/client/client.c\<close>): the list of the devices of a host, the
  queue of works, the callbacks of libuv, the calls of a user, and all of them as a step relation.
\<close>

section \<open>The list of devices\<close>

definition ipt_init :: "nat \<Rightarrow> ('w csession, unit) state" where
  "ipt_init q = upd_req q (\<lambda>x. x\<lparr>iq_pc := Ip_start\<rparr>)"

definition info_yield :: "nat \<Rightarrow> nat \<Rightarrow> nat \<Rightarrow> info_pc \<Rightarrow> ('w csession, unit) state" where
  "info_yield q w n pc = do {
     READ_PREPARE (req_reader_put q) w n;
     upd_req q (\<lambda>x. x\<lparr>iq_pc := pc\<rparr>)
   }"

definition info_start :: "'w capi \<Rightarrow> nat \<Rightarrow> nat \<Rightarrow> ('w csession, unit) state" where
  "info_start k q w = do {
     ok \<leftarrow> call_uv (uv_tcp_init k);
     if \<not> ok then do {
       r \<leftarrow> gets (\<lambda>s. wk_ret (se_work s w));
       WORK_SET_ERR w r;
       WORK_EXIT (ipt_init q) w
     }
     else do {
       upd_req q (\<lambda>x. x\<lparr>iq_active := True, iq_socket := Some w\<rparr>);
       WORK_ASYNC k (ipt_init q) w (uv_tcp_connect k) (do {
         under_way w;
         upd_req q (\<lambda>x. x\<lparr>iq_pc := Ip_connecting\<rparr>)
       })
     }
   }"

definition info_connected :: "'w capi \<Rightarrow> endian \<Rightarrow> nat \<Rightarrow> nat \<Rightarrow> ('w csession, unit) state" where
  "info_connected k h q w =
     (let bs = op_request h OP_REQ_DEVLIST in
      WORK_ASYNC k (ipt_init q) w (uv_write k bs) (do {
        under_way w;
        upd_req q (\<lambda>x. x\<lparr>iq_sent := iq_sent x @ bs, iq_pc := Ip_writing\<rparr>)
      }))"

text \<open>The result of \<open>uv_read_start\<close> is stored but not looked at.\<close>

definition info_written :: "'w capi \<Rightarrow> nat \<Rightarrow> nat \<Rightarrow> ('w csession, unit) state" where
  "info_written k q w = do {
     READ_PREPARE (req_reader_put q) w sizeof_op_common;
     call_uv (uv_read_start k);
     upd_req q (\<lambda>x. x\<lparr>iq_pc := Ip_header\<rparr>)
   }"

definition info_header :: "'w capi \<Rightarrow> endian \<Rightarrow> nat \<Rightarrow> nat \<Rightarrow> ('w csession, unit) state" where
  "info_header k h q w = do {
     bs \<leftarrow> gets (\<lambda>s. wk_got (se_work s w));
     let c = pack_op_common h False (ld_op_common h bs) in
     CHECK_OP_REPLY k (ipt_init q) w c OP_REP_DEVLIST (
       if oc_status c \<noteq> ST_OK then WORK_ABORT (ipt_init q) w (uv_einval k)
       else info_yield q w 4 Ip_reply)
   }"

text \<open>The next device, or the end of the list.\<close>

definition info_next :: "nat \<Rightarrow> nat \<Rightarrow> ('w csession, unit) state" where
  "info_next q w = do {
     x \<leftarrow> gets (\<lambda>s. se_req s q);
     if (of_nat (length (iq_infos x)) :: u32) < iq_ndev x then info_yield q w sizeof_usb_device Ip_udev
     else do { device_info_req_close q; work_done w }
   }"

definition info_reply :: "endian \<Rightarrow> nat \<Rightarrow> nat \<Rightarrow> ('w csession, unit) state" where
  "info_reply h q w = do {
     bs \<leftarrow> gets (\<lambda>s. wk_got (se_work s w));
     upd_req q (\<lambda>x. x\<lparr>iq_ndev := be32_to_cpu h (ld32 h bs), iq_infos := []\<rparr>);
     info_next q w
   }"

text \<open>The next interface of a device, or the next device.\<close>

definition info_intfs :: "nat \<Rightarrow> nat \<Rightarrow> ('w csession, unit) state" where
  "info_intfs q w = do {
     x \<leftarrow> gets (\<lambda>s. se_req s q);
     if length (iq_intfs x) < unat (uu_bNumInterfaces (iq_udev x)) then info_yield q w sizeof_usb_interface Ip_intf
     else do {
       upd_req q (\<lambda>x. x\<lparr>iq_infos := iq_infos x @ [\<lparr>di_udev = iq_udev x, di_interfaces = iq_intfs x\<rparr>]\<rparr>);
       info_next q w
     }
   }"

definition info_udev :: "endian \<Rightarrow> nat \<Rightarrow> nat \<Rightarrow> ('w csession, unit) state" where
  "info_udev h q w = do {
     bs \<leftarrow> gets (\<lambda>s. wk_got (se_work s w));
     upd_req q (\<lambda>x. x\<lparr>iq_udev := usbip_net_pack_usb_device h False (ld_usb_device h bs), iq_intfs := []\<rparr>);
     info_intfs q w
   }"

definition info_intf :: "nat \<Rightarrow> nat \<Rightarrow> ('w csession, unit) state" where
  "info_intf q w = do {
     bs \<leftarrow> gets (\<lambda>s. wk_got (se_work s w));
     upd_req q (\<lambda>x. x\<lparr>iq_intfs := iq_intfs x @ [ld_usb_interface bs]\<rparr>);
     info_intfs q w
   }"

definition device_info_req_cb :: "'w capi \<Rightarrow> endian \<Rightarrow> nat \<Rightarrow> nat \<Rightarrow> ('w csession, unit) state" where
  "device_info_req_cb k h q w = do {
     pc \<leftarrow> gets (\<lambda>s. iq_pc (se_req s q));
     let go = WORK_YIELDED k (READ_DONE (req_reader_del q) w) (ipt_init q) w in
     (case pc of
        Ip_start \<Rightarrow> WORK_BEGIN k (ipt_init q) w (info_start k q w)
      | Ip_connecting \<Rightarrow> go (info_connected k h q w)
      | Ip_writing \<Rightarrow> go (info_written k q w)
      | Ip_header \<Rightarrow> go (info_header k h q w)
      | Ip_reply \<Rightarrow> go (info_reply h q w)
      | Ip_udev \<Rightarrow> go (info_udev h q w)
      | Ip_intf \<Rightarrow> go (info_intf q w))
   }"

section \<open>The loop\<close>

text \<open>\<open>work->cb(work,wa_process)\<close>.\<close>

definition cb_process :: "'w capi \<Rightarrow> endian \<Rightarrow> nat \<Rightarrow> ('w csession, unit) state" where
  "cb_process k h w = do {
     c \<leftarrow> gets (\<lambda>s. wk_cb (se_work s w));
     (case c of
        Work_abort t \<Rightarrow> work_abort_cb k w t
      | Work_unref t \<Rightarrow> work_unref_cb w t
      | Session_start \<Rightarrow> session_start_cb
      | Device_loop d \<Rightarrow> device_loop k h d w
      | Device_open d \<Rightarrow> device_open_cb k h d w
      | Device_close d \<Rightarrow> device_close_cb d w
      | Urb_transfer u \<Rightarrow> device_urb_transfer k h u w
      | Info_req q \<Rightarrow> device_info_req_cb k h q w)
   }"

text \<open>\<open>session_notify\<close>, for one work of the queue.\<close>

definition session_notify :: "'w capi \<Rightarrow> endian \<Rightarrow> ('w csession, unit) state" where
  "session_notify k h = do {
     q \<leftarrow> gets se_queue;
     (case q of
        [] \<Rightarrow> ret ()
      | w # ws \<Rightarrow> do {
          modify (\<lambda>s. s\<lparr>se_queue := ws\<rparr>);
          x \<leftarrow> gets (\<lambda>s. se_work s w);
          (if wk_state x = ws_pending
           then upd_work w (\<lambda>x. x\<lparr>wk_state := ws_busy, wk_timer := wk_timeout x > 0, wk_armed := wk_timeout x > 0\<rparr>)
           else ret ());
          cb_process k h w
        })
   }"

section \<open>Callbacks\<close>

definition timedout_cb :: "'w capi \<Rightarrow> nat \<Rightarrow> ('w csession, unit) state" where
  "timedout_cb k w = do {
     upd_work w (\<lambda>x. x\<lparr>wk_armed := False\<rparr>);
     WORK_SET_ERR w (uv_etimedout k);
     cb_abort w
   }"

text \<open>\<open>write_cb\<close> and \<open>connect_cb\<close>.\<close>

definition status_cb :: "'w capi \<Rightarrow> endian \<Rightarrow> nat \<Rightarrow> int \<Rightarrow> ('w csession, unit) state" where
  "status_cb k h w status = do {
     upd_work w (\<lambda>x. x\<lparr>wk_status := status, wk_pending := False\<rparr>);
     cb_process k h w
   }"

definition read_room :: "'w csession \<Rightarrow> nat \<Rightarrow> nat" where
  "read_room s w = wk_len (se_work s w) - length (wk_got (se_work s w))"

text \<open>\<open>read_cb\<close> after bytes were stored where \<open>alloc_cb\<close> said, and with an error. For a buffer of length 0 the
  documentation of libuv promises the error \<open>UV_ENOBUFS\<close>, which is \<open>read_error_cb\<close>; no byte and no room is allowed
  here as well, and invariants hold for both.\<close>

definition read_cb :: "'w capi \<Rightarrow> endian \<Rightarrow> nat \<Rightarrow> byte list \<Rightarrow> ('w csession, unit) state" where
  "read_cb k h w bs = do {
     room \<leftarrow> gets (\<lambda>s. read_room s w);
     upd_work w (\<lambda>x. x\<lparr>wk_status := wk_status x + int (length bs), wk_got := wk_got x @ bs\<rparr>);
     if length bs < room then ret () else cb_process k h w
   }"

definition read_error_cb :: "'w capi \<Rightarrow> endian \<Rightarrow> nat \<Rightarrow> int \<Rightarrow> ('w csession, unit) state" where
  "read_error_cb k h w e = do {
     upd_work w (\<lambda>x. x\<lparr>wk_status := e\<rparr>);
     cb_process k h w
   }"

primrec cancel_urbs :: "'w capi \<Rightarrow> nat \<Rightarrow> nat list \<Rightarrow> ('w csession, unit) state" where
  "cancel_urbs k d [] = ret ()"
| "cancel_urbs k d (u # us) = do {
     upd_dev d (\<lambda>x. x\<lparr>dv_urb_list := remove1 u (dv_urb_list x)\<rparr>);
     wo \<leftarrow> gets (\<lambda>s. ub_work (se_urb s u));
     (case wo of None \<Rightarrow> fault | Some w \<Rightarrow> do { WORK_SET_ERR w (uv_ecanceled k); work_done w });
     cancel_urbs k d us
   }"

primrec cancel_readers :: "'w capi \<Rightarrow> endian \<Rightarrow> nat list \<Rightarrow> ('w csession, unit) state" where
  "cancel_readers k h [] = ret ()"
| "cancel_readers k h (w # ws) = do {
     r \<leftarrow> gets (\<lambda>s. wk_reading (se_work s w));
     (if \<not> r then fault else ret ());
     WORK_SET_ERR w (uv_ecanceled k);
     upd_work w (\<lambda>x. x\<lparr>wk_status := - 1\<rparr>);
     cb_process k h w;
     cancel_readers k h ws
   }"

definition socket_close_cb :: "'w capi \<Rightarrow> endian \<Rightarrow> nat \<Rightarrow> ('w csession, unit) state" where
  "socket_close_cb k h d = do {
     upd_dev d (\<lambda>x. x\<lparr>dv_state := devs_closed\<rparr>);
     us \<leftarrow> gets (\<lambda>s. dv_urb_list (se_dev s d));
     cancel_urbs k d us;
     ws \<leftarrow> gets (\<lambda>s. dv_read_list (se_dev s d));
     cancel_readers k h ws;
     device_unref d
   }"

definition closed_cb :: "'w capi \<Rightarrow> endian \<Rightarrow> nat \<Rightarrow> ('w csession, unit) state" where
  "closed_cb k h d = do {
     x \<leftarrow> gets (\<lambda>s. se_dev s d);
     upd_dev d (\<lambda>x. x\<lparr>dv_close := None\<rparr>);
     (case dv_close x of
        None \<Rightarrow> ret ()
      | Some Socket_close \<Rightarrow> socket_close_cb k h d
      | Some Restart_close \<Rightarrow> (case dv_socket x of None \<Rightarrow> fault | Some w \<Rightarrow> cb_process k h w))
   }"

definition device_info_req_close_cb :: "'w capi \<Rightarrow> endian \<Rightarrow> nat \<Rightarrow> ('w csession, unit) state" where
  "device_info_req_close_cb k h q = do {
     upd_req q (\<lambda>x. x\<lparr>iq_close := False\<rparr>);
     ws \<leftarrow> gets (\<lambda>s. iq_read_list (se_req s q));
     cancel_readers k h ws;
     req_unref q
   }"

text \<open>The timer of a retry, and its end.\<close>

definition timer_cb :: "'w capi \<Rightarrow> endian \<Rightarrow> nat \<Rightarrow> ('w csession, unit) state" where
  "timer_cb k h d = do {
     x \<leftarrow> gets (\<lambda>s. se_dev s d);
     upd_dev d (\<lambda>x. x\<lparr>dv_armed := False\<rparr>);
     (case dv_socket x of None \<Rightarrow> fault | Some w \<Rightarrow> cb_process k h w)
   }"

definition device_timer_close_cb :: "nat \<Rightarrow> ('w csession, unit) state" where
  "device_timer_close_cb d = do {
     upd_dev d (\<lambda>x. x\<lparr>dv_timer_close := False\<rparr>);
     device_unref d
   }"

section \<open>Calls of a user\<close>

definition new_device :: "string \<Rightarrow> u32 \<Rightarrow> u32 \<Rightarrow> int \<Rightarrow> cdevice" where
  "new_device busid bn dn retry =
     \<lparr>dv_devid = push_bit 16 bn OR dn, dv_seqnum = 0, dv_busid = strncpy (take 31 (cstr busid)) 32,
      dv_pc = Pc_start, dv_ref = 1, dv_state = devs_closed, dv_max_retry = retry, dv_retry = 0, dv_timer = False,
      dv_armed = False, dv_timer_close = False, dv_socket = None, dv_reading = False, dv_close = None,
      dv_header = zero_header, dv_cur = None, dv_urb_list = [], dv_read_list = [], dv_returned = False,
      dv_sent = [], dv_freed = False\<rparr>"

definition libusbip_device_open :: "string \<Rightarrow> u32 \<Rightarrow> u32 \<Rightarrow> int \<Rightarrow> int \<Rightarrow> bool \<Rightarrow> ('w csession, nat) state" where
  "libusbip_device_open busid bn dn retry timeout job = do {
     d \<leftarrow> gets se_next_dev;
     modify (\<lambda>s. s\<lparr>se_dev := (se_dev s)(d := new_device busid bn dn retry), se_next_dev := Suc d\<rparr>);
     work_new (Device_open d) timeout job
   }"

definition libusbip_device_close :: "nat \<Rightarrow> ('w csession, nat) state" where
  "libusbip_device_close d = work_new (Device_close d) 0 False"

definition new_curb :: "nat \<Rightarrow> usbip_header \<Rightarrow> byte list \<Rightarrow> curb" where
  "new_curb d p bs = \<lparr>ub_dev = d, ub_work = None, ub_begun = False, ub_header = p, ub_direction = 0, ub_seqnum = 0,
     ub_data = bs, ub_ret = - 1, ub_freed = False\<rparr>"

definition submit_urb :: "nat \<Rightarrow> usbip_header \<Rightarrow> byte list \<Rightarrow> int \<Rightarrow> bool \<Rightarrow> ('w csession, nat) state" where
  "submit_urb d p bs timeout job = do {
     u \<leftarrow> gets se_next_urb;
     modify (\<lambda>s. s\<lparr>se_urb := (se_urb s)(u := new_curb d p bs), se_next_urb := Suc u\<rparr>);
     device_ref d;
     work_new (Urb_transfer u) timeout job
   }"

text \<open>The setup packet travels with its numbers in little-endian order.\<close>

definition setup_packet_bytes :: "u8 \<Rightarrow> u8 \<Rightarrow> u16 \<Rightarrow> u16 \<Rightarrow> u16 \<Rightarrow> byte list" where
  "setup_packet_bytes ty rq v i n = [ty, rq] @ bytes_le16 v @ bytes_le16 i @ bytes_le16 n"

definition control_header :: "endian \<Rightarrow> u32 \<Rightarrow> u32 \<Rightarrow> u32 \<Rightarrow> u32 \<Rightarrow> u32 \<Rightarrow> usbip_header" where
  "control_header h requesttype request v i n =
     (let p = zero_header\<lparr>base := zero_basic\<lparr>command := USBIP_CMD_SUBMIT,
            direction := (if requesttype AND 0x80 \<noteq> 0 then USBIP_DIR_IN else USBIP_DIR_OUT), ep := 0\<rparr>\<rparr>
      in put_cmd_submit h ((get_cmd_submit h p)\<lparr>cs_setup :=
           setup_packet_bytes (ucast requesttype) (ucast request) (ucast v) (ucast i) (ucast n)\<rparr>) p)"

definition libusbip_control_msg ::
  "endian \<Rightarrow> nat \<Rightarrow> u32 \<Rightarrow> u32 \<Rightarrow> u32 \<Rightarrow> u32 \<Rightarrow> byte list \<Rightarrow> int \<Rightarrow> bool \<Rightarrow> ('w csession, nat) state" where
  "libusbip_control_msg h d requesttype request v i bs timeout job =
     submit_urb d (control_header h requesttype request v i (of_nat (length bs))) bs timeout job"

text \<open>The endpoint number is sent with its direction bit.\<close>

definition transfer_header :: "u32 \<Rightarrow> usbip_header" where
  "transfer_header e = zero_header\<lparr>base := zero_basic\<lparr>command := USBIP_CMD_SUBMIT,
     direction := (if e AND 0x80 \<noteq> 0 then USBIP_DIR_IN else USBIP_DIR_OUT), ep := e AND 0xff\<rparr>\<rparr>"

definition libusbip_urb_transfer :: "nat \<Rightarrow> u32 \<Rightarrow> byte list \<Rightarrow> int \<Rightarrow> bool \<Rightarrow> ('w csession, nat) state" where
  "libusbip_urb_transfer d e bs timeout job = submit_urb d (transfer_header e) bs timeout job"

definition new_req :: info_req where
  "new_req = \<lparr>iq_pc = Ip_start, iq_ref = 1, iq_active = False, iq_close = False, iq_socket = None, iq_ndev = 0,
     iq_udev = \<lparr>uu_path = [], uu_busid = [], uu_busnum = 0, uu_devnum = 0, uu_speed = 0, uu_idVendor = 0,
       uu_idProduct = 0, uu_bcdDevice = 0, uu_bDeviceClass = 0, uu_bDeviceSubClass = 0, uu_bDeviceProtocol = 0,
       uu_bConfigurationValue = 0, uu_bNumConfigurations = 0, uu_bNumInterfaces = 0\<rparr>,
     iq_intfs = [], iq_infos = [], iq_read_list = [], iq_sent = [], iq_freed = False\<rparr>"

definition libusbip_get_devices_info :: "int \<Rightarrow> bool \<Rightarrow> ('w csession, nat) state" where
  "libusbip_get_devices_info timeout job = do {
     q \<leftarrow> gets se_next_req;
     modify (\<lambda>s. s\<lparr>se_req := (se_req s)(q := new_req), se_next_req := Suc q\<rparr>);
     work_new (Info_req q) timeout job
   }"

section \<open>The events of a session\<close>

inductive client_step :: "'w capi \<Rightarrow> endian \<Rightarrow> 'w csession \<Rightarrow> 'w csession \<Rightarrow> bool" for k h where
  notify: "client_step k h s (snd (run_state (session_notify k h) s))"
| status: "wk_pending (se_work s w) \<Longrightarrow> client_step k h s (snd (run_state (status_cb k h w st) s))"
| readable: "dv_socket (se_dev s d) = Some w \<Longrightarrow> dv_reading (se_dev s d) \<Longrightarrow> length bs \<le> read_room s w \<Longrightarrow>
    client_step k h s (snd (run_state (read_cb k h w bs) s))"
| unreadable: "dv_socket (se_dev s d) = Some w \<Longrightarrow> dv_reading (se_dev s d) \<Longrightarrow> e < 0 \<Longrightarrow>
    client_step k h s (snd (run_state (read_error_cb k h w e) s))"
| timedout: "wk_armed (se_work s w) \<Longrightarrow> client_step k h s (snd (run_state (timedout_cb k w) s))"
| timer_closed: "wk_closing (se_work s w) \<Longrightarrow> client_step k h s (snd (run_state (timer_close_cb w) s))"
| closed: "dv_close (se_dev s d) \<noteq> None \<Longrightarrow> client_step k h s (snd (run_state (closed_cb k h d) s))"
| retry: "dv_armed (se_dev s d) \<Longrightarrow> client_step k h s (snd (run_state (timer_cb k h d) s))"
| retry_closed: "dv_timer_close (se_dev s d) \<Longrightarrow> client_step k h s (snd (run_state (device_timer_close_cb d) s))"
| info_closed: "iq_close (se_req s q) \<Longrightarrow> client_step k h s (snd (run_state (device_info_req_close_cb k h q) s))"
| user: "m \<in> {libusbip_device_open busid bn dn rt to jb, libusbip_device_close d, libusbip_control_msg h d ty rq v i bs to jb,
      libusbip_urb_transfer d e bs to jb, libusbip_get_devices_info to jb, libusbip_work_abort w, libusbip_work_close w} \<Longrightarrow>
    client_step k h s (snd (run_state m s))"

inductive_cases client_stepE: "client_step k h s t"

definition client_steps :: "'w capi \<Rightarrow> endian \<Rightarrow> 'w csession \<Rightarrow> 'w csession \<Rightarrow> bool" where
  "client_steps k h = (client_step k h)^**"

end
