(* ===== verification/ClientProps.thy ===== *)
theory ClientProps
  imports ClientSession
begin

text \<open>
  How a result completes a transfer of the client library, whatever the pieces are in which its
  bytes arrive.
\<close>

section \<open>Running the loop\<close>

lemma run_upd [simp]:
  "run_state (upd_work w f) s = ((), s\<lparr>se_work := (se_work s)(w := f (se_work s w))\<rparr>)"
  "run_state (upd_dev d g) s = ((), s\<lparr>se_dev := (se_dev s)(d := g (se_dev s d))\<rparr>)"
  "run_state (upd_cu u e) s = ((), s\<lparr>se_urb := (se_urb s)(u := e (se_urb s u))\<rparr>)"
  by (simp_all add: client_parts)

definition got_more :: "nat \<Rightarrow> byte list \<Rightarrow> 'w csession \<Rightarrow> 'w csession" where
  "got_more w bs s = s\<lparr>se_work := (se_work s)(w := (se_work s w)\<lparr>wk_status := wk_status (se_work s w) + int (length bs),
     wk_got := wk_got (se_work s w) @ bs\<rparr>)\<rparr>"

lemma got_more_append: "got_more w b (got_more w a s) = got_more w (a @ b) s"
  by (simp add: got_more_def add.assoc)

lemma run_read_cb:
  "run_state (read_cb k h w bs) s =
     (if length bs < read_room s w then ((), got_more w bs s) else run_state (cb_process k h w) (got_more w bs s))"
  by (simp add: read_cb_def got_more_def)

primrec feed :: "'w capi \<Rightarrow> endian \<Rightarrow> nat \<Rightarrow> byte list list \<Rightarrow> ('w csession, unit) state" where
  "feed k h w [] = ret ()"
| "feed k h w (c # cs) = do { read_cb k h w c; feed k h w cs }"

text \<open>The work goes on when its buffer is full, whatever the pieces are.\<close>

lemma feed_fills:
  assumes "cs \<noteq> []" and "last cs \<noteq> []" and "length (concat cs) = read_room s w"
  shows "run_state (feed k h w cs) s = run_state (cb_process k h w) (got_more w (concat cs) s)"
  using assms
proof (induction cs arbitrary: s)
  case (Cons c cs)
  show ?case
  proof (cases "cs = []")
    case True
    then show ?thesis using Cons.prems by (simp add: run_read_cb split: prod.splits)
  next
    case False
    then have l: "last cs \<noteq> []" using Cons.prems by simp
    then have "0 < length (concat cs)" using False last_in_set by fastforce
    then have c: "length c < read_room s w" using Cons.prems(3) by (metis concat.simps(2) length_append less_add_same_cancel1)
    have "length (concat cs) = read_room (got_more w c s) w"
      using Cons.prems c by (simp add: read_room_def got_more_def)
    from Cons.IH [OF False l this] c show ?thesis
      by (simp add: run_read_cb got_more_append)
  qed
qed simp

section \<open>Results\<close>

text \<open>The work \<open>w\<close> waits for the header of the next packet.\<close>

definition expects_header :: "nat \<Rightarrow> nat \<Rightarrow> 'w csession \<Rightarrow> bool" where
  "expects_header d w s \<longleftrightarrow> (let x = se_work s w in
     wk_cb x = Device_loop d \<and> wk_ret x = 0 \<and> wk_status x = 0 \<and> wk_got x = [] \<and> wk_len x = sizeof_header \<and>
     wk_reading x \<and> dv_pc (se_dev s d) = Pc_header \<and> wk_ref x = 1)"

text \<open>The functions that the macros make convert as the ones of the kernel do.\<close>

lemma pack_is_correct_endian:
  "unpack_usbip_header_basic h b = correct_endian_basic h b False"
  "unpack_usbip_header_ret_submit h r = correct_endian_ret_submit h r False"
  "pack_usbip_header_basic h b = correct_endian_basic h b True"
  "pack_usbip_header_cmd_submit h c = correct_endian_cmd_submit h c True"
  by (cases b, simp add: unpack_usbip_header_basic_def pack_usbip_header_basic_def correct_endian_basic_def)
    (cases r, simp add: unpack_usbip_header_ret_submit_def correct_endian_ret_submit_def Let_def,
     simp_all add: pack_usbip_header_basic_def correct_endian_basic_def pack_usbip_header_cmd_submit_def
       correct_endian_cmd_submit_def Let_def)

lemma header_received:
  "put_ret_submit h (unpack_usbip_header_ret_submit h (get_ret_submit h p1)) p1 = recv_header h bs"
  if "p1 = (ld_header h bs)\<lparr>base := unpack_usbip_header_basic h (base (ld_header h bs))\<rparr>" and
     "command (base p1) = USBIP_RET_SUBMIT"
  using that by (simp add: recv_header_def usbip_header_correct_endian_def pack_is_correct_endian command_defs)

lemma reply_parts:
  assumes "wf_header p" and "command (base p) = USBIP_RET_SUBMIT"
  shows "base (recv_header h (send_header g p)) = base p"
    and "get_ret_submit h (recv_header h (send_header g p)) = get_ret_submit g p"
    and "(ld_header h (send_header g p))\<lparr>base := unpack_usbip_header_basic h (base (ld_header h (send_header g p)))\<rparr> =
      \<lparr>base = base p, hu = hu (ld_header h (send_header g p))\<rparr>"
proof -
  have v: "header_view h (recv_header h (send_header g p)) = header_view g p"
    by (rule view_header_roundtrip [OF assms(1)])
  show b: "base (recv_header h (send_header g p)) = base p" using v by (simp add: header_view_def)
  show "get_ret_submit h (recv_header h (send_header g p)) = get_ret_submit g p"
    using v b assms(2) by (simp add: header_view_def command_defs)
  have "unpack_usbip_header_basic h (base (ld_header h (send_header g p))) = base p"
    using correct_endian_basic_recv [of h "base p" "wire_union g p"]
    by (simp add: send_header_def mem_header_send [OF assms(1)] ld_header_def pack_is_correct_endian)
  then show "(ld_header h (send_header g p))\<lparr>base := unpack_usbip_header_basic h (base (ld_header h (send_header g p)))\<rparr> =
      \<lparr>base = base p, hu = hu (ld_header h (send_header g p))\<rparr>" by (cases "ld_header h (send_header g p)") simp
qed

text \<open>The urb \<open>u\<close>, whose work is \<open>uw\<close>, is the first one of the device with the number \<open>q\<close>.\<close>

definition awaited :: "nat \<Rightarrow> nat list \<Rightarrow> nat \<Rightarrow> nat list \<Rightarrow> nat \<Rightarrow> u32 \<Rightarrow> 'w csession \<Rightarrow> bool" where
  "awaited d us u vs uw q s \<longleftrightarrow> dv_urb_list (se_dev s d) = us @ u # vs \<and> (\<forall>x\<in>set us. ub_seqnum (se_urb s x) \<noteq> q) \<and>
     ub_seqnum (se_urb s u) = q \<and> ub_work (se_urb s u) = Some uw"

lemma find_first: "\<forall>x\<in>set us. \<not> P x \<Longrightarrow> P u \<Longrightarrow> find P (us @ u # vs) = Some u"
  by (induction us) auto

lemma find_awaited:
  assumes "awaited d us u vs uw q s"
  shows "find (\<lambda>u. (\<exists>y. ub_work (se_urb s u) = Some y) \<and> ub_seqnum (se_urb s u) = q) (us @ u # vs) = Some u"
  using assms by (intro find_first) (auto simp: awaited_def)

definition found_state :: "endian \<Rightarrow> nat \<Rightarrow> nat \<Rightarrow> nat \<Rightarrow> byte list \<Rightarrow> 'w csession \<Rightarrow> 'w csession" where
  "found_state h d w u bs s = s\<lparr>
     se_work := (se_work s)(w := (se_work s w)\<lparr>wk_status := int (length bs), wk_got := bs, wk_reading := False\<rparr>),
     se_dev := (se_dev s)(d := (se_dev s d)\<lparr>dv_read_list := remove1 w (dv_read_list (se_dev s d)),
       dv_header := recv_header h bs, dv_cur := Some u\<rparr>)\<rparr>"

lemma reply_found:
  assumes e: "expects_header d w s" and p: "wf_header p" "command (base p) = USBIP_RET_SUBMIT"
    and a: "awaited d us u vs uw (seqnum (base p)) s" and bs: "bs = send_header g p"
  shows "run_state (cb_process k h w) (got_more w bs s) = run_state (loop_result k h d w u) (found_state h d w u bs s)"
proof -
  note rp = reply_parts [OF p, of h g, folded bs]
  have b: "unpack_usbip_header_basic h (base (ld_header h bs)) = base p"
    using arg_cong [OF rp(3), of base] by simp
  have l: "dv_urb_list (se_dev s d) = us @ u # vs" using a by (simp add: awaited_def)
  have hr: "put_ret_submit h (unpack_usbip_header_ret_submit h (get_ret_submit h (ld_header h bs)))
      ((ld_header h bs)\<lparr>base := base p\<rparr>) = recv_header h bs"
    using header_received [of "(ld_header h bs)\<lparr>base := base p\<rparr>" h bs] by (simp add: b p get_ret_submit_def)
  have f: "find (\<lambda>u. (\<exists>y. ub_work (se_urb s u) = Some y) \<and> ub_seqnum (se_urb s u) = seqnum (base p)) (us @ u # vs) = Some u"
    by (rule find_awaited [OF a])
  show ?thesis using e l
    by (simp add: expects_header_def Let_def cb_process_def device_loop_def WORK_YIELDED_def READ_DONE_def reader_del_def
        loop_header_def rp(1) b p(2) hr device_find_urb_def f got_more_def found_state_def)
qed

text \<open>The result of a transfer from the device: the rest of the loop reads its data.\<close>

definition data_state :: "nat \<Rightarrow> nat \<Rightarrow> nat \<Rightarrow> nat \<Rightarrow> (curb \<Rightarrow> curb) \<Rightarrow> 'w csession \<Rightarrow> 'w csession" where
  "data_state d w u n f s = s\<lparr>
     se_urb := (se_urb s)(u := f (se_urb s u)),
     se_work := (se_work s)(w := (se_work s w)\<lparr>wk_reading := True, wk_status := 0, wk_got := [], wk_len := n\<rparr>),
     se_dev := (se_dev s)(d := (se_dev s d)\<lparr>dv_urb_list := remove1 u (dv_urb_list (se_dev s d)),
       dv_read_list := w # dv_read_list (se_dev s d), dv_pc := Pc_data\<rparr>)\<rparr>"

lemma result_read:
  assumes "get_ret_submit h (dv_header (se_dev s d)) = r" and "rs_status r = 0" and "ub_direction (se_urb s u) = USBIP_DIR_IN"
    and "\<not> wk_reading (se_work s w)"
  shows "run_state (loop_result k h d w u) s =
    ((), data_state d w u (unat (rs_actual_length r)) (\<lambda>y. y\<lparr>ub_header := put_ret_submit h r (ub_header y)\<rparr>) s)"
  using assms
  by (simp add: loop_result_def header_ret_def yield_read_def READ_PREPARE_def reader_put_def goto_def data_state_def)

lemma data_arrived:
  assumes "wk_cb (se_work s w) = Device_loop d" and "dv_pc (se_dev s d) = Pc_data" and "wk_ret (se_work s w) = 0"
    and "dv_cur (se_dev s d) = Some u" and "wk_status (se_work s w) = 0" and "wk_got (se_work s w) = []"
    and "length bs \<le> length (ub_data (se_urb s u))" and "wk_reading (se_work s w)"
  shows "run_state (cb_process k h w) (got_more w bs s) = run_state (urb_finish h d w u) (s\<lparr>
     se_work := (se_work s)(w := (se_work s w)\<lparr>wk_status := int (length bs), wk_got := bs, wk_reading := False\<rparr>),
     se_dev := (se_dev s)(d := (se_dev s d)\<lparr>dv_read_list := remove1 w (dv_read_list (se_dev s d))\<rparr>),
     se_urb := (se_urb s)(u := (se_urb s u)\<lparr>ub_data := overwrite 0 bs (ub_data (se_urb s u)),
       ub_ret := rs_actual_length (get_ret_submit h (dv_header (se_dev s d)))\<rparr>)\<rparr>)"
  using assms
  by (simp add: cb_process_def device_loop_def WORK_YIELDED_def READ_DONE_def reader_del_def
      loop_data_def got_more_def set_actual_def header_ret_def)

lemma finish_waiting:
  assumes "ub_work (se_urb s u) = Some uw" and "1 < wk_ref (se_work s uw)" and "uw \<noteq> w"
  shows "run_state (urb_finish h d w u) s = run_state (next_header d w) (s\<lparr>
     se_work := (se_work s)(uw := (se_work s uw)\<lparr>wk_armed := False, wk_state := ws_done,
       wk_finished := Suc (wk_finished (se_work s uw)), wk_ref := wk_ref (se_work s uw) - 1\<rparr>),
     se_dev := (se_dev s)(d := (se_dev s d)\<lparr>dv_cur := None\<rparr>)\<rparr>)"
  using assms by (simp add: urb_finish_def work_done_def work_unref_def)

lemma transfer_finished:
  assumes "wk_cb (se_work s w) = Device_loop d" and "dv_pc (se_dev s d) = Pc_data" and "wk_ret (se_work s w) = 0"
    and "dv_cur (se_dev s d) = Some u" and "wk_status (se_work s w) = 0" and "wk_got (se_work s w) = []"
    and "length bs \<le> length (ub_data (se_urb s u))" and "wk_reading (se_work s w)"
    and "ub_work (se_urb s u) = Some uw" and "1 < wk_ref (se_work s uw)" and "uw \<noteq> w" and "wk_ref (se_work s w) = 1"
    and "dv_read_list (se_dev s d) = w # rs" and t: "t = snd (run_state (cb_process k h w) (got_more w bs s))"
  shows "ub_data (se_urb t u) = bs @ drop (length bs) (ub_data (se_urb s u))"
    and "ub_ret (se_urb t u) = rs_actual_length (get_ret_submit h (dv_header (se_dev s d)))"
    and "wk_state (se_work t uw) = ws_done" and "wk_finished (se_work t uw) = Suc (wk_finished (se_work s uw))"
    and "wk_ret (se_work t uw) = wk_ret (se_work s uw)" and "dv_urb_list (se_dev t d) = dv_urb_list (se_dev s d)"
    and "expects_header d w t" and "dv_read_list (se_dev t d) = w # rs" and "se_fault t = se_fault s"
  unfolding t data_arrived [OF assms(1-8)]
  by (subst finish_waiting [where uw = uw];
      simp add: assms assms(11) [symmetric] next_header_def yield_read_def READ_PREPARE_def reader_put_def goto_def overwrite_def
        expects_header_def)+

section \<open>A transfer completed\<close>

text \<open>A transfer from the device that waits for its result is completed when the result has arrived,
  in whatever pieces: the buffer of the caller holds the data, the length is stored, its work is done without
  an error, and the loop waits for the next header.\<close>

lemma result_completes:
  assumes "expects_header d w s" and "dv_read_list (se_dev s d) = w # rs"
    and "wf_header p" and "command (base p) = USBIP_RET_SUBMIT" and "rs_status (get_ret_submit g p) = 0"
    and "rs_actual_length (get_ret_submit g p) = of_nat (length bs)" and "length bs < 2 ^ 31"
    and "awaited d us u vs uw (seqnum (base p)) s" and "u \<notin> set us" and "ub_direction (se_urb s u) = USBIP_DIR_IN"
    and "length bs \<le> length (ub_data (se_urb s u))" and "uw \<noteq> w" and "1 < wk_ref (se_work s uw)"
    and "hs \<noteq> []" and "last hs \<noteq> []" and "concat hs = send_header g p"
    and "ds \<noteq> []" and "last ds \<noteq> []" and "concat ds = bs"
    and "t = snd (run_state (feed k h w ds) (snd (run_state (feed k h w hs) s)))"
  shows "ub_data (se_urb t u) = bs @ drop (length bs) (ub_data (se_urb s u)) \<and> ub_ret (se_urb t u) = of_nat (length bs) \<and>
    wk_state (se_work t uw) = ws_done \<and> wk_finished (se_work t uw) = Suc (wk_finished (se_work s uw)) \<and>
    wk_ret (se_work t uw) = wk_ret (se_work s uw) \<and> dv_urb_list (se_dev t d) = us @ vs \<and>
    expects_header d w t \<and> dv_read_list (se_dev t d) = w # rs \<and> se_fault t = se_fault s"
proof -
  define s1 where "s1 = found_state h d w u (concat hs) s"
  define s2 where "s2 = data_state d w u (length bs) (\<lambda>y. y\<lparr>ub_header := put_ret_submit h (get_ret_submit g p) (ub_header y)\<rparr>) s1"
  note rp = reply_parts [OF assms(3,4), of h g, folded assms(16)]
  note facts = assms(1,2) [unfolded expects_header_def Let_def] assms(5-13) [unfolded awaited_def]
  have l: "length (concat hs) = read_room s w"
    using assms(1) by (simp add: assms(16) length_send_header [OF assms(3)] expects_header_def read_room_def Let_def)
  have n: "unat (rs_actual_length (get_ret_submit g p)) = length bs"
    using assms(6,7) by (simp add: unat_of_nat)
  have one: "run_state (feed k h w hs) s = ((), s2)"
  proof -
    have "run_state (feed k h w hs) s = run_state (loop_result k h d w u) s1"
      unfolding s1_def feed_fills [OF assms(14,15) l] by (rule reply_found [OF assms(1,3,4,8) assms(16)])
    also have "\<dots> = ((), s2)"
      unfolding s2_def n [symmetric] using facts
      by (intro result_read) (simp_all add: s1_def found_state_def rp)
    finally show ?thesis .
  qed
  have room: "length (concat ds) = read_room s2 w" by (simp add: assms(19) s2_def data_state_def read_room_def)
  have "run_state (feed k h w ds) s2 = run_state (cb_process k h w) (got_more w bs s2)"
    unfolding feed_fills [OF assms(17,18) room] assms(19) ..
  then have t: "t = snd (run_state (cb_process k h w) (got_more w bs s2))" by (simp add: assms(20) one)
  have f: "wk_cb (se_work s2 w) = Device_loop d" "dv_pc (se_dev s2 d) = Pc_data" "wk_ret (se_work s2 w) = 0"
    "dv_cur (se_dev s2 d) = Some u" "wk_status (se_work s2 w) = 0" "wk_got (se_work s2 w) = []"
    "length bs \<le> length (ub_data (se_urb s2 u))" "wk_reading (se_work s2 w)" "ub_work (se_urb s2 u) = Some uw"
    "1 < wk_ref (se_work s2 uw)" "uw \<noteq> w" "wk_ref (se_work s2 w) = 1" "dv_read_list (se_dev s2 d) = w # rs"
    using facts by (simp_all add: s2_def s1_def data_state_def found_state_def)
  show ?thesis
    using transfer_finished [OF f t] facts
    by (simp add: s2_def s1_def data_state_def found_state_def rp remove1_append)
qed

end
