(* ===== verification/ClientSend.thy ===== *)
theory ClientSend
  imports ClientProps
begin

text \<open>
  Properties of the client library: what a transfer sends, and two ways in which its end is lost.
\<close>

section \<open>The header of a request\<close>

lemma overwrite_twice: "length a = length b \<Longrightarrow> length b \<le> length x \<Longrightarrow> overwrite 0 a (overwrite 0 b x) = overwrite 0 a x"
  by (simp add: overwrite_def)

lemma put_put_cmd_submit:
  assumes "wf_header p" and "length (cs_setup c) = 8" and "length (cs_setup c') = 8"
  shows "put_cmd_submit h c (put_cmd_submit h c' p) = put_cmd_submit h c p"
  using assms by (simp add: put_cmd_submit_def wf_header_def sizeof_union_def overwrite_twice)

lemma put_base: "put_cmd_submit h c (p\<lparr>base := b\<rparr>) = (put_cmd_submit h c p)\<lparr>base := b\<rparr>"
  by (cases p) (simp add: put_cmd_submit_def)

lemma packed_header:
  assumes "wf_header p" and "command (base p) = USBIP_CMD_SUBMIT" and "length (cs_setup c) = 8"
  shows "(put_cmd_submit h (pack_usbip_header_cmd_submit h c) p)\<lparr>base := pack_usbip_header_basic h (base p)\<rparr> =
    usbip_header_correct_endian h (put_cmd_submit h c p) True"
  using assms
  by (simp add: usbip_header_correct_endian_def Let_def wire_simps put_put_cmd_submit put_base pack_is_correct_endian
      wf_header_def sizeof_union_def command_defs correct_endian_cmd_submit_def)

section \<open>Sending a request\<close>

text \<open>What a request with the header \<open>p\<close> and the buffer \<open>bs\<close> puts on the wire of device \<open>d\<close>.\<close>

definition request_header :: "endian \<Rightarrow> cdevice \<Rightarrow> usbip_header \<Rightarrow> byte list \<Rightarrow> usbip_header" where
  "request_header h x p bs =
     put_cmd_submit h ((get_cmd_submit h p)\<lparr>cs_transfer_buffer_length := of_nat (length bs)\<rparr>)
       (p\<lparr>base := (base p)\<lparr>seqnum := dv_seqnum x, devid := dv_devid x\<rparr>\<rparr>)"

lemma wf_request_header [simp]: "wf_header p \<Longrightarrow> wf_header (request_header h x p bs)"
  unfolding request_header_def by (intro wf_put) (simp_all add: wf_header_def)

lemma run_urb_begin:
  assumes p: "ub_header (se_urb s u) = p" "wf_header p" "command (base p) = USBIP_CMD_SUBMIT"
    and d: "ub_dev (se_urb s u) = d" and bs: "ub_data (se_urb s u) = bs"
    and wr: "\<And>b. uv_write k b (se_world s) = (True, f b)"
    and out: "out = send_header h (request_header h (se_dev s d) p bs) @ (if direction (base p) = USBIP_DIR_OUT then bs else [])"
  shows "run_state (urb_begin k h u w) s = ((), s\<lparr>
    se_world := f out, se_work := (se_work s)(w := (se_work s w)\<lparr>wk_pending := True\<rparr>),
    se_dev := (se_dev s)(d := (se_dev s d)\<lparr>dv_seqnum := dv_seqnum (se_dev s d) + 1, dv_sent := dv_sent (se_dev s d) @ out\<rparr>),
    se_urb := (se_urb s)(u := (se_urb s u)\<lparr>ub_work := Some w, ub_direction := direction (base p), ub_seqnum := dv_seqnum (se_dev s d),
      ub_header := usbip_header_correct_endian h (request_header h (se_dev s d) p bs) True, ub_begun := True\<rparr>)\<rparr>)"
proof -
  define b where "b = (base p)\<lparr>seqnum := dv_seqnum (se_dev s d), devid := dv_devid (se_dev s d)\<rparr>"
  define c where "c = (get_cmd_submit h p)\<lparr>cs_transfer_buffer_length := of_nat (length bs)\<rparr>"
  have b: "command b = USBIP_CMD_SUBMIT" "direction b = direction (base p)" by (simp_all add: b_def p)
  have rq: "put_cmd_submit h c (p\<lparr>base := b\<rparr>) = request_header h (se_dev s d) p bs"
    by (simp add: request_header_def b_def c_def)
  have ph: "(put_cmd_submit h (pack_usbip_header_cmd_submit h c) (p\<lparr>base := b\<rparr>))\<lparr>base := pack_usbip_header_basic h b\<rparr> =
     usbip_header_correct_endian h (request_header h (se_dev s d) p bs) True"
    unfolding rq [symmetric] using packed_header [of "p\<lparr>base := b\<rparr>" c h] p b by (simp add: wf_header_def c_def)
  have o: "mem_header h (usbip_header_correct_endian h (request_header h (se_dev s d) p bs) True) @
      (if bs \<noteq> [] \<and> direction (base p) = USBIP_DIR_OUT then bs else []) = out"
    by (simp add: out send_header_def)
  show ?thesis
    by (simp add: urb_begin_def d p(1,3) bs b_def [symmetric] c_def [symmetric] ph Let_def del: if_split,
        simp add: p(3) wr WORK_ASYNC_def call_uv_def under_way_def ph Let_def out send_header_def)
qed

text \<open>The session after the call of a user that submits a transfer.\<close>

lemma run_submit_urb:
  "run_state (submit_urb d p bs to jb) s = (se_next_work s, s\<lparr>
     se_urb := (se_urb s)(se_next_urb s := new_curb d p bs), se_next_urb := Suc (se_next_urb s),
     se_dev := (se_dev s)(d := (se_dev s d)\<lparr>dv_ref := dv_ref (se_dev s d) + 1\<rparr>),
     se_work := (se_work s)(se_next_work s := new_work (Urb_transfer (se_next_urb s)) to jb),
     se_queue := se_queue s @ [se_next_work s], se_next_work := Suc (se_next_work s)\<rparr>)"
  by (simp add: submit_urb_def device_ref_def work_new_def)

lemma request_header_ref [simp]: "request_header h (x\<lparr>dv_ref := n\<rparr>) p bs = request_header h x p bs"
  by (simp add: request_header_def)

lemma request_written:
  assumes "wf_header p" and "command (base p) = USBIP_CMD_SUBMIT" and "\<And>b x. fst (uv_write k b x)" and "se_queue s = []"
    and "run_state (submit_urb d p bs to jb) s = (w, s1)" and "0 \<le> st"
    and "t = snd (run_state (status_cb k h w st) (snd (run_state (session_notify k h) s1)))"
  shows "dv_sent (se_dev t d) = dv_sent (se_dev s d) @ send_header h (request_header h (se_dev s d) p bs) @
      (if direction (base p) = USBIP_DIR_OUT then bs else [])"
    and "dv_urb_list (se_dev t d) = dv_urb_list (se_dev s d) @ [se_next_urb s]"
    and "dv_seqnum (se_dev t d) = dv_seqnum (se_dev s d) + 1"
    and "ub_seqnum (se_urb t (se_next_urb s)) = dv_seqnum (se_dev s d)" and "ub_work (se_urb t (se_next_urb s)) = Some w"
    and "wk_state (se_work t w) = ws_busy" and "wk_ret (se_work t w) = 0" and "se_fault t = se_fault s"
proof -
  define f where "f b = snd (uv_write k b (se_world s))" for b
  have wr: "uv_write k b (se_world s) = (True, f b)" for b
    using assms(3) [of b "se_world s"] by (simp add: f_def prod_eq_iff)
  have st: "\<not> st < 0" using assms(6) by simp
  note s1 = assms(5) [unfolded run_submit_urb prod.inject, THEN conjunct2, symmetric]
  note w = assms(5) [unfolded run_submit_urb prod.inject, THEN conjunct1, symmetric]
  have n: "run_state (session_notify k h) s1 = run_state (urb_begin k h (se_next_urb s) w) (s1\<lparr>se_queue := [],
      se_work := (se_work s1)(w := (se_work s1 w)\<lparr>wk_state := ws_busy, wk_timer := to > 0, wk_armed := to > 0\<rparr>)\<rparr>)"
    by (simp add: s1 w assms(4) session_notify_def new_work_def new_curb_def cb_process_def device_urb_transfer_def WORK_BEGIN_def)
  have t: "t = snd (run_state (status_cb k h w st) (snd (run_state (session_notify k h) s1)))" by (rule assms(7))
  show "dv_sent (se_dev t d) = dv_sent (se_dev s d) @ send_header h (request_header h (se_dev s d) p bs) @
      (if direction (base p) = USBIP_DIR_OUT then bs else [])"
    "dv_urb_list (se_dev t d) = dv_urb_list (se_dev s d) @ [se_next_urb s]"
    "dv_seqnum (se_dev t d) = dv_seqnum (se_dev s d) + 1"
    "ub_seqnum (se_urb t (se_next_urb s)) = dv_seqnum (se_dev s d)" "ub_work (se_urb t (se_next_urb s)) = Some w"
    "wk_state (se_work t w) = ws_busy" "wk_ret (se_work t w) = 0" "se_fault t = se_fault s"
    unfolding t n
    by (subst run_urb_begin [OF _ assms(1,2) _ _ _ refl, of _ _ d bs _ f];
        simp add: s1 w wr st new_curb_def status_cb_def cb_process_def new_work_def device_urb_transfer_def
          WORK_YIELDED_def READ_DONE_def)+
qed

lemma wf_control_header [simp]: "wf_header (control_header h ty rq v i n)"
  unfolding control_header_def Let_def
  by (intro wf_put) (simp_all add: wf_header_def zero_header_def setup_packet_bytes_def)

lemma base_control_header [simp]:
  "base (control_header h ty rq v i n) = zero_basic\<lparr>command := USBIP_CMD_SUBMIT,
     direction := (if ty AND 0x80 \<noteq> 0 then USBIP_DIR_IN else USBIP_DIR_OUT), ep := 0\<rparr>"
  by (simp add: control_header_def Let_def)

lemma get_control_header [simp]:
  "get_cmd_submit h (control_header h ty rq v i n) =
     \<lparr>cs_transfer_flags = 0, cs_transfer_buffer_length = 0, cs_start_frame = 0, cs_number_of_packets = 0, cs_interval = 0,
      cs_setup = setup_packet_bytes (ucast ty) (ucast rq) (ucast v) (ucast i) (ucast n)\<rparr>"
proof -
  have z: "get_cmd_submit h \<lparr>base = b, hu = replicate sizeof_union 0\<rparr> = \<lparr>cs_transfer_flags = 0, cs_transfer_buffer_length = 0,
      cs_start_frame = 0, cs_number_of_packets = 0, cs_interval = 0, cs_setup = replicate 8 0\<rparr>" for b
    by (cases h) (simp_all add: get_cmd_submit_def sizeof_union_def slice_def ld32_def numeral_eq_Suc)
  show ?thesis
    unfolding control_header_def Let_def
    by (subst get_put_cmd_submit) (simp_all add: wf_header_def zero_header_def z setup_packet_bytes_def)
qed

lemma request_view:
  assumes "wf_header p" and "command (base p) = USBIP_CMD_SUBMIT"
  shows "header_view h (request_header h x p bs) =
    ((base p)\<lparr>seqnum := dv_seqnum x, devid := dv_devid x\<rparr>,
     Cmd_Submit ((get_cmd_submit h p)\<lparr>cs_transfer_buffer_length := of_nat (length bs)\<rparr>))"
  using assms by (simp add: header_view_def request_header_def wire_simps wf_header_def)

lemma half_of_nat: "ucast (of_nat n :: u32) = (of_nat n :: u16)"
  by (simp add: unsigned_of_nat word_of_nat_eq_iff)

text \<open>C19. A control message reaches the wire as a header that a host of either byte order reads as the
  request of the caller, with the next number of the device, the length of the buffer and the setup packet, followed by
  the buffer when it goes to the device; written, it waits in the list of the device.\<close>

theorem control_message_sent:
  assumes "\<And>b x. fst (uv_write k b x)" and "se_queue s = []" and "0 \<le> st"
    and "run_state (libusbip_control_msg h d ty rq v i bs to jb) s = (w, s1)"
    and "t = snd (run_state (status_cb k h w st) (snd (run_state (session_notify k h) s1)))"
  shows "\<exists>hdr. dv_sent (se_dev t d) = dv_sent (se_dev s d) @ hdr @ (if ty AND 0x80 = 0 then bs else []) \<and>
    length hdr = sizeof_header \<and>
    header_view g (recv_header g hdr) =
      (\<lparr>command = USBIP_CMD_SUBMIT, seqnum = dv_seqnum (se_dev s d), devid = dv_devid (se_dev s d),
        direction = (if ty AND 0x80 = 0 then USBIP_DIR_OUT else USBIP_DIR_IN), ep = 0\<rparr>,
       Cmd_Submit \<lparr>cs_transfer_flags = 0, cs_transfer_buffer_length = of_nat (length bs), cs_start_frame = 0,
         cs_number_of_packets = 0, cs_interval = 0,
         cs_setup = setup_packet_bytes (ucast ty) (ucast rq) (ucast v) (ucast i) (of_nat (length bs))\<rparr>) \<and>
    dv_urb_list (se_dev t d) = dv_urb_list (se_dev s d) @ [se_next_urb s] \<and>
    dv_seqnum (se_dev t d) = dv_seqnum (se_dev s d) + 1 \<and> ub_work (se_urb t (se_next_urb s)) = Some w \<and>
    wk_state (se_work t w) = ws_busy \<and> se_fault t = se_fault s"
proof -
  define p where "p = control_header h ty rq v i (of_nat (length bs))"
  have p: "wf_header p" "command (base p) = USBIP_CMD_SUBMIT" by (simp_all add: p_def)
  have dir: "direction (base p) = (if ty AND 0x80 = 0 then USBIP_DIR_OUT else USBIP_DIR_IN)" by (simp add: p_def)
  have s1: "run_state (submit_urb d p bs to jb) s = (w, s1)" using assms(4) by (simp add: libusbip_control_msg_def p_def)
  note r = request_written [OF p assms(1,2) s1 assms(3,5)]
  let ?hdr = "send_header h (request_header h (se_dev s d) p bs)"
  have "header_view g (recv_header g ?hdr) =
      ((base p)\<lparr>seqnum := dv_seqnum (se_dev s d), devid := dv_devid (se_dev s d)\<rparr>,
       Cmd_Submit ((get_cmd_submit h p)\<lparr>cs_transfer_buffer_length := of_nat (length bs)\<rparr>))"
    using view_header_roundtrip [OF wf_request_header [OF p(1)]] request_view [OF p] by simp
  then show ?thesis
    by (intro exI [of _ ?hdr]) (simp add: r p dir length_send_header,
      simp add: p_def zero_basic_def half_of_nat USBIP_DIR_IN_def USBIP_DIR_OUT_def)
qed

section \<open>How transfers are lost\<close>

lemma result_failed:
  assumes "get_ret_submit h (dv_header (se_dev s d)) = r" and "rs_status r \<noteq> 0" and "ub_work (se_urb s u) = Some uw"
    and "1 < wk_ref (se_work s uw)" and "uw \<noteq> w" and "wk_ret (se_work s w) = 0" and "\<not> wk_reading (se_work s w)"
    and "t = snd (run_state (loop_result k h d w u) s)"
  shows "wk_state (se_work t uw) = ws_done" and "wk_ret (se_work t uw) = wk_ret (se_work s uw)"
    and "ub_ret (se_urb t u) = ub_ret (se_urb s u)" and "dv_urb_list (se_dev t d) = remove1 u (dv_urb_list (se_dev s d))"
    and "dv_pc (se_dev t d) = Pc_header" and "dv_state (se_dev t d) = dv_state (se_dev s d)"
    and "wk_ret (se_work t w) = - uv_eio k" and "wk_cb (se_work t w) = wk_cb (se_work s w)"
    and "wk_ref (se_work t w) = wk_ref (se_work s w)" and "wk_timer (se_work t w) = wk_timer (se_work s w)"
    and "read_room t w = sizeof_header"
proof -
  have l: "run_state (loop_result k h d w u) s = run_state (urb_finish h d w u) (s\<lparr>
      se_urb := (se_urb s)(u := (se_urb s u)\<lparr>ub_header := put_ret_submit h r (ub_header (se_urb s u))\<rparr>),
      se_dev := (se_dev s)(d := (se_dev s d)\<lparr>dv_urb_list := remove1 u (dv_urb_list (se_dev s d))\<rparr>),
      se_work := (se_work s)(w := (se_work s w)\<lparr>wk_status := sint (rs_status r), wk_ret := - uv_eio k\<rparr>)\<rparr>)"
    using assms by (simp add: loop_result_def header_ret_def WORK_SET_ERR_def)
  show "wk_state (se_work t uw) = ws_done" "wk_ret (se_work t uw) = wk_ret (se_work s uw)"
    "ub_ret (se_urb t u) = ub_ret (se_urb s u)" "dv_urb_list (se_dev t d) = remove1 u (dv_urb_list (se_dev s d))"
    "dv_pc (se_dev t d) = Pc_header" "dv_state (se_dev t d) = dv_state (se_dev s d)"
    "wk_ret (se_work t w) = - uv_eio k" "wk_cb (se_work t w) = wk_cb (se_work s w)"
    "wk_ref (se_work t w) = wk_ref (se_work s w)" "wk_timer (se_work t w) = wk_timer (se_work s w)"
    "read_room t w = sizeof_header"
    unfolding assms(8) l
    by (subst finish_waiting [where uw = uw]; simp add: assms(3-7) assms(5) [symmetric] next_header_def yield_read_def READ_PREPARE_def
        reader_put_def goto_def read_room_def)+
qed

text \<open>A work with an error ends the loop when its header is complete, whatever that header says.\<close>

lemma failed_loop_ends:
  assumes "wk_ret (se_work s w) \<noteq> 0" and "wk_cb (se_work s w) = Device_loop d" and "dv_pc (se_dev s d) = Pc_header"
    and "wk_ref (se_work s w) = 1" and "\<not> wk_timer (se_work s w)" and "devs_num devs_opening \<le> devs_num (dv_state (se_dev s d))"
    and "t = snd (run_state (cb_process k h w) (got_more w bs s))"
  shows "dv_state (se_dev t d) = devs_closing" and "dv_close (se_dev t d) = Some Socket_close" and "wk_freed (se_work t w)"
    and "dv_urb_list (se_dev t d) = dv_urb_list (se_dev s d)" and "se_urb t = se_urb s"
    and "v \<noteq> w \<Longrightarrow> se_work t v = se_work s v"
  using assms
  by (auto simp: cb_process_def device_loop_def WORK_YIELDED_def READ_DONE_def reader_del_def got_more_def WORK_EXIT_def
      pt_init_def work_done_def work_unref_def work_del_def cb_destroy_def DEVICE_CLOSE_def device_ref_def device_unref_def
      client_parts)

text \<open>C21. A result with an error completes its transfer without one, and sets the error on the work that
  receives instead: the next header, whatever it answers, ends the loop and closes the connection, and the transfers that wait
  stay where they are.\<close>

theorem error_result_ends_loop:
  assumes "expects_header d w s" and "devs_num devs_opening \<le> devs_num (dv_state (se_dev s d))" and "\<not> wk_timer (se_work s w)"
    and "wf_header p" and "command (base p) = USBIP_RET_SUBMIT" and "rs_status (get_ret_submit g p) \<noteq> 0"
    and "awaited d us u vs uw (seqnum (base p)) s" and "u \<notin> set us" and "uw \<noteq> w" and "1 < wk_ref (se_work s uw)" and "uv_eio k \<noteq> 0"
    and "hs \<noteq> []" and "last hs \<noteq> []" and "concat hs = send_header g p"
    and "ns \<noteq> []" and "last ns \<noteq> []" and "length (concat ns) = sizeof_header"
    and "t = snd (run_state (feed k h w ns) (snd (run_state (feed k h w hs) s)))"
  shows "wk_state (se_work t uw) = ws_done \<and> wk_ret (se_work t uw) = wk_ret (se_work s uw) \<and> ub_ret (se_urb t u) = ub_ret (se_urb s u) \<and>
    wk_freed (se_work t w) \<and> dv_state (se_dev t d) = devs_closing \<and> dv_close (se_dev t d) = Some Socket_close \<and>
    dv_urb_list (se_dev t d) = us @ vs"
proof -
  define s1 where "s1 = found_state h d w u (concat hs) s"
  define s2 where "s2 = snd (run_state (loop_result k h d w u) s1)"
  note e = assms(1) [unfolded expects_header_def Let_def]
  have l: "length (concat hs) = read_room s w"
    using e by (simp add: assms(14) length_send_header [OF assms(4)] read_room_def)
  have one: "snd (run_state (feed k h w hs) s) = s2"
    unfolding s2_def s1_def feed_fills [OF assms(12,13) l] by (subst reply_found [OF assms(1,4,5,7,14)]) simp
  have f: "get_ret_submit h (dv_header (se_dev s1 d)) = get_ret_submit g p" "rs_status (get_ret_submit g p) \<noteq> 0"
    "ub_work (se_urb s1 u) = Some uw" "1 < wk_ref (se_work s1 uw)" "uw \<noteq> w" "wk_ret (se_work s1 w) = 0" "\<not> wk_reading (se_work s1 w)"
    using e assms(6-10) reply_parts(2) [OF assms(4,5), of h g] assms(14)
    by (simp_all add: s1_def found_state_def awaited_def)
  note r = result_failed [OF f s2_def]
  have "run_state (feed k h w ns) s2 = run_state (cb_process k h w) (got_more w (concat ns) s2)"
    by (rule feed_fills [OF assms(15,16)]) (simp add: assms(17) r)
  then have t: "t = snd (run_state (cb_process k h w) (got_more w (concat ns) s2))" by (simp add: assms(18) one)
  have b: "wk_ret (se_work s2 w) \<noteq> 0" "wk_cb (se_work s2 w) = Device_loop d" "dv_pc (se_dev s2 d) = Pc_header"
    "wk_ref (se_work s2 w) = 1" "\<not> wk_timer (se_work s2 w)" "devs_num devs_opening \<le> devs_num (dv_state (se_dev s2 d))"
    using e assms(2,3,11) by (simp_all add: r s1_def found_state_def)
  note n = failed_loop_ends [OF b t]
  have "dv_urb_list (se_dev s1 d) = us @ u # vs" using assms(7) by (simp add: s1_def found_state_def awaited_def)
  then have "dv_urb_list (se_dev t d) = us @ vs" using assms(8) by (simp add: n r remove1_append)
  then show ?thesis using n r assms(9) by (simp add: s1_def found_state_def)
qed

lemma cancelled_loop:
  assumes "wk_cb (se_work s w) = Device_loop d" and "dv_pc (se_dev s d) \<in> {Pc_header, Pc_drop, Pc_data}" and "wk_reading (se_work s w)"
    and "wk_ref (se_work s w) = 1" and "\<not> wk_timer (se_work s w)" and "dv_state (se_dev s d) = devs_closed" and "uv_ecanceled k \<noteq> 0"
    and "t = snd (run_state (cancel_readers k h [w]) s)" and "dv_read_list (se_dev s d) = [w]"
  shows "wk_freed (se_work t w)" and "v \<noteq> w \<Longrightarrow> se_work t v = se_work s v" and "se_urb t = se_urb s"
    and "dv_pc (se_dev t d) = Pc_start" and "dv_read_list (se_dev t d) = []" and "dv_urb_list (se_dev t d) = dv_urb_list (se_dev s d)"
    and "dv_state (se_dev t d) = devs_closed" and "dv_cur (se_dev t d) = dv_cur (se_dev s d)"
  using assms
  by (auto simp: cb_process_def device_loop_def WORK_YIELDED_def READ_DONE_def reader_del_def WORK_EXIT_def
      pt_init_def work_done_def work_unref_def work_del_def cb_destroy_def DEVICE_CLOSE_def device_ref_def device_unref_def
      client_parts WORK_SET_ERR_def)

text \<open>C22. When the connection is closed while the data of a transfer is being received, the transfer
  is in no list any more: the receiving work ends, but the work of the transfer stays busy, and its timeout does not
  end it either.\<close>

theorem closed_transfer_lost:
  assumes "wk_cb (se_work s w) = Device_loop d" and "dv_pc (se_dev s d) = Pc_data" and "wk_reading (se_work s w)"
    and "wk_ref (se_work s w) = 1" and "\<not> wk_timer (se_work s w)" and "dv_read_list (se_dev s d) = [w]"
    and "dv_close (se_dev s d) = Some Socket_close" and "dv_cur (se_dev s d) = Some u" and "dv_urb_list (se_dev s d) = []"
    and "wk_cb (se_work s uw) = Urb_transfer u" and "ub_dev (se_urb s u) = d" and "uw \<noteq> w"
    and "wk_state (se_work s uw) = ws_busy" and "uv_ecanceled k \<noteq> 0"
    and "t = snd (run_state (closed_cb k h d) s)" and "t' = snd (run_state (timedout_cb k uw) t)"
  shows "wk_freed (se_work t w) \<and> dv_pc (se_dev t d) = Pc_start \<and> dv_state (se_dev t d) = devs_closed \<and> dv_urb_list (se_dev t d) = [] \<and>
    se_work t uw = se_work s uw \<and> wk_state (se_work t' uw) = ws_busy \<and> wk_finished (se_work t' uw) = wk_finished (se_work s uw)"
proof -
  define s1 where "s1 = s\<lparr>se_dev := (se_dev s)(d := (se_dev s d)\<lparr>dv_close := None, dv_state := devs_closed\<rparr>)\<rparr>"
  define s2 where "s2 = snd (run_state (cancel_readers k h [w]) s1)"
  have t: "t = snd (run_state (device_unref d) s2)"
    unfolding assms(15) using assms(6,7,9) by (simp add: closed_cb_def socket_close_cb_def s2_def s1_def split_beta del: cancel_readers.simps)
  have f: "wk_cb (se_work s1 w) = Device_loop d" "dv_pc (se_dev s1 d) \<in> {Pc_header, Pc_drop, Pc_data}" "wk_reading (se_work s1 w)"
    "wk_ref (se_work s1 w) = 1" "\<not> wk_timer (se_work s1 w)" "dv_state (se_dev s1 d) = devs_closed"
    using assms by (simp_all add: s1_def)
  have rl: "dv_read_list (se_dev s1 d) = [w]" using assms(6) by (simp add: s1_def)
  note c = cancelled_loop [OF f assms(14) s2_def rl]
  have a: "wk_freed (se_work t w)" "dv_pc (se_dev t d) = Pc_start" "dv_state (se_dev t d) = devs_closed" "dv_urb_list (se_dev t d) = []"
    "se_work t uw = se_work s uw" "se_urb t = se_urb s"
    using c assms(9,12) by (auto simp: t device_unref_def client_parts s1_def)
  have "wk_state (se_work t' uw) = ws_busy \<and> wk_finished (se_work t' uw) = wk_finished (se_work s uw)"
    unfolding assms(16) using a assms(10,11,13)
    by (simp add: timedout_cb_def WORK_SET_ERR_def cb_abort_def DEVICE_CLOSE_def)
  then show ?thesis using a by simp
qed

end
