(* ===== verification/ClientWit.thy ===== *)
theory ClientWit
  imports ClientSend
begin

text \<open>The properties of the client library applied to a concrete session: one device, one transfer of three bytes
  from it, and the work that receives.\<close>

section \<open>A session\<close>

definition wit_api :: "unit capi" where
  "wit_api = \<lparr>uv_tcp_init = (\<lambda>_. (True, ())), uv_tcp_connect = (\<lambda>_. (True, ())), uv_read_start = (\<lambda>_. (True, ())),
     uv_write = (\<lambda>_ _. (True, ())), uv_last_error = (\<lambda>_. 0), uv_ecanceled = 46, uv_etimedout = 40, uv_eio = 55,
     uv_einval = 18, uv_ebusy = 15\<rparr>"

definition wit_device :: cdevice where
  "wit_device = (new_device ''1-1'' 1 2 0)\<lparr>dv_pc := Pc_header, dv_ref := 4, dv_state := devs_opening, dv_socket := Some 0, dv_reading := True,
     dv_urb_list := [0], dv_read_list := [0], dv_seqnum := 6\<rparr>"

definition wit_session :: "unit csession" where
  "wit_session = \<lparr>
     se_work = (\<lambda>w. if w = 0 then (new_work (Device_loop 0) (- 1) False)\<lparr>wk_state := ws_busy, wk_reading := True, wk_len := sizeof_header\<rparr>
       else (new_work (Urb_transfer 0) 0 True)\<lparr>wk_state := ws_busy\<rparr>),
     se_dev = (\<lambda>_. wit_device),
     se_urb = (\<lambda>_. (new_curb 0 (transfer_header 0x81) [0, 0, 0])\<lparr>ub_work := Some 1, ub_seqnum := 5, ub_direction := USBIP_DIR_IN\<rparr>),
     se_req = (\<lambda>_. new_req), se_queue = [], se_next_work = 2, se_next_dev = 1, se_next_urb = 1, se_next_req = 0,
     se_fault = False, se_world = ()\<rparr>"

definition wit_result :: "u32 \<Rightarrow> usbip_header" where
  "wit_result st = put_ret_submit Little \<lparr>rs_status = st, rs_actual_length = 3, rs_start_frame = 0, rs_number_of_packets = 0, rs_error_count = 0\<rparr>
     (zero_header\<lparr>base := zero_basic\<lparr>command := USBIP_RET_SUBMIT, seqnum := 5\<rparr>\<rparr>)"

lemmas wit_defs = wit_api_def wit_device_def wit_session_def new_device_def new_work_def new_curb_def
  expects_header_def awaited_def

lemma wit_result_parts [simp]:
  "wf_header (wit_result st)" "base (wit_result st) = zero_basic\<lparr>command := USBIP_RET_SUBMIT, seqnum := 5\<rparr>"
  "get_ret_submit Little (wit_result st) = \<lparr>rs_status = st, rs_actual_length = 3, rs_start_frame = 0, rs_number_of_packets = 0, rs_error_count = 0\<rparr>"
  unfolding wit_result_def by (rule wf_put) (simp_all add: wire_simps wf_header_def zero_header_def)

definition halves :: "byte list \<Rightarrow> byte list list" where
  "halves bs = [take 20 bs, drop 20 bs]"

lemma wit_halves [simp]:
  "halves bs \<noteq> []" "concat (halves bs) = bs" "20 < length bs \<Longrightarrow> last (halves bs) \<noteq> []"
  by (simp_all add: halves_def)

theorem control_message_sent_witness:
  "\<exists>hdr. dv_sent (se_dev (snd (run_state (status_cb wit_api Little 2 0) (snd (run_state (session_notify wit_api Little)
       (snd (run_state (libusbip_control_msg Little 0 0 9 1 0 [4] 0 True) wit_session)))))) 0) = hdr @ [4] \<and>
     length hdr = sizeof_header \<and> seqnum (fst (header_view Big (recv_header Big hdr))) = 6"
proof -
  have r: "run_state (libusbip_control_msg Little 0 0 9 1 0 [4] 0 True) wit_session =
      (2, snd (run_state (libusbip_control_msg Little 0 0 9 1 0 [4] 0 True) wit_session))"
    by (simp add: libusbip_control_msg_def run_submit_urb wit_session_def)
  show ?thesis
    using control_message_sent [OF _ _ _ r refl, where k = wit_api and st = 0 and g = Big]
    by (auto simp: wit_defs)
qed

theorem error_result_ends_loop_witness:
  "\<exists>t. t = snd (run_state (feed wit_api Big 0 [replicate 48 0])
        (snd (run_state (feed wit_api Big 0 (halves (send_header Little (wit_result 32)))) wit_session))) \<and>
     wk_state (se_work t 1) = ws_done \<and> wk_ret (se_work t 1) = 0 \<and> dv_state (se_dev t 0) = devs_closing"
  using error_result_ends_loop [where d = 0 and w = 0 and s = wit_session and p = "wit_result 32" and g = Little and us = "[]" and u = 0 and vs = "[]"
      and uw = 1 and hs = "halves (send_header Little (wit_result 32))" and ns = "[replicate 48 0]" and k = wit_api and h = Big, OF _ _ _ _ _ _ _ _ _ _ _ _ _ _ _ _ _ refl]
  by (simp add: wit_defs zero_basic_def sizeof_header_def length_send_header)

definition wit_closing :: "unit csession" where
  "wit_closing = wit_session\<lparr>se_dev := (\<lambda>_. wit_device\<lparr>dv_pc := Pc_data, dv_close := Some Socket_close, dv_cur := Some 0, dv_urb_list := []\<rparr>)\<rparr>"

theorem closed_transfer_lost_witness:
  "\<exists>t. t = snd (run_state (closed_cb wit_api Little 0) wit_closing) \<and>
     wk_freed (se_work t 0) \<and> wk_state (se_work (snd (run_state (timedout_cb wit_api 1) t)) 1) = ws_busy"
  using closed_transfer_lost [where s = wit_closing and w = 0 and d = 0 and u = 0 and uw = 1 and k = wit_api and h = Little, OF _ _ _ _ _ _ _ _ _ _ _ _ _ _ refl refl]
  by (simp add: wit_closing_def wit_defs)

end
