(* ===== verification/ClientLink.thy ===== *)
theory ClientLink
  imports System ClientWit
begin

text \<open>
  The client library and the stub driver together: the bytes of a control message make the stub, on a host of
  either byte order, hand its device one urb with the same setup packet and data, and the bytes of its result complete the transfer.
\<close>

section \<open>The urb of a control message\<close>

definition control_urb :: "pipe \<Rightarrow> bool \<Rightarrow> byte list \<Rightarrow> byte list \<Rightarrow> urb" where
  "control_urb pipe inp sp bs = (new_urb 0)\<lparr>u_pipe := pipe,
     transfer_buffer := (if bs = [] then None else Some (if inp then replicate (length bs) 0 else bs)),
     transfer_buffer_length := of_nat (length bs), setup_packet := Some sp\<rparr>"

text \<open>A urb of the other host that would be sent in the same way.\<close>

definition like_urb :: "bool \<Rightarrow> byte list \<Rightarrow> byte list \<Rightarrow> urb" where
  "like_urb inp sp bs = (new_urb 0)\<lparr>u_pipe := (if inp then 0x80 else 0), transfer_buffer := Some bs,
     transfer_buffer_length := of_nat (length bs), setup_packet := Some sp\<rparr>"

lemma length_setup_packet [simp]: "length (setup_packet_bytes ty rq v i n) = 8"
  by (simp add: setup_packet_bytes_def)

lemma like_urb_facts:
  assumes "length sp = 8" and "length bs < 2 ^ 31"
  shows "usb_pipein (u_pipe (like_urb inp sp bs)) = inp" and "sent_setup (like_urb inp sp bs) = sp"
    and "unat (transfer_buffer_length (like_urb inp sp bs)) = length bs" and "transfer_buffer_length (like_urb inp sp bs) = of_nat (length bs)"
    and "start_frame (like_urb inp sp bs) = 0" and "number_of_packets (like_urb inp sp bs) = 0" and "u_interval (like_urb inp sp bs) = 0"
    and "cmd_submit_data_ok (like_urb inp sp bs)" and "cmd_submit_data (like_urb inp sp bs) = (if inp then [] else bs)"
    and "remote_urb pipe 0 (like_urb inp sp bs) = control_urb pipe inp sp bs"
proof -
  have l: "unat (of_nat (length bs) :: u32) = length bs" using assms(2) by (simp add: unsigned_of_nat take_bit_nat_eq_self)
  have z: "(of_nat (length bs) :: u32) = 0 \<longleftrightarrow> bs = []" unfolding unat_eq_0 [symmetric] l by simp
  show p: "usb_pipein (u_pipe (like_urb inp sp bs)) = inp" by (simp add: like_urb_def usb_pipein_def)
  show s: "sent_setup (like_urb inp sp bs) = sp" using assms(1) by (simp add: like_urb_def sent_setup_def)
  show "unat (transfer_buffer_length (like_urb inp sp bs)) = length bs" "transfer_buffer_length (like_urb inp sp bs) = of_nat (length bs)"
    "start_frame (like_urb inp sp bs) = 0" "number_of_packets (like_urb inp sp bs) = 0" "u_interval (like_urb inp sp bs) = 0"
    using l by (simp_all add: like_urb_def new_urb_def)
  show "cmd_submit_data_ok (like_urb inp sp bs)"
    using l by (simp add: cmd_submit_data_ok_def like_urb_def buf_ok_def)
  show d: "cmd_submit_data (like_urb inp sp bs) = (if inp then [] else bs)"
    unfolding cmd_submit_data_def p using l z by (simp add: like_urb_def buf_read_def slice_def word_greater_zero_iff)
  show "remote_urb pipe 0 (like_urb inp sp bs) = control_urb pipe inp sp bs"
    unfolding remote_urb_def p s d control_urb_def using l z by (simp add: like_urb_def new_urb_def)
qed

section \<open>Properties\<close>

text \<open>C3. A control message crosses the network. The bytes that the client library adds to what it wrote
  for a device, when they arrive at the stub to which that device is connected, whatever the byte orders of the two hosts, make the
  stub hand its device one urb for the control pipe of the same direction, with the setup packet and the data of the
  caller; it is queued under the number the library gave the transfer.\<close>

theorem client_message_reaches_device:
  assumes "\<And>b x. fst (uv_write kc b x)" and "se_queue c = []" and "0 \<le> st" and "length bs < 2 ^ 31"
    and "run_state (libusbip_control_msg h x ty rq v i bs to jb) c = (cw, c1)"
    and "c2 = snd (run_state (status_cb kc h cw st) (snd (run_state (session_notify kc h) c1)))"
    and "recv_stream k s pend" and "recv_progress k s pend" and "host_ok k pend"
    and "stub_inv d" and "ud_side d = USBIP_STUB" and "tcp_socket d = Some s" and "ud_status d = SDEV_ST_USED"
    and "sd_devid d = dv_devid (se_dev c x)" and "ud_filters d = []" and "devnum (sd_udev d) < 128"
    and "get_pipe (sd_udev d) 0 (if ty AND 0x80 = 0 then USBIP_DIR_OUT else USBIP_DIR_IN) = Some pipe" and "\<not> usb_pipeisoc pipe"
    and "pend w = drop (length (dv_sent (se_dev c x))) (dv_sent (se_dev c2 x)) @ rest"
  shows "\<exists>w'. stub_rx_pdu g k d w =
    ((queued d (ucast (dv_seqnum (se_dev c x))) (control_urb pipe (ty AND 0x80 \<noteq> 0)
        (setup_packet_bytes (ucast ty) (ucast rq) (ucast v) (ucast i) (of_nat (length bs))) bs))
       \<lparr>sd_flight := sd_next d # sd_flight d\<rparr>, w')"
proof -
  define p where "p = control_header h ty rq v i (of_nat (length bs))"
  define inp where "inp \<longleftrightarrow> ty AND 0x80 \<noteq> 0"
  define sp where "sp = setup_packet_bytes (ucast ty) (ucast rq) (ucast v) (ucast i) (of_nat (length bs) :: u16)"
  have sp: "length sp = 8" by (simp add: sp_def)
  note lk = like_urb_facts [OF sp assms(4), where inp = inp]
  have p: "wf_header p" "command (base p) = USBIP_CMD_SUBMIT" by (simp_all add: p_def)
  have dir: "direction (base p) = (if inp then USBIP_DIR_IN else USBIP_DIR_OUT)" "ep (base p) = 0" by (simp_all add: p_def inp_def)
  have "run_state (submit_urb x p bs to jb) c = (cw, c1)" using assms(5) by (simp add: libusbip_control_msg_def p_def)
  note sent = request_written(1) [OF p assms(1,2) this assms(3,6)]
  let ?P = "request_header h (se_dev c x) p bs" and ?u = "like_urb inp sp bs"
  let ?r = "recv_header g (send_header h ?P)"
  have wf: "wf_header ?P" by (rule wf_request_header [OF p(1)])
  have view: "header_view g ?r = header_view h ?P" by (rule view_header_roundtrip [OF wf])
  have hv: "header_view h ?P = ((base p)\<lparr>seqnum := dv_seqnum (se_dev c x), devid := dv_devid (se_dev c x)\<rparr>,
      Cmd_Submit ((get_cmd_submit h p)\<lparr>cs_transfer_buffer_length := of_nat (length bs)\<rparr>))"
    by (rule request_view [OF p])
  have br: "base ?r = (base p)\<lparr>seqnum := dv_seqnum (se_dev c x), devid := dv_devid (se_dev c x)\<rparr>"
    using view hv by (simp add: header_view_def)
  have cs: "get_cmd_submit g ?r = \<lparr>cs_transfer_flags = 0, cs_transfer_buffer_length = transfer_buffer_length ?u,
     cs_start_frame = start_frame ?u, cs_number_of_packets = number_of_packets ?u, cs_interval = u_interval ?u, cs_setup = sent_setup ?u\<rparr>"
    unfolding lk using view hv br p(2) by (simp add: header_view_def) (simp add: p_def sp_def half_of_nat)
  have "pend w = send_header h ?P @ cmd_submit_data ?u @ rest"
    unfolding assms(19) sent lk by (simp add: dir USBIP_DIR_IN_def USBIP_DIR_OUT_def)
  from recv_whole_header [OF assms(7,8) wf this]
  obtain w1 where w1: "usbip_recv k (Some s) True (int sizeof_header) w = (int sizeof_header, send_header h ?P, w1)"
    "pend w1 = cmd_submit_data ?u @ rest" by blast
  have v: "valid_request d ?r" "command (base ?r) = USBIP_CMD_SUBMIT"
    using br p(2) assms(13,14) by (simp_all add: valid_request_def)
  have gp: "get_pipe (sd_udev d) (ep (base ?r)) (direction (base ?r)) = Some pipe"
    using assms(17) br dir by (simp add: inp_def split: if_splits)
  have pin: "usb_pipein pipe = usb_pipein (u_pipe ?u)"
    unfolding lk using get_pipe_in [OF gp assms(16)] br dir by (simp add: USBIP_DIR_IN_def USBIP_DIR_OUT_def)
  have ids: "ids_below d" using assms(10) by (simp add: stub_inv_def)
  have len: "unat (transfer_buffer_length ?u) < 2 ^ 31" using assms(4) by (simp only: lk(3))
  from stub_builds_urb [OF assms(7-9,12,11) ids len lk(8) w1(2) gp assms(18) pin cs]
  obtain m w2 where b: "stub_build_urb g k d ?r None w1 =
    (Some (sd_next d, remote_urb pipe (0 AND m) ?u), queued d (ucast (seqnum (base ?r))) (remote_urb pipe (0 AND m) ?u), w2)" by blast
  let ?U = "control_urb pipe inp sp bs"
  have b2: "stub_build_urb g k d ?r None w1 = (Some (sd_next d, ?U), queued d (ucast (seqnum (base ?r))) ?U, w2)"
    using b by (simp add: lk)
  obtain w3 where w3: "usb_submit_urb k (sd_next d) ?U w2 = (0, w3)" using host_okD(3) [OF assms(9)] by blast
  have f: "ud_filters (queued d sq ?U) = []" "sd_flight (queued d sq ?U) = sd_flight d" for sq
    using assms(15) by (simp_all add: queued_def)
  have "stub_rx_pdu g k d w = stub_recv_cmd_submit g k d ?r w1"
    using w1(1) v assms(12) header_in_place [OF wf, of g h] by (simp add: stub_rx_pdu_def command_defs)
  also have "\<dots> = ((queued d (ucast (seqnum (base ?r))) ?U)\<lparr>sd_flight := sd_next d # sd_flight d\<rparr>, w3)"
    using b2 w3 f put_urb_queued [OF ids] by (simp add: stub_recv_cmd_submit_def stub_submit_urb_def Let_def)
  finally show ?thesis using br by (auto simp: inp_def sp_def)
qed

definition link_session :: "unit csession" where
  "link_session = wit_session\<lparr>se_dev := (\<lambda>_. wit_device\<lparr>dv_devid := 65541\<rparr>)\<rparr>"

definition link_sent :: "unit csession" where
  "link_sent = snd (run_state (status_cb wit_api Big 2 0) (snd (run_state (session_notify wit_api Big)
     (snd (run_state (libusbip_control_msg Big 0 0x80 6 0x100 0 [0, 0] 0 True) link_session)))))"

theorem client_message_reaches_device_witness:
  "\<exists>w'. stub_rx_pdu Little sim_k conn_demo (sim0\<lparr>sim_in := [dv_sent (se_dev link_sent 0)]\<rparr>) =
    ((queued conn_demo 6 (control_urb 0x80000580 True (setup_packet_bytes 0x80 6 0x100 0 2) [0, 0]))\<lparr>sd_flight := [0]\<rparr>, w')"
proof -
  have r: "run_state (libusbip_control_msg Big 0 0x80 6 0x100 0 [0, 0] 0 True) link_session =
      (2, snd (run_state (libusbip_control_msg Big 0 0x80 6 0x100 0 [0, 0] 0 True) link_session))"
    by (simp add: libusbip_control_msg_def run_submit_urb link_session_def wit_session_def)
  have gp: "get_pipe (sd_udev conn_demo) 0 USBIP_DIR_IN = Some 0x80000580"
    by (simp add: conn_demo_def sdev_demo_eq get_pipe_def ep_at_def udev_demo_def USBIP_DIR_IN_def USBIP_DIR_OUT_def
        usb_endpoint_type_def xfer_defs usb_rcvpipe_def pipe_type_defs)
  have i: "\<not> usb_pipeisoc 0x80000580" by (simp add: usb_pipeisoc_def usb_pipetype_def pipe_type_defs)
  have c: "fst (uv_write wit_api b x)" "se_queue link_session = []" "sd_devid conn_demo = dv_devid (se_dev link_session 0)"
    "dv_sent (se_dev link_session 0) = []" "dv_seqnum (se_dev link_session 0) = 6" for b x
    by (simp_all add: wit_defs link_session_def conn_demo_facts)
  show ?thesis
    using client_message_reaches_device [OF c(1,2) _ _ r link_sent_def sim_recv_stream sim_recv_progress sim_host_ok conn_demo_facts(1-4) c(3)
        conn_demo_facts(6,7) _ i, of "sim0\<lparr>sim_in := [dv_sent (se_dev link_sent 0)]\<rparr>" "[]" Little] gp
    by (simp add: c conn_demo_facts)
qed

text \<open>C4. The result crosses the network back. When the bytes the stub sends for a urb that read data from its
  device arrive at the client library, cut in whatever pieces, the transfer with that number is completed: the buffer of the
  caller holds the data of the device, and the length is stored.\<close>

theorem device_result_completes_transfer:
  assumes "expects_header x w s" and "dv_read_list (se_dev s x) = w # rs"
    and "awaited x us u vs uw (ub_seqnum (se_urb s u)) s" and "u \<notin> set us" and "ub_direction (se_urb s u) = USBIP_DIR_IN"
    and "uw \<noteq> w" and "1 < wk_ref (se_work s uw)"
    and "sp_seqnum q = ucast (ub_seqnum (se_urb s u))" and "sp_urb q = Some b" and "usb_pipein (u_pipe b)"
    and "\<not> usb_pipeisoc (u_pipe b)" and "transfer_buffer b = Some a" and "u_status b = 0" and "n = unat (actual_length b)"
    and "0 < n" and "n < 2 ^ 31" and "n \<le> length a" and "n \<le> length (ub_data (se_urb s u))"
    and "hs \<noteq> []" and "last hs \<noteq> []" and "concat hs = take sizeof_header (ret_submit_bytes g q)"
    and "ds \<noteq> []" and "last ds \<noteq> []" and "concat ds = drop sizeof_header (ret_submit_bytes g q)"
    and "t = snd (run_state (feed k h w ds) (snd (run_state (feed k h w hs) s)))"
  shows "ub_data (se_urb t u) = take n a @ drop n (ub_data (se_urb s u)) \<and> ub_ret (se_urb t u) = actual_length b \<and>
    wk_state (se_work t uw) = ws_done \<and> wk_ret (se_work t uw) = wk_ret (se_work s uw) \<and>
    dv_urb_list (se_dev t x) = us @ vs \<and> expects_header x w t \<and> se_fault t = se_fault s"
proof -
  let ?P = "setup_ret_submit_pdu g zero_header (sp_seqnum q) b"
  have wf: "wf_header ?P" by (simp add: setup_ret_submit_pdu_def)
  have bP: "base ?P = setup_base_pdu USBIP_RET_SUBMIT (ub_seqnum (se_urb s u))"
    using assms(8) by (simp add: setup_ret_submit_pdu_def ucast_down_up)
  have c: "command (base ?P) = USBIP_RET_SUBMIT" "seqnum (base ?P) = ub_seqnum (se_urb s u)" by (simp_all add: bP setup_base_pdu_def)
  have r: "get_ret_submit g ?P = \<lparr>rs_status = u_status b, rs_actual_length = actual_length b, rs_start_frame = start_frame b,
      rs_number_of_packets = number_of_packets b, rs_error_count = error_count b\<rparr>"
    by (simp add: setup_ret_submit_pdu_def get_pack_ret)
  have "0 < actual_length b" using assms(14,15) by (metis unat_0 less_irrefl word_neq_0_conv)
  then have d: "fst (ret_submit_data b) = take n a"
    using assms(10-12,14) by (simp add: ret_submit_data_def usb_pipeisoc_def buf_read_def slice_def)
  have bytes: "ret_submit_bytes g q = send_header g ?P @ take n a"
    using assms(9,11) d by (simp add: ret_submit_bytes_def send_header_def usb_pipeisoc_def)
  have hs: "concat hs = send_header g ?P" and ds: "concat ds = take n a"
    using assms(21,24) length_send_header [OF wf] by (simp_all add: bytes)
  have l: "length (take n a) = n" using assms(17) by simp
  have al: "rs_actual_length (get_ret_submit g ?P) = of_nat (length (take n a))" using assms(14,17) by (simp add: r)
  have st: "rs_status (get_ret_submit g ?P) = 0" using assms(13) by (simp add: r)
  have len: "length (take n a) < 2 ^ 31" "length (take n a) \<le> length (ub_data (se_urb s u))" using assms(16,18) l by simp_all
  have a: "awaited x us u vs uw (seqnum (base ?P)) s" using assms(3) by (simp add: c)
  note main = result_completes [OF assms(1,2) wf c(1) st al len(1) a assms(4,5) len(2) assms(6,7,19,20) hs assms(22,23) ds assms(25)]
  have "of_nat n = actual_length b" using assms(14) by simp
  then show ?thesis using main l by simp
qed

definition asking_session :: "unit csession" where
  "asking_session = wit_session\<lparr>se_urb := (\<lambda>_. (new_curb 0 (transfer_header 0x81) [0, 0, 0])\<lparr>ub_work := Some 1, ub_seqnum := 1,
     ub_direction := USBIP_DIR_IN\<rparr>)\<rparr>"

theorem device_result_completes_transfer_witness:
  "\<exists>t. t = snd (run_state (feed wit_api Little 0 [[9], [8]])
        (snd (run_state (feed wit_api Little 0 (halves (take sizeof_header (ret_submit_bytes Big done_demo)))) asking_session))) \<and>
     ub_data (se_urb t 0) = [9, 8, 0] \<and> ub_ret (se_urb t 0) = 2 \<and> wk_state (se_work t 1) = ws_done \<and> wk_ret (se_work t 1) = 0"
proof -
  let ?v = "(new_urb 0)\<lparr>u_pipe := 0x80000580, actual_length := 2, transfer_buffer := Some [9, 8]\<rparr>"
  have v: "sp_urb done_demo = Some ?v" "usb_pipein (u_pipe ?v)" "\<not> usb_pipeisoc (u_pipe ?v)" "transfer_buffer ?v = Some [9, 8]"
    "u_status ?v = 0" "2 = unat (actual_length ?v)" "sp_seqnum done_demo = 1"
    by (simp_all add: done_demo_def new_urb_def usb_pipein_def usb_pipeisoc_def usb_pipetype_def pipe_type_defs)
  let ?P = "setup_ret_submit_pdu Big zero_header (sp_seqnum done_demo) ?v"
  have wf: "wf_header ?P" by (simp add: setup_ret_submit_pdu_def)
  have b: "ret_submit_bytes Big done_demo = send_header Big ?P @ [9, 8]"
    using v(2,3) by (simp add: ret_submit_bytes_def v(1) send_header_def ret_submit_data_def usb_pipeisoc_def buf_read_def slice_def)
  have l: "length (send_header Big ?P) = sizeof_header" by (rule length_send_header [OF wf])
  have d: "concat [[9], [8]] = drop sizeof_header (ret_submit_bytes Big done_demo)" "20 < length (take sizeof_header (ret_submit_bytes Big done_demo))"
    using l by (simp_all add: b sizeof_header_def)
  let ?t = "snd (run_state (feed wit_api Little 0 [[9], [8]])
        (snd (run_state (feed wit_api Little 0 (halves (take sizeof_header (ret_submit_bytes Big done_demo)))) asking_session)))"
  have s: "expects_header 0 0 asking_session" "dv_read_list (se_dev asking_session 0) = 0 # []"
    "awaited 0 [] 0 [] 1 (ub_seqnum (se_urb asking_session 0)) asking_session" "0 \<notin> set ([] :: nat list)" "ub_direction (se_urb asking_session 0) = USBIP_DIR_IN"
    "(1 :: nat) \<noteq> 0" "1 < wk_ref (se_work asking_session 1)" "sp_seqnum done_demo = ucast (ub_seqnum (se_urb asking_session 0))"
    by (simp_all add: asking_session_def wit_defs v(7))
  have n: "(0 :: nat) < 2" "(2 :: nat) < 2 ^ 31" "2 \<le> length [9, 8 :: byte]" "2 \<le> length (ub_data (se_urb asking_session 0))"
    by (simp_all add: asking_session_def wit_defs)
  have p: "[[9], [8 :: byte]] \<noteq> []" "last [[9], [8 :: byte]] \<noteq> []" by simp_all
  from device_result_completes_transfer [OF s v(1-6) n wit_halves(1,3) wit_halves(2) p d(1) refl, of wit_api Little] d(2)
  show ?thesis by (simp add: asking_session_def wit_defs)
qed

end
