(* ===== verification/ClientHosts.thy ===== *)
theory ClientHosts
  imports ClientSession "HOL-Library.Multiset"
begin

text \<open>
  The hosts of the client library (\<^verbatim>\<open>userspace/client/client.c\<close>): the list that \<open>libusbip_add_hosts\<close>,
  \<open>libusbip_remove_hosts\<close> and \<open>libusbip_find_hosts\<close> keep, and the loop of \<open>libusbip_init\<close> that fills it from the variable
  \<open>LIBUSBIP_HOSTS\<close>. A string is a list of characters without its NUL; \<open>hp_fault\<close> is set where the loop writes past its
  buffer or reads before the string, and has no counterpart in C.
\<close>

section \<open>The list of hosts\<close>

record host =
  ho_addr :: string
  ho_port :: s32

record host_list =
  hl_hosts :: "host list"
  hl_count :: nat

definition no_hosts :: host_list where
  "no_hosts = \<lparr>hl_hosts = [], hl_count = 0\<rparr>"

definition libusbip_add_hosts :: "host list \<Rightarrow> host_list \<Rightarrow> host_list" where
  "libusbip_add_hosts hs l =
     fold (\<lambda>h l. l\<lparr>hl_hosts := h # hl_hosts l\<rparr>) hs (l\<lparr>hl_count := hl_count l + length hs\<rparr>)"

primrec remove_host :: "host \<Rightarrow> host list \<Rightarrow> host list option" where
  "remove_host h [] = None"
| "remove_host h (x # xs) =
     (if ho_port h \<noteq> ho_port x \<or> ho_addr h \<noteq> ho_addr x then map_option ((#) x) (remove_host h xs) else Some xs)"

text \<open>The result is 0 when a host was removed.\<close>

definition libusbip_remove_hosts :: "host list \<Rightarrow> host_list \<Rightarrow> s32 \<times> host_list" where
  "libusbip_remove_hosts hs l =
     fold (\<lambda>h (r, l). case remove_host h (hl_hosts l) of
         None \<Rightarrow> (r, l)
       | Some xs \<Rightarrow> (0, l\<lparr>hl_hosts := xs, hl_count := hl_count l - 1\<rparr>)) hs (- 1, l)"

text \<open>The hosts found and their number; \<open>None\<close> when more are stored than there is room for.\<close>

definition libusbip_find_hosts :: "host_list \<Rightarrow> (host list \<times> nat) option" where
  "libusbip_find_hosts l =
     (if hl_count l < length (hl_hosts l) then None else Some (hl_hosts l, length (hl_hosts l)))"

section \<open>The variable LIBUSBIP_HOSTS\<close>

record host_parse =
  hp_pos :: nat
  hp_running :: bool
  hp_list :: host_list
  hp_fault :: bool

text \<open>\<open>strchr\<close> from the place \<open>i\<close>, as an offset from there.\<close>

fun strchr :: "char \<Rightarrow> string \<Rightarrow> nat option" where
  "strchr c [] = None"
| "strchr c (x # xs) = (if x = c then Some 0 else map_option Suc (strchr c xs))"

definition sizeof_addr :: nat where "sizeof_addr = 64"
definition sizeof_tmp :: nat where "sizeof_tmp = 20"

text \<open>The length of the name as a \<open>size_t\<close>, and whether the port is taken from the buffer \<open>tmp\<close>, from the string, or
  not at all. \<open>sscanf\<close> starts at the slash and so converts nothing; when no character is copied into \<open>tmp\<close>, it reads what
  was there, whose number is \<open>junk\<close>.\<close>

definition host_length :: "string \<Rightarrow> 64 word" where
  "host_length s = (case strchr (CHR '';'') s of
      Some e \<Rightarrow> (case strchr (CHR ''/'') s of
          Some p \<Rightarrow> if p < e then of_nat p - 1 else of_nat e
        | None \<Rightarrow> of_nat e)
    | None \<Rightarrow> (case strchr (CHR ''/'') s of Some p \<Rightarrow> of_nat p | None \<Rightarrow> of_nat (length s)))"

definition tmp_length :: "string \<Rightarrow> nat option" where
  "tmp_length s = (case (strchr (CHR '';'') s, strchr (CHR ''/'') s) of
      (Some e, Some p) \<Rightarrow> if p < e then Some (e - p - 1) else None
    | _ \<Rightarrow> None)"

definition host_port :: "s32 \<Rightarrow> string \<Rightarrow> s32" where
  "host_port junk s = (if tmp_length s = Some 0 then junk else 0)"

text \<open>The character \<open>hosts[len]\<close>, where the address wraps; \<open>None\<close> outside of the string and its NUL.\<close>

definition char_at :: "string \<Rightarrow> nat \<Rightarrow> 64 word \<Rightarrow> char option" where
  "char_at str i n = (let j = unat (of_nat i + n) in
     if j < length str then Some (str ! j) else if j = length str then Some (CHR 0x00) else None)"

definition parse_host :: "s32 \<Rightarrow> string \<Rightarrow> host_parse \<Rightarrow> host_parse" where
  "parse_host junk str x =
     (let s = drop (hp_pos x) str; n = host_length s;
          x1 = (case tmp_length s of Some m \<Rightarrow> if sizeof_tmp < m then x\<lparr>hp_fault := True\<rparr> else x | None \<Rightarrow> x);
          x2 = (if sizeof_addr \<le> unat n then x1
                else x1\<lparr>hp_list := libusbip_add_hosts [\<lparr>ho_addr = take (unat n) s, ho_port = host_port junk s\<rparr>] (hp_list x1)\<rparr>)
      in case char_at str (hp_pos x) n of
           None \<Rightarrow> x2\<lparr>hp_fault := True, hp_running := False\<rparr>
         | Some c \<Rightarrow> if c = CHR 0x00 then x2\<lparr>hp_running := False\<rparr>
                     else x2\<lparr>hp_pos := unat (of_nat (hp_pos x) + n + 1)\<rparr>)"

text \<open>The loop; \<open>None\<close> when it runs for ever.\<close>

definition env_hosts :: "s32 \<Rightarrow> string \<Rightarrow> host_list \<Rightarrow> host_parse option" where
  "env_hosts junk str l =
     while_option hp_running (parse_host junk str) \<lparr>hp_pos = 0, hp_running = True, hp_list = l, hp_fault = False\<rparr>"

section \<open>Devices\<close>

text \<open>\<open>libusbip_device_cast\<close>: a pointer is a device when it lies in one of the blocks of \<open>n\<close> bytes.\<close>

definition libusbip_device_cast :: "nat \<Rightarrow> nat list \<Rightarrow> nat \<Rightarrow> nat option" where
  "libusbip_device_cast n blocks p = (if \<exists>b\<in>set blocks. b \<le> p \<and> p < b + n then Some p else None)"

text \<open>\<open>libusbip_free_devices_info\<close>: the pointers given to \<open>free\<close>, for the array \<open>info\<close> of elements with the pointers
  \<open>ps\<close>. The index is not used.\<close>

definition libusbip_free_devices_info :: "nat \<Rightarrow> nat list \<Rightarrow> nat \<Rightarrow> nat list" where
  "libusbip_free_devices_info info ps n = map (\<lambda>i. hd ps) [0..<n] @ [info]"

section \<open>The list\<close>

definition counted :: "host_list \<Rightarrow> bool" where
  "counted l \<longleftrightarrow> hl_count l = length (hl_hosts l)"

lemma add_hosts_fold:
  "hl_hosts (fold (\<lambda>h l. l\<lparr>hl_hosts := h # hl_hosts l\<rparr>) hs l) = rev hs @ hl_hosts l"
  "hl_count (fold (\<lambda>h l. l\<lparr>hl_hosts := h # hl_hosts l\<rparr>) hs l) = hl_count l"
  by (induction hs arbitrary: l) auto

lemma add_hosts [simp]:
  "hl_hosts (libusbip_add_hosts hs l) = rev hs @ hl_hosts l"
  "hl_count (libusbip_add_hosts hs l) = hl_count l + length hs"
  by (simp_all add: libusbip_add_hosts_def add_hosts_fold)

lemma remove_host_mset: "remove_host h xs = Some ys \<Longrightarrow> mset xs = add_mset h (mset ys)"
proof (induction xs arbitrary: ys)
  case (Cons x xs)
  then show ?case
  proof (cases "ho_port h \<noteq> ho_port x \<or> ho_addr h \<noteq> ho_addr x")
    case True
    then obtain zs where "remove_host h xs = Some zs" "ys = x # zs" using Cons.prems by auto
    then show ?thesis using Cons.IH by simp
  next
    case False
    then have "x = h" by (cases x; cases h) simp
    then show ?thesis using Cons.prems False by simp
  qed
qed simp

lemma remove_host_none: "remove_host h xs = None \<longleftrightarrow> h \<notin> set xs"
  by (induction xs) (auto intro: host.equality)

text \<open>Calls of a user, and what they do to the multiset of hosts.\<close>

datatype host_cmd = Add_hosts "host list" | Remove_hosts "host list"

primrec run_host :: "host_cmd \<Rightarrow> host_list \<Rightarrow> host_list" where
  "run_host (Add_hosts hs) l = libusbip_add_hosts hs l"
| "run_host (Remove_hosts hs) l = snd (libusbip_remove_hosts hs l)"

primrec host_spec :: "host_cmd \<Rightarrow> host multiset \<Rightarrow> host multiset" where
  "host_spec (Add_hosts hs) m = m + mset hs"
| "host_spec (Remove_hosts hs) m = m - mset hs"

lemma remove_hosts_spec:
  assumes "counted l" and "fold (\<lambda>h (r, l). case remove_host h (hl_hosts l) of None \<Rightarrow> (r, l)
       | Some xs \<Rightarrow> (0, l\<lparr>hl_hosts := xs, hl_count := hl_count l - 1\<rparr>)) hs (r, l) = (r', l')"
  shows "counted l' \<and> mset (hl_hosts l') = mset (hl_hosts l) - mset hs"
  using assms
proof (induction hs arbitrary: r l)
  case (Cons h hs)
  show ?case
  proof (cases "remove_host h (hl_hosts l)")
    case None
    then have "mset (hl_hosts l) - {#h#} = mset (hl_hosts l)" by (simp add: remove_host_none)
    then have "mset (hl_hosts l) - add_mset h (mset hs) = mset (hl_hosts l) - mset hs"
      by (metis add_mset_add_single diff_diff_add_mset diff_right_commute)
    then show ?thesis using Cons.IH [OF Cons.prems(1)] Cons.prems(2) None by simp
  next
    case (Some xs)
    note m = remove_host_mset [OF Some]
    then have "length (hl_hosts l) = Suc (length xs)" by (metis size_mset size_add_mset)
    then have "counted (l\<lparr>hl_hosts := xs, hl_count := hl_count l - 1\<rparr>)" using Cons.prems(1) by (simp add: counted_def)
    from Cons.IH [OF this] Cons.prems(2) Some m show ?thesis by simp
  qed
qed simp

lemma run_host_spec:
  "counted l \<Longrightarrow> counted (run_host c l) \<and> mset (hl_hosts (run_host c l)) = host_spec c (mset (hl_hosts l))"
proof (cases c)
  case (Remove_hosts hs)
  assume l: "counted l"
  obtain r' l' where f: "libusbip_remove_hosts hs l = (r', l')" by (rule prod.exhaust)
  show ?thesis using remove_hosts_spec [OF l f [unfolded libusbip_remove_hosts_def]] by (simp add: Remove_hosts f)
qed (simp add: counted_def ac_simps)

lemma run_hosts_spec:
  "counted l \<Longrightarrow> counted (fold run_host cs l) \<and> mset (hl_hosts (fold run_host cs l)) = fold host_spec cs (mset (hl_hosts l))"
proof (induction cs arbitrary: l)
  case (Cons c cs)
  then show ?case using run_host_spec [of l c] by simp
qed simp

text \<open>The hosts found are those added and not removed, with their multiplicity, and the array made
  for them has room for all of them, whatever calls were made before.\<close>

theorem hosts_found:
  "\<exists>hs. libusbip_find_hosts (fold run_host cs no_hosts) = Some (hs, length hs) \<and> mset hs = fold host_spec cs {#}"
  using run_hosts_spec [of no_hosts cs] by (simp add: counted_def no_hosts_def libusbip_find_hosts_def)

section \<open>The variable\<close>

fun join_hosts :: "string list \<Rightarrow> string" where
  "join_hosts [] = []"
| "join_hosts [a] = a"
| "join_hosts (a # b # r) = a @ CHR '';'' # join_hosts (b # r)"

definition plain_name :: "string \<Rightarrow> bool" where
  "plain_name a \<longleftrightarrow> CHR '';'' \<notin> set a \<and> CHR ''/'' \<notin> set a \<and> CHR 0x00 \<notin> set a \<and> length a < sizeof_addr"

lemma strchr_none: "c \<notin> set s \<Longrightarrow> strchr c s = None"
  by (induction s) auto

lemma strchr_some: "c \<notin> set a \<Longrightarrow> strchr c (a @ c # r) = Some (length a)"
  by (induction a) auto

lemma slash_free: "\<forall>a\<in>set ns. plain_name a \<Longrightarrow> CHR ''/'' \<notin> set (join_hosts ns) \<and> CHR 0x00 \<notin> set (join_hosts ns)"
  by (induction ns rule: join_hosts.induct) (auto simp: plain_name_def)

lemma next_pos: "i + n < 2 ^ 63 \<Longrightarrow> unat (of_nat i + (of_nat n :: 64 word)) = i + n"
  "i + n < 2 ^ 63 \<Longrightarrow> unat (of_nat i + (of_nat n :: 64 word) + 1) = Suc (i + n)"
proof -
  assume "i + n < 2 ^ 63"
  then show "unat (of_nat i + (of_nat n :: 64 word)) = i + n"
    by (simp flip: of_nat_add add: unsigned_of_nat take_bit_nat_eq_self)
next
  assume n: "i + n < 2 ^ 63"
  have "of_nat i + (of_nat n :: 64 word) + 1 = of_nat (Suc (i + n))" by simp
  then show "unat (of_nat i + (of_nat n :: 64 word) + 1) = Suc (i + n)"
    using n by (simp only:) (simp add: unsigned_of_nat take_bit_nat_eq_self del: of_nat_Suc)
qed

lemma while_option_step: "b s \<Longrightarrow> while_option b c s = while_option b c (c s)"
  by (subst while_option_unfold) simp

text \<open>The loop from a place where a list of names is left.\<close>

lemma parse_names:
  assumes "ns \<noteq> []" and "\<forall>a\<in>set ns. plain_name a" and "length (pre @ join_hosts ns) < 2 ^ 62"
  shows "while_option hp_running (parse_host junk (pre @ join_hosts ns))
      \<lparr>hp_pos = length pre, hp_running = True, hp_list = l, hp_fault = f\<rparr> =
    Some \<lparr>hp_pos = length (pre @ join_hosts ns) - length (last ns), hp_running = False,
      hp_list = libusbip_add_hosts (map (\<lambda>a. \<lparr>ho_addr = a, ho_port = 0\<rparr>) ns) l, hp_fault = f\<rparr>"
  using assms
proof (induction ns arbitrary: pre l rule: join_hosts.induct)
  case (2 a)
  then have p: "plain_name a" by simp
  then have s: "strchr (CHR '';'') a = None" "strchr (CHR ''/'') a = None" by (simp_all add: plain_name_def strchr_none)
  have n: "host_length a = of_nat (length a)" "unat (of_nat (length a) :: 64 word) = length a"
    using 2 by (simp_all add: host_length_def s unsigned_of_nat take_bit_nat_eq_self)
  have "parse_host junk (pre @ a) \<lparr>hp_pos = length pre, hp_running = True, hp_list = l, hp_fault = f\<rparr> =
     \<lparr>hp_pos = length pre, hp_running = False, hp_list = libusbip_add_hosts [\<lparr>ho_addr = a, ho_port = 0\<rparr>] l, hp_fault = f\<rparr>"
    using 2 p next_pos [of "length pre" "length a"]
    by (simp add: parse_host_def Let_def n plain_name_def host_port_def tmp_length_def s char_at_def)
  then show ?case by (subst while_option_unfold) (simp add: while_option_unfold)
next
  case (3 a b r)
  define t where "t = join_hosts (b # r)"
  have p: "plain_name a" and ps: "\<forall>x\<in>set (b # r). plain_name x" using 3 by auto
  have s: "strchr (CHR '';'') (a @ CHR '';'' # t) = Some (length a)" "strchr (CHR ''/'') (a @ CHR '';'' # t) = None"
    using p slash_free [OF ps] by (simp_all add: plain_name_def strchr_some strchr_none t_def)
  have n: "unat (of_nat (length a) :: 64 word) = length a" "host_length (a @ CHR '';'' # t) = of_nat (length a)"
    using 3(4) by (simp_all add: host_length_def s unsigned_of_nat take_bit_nat_eq_self)
  have c: "char_at (pre @ a @ CHR '';'' # t) (length pre) (of_nat (length a)) = Some (CHR '';'')"
    using 3(4) next_pos(1) [of "length pre" "length a"] by (simp add: char_at_def Let_def nth_append)
  have u: "unat (of_nat (length pre) + (of_nat (length a) :: 64 word) + 1) = length (pre @ a @ [CHR '';''])"
    using 3(4) next_pos(2) [of "length pre" "length a"] by simp
  have "parse_host junk (pre @ a @ CHR '';'' # t) \<lparr>hp_pos = length pre, hp_running = True, hp_list = l, hp_fault = f\<rparr> =
     \<lparr>hp_pos = length (pre @ a @ [CHR '';'']), hp_running = True, hp_list = libusbip_add_hosts [\<lparr>ho_addr = a, ho_port = 0\<rparr>] l,
      hp_fault = f\<rparr>"
    using p unfolding parse_host_def Let_def
    by (simp add: n c u [simplified] plain_name_def host_port_def tmp_length_def s)
  moreover have "length ((pre @ a @ [CHR '';'']) @ join_hosts (b # r)) < 2 ^ 62" using 3(4) by simp
  note IH = 3(1) [OF _ ps this, of "libusbip_add_hosts [\<lparr>ho_addr = a, ho_port = 0\<rparr>] l"]
  moreover have "libusbip_add_hosts hs (libusbip_add_hosts [h] l) = libusbip_add_hosts (h # hs) l" for h hs l
    by (rule host_list.equality) simp_all
  ultimately show ?case using IH
    by (subst while_option_step) (simp_all flip: t_def)
qed simp

text \<open>A list of names without a slash, separated by semicolons, becomes the list of hosts, the last one
  first and each with the default port; nothing else is read or written.\<close>

theorem env_hosts_parsed:
  assumes "ns \<noteq> []" and "\<forall>a\<in>set ns. plain_name a" and "length (join_hosts ns) < 2 ^ 62"
  shows "\<exists>x. env_hosts junk (join_hosts ns) l = Some x \<and> \<not> hp_fault x \<and>
    hl_hosts (hp_list x) = rev (map (\<lambda>a. \<lparr>ho_addr = a, ho_port = 0\<rparr>) ns) @ hl_hosts l \<and>
    hl_count (hp_list x) = hl_count l + length ns"
  using parse_names [OF assms(1,2), of "[]" junk l False] assms(3) by (simp add: env_hosts_def)

text \<open>The loop does not end from a state that its body keeps.\<close>

lemma while_option_stuck:
  assumes "b s" and "c s = s"
  shows "while_option b c s = None"
proof -
  have "(c ^^ n) s = s" for n by (induction n) (simp_all add: assms(2))
  then show ?thesis using assms(1) by (simp add: while_option_def)
qed

text \<open>C23. A host with a port that is followed by another host makes the initialisation run for ever: the
  length before the slash is one too small, so that the next round starts at the slash, where the length wraps and the
  position stays.\<close>

theorem env_port_hangs:
  assumes "CHR ''/'' \<notin> set a" and "CHR '';'' \<notin> set (a @ n)" and "a \<noteq> []" and "n \<noteq> []" and "length n \<le> sizeof_tmp"
    and "length (a @ n) < 2 ^ 62" and "CHR 0x00 \<notin> set a"
  shows "env_hosts junk (a @ CHR ''/'' # n @ CHR '';'' # rest) l = None"
proof -
  define str where "str = a @ CHR ''/'' # n @ CHR '';'' # rest"
  define k where "k = length a"
  have k: "0 < k" "k + length n < 2 ^ 62" using assms(3,6) by (simp_all add: k_def)
  define w where "w = (of_nat k - 1 :: 64 word)"
  have w: "w = of_nat (k - 1)" using k(1) by (simp add: w_def of_nat_diff)
  have s0: "strchr (CHR '';'') str = Some (Suc (k + length n))" "strchr (CHR ''/'') str = Some k"
    using assms(1,2) strchr_some [of "CHR '';''" "a @ CHR ''/'' # n" rest] strchr_some [of "CHR ''/''" a "n @ CHR '';'' # rest"]
    by (simp_all add: str_def k_def)
  have s1: "strchr (CHR '';'') (drop k str) = Some (Suc (length n))" "strchr (CHR ''/'') (drop k str) = Some 0"
    using assms(2) strchr_some [of "CHR '';''" "CHR ''/'' # n" rest] by (simp_all add: str_def k_def)
  have len: "k < length str" by (simp add: str_def k_def)
  have "a ! (k - 1) \<in> set a" using assms(3) by (simp add: k_def)
  then have "a ! (k - 1) \<noteq> CHR 0x00" using assms(7) by metis
  then have nz: "str ! (k - 1) \<noteq> CHR 0x00" using assms(3) by (simp add: str_def k_def nth_append)
  define x0 where "x0 = \<lparr>hp_pos = 0, hp_running = True, hp_list = l, hp_fault = False\<rparr>"
  define x1 where "x1 = parse_host junk str x0"
  have m: "unat (of_nat k - (1 :: 64 word)) = k - 1"
  proof -
    have "unat (of_nat (k - 1) :: 64 word) = k - 1" using k(2) by (simp only: unsigned_of_nat) (simp add: take_bit_nat_eq_self)
    then show ?thesis by (simp only: w [unfolded w_def])
  qed
  have c0: "char_at str 0 w = Some (str ! (k - 1))"
    using k len by (auto simp: char_at_def w_def Let_def m)
  have p1: "unat (w + 1) = k" using k by (simp add: w_def unsigned_of_nat take_bit_nat_eq_self)
  have x1: "hp_pos x1 = k" "hp_running x1"
    using s0 c0 nz p1 assms(5) unfolding x1_def x0_def parse_host_def Let_def
    by (auto simp: host_length_def tmp_length_def w_def [symmetric] split: if_splits)
  have c1: "char_at str k (- 1) = Some (str ! (k - 1))"
    using k len by (auto simp: char_at_def Let_def m)
  have neg: "unat (- 1 :: 64 word) = 2 ^ 64 - 1" by (simp add: unsigned_minus_1_eq_mask mask_eq_exp_minus_1)
  have kk: "unat (of_nat k :: 64 word) = k" using k by (simp add: unsigned_of_nat take_bit_nat_eq_self)
  have "parse_host junk str x1 = x1"
    using s1 c1 nz x1 assms(5) k unfolding parse_host_def Let_def
    by (simp add: host_length_def tmp_length_def sizeof_addr_def sizeof_tmp_def neg kk)
  then have n: "while_option hp_running (parse_host junk str) x1 = None" by (intro while_option_stuck) (simp_all add: x1)
  have "hp_running x0" by (simp add: x0_def)
  then have "while_option hp_running (parse_host junk str) x0 = None"
    by (rule while_option_None_step) (rule n [unfolded x1_def])
  then show ?thesis by (simp only: env_hosts_def x0_def str_def)
qed

theorem env_hosts_parsed_witness:
  "\<exists>x. env_hosts 7 ''alpha;beta'' no_hosts = Some x \<and> map ho_addr (hl_hosts (hp_list x)) = [''beta'', ''alpha'']"
proof -
  have "\<exists>x. env_hosts 7 (join_hosts [''alpha'', ''beta'']) no_hosts = Some x \<and> \<not> hp_fault x \<and>
    hl_hosts (hp_list x) = rev (map (\<lambda>a. \<lparr>ho_addr = a, ho_port = 0\<rparr>) [''alpha'', ''beta'']) @ hl_hosts no_hosts \<and>
    hl_count (hp_list x) = hl_count no_hosts + length [''alpha'', ''beta'']"
    by (rule env_hosts_parsed) (auto simp: plain_name_def sizeof_addr_def)
  then show ?thesis by (auto simp: no_hosts_def)
qed

theorem env_port_hangs_witness: "env_hosts 7 ''alpha/3240;beta'' no_hosts = None"
  using env_port_hangs [of "''alpha''" "''3240''" 7 "''beta''" no_hosts] by (simp add: sizeof_tmp_def)

end
