(* ===== verification/ClientInv.thy ===== *)
theory ClientInv
  imports ClientSession
begin

text \<open>
  What holds of every work of the client library in every state a session can reach. A law of single works that
  the few changes of a work keep (locale \<open>work_law\<close>) is kept by every callback and every call of a user.
\<close>

section \<open>Laws of single works\<close>

definition all_works :: "(cwork \<Rightarrow> bool) \<Rightarrow> 'w csession \<Rightarrow> bool" where
  "all_works good s \<longleftrightarrow> (\<forall>w. good (se_work s w))"

named_theorems work_intros \<open>programs that keep a law of single works\<close>

locale work_law =
  fixes good :: "cwork \<Rightarrow> bool"
  assumes other: "good x \<Longrightarrow> wk_state y = wk_state x \<Longrightarrow> wk_armed y = wk_armed x \<Longrightarrow> wk_finished y = wk_finished x \<Longrightarrow>
      wk_timeout y = wk_timeout x \<Longrightarrow> good y"
    and fresh: "good (new_work c t j)"
    and start: "good x \<Longrightarrow> wk_state x = ws_pending \<Longrightarrow>
      good (x\<lparr>wk_state := ws_busy, wk_timer := wk_timeout x > 0, wk_armed := wk_timeout x > 0\<rparr>)"
    and finish: "good x \<Longrightarrow> good (x\<lparr>wk_armed := False, wk_state := ws_done, wk_finished := Suc (wk_finished x)\<rparr>)"
    and stop: "good x \<Longrightarrow> good (x\<lparr>wk_armed := False\<rparr>)"
begin

abbreviation law :: "'w csession \<Rightarrow> bool" where "law \<equiv> all_works good"

lemma change [work_intros]:
  "(\<And>x. wk_state (f x) = wk_state x \<and> wk_armed (f x) = wk_armed x \<and> wk_finished (f x) = wk_finished x \<and> wk_timeout (f x) = wk_timeout x) \<Longrightarrow>
   preserves law (upd_work w f)"
  unfolding upd_work_def by (rule preserves_modify) (auto simp: all_works_def intro: other)

lemma no_work [work_intros]:
  "preserves law (upd_dev d f1)" "preserves law (upd_cu u f2)" "preserves law (upd_req q f3)" "preserves law fault"
  "preserves law (last_error k)"
  unfolding client_parts by (auto intro!: preserves_modify preserves_gets simp: all_works_def)

lemma call [work_intros]: "preserves law (call_uv f)"
  unfolding call_uv_def preserves_def hoare_def by (auto simp: all_works_def split: prod.splits)

lemma refs [work_intros]:
  "preserves law (device_ref d)"
  "preserves law (urb_del u)"
  "preserves law (req_ref q)"
  "preserves law (work_ref w)"
  unfolding device_ref_def urb_del_def req_ref_def work_ref_def
  by (auto intro!: preserves_intros work_intros split: work_cb.split device_pc.split info_pc.split closing.split option.split)

lemma unrefs [work_intros]:
  "preserves law (device_unref d)"
  "preserves law (req_unref q)"
  unfolding device_unref_def req_unref_def
  by (auto intro!: preserves_intros work_intros split: work_cb.split device_pc.split info_pc.split closing.split option.split)

lemma closes [work_intros]:
  "preserves law (DEVICE_CLOSE d)"
  "preserves law (device_info_req_close q)"
  unfolding DEVICE_CLOSE_def device_info_req_close_def
  by (auto intro!: preserves_intros work_intros split: work_cb.split device_pc.split info_pc.split closing.split option.split)

lemma destroy [work_intros]:
  "preserves law (cb_destroy w)"
  unfolding cb_destroy_def
  by (auto intro!: preserves_intros work_intros split: work_cb.split device_pc.split info_pc.split closing.split option.split)

lemma del [work_intros]:
  "preserves law (work_del w)"
  unfolding work_del_def
  by (auto intro!: preserves_intros work_intros split: work_cb.split device_pc.split info_pc.split closing.split option.split)

lemma unref [work_intros]:
  "preserves law (work_unref w)"
  unfolding work_unref_def
  by (auto intro!: preserves_intros work_intros split: work_cb.split device_pc.split info_pc.split closing.split option.split)

lemma timer_close [work_intros]:
  "preserves law (timer_close_cb w)"
  unfolding timer_close_cb_def
  by (auto intro!: preserves_intros work_intros split: work_cb.split device_pc.split info_pc.split closing.split option.split)

lemma ends [work_intros]: "preserves law (work_done w)"
  unfolding work_done_def upd_work_def
  by (intro preserves_bind preserves_modify work_intros) (auto simp: all_works_def intro: finish)

lemma set_err [work_intros]:
  "preserves law (WORK_SET_ERR w e)"
  unfolding WORK_SET_ERR_def
  by (auto intro!: preserves_intros work_intros split: work_cb.split device_pc.split info_pc.split closing.split option.split if_splits)

lemma disarm [work_intros]: "preserves law (upd_work w (\<lambda>x. x\<lparr>wk_armed := False\<rparr>))"
  unfolding upd_work_def by (rule preserves_modify) (auto simp: all_works_def intro: stop)

lemma aborts [work_intros]:
  "preserves law (cb_abort w)"
  unfolding cb_abort_def
  by (auto intro!: preserves_intros work_intros split: work_cb.split device_pc.split info_pc.split closing.split option.split)

lemma exit_abort [work_intros]:
  "preserves law init \<Longrightarrow> preserves law (WORK_EXIT init w)"
  "preserves law init \<Longrightarrow> preserves law (WORK_ABORT init w r)"
  unfolding WORK_ABORT_def WORK_EXIT_def by (auto intro!: preserves_intros work_intros)

lemma blocks [work_intros]:
  "preserves law init \<Longrightarrow> preserves law rest \<Longrightarrow> preserves law (WORK_ASYNC k init w f rest)"
  "preserves law undo \<Longrightarrow> preserves law init \<Longrightarrow> preserves law rest \<Longrightarrow> preserves law (WORK_YIELDED k undo init w rest)"
  "preserves law init \<Longrightarrow> preserves law rest \<Longrightarrow> preserves law (WORK_BEGIN k init w rest)"
  "preserves law init \<Longrightarrow> preserves law rest \<Longrightarrow> preserves law (CHECK_OP_REPLY k init w c code rest)"
  unfolding WORK_ASYNC_def WORK_YIELDED_def WORK_BEGIN_def CHECK_OP_REPLY_def
  by (auto intro!: preserves_intros work_intros)

lemma new [work_intros]: "preserves law (work_new c t j)"
  unfolding work_new_def by (intro preserves_intros preserves_modify) (auto simp: all_works_def intro: fresh)

lemma reading [work_intros]:
  "(\<And>w. preserves law (put w)) \<Longrightarrow> preserves law (READ_PREPARE put w n)"
  "(\<And>w. preserves law (del w)) \<Longrightarrow> preserves law (READ_DONE del w)"
  unfolding READ_PREPARE_def READ_DONE_def by (auto intro!: preserves_intros work_intros)

lemma places [work_intros]:
  "preserves law (under_way w)"
  "preserves law (reader_put d w)"
  "preserves law (reader_del d w)"
  "preserves law (req_reader_put q w)"
  "preserves law (req_reader_del q w)"
  "preserves law (pt_init d)"
  "preserves law (goto d pc)"
  "preserves law (ipt_init q)"
  unfolding under_way_def reader_put_def reader_del_def req_reader_put_def req_reader_del_def pt_init_def goto_def ipt_init_def
  by (auto intro!: preserves_intros work_intros split: work_cb.split device_pc.split info_pc.split closing.split option.split)

lemma calls_of_works [work_intros]:
  "preserves law (libusbip_work_abort w)"
  "preserves law (libusbip_work_close w)"
  "preserves law (work_abort_cb k w t)"
  "preserves law (work_unref_cb w t)"
  "preserves law (session_start_cb)"
  unfolding libusbip_work_abort_def libusbip_work_close_def work_abort_cb_def work_unref_cb_def session_start_cb_def
  by (auto intro!: preserves_intros work_intros split: work_cb.split device_pc.split info_pc.split closing.split option.split)

lemma yield [work_intros]:
  "preserves law (yield_read d w n pc)"
  "preserves law (info_yield q w n ipc)"
  unfolding yield_read_def info_yield_def
  by (auto intro!: preserves_intros work_intros split: work_cb.split device_pc.split info_pc.split closing.split option.split)

lemma headers [work_intros]:
  "preserves law (next_header d w)"
  "preserves law (device_find_urb d)"
  unfolding next_header_def device_find_urb_def
  by (auto intro!: preserves_intros work_intros split: work_cb.split device_pc.split info_pc.split closing.split option.split)

lemma drop [work_intros]:
  "preserves law (drop_read h d w)"
  unfolding drop_read_def
  by (auto intro!: preserves_intros work_intros split: work_cb.split device_pc.split info_pc.split closing.split option.split simp: Let_def)

lemma results [work_intros]:
  "preserves law (urb_finish h d w u)"
  "preserves law (set_actual h d u)"
  unfolding urb_finish_def set_actual_def
  by (auto intro!: preserves_intros work_intros split: work_cb.split device_pc.split info_pc.split closing.split option.split)

lemma result [work_intros]:
  "preserves law (loop_result k h d w u)"
  unfolding loop_result_def
  by (auto intro!: preserves_intros work_intros split: work_cb.split device_pc.split info_pc.split closing.split option.split)

lemma header [work_intros]:
  "preserves law (loop_header k h d w)"
  unfolding loop_header_def
  by (auto intro!: preserves_intros work_intros split: work_cb.split device_pc.split info_pc.split closing.split option.split simp: Let_def)

lemma data [work_intros]:
  "preserves law (loop_dropped h d w)"
  "preserves law (loop_data h d w)"
  unfolding loop_dropped_def loop_data_def
  by (auto intro!: preserves_intros work_intros split: work_cb.split device_pc.split info_pc.split closing.split option.split)

lemma receive [work_intros]:
  "preserves law (device_loop k h d w)"
  unfolding device_loop_def
  by (auto intro!: preserves_intros work_intros split: work_cb.split device_pc.split info_pc.split closing.split option.split)

lemma open_steps [work_intros]:
  "preserves law (open_start k d w)"
  "preserves law (open_connected k h d w)"
  "preserves law (open_replied k h d w)"
  "preserves law (open_closed d)"
  "preserves law (open_imported k h d w)"
  unfolding open_start_def open_connected_def open_replied_def open_closed_def open_imported_def
  by (auto intro!: preserves_intros work_intros split: work_cb.split device_pc.split info_pc.split closing.split option.split simp: Let_def)

lemma devices [work_intros]:
  "preserves law (device_open_cb k h d w)"
  "preserves law (device_close_cb d w)"
  unfolding device_open_cb_def device_close_cb_def
  by (auto intro!: preserves_intros work_intros split: work_cb.split device_pc.split info_pc.split closing.split option.split)

lemma begins [work_intros]:
  "preserves law (urb_begin k h u w)"
  unfolding urb_begin_def
  by (auto intro!: preserves_intros work_intros split: work_cb.split device_pc.split info_pc.split closing.split option.split simp: Let_def)

lemma transfer [work_intros]:
  "preserves law (device_urb_transfer k h u w)"
  unfolding device_urb_transfer_def
  by (auto intro!: preserves_intros work_intros split: work_cb.split device_pc.split info_pc.split closing.split option.split)

lemma info_steps [work_intros]:
  "preserves law (info_start k q w)"
  "preserves law (info_connected k h q w)"
  "preserves law (info_written k q w)"
  "preserves law (info_header k h q w)"
  "preserves law (info_next q w)"
  unfolding info_start_def info_connected_def info_written_def info_header_def info_next_def
  by (auto intro!: preserves_intros work_intros split: work_cb.split device_pc.split info_pc.split closing.split option.split simp: Let_def)

lemma info_more [work_intros]:
  "preserves law (info_reply h q w)"
  "preserves law (info_intfs q w)"
  unfolding info_reply_def info_intfs_def
  by (auto intro!: preserves_intros work_intros split: work_cb.split device_pc.split info_pc.split closing.split option.split simp: Let_def)

lemma info_devs [work_intros]:
  "preserves law (info_udev h q w)"
  "preserves law (info_intf q w)"
  unfolding info_udev_def info_intf_def
  by (auto intro!: preserves_intros work_intros split: work_cb.split device_pc.split info_pc.split closing.split option.split)

lemma infos [work_intros]:
  "preserves law (device_info_req_cb k h q w)"
  unfolding device_info_req_cb_def
  by (auto intro!: preserves_intros work_intros split: work_cb.split device_pc.split info_pc.split closing.split option.split simp: Let_def)

lemma process [work_intros]:
  "preserves law (cb_process k h w)"
  unfolding cb_process_def
  by (auto intro!: preserves_intros work_intros split: work_cb.split device_pc.split info_pc.split closing.split option.split)

lemma notify [work_intros]: "preserves law (session_notify k h)"
proof -
  have s: "preserves law (do {
      x \<leftarrow> gets (\<lambda>s. se_work s w);
      (if wk_state x = ws_pending
       then upd_work w (\<lambda>x. x\<lparr>wk_state := ws_busy, wk_timer := wk_timeout x > 0, wk_armed := wk_timeout x > 0\<rparr>)
       else ret ());
      cb_process k h w
    })" for w
  proof (unfold preserves_def, rule hoareI)
    fix s a t
    assume l: "law s" and run: "run_state (do {
      x \<leftarrow> gets (\<lambda>s. se_work s w);
      (if wk_state x = ws_pending
       then upd_work w (\<lambda>x. x\<lparr>wk_state := ws_busy, wk_timer := wk_timeout x > 0, wk_armed := wk_timeout x > 0\<rparr>)
       else ret ());
      cb_process k h w }) s = (a, t)"
    let ?x = "se_work s w"
    let ?s = "if wk_state ?x = ws_pending
      then s\<lparr>se_work := (se_work s)(w := ?x\<lparr>wk_state := ws_busy, wk_timer := wk_timeout ?x > 0, wk_armed := wk_timeout ?x > 0\<rparr>)\<rparr> else s"
    have "run_state (cb_process k h w) ?s = (a, t)" using run by (simp add: upd_work_def split: if_splits)
    moreover have "law ?s" using l start [of ?x] by (simp add: all_works_def)
    ultimately show "law t" using process [unfolded preserves_def] by (blast dest: hoareD)
  qed
  show ?thesis
    unfolding session_notify_def
    by (auto intro!: preserves_intros preserves_modify s simp: all_works_def)
qed

lemma callbacks [work_intros]:
  "preserves law (timedout_cb k w)"
  "preserves law (status_cb k h w st)"
  "preserves law (read_cb k h w bs)"
  "preserves law (read_error_cb k h w e)"
  unfolding timedout_cb_def status_cb_def read_cb_def read_error_cb_def
  by (auto intro!: preserves_intros work_intros split: work_cb.split device_pc.split info_pc.split closing.split option.split)

lemma cancels [work_intros]: "preserves law (cancel_urbs k d us)" "preserves law (cancel_readers k h ws)"
proof -
  show "preserves law (cancel_urbs k d us)" by (induction us) (auto intro!: preserves_intros work_intros)
  show "preserves law (cancel_readers k h ws)" by (induction ws) (auto intro!: preserves_intros work_intros)
qed

lemma socket_closed [work_intros]:
  "preserves law (socket_close_cb k h d)"
  unfolding socket_close_cb_def
  by (auto intro!: preserves_intros work_intros split: work_cb.split device_pc.split info_pc.split closing.split option.split)

lemma closed [work_intros]:
  "preserves law (closed_cb k h d)"
  "preserves law (device_info_req_close_cb k h q)"
  "preserves law (timer_cb k h d)"
  "preserves law (device_timer_close_cb d)"
  unfolding closed_cb_def device_info_req_close_cb_def timer_cb_def device_timer_close_cb_def
  by (auto intro!: preserves_intros work_intros split: work_cb.split device_pc.split info_pc.split closing.split option.split)

lemma users [work_intros]:
  "preserves law (libusbip_device_open busid bn dn rt to jb)" "preserves law (libusbip_device_close d)" "preserves law (submit_urb d p bs to jb)"
  "preserves law (libusbip_get_devices_info to jb)"
  unfolding libusbip_device_open_def libusbip_device_close_def submit_urb_def libusbip_get_devices_info_def
  by (auto intro!: preserves_intros work_intros preserves_modify simp: all_works_def)

text \<open>Every step of a session keeps the law.\<close>

lemma law_after: "preserves law m \<Longrightarrow> law s \<Longrightarrow> law (snd (run_state m s))"
  unfolding preserves_def hoare_def by (metis prod.collapse)

lemma step_law: "client_step k h s t \<Longrightarrow> law s \<Longrightarrow> law t"
proof (induction rule: client_step.induct)
  case (user m busid bn dn rt to jb d ty rq v i bs e w s)
  then have "preserves law m"
    by (auto simp: libusbip_control_msg_def libusbip_urb_transfer_def intro: work_intros)
  then show ?case using user by (intro law_after)
qed (auto intro!: law_after work_intros)

lemma steps_law: "client_steps k h s t \<Longrightarrow> law s \<Longrightarrow> law t"
  unfolding client_steps_def by (induction rule: rtranclp_induct) (auto intro: step_law)

end

section \<open>Timers and ends\<close>

text \<open>The timer of a work runs only while the work is under way and has a timeout, and a work is marked as done
  exactly when \<open>work_done\<close> was called for it.\<close>

definition timely :: "cwork \<Rightarrow> bool" where
  "timely x \<longleftrightarrow> (wk_armed x \<longrightarrow> wk_state x = ws_busy \<and> 0 < wk_timeout x) \<and> (wk_state x = ws_done \<longleftrightarrow> 0 < wk_finished x)"

interpretation timers: work_law timely
  by unfold_locales (auto simp: timely_def new_work_def)

text \<open>A session as \<open>libusbip_init\<close> leaves it: no device, no transfer, and one work that notes the time.\<close>

definition fresh_session :: "'w \<Rightarrow> 'w csession" where
  "fresh_session w = snd (run_state (work_new Session_start (- 1) False) \<lparr>
     se_work = (\<lambda>_. new_work Session_start (- 1) False), se_dev = (\<lambda>_. new_device [] 0 0 0), se_urb = (\<lambda>_. new_curb 0 zero_header []),
     se_req = (\<lambda>_. new_req), se_queue = [], se_next_work = 0, se_next_dev = 0, se_next_urb = 0, se_next_req = 0,
     se_fault = False, se_world = w\<rparr>)"

lemma fresh_session_timely: "all_works timely (fresh_session w)"
  by (simp add: fresh_session_def work_new_def all_works_def timers.fresh)

text \<open>C20. In every state that a session reaches, whatever the library libuv and the user do, the timer of a
  work runs only while the work is under way and has a timeout, so that no work that is done times out; and a work
  is done exactly when \<open>work_done\<close> was called for it.\<close>

theorem timers_of_works:
  assumes "client_steps k h (fresh_session w) s"
  shows "(wk_armed (se_work s i) \<longrightarrow> wk_state (se_work s i) = ws_busy \<and> 0 < wk_timeout (se_work s i)) \<and>
    (wk_state (se_work s i) = ws_done \<longleftrightarrow> 0 < wk_finished (se_work s i))"
  using timers.steps_law [OF assms fresh_session_timely] by (simp add: all_works_def timely_def)

definition easy_uv :: "unit capi" where
  "easy_uv = \<lparr>uv_tcp_init = (\<lambda>_. (True, ())), uv_tcp_connect = (\<lambda>_. (True, ())), uv_read_start = (\<lambda>_. (True, ())),
     uv_write = (\<lambda>_ _. (True, ())), uv_last_error = (\<lambda>_. 0), uv_ecanceled = 46, uv_etimedout = 40, uv_eio = 55,
     uv_einval = 18, uv_ebusy = 15\<rparr>"

definition asked_session :: "unit csession" where
  "asked_session = snd (run_state (libusbip_get_devices_info 100 True) (fresh_session ()))"

definition begun_session :: "unit csession" where
  "begun_session = snd (run_state (session_notify easy_uv Little) (snd (run_state (session_notify easy_uv Little) asked_session)))"

theorem timers_of_works_witness:
  "client_steps easy_uv Little (fresh_session ()) begun_session \<and> wk_armed (se_work begun_session 1) \<and> wk_state (se_work begun_session 1) = ws_busy"
proof -
  have a: "client_step easy_uv Little (fresh_session ()) asked_session"
    unfolding asked_session_def by (rule client_step.user [where to = 100 and jb = True]) simp
  let ?n = "\<lambda>s. snd (run_state (session_notify easy_uv Little) s)"
  have n: "client_step easy_uv Little s (?n s)" for s by (rule client_step.notify)
  have "(client_step easy_uv Little)^** (fresh_session ()) (?n (?n asked_session))"
    by (meson a n rtranclp.rtrancl_into_rtrancl rtranclp.rtrancl_refl)
  then have c: "client_steps easy_uv Little (fresh_session ()) begun_session"
    by (simp add: client_steps_def begun_session_def)
  have "wk_armed (se_work begun_session 1)"
    by (simp add: begun_session_def asked_session_def libusbip_get_devices_info_def fresh_session_def work_new_def new_work_def session_notify_def
        cb_process_def session_start_cb_def device_info_req_cb_def new_req_def WORK_BEGIN_def info_start_def easy_uv_def call_uv_def upd_work_def
        upd_req_def WORK_ASYNC_def under_way_def)
  then show ?thesis using timers_of_works [OF c, of 1] c by simp
qed

end
