(* ===== verification/Spec2Isabelle.thy ===== *)
theory Spec2Isabelle
  imports System UHandshake UAttach PtpWit Modules ClientLink ClientHosts ClientInv
begin

text \<open>
  USB/IP: a USB device of one host is used on another one over TCP. On the host of the device the stub driver
  (\<^verbatim>\<open>stub_dev.c\<close>, \<^verbatim>\<open>stub_main.c\<close>, \<^verbatim>\<open>stub_rx.c\<close>, \<^verbatim>\<open>stub_tx.c\<close>) takes the place of the device's driver; on the other
  host the virtual host controller (\<^verbatim>\<open>vhci_hcd.c\<close>, \<^verbatim>\<open>vhci_rx.c\<close>, \<^verbatim>\<open>vhci_tx.c\<close>, \<^verbatim>\<open>vhci_sysfs.c\<close>) offers the device on
  one of its ports, or a program uses the client library (\<^verbatim>\<open>userspace/client/client.c\<close>) and no driver. Both drivers
  share the transport (\<^verbatim>\<open>usbip_common.c\<close>) and a thread that handles the end of a connection (\<^verbatim>\<open>usbip_event.c\<close>); a filter
  driver for PTP cameras (\<^verbatim>\<open>filter_ptp.c\<close>) can sit between the stub and the device. In user space a daemon
  (\<^verbatim>\<open>userspace/src/usbipd.c\<close>) lists devices and hands the connection of a client to the stub, commands
  attach, detach, bind, unbind and list, and two libraries (\<^verbatim>\<open>userspace/libsrc\<close>) read and write the attribute files of the drivers.

  The connection carries packets of 48 bytes in network byte order, followed by data and by descriptors of
  isochronous packets. A request (submit or unlink) of the controller or the client library has a sequence number; the
  result of the stub has the same number, which is how the controller finds the urb that waits.

  \<^bold>\<open>How the code is modelled.\<close> A struct is a record and an enumeration a datatype; integers are words of
  their width, and a signed one is the type \<open>s32\<close>. A function of the kernel modules is a HOL function from the state of
  its device or controller and the world to their new values; the programs of user space, the PTP filter, the client library and the
  modules are programs of a state monad (theory \<open>Effects\<close>), where a loop that may not end gives \<open>None\<close> when it does
  not. What the kernel, the C library or a library does is a field of a record: \<open>kapi\<close> (sockets, memory, USB core),
  \<open>hapi\<close> (the host controller core), \<open>papi\<close> (what the PTP filter uses), \<open>mapi\<close> (loading of modules), \<open>uapi\<close>
  (system calls, sysfs), \<open>capi\<close> (libuv). A property that needs one of them to behave, such as a socket that delivers what
  was sent, states that as a hypothesis about the field, and its witness is an environment in which it holds (theory \<open>Sim\<close>).
  Urbs, requests and works are named by numbers. Fields with no counterpart in C record what no code stores: which urbs
  the device has (\<open>sd_flight\<close>), whether freed memory was used (\<open>sd_oops\<close>, \<open>vh_oops\<close>, \<open>pf_oops\<close>), which urbs the core gave to
  the controller and got back (\<open>vh_urbs\<close>, \<open>vh_given\<close>, \<open>vh_issued\<close>, \<open>vh_next\<close>), whether a buffer was left (\<open>u_fault\<close>,
  \<open>hp_fault\<close>, \<open>se_fault\<close>), what user space allocated (\<open>us_next\<close>, \<open>us_live\<close>, \<open>us_fault\<close>), locks and completions of the filter
  (\<open>pf_held\<close>, \<open>pf_hang\<close>, \<open>pf_given\<close>, \<open>pf_flight\<close>, \<open>pf_next\<close>), what a module holds (\<open>md_held\<close>, \<open>md_bad\<close>), and the ends of works
  (\<open>wk_finished\<close>, \<open>wk_freed\<close>, \<open>wk_pending\<close>, \<open>dv_sent\<close>). No decision of the code reads them.
  Where the code would crash or spin for ever, the model sets the fault or \<open>pf_hang\<close>, which nothing resets, and its further
  steps have no counterpart: a theorem on such an operation says that the fault is not set, or assumes what
  keeps it from being set. Pointers are those of a 64-bit kernel.

  \<^bold>\<open>Shared theories.\<close> \<open>Prelude\<close>: machine types, byte order, buffers. \<open>Wire\<close>: the packets, their images in
  memory, the conversions of \<^verbatim>\<open>usbip_common.c\<close>; the locale \<open>codec\<close> says what a packet format promises and is interpreted for
  headers and descriptors, and in \<open>Common\<close> and \<open>UNet\<close> for the packets of the handshake. \<open>Kernel\<close>: urbs, pipes, endpoints, \<open>kapi\<close>.
  \<open>Common\<close>, \<open>NetLaws\<close>: \<open>usbip_recv\<close>, packing, padding and descriptors. \<open>Event\<close>: rounds of the event handler, and the
  locale \<open>eh_contract\<close> for what the callbacks of a driver promise, interpreted for both drivers. \<open>Filters\<close>: registration
  and calls of filter drivers. \<open>Scan\<close>, \<open>CStdio\<close>: conversions of \<open>sscanf\<close> and \<open>printf\<close>. \<open>Sim\<close>: an environment for witnesses.

  \<^bold>\<open>Stub driver.\<close> \<open>BusId\<close>: the table of bus identifiers and its file \<open>match_busid\<close>, a refinement of a bounded map
  (locale \<open>busid_map\<close>). \<open>Stub\<close>, \<open>StubTx\<close>: receiving, completing, sending. \<open>StubDev\<close>: probing, disconnecting, attribute
  files, callbacks of the event handler. \<open>StubInv\<close>: the steps of a device (\<open>stub_step\<close>) and the invariant that every
  request is in one queue. \<open>StubProps\<close>: completion, unlinking, order of results. \<open>StubHandler\<close>: the end of a connection, pipes.

  \<^bold>\<open>Virtual host controller.\<close> \<open>Vhci\<close>: state, requests, ports. \<open>VhciHub\<close>, \<open>VhciHubProps\<close>: the root hub.
  \<open>VhciUrb\<close>: enqueueing, dequeueing, clean-up. \<open>VhciNet\<close>: receiving and sending. \<open>VhciSysfs\<close>: attribute files. \<open>VhciInv\<close>,
  \<open>VhciReach\<close>: the steps of the controller and its invariant. \<open>VhciProps\<close>, \<open>VhciWire\<close>, \<open>VhciErr\<close>: how often urbs are
  given back, order of requests, results cut short, wrap-around of sequence numbers. \<open>VhciHandler\<close>: the end of a
  connection, attaching.

  \<^bold>\<open>PTP filter.\<close> \<open>Ptp\<close>: state and parser. \<open>PtpFilter\<close>: submitting, serving frames, timer. \<open>PtpDriver\<close>: entry
  points and the steps of a filter (\<open>ptp_step\<close>, \<open>ptp_answer_step\<close>). \<open>PtpAccount\<close>: the locale \<open>ptp_answers\<close> of predicates that
  everything keeps but what the client sends, interpreted for the number of the client's command, and its extension \<open>ptp_program\<close> of
  those that every operation keeps, interpreted for the loss of the processor. \<open>PtpParse\<close>, \<open>PtpEnds\<close>: what the parser does with whole
  containers, that it ends, and what it leaves behind. \<open>PtpProps\<close>, \<open>PtpWit\<close>: the properties and their witnesses.

  \<^bold>\<open>User space.\<close> \<open>USys\<close>: state and \<open>uapi\<close>. \<open>UNet\<close>, \<open>UNetLaws\<close>: the packets of the handshake, sending and receiving.
  \<open>UCommon\<close>, \<open>UHost\<close>, \<open>UVhci\<close>: the libraries. \<open>UDaemon\<close>, \<open>UTools\<close>: the daemon and the commands. \<open>USim\<close>, \<open>UTalk\<close>,
  \<open>UImport\<close>, \<open>UHandshake\<close>: both ends of an import agree. \<open>UStatus\<close>: the library reads the status file of the driver (locale
  \<open>status_file\<close>). \<open>UAttach\<close>: attaching puts the device on a free port.

  \<^bold>\<open>Client library.\<close> \<open>ClientLoop\<close>: works and the macros of the protothreads. \<open>ClientDevice\<close>: opening a device, receiving,
  sending. \<open>ClientSession\<close>: lists of devices, callbacks of libuv, calls of a user, and the steps of a session (\<open>client_step\<close>).
  \<open>ClientInv\<close>: the locale \<open>work_law\<close> of laws of works that every step keeps, interpreted for timers. \<open>ClientProps\<close>,
  \<open>ClientSend\<close>, \<open>ClientWit\<close>: requests written, results received in pieces, transfers lost. \<open>ClientLink\<close>: client library and stub together.
  \<open>ClientHosts\<close>: the list of hosts and the variable \<^verbatim>\<open>LIBUSBIP_HOSTS\<close>.

  \<^bold>\<open>Modules and the whole.\<close> \<open>Modules\<close>: loading and unloading, with the paths that take back what was done (locale
  \<open>kernel_module\<close>). \<open>System\<close>: the bytes the controller sends make the stub submit the same urb to the device, and the bytes of
  its result make the controller give back the right urb.

  \<^bold>\<open>Bounds and fuel.\<close> \<open>recv_loop\<close> ends because the number of bytes left decreases; loops over lists are structural
  recursion; \<open>list_walk\<close> of \<open>Filters\<close> has as many steps as there are nodes. \<open>main_loop\<close> of the daemon has the number of polls as
  fuel and its theorems hold for every number. Loops that may run for ever are \<open>while_option\<close>, and the
  theorems about them say when they end (theory \<open>PtpEnds\<close>) and when they do not (theory \<open>ClientHosts\<close>). Theorems with a limit
  of \<open>2 ^ 31\<close> or similar carry it as a hypothesis, and theory \<open>VhciErr\<close> shows what happens beyond it.

  \<^bold>\<open>What is not modelled.\<close> Functions that run under a lock are single steps, and so is a function between two blocking
  calls: where a function releases a lock in the middle, the interleaving at that point is not explored. Messages, dumps and
  debug flags, which no decision reads. Parsing of command lines, \<^verbatim>\<open>userspace/src/usbip.c\<close>, the printing of local devices
  and of names (\<^verbatim>\<open>userspace/libsrc/names.c\<close>, vendored). Packets that no code sends (export, unexport, devinfo, crypkey).
  Of the client library: its lists of free objects (a freed number is not used again), the thread that waits for a work, and the
  start and end of its loop. \<^verbatim>\<open>userspace/client/libusb0\<close>: \<^verbatim>\<open>usbip.c\<close> does not compile as it is, and the rest is vendored from
  libusb 0.1, as are the headers of libgphoto2 and the macro libraries. The gadget driver is an example.
\<close>

end
